(* ===== verification/Go_Base.thy ===== *)
theory Go_Base
  imports Main
begin

text \<open>
  Prelude of the development: what the components share of the Go language and its standard
  library.  It holds the types that name the model's values (durations in nanoseconds, results
  with an error on the left), the string functions of package \<open>strings\<close> that the sources call,
  decimal conversion (\<open>strconv.Itoa\<close>, \<open>strconv.Atoi\<close>), the binary search of
  \<open>sort.SearchInts\<close>, and the generic lemmas on sorted lists that the scheduler proofs use.
  A Go string is a list of bytes (\<open>string\<close>); the case functions work on ASCII letters.
\<close>

section \<open>Collections of rewrite rules\<close>

named_theorems go_simps \<open>evaluation rules for the Go library functions\<close>
named_theorems wf_intros \<open>introduction rules for the invariants of the components\<close>

section \<open>Machine integers\<close>

text \<open>Go's \<open>int\<close> and \<open>int64\<close> are 64 bits wide; the model keeps values as \<open>int\<close>
  and writes the limits out where the code can reach them.\<close>

definition maxInt64 :: int where
  "maxInt64 = 9223372036854775807"

definition minInt64 :: int where
  "minInt64 = -9223372036854775808"

definition clamp64 :: "int \<Rightarrow> int" where
  "clamp64 x = (if x > maxInt64 then maxInt64 else if x < minInt64 then minInt64 else x)"

lemma clamp64_id [simp]: "minInt64 \<le> x \<Longrightarrow> x \<le> maxInt64 \<Longrightarrow> clamp64 x = x"
  by (simp add: clamp64_def)

lemma clamp64_range: "minInt64 \<le> clamp64 x \<and> clamp64 x \<le> maxInt64"
  by (simp add: clamp64_def minInt64_def maxInt64_def)

lemma clamp64_pos_iff: "0 < clamp64 x \<longleftrightarrow> 0 < x"
  by (simp add: clamp64_def minInt64_def maxInt64_def)

section \<open>Strings\<close>

definition is_digit :: "char \<Rightarrow> bool" where
  "is_digit c \<longleftrightarrow> 48 \<le> (of_char c :: int) \<and> (of_char c :: int) \<le> 57"

definition digit_val :: "char \<Rightarrow> int" where
  "digit_val c = of_char c - 48"

definition digit_char :: "nat \<Rightarrow> char" where
  "digit_char n = char_of (48 + int n)"

definition lower_char :: "char \<Rightarrow> char" where
  "lower_char c =
     (if 65 \<le> (of_char c :: int) \<and> (of_char c :: int) \<le> 90 then char_of ((of_char c :: int) + 32) else c)"

definition upper_char :: "char \<Rightarrow> char" where
  "upper_char c =
     (if 97 \<le> (of_char c :: int) \<and> (of_char c :: int) \<le> 122 then char_of ((of_char c :: int) - 32) else c)"

definition ToLower :: "string \<Rightarrow> string" where
  "ToLower s = map lower_char s"

definition ToUpper :: "string \<Rightarrow> string" where
  "ToUpper s = map upper_char s"

fun HasPrefix :: "string \<Rightarrow> string \<Rightarrow> bool" where
  "HasPrefix s [] = True"
| "HasPrefix [] (p # ps) = False"
| "HasPrefix (c # cs) (p # ps) = (c = p \<and> HasPrefix cs ps)"

text \<open>\<open>strings.Split s sep\<close> for a separator of one byte.\<close>

fun SplitByte :: "char \<Rightarrow> string \<Rightarrow> string list" where
  "SplitByte sep [] = [[]]"
| "SplitByte sep (c # cs) =
     (if c = sep then [] # SplitByte sep cs
      else (case SplitByte sep cs of [] \<Rightarrow> [[c]] | w # ws \<Rightarrow> (c # w) # ws))"

fun JoinStr :: "string \<Rightarrow> string list \<Rightarrow> string" where
  "JoinStr sep [] = []"
| "JoinStr sep [w] = w"
| "JoinStr sep (w # v # ws) = w @ sep @ JoinStr sep (v # ws)"

lemma SplitByte_nonempty [simp]: "SplitByte sep s \<noteq> []"
  by (induction s) (auto split: list.splits)

lemma JoinStr_SplitByte: "JoinStr [sep] (SplitByte sep s) = s"
proof (induction s)
  case Nil
  then show ?case by simp
next
  case (Cons c cs)
  obtain w ws where eq: "SplitByte sep cs = w # ws"
    by (cases "SplitByte sep cs") auto
  with Cons show ?case by (cases ws) auto
qed

text \<open>The pieces that \<open>regexp\<close> finds for \<open>[^,]+\<close> or \<open>\S+\<close>: the maximal non-empty runs of
  bytes outside a class, left to right.\<close>

fun runs_acc :: "(char \<Rightarrow> bool) \<Rightarrow> string \<Rightarrow> string \<Rightarrow> string list" where
  "runs_acc sep acc [] = (if acc = [] then [] else [rev acc])"
| "runs_acc sep acc (c # cs) =
     (if sep c then (if acc = [] then runs_acc sep [] cs else rev acc # runs_acc sep [] cs)
      else runs_acc sep (c # acc) cs)"

definition FindRuns :: "(char \<Rightarrow> bool) \<Rightarrow> string \<Rightarrow> string list" where
  "FindRuns sep s = runs_acc sep [] s"

lemma runs_acc_nonempty: "w \<in> set (runs_acc sep acc s) \<Longrightarrow> w \<noteq> []"
  by (induction sep acc s rule: runs_acc.induct) (auto split: if_splits)

lemma runs_acc_clean:
  "w \<in> set (runs_acc sep acc s) \<Longrightarrow> \<forall>c \<in> set acc. \<not> sep c \<Longrightarrow> \<forall>c \<in> set w. \<not> sep c"
proof (induction sep acc s rule: runs_acc.induct)
  case (1 sep acc)
  then show ?case by (cases acc) simp_all
next
  case (2 sep acc c cs)
  show ?case
  proof (cases "sep c")
    case True
    with 2 show ?thesis by (cases "acc = []") fastforce+
  next
    case False
    then have "w \<in> set (runs_acc sep (c # acc) cs)" using "2.prems"(1) by simp
    then show ?thesis using "2.IH"(3) False "2.prems"(2) by simp
  qed
qed

section \<open>Decimal numbers\<close>

fun Itoa_nat :: "nat \<Rightarrow> string" where
  "Itoa_nat n = (if n < 10 then [digit_char n] else Itoa_nat (n div 10) @ [digit_char (n mod 10)])"

declare Itoa_nat.simps [simp del]

definition Itoa :: "int \<Rightarrow> string" where
  "Itoa i = (if i < 0 then CHR ''-'' # Itoa_nat (nat (- i)) else Itoa_nat (nat i))"

definition digits_val :: "string \<Rightarrow> int" where
  "digits_val s = foldl (\<lambda>a c. 10 * a + digit_val c) 0 s"

text \<open>
  \<open>strconv.Atoi\<close>: an optional sign and at least one digit.  A number that does not fit in 64
  bits is a range error and the value returned beside the error is the nearest limit; a syntax
  error returns 0.  The result is the value and whether the error is nil.
\<close>

definition Atoi :: "string \<Rightarrow> int \<times> bool" where
  "Atoi s =
     (let (neg, ds) = (case s of
                         c # cs \<Rightarrow> if c = CHR ''-'' then (True, cs)
                                   else if c = CHR ''+'' then (False, cs) else (False, s)
                       | [] \<Rightarrow> (False, []))
      in if ds = [] \<or> \<not> list_all is_digit ds then (0, False)
         else let v = (if neg then - digits_val ds else digits_val ds)
              in (clamp64 v, clamp64 v = v))"

lemma of_char_digit [simp]: "n < 10 \<Longrightarrow> (of_char (digit_char n) :: int) = 48 + int n"
  by (simp add: digit_char_def)

lemma digit_char_simps [simp]:
  "n < 10 \<Longrightarrow> is_digit (digit_char n)"
  "n < 10 \<Longrightarrow> digit_val (digit_char n) = int n"
  by (simp_all add: is_digit_def digit_val_def)

lemma digits_val_snoc [simp]: "digits_val (s @ [c]) = 10 * digits_val s + digit_val c"
  by (simp add: digits_val_def)

lemma digits_val_Nil [simp]: "digits_val [] = 0"
  by (simp add: digits_val_def)

lemma digits_val_Itoa_nat [simp]: "digits_val (Itoa_nat n) = int n"
proof (induction n rule: Itoa_nat.induct)
  case (1 n)
  show ?case
  proof (cases "n < 10")
    case True
    then show ?thesis by (subst Itoa_nat.simps) (simp add: digits_val_def)
  next
    case False
    with "1.IH" show ?thesis by (subst Itoa_nat.simps) (simp add: zdiv_int zmod_int)
  qed
qed

lemma Itoa_nat_digits [simp]: "list_all is_digit (Itoa_nat n)"
proof (induction n rule: Itoa_nat.induct)
  case (1 n)
  show ?case
  proof (cases "n < 10")
    case True
    then show ?thesis by (subst Itoa_nat.simps) simp
  next
    case False
    with "1.IH" show ?thesis by (subst Itoa_nat.simps) simp
  qed
qed

lemma Itoa_nat_nonempty [simp]: "Itoa_nat n \<noteq> []"
  by (subst Itoa_nat.simps) simp

lemma digit_not_sign: "is_digit c \<Longrightarrow> c \<noteq> CHR ''-'' \<and> c \<noteq> CHR ''+''"
  by (auto simp: is_digit_def)

lemma Atoi_Itoa:
  assumes "minInt64 \<le> i" and "i \<le> maxInt64"
  shows "Atoi (Itoa i) = (i, True)"
proof (cases "i < 0")
  case True
  with assms show ?thesis by (simp add: Atoi_def Itoa_def Let_def)
next
  case False
  obtain c cs where eq: "Itoa_nat (nat i) = c # cs"
    by (cases "Itoa_nat (nat i)") auto
  moreover have "is_digit c" "list_all is_digit (c # cs)"
    using Itoa_nat_digits [of "nat i"] eq by auto
  moreover have "digits_val (c # cs) = int (nat i)"
    using digits_val_Itoa_nat [of "nat i"] eq by simp
  ultimately show ?thesis
    using False assms by (simp add: Atoi_def Itoa_def Let_def digit_not_sign)
qed

section \<open>Binary search\<close>

text \<open>
  \<open>sort.SearchInts\<close> is the binary search of \<open>sort.Search\<close> for the predicate
  \<open>a[h] >= x\<close>: the loop keeps the bounds \<open>i\<close> and \<open>j\<close>.
\<close>

function search_loop :: "int list \<Rightarrow> int \<Rightarrow> nat \<Rightarrow> nat \<Rightarrow> nat" where
  "search_loop a x i j =
     (if i < j
      then let h = (i + j) div 2
           in if a ! h \<ge> x then search_loop a x i h else search_loop a x (Suc h) j
      else i)"
  by pat_completeness auto
termination
  by (relation "measure (\<lambda>(a, x, i, j). j - i)") auto

declare search_loop.simps [simp del]

definition SearchInts :: "int list \<Rightarrow> int \<Rightarrow> nat" where
  "SearchInts a x = search_loop a x 0 (length a)"

lemma search_loop_spec:
  assumes "sorted a" "i \<le> j" "j \<le> length a"
    and "\<forall>k < i. a ! k < x" "\<forall>k. j \<le> k \<and> k < length a \<longrightarrow> x \<le> a ! k"
  shows "search_loop a x i j \<le> length a \<and> (\<forall>k < search_loop a x i j. a ! k < x) \<and>
         (\<forall>k. search_loop a x i j \<le> k \<and> k < length a \<longrightarrow> x \<le> a ! k)"
  using assms
proof (induction a x i j rule: search_loop.induct)
  case (1 a x i j)
  let ?h = "(i + j) div 2"
  show ?case
  proof (cases "i < j")
    case False
    then have eq: "search_loop a x i j = i" by (subst search_loop.simps) simp
    from False "1.prems"(2) have "i = j" by simp
    with "1.prems" show ?thesis unfolding eq by blast
  next
    case lt: True
    then have h: "i \<le> ?h" "?h < j" by auto
    show ?thesis
    proof (cases "a ! ?h \<ge> x")
      case True
      have up: "\<forall>k. ?h \<le> k \<and> k < length a \<longrightarrow> x \<le> a ! k"
        using True "1.prems"(1) by (meson order_trans sorted_nth_mono)
      have eq: "search_loop a x i j = search_loop a x i ?h"
        using lt True by (subst search_loop.simps) (simp add: Let_def)
      show ?thesis unfolding eq
        by (rule "1.IH"(1) [OF lt refl True "1.prems"(1) h(1)]) (use "1.prems" h up in auto)
    next
      case False
      have low: "\<forall>k < Suc ?h. a ! k < x"
      proof (intro allI impI)
        fix k assume "k < Suc ?h"
        then have "a ! k \<le> a ! ?h"
          using "1.prems"(1,3) h(2) by (intro sorted_nth_mono) auto
        with False show "a ! k < x" by simp
      qed
      have eq: "search_loop a x i j = search_loop a x (Suc ?h) j"
        using lt False by (subst search_loop.simps) (simp add: Let_def)
      show ?thesis unfolding eq
        by (rule "1.IH"(2) [OF lt refl False "1.prems"(1)]) (use "1.prems" h low in auto)
    qed
  qed
qed

lemma SearchInts_spec:
  assumes "sorted a"
  shows "SearchInts a x \<le> length a" "\<And>k. k < SearchInts a x \<Longrightarrow> a ! k < x"
    "\<And>k. SearchInts a x \<le> k \<Longrightarrow> k < length a \<Longrightarrow> x \<le> a ! k"
  using search_loop_spec [OF assms, of 0 "length a" x] by (auto simp: SearchInts_def)

text \<open>On a sorted list the search finds the least element that is large enough, if there is one.\<close>

lemma SearchInts_length_iff:
  assumes "sorted a"
  shows "SearchInts a x = length a \<longleftrightarrow> (\<forall>y \<in> set a. y < x)"
proof
  assume "SearchInts a x = length a"
  then show "\<forall>y \<in> set a. y < x"
    using SearchInts_spec(2) [OF assms, of _ x] by (auto simp: in_set_conv_nth)
next
  assume all: "\<forall>y \<in> set a. y < x"
  show "SearchInts a x = length a"
  proof (rule ccontr)
    assume "SearchInts a x \<noteq> length a"
    then have lt: "SearchInts a x < length a"
      using SearchInts_spec(1) [OF assms, of x] by simp
    then have "x \<le> a ! SearchInts a x"
      using SearchInts_spec(3) [OF assms] by blast
    with all lt show False by (metis linorder_not_less nth_mem)
  qed
qed

lemma SearchInts_least:
  assumes "sorted a" and "SearchInts a x \<noteq> length a"
  shows "SearchInts a x < length a" "a ! SearchInts a x \<in> set a" "x \<le> a ! SearchInts a x"
    "\<And>y. y \<in> set a \<Longrightarrow> x \<le> y \<Longrightarrow> a ! SearchInts a x \<le> y"
proof -
  show lt: "SearchInts a x < length a"
    using assms SearchInts_spec(1) [OF assms(1), of x] by simp
  then show "a ! SearchInts a x \<in> set a" by simp
  show "x \<le> a ! SearchInts a x"
    using SearchInts_spec(3) [OF assms(1) order_refl lt] .
  fix y assume "y \<in> set a" "x \<le> y"
  then obtain k where k: "k < length a" "a ! k = y" by (auto simp: in_set_conv_nth)
  then have "SearchInts a x \<le> k"
    using \<open>x \<le> y\<close> SearchInts_spec(2) [OF assms(1), of k x] by fastforce
  with k assms(1) show "a ! SearchInts a x \<le> y" by (auto intro: sorted_nth_mono)
qed

section \<open>Refinement of state machines with outputs\<close>

fun runOps :: "('s \<Rightarrow> 'op \<Rightarrow> 'o \<times> 's) \<Rightarrow> 's \<Rightarrow> 'op list \<Rightarrow> 'o list \<times> 's" where
  "runOps step s [] = ([], s)"
| "runOps step s (c # cs) =
     (let (o1, s1) = step s c; (os, s2) = runOps step s1 cs in (o1 # os, s2))"

text \<open>A component that implements a specification: under its invariant, one operation gives the
  output of the specified one and leaves a state that abstracts to the specified state.\<close>

locale refinement =
  fixes step :: "'s \<Rightarrow> 'op \<Rightarrow> 'o \<times> 's"
    and spec :: "'t \<Rightarrow> 'op \<Rightarrow> 'o \<times> 't"
    and inv :: "'s \<Rightarrow> bool"
    and abs :: "'s \<Rightarrow> 't"
  assumes step_inv: "inv s \<Longrightarrow> inv (snd (step s c))"
    and step_abs: "inv s \<Longrightarrow> spec (abs s) c = (fst (step s c), abs (snd (step s c)))"
begin

lemma run_refines:
  "inv s \<Longrightarrow> inv (snd (runOps step s cs)) \<and>
     runOps spec (abs s) cs = (fst (runOps step s cs), abs (snd (runOps step s cs)))"
proof (induction cs arbitrary: s)
  case (Cons c cs)
  from Cons.IH [OF step_inv [OF Cons.prems, of c]] step_abs [OF Cons.prems, of c] show ?case
    by (simp add: split_beta Let_def)
qed simp

lemma run_outputs: "inv s \<Longrightarrow> fst (runOps step s cs) = fst (runOps spec (abs s) cs)"
  using run_refines [of s cs] by simp

end

end
