(* ===== verification/Go_Time.thy ===== *)
theory Go_Time
  imports Go_Base
begin

text \<open>
  Package \<open>time\<close> as the sources use it.  A \<open>time.Time\<close> is kept as its civil fields in its
  location; a location is a fixed offset from UTC in seconds, so locations with daylight-saving
  transitions are outside the model.  \<open>time.Date\<close> normalises fields that are out of range
  exactly as the package documents (October 32 is November 1), \<open>AddDate\<close>, \<open>Add\<close>, \<open>Sub\<close>,
  \<open>Weekday\<close> and the comparisons are defined from it and from the count of days since
  0001-01-01.  The lemmas show that normalisation keeps the instant, that \<open>Date\<close> is the identity
  on fields in range, that the weekday advances by one from day to day, and that the order of
  instants in one location is the lexicographic order of the fields.
\<close>

section \<open>Calendar\<close>

definition isLeap :: "int \<Rightarrow> bool" where
  "isLeap y \<longleftrightarrow> y mod 4 = 0 \<and> (y mod 100 \<noteq> 0 \<or> y mod 400 = 0)"

definition daysIn :: "int \<Rightarrow> int \<Rightarrow> int" where
  "daysIn y m =
     (if m = 2 then (if isLeap y then 29 else 28)
      else if m = 4 \<or> m = 6 \<or> m = 9 \<or> m = 11 then 30 else 31)"

lemma daysIn_bounds: "28 \<le> daysIn y m" "daysIn y m \<le> 31"
  by (simp_all add: daysIn_def)

text \<open>Days from 0001-01-01 to January 1 of year \<open>y\<close>, and from there to the first of a month.\<close>

definition daysBeforeYear :: "int \<Rightarrow> int" where
  "daysBeforeYear y = 365 * (y - 1) + (y - 1) div 4 - (y - 1) div 100 + (y - 1) div 400"

definition daysBeforeMonth :: "int \<Rightarrow> int \<Rightarrow> int" where
  "daysBeforeMonth y m =
     (if m \<le> 1 then 0 else if m = 2 then 31
      else (if isLeap y then 1 else 0) +
           (if m = 3 then 59 else if m = 4 then 90 else if m = 5 then 120 else if m = 6 then 151
            else if m = 7 then 181 else if m = 8 then 212 else if m = 9 then 243
            else if m = 10 then 273 else if m = 11 then 304 else 334))"

definition absDays :: "int \<Rightarrow> int \<Rightarrow> int \<Rightarrow> int" where
  "absDays y m d = daysBeforeYear y + daysBeforeMonth y m + (d - 1)"

lemma div_pred:
  fixes y k :: int
  assumes "0 < k"
  shows "y div k = (y - 1) div k + (if y mod k = 0 then 1 else 0)"
proof (cases "y mod k = 0")
  case True
  then have "y - 1 = k * (y div k - 1) + (k - 1)"
    using mult_div_mod_eq [of k y] by (simp add: algebra_simps)
  then have "(y - 1) div k = y div k - 1"
    using assms by (intro int_div_pos_eq [where r = "k - 1"]) auto
  with True show ?thesis by simp
next
  case False
  have "0 \<le> y mod k" "y mod k < k" using assms by auto
  moreover have "y - 1 = k * (y div k) + (y mod k - 1)"
    using mult_div_mod_eq [of k y] by simp
  ultimately have "(y - 1) div k = y div k"
    using False by (intro int_div_pos_eq [where r = "y mod k - 1"]) auto
  with False show ?thesis by simp
qed

lemma leap_count:
  fixes p q r :: bool
  assumes "r \<longrightarrow> q" "q \<longrightarrow> p"
  shows "(if p then 1 else 0) - (if q then 1 else 0) + (if r then 1 else 0) =
         (if p \<and> (\<not> q \<or> r) then 1 else (0::int))"
  using assms by (cases p; cases q; cases r) simp_all

lemma mod_multiple: "(a::int) mod (k * l) = 0 \<Longrightarrow> a mod k = 0"
  by (metis dvd_imp_mod_0 dvd_mult_left mod_0_imp_dvd)

lemma daysBeforeYear_Suc: "daysBeforeYear (y + 1) = daysBeforeYear y + (if isLeap y then 366 else 365)"
proof -
  have d: "y div 4 = (y - 1) div 4 + (if y mod 4 = 0 then 1 else 0)"
    "y div 100 = (y - 1) div 100 + (if y mod 100 = 0 then 1 else 0)"
    "y div 400 = (y - 1) div 400 + (if y mod 400 = 0 then 1 else 0)"
    by (rule div_pred, simp)+
  have m: "y mod 400 = 0 \<longrightarrow> y mod 100 = 0" "y mod 100 = 0 \<longrightarrow> y mod 4 = 0"
    using mod_multiple [of y 100 4] mod_multiple [of y 4 25] by simp_all
  have l: "(if y mod 4 = 0 then 1 else 0) - (if y mod 100 = 0 then 1 else 0) +
      (if y mod 400 = 0 then 1 else 0) = (if isLeap y then 1 else (0::int))"
    unfolding isLeap_def by (rule leap_count [OF m])
  have "daysBeforeYear (y + 1) = 365 * y + y div 4 - y div 100 + y div 400"
    by (simp add: daysBeforeYear_def)
  also have "\<dots> = 365 * y + (y - 1) div 4 - (y - 1) div 100 + (y - 1) div 400 +
      ((if y mod 4 = 0 then 1 else 0) - (if y mod 100 = 0 then 1 else 0) + (if y mod 400 = 0 then 1 else 0))"
    by (simp only: d)
  also have "\<dots> = daysBeforeYear y + 365 + (if isLeap y then 1 else 0)"
    unfolding l daysBeforeYear_def by simp
  finally show ?thesis by (cases "isLeap y") simp_all
qed

lemma daysBeforeMonth_Suc:
  "1 \<le> m \<Longrightarrow> m < 12 \<Longrightarrow> daysBeforeMonth y (m + 1) = daysBeforeMonth y m + daysIn y m"
proof -
  assume "1 \<le> m" "m < 12"
  then have "m = 1 \<or> m = 2 \<or> m = 3 \<or> m = 4 \<or> m = 5 \<or> m = 6 \<or> m = 7 \<or> m = 8 \<or> m = 9 \<or> m = 10 \<or> m = 11"
    by arith
  then show ?thesis by (elim disjE) (simp_all add: daysBeforeMonth_def daysIn_def)
qed

lemma daysBeforeMonth_12: "daysBeforeMonth y 12 + 31 = (if isLeap y then 366 else 365)"
  by (simp add: daysBeforeMonth_def)

text \<open>The successor and the predecessor of a month.\<close>

definition nextYM :: "int \<times> int \<Rightarrow> int \<times> int" where
  "nextYM = (\<lambda>(y, m). if m = 12 then (y + 1, 1) else (y, m + 1))"

definition prevYM :: "int \<times> int \<Rightarrow> int \<times> int" where
  "prevYM = (\<lambda>(y, m). if m = 1 then (y - 1, 12) else (y, m - 1))"

lemma absDays_nextYM:
  assumes "1 \<le> m" "m \<le> 12" "nextYM (y, m) = (y', m')"
  shows "absDays y' m' d = absDays y m (d + daysIn y m)"
proof (cases "m = 12")
  case True
  with assms(3) have "y' = y + 1" "m' = 1" by (auto simp: nextYM_def)
  with True show ?thesis
    using daysBeforeMonth_12 [of y]
    by (simp add: absDays_def daysBeforeYear_Suc daysIn_def daysBeforeMonth_def)
next
  case False
  with assms have "y' = y" "m' = m + 1" "m < 12" by (auto simp: nextYM_def)
  with assms(1) show ?thesis by (simp add: absDays_def daysBeforeMonth_Suc)
qed

lemma nextYM_prevYM: "1 \<le> m \<Longrightarrow> m \<le> 12 \<Longrightarrow> nextYM (prevYM (y, m)) = (y, m)"
  by (simp add: nextYM_def prevYM_def)

lemma YM_range:
  "1 \<le> m \<Longrightarrow> m \<le> 12 \<Longrightarrow> nextYM (y, m) = (y', m') \<Longrightarrow> 1 \<le> m' \<and> m' \<le> 12"
  "1 \<le> m \<Longrightarrow> m \<le> 12 \<Longrightarrow> prevYM (y, m) = (y', m') \<Longrightarrow> 1 \<le> m' \<and> m' \<le> 12"
  by (auto simp: nextYM_def prevYM_def split: if_splits)

section \<open>Normalisation\<close>

text \<open>Days out of range move to the neighbouring months.\<close>

function normDay :: "int \<Rightarrow> int \<Rightarrow> int \<Rightarrow> int \<times> int \<times> int" where
  "normDay y m d =
     (if d < 1 then (case prevYM (y, m) of (y', m') \<Rightarrow> normDay y' m' (d + daysIn y' m'))
      else if d > daysIn y m then (case nextYM (y, m) of (y', m') \<Rightarrow> normDay y' m' (d - daysIn y m))
      else (y, m, d))"
  by pat_completeness auto
termination
proof (relation "measure (\<lambda>(y, m, d). if d < 1 then 100 + nat (- d) else nat d)", goal_cases)
  case 1
  then show ?case by simp
next
  case (2 y m d x y')
  then show ?case using daysIn_bounds [of x y'] by (auto split: if_splits)
next
  case (3 y m d x y')
  then show ?case using daysIn_bounds [of y m] by auto
qed

declare normDay.simps [simp del]

lemma normDay_id [simp]: "1 \<le> d \<Longrightarrow> d \<le> daysIn y m \<Longrightarrow> normDay y m d = (y, m, d)"
  by (subst normDay.simps) simp

lemma normDay_spec:
  assumes "1 \<le> m" "m \<le> 12" "normDay y m d = (y', m', d')"
  shows "1 \<le> m' \<and> m' \<le> 12 \<and> 1 \<le> d' \<and> d' \<le> daysIn y' m' \<and> absDays y' m' d' = absDays y m d"
  using assms
proof (induction y m d rule: normDay.induct)
  case (1 y m d)
  consider (low) "d < 1" | (high) "\<not> d < 1" "d > daysIn y m" | (ok) "1 \<le> d" "d \<le> daysIn y m"
    by linarith
  then show ?case
  proof cases
    case low
    obtain y1 m1 where p: "prevYM (y, m) = (y1, m1)" by (cases "prevYM (y, m)")
    have r: "1 \<le> m1" "m1 \<le> 12" using YM_range(2) [OF "1.prems"(1,2) p] by auto
    have n: "nextYM (y1, m1) = (y, m)"
      using nextYM_prevYM [OF "1.prems"(1,2), of y] p by simp
    have "normDay y1 m1 (d + daysIn y1 m1) = (y', m', d')"
      using "1.prems"(3) low p by (subst (asm) normDay.simps) simp
    from "1.IH"(1) [OF low p [symmetric] r this] absDays_nextYM [OF r n, of d]
    show ?thesis by simp
  next
    case high
    obtain y1 m1 where p: "nextYM (y, m) = (y1, m1)" by (cases "nextYM (y, m)")
    have r: "1 \<le> m1" "m1 \<le> 12" using YM_range(1) [OF "1.prems"(1,2) p] by auto
    have "normDay y1 m1 (d - daysIn y m) = (y', m', d')"
      using "1.prems"(3) high p by (subst (asm) normDay.simps) simp
    from "1.IH"(2) [OF high p [symmetric] r this] absDays_nextYM [OF "1.prems"(1,2) p, of "d - daysIn y m"]
    show ?thesis by simp
  next
    case ok
    with 1 show ?thesis by simp
  qed
qed

section \<open>Times\<close>

record gotime =
  tYear :: int
  tMonth :: int
  tDay :: int
  tHour :: int
  tMinute :: int
  tSecond :: int
  tNano :: int
  tLoc :: int

definition valid_time :: "gotime \<Rightarrow> bool" where
  "valid_time t \<longleftrightarrow> 1 \<le> tMonth t \<and> tMonth t \<le> 12 \<and> 1 \<le> tDay t \<and> tDay t \<le> daysIn (tYear t) (tMonth t) \<and>
     0 \<le> tHour t \<and> tHour t < 24 \<and> 0 \<le> tMinute t \<and> tMinute t < 60 \<and>
     0 \<le> tSecond t \<and> tSecond t < 60 \<and> 0 \<le> tNano t \<and> tNano t < 1000000000"

text \<open>\<open>time.Date\<close>: seconds, minutes, hours and months carry into the next unit, then the day.\<close>

definition Date :: "int \<Rightarrow> int \<Rightarrow> int \<Rightarrow> int \<Rightarrow> int \<Rightarrow> int \<Rightarrow> int \<Rightarrow> int \<Rightarrow> gotime" where
  "Date y mo d h mi s ns loc =
     (let s' = s + ns div 1000000000;
          mi' = mi + s' div 60;
          h' = h + mi' div 60;
          d' = d + h' div 24;
          y' = y + (mo - 1) div 12;
          (y2, m2, d2) = normDay y' ((mo - 1) mod 12 + 1) d'
      in \<lparr>tYear = y2, tMonth = m2, tDay = d2, tHour = h' mod 24, tMinute = mi' mod 60,
          tSecond = s' mod 60, tNano = ns mod 1000000000, tLoc = loc\<rparr>)"

text \<open>The zero value \<open>time.Time{}\<close> is 0001-01-01 00:00:00 UTC.\<close>

definition zeroTime :: gotime where
  "zeroTime = \<lparr>tYear = 1, tMonth = 1, tDay = 1, tHour = 0, tMinute = 0, tSecond = 0, tNano = 0, tLoc = 0\<rparr>"

text \<open>Nanoseconds from the zero time: the instant.\<close>

definition wallSeconds :: "gotime \<Rightarrow> int" where
  "wallSeconds t = absDays (tYear t) (tMonth t) (tDay t) * 86400 + tHour t * 3600 + tMinute t * 60 + tSecond t"

definition instant :: "gotime \<Rightarrow> int" where
  "instant t = (wallSeconds t - tLoc t) * 1000000000 + tNano t"

definition IsZero :: "gotime \<Rightarrow> bool" where
  "IsZero t \<longleftrightarrow> instant t = 0"

definition After :: "gotime \<Rightarrow> gotime \<Rightarrow> bool" where
  "After t u \<longleftrightarrow> instant t > instant u"

definition Before :: "gotime \<Rightarrow> gotime \<Rightarrow> bool" where
  "Before t u \<longleftrightarrow> instant t < instant u"

text \<open>\<open>Sub\<close> saturates at the limits of \<open>time.Duration\<close>.\<close>

definition Sub :: "gotime \<Rightarrow> gotime \<Rightarrow> int" where
  "Sub t u = clamp64 (instant t - instant u)"

definition Add :: "gotime \<Rightarrow> int \<Rightarrow> gotime" where
  "Add t d = Date (tYear t) (tMonth t) (tDay t) (tHour t) (tMinute t) (tSecond t) (tNano t + d) (tLoc t)"

definition AddDate :: "gotime \<Rightarrow> int \<Rightarrow> int \<Rightarrow> int \<Rightarrow> gotime" where
  "AddDate t ys ms ds =
     Date (tYear t + ys) (tMonth t + ms) (tDay t + ds) (tHour t) (tMinute t) (tSecond t) (tNano t) (tLoc t)"

text \<open>Sunday is 0; 0001-01-01 was a Monday.\<close>

definition dayOfWeek :: "int \<Rightarrow> int \<Rightarrow> int \<Rightarrow> int" where
  "dayOfWeek y m d = (absDays y m d + 1) mod 7"

definition Weekday :: "gotime \<Rightarrow> int" where
  "Weekday t = dayOfWeek (tYear t) (tMonth t) (tDay t)"

subsection \<open>Laws\<close>

lemma dayOfWeek_range: "0 \<le> dayOfWeek y m d" "dayOfWeek y m d < 7"
  by (simp_all add: dayOfWeek_def)

lemma dayOfWeek_shift: "dayOfWeek y m (d + k) = (dayOfWeek y m d + k) mod 7"
proof -
  have "absDays y m (d + k) + 1 = (absDays y m d + 1) + k" by (simp add: absDays_def)
  then show ?thesis unfolding dayOfWeek_def by (simp only: mod_add_left_eq)
qed

lemma Date_id:
  assumes "1 \<le> mo" "mo \<le> 12" "1 \<le> d" "d \<le> daysIn y mo" "0 \<le> h" "h < 24" "0 \<le> mi" "mi < 60"
    "0 \<le> s" "s < 60" "0 \<le> ns" "ns < 1000000000"
  shows "Date y mo d h mi s ns loc = \<lparr>tYear = y, tMonth = mo, tDay = d, tHour = h, tMinute = mi,
    tSecond = s, tNano = ns, tLoc = loc\<rparr>"
proof -
  have "(mo - 1) div 12 = 0" "(mo - 1) mod 12 = mo - 1" using assms by simp_all
  then show ?thesis using assms by (simp add: Date_def Let_def)
qed

lemma valid_Date: "valid_time (Date y mo d h mi s ns loc)"
proof -
  let ?m = "(mo - 1) mod 12 + 1"
  obtain y2 m2 d2 where n: "normDay (y + (mo - 1) div 12) ?m
      (d + (h + (mi + (s + ns div 1000000000) div 60) div 60) div 24) = (y2, m2, d2)"
    by (cases "normDay (y + (mo - 1) div 12) ?m
      (d + (h + (mi + (s + ns div 1000000000) div 60) div 60) div 24)") auto
  have "0 \<le> (mo - 1) mod 12" "(mo - 1) mod 12 < 12" by simp_all
  then have "1 \<le> ?m" "?m \<le> 12" by linarith+
  from normDay_spec [OF this n] n show ?thesis
    by (simp add: Date_def Let_def valid_time_def)
qed

lemma carry_sum:
  fixes A :: int
  assumes "h + qm = qh * 24 + rh" "mi + qs = qm * 60 + rm" "s + qn = qs * 60 + rs"
    "ns = qn * 1000000000 + rn"
  shows "((A + qh) * 86400 + rh * 3600 + rm * 60 + rs - loc) * 1000000000 + rn =
    (A * 86400 + h * 3600 + mi * 60 + s - loc) * 1000000000 + ns"
proof -
  from assms have "rh = h + qm - qh * 24" "rm = mi + qs - qm * 60" "rs = s + qn - qs * 60"
    "rn = ns - qn * 1000000000"
    by simp_all
  then show ?thesis by (simp only: algebra_simps)
qed

lemma instant_Date:
  assumes "1 \<le> mo" "mo \<le> 12"
  shows "instant (Date y mo d h mi s ns loc) =
    (absDays y mo d * 86400 + h * 3600 + mi * 60 + s - loc) * 1000000000 + ns"
proof -
  let ?s = "s + ns div 1000000000"
  let ?mi = "mi + ?s div 60"
  let ?h = "h + ?mi div 60"
  let ?d = "d + ?h div 24"
  have mo: "(mo - 1) div 12 = 0" "(mo - 1) mod 12 = mo - 1" using assms by simp_all
  obtain y2 m2 d2 where n: "normDay y mo ?d = (y2, m2, d2)"
    by (cases "normDay y mo ?d") auto
  have a: "absDays y2 m2 d2 = absDays y mo d + ?h div 24"
    using normDay_spec [OF assms n] by (simp add: absDays_def)
  have "instant (Date y mo d h mi s ns loc) =
     (absDays y2 m2 d2 * 86400 + ?h mod 24 * 3600 + ?mi mod 60 * 60 + ?s mod 60 - loc) * 1000000000 +
       ns mod 1000000000"
    using n mo by (simp add: Date_def Let_def instant_def wallSeconds_def)
  also have "\<dots> = (absDays y mo d * 86400 + h * 3600 + mi * 60 + s - loc) * 1000000000 + ns"
    unfolding a by (rule carry_sum [where qm = "?mi div 60" and qs = "?s div 60" and qn = "ns div 1000000000"])
      (rule div_mult_mod_eq [symmetric])+
  finally show ?thesis .
qed

lemma valid_Add [simp, intro]: "valid_time (Add t d)"
  by (simp add: Add_def valid_Date)

lemma instant_Add: "valid_time t \<Longrightarrow> instant (Add t d) = instant t + d"
proof -
  assume "valid_time t"
  then have "1 \<le> tMonth t" "tMonth t \<le> 12" by (simp_all add: valid_time_def)
  from instant_Date [OF this] show ?thesis
    unfolding Add_def by (simp add: instant_def wallSeconds_def)
qed

lemma Add_loc [simp]: "tLoc (Add t d) = tLoc t"
  by (simp add: Add_def Date_def Let_def split: prod.splits)

subsection \<open>The order of instants is the order of the fields\<close>

definition fieldsLess :: "gotime \<Rightarrow> gotime \<Rightarrow> bool" where
  "fieldsLess t u \<longleftrightarrow> tYear t < tYear u \<or> tYear t = tYear u \<and>
     (tMonth t < tMonth u \<or> tMonth t = tMonth u \<and>
     (tDay t < tDay u \<or> tDay t = tDay u \<and>
     (tHour t < tHour u \<or> tHour t = tHour u \<and>
     (tMinute t < tMinute u \<or> tMinute t = tMinute u \<and> tSecond t < tSecond u))))"

definition sameSecond :: "gotime \<Rightarrow> gotime \<Rightarrow> bool" where
  "sameSecond t u \<longleftrightarrow> tYear t = tYear u \<and> tMonth t = tMonth u \<and> tDay t = tDay u \<and>
     tHour t = tHour u \<and> tMinute t = tMinute u \<and> tSecond t = tSecond u"

lemma fieldsLess_total: "fieldsLess t u \<or> sameSecond t u \<or> fieldsLess u t"
  unfolding fieldsLess_def sameSecond_def by linarith

lemma daysBeforeYear_mono: "y < y' \<Longrightarrow> daysBeforeYear (y + 1) \<le> daysBeforeYear y'"
proof (induction y' rule: int_gr_induct)
  case base
  then show ?case by simp
next
  case (step i)
  then show ?case using daysBeforeYear_Suc [of i] by (simp split: if_splits)
qed

lemma daysBeforeMonth_mono:
  "m < m' \<Longrightarrow> 1 \<le> m \<Longrightarrow> m' \<le> 12 \<Longrightarrow> daysBeforeMonth y m + daysIn y m \<le> daysBeforeMonth y m'"
proof (induction m' rule: int_gr_induct)
  case base
  then show ?case by (simp add: daysBeforeMonth_Suc)
next
  case (step i)
  then show ?case using daysBeforeMonth_Suc [of i y] daysIn_bounds [of y i] by simp
qed

lemma absDays_year_bound:
  assumes "1 \<le> m" "m \<le> 12" "1 \<le> d" "d \<le> daysIn y m"
  shows "daysBeforeYear y \<le> absDays y m d" "absDays y m d < daysBeforeYear (y + 1)"
proof -
  have "0 \<le> daysBeforeMonth y m" by (simp add: daysBeforeMonth_def)
  with assms show "daysBeforeYear y \<le> absDays y m d" by (simp add: absDays_def)
  have "daysBeforeMonth y m + daysIn y m \<le> (if isLeap y then 366 else 365)"
  proof (cases "m = 12")
    case True
    then show ?thesis using daysBeforeMonth_12 [of y] by (simp add: daysIn_def)
  next
    case False
    then show ?thesis
      using daysBeforeMonth_mono [of m 12 y] daysBeforeMonth_12 [of y] assms by simp
  qed
  with assms show "absDays y m d < daysBeforeYear (y + 1)"
    by (simp add: absDays_def daysBeforeYear_Suc)
qed

lemma absDays_less:
  assumes "1 \<le> m" "m \<le> 12" "1 \<le> d" "d \<le> daysIn y m"
    and "1 \<le> m'" "m' \<le> 12" "1 \<le> d'" "d' \<le> daysIn y' m'"
    and "y < y' \<or> y = y' \<and> (m < m' \<or> m = m' \<and> d < d')"
  shows "absDays y m d < absDays y' m' d'"
  using assms(9)
proof (elim disjE conjE)
  assume "y < y'"
  then show ?thesis
    using absDays_year_bound [OF assms(1-4)] absDays_year_bound [OF assms(5-8)] daysBeforeYear_mono [of y y']
    by linarith
next
  assume "y = y'" "m < m'"
  then show ?thesis
    using daysBeforeMonth_mono [of m m' y] assms by (simp add: absDays_def)
next
  assume "y = y'" "m = m'" "d < d'"
  then show ?thesis by (simp add: absDays_def)
qed

lemma wallSeconds_less:
  assumes "valid_time t" "valid_time u" "fieldsLess t u"
  shows "wallSeconds t < wallSeconds u"
proof -
  let ?D = "\<lambda>t. absDays (tYear t) (tMonth t) (tDay t)"
  have v: "1 \<le> tMonth t" "tMonth t \<le> 12" "1 \<le> tDay t" "tDay t \<le> daysIn (tYear t) (tMonth t)"
    "1 \<le> tMonth u" "tMonth u \<le> 12" "1 \<le> tDay u" "tDay u \<le> daysIn (tYear u) (tMonth u)"
    and r: "tHour t < 24" "0 \<le> tHour u" "tMinute t < 60" "0 \<le> tMinute u"
      "tSecond t < 60" "0 \<le> tSecond u"
    using assms(1,2) by (simp_all add: valid_time_def)
  from assms(3) consider "?D t < ?D u"
    | "?D t = ?D u" "tHour t < tHour u"
    | "?D t = ?D u" "tHour t = tHour u" "tMinute t < tMinute u"
    | "?D t = ?D u" "tHour t = tHour u" "tMinute t = tMinute u" "tSecond t < tSecond u"
    using absDays_less [OF v] unfolding fieldsLess_def by metis
  then show ?thesis
    by cases (use r in \<open>simp_all add: wallSeconds_def\<close>)
qed

lemma sameSecond_wall: "sameSecond t u \<Longrightarrow> wallSeconds t = wallSeconds u"
  by (simp add: sameSecond_def wallSeconds_def)

lemma instant_less_wall:
  assumes "valid_time t" "valid_time u" "tLoc t = tLoc u" "wallSeconds t < wallSeconds u"
  shows "instant t < instant u"
proof -
  have "tNano t < 1000000000" "0 \<le> tNano u" using assms by (simp_all add: valid_time_def)
  moreover have "wallSeconds t + 1 \<le> wallSeconds u" using assms(4) by simp
  ultimately show ?thesis using assms(3) by (simp add: instant_def)
qed

lemma instant_less_fields:
  "valid_time t \<Longrightarrow> valid_time u \<Longrightarrow> tLoc t = tLoc u \<Longrightarrow> fieldsLess t u \<Longrightarrow> instant t < instant u"
  by (rule instant_less_wall) (auto intro: wallSeconds_less)

text \<open>Conversely, a later whole second has later fields.\<close>

lemma fieldsLess_of_instant:
  assumes "valid_time t" "valid_time u" "tLoc t = tLoc u" "tNano u = 0" "instant t < instant u"
  shows "fieldsLess t u"
proof -
  have "\<not> fieldsLess u t"
    using instant_less_fields [of u t] assms by auto
  moreover have "\<not> sameSecond t u"
  proof
    assume "sameSecond t u"
    from sameSecond_wall [OF this] have "instant u \<le> instant t"
      using assms by (simp add: instant_def valid_time_def)
    with assms show False by simp
  qed
  ultimately show ?thesis using fieldsLess_total [of t u] by blast
qed

end
