(* ===== verification/Cron_Parser.thy ===== *)
theory Cron_Parser
  imports Go_Time
begin

text \<open>
  Package \<open>cronexpr\<close> (\<open>src/candiutils/cronparser\<close>): the parser, \<open>parser.go\<close> and
  \<open>Parse\<close> of \<open>expression.go\<close>.  The regular expressions the parser builds are values of a
  datatype, matched by backtracking in the priority order of the \<open>regexp\<close> package; the cache of
  compiled expressions in \<open>makeLayoutRegexp\<close> is not modelled.  A directive keeps the text of its
  entry in place of the two offsets.  The sets \<open>map[int]bool\<close> are sets of integers.  A loop that
  would not end is the error value \<open>EDiverges\<close>, and the lemmas show that the parser never
  produces it.
\<close>

section \<open>Regular expressions\<close>

datatype re =
    RSet "char list"
  | RSeq re re
  | RAlt re re
  | ROpt re
  | RLit string
  | RDigits

text \<open>The suffixes that remain after a prefix matched, preferred match first.\<close>

fun rests :: "re \<Rightarrow> string \<Rightarrow> string list" where
  "rests (RSet cs) s = (case s of [] \<Rightarrow> [] | c # t \<Rightarrow> if c \<in> set cs then [t] else [])"
| "rests (RSeq a b) s = concat (map (rests b) (rests a s))"
| "rests (RAlt a b) s = rests a s @ rests b s"
| "rests (ROpt a) s = rests a s @ [s]"
| "rests (RLit w) s = (if HasPrefix s w then [drop (length w) s] else [])"
| "rests RDigits s = map (\<lambda>k. drop k s) (rev [1..<Suc (length (takeWhile is_digit s))])"

datatype litem = LChar char | LGroup re

definition firstSome :: "'a option list \<Rightarrow> 'a option" where
  "firstSome xs = (case filter (\<lambda>x. x \<noteq> None) xs of [] \<Rightarrow> None | x # _ \<Rightarrow> x)"

text \<open>A match of the whole string against an anchored sequence of literal bytes and groups: the
  texts of the groups (\<open>FindStringSubmatchIndex\<close>), or \<open>None\<close>.\<close>

fun submatch :: "litem list \<Rightarrow> string \<Rightarrow> string list option" where
  "submatch [] s = (if s = [] then Some [] else None)"
| "submatch (LChar c # is) s = (case s of [] \<Rightarrow> None | d # t \<Rightarrow> if d = c then submatch is t else None)"
| "submatch (LGroup r # is) s =
     firstSome (map (\<lambda>t. map_option (\<lambda>gs. take (length s - length t) s # gs) (submatch is t)) (rests r s))"

text \<open>The layouts, with a placeholder for the descriptor's value pattern.\<close>

datatype lpat = PValue | PChar char | PDigits | PWeek

definition layoutValue :: "lpat list" where "layoutValue = [PValue]"
definition layoutRange :: "lpat list" where "layoutRange = [PValue, PChar CHR ''-'', PValue]"
definition layoutWildcardAndInterval :: "lpat list" where
  "layoutWildcardAndInterval = [PChar CHR ''*'', PChar CHR ''/'', PDigits]"
definition layoutValueAndInterval :: "lpat list" where
  "layoutValueAndInterval = [PValue, PChar CHR ''/'', PDigits]"
definition layoutRangeAndInterval :: "lpat list" where
  "layoutRangeAndInterval = [PValue, PChar CHR ''-'', PValue, PChar CHR ''/'', PDigits]"
definition layoutLastDom :: "lpat list" where "layoutLastDom = [PChar CHR ''l'']"
definition layoutWorkdom :: "lpat list" where "layoutWorkdom = [PValue, PChar CHR ''w'']"
definition layoutLastWorkdom :: "lpat list" where "layoutLastWorkdom = [PChar CHR ''l'', PChar CHR ''w'']"
definition layoutDowOfLastWeek :: "lpat list" where "layoutDowOfLastWeek = [PValue, PChar CHR ''l'']"
definition layoutDowOfSpecificWeek :: "lpat list" where
  "layoutDowOfSpecificWeek = [PValue, PChar CHR ''#'', PWeek]"

definition makeLayoutRegexp :: "lpat list \<Rightarrow> re \<Rightarrow> litem list" where
  "makeLayoutRegexp layout value =
     map (\<lambda>p. case p of PValue \<Rightarrow> LGroup value | PChar c \<Rightarrow> LChar c | PDigits \<Rightarrow> LGroup RDigits
              | PWeek \<Rightarrow> LGroup (RSet ''12345'')) layout"

definition wildcardMatch :: "string \<Rightarrow> bool" where
  "wildcardMatch s \<longleftrightarrow> s = ''*'' \<or> s = ''?''"

section \<open>Field descriptors\<close>

definition atoi :: "string \<Rightarrow> int" where
  "atoi s = fst (Atoi s)"

definition monthTokens :: "(string \<times> int) list" where
  "monthTokens =
    [(''1'', 1), (''jan'', 1), (''january'', 1), (''2'', 2), (''feb'', 2), (''february'', 2),
     (''3'', 3), (''mar'', 3), (''march'', 3), (''4'', 4), (''apr'', 4), (''april'', 4),
     (''5'', 5), (''may'', 5), (''6'', 6), (''jun'', 6), (''june'', 6),
     (''7'', 7), (''jul'', 7), (''july'', 7), (''8'', 8), (''aug'', 8), (''august'', 8),
     (''9'', 9), (''sep'', 9), (''september'', 9), (''10'', 10), (''oct'', 10), (''october'', 10),
     (''11'', 11), (''nov'', 11), (''november'', 11), (''12'', 12), (''dec'', 12), (''december'', 12)]"

definition dowTokens :: "(string \<times> int) list" where
  "dowTokens =
    [(''0'', 0), (''sun'', 0), (''sunday'', 0), (''1'', 1), (''mon'', 1), (''monday'', 1),
     (''2'', 2), (''tue'', 2), (''tuesday'', 2), (''3'', 3), (''wed'', 3), (''wednesday'', 3),
     (''4'', 4), (''thu'', 4), (''thursday'', 4), (''5'', 5), (''fri'', 5), (''friday'', 5),
     (''6'', 6), (''sat'', 6), (''saturday'', 6), (''7'', 0)]"

text \<open>Reading a Go map at a key it does not hold gives the zero value.\<close>

definition tokenAtoi :: "(string \<times> int) list \<Rightarrow> string \<Rightarrow> int" where
  "tokenAtoi toks s = (case map_of toks s of None \<Rightarrow> 0 | Some v \<Rightarrow> v)"

record fieldDescriptor =
  fdName :: string
  fdMin :: int
  fdMax :: int
  fdDefaultList :: "int list"
  fdValuePattern :: re
  fdAtoi :: "string \<Rightarrow> int"

definition alts :: "string list \<Rightarrow> re \<Rightarrow> re" where
  "alts ws r = foldl (\<lambda>a w. RAlt a (RLit w)) r ws"

definition minuteLikePattern :: re where
  "minuteLikePattern =
     RAlt (RSeq (ROpt (RSet ''0'')) (RSet ''0123456789'')) (RSeq (RSet ''12345'') (RSet ''0123456789''))"

definition secondDescriptor :: fieldDescriptor where
  "secondDescriptor = \<lparr>fdName = ''second'', fdMin = 0, fdMax = 59, fdDefaultList = [0..59],
     fdValuePattern = minuteLikePattern, fdAtoi = atoi\<rparr>"

definition minuteDescriptor :: fieldDescriptor where
  "minuteDescriptor = \<lparr>fdName = ''minute'', fdMin = 0, fdMax = 59, fdDefaultList = [0..59],
     fdValuePattern = minuteLikePattern, fdAtoi = atoi\<rparr>"

definition hourDescriptor :: fieldDescriptor where
  "hourDescriptor = \<lparr>fdName = ''hour'', fdMin = 0, fdMax = 23, fdDefaultList = [0..23],
     fdValuePattern = RAlt (RAlt (RSeq (ROpt (RSet ''0'')) (RSet ''0123456789''))
       (RSeq (RSet ''1'') (RSet ''0123456789''))) (RSeq (RSet ''2'') (RSet ''0123'')),
     fdAtoi = atoi\<rparr>"

definition domDescriptor :: fieldDescriptor where
  "domDescriptor = \<lparr>fdName = ''day-of-month'', fdMin = 1, fdMax = 31, fdDefaultList = [1..31],
     fdValuePattern = RAlt (RAlt (RSeq (ROpt (RSet ''0'')) (RSet ''123456789''))
       (RSeq (RSet ''12'') (RSet ''0123456789''))) (RSeq (RSet ''3'') (RSet ''01'')),
     fdAtoi = atoi\<rparr>"

definition monthDescriptor :: fieldDescriptor where
  "monthDescriptor = \<lparr>fdName = ''month'', fdMin = 1, fdMax = 12, fdDefaultList = [1..12],
     fdValuePattern = alts [''jan'', ''feb'', ''mar'', ''apr'', ''may'', ''jun'', ''jul'', ''aug'', ''sep'',
         ''oct'', ''nov'', ''dec'', ''january'', ''february'', ''march'', ''april'', ''march'', ''april'',
         ''june'', ''july'', ''august'', ''september'', ''october'', ''november'', ''december'']
       (RAlt (RSeq (ROpt (RSet ''0'')) (RSet ''123456789'')) (RSeq (RSet ''1'') (RSet ''012''))),
     fdAtoi = tokenAtoi monthTokens\<rparr>"

definition dowDescriptor :: fieldDescriptor where
  "dowDescriptor = \<lparr>fdName = ''day-of-week'', fdMin = 0, fdMax = 6, fdDefaultList = [0..6],
     fdValuePattern = alts [''sun'', ''mon'', ''tue'', ''wed'', ''thu'', ''fri'', ''sat'', ''sunday'', ''monday'',
         ''tuesday'', ''wednesday'', ''thursday'', ''friday'', ''saturday'']
       (RSeq (ROpt (RSet ''0'')) (RSet ''01234567'')),
     fdAtoi = tokenAtoi dowTokens\<rparr>"

definition yearDescriptor :: fieldDescriptor where
  "yearDescriptor = \<lparr>fdName = ''year'', fdMin = 1970, fdMax = 2099, fdDefaultList = [1970..2099],
     fdValuePattern = RAlt (RSeq (RLit ''19'') (RSeq (RSet ''789'') (RSet ''0123456789'')))
       (RSeq (RLit ''20'') (RSeq (RSet ''0123456789'') (RSet ''0123456789''))),
     fdAtoi = atoi\<rparr>"

section \<open>Expressions and directives\<close>

record expression =
  secondList :: "int list"
  minuteList :: "int list"
  hourList :: "int list"
  daysOfMonth :: "int set"
  workdaysOfMonth :: "int set"
  lastDayOfMonth :: bool
  lastWorkdayOfMonth :: bool
  daysOfMonthRestricted :: bool
  actualDaysOfMonthList :: "int list"
  monthList :: "int list"
  daysOfWeek :: "int set"
  specificWeekDaysOfWeek :: "int set"
  lastWeekDaysOfWeek :: "int set"
  daysOfWeekRestricted :: bool
  yearList :: "int list"

definition emptyExpression :: expression where
  "emptyExpression = \<lparr>secondList = [], minuteList = [], hourList = [], daysOfMonth = {},
     workdaysOfMonth = {}, lastDayOfMonth = False, lastWorkdayOfMonth = False,
     daysOfMonthRestricted = False, actualDaysOfMonthList = [], monthList = [], daysOfWeek = {},
     specificWeekDaysOfWeek = {}, lastWeekDaysOfWeek = {}, daysOfWeekRestricted = False, yearList = []\<rparr>"

datatype cronKind = none | one | span | all

record cronDirective =
  cdKind :: cronKind
  cdFirst :: int
  cdLast :: int
  cdStep :: int
  cdText :: string

datatype cronError =
    EInvalidExpression
  | EMissingDirective string
  | EInvalidInterval string
  | ESyntax string string
  | EDiverges

section \<open>Parsing one field\<close>

definition populateOne :: "int set \<Rightarrow> int \<Rightarrow> int set" where
  "populateOne values v = insert v values"

text \<open>The loop \<open>for i := min; i <= max; i += step\<close> does not end for a step below 1.\<close>

partial_function (option) populateMany :: "int set \<Rightarrow> int \<Rightarrow> int \<Rightarrow> int \<Rightarrow> int set option" where
  "populateMany values i mx step =
     (if i \<le> mx then populateMany (insert i values) (i + step) mx step else Some values)"

declare populateMany.simps [code]

definition toList :: "int set \<Rightarrow> int list" where
  "toList s = sorted_list_of_set s"

definition mkDirective :: "cronKind \<Rightarrow> int \<Rightarrow> int \<Rightarrow> int \<Rightarrow> string \<Rightarrow> cronDirective" where
  "mkDirective k f l st txt = \<lparr>cdKind = k, cdFirst = f, cdLast = l, cdStep = st, cdText = txt\<rparr>"

text \<open>One iteration of the loop of \<open>genericFieldParse\<close>: the directive of an entry.\<close>

definition parseEntry :: "fieldDescriptor \<Rightarrow> string \<Rightarrow> cronError + cronDirective" where
  "parseEntry desc entry =
     (let snormal = ToLower entry;
          rx = (\<lambda>layout. submatch (makeLayoutRegexp layout (fdValuePattern desc)) snormal);
          interval = (\<lambda>f l st. if st < 1 \<or> st > fdMax desc then Inl (EInvalidInterval snormal)
                               else Inr (mkDirective span f l st entry))
      in if wildcardMatch snormal then Inr (mkDirective all (fdMin desc) (fdMax desc) 1 entry)
         else if rx layoutValue \<noteq> None then Inr (mkDirective one (fdAtoi desc snormal) 0 0 entry)
         else case rx layoutRange of
           Some gs \<Rightarrow> Inr (mkDirective span (fdAtoi desc (gs ! 0)) (fdAtoi desc (gs ! 1)) 1 entry)
         | None \<Rightarrow> (case rx layoutWildcardAndInterval of
           Some gs \<Rightarrow> interval (fdMin desc) (fdMax desc) (atoi (gs ! 0))
         | None \<Rightarrow> (case rx layoutValueAndInterval of
           Some gs \<Rightarrow> interval (fdAtoi desc (gs ! 0)) (fdMax desc) (atoi (gs ! 1))
         | None \<Rightarrow> (case rx layoutRangeAndInterval of
           Some gs \<Rightarrow> interval (fdAtoi desc (gs ! 0)) (fdAtoi desc (gs ! 1)) (atoi (gs ! 2))
         | None \<Rightarrow> Inr (mkDirective none 0 0 0 entry)))))"

fun parseEntries :: "fieldDescriptor \<Rightarrow> string list \<Rightarrow> cronError + cronDirective list" where
  "parseEntries desc [] = Inr []"
| "parseEntries desc (e # es) =
     (case parseEntry desc e of
        Inl err \<Rightarrow> Inl err
      | Inr d \<Rightarrow> (case parseEntries desc es of Inl err \<Rightarrow> Inl err | Inr ds \<Rightarrow> Inr (d # ds)))"

definition genericFieldParse :: "string \<Rightarrow> fieldDescriptor \<Rightarrow> cronError + cronDirective list" where
  "genericFieldParse s desc =
     (let entries = FindRuns (\<lambda>c. c = CHR '','') s
      in if entries = [] then Inl (EMissingDirective (fdName desc)) else parseEntries desc entries)"

fun genericLoop :: "fieldDescriptor \<Rightarrow> int set \<Rightarrow> cronDirective list \<Rightarrow> cronError + int list" where
  "genericLoop desc values [] = Inr (toList values)"
| "genericLoop desc values (d # ds) =
     (case cdKind d of
        none \<Rightarrow> Inl (ESyntax (fdName desc) (cdText d))
      | one \<Rightarrow> genericLoop desc (populateOne values (cdFirst d)) ds
      | span \<Rightarrow> (case populateMany values (cdFirst d) (cdLast d) (cdStep d) of
                  None \<Rightarrow> Inl EDiverges | Some values' \<Rightarrow> genericLoop desc values' ds)
      | all \<Rightarrow> Inr (fdDefaultList desc))"

definition genericFieldHandler :: "string \<Rightarrow> fieldDescriptor \<Rightarrow> cronError + int list" where
  "genericFieldHandler s desc =
     (case genericFieldParse s desc of Inl err \<Rightarrow> Inl err | Inr ds \<Rightarrow> genericLoop desc {} ds)"

definition secondFieldHandler :: "string \<Rightarrow> expression \<Rightarrow> cronError + expression" where
  "secondFieldHandler s e =
     (case genericFieldHandler s secondDescriptor of Inl err \<Rightarrow> Inl err | Inr l \<Rightarrow> Inr (e\<lparr>secondList := l\<rparr>))"

definition minuteFieldHandler :: "string \<Rightarrow> expression \<Rightarrow> cronError + expression" where
  "minuteFieldHandler s e =
     (case genericFieldHandler s minuteDescriptor of Inl err \<Rightarrow> Inl err | Inr l \<Rightarrow> Inr (e\<lparr>minuteList := l\<rparr>))"

definition hourFieldHandler :: "string \<Rightarrow> expression \<Rightarrow> cronError + expression" where
  "hourFieldHandler s e =
     (case genericFieldHandler s hourDescriptor of Inl err \<Rightarrow> Inl err | Inr l \<Rightarrow> Inr (e\<lparr>hourList := l\<rparr>))"

definition monthFieldHandler :: "string \<Rightarrow> expression \<Rightarrow> cronError + expression" where
  "monthFieldHandler s e =
     (case genericFieldHandler s monthDescriptor of Inl err \<Rightarrow> Inl err | Inr l \<Rightarrow> Inr (e\<lparr>monthList := l\<rparr>))"

definition yearFieldHandler :: "string \<Rightarrow> expression \<Rightarrow> cronError + expression" where
  "yearFieldHandler s e =
     (case genericFieldHandler s yearDescriptor of Inl err \<Rightarrow> Inl err | Inr l \<Rightarrow> Inr (e\<lparr>yearList := l\<rparr>))"

text \<open>The day-of-week field: \<open>5L\<close> and \<open>5#3\<close> beside the generic forms.\<close>

fun dowLoop :: "cronDirective list \<Rightarrow> expression \<Rightarrow> cronError + expression" where
  "dowLoop [] e = Inr e"
| "dowLoop (d # ds) e =
     (case cdKind d of
        none \<Rightarrow>
          (let snormal = ToLower (cdText d); pat = fdValuePattern dowDescriptor; at = fdAtoi dowDescriptor
           in case submatch (makeLayoutRegexp layoutDowOfLastWeek pat) snormal of
                Some gs \<Rightarrow> dowLoop ds (e\<lparr>lastWeekDaysOfWeek := populateOne (lastWeekDaysOfWeek e) (at (gs ! 0))\<rparr>)
              | None \<Rightarrow>
                  (case submatch (makeLayoutRegexp layoutDowOfSpecificWeek pat) snormal of
                     Some gs \<Rightarrow> dowLoop ds (e\<lparr>specificWeekDaysOfWeek :=
                        populateOne (specificWeekDaysOfWeek e) ((at (gs ! 1) - 1) * 7 + at (gs ! 0) mod 7)\<rparr>)
                   | None \<Rightarrow> Inl (ESyntax ''day-of-week'' (cdText d))))
      | one \<Rightarrow> dowLoop ds (e\<lparr>daysOfWeek := populateOne (daysOfWeek e) (cdFirst d)\<rparr>)
      | span \<Rightarrow> (case populateMany (daysOfWeek e) (cdFirst d) (cdLast d) (cdStep d) of
                  None \<Rightarrow> Inl EDiverges | Some v \<Rightarrow> dowLoop ds (e\<lparr>daysOfWeek := v\<rparr>))
      | all \<Rightarrow> (case populateMany (daysOfWeek e) (cdFirst d) (cdLast d) (cdStep d) of
                  None \<Rightarrow> Inl EDiverges
                | Some v \<Rightarrow> dowLoop ds (e\<lparr>daysOfWeek := v, daysOfWeekRestricted := False\<rparr>)))"

definition dowFieldHandler :: "string \<Rightarrow> expression \<Rightarrow> cronError + expression" where
  "dowFieldHandler s e =
     (let e' = e\<lparr>daysOfWeekRestricted := True, daysOfWeek := {}, lastWeekDaysOfWeek := {},
                 specificWeekDaysOfWeek := {}\<rparr>
      in case genericFieldParse s dowDescriptor of Inl err \<Rightarrow> Inl err | Inr ds \<Rightarrow> dowLoop ds e')"

text \<open>The day-of-month field: \<open>L\<close>, \<open>LW\<close> and \<open>15W\<close> beside the generic forms.\<close>

fun domLoop :: "cronDirective list \<Rightarrow> expression \<Rightarrow> cronError + expression" where
  "domLoop [] e = Inr e"
| "domLoop (d # ds) e =
     (case cdKind d of
        none \<Rightarrow>
          (let snormal = ToLower (cdText d); pat = fdValuePattern domDescriptor
           in if submatch (makeLayoutRegexp layoutLastDom pat) snormal \<noteq> None
              then domLoop ds (e\<lparr>lastDayOfMonth := True\<rparr>)
              else if submatch (makeLayoutRegexp layoutLastWorkdom pat) snormal \<noteq> None
              then domLoop ds (e\<lparr>lastWorkdayOfMonth := True\<rparr>)
              else case submatch (makeLayoutRegexp layoutWorkdom pat) snormal of
                Some gs \<Rightarrow> domLoop ds (e\<lparr>workdaysOfMonth := populateOne (workdaysOfMonth e) (fdAtoi domDescriptor (gs ! 0))\<rparr>)
              | None \<Rightarrow> Inl (ESyntax ''day-of-month'' (cdText d)))
      | one \<Rightarrow> domLoop ds (e\<lparr>daysOfMonth := populateOne (daysOfMonth e) (cdFirst d)\<rparr>)
      | span \<Rightarrow> (case populateMany (daysOfMonth e) (cdFirst d) (cdLast d) (cdStep d) of
                  None \<Rightarrow> Inl EDiverges | Some v \<Rightarrow> domLoop ds (e\<lparr>daysOfMonth := v\<rparr>))
      | all \<Rightarrow> (case populateMany (daysOfMonth e) (cdFirst d) (cdLast d) (cdStep d) of
                  None \<Rightarrow> Inl EDiverges
                | Some v \<Rightarrow> domLoop ds (e\<lparr>daysOfMonth := v, daysOfMonthRestricted := False\<rparr>)))"

definition domFieldHandler :: "string \<Rightarrow> expression \<Rightarrow> cronError + expression" where
  "domFieldHandler s e =
     (let e' = e\<lparr>daysOfMonthRestricted := True, lastDayOfMonth := False, lastWorkdayOfMonth := False,
                 daysOfMonth := {}, workdaysOfMonth := {}\<rparr>
      in case genericFieldParse s domDescriptor of Inl err \<Rightarrow> Inl err | Inr ds \<Rightarrow> domLoop ds e')"

section \<open>Parsing a cron line\<close>

text \<open>\<open>strings.NewReplacer\<close>: at each position the first old string that matches is replaced.\<close>

definition cronAliases :: "(string \<times> string) list" where
  "cronAliases =
    [(''@yearly'', ''0 0 0 1 1 * *''), (''@annually'', ''0 0 0 1 1 * *''), (''@monthly'', ''0 0 0 1 * * *''),
     (''@weekly'', ''0 0 0 * * 0 *''), (''@daily'', ''0 0 0 * * * *''), (''@hourly'', ''0 0 * * * * *'')]"

lemma HasPrefix_shorter: "HasPrefix s old \<Longrightarrow> old \<noteq> [] \<Longrightarrow> length s - length old < length s"
  by (cases s; cases old) auto

function replaceAll :: "(string \<times> string) list \<Rightarrow> string \<Rightarrow> string" where
  "replaceAll reps s =
     (case find (\<lambda>(old, new). old \<noteq> [] \<and> HasPrefix s old) reps of
        Some (old, new) \<Rightarrow> new @ replaceAll reps (drop (length old) s)
      | None \<Rightarrow> (case s of [] \<Rightarrow> [] | c # cs \<Rightarrow> c # replaceAll reps cs))"
  by pat_completeness auto
termination
  by (relation "measure (\<lambda>(reps, s). length s)") (auto simp: find_Some_iff intro!: HasPrefix_shorter)

declare replaceAll.simps [simp del]

definition cronNormalizer :: "string \<Rightarrow> string" where
  "cronNormalizer s = replaceAll cronAliases s"

definition isSpaceByte :: "char \<Rightarrow> bool" where
  "isSpaceByte c \<longleftrightarrow> c = CHR '' '' \<or> (of_char c :: int) = 9 \<or> (of_char c :: int) = 10 \<or>
     (of_char c :: int) = 12 \<or> (of_char c :: int) = 13"

definition bindE :: "'e + 'a \<Rightarrow> ('a \<Rightarrow> 'e + 'b) \<Rightarrow> 'e + 'b" where
  "bindE r f = (case r of Inl err \<Rightarrow> Inl err | Inr x \<Rightarrow> f x)"

text \<open>The fields after the optional seconds: minute, hour, day of month, month, day of week and,
  when there is one more, year.\<close>

definition parseFields :: "string list \<Rightarrow> expression \<Rightarrow> cronError + expression" where
  "parseFields fs e =
     bindE (minuteFieldHandler (fs ! 0) e) (\<lambda>e.
     bindE (hourFieldHandler (fs ! 1) e) (\<lambda>e.
     bindE (domFieldHandler (fs ! 2) e) (\<lambda>e.
     bindE (monthFieldHandler (fs ! 3) e) (\<lambda>e.
     bindE (dowFieldHandler (fs ! 4) e) (\<lambda>e.
       if 5 < length fs then yearFieldHandler (fs ! 5) e
       else Inr (e\<lparr>yearList := fdDefaultList yearDescriptor\<rparr>))))))"

definition Parse :: "string \<Rightarrow> cronError + expression" where
  "Parse cronLine =
     (let fs = FindRuns isSpaceByte (cronNormalizer cronLine)
      in if length fs < 5 then Inl EInvalidExpression
         else let fields = take 7 fs
              in if length fields = 7
                 then bindE (secondFieldHandler (fields ! 0) emptyExpression) (parseFields (tl fields))
                 else parseFields fields (emptyExpression\<lparr>secondList := [0]\<rparr>))"

section \<open>What the patterns match\<close>

fun lang :: "re \<Rightarrow> string set" where
  "lang (RSet cs) = (\<lambda>c. [c]) ` set cs"
| "lang (RSeq a b) = (\<lambda>(u, v). u @ v) ` (lang a \<times> lang b)"
| "lang (RAlt a b) = lang a \<union> lang b"
| "lang (ROpt a) = insert [] (lang a)"
| "lang (RLit w) = {w}"
| "lang RDigits = {ds. ds \<noteq> [] \<and> list_all is_digit ds}"

text \<open>The patterns of the descriptors have finitely many words, listed here.\<close>

fun words :: "re \<Rightarrow> string list" where
  "words (RSet cs) = map (\<lambda>c. [c]) cs"
| "words (RSeq a b) = concat (map (\<lambda>u. map ((@) u) (words b)) (words a))"
| "words (RAlt a b) = words a @ words b"
| "words (ROpt a) = [] # words a"
| "words (RLit w) = [w]"
| "words RDigits = []"

fun finitePat :: "re \<Rightarrow> bool" where
  "finitePat RDigits = False"
| "finitePat (RSeq a b) = (finitePat a \<and> finitePat b)"
| "finitePat (RAlt a b) = (finitePat a \<and> finitePat b)"
| "finitePat (ROpt a) = finitePat a"
| "finitePat _ = True"

lemma set_words: "finitePat r \<Longrightarrow> set (words r) = lang r"
proof (induction r)
  case (RSeq a b)
  then show ?case by (fastforce simp: image_iff)
qed auto

lemma HasPrefix_append: "HasPrefix s p \<Longrightarrow> s = p @ drop (length p) s"
  by (induction s p rule: HasPrefix.induct) auto

lemma rests_lang: "t \<in> set (rests r s) \<Longrightarrow> \<exists>p \<in> lang r. s = p @ t"
proof (induction r arbitrary: s t)
  case (RSet cs)
  then show ?case by (auto split: list.splits if_splits)
next
  case (RSeq a b)
  then obtain u where u: "u \<in> set (rests a s)" "t \<in> set (rests b u)" by auto
  from RSeq.IH(1) [OF u(1)] RSeq.IH(2) [OF u(2)] show ?case by force
next
  case (RAlt a b)
  then show ?case by force
next
  case (ROpt a)
  then show ?case by force
next
  case (RLit w)
  then show ?case using HasPrefix_append [of s w] by (auto split: if_splits)
next
  case RDigits
  then obtain k where k: "1 \<le> k" "k \<le> length (takeWhile is_digit s)" "t = drop k s" by auto
  then have "take k s = take k (takeWhile is_digit s)"
    by (metis takeWhile_eq_take take_take min.absorb1)
  then have "list_all is_digit (take k s)"
    by (auto simp: list_all_iff dest!: in_set_takeD set_takeWhileD)
  moreover have "take k s \<noteq> []" using k by (cases s) auto
  ultimately show ?case using k(3) by (intro bexI [of _ "take k s"]) auto
qed

fun groupsOf :: "litem list \<Rightarrow> re list" where
  "groupsOf [] = []"
| "groupsOf (LChar c # is) = groupsOf is"
| "groupsOf (LGroup r # is) = r # groupsOf is"

lemma firstSome_SomeD: "firstSome xs = Some y \<Longrightarrow> Some y \<in> set xs"
proof -
  assume a: "firstSome xs = Some y"
  then obtain z zs where f: "filter (\<lambda>x. x \<noteq> None) xs = z # zs" "z = Some y"
    by (auto simp: firstSome_def split: list.splits)
  then have "z \<in> set (filter (\<lambda>x. x \<noteq> None) xs)" by simp
  with f(2) show ?thesis by simp
qed

lemma submatch_groups:
  "submatch is s = Some gs \<Longrightarrow> list_all2 (\<lambda>g r. g \<in> lang r) gs (groupsOf is)"
proof (induction "is" s arbitrary: gs rule: submatch.induct)
  case (1 s)
  then show ?case by (simp split: if_splits)
next
  case (2 c "is" s)
  then show ?case by (auto split: list.splits if_splits)
next
  case (3 r "is" s)
  from firstSome_SomeD [OF "3.prems" [unfolded submatch.simps]]
  obtain t where "t \<in> set (rests r s)"
    and "map_option (\<lambda>hs. take (length s - length t) s # hs) (submatch is t) = Some gs"
    by (metis (no_types, lifting) imageE list.set_map)
  then obtain hs where t: "t \<in> set (rests r s)" "submatch is t = Some hs"
    "gs = take (length s - length t) s # hs" by auto
  from rests_lang [OF t(1)] obtain p where "p \<in> lang r" "s = p @ t" by blast
  with "3.IH" [OF t(1,2)] t(3) show ?case by simp
qed

section \<open>Loops of the parser\<close>

lemma populateMany_spec:
  assumes "1 \<le> step"
  shows "\<exists>vs'. populateMany vs i mx step = Some vs' \<and>
    vs' = vs \<union> {v. \<exists>k \<ge> 0. v = i + k * step \<and> v \<le> mx}"
proof (induction "nat (mx + 1 - i)" arbitrary: vs i rule: less_induct)
  case less
  show ?case
  proof (cases "i \<le> mx")
    case False
    then have empty: "{v. \<exists>k \<ge> 0. v = i + k * step \<and> v \<le> mx} = {}"
      using assms by (auto simp: not_le) (smt (verit) mult_nonneg_nonneg)
    show ?thesis unfolding empty using False by (subst populateMany.simps) simp
  next
    case True
    let ?S = "\<lambda>i. {v. \<exists>k \<ge> 0. v = i + k * step \<and> v \<le> mx}"
    have "?S i = insert i (?S (i + step))"
    proof (intro set_eqI iffI)
      fix v assume "v \<in> ?S i"
      then obtain k where k: "k \<ge> 0" "v = i + k * step" "v \<le> mx" by auto
      then show "v \<in> insert i (?S (i + step))"
        by (cases "k = 0") (auto intro!: exI [of _ "k - 1"] simp: algebra_simps)
    next
      fix v assume "v \<in> insert i (?S (i + step))"
      then show "v \<in> ?S i"
      proof
        assume "v = i"
        then show ?thesis using True by (auto intro!: exI [of _ 0])
      next
        assume "v \<in> ?S (i + step)"
        then obtain k where "k \<ge> 0" "v = i + step + k * step" "v \<le> mx" by auto
        then show ?thesis by (auto intro!: exI [of _ "k + 1"] simp: algebra_simps)
      qed
    qed
    moreover have "nat (mx + 1 - (i + step)) < nat (mx + 1 - i)" using True assms by simp
    from less [OF this, of "insert i vs"] obtain vs' where
      "populateMany (insert i vs) (i + step) mx step = Some vs'" "vs' = insert i vs \<union> ?S (i + step)"
      by blast
    ultimately show ?thesis using True by (simp add: populateMany.simps [of vs i])
  qed
qed

lemma populateMany_range:
  assumes "1 \<le> step" "populateMany vs i mx step = Some vs'" "vs \<subseteq> {lo..hi}" "lo \<le> i" "mx \<le> hi"
  shows "vs' \<subseteq> {lo..hi}"
proof -
  have "vs' = vs \<union> {v. \<exists>k \<ge> 0. v = i + k * step \<and> v \<le> mx}"
    using populateMany_spec [OF assms(1), of vs i mx] assms(2) by auto
  moreover have "0 \<le> k * step" if "0 \<le> k" for k using that assms(1) by simp
  ultimately show ?thesis using assms(3-5) by (fastforce simp: subset_iff)
qed

text \<open>What \<open>genericFieldParse\<close> promises about a directive: values between \<open>lo\<close> and \<open>hi\<close> and a
  positive step.\<close>

definition dirOk :: "int \<Rightarrow> int \<Rightarrow> cronDirective \<Rightarrow> bool" where
  "dirOk lo hi d \<longleftrightarrow>
     (case cdKind d of
        none \<Rightarrow> True
      | one \<Rightarrow> lo \<le> cdFirst d \<and> cdFirst d \<le> hi
      | span \<Rightarrow> lo \<le> cdFirst d \<and> cdLast d \<le> hi \<and> 1 \<le> cdStep d
      | all \<Rightarrow> lo \<le> cdFirst d \<and> cdLast d \<le> hi \<and> 1 \<le> cdStep d)"

definition descOk :: "int \<Rightarrow> fieldDescriptor \<Rightarrow> bool" where
  "descOk lo desc \<longleftrightarrow> finitePat (fdValuePattern desc) \<and> lo \<le> fdMin desc \<and>
     list_all (\<lambda>w. lo \<le> fdAtoi desc w \<and> fdAtoi desc w \<le> fdMax desc) (words (fdValuePattern desc))"

lemma descOk_value:
  "descOk lo desc \<Longrightarrow> w \<in> lang (fdValuePattern desc) \<Longrightarrow> lo \<le> fdAtoi desc w \<and> fdAtoi desc w \<le> fdMax desc"
  by (auto simp: descOk_def list_all_iff set_words)

lemma descOk_second: "descOk 0 secondDescriptor"
  by code_simp

lemma descOk_minute: "descOk 0 minuteDescriptor"
  by code_simp

lemma descOk_hour: "descOk 0 hourDescriptor"
  by code_simp

lemma descOk_dom: "descOk 1 domDescriptor"
  by code_simp

lemma descOk_month: "descOk 0 monthDescriptor"
  by code_simp

lemma descOk_dow: "descOk 0 dowDescriptor"
  by code_simp

lemma descOk_year: "descOk 1970 yearDescriptor"
  by code_simp

lemma layout_groups:
  "submatch (makeLayoutRegexp layoutRange v) s = Some gs \<Longrightarrow> gs ! 0 \<in> lang v \<and> gs ! 1 \<in> lang v"
  "submatch (makeLayoutRegexp layoutValueAndInterval v) s = Some gs \<Longrightarrow> gs ! 0 \<in> lang v"
  "submatch (makeLayoutRegexp layoutRangeAndInterval v) s = Some gs \<Longrightarrow> gs ! 0 \<in> lang v \<and> gs ! 1 \<in> lang v"
  "submatch (makeLayoutRegexp layoutWorkdom v) s = Some gs \<Longrightarrow> gs ! 0 \<in> lang v"
  "submatch (makeLayoutRegexp layoutDowOfLastWeek v) s = Some gs \<Longrightarrow> gs ! 0 \<in> lang v"
  "submatch (makeLayoutRegexp layoutDowOfSpecificWeek v) s = Some gs \<Longrightarrow>
     gs ! 0 \<in> lang v \<and> gs ! 1 \<in> lang (RSet ''12345'')"
  by (auto dest!: submatch_groups simp: makeLayoutRegexp_def layoutRange_def layoutValueAndInterval_def
      layoutRangeAndInterval_def layoutWorkdom_def layoutDowOfLastWeek_def layoutDowOfSpecificWeek_def
      list_all2_Cons2 simp del: submatch.simps)

lemma layoutValue_lang: "submatch (makeLayoutRegexp layoutValue v) s = Some gs \<Longrightarrow> s \<in> lang v"
proof -
  assume "submatch (makeLayoutRegexp layoutValue v) s = Some gs"
  then have "submatch [LGroup v] s = Some gs"
    by (simp add: makeLayoutRegexp_def layoutValue_def)
  then obtain t where "t \<in> set (rests v s)" "submatch [] t \<noteq> None"
    by (auto dest!: firstSome_SomeD split: if_splits)
  with rests_lang [of t v s] show ?thesis by (auto split: if_splits)
qed

section \<open>The invariant of parsed expressions\<close>

lemma parseEntry_dirOk:
  assumes "descOk lo desc" "parseEntry desc entry = Inr d"
  shows "dirOk lo (fdMax desc) d"
proof -
  have mn: "lo \<le> fdMin desc" using assms(1) by (simp add: descOk_def)
  note val = descOk_value [OF assms(1)]
  show ?thesis
    using assms(2) mn
    unfolding parseEntry_def Let_def
    by (auto simp: dirOk_def mkDirective_def val dest!: layoutValue_lang layout_groups
        split: if_splits option.splits)
qed

lemma parseEntries_dirOk:
  assumes "descOk lo desc"
  shows "parseEntries desc es = Inr ds \<Longrightarrow> \<forall>d \<in> set ds. dirOk lo (fdMax desc) d"
proof (induction es arbitrary: ds)
  case Nil
  then show ?case by simp
next
  case (Cons e es)
  then show ?case
    by (auto split: sum.splits dest: parseEntry_dirOk [OF assms])
qed

lemma genericFieldParse_dirOk:
  "descOk lo desc \<Longrightarrow> genericFieldParse s desc = Inr ds \<Longrightarrow> \<forall>d \<in> set ds. dirOk lo (fdMax desc) d"
  by (auto simp: genericFieldParse_def Let_def dest: parseEntries_dirOk split: if_splits)

text \<open>A sorted list without duplicates of values in a range: what the scheduler needs of a field.\<close>

definition fieldList :: "int \<Rightarrow> int \<Rightarrow> int list \<Rightarrow> bool" where
  "fieldList lo hi l \<longleftrightarrow> sorted l \<and> distinct l \<and> set l \<subseteq> {lo..hi}"

lemma fieldList_toList: "s \<subseteq> {lo..hi} \<Longrightarrow> fieldList lo hi (toList s)"
  unfolding fieldList_def toList_def
  using finite_subset [of s "{lo..hi}"] by auto

lemma genericLoop_fieldList:
  assumes "\<forall>d \<in> set ds. dirOk lo hi d" "vs \<subseteq> {lo..hi}" "fieldList lo hi (fdDefaultList desc)"
  shows "genericLoop desc vs ds \<noteq> Inl EDiverges \<and>
    (\<forall>l. genericLoop desc vs ds = Inr l \<longrightarrow> fieldList lo hi l)"
  using assms(1,2)
proof (induction ds arbitrary: vs)
  case Nil
  then show ?case by (simp add: fieldList_toList)
next
  case (Cons d ds)
  show ?case
  proof (cases "cdKind d")
    case span
    with Cons.prems have ok: "1 \<le> cdStep d" "lo \<le> cdFirst d" "cdLast d \<le> hi"
      by (auto simp: dirOk_def)
    obtain vs' where p: "populateMany vs (cdFirst d) (cdLast d) (cdStep d) = Some vs'"
      using populateMany_spec [OF ok(1), of vs "cdFirst d" "cdLast d"] by blast
    from populateMany_range [OF ok(1) p Cons.prems(2) ok(2,3)] Cons p span show ?thesis by simp
  next
    case one
    with Cons.prems have "populateOne vs (cdFirst d) \<subseteq> {lo..hi}"
      by (auto simp: dirOk_def populateOne_def)
    with Cons one show ?thesis by simp
  qed (use assms(3) in simp_all)
qed

lemma genericFieldHandler_fieldList:
  assumes "descOk lo desc" "fieldList lo (fdMax desc) (fdDefaultList desc)"
  shows "genericFieldHandler s desc \<noteq> Inl EDiverges"
    "genericFieldHandler s desc = Inr l \<Longrightarrow> fieldList lo (fdMax desc) l"
proof -
  have ne: "parseEntries desc es \<noteq> Inl EDiverges" for es
    by (induction es) (auto simp: parseEntry_def Let_def split: sum.splits if_splits option.splits)
  show "genericFieldHandler s desc \<noteq> Inl EDiverges"
    using genericLoop_fieldList [OF _ _ assms(2), where vs = "{}"] genericFieldParse_dirOk [OF assms(1), of s] ne
    by (auto simp: genericFieldHandler_def genericFieldParse_def Let_def split: sum.splits if_splits)
  show "genericFieldHandler s desc = Inr l \<Longrightarrow> fieldList lo (fdMax desc) l"
    using genericLoop_fieldList [OF _ _ assms(2), where vs = "{}"] genericFieldParse_dirOk [OF assms(1), of s]
    by (auto simp: genericFieldHandler_def split: sum.splits)
qed

text \<open>The invariant: sorted lists in the range of their field.  The lower bound of the month is 0,
  not 1: \<open>monthTokens\<close> has no entry for \<open>01\<close> to \<open>09\<close>, which the pattern accepts.\<close>

definition wfExpression :: "expression \<Rightarrow> bool" where
  "wfExpression e \<longleftrightarrow>
     fieldList 0 59 (secondList e) \<and> fieldList 0 59 (minuteList e) \<and> fieldList 0 23 (hourList e) \<and>
     fieldList 0 12 (monthList e) \<and> fieldList 1970 2099 (yearList e) \<and>
     daysOfMonth e \<subseteq> {1..31} \<and> workdaysOfMonth e \<subseteq> {1..31} \<and>
     daysOfWeek e \<subseteq> {0..6} \<and> lastWeekDaysOfWeek e \<subseteq> {0..6} \<and> specificWeekDaysOfWeek e \<subseteq> {0..34}"

lemma wf_emptyExpression: "wfExpression emptyExpression"
  by (simp add: wfExpression_def emptyExpression_def fieldList_def)

lemma week_atoi: "w \<in> lang (RSet ''12345'') \<Longrightarrow> 1 \<le> fdAtoi dowDescriptor w \<and> fdAtoi dowDescriptor w \<le> 5"
  by (auto simp: dowDescriptor_def tokenAtoi_def dowTokens_def)

lemma week_index: "0 \<le> a \<Longrightarrow> a < 7 \<Longrightarrow> 1 \<le> b \<Longrightarrow> b \<le> 5 \<Longrightarrow> 0 \<le> (b - 1) * 7 + a \<and> (b - 1) * 7 + a \<le> (34::int)"
  by arith

lemma populateMany_Some:
  assumes "1 \<le> step" "vs \<subseteq> {lo..hi}" "lo \<le> i" "mx \<le> hi"
  shows "\<exists>vs'. populateMany vs i mx step = Some vs' \<and> vs' \<subseteq> {lo..hi}"
  using populateMany_spec [OF assms(1), of vs i mx] populateMany_range [OF assms(1) _ assms(2-4)] by blast

text \<open>Every handler keeps the invariant and comes to an end.\<close>

definition keepsWf :: "(cronError + expression) \<Rightarrow> bool" where
  "keepsWf r \<longleftrightarrow> r \<noteq> Inl EDiverges \<and> (\<forall>e. r = Inr e \<longrightarrow> wfExpression e)"

lemma keepsWf_simps [simp]:
  "keepsWf (Inr e) \<longleftrightarrow> wfExpression e" "keepsWf (Inl err) \<longleftrightarrow> err \<noteq> EDiverges"
  by (auto simp: keepsWf_def)

lemma keepsWf_bindE:
  "keepsWf r \<Longrightarrow> (\<And>e. wfExpression e \<Longrightarrow> keepsWf (f e)) \<Longrightarrow> keepsWf (bindE r f)"
  by (auto simp: bindE_def split: sum.split)

lemma dowLoop_wf:
  "\<forall>d \<in> set ds. dirOk 0 6 d \<Longrightarrow> wfExpression e \<Longrightarrow> keepsWf (dowLoop ds e)"
proof (induction ds arbitrary: e)
  case Nil
  then show ?case by simp
next
  case (Cons d ds)
  have dow: "daysOfWeek e \<subseteq> {0..6}" using Cons.prems by (simp add: wfExpression_def)
  show ?case
  proof (cases "cdKind d")
    case none
    let ?p = "fdValuePattern dowDescriptor" and ?at = "fdAtoi dowDescriptor"
    have "0 \<le> ?at w \<and> ?at w \<le> 6" if "w \<in> lang ?p" for w
      using descOk_value [OF descOk_dow that] by (simp add: dowDescriptor_def)
    moreover have "0 \<le> (?at v - 1) * 7 + ?at w mod 7 \<and> (?at v - 1) * 7 + ?at w mod 7 \<le> 34"
      if "v \<in> lang (RSet ''12345'')" for v w
    proof -
      have "0 \<le> ?at w mod 7" "?at w mod 7 < 7" "1 \<le> ?at v" "?at v \<le> 5" using week_atoi [OF that] by simp_all
      then show ?thesis by (rule week_index)
    qed
    ultimately show ?thesis
      using none Cons.prems
      by (auto simp: Let_def populateOne_def wfExpression_def
          intro!: Cons.IH split: option.split dest!: layout_groups)
  next
    case one
    with Cons.prems show ?thesis
      by (auto simp: dirOk_def populateOne_def wfExpression_def intro!: Cons.IH)
  next
    case span
    with Cons.prems have "1 \<le> cdStep d" "0 \<le> cdFirst d" "cdLast d \<le> 6" by (auto simp: dirOk_def)
    from populateMany_Some [OF this(1) dow this(2,3)] obtain vs' where
      "populateMany (daysOfWeek e) (cdFirst d) (cdLast d) (cdStep d) = Some vs'" "vs' \<subseteq> {0..6}" by blast
    with span Cons.prems show ?thesis by (auto simp: wfExpression_def intro!: Cons.IH)
  next
    case all
    with Cons.prems have "1 \<le> cdStep d" "0 \<le> cdFirst d" "cdLast d \<le> 6" by (auto simp: dirOk_def)
    from populateMany_Some [OF this(1) dow this(2,3)] obtain vs' where
      "populateMany (daysOfWeek e) (cdFirst d) (cdLast d) (cdStep d) = Some vs'" "vs' \<subseteq> {0..6}" by blast
    with all Cons.prems show ?thesis by (auto simp: wfExpression_def intro!: Cons.IH)
  qed
qed

lemma domLoop_wf:
  "\<forall>d \<in> set ds. dirOk 1 31 d \<Longrightarrow> wfExpression e \<Longrightarrow> keepsWf (domLoop ds e)"
proof (induction ds arbitrary: e)
  case Nil
  then show ?case by simp
next
  case (Cons d ds)
  have dom: "daysOfMonth e \<subseteq> {1..31}" using Cons.prems by (simp add: wfExpression_def)
  show ?case
  proof (cases "cdKind d")
    case none
    have "1 \<le> fdAtoi domDescriptor w \<and> fdAtoi domDescriptor w \<le> 31" if "w \<in> lang (fdValuePattern domDescriptor)" for w
      using descOk_value [OF descOk_dom that] by (simp add: domDescriptor_def)
    then show ?thesis
      using none Cons.prems
      by (auto simp: Let_def populateOne_def wfExpression_def
          intro!: Cons.IH split: option.split dest!: layout_groups)
  next
    case one
    with Cons.prems show ?thesis
      by (auto simp: dirOk_def populateOne_def wfExpression_def intro!: Cons.IH)
  next
    case span
    with Cons.prems have "1 \<le> cdStep d" "1 \<le> cdFirst d" "cdLast d \<le> 31" by (auto simp: dirOk_def)
    from populateMany_Some [OF this(1) dom this(2,3)] obtain vs' where
      "populateMany (daysOfMonth e) (cdFirst d) (cdLast d) (cdStep d) = Some vs'" "vs' \<subseteq> {1..31}" by blast
    with span Cons.prems show ?thesis by (auto simp: wfExpression_def intro!: Cons.IH)
  next
    case all
    with Cons.prems have "1 \<le> cdStep d" "1 \<le> cdFirst d" "cdLast d \<le> 31" by (auto simp: dirOk_def)
    from populateMany_Some [OF this(1) dom this(2,3)] obtain vs' where
      "populateMany (daysOfMonth e) (cdFirst d) (cdLast d) (cdStep d) = Some vs'" "vs' \<subseteq> {1..31}" by blast
    with all Cons.prems show ?thesis by (auto simp: wfExpression_def intro!: Cons.IH)
  qed
qed

lemma parseEntries_no_divergence: "parseEntries desc es \<noteq> Inl EDiverges"
  by (induction es) (auto simp: parseEntry_def Let_def split: sum.splits if_splits option.splits)

lemma genericFieldParse_no_divergence: "genericFieldParse s desc \<noteq> Inl EDiverges"
  by (simp add: genericFieldParse_def Let_def parseEntries_no_divergence)

lemma dowFieldHandler_wf: "wfExpression e \<Longrightarrow> keepsWf (dowFieldHandler s e)"
  using genericFieldParse_dirOk [OF descOk_dow, of s] genericFieldParse_no_divergence [of s dowDescriptor]
  unfolding dowFieldHandler_def Let_def
  by (cases "genericFieldParse s dowDescriptor")
    (auto intro!: dowLoop_wf simp: wfExpression_def dowDescriptor_def)

lemma domFieldHandler_wf: "wfExpression e \<Longrightarrow> keepsWf (domFieldHandler s e)"
  using genericFieldParse_dirOk [OF descOk_dom, of s] genericFieldParse_no_divergence [of s domDescriptor]
  unfolding domFieldHandler_def Let_def
  by (cases "genericFieldParse s domDescriptor")
    (auto intro!: domLoop_wf simp: wfExpression_def domDescriptor_def)

lemma fieldList_upto: "fieldList lo hi [lo..hi]"
  by (simp add: fieldList_def)

lemma default_fieldList:
  "fieldList 0 (fdMax secondDescriptor) (fdDefaultList secondDescriptor)"
  "fieldList 0 (fdMax minuteDescriptor) (fdDefaultList minuteDescriptor)"
  "fieldList 0 (fdMax hourDescriptor) (fdDefaultList hourDescriptor)"
  "fieldList 0 (fdMax monthDescriptor) (fdDefaultList monthDescriptor)"
  "fieldList 1970 (fdMax yearDescriptor) (fdDefaultList yearDescriptor)"
proof -
  have "fieldList 0 12 [1..12]" by (simp only: fieldList_def sorted_upto distinct_upto set_upto) auto
  then show "fieldList 0 (fdMax monthDescriptor) (fdDefaultList monthDescriptor)"
    by (simp only: monthDescriptor_def fieldDescriptor.simps)
qed (simp_all only: secondDescriptor_def minuteDescriptor_def hourDescriptor_def yearDescriptor_def
       fieldDescriptor.simps fieldList_upto)

lemma listHandlers_wf:
  assumes "wfExpression e"
  shows "keepsWf (secondFieldHandler s e)" "keepsWf (minuteFieldHandler s e)"
    "keepsWf (hourFieldHandler s e)" "keepsWf (monthFieldHandler s e)" "keepsWf (yearFieldHandler s e)"
proof -
  have r: "keepsWf (case genericFieldHandler s desc of Inl err \<Rightarrow> Inl err | Inr l \<Rightarrow> Inr (upd l))"
    if "descOk lo desc" "fieldList lo (fdMax desc) (fdDefaultList desc)"
      "\<And>l. fieldList lo (fdMax desc) l \<Longrightarrow> wfExpression (upd l)" for lo desc and upd
    using genericFieldHandler_fieldList [OF that(1,2), of s] that(3)
    by (auto split: sum.split)
  show "keepsWf (secondFieldHandler s e)"
    unfolding secondFieldHandler_def
    by (rule r [OF descOk_second default_fieldList(1)])
      (use assms in \<open>simp add: secondDescriptor_def wfExpression_def\<close>)
  show "keepsWf (minuteFieldHandler s e)"
    unfolding minuteFieldHandler_def
    by (rule r [OF descOk_minute default_fieldList(2)])
      (use assms in \<open>simp add: minuteDescriptor_def wfExpression_def\<close>)
  show "keepsWf (hourFieldHandler s e)"
    unfolding hourFieldHandler_def
    by (rule r [OF descOk_hour default_fieldList(3)])
      (use assms in \<open>simp add: hourDescriptor_def wfExpression_def\<close>)
  show "keepsWf (monthFieldHandler s e)"
    unfolding monthFieldHandler_def
    by (rule r [OF descOk_month default_fieldList(4)])
      (use assms in \<open>simp add: monthDescriptor_def wfExpression_def\<close>)
  show "keepsWf (yearFieldHandler s e)"
    unfolding yearFieldHandler_def
    by (rule r [OF descOk_year default_fieldList(5)])
      (use assms in \<open>simp add: yearDescriptor_def wfExpression_def\<close>)
qed

lemma wf_default_years: "wfExpression e \<Longrightarrow> wfExpression (e\<lparr>yearList := fdDefaultList yearDescriptor\<rparr>)"
  using default_fieldList(5) unfolding wfExpression_def by (simp add: yearDescriptor_def del: upto_rec_numeral)

lemma parseFields_wf: "wfExpression e \<Longrightarrow> keepsWf (parseFields fs e)"
  unfolding parseFields_def
  by (intro keepsWf_bindE listHandlers_wf domFieldHandler_wf dowFieldHandler_wf; (assumption)?)
    (simp add: listHandlers_wf wf_default_years)

lemma Parse_keepsWf: "keepsWf (Parse s)"
proof -
  have "wfExpression (emptyExpression\<lparr>secondList := [0]\<rparr>)"
    using wf_emptyExpression by (simp add: wfExpression_def fieldList_def)
  then show ?thesis
    by (auto simp: Parse_def Let_def intro!: parseFields_wf keepsWf_bindE listHandlers_wf wf_emptyExpression)
qed

end
