(* ===== verification/Cron_Next.thy ===== *)
theory Cron_Next
  imports Cron_Parser
begin

text \<open>
  Package \<open>cronexpr\<close>: the scheduler, \<open>next.go\<close> and \<open>Next\<close>, \<open>NextInterval\<close> of
  \<open>expression.go\<close>.  Each method takes the expression and returns it beside its result, since
  \<open>actualDaysOfMonthList\<close> is overwritten on the way.  An index out of range is the panic value
  \<open>IndexOutOfRange\<close>.  \<open>nextMonth\<close> and \<open>nextYear\<close> call each other and do not always come
  back, so they are one \<open>partial_function\<close> whose value \<open>None\<close> stands for an unbounded
  recursion.  The lemmas characterise the days of a month that an expression selects, and show
  that for a schedulable expression \<open>Next\<close> returns the least matching time after its argument.
\<close>

section \<open>Days of a month\<close>

definition dowNormalizedOffsets :: "int list list" where
  "dowNormalizedOffsets =
    [[1, 8, 15, 22, 29], [2, 9, 16, 23, 30], [3, 10, 17, 24, 31], [4, 11, 18, 25],
     [5, 12, 19, 26], [6, 13, 20, 27], [7, 14, 21, 28]]"

definition workdayOfMonth :: "gotime \<Rightarrow> gotime \<Rightarrow> int" where
  "workdayOfMonth targetDom lastDom =
     (let dom = tDay targetDom; dow = Weekday targetDom
      in if dow = 6 then (if dom > 1 then dom - 1 else dom + 2)
         else if dow = 0 then (if dom < tDay lastDom then dom + 1 else dom - 2)
         else dom)"

text \<open>The fifth entry of a row counts only where the month has that day.\<close>

definition rowDays :: "int \<Rightarrow> int list \<Rightarrow> int set" where
  "rowDays lastDay w = set (take 4 w) \<union> (if length w > 4 \<and> w ! 4 \<le> lastDay then {w ! 4} else {})"

definition calculateActualDaysOfMonth :: "expression \<Rightarrow> int \<Rightarrow> int \<Rightarrow> int list" where
  "calculateActualDaysOfMonth e year month =
     (let firstDay = Date year month 1 0 0 0 0 0;
          lastDay = AddDate firstDay 0 1 (-1);
          ld = tDay lastDay
      in if \<not> daysOfMonthRestricted e \<and> \<not> daysOfWeekRestricted e then [1..ld]
         else
           let domDays =
                 (if daysOfMonthRestricted e then
                    (if lastDayOfMonth e then {ld} else {}) \<union>
                    (if lastWorkdayOfMonth e then {workdayOfMonth lastDay lastDay} else {}) \<union>
                    {v \<in> daysOfMonth e. v \<le> ld} \<union>
                    (\<lambda>v. workdayOfMonth (AddDate firstDay 0 0 (v - 1)) lastDay) ` {v \<in> workdaysOfMonth e. v \<le> ld}
                  else {});
               dowDays =
                 (if daysOfWeekRestricted e then
                    let offset = 7 - Weekday firstDay;
                        lastWeekOrigin = AddDate firstDay 0 1 (-7);
                        offset2 = 7 - Weekday lastWeekOrigin
                    in (\<Union>v \<in> daysOfWeek e. rowDays ld (dowNormalizedOffsets ! nat ((offset + v) mod 7))) \<union>
                       {d \<in> (\<lambda>v. 1 + 7 * (v div 7) + (offset + v) mod 7) ` specificWeekDaysOfWeek e. d \<le> ld} \<union>
                       {d \<in> (\<lambda>v. tDay lastWeekOrigin + (offset2 + v) mod 7) ` lastWeekDaysOfWeek e. d \<le> ld}
                  else {})
           in toList (domDays \<union> dowDays))"

section \<open>The methods of the scheduler\<close>

datatype panic = IndexOutOfRange

type_synonym nextResult = "panic + gotime \<times> expression"

definition first :: "int list \<Rightarrow> panic + int" where
  "first xs = (case xs of [] \<Rightarrow> Inl IndexOutOfRange | x # _ \<Rightarrow> Inr x)"

text \<open>\<open>time.Date\<close> at the first hour, minute and second of the expression.\<close>

definition dateFirst :: "expression \<Rightarrow> int \<Rightarrow> int \<Rightarrow> int \<Rightarrow> int \<Rightarrow> panic + gotime" where
  "dateFirst e y m d loc =
     bindE (first (hourList e)) (\<lambda>h. bindE (first (minuteList e)) (\<lambda>mi.
     bindE (first (secondList e)) (\<lambda>s. Inr (Date y m d h mi s 0 loc))))"

definition withExpr :: "expression \<Rightarrow> panic + gotime \<Rightarrow> nextResult" where
  "withExpr e r = (case r of Inl p \<Rightarrow> Inl p | Inr t \<Rightarrow> Inr (t, e))"

partial_function (option) nextYearMonth :: "bool \<Rightarrow> expression \<Rightarrow> gotime \<Rightarrow> nextResult option" where
  "nextYearMonth isYear e t =
     (if isYear then
        (let i = SearchInts (yearList e) (tYear t + 1)
         in if i = length (yearList e) then Some (Inr (zeroTime, e))
            else case monthList e of
              [] \<Rightarrow> Some (Inl IndexOutOfRange)
            | m0 # _ \<Rightarrow>
                (let y = yearList e ! i;
                     days = calculateActualDaysOfMonth e y m0;
                     e' = e\<lparr>actualDaysOfMonthList := days\<rparr>
                 in case days of
                   [] \<Rightarrow> (case dateFirst e' y m0 1 (tLoc t) of
                           Inl p \<Rightarrow> Some (Inl p) | Inr t' \<Rightarrow> nextYearMonth False e' t')
                 | d0 # _ \<Rightarrow> Some (withExpr e' (dateFirst e' y m0 d0 (tLoc t)))))
      else
        (let i = SearchInts (monthList e) (tMonth t + 1)
         in if i = length (monthList e) then nextYearMonth True e t
            else
              (let m = monthList e ! i;
                   days = calculateActualDaysOfMonth e (tYear t) m;
                   e' = e\<lparr>actualDaysOfMonthList := days\<rparr>
               in case days of
                 [] \<Rightarrow> (case dateFirst e' (tYear t) m 1 (tLoc t) of
                         Inl p \<Rightarrow> Some (Inl p) | Inr t' \<Rightarrow> nextYearMonth False e' t')
               | d0 # _ \<Rightarrow> Some (withExpr e' (dateFirst e' (tYear t) m d0 (tLoc t))))))"

declare nextYearMonth.simps [code]

definition nextYear :: "expression \<Rightarrow> gotime \<Rightarrow> nextResult option" where
  "nextYear = nextYearMonth True"

definition nextMonth :: "expression \<Rightarrow> gotime \<Rightarrow> nextResult option" where
  "nextMonth = nextYearMonth False"

definition nextDayOfMonth :: "expression \<Rightarrow> gotime \<Rightarrow> nextResult option" where
  "nextDayOfMonth e t =
     (let i = SearchInts (actualDaysOfMonthList e) (tDay t + 1)
      in if i = length (actualDaysOfMonthList e) then nextMonth e t
         else Some (withExpr e (dateFirst e (tYear t) (tMonth t) (actualDaysOfMonthList e ! i) (tLoc t))))"

definition nextHour :: "expression \<Rightarrow> gotime \<Rightarrow> nextResult option" where
  "nextHour e t =
     (let i = SearchInts (hourList e) (tHour t + 1)
      in if i = length (hourList e) then nextDayOfMonth e t
         else Some (withExpr e (bindE (first (minuteList e)) (\<lambda>mi. bindE (first (secondList e)) (\<lambda>s.
                Inr (Date (tYear t) (tMonth t) (tDay t) (hourList e ! i) mi s 0 (tLoc t)))))))"

definition nextMinute :: "expression \<Rightarrow> gotime \<Rightarrow> nextResult option" where
  "nextMinute e t =
     (let i = SearchInts (minuteList e) (tMinute t + 1)
      in if i = length (minuteList e) then nextHour e t
         else Some (withExpr e (bindE (first (secondList e)) (\<lambda>s.
                Inr (Date (tYear t) (tMonth t) (tDay t) (tHour t) (minuteList e ! i) s 0 (tLoc t))))))"

definition nextSecond :: "expression \<Rightarrow> gotime \<Rightarrow> nextResult option" where
  "nextSecond e t =
     (let i = SearchInts (secondList e) (tSecond t + 1)
      in if i = length (secondList e) then nextMinute e t
         else Some (Inr (Date (tYear t) (tMonth t) (tDay t) (tHour t) (tMinute t) (secondList e ! i) 0 (tLoc t), e)))"

definition Next :: "expression \<Rightarrow> gotime \<Rightarrow> nextResult option" where
  "Next e t =
     (if IsZero t then Some (Inr (t, e))
      else let v = tYear t; i = SearchInts (yearList e) v in
        if i = length (yearList e) then Some (Inr (zeroTime, e))
        else if v \<noteq> yearList e ! i then nextYear e t
        else let v = tMonth t; i = SearchInts (monthList e) v in
        if i = length (monthList e) then nextYear e t
        else if v \<noteq> monthList e ! i then nextMonth e t
        else let e = e\<lparr>actualDaysOfMonthList := calculateActualDaysOfMonth e (tYear t) (tMonth t)\<rparr> in
        if actualDaysOfMonthList e = [] then nextMonth e t
        else let v = tDay t; i = SearchInts (actualDaysOfMonthList e) v in
        if i = length (actualDaysOfMonthList e) then nextMonth e t
        else if v \<noteq> actualDaysOfMonthList e ! i then nextDayOfMonth e t
        else let v = tHour t; i = SearchInts (hourList e) v in
        if i = length (hourList e) then nextDayOfMonth e t
        else if v \<noteq> hourList e ! i then nextHour e t
        else let v = tMinute t; i = SearchInts (minuteList e) v in
        if i = length (minuteList e) then nextHour e t
        else if v \<noteq> minuteList e ! i then nextMinute e t
        else let v = tSecond t; i = SearchInts (secondList e) v in
        if i = length (secondList e) then nextMinute e t
        else nextSecond e t)"

definition NextInterval :: "expression \<Rightarrow> gotime \<Rightarrow> (panic + int \<times> expression) option" where
  "NextInterval e t =
     (case Next e t of
        None \<Rightarrow> None
      | Some (Inl p) \<Rightarrow> Some (Inl p)
      | Some (Inr (r, e')) \<Rightarrow> Some (Inr (Sub r t, e')))"

section \<open>The days an expression selects\<close>

text \<open>The nearest day from Monday to Friday in the same month, as \<open>15W\<close> means it.\<close>

definition nearestWorkday :: "int \<Rightarrow> int \<Rightarrow> int \<Rightarrow> int" where
  "nearestWorkday y m d =
     (if dayOfWeek y m d = 6 then (if d > 1 then d - 1 else d + 2)
      else if dayOfWeek y m d = 0 then (if d < daysIn y m then d + 1 else d - 2)
      else d)"

text \<open>What the two day fields mean, without reference to how the list is computed.\<close>

definition dayMatches :: "expression \<Rightarrow> int \<Rightarrow> int \<Rightarrow> int \<Rightarrow> bool" where
  "dayMatches e y m d \<longleftrightarrow>
     \<not> daysOfMonthRestricted e \<and> \<not> daysOfWeekRestricted e \<or>
     daysOfMonthRestricted e \<and>
       (lastDayOfMonth e \<and> d = daysIn y m \<or>
        lastWorkdayOfMonth e \<and> d = nearestWorkday y m (daysIn y m) \<or>
        d \<in> daysOfMonth e \<or>
        (\<exists>v \<in> workdaysOfMonth e. v \<le> daysIn y m \<and> d = nearestWorkday y m v)) \<or>
     daysOfWeekRestricted e \<and>
       (dayOfWeek y m d \<in> daysOfWeek e \<or>
        7 * ((d - 1) div 7) + dayOfWeek y m d \<in> specificWeekDaysOfWeek e \<or>
        d > daysIn y m - 7 \<and> dayOfWeek y m d \<in> lastWeekDaysOfWeek e)"

lemma Date_day: 
  assumes "1 \<le> m" "m \<le> 12" "1 \<le> d" "d \<le> daysIn y m"
  shows "Date y m d 0 0 0 0 0 = \<lparr>tYear = y, tMonth = m, tDay = d, tHour = 0, tMinute = 0,
    tSecond = 0, tNano = 0, tLoc = 0\<rparr>"
  using assms by (simp add: Date_id)

text \<open>The days counted back from the first of the next month.\<close>

lemma AddDate_next_month:
  assumes "1 \<le> m" "m \<le> 12" "-7 \<le> k" "k \<le> -1"
  shows "AddDate (Date y m 1 0 0 0 0 0) 0 1 k = \<lparr>tYear = y, tMonth = m, tDay = daysIn y m + 1 + k,
    tHour = 0, tMinute = 0, tSecond = 0, tNano = 0, tLoc = 0\<rparr>"
proof -
  have b: "28 \<le> daysIn y m" by (rule daysIn_bounds)
  then have f: "Date y m 1 0 0 0 0 0 = \<lparr>tYear = y, tMonth = m, tDay = 1, tHour = 0, tMinute = 0,
    tSecond = 0, tNano = 0, tLoc = 0\<rparr>"
    using assms by (intro Date_day) auto
  obtain y' m' where n: "y' = y + m div 12" "m' = m mod 12 + 1" by blast
  have p: "prevYM (y', m') = (y, m)"
  proof (cases "m = 12")
    case True
    with n show ?thesis by (simp add: prevYM_def)
  next
    case False
    with assms have "m div 12 = 0" "m mod 12 = m" by auto
    with n assms(1) show ?thesis by (simp add: prevYM_def)
  qed
  have nd: "normDay y' m' (1 + k) = (y, m, daysIn y m + 1 + k)"
    using assms(3,4) b by (subst normDay.simps) (simp add: p)
  show ?thesis unfolding f by (simp add: AddDate_def Date_def Let_def n [symmetric] nd)
qed

lemma AddDate_in_month:
  assumes "1 \<le> m" "m \<le> 12" "1 \<le> v" "v \<le> daysIn y m"
  shows "AddDate (Date y m 1 0 0 0 0 0) 0 0 (v - 1) = Date y m v 0 0 0 0 0"
  using assms daysIn_bounds [of y m] by (subst Date_day) (simp_all add: AddDate_def)

lemma workdayOfMonth_nearest:
  assumes "1 \<le> m" "m \<le> 12" "1 \<le> v" "v \<le> daysIn y m" "tDay l = daysIn y m"
  shows "workdayOfMonth (Date y m v 0 0 0 0 0) l = nearestWorkday y m v"
  using assms by (simp add: Date_day workdayOfMonth_def nearestWorkday_def Weekday_def Let_def)

lemma nearestWorkday_range:
  assumes "1 \<le> d" "d \<le> daysIn y m"
  shows "1 \<le> nearestWorkday y m d \<and> nearestWorkday y m d \<le> daysIn y m"
  using assms daysIn_bounds [of y m] by (auto simp: nearestWorkday_def)

text \<open>Row \<open>r\<close> of the table holds the days of the month that are \<open>r\<close> days after a first day of a week.\<close>

lemma offsets_row:
  assumes "0 \<le> r" "r < 7"
  shows "dowNormalizedOffsets ! nat r =
    (if r \<le> 2 then [r + 1, r + 8, r + 15, r + 22, r + 29] else [r + 1, r + 8, r + 15, r + 22])"
proof -
  have "r = 0 \<or> r = 1 \<or> r = 2 \<or> r = 3 \<or> r = 4 \<or> r = 5 \<or> r = 6" using assms by arith
  then show ?thesis by (elim disjE) (simp_all add: dowNormalizedOffsets_def)
qed

lemma same_remainder:
  fixes d r ld :: int
  assumes "0 \<le> r" "r < 7" "28 \<le> ld" "ld \<le> 31"
  shows "d = r + 1 \<or> d = r + 8 \<or> d = r + 15 \<or> d = r + 22 \<or> r \<le> 2 \<and> d = r + 29 \<and> r + 29 \<le> ld \<longleftrightarrow>
    1 \<le> d \<and> d \<le> ld \<and> (d - 1) mod 7 = r" (is "?l \<longleftrightarrow> ?r")
proof
  assume ?l
  then obtain k where "d - 1 = r + 7 * k" "1 \<le> d" "d \<le> ld"
  proof (elim disjE conjE)
    assume "d = r + 1" then show thesis using assms by (intro that [of 0]) auto
  next
    assume "d = r + 8" then show thesis using assms by (intro that [of 1]) auto
  next
    assume "d = r + 15" then show thesis using assms by (intro that [of 2]) auto
  next
    assume "d = r + 22" then show thesis using assms by (intro that [of 3]) auto
  next
    assume "d = r + 29" "r + 29 \<le> ld" then show thesis using assms by (intro that [of 4]) auto
  qed
  with assms(1,2) show ?r by simp
next
  assume r: ?r
  define q where "q = (d - 1) div 7"
  have d: "d = 7 * q + r + 1" using r mult_div_mod_eq [of 7 "d - 1"] by (simp add: q_def)
  with r assms have "0 \<le> q" "q \<le> 4" by linarith+
  then have "q = 0 \<or> q = 1 \<or> q = 2 \<or> q = 3 \<or> q = 4" by arith
  then show ?l using d r assms by (elim disjE) simp_all
qed

lemma rowDays_row:
  assumes "0 \<le> r" "r < 7" "28 \<le> ld" "ld \<le> 31"
  shows "rowDays ld (dowNormalizedOffsets ! nat r) = {d. 1 \<le> d \<and> d \<le> ld \<and> (d - 1) mod 7 = r}"
proof -
  have "rowDays ld (dowNormalizedOffsets ! nat r) =
    {d. d = r + 1 \<or> d = r + 8 \<or> d = r + 15 \<or> d = r + 22 \<or> r \<le> 2 \<and> d = r + 29 \<and> r + 29 \<le> ld}"
    unfolding offsets_row [OF assms(1,2)] by (auto simp: rowDays_def)
  then show ?thesis by (simp only: same_remainder [OF assms])
qed

lemma dow_row:
  assumes "0 \<le> v" "v < (7::int)"
  shows "(d - 1) mod 7 = (7 - w + v) mod 7 \<longleftrightarrow> (w + (d - 1)) mod 7 = v"
proof -
  have "(w + (d - 1)) - v = ((d - 1) - (7 - w + v)) + 7" by simp
  then have "(7::int) dvd (w + (d - 1)) - v \<longleftrightarrow> 7 dvd (d - 1) - (7 - w + v)"
    by (metis dvd_add_triv_right_iff)
  moreover have "v mod 7 = v" using assms by simp
  ultimately show ?thesis by (metis mod_eq_dvd_iff)
qed

lemma dayOfWeek_from_first: "dayOfWeek y m d = (dayOfWeek y m 1 + (d - 1)) mod 7"
  using dayOfWeek_shift [of y m 1 "d - 1"] by simp

lemma dow_days:
  assumes "0 \<le> v" "v < 7"
  shows "rowDays (daysIn y m) (dowNormalizedOffsets ! nat ((7 - dayOfWeek y m 1 + v) mod 7)) =
    {d. 1 \<le> d \<and> d \<le> daysIn y m \<and> dayOfWeek y m d = v}"
proof -
  have "rowDays (daysIn y m) (dowNormalizedOffsets ! nat ((7 - dayOfWeek y m 1 + v) mod 7)) =
    {d. 1 \<le> d \<and> d \<le> daysIn y m \<and> (d - 1) mod 7 = (7 - dayOfWeek y m 1 + v) mod 7}"
    using daysIn_bounds [of y m] by (intro rowDays_row) simp_all
  also have "\<dots> = {d. 1 \<le> d \<and> d \<le> daysIn y m \<and> dayOfWeek y m d = v}"
    by (intro Collect_cong) (metis dow_row [OF assms] dayOfWeek_from_first)
  finally show ?thesis .
qed

lemma specific_day:
  fixes d v w :: int
  shows "d = 1 + 7 * (v div 7) + (7 - w + v) mod 7 \<longleftrightarrow> v = 7 * ((d - 1) div 7) + (w + (d - 1)) mod 7"
proof -
  have r: "(7 - w + v) mod 7 = (7 - w + v mod 7) mod 7" by (simp add: mod_add_right_eq)
  have row: "(d - 1) mod 7 = (7 - w + v) mod 7 \<longleftrightarrow> (w + (d - 1)) mod 7 = v mod 7"
    unfolding r by (rule dow_row) simp_all
  show ?thesis
  proof
    assume "d = 1 + 7 * (v div 7) + (7 - w + v) mod 7"
    then have "d - 1 = 7 * (v div 7) + (7 - w + v) mod 7" by simp
    then have q: "(d - 1) div 7 = v div 7" and "(d - 1) mod 7 = (7 - w + v) mod 7" by simp_all
    then have m: "(w + (d - 1)) mod 7 = v mod 7" using row by blast
    show "v = 7 * ((d - 1) div 7) + (w + (d - 1)) mod 7"
      unfolding q m by (rule mult_div_mod_eq [symmetric])
  next
    assume v: "v = 7 * ((d - 1) div 7) + (w + (d - 1)) mod 7"
    have q: "v div 7 = (d - 1) div 7" and r: "v mod 7 = (w + (d - 1)) mod 7"
      by (rule int_div_pos_eq [OF v]; simp) (rule int_mod_pos_eq [OF v]; simp)
    have m: "(7 - w + v) mod 7 = (d - 1) mod 7" using row r by simp
    have "1 + (7 * ((d - 1) div 7) + (d - 1) mod 7) = d" by (simp only: mult_div_mod_eq)
    then show "d = 1 + 7 * (v div 7) + (7 - w + v) mod 7"
      unfolding q m by simp
  qed
qed

lemma last_week_day:
  fixes d v w ld :: int
  assumes "0 \<le> v" "v < 7" "d \<le> ld"
  shows "d = ld - 6 + (7 - w + v) mod 7 \<longleftrightarrow> ld - 7 < d \<and> (w + (d - (ld - 6))) mod 7 = v"
proof -
  have "ld - 7 < d \<Longrightarrow> (d - (ld - 6)) mod 7 = d - (ld - 6)" using assms by simp
  moreover have "0 \<le> (7 - w + v) mod 7" "(7 - w + v) mod 7 < 7" by simp_all
  moreover have "((d - (ld - 6) + 1) - 1) mod 7 = (7 - w + v) mod 7 \<longleftrightarrow>
      (w + ((d - (ld - 6) + 1) - 1)) mod 7 = v"
    by (rule dow_row [OF assms(1,2)])
  ultimately show ?thesis by (smt (verit))
qed

text \<open>The two unions of \<open>calculateActualDaysOfMonth\<close>, over the calendar functions.\<close>

definition domDays :: "expression \<Rightarrow> int \<Rightarrow> int \<Rightarrow> int set" where
  "domDays e y m =
     (if daysOfMonthRestricted e then
        (if lastDayOfMonth e then {daysIn y m} else {}) \<union>
        (if lastWorkdayOfMonth e then {nearestWorkday y m (daysIn y m)} else {}) \<union>
        {v \<in> daysOfMonth e. v \<le> daysIn y m} \<union>
        nearestWorkday y m ` {v \<in> workdaysOfMonth e. v \<le> daysIn y m}
      else {})"

definition dowDays :: "expression \<Rightarrow> int \<Rightarrow> int \<Rightarrow> int set" where
  "dowDays e y m =
     (if daysOfWeekRestricted e then
        (\<Union>v \<in> daysOfWeek e. {d. 1 \<le> d \<and> d \<le> daysIn y m \<and> dayOfWeek y m d = v}) \<union>
        {d \<in> (\<lambda>v. 1 + 7 * (v div 7) + (7 - dayOfWeek y m 1 + v) mod 7) ` specificWeekDaysOfWeek e. d \<le> daysIn y m} \<union>
        {d \<in> (\<lambda>v. daysIn y m - 6 + (7 - dayOfWeek y m (daysIn y m - 6) + v) mod 7) ` lastWeekDaysOfWeek e. d \<le> daysIn y m}
      else {})"

lemma calculateActualDaysOfMonth_unions:
  assumes "wfExpression e" "1 \<le> m" "m \<le> 12"
  shows "calculateActualDaysOfMonth e y m =
    (if \<not> daysOfMonthRestricted e \<and> \<not> daysOfWeekRestricted e then [1..daysIn y m]
     else toList (domDays e y m \<union> dowDays e y m))"
proof -
  let ?L = "daysIn y m" and ?w = "dayOfWeek y m 1"
  define F where "F = Date y m 1 0 0 0 0 0"
  define LD where "LD = AddDate F 0 1 (-1)"
  have b: "28 \<le> ?L" "?L \<le> 31" by (rule daysIn_bounds)+
  have F: "Weekday F = ?w"
    using assms(2,3) b by (simp add: F_def Date_day Weekday_def)
  have LD1: "LD = \<lparr>tYear = y, tMonth = m, tDay = ?L, tHour = 0, tMinute = 0, tSecond = 0, tNano = 0, tLoc = 0\<rparr>"
    unfolding LD_def F_def AddDate_next_month [OF assms(2,3), of "-1" y, simplified] by simp
  have LD: "LD = Date y m ?L 0 0 0 0 0" "tDay LD = ?L"
    using assms(2,3) b LD1 by (simp_all add: Date_day)
  have WO: "tDay (AddDate F 0 1 (-7)) = ?L - 6" "Weekday (AddDate F 0 1 (-7)) = dayOfWeek y m (?L - 6)"
    unfolding F_def AddDate_next_month [OF assms(2,3), of "-7" y, simplified] by (simp_all add: Weekday_def)
  have wd: "(\<lambda>v. workdayOfMonth (AddDate F 0 0 (v - 1)) LD) ` {v \<in> workdaysOfMonth e. v \<le> ?L} =
      nearestWorkday y m ` {v \<in> workdaysOfMonth e. v \<le> ?L}"
  proof (rule image_cong [OF refl])
    fix v assume "v \<in> {v \<in> workdaysOfMonth e. v \<le> ?L}"
    with assms(1) have v: "1 \<le> v" "v \<le> ?L" by (auto simp: wfExpression_def)
    with assms(2,3) LD(2) show "workdayOfMonth (AddDate F 0 0 (v - 1)) LD = nearestWorkday y m v"
      by (simp add: F_def AddDate_in_month workdayOfMonth_nearest)
  qed
  have lw: "workdayOfMonth LD LD = nearestWorkday y m ?L"
    using assms(2,3) b LD by (metis order.refl order_trans one_le_numeral workdayOfMonth_nearest)
  have dw: "(\<Union>v \<in> daysOfWeek e. rowDays ?L (dowNormalizedOffsets ! nat ((7 - ?w + v) mod 7))) =
      (\<Union>v \<in> daysOfWeek e. {d. 1 \<le> d \<and> d \<le> ?L \<and> dayOfWeek y m d = v})"
    using assms(1) by (intro SUP_cong refl dow_days) (auto simp: wfExpression_def)
  show ?thesis
    unfolding calculateActualDaysOfMonth_def Let_def F_def [symmetric] LD_def [symmetric]
      LD(2) lw wd F WO dw domDays_def dowDays_def ..
qed

lemma domDays_iff:
  assumes "wfExpression e"
  shows "d \<in> domDays e y m \<longleftrightarrow> daysOfMonthRestricted e \<and> 1 \<le> d \<and> d \<le> daysIn y m \<and>
       (lastDayOfMonth e \<and> d = daysIn y m \<or>
        lastWorkdayOfMonth e \<and> d = nearestWorkday y m (daysIn y m) \<or>
        d \<in> daysOfMonth e \<or>
        (\<exists>v \<in> workdaysOfMonth e. v \<le> daysIn y m \<and> d = nearestWorkday y m v))"
proof -
  have "1 \<le> v" if "v \<in> daysOfMonth e \<or> v \<in> workdaysOfMonth e" for v
    using that assms by (auto simp: wfExpression_def)
  moreover have "1 \<le> daysIn y m" using daysIn_bounds [of y m] by simp
  ultimately show ?thesis
    using nearestWorkday_range [of _ y m] by (auto simp: domDays_def)
qed

lemma dowDays_iff:
  assumes "wfExpression e"
  shows "d \<in> dowDays e y m \<longleftrightarrow> daysOfWeekRestricted e \<and> 1 \<le> d \<and> d \<le> daysIn y m \<and>
       (dayOfWeek y m d \<in> daysOfWeek e \<or>
        7 * ((d - 1) div 7) + dayOfWeek y m d \<in> specificWeekDaysOfWeek e \<or>
        d > daysIn y m - 7 \<and> dayOfWeek y m d \<in> lastWeekDaysOfWeek e)"
proof -
  let ?L = "daysIn y m"
  let ?sp = "\<lambda>v. 1 + 7 * (v div 7) + (7 - dayOfWeek y m 1 + v) mod 7"
  let ?la = "\<lambda>v. ?L - 6 + (7 - dayOfWeek y m (?L - 6) + v) mod 7"
  have sp: "d \<in> ?sp ` specificWeekDaysOfWeek e \<longleftrightarrow>
      1 \<le> d \<and> 7 * ((d - 1) div 7) + dayOfWeek y m d \<in> specificWeekDaysOfWeek e"
  proof -
    have "1 \<le> ?sp v" if "v \<in> specificWeekDaysOfWeek e" for v
    proof -
      have "0 \<le> v div 7" "0 \<le> (7 - dayOfWeek y m 1 + v) mod 7"
        using that assms by (auto simp: wfExpression_def intro!: div_int_pos_iff [THEN iffD2])
      then show ?thesis by linarith
    qed
    moreover have "d = ?sp v \<longleftrightarrow> v = 7 * ((d - 1) div 7) + dayOfWeek y m d" for v
      using specific_day [of d v "dayOfWeek y m 1"] dayOfWeek_from_first [of y m d] by simp
    ultimately show ?thesis unfolding image_iff by metis
  qed
  have la: "d \<in> ?la ` lastWeekDaysOfWeek e \<longleftrightarrow> ?L - 7 < d \<and> dayOfWeek y m d \<in> lastWeekDaysOfWeek e"
    if "d \<le> ?L"
  proof -
    have "d = ?la v \<longleftrightarrow> ?L - 7 < d \<and> dayOfWeek y m d = v" if "v \<in> lastWeekDaysOfWeek e" for v
    proof -
      have "0 \<le> v" "v < 7" using that assms by (auto simp: wfExpression_def)
      then show ?thesis
        using last_week_day [of v d ?L "dayOfWeek y m (?L - 6)"] \<open>d \<le> ?L\<close>
          dayOfWeek_shift [of y m "?L - 6" "d - (?L - 6)"] by simp
    qed
    then show ?thesis unfolding image_iff by metis
  qed
  have "28 \<le> ?L" by (rule daysIn_bounds)
  then have "?L - 7 < d \<Longrightarrow> 1 \<le> d" by simp
  with sp la show ?thesis unfolding dowDays_def by auto
qed

text \<open>The days of one month that the computed list holds are the days that match.\<close>

lemma calculateActualDaysOfMonth_days:
  assumes "wfExpression e" "1 \<le> m" "m \<le> 12"
  shows "set (calculateActualDaysOfMonth e y m) = {d. 1 \<le> d \<and> d \<le> daysIn y m \<and> dayMatches e y m d}"
    and "sorted (calculateActualDaysOfMonth e y m)"
proof -
  let ?U = "domDays e y m \<union> dowDays e y m"
  have "?U \<subseteq> {1..daysIn y m}"
    using domDays_iff [OF assms(1), of _ y m] dowDays_iff [OF assms(1), of _ y m] by auto
  then have fin: "finite ?U" by (rule finite_subset) simp
  have "d \<in> ?U \<longleftrightarrow> 1 \<le> d \<and> d \<le> daysIn y m \<and> dayMatches e y m d"
    if "daysOfMonthRestricted e \<or> daysOfWeekRestricted e" for d
    using that unfolding Un_iff domDays_iff [OF assms(1)] dowDays_iff [OF assms(1)] dayMatches_def by auto
  moreover have "dayMatches e y m d" if "\<not> (daysOfMonthRestricted e \<or> daysOfWeekRestricted e)" for d
    using that by (simp add: dayMatches_def)
  ultimately show "set (calculateActualDaysOfMonth e y m) = {d. 1 \<le> d \<and> d \<le> daysIn y m \<and> dayMatches e y m d}"
    unfolding calculateActualDaysOfMonth_unions [OF assms] toList_def
    using set_sorted_list_of_set [OF fin] by auto
  show "sorted (calculateActualDaysOfMonth e y m)"
    unfolding calculateActualDaysOfMonth_unions [OF assms] toList_def by simp
qed

section \<open>The next matching time\<close>

text \<open>An expression the methods can work with: no list is empty and no month is 0.\<close>

definition schedulable :: "expression \<Rightarrow> bool" where
  "schedulable e \<longleftrightarrow> wfExpression e \<and> secondList e \<noteq> [] \<and> minuteList e \<noteq> [] \<and> hourList e \<noteq> [] \<and>
     monthList e \<noteq> [] \<and> list_all (\<lambda>m. 1 \<le> m) (monthList e)"

definition matchesTime :: "expression \<Rightarrow> gotime \<Rightarrow> bool" where
  "matchesTime e u \<longleftrightarrow> valid_time u \<and> tNano u = 0 \<and> tYear u \<in> set (yearList e) \<and> tMonth u \<in> set (monthList e) \<and>
     dayMatches e (tYear u) (tMonth u) (tDay u) \<and> tHour u \<in> set (hourList e) \<and>
     tMinute u \<in> set (minuteList e) \<and> tSecond u \<in> set (secondList e)"

text \<open>Later by a field that the method advances, or by a more significant one.\<close>

definition afterYear :: "gotime \<Rightarrow> gotime \<Rightarrow> bool" where
  "afterYear t u \<longleftrightarrow> tYear t < tYear u"

definition afterMonth :: "gotime \<Rightarrow> gotime \<Rightarrow> bool" where
  "afterMonth t u \<longleftrightarrow> afterYear t u \<or> tYear t = tYear u \<and> tMonth t < tMonth u"

definition afterDay :: "gotime \<Rightarrow> gotime \<Rightarrow> bool" where
  "afterDay t u \<longleftrightarrow> afterMonth t u \<or> tYear t = tYear u \<and> tMonth t = tMonth u \<and> tDay t < tDay u"

definition afterHour :: "gotime \<Rightarrow> gotime \<Rightarrow> bool" where
  "afterHour t u \<longleftrightarrow> afterDay t u \<or>
     tYear t = tYear u \<and> tMonth t = tMonth u \<and> tDay t = tDay u \<and> tHour t < tHour u"

definition afterMinute :: "gotime \<Rightarrow> gotime \<Rightarrow> bool" where
  "afterMinute t u \<longleftrightarrow> afterHour t u \<or>
     tYear t = tYear u \<and> tMonth t = tMonth u \<and> tDay t = tDay u \<and> tHour t = tHour u \<and> tMinute t < tMinute u"

lemmas after_defs = afterYear_def afterMonth_def afterDay_def afterHour_def afterMinute_def

definition nextSpec :: "(gotime \<Rightarrow> gotime \<Rightarrow> bool) \<Rightarrow> expression \<Rightarrow> gotime \<Rightarrow> nextResult option \<Rightarrow> bool" where
  "nextSpec P e t res \<longleftrightarrow> (\<exists>r ds. res = Some (Inr (r, e\<lparr>actualDaysOfMonthList := ds\<rparr>)) \<and>
     (matchesTime e r \<and> tLoc r = tLoc t \<and> P t r \<and> (\<forall>u. matchesTime e u \<and> P t u \<longrightarrow> \<not> fieldsLess u r) \<or>
      r = zeroTime \<and> (\<forall>u. matchesTime e u \<longrightarrow> \<not> P t u)))"

lemma actual_irrelevant [simp]:
  "calculateActualDaysOfMonth (e\<lparr>actualDaysOfMonthList := ds\<rparr>) y m = calculateActualDaysOfMonth e y m"
  "dayMatches (e\<lparr>actualDaysOfMonthList := ds\<rparr>) y m d = dayMatches e y m d"
  "matchesTime (e\<lparr>actualDaysOfMonthList := ds\<rparr>) u = matchesTime e u"
  "schedulable (e\<lparr>actualDaysOfMonthList := ds\<rparr>) = schedulable e"
  "wfExpression (e\<lparr>actualDaysOfMonthList := ds\<rparr>) = wfExpression e"
  by (simp_all add: calculateActualDaysOfMonth_def Let_def dayMatches_def matchesTime_def schedulable_def
      wfExpression_def)

lemma nextSpec_found:
  assumes "matchesTime e r" "tLoc r = tLoc t" "P t r" "\<And>u. matchesTime e u \<Longrightarrow> P t u \<Longrightarrow> \<not> fieldsLess u r"
  shows "nextSpec P e t (Some (Inr (r, e\<lparr>actualDaysOfMonthList := ds\<rparr>)))"
  using assms unfolding nextSpec_def by blast

lemma nextSpec_transfer:
  assumes "nextSpec Q (e\<lparr>actualDaysOfMonthList := ds\<rparr>) t' res" "tLoc t' = tLoc t"
    "\<And>u. matchesTime e u \<Longrightarrow> P t u \<longleftrightarrow> Q t' u"
  shows "nextSpec P e t res"
proof -
  from assms(1) obtain r es where "res = Some (Inr (r, e\<lparr>actualDaysOfMonthList := es\<rparr>))"
    "matchesTime e r \<and> tLoc r = tLoc t' \<and> Q t' r \<and> (\<forall>u. matchesTime e u \<and> Q t' u \<longrightarrow> \<not> fieldsLess u r) \<or>
      r = zeroTime \<and> (\<forall>u. matchesTime e u \<longrightarrow> \<not> Q t' u)"
    unfolding nextSpec_def by auto
  with assms(2,3) show ?thesis unfolding nextSpec_def by metis
qed

lemma schedulable_lists:
  assumes "schedulable e"
  shows "sorted (secondList e)" "sorted (minuteList e)" "sorted (hourList e)" "sorted (monthList e)"
    "sorted (yearList e)"
    "\<And>x. x \<in> set (secondList e) \<Longrightarrow> 0 \<le> x \<and> x < 60" "\<And>x. x \<in> set (minuteList e) \<Longrightarrow> 0 \<le> x \<and> x < 60"
    "\<And>x. x \<in> set (hourList e) \<Longrightarrow> 0 \<le> x \<and> x < 24" "\<And>x. x \<in> set (monthList e) \<Longrightarrow> 1 \<le> x \<and> x \<le> 12"
    "\<And>x. x \<in> set (yearList e) \<Longrightarrow> x \<le> 2099" "wfExpression e"
  using assms by (auto simp: schedulable_def wfExpression_def fieldList_def list_all_iff)

lemma hd_least: "sorted xs \<Longrightarrow> xs \<noteq> [] \<Longrightarrow> hd xs \<in> set xs \<and> (\<forall>x \<in> set xs. hd xs \<le> x)"
  by (cases xs) auto

lemma schedulable_hds:
  assumes "schedulable e"
  shows "hd (secondList e) \<in> set (secondList e)" "hd (minuteList e) \<in> set (minuteList e)"
    "hd (hourList e) \<in> set (hourList e)" "hd (monthList e) \<in> set (monthList e)"
    "\<And>x. x \<in> set (secondList e) \<Longrightarrow> hd (secondList e) \<le> x" "\<And>x. x \<in> set (minuteList e) \<Longrightarrow> hd (minuteList e) \<le> x"
    "\<And>x. x \<in> set (hourList e) \<Longrightarrow> hd (hourList e) \<le> x" "\<And>x. x \<in> set (monthList e) \<Longrightarrow> hd (monthList e) \<le> x"
  using assms hd_least schedulable_lists(1-4) [OF assms] by (auto simp: schedulable_def)

lemma first_hd: "xs \<noteq> [] \<Longrightarrow> first xs = Inr (hd xs)"
  by (cases xs) (simp_all add: first_def)

lemma bindE_Inr [simp]: "bindE (Inr x) f = f x"
  by (simp add: bindE_def)

lemma schedulable_firsts:
  "schedulable e \<Longrightarrow> first (secondList e) = Inr (hd (secondList e))"
  "schedulable e \<Longrightarrow> first (minuteList e) = Inr (hd (minuteList e))"
  "schedulable e \<Longrightarrow> first (hourList e) = Inr (hd (hourList e))"
  by (simp_all add: schedulable_def first_hd)

lemma dateFirst_eq:
  assumes "schedulable e" "1 \<le> m" "m \<le> 12" "1 \<le> d" "d \<le> daysIn y m"
  shows "dateFirst e y m d loc = Inr \<lparr>tYear = y, tMonth = m, tDay = d, tHour = hd (hourList e),
    tMinute = hd (minuteList e), tSecond = hd (secondList e), tNano = 0, tLoc = loc\<rparr>"
  using assms schedulable_lists(6-8) [OF assms(1)] schedulable_hds(1-3) [OF assms(1)]
  by (simp add: dateFirst_def schedulable_firsts Date_id)

lemma after_search:
  assumes "sorted a"
  shows "SearchInts a (x + 1) = length a \<longleftrightarrow> (\<forall>y \<in> set a. y \<le> x)"
    and "SearchInts a (x + 1) \<noteq> length a \<Longrightarrow> a ! SearchInts a (x + 1) \<in> set a \<and> x < a ! SearchInts a (x + 1) \<and>
      (\<forall>y \<in> set a. x < y \<longrightarrow> a ! SearchInts a (x + 1) \<le> y)"
proof -
  show "SearchInts a (x + 1) = length a \<longleftrightarrow> (\<forall>y \<in> set a. y \<le> x)"
    unfolding SearchInts_length_iff [OF assms] by auto
  assume "SearchInts a (x + 1) \<noteq> length a"
  from SearchInts_least [OF assms this]
  show "a ! SearchInts a (x + 1) \<in> set a \<and> x < a ! SearchInts a (x + 1) \<and>
      (\<forall>y \<in> set a. x < y \<longrightarrow> a ! SearchInts a (x + 1) \<le> y)" by auto
qed

lemma matchesTime_fields:
  assumes "schedulable e" "matchesTime e u"
  shows "tYear u \<in> set (yearList e)" "tMonth u \<in> set (monthList e)"
    "tDay u \<in> set (calculateActualDaysOfMonth e (tYear u) (tMonth u))" "tHour u \<in> set (hourList e)"
    "tMinute u \<in> set (minuteList e)" "tSecond u \<in> set (secondList e)"
  using assms calculateActualDaysOfMonth_days(1) [OF schedulable_lists(11) [OF assms(1)], of "tMonth u" "tYear u"]
  by (auto simp: matchesTime_def valid_time_def)

lemma matchesTime_intro:
  assumes "schedulable e" "y \<in> set (yearList e)" "m \<in> set (monthList e)"
    "d \<in> set (calculateActualDaysOfMonth e y m)" "h \<in> set (hourList e)" "mi \<in> set (minuteList e)"
    "s \<in> set (secondList e)"
  shows "matchesTime e (Date y m d h mi s 0 loc)"
    and "Date y m d h mi s 0 loc = \<lparr>tYear = y, tMonth = m, tDay = d, tHour = h, tMinute = mi,
      tSecond = s, tNano = 0, tLoc = loc\<rparr>"
proof -
  have m: "1 \<le> m" "m \<le> 12" using schedulable_lists(9) [OF assms(1)] assms(3) by auto
  have d: "1 \<le> d" "d \<le> daysIn y m" "dayMatches e y m d"
    using calculateActualDaysOfMonth_days(1) [OF schedulable_lists(11) [OF assms(1)] m] assms(4) by auto
  have r: "0 \<le> h" "h < 24" "0 \<le> mi" "mi < 60" "0 \<le> s" "s < 60"
    using assms schedulable_lists(6-8) [OF assms(1)] by auto
  show eq: "Date y m d h mi s 0 loc = \<lparr>tYear = y, tMonth = m, tDay = d, tHour = h, tMinute = mi,
      tSecond = s, tNano = 0, tLoc = loc\<rparr>"
    using m d r by (simp add: Date_id)
  show "matchesTime e (Date y m d h mi s 0 loc)"
    unfolding eq using assms m d r by (simp add: matchesTime_def valid_time_def)
qed

text \<open>The first time of a month that selects a day, and the absence of one otherwise.\<close>

lemma month_first:
  assumes "schedulable e" "y \<in> set (yearList e)" "m \<in> set (monthList e)"
    "calculateActualDaysOfMonth e y m = d # ds"
  shows "\<exists>r. dateFirst (e\<lparr>actualDaysOfMonthList := es\<rparr>) y m d loc = Inr r \<and> matchesTime e r \<and> tLoc r = loc \<and> tYear r = y \<and> tMonth r = m \<and>
    (\<forall>u. matchesTime e u \<and> tYear u = y \<and> tMonth u = m \<longrightarrow> \<not> fieldsLess u r)"
proof -
  let ?r = "Date y m d (hd (hourList e)) (hd (minuteList e)) (hd (secondList e)) 0 loc"
  note hds = schedulable_hds [OF assms(1)]
  have "d \<in> set (calculateActualDaysOfMonth e y m)" using assms(4) by simp
  note r = matchesTime_intro [OF assms(1-3) this hds(3,2,1), of loc]
  have "1 \<le> m" "m \<le> 12" using schedulable_lists(9) [OF assms(1)] assms(3) by auto
  from calculateActualDaysOfMonth_days(2) [OF schedulable_lists(11) [OF assms(1)] this, of y]
  have "\<forall>x \<in> set (calculateActualDaysOfMonth e y m). d \<le> x" unfolding assms(4) by simp
  then have "\<not> fieldsLess u ?r" if "matchesTime e u" "tYear u = y" "tMonth u = m" for u
    using matchesTime_fields [OF assms(1) that(1)] that(2,3) hds(5-7) unfolding r(2)
    by (fastforce simp: fieldsLess_def)
  moreover have "dateFirst (e\<lparr>actualDaysOfMonthList := es\<rparr>) y m d loc = Inr ?r"
    using schedulable_firsts [OF assms(1)] by (simp add: dateFirst_def)
  ultimately show ?thesis using r by (intro exI [of _ ?r]) simp
qed

lemma month_none:
  "schedulable e \<Longrightarrow> calculateActualDaysOfMonth e y m = [] \<Longrightarrow> matchesTime e u \<Longrightarrow> tYear u = y \<Longrightarrow> tMonth u \<noteq> m"
  using matchesTime_fields(3) [of e u] by fastforce

text \<open>One step of the recursion: to the first of a listed month \<open>(y, m)\<close>.\<close>

lemma month_step:
  assumes sch: "schedulable e" and "y \<in> set (yearList e)" "m \<in> set (monthList e)"
    and next': "\<And>u. matchesTime e u \<Longrightarrow> P t u \<longleftrightarrow> y < tYear u \<or> y = tYear u \<and> m \<le> tMonth u"
    and rec: "\<And>es t'. tYear t' = y \<Longrightarrow> tMonth t' = m \<Longrightarrow> tLoc t' = tLoc t \<Longrightarrow>
      nextSpec afterMonth (e\<lparr>actualDaysOfMonthList := es\<rparr>) t' (nextYearMonth False (e\<lparr>actualDaysOfMonthList := es\<rparr>) t')"
  defines "days \<equiv> calculateActualDaysOfMonth e y m"
  defines "e' \<equiv> e\<lparr>actualDaysOfMonthList := days\<rparr>"
  shows "nextSpec P e t (case days of
           [] \<Rightarrow> (case dateFirst e' y m 1 (tLoc t) of
                   Inl p \<Rightarrow> Some (Inl p) | Inr t' \<Rightarrow> nextYearMonth False e' t')
         | d0 # _ \<Rightarrow> Some (withExpr e' (dateFirst e' y m d0 (tLoc t))))"
proof (cases days)
  case Nil
  have m: "1 \<le> m" "m \<le> 12" using schedulable_lists(9) [OF sch] assms(3) by auto
  let ?t = "\<lparr>tYear = y, tMonth = m, tDay = 1, tHour = hd (hourList e),
    tMinute = hd (minuteList e), tSecond = hd (secondList e), tNano = 0, tLoc = tLoc t\<rparr>"
  have "dateFirst e' y m 1 (tLoc t) = Inr ?t"
    using dateFirst_eq [of e' m 1 y] sch m daysIn_bounds [of y m] by (simp add: e'_def)
  moreover have "nextSpec afterMonth e' ?t (nextYearMonth False e' ?t)"
    unfolding e'_def by (rule rec) simp_all
  then have "nextSpec P e t (nextYearMonth False e' ?t)"
    unfolding e'_def
  proof (rule nextSpec_transfer)
    fix u assume u: "matchesTime e u"
    from month_none [OF sch _ u, of y m] Nil have "tYear u = y \<Longrightarrow> tMonth u \<noteq> m" by (simp add: days_def)
    then show "P t u \<longleftrightarrow> afterMonth ?t u" unfolding next' [OF u] by (auto simp: after_defs)
  qed simp
  ultimately show ?thesis by (simp add: Nil)
next
  case (Cons d ds)
  from month_first [OF assms(1-3) Cons [unfolded days_def], of days "tLoc t"]
  obtain r where r: "dateFirst e' y m d (tLoc t) = Inr r" "matchesTime e r" "tLoc r = tLoc t"
    "tYear r = y" "tMonth r = m" "\<And>u. matchesTime e u \<Longrightarrow> tYear u = y \<Longrightarrow> tMonth u = m \<Longrightarrow> \<not> fieldsLess u r"
    unfolding e'_def by blast
  have "nextSpec P e t (Some (Inr (r, e')))" unfolding e'_def
  proof (rule nextSpec_found)
    show "P t r" using next' [OF r(2)] r by simp
    fix u assume "matchesTime e u" "P t u"
    with next' [of u] consider "y < tYear u" | "y = tYear u" "m < tMonth u" | "tYear u = y" "tMonth u = m"
      by linarith
    then show "\<not> fieldsLess u r"
      using r(4,5) r(6) [OF \<open>matchesTime e u\<close>] by cases (simp_all add: fieldsLess_def)
  qed (use r in simp_all)
  then show ?thesis by (simp add: Cons r(1) withExpr_def)
qed

text \<open>The two branches, given the recursive calls.\<close>

lemma nextYear_step:
  assumes sch: "schedulable e"
    and rec: "\<And>es t'. tYear t < tYear t' \<Longrightarrow> tYear t' \<in> set (yearList e) \<Longrightarrow> 1 \<le> tMonth t' \<Longrightarrow> tMonth t' \<le> 12 \<Longrightarrow>
      nextSpec afterMonth (e\<lparr>actualDaysOfMonthList := es\<rparr>) t' (nextYearMonth False (e\<lparr>actualDaysOfMonthList := es\<rparr>) t')"
  shows "nextSpec afterYear e t (nextYearMonth True e t)"
proof (cases "SearchInts (yearList e) (tYear t + 1) = length (yearList e)")
  case True
  with after_search(1) [OF schedulable_lists(5) [OF sch]] have "\<not> afterYear t u" if "matchesTime e u" for u
    using matchesTime_fields(1) [OF sch that] by (force simp: afterYear_def)
  then have "nextSpec afterYear e t (Some (Inr (zeroTime, e\<lparr>actualDaysOfMonthList := actualDaysOfMonthList e\<rparr>)))"
    unfolding nextSpec_def by blast
  with True show ?thesis by (subst nextYearMonth.simps) simp
next
  case False
  obtain y where y: "yearList e ! SearchInts (yearList e) (tYear t + 1) = y" by blast
  obtain m ms where m: "monthList e = m # ms" using sch by (cases "monthList e") (auto simp: schedulable_def)
  have y': "y \<in> set (yearList e)" "tYear t < y" "\<And>x. x \<in> set (yearList e) \<Longrightarrow> tYear t < x \<Longrightarrow> y \<le> x"
    using after_search(2) [OF schedulable_lists(5) [OF sch] False] y by auto
  have m': "m \<in> set (monthList e)" "1 \<le> m" "m \<le> 12" "\<And>x. x \<in> set (monthList e) \<Longrightarrow> m \<le> x"
    using schedulable_lists(9) [OF sch, of m] schedulable_hds(8) [OF sch] m by auto
  have eq: "afterYear t u \<longleftrightarrow> y < tYear u \<or> y = tYear u \<and> m \<le> tMonth u" if u: "matchesTime e u" for u
    using y'(2) y'(3) [OF matchesTime_fields(1) [OF sch u]] m'(4) [OF matchesTime_fields(2) [OF sch u]]
    by (auto simp: afterYear_def)
  show ?thesis
    using month_step [OF sch y'(1) m'(1), of afterYear t, OF eq] rec y'(1,2) m'(2,3) False
    by (subst nextYearMonth.simps) (simp add: m y Let_def)
qed

lemma nextMonth_step:
  assumes sch: "schedulable e" and yl: "tYear t \<in> set (yearList e)"
    and year: "nextSpec afterYear e t (nextYearMonth True e t)"
    and rec: "\<And>es t'. tYear t' = tYear t \<Longrightarrow> tMonth t < tMonth t' \<Longrightarrow> tMonth t' \<le> 12 \<Longrightarrow>
      nextSpec afterMonth (e\<lparr>actualDaysOfMonthList := es\<rparr>) t' (nextYearMonth False (e\<lparr>actualDaysOfMonthList := es\<rparr>) t')"
  shows "nextSpec afterMonth e t (nextYearMonth False e t)"
proof (cases "SearchInts (monthList e) (tMonth t + 1) = length (monthList e)")
  case True
  with after_search(1) [OF schedulable_lists(4) [OF sch]]
  have eq: "afterMonth t u \<longleftrightarrow> afterYear t u" if "matchesTime e u" for u
    using matchesTime_fields(2) [OF sch that] by (force simp: afterMonth_def)
  have "nextSpec afterMonth e t (nextYearMonth True e t)"
    by (rule nextSpec_transfer [where Q = afterYear and ds = "actualDaysOfMonthList e"]) (use year eq in simp_all)
  with True show ?thesis by (subst nextYearMonth.simps) simp
next
  case False
  obtain m where m: "monthList e ! SearchInts (monthList e) (tMonth t + 1) = m" by blast
  have m': "m \<in> set (monthList e)" "tMonth t < m" "\<And>x. x \<in> set (monthList e) \<Longrightarrow> tMonth t < x \<Longrightarrow> m \<le> x"
    using after_search(2) [OF schedulable_lists(4) [OF sch] False] m by auto
  have "m \<le> 12" using schedulable_lists(9) [OF sch m'(1)] by simp
  have eq: "afterMonth t u \<longleftrightarrow> tYear t < tYear u \<or> tYear t = tYear u \<and> m \<le> tMonth u" if u: "matchesTime e u" for u
    using m'(2) m'(3) [OF matchesTime_fields(2) [OF sch u]] by (auto simp: after_defs)
  show ?thesis
    using month_step [OF sch yl m'(1), of afterMonth t, OF eq] rec m'(2) \<open>m \<le> 12\<close> False
    by (subst nextYearMonth.simps) (simp add: m Let_def)
qed

lemma nextYearMonth_spec:
  fixes t :: gotime
  assumes "schedulable e"
  shows "if isYear then nextSpec afterYear e t (nextYearMonth isYear e t)
    else tYear t \<in> set (yearList e) \<and> tMonth t \<le> 12 \<longrightarrow> nextSpec afterMonth e t (nextYearMonth isYear e t)"
  using assms
proof (induction "nat (14 * (2100 - tYear t) + (if isYear then 0 else 13 - tMonth t))" arbitrary: t isYear e
    rule: less_induct)
  case less
  note sch = less.prems and IH = less.hyps
  have bound: "x \<le> 2099" if "x \<in> set (yearList e)" for x using schedulable_lists(10) [OF sch that] .
  show ?case
  proof (cases isYear)
    case True
    have "nextSpec afterYear e t (nextYearMonth True e t)"
    proof (rule nextYear_step [OF sch])
      fix es and t' :: gotime
      assume t': "tYear t < tYear t'" "tYear t' \<in> set (yearList e)" "1 \<le> tMonth t'" "tMonth t' \<le> 12"
      with bound [OF t'(2)] IH [of t' False "e\<lparr>actualDaysOfMonthList := es\<rparr>"] sch True
      show "nextSpec afterMonth (e\<lparr>actualDaysOfMonthList := es\<rparr>) t' (nextYearMonth False (e\<lparr>actualDaysOfMonthList := es\<rparr>) t')"
        by simp
    qed
    with True show ?thesis by simp
  next
    case False
    have "nextSpec afterMonth e t (nextYearMonth False e t)" if t: "tYear t \<in> set (yearList e)" "tMonth t \<le> 12"
    proof (rule nextMonth_step [OF sch t(1)])
      show "nextSpec afterYear e t (nextYearMonth True e t)"
        using IH [of t True e] sch False t bound [OF t(1)] by simp
      fix es and t' :: gotime
      assume t': "tYear t' = tYear t" "tMonth t < tMonth t'" "tMonth t' \<le> 12"
      with bound [OF t(1)] t IH [of t' False "e\<lparr>actualDaysOfMonthList := es\<rparr>"] sch False
      show "nextSpec afterMonth (e\<lparr>actualDaysOfMonthList := es\<rparr>) t' (nextYearMonth False (e\<lparr>actualDaysOfMonthList := es\<rparr>) t')"
        by simp
    qed
    with False show ?thesis by simp
  qed
qed

lemma nextYear_spec: "schedulable e \<Longrightarrow> nextSpec afterYear e t (nextYear e t)"
  using nextYearMonth_spec [of e True t] by (simp add: nextYear_def)

lemma nextMonth_spec:
  "schedulable e \<Longrightarrow> tYear t \<in> set (yearList e) \<Longrightarrow> tMonth t \<le> 12 \<Longrightarrow> nextSpec afterMonth e t (nextMonth e t)"
  using nextYearMonth_spec [of e False t] by (simp add: nextMonth_def)

text \<open>The same for the smaller fields, where the more significant ones are listed.\<close>

lemma nextSpec_outer:
  assumes "nextSpec Q e t res" "\<And>u. matchesTime e u \<Longrightarrow> P t u \<longleftrightarrow> Q t u"
  shows "nextSpec P e t res"
  by (rule nextSpec_transfer [where Q = Q and ds = "actualDaysOfMonthList e" and t' = t]) (use assms in simp_all)

lemma nextSpec_here:
  assumes "matchesTime e r" "tLoc r = tLoc t" "P t r" "\<And>u. matchesTime e u \<Longrightarrow> P t u \<Longrightarrow> \<not> fieldsLess u r"
  shows "nextSpec P e t (Some (Inr (r, e)))"
  using nextSpec_found [of e r t P "actualDaysOfMonthList e"] assms by simp

definition dayContext :: "expression \<Rightarrow> gotime \<Rightarrow> bool" where
  "dayContext e t \<longleftrightarrow> schedulable e \<and> tYear t \<in> set (yearList e) \<and> tMonth t \<in> set (monthList e) \<and>
     actualDaysOfMonthList e = calculateActualDaysOfMonth e (tYear t) (tMonth t)"

lemma dayContext_days:
  assumes "dayContext e t"
  shows "schedulable e" "sorted (actualDaysOfMonthList e)" "1 \<le> tMonth t" "tMonth t \<le> 12"
    "\<And>d h mi s. d \<in> set (actualDaysOfMonthList e) \<Longrightarrow> h \<in> set (hourList e) \<Longrightarrow> mi \<in> set (minuteList e) \<Longrightarrow>
       s \<in> set (secondList e) \<Longrightarrow> matchesTime e (Date (tYear t) (tMonth t) d h mi s 0 (tLoc t))"
    "\<And>d h mi s. d \<in> set (actualDaysOfMonthList e) \<Longrightarrow> h \<in> set (hourList e) \<Longrightarrow> mi \<in> set (minuteList e) \<Longrightarrow>
       s \<in> set (secondList e) \<Longrightarrow> Date (tYear t) (tMonth t) d h mi s 0 (tLoc t) =
         \<lparr>tYear = tYear t, tMonth = tMonth t, tDay = d, tHour = h, tMinute = mi, tSecond = s, tNano = 0, tLoc = tLoc t\<rparr>"
    "\<And>u. matchesTime e u \<Longrightarrow> tYear u = tYear t \<Longrightarrow> tMonth u = tMonth t \<Longrightarrow> tDay u \<in> set (actualDaysOfMonthList e)"
proof -
  have e: "schedulable e" "tYear t \<in> set (yearList e)" "tMonth t \<in> set (monthList e)"
    "actualDaysOfMonthList e = calculateActualDaysOfMonth e (tYear t) (tMonth t)"
    using assms by (simp_all add: dayContext_def)
  show "schedulable e" by (fact e)
  show m: "1 \<le> tMonth t" "tMonth t \<le> 12" using schedulable_lists(9) [OF e(1,3)] by auto
  show "sorted (actualDaysOfMonthList e)"
    unfolding e(4) using calculateActualDaysOfMonth_days(2) [OF schedulable_lists(11) [OF e(1)] m] .
  fix d h mi s
  assume "d \<in> set (actualDaysOfMonthList e)" "h \<in> set (hourList e)" "mi \<in> set (minuteList e)" "s \<in> set (secondList e)"
  note r = matchesTime_intro [OF e(1-3) this(1) [unfolded e(4)] this(2-4)]
  show "matchesTime e (Date (tYear t) (tMonth t) d h mi s 0 (tLoc t))" by (rule r(1))
  show "Date (tYear t) (tMonth t) d h mi s 0 (tLoc t) =
      \<lparr>tYear = tYear t, tMonth = tMonth t, tDay = d, tHour = h, tMinute = mi, tSecond = s, tNano = 0, tLoc = tLoc t\<rparr>"
    by (rule r(2))
next
  fix u assume "matchesTime e u" "tYear u = tYear t" "tMonth u = tMonth t"
  with matchesTime_fields(3) [of e u] assms show "tDay u \<in> set (actualDaysOfMonthList e)"
    by (simp add: dayContext_def)
qed

lemma nextDayOfMonth_spec:
  assumes ctx: "dayContext e t"
  shows "nextSpec afterDay e t (nextDayOfMonth e t)"
proof -
  note c = dayContext_days [OF ctx]
  note S = after_search [OF c(2), of "tDay t"]
  show ?thesis
  proof (cases "SearchInts (actualDaysOfMonthList e) (tDay t + 1) = length (actualDaysOfMonthList e)")
    case True
    have "nextSpec afterDay e t (nextMonth e t)"
    proof (rule nextSpec_outer [where Q = afterMonth])
      show "nextSpec afterMonth e t (nextMonth e t)"
        using nextMonth_spec [OF c(1)] ctx c(4) by (simp add: dayContext_def)
      fix u assume "matchesTime e u"
      with c(7) [of u] S(1) True show "afterDay t u \<longleftrightarrow> afterMonth t u" by (force simp: afterDay_def)
    qed
    with True show ?thesis by (simp add: nextDayOfMonth_def)
  next
    case False
    obtain d where d: "actualDaysOfMonthList e ! SearchInts (actualDaysOfMonthList e) (tDay t + 1) = d" by blast
    have d': "d \<in> set (actualDaysOfMonthList e)" "tDay t < d" "\<And>x. x \<in> set (actualDaysOfMonthList e) \<Longrightarrow> tDay t < x \<Longrightarrow> d \<le> x"
      using S(2) [OF False] d by auto
    note hds = schedulable_hds [OF c(1)]
    let ?r = "Date (tYear t) (tMonth t) d (hd (hourList e)) (hd (minuteList e)) (hd (secondList e)) 0 (tLoc t)"
    note r = c(5,6) [OF d'(1) hds(3,2,1)]
    have "nextSpec afterDay e t (Some (Inr (?r, e)))"
    proof (rule nextSpec_here [OF r(1)], unfold r(2))
      fix u assume u: "matchesTime e u" "afterDay t u"
      note uf = matchesTime_fields [OF c(1) u(1)]
      have day: "tYear u = tYear t \<and> tMonth u = tMonth t \<and> tDay t < tDay u \<longrightarrow> d \<le> tDay u"
        using c(7) [OF u(1)] d'(3) by blast
      show "\<not> fieldsLess u \<lparr>tYear = tYear t, tMonth = tMonth t, tDay = d, tHour = hd (hourList e),
          tMinute = hd (minuteList e), tSecond = hd (secondList e), tNano = 0, tLoc = tLoc t\<rparr>"
        using u(2) day hds(5) [OF uf(6)] hds(6) [OF uf(5)] hds(7) [OF uf(4)]
        by (auto simp: fieldsLess_def after_defs)
    qed (simp_all add: after_defs d'(2))
    with False show ?thesis
      by (simp add: nextDayOfMonth_def d Let_def dateFirst_def schedulable_firsts [OF c(1)] withExpr_def)
  qed
qed

lemma nextHour_spec:
  assumes ctx: "dayContext e t" and day: "tDay t \<in> set (actualDaysOfMonthList e)"
  shows "nextSpec afterHour e t (nextHour e t)"
proof -
  note c = dayContext_days [OF ctx]
  note S = after_search [OF schedulable_lists(3) [OF c(1)], of "tHour t"]
  show ?thesis
  proof (cases "SearchInts (hourList e) (tHour t + 1) = length (hourList e)")
    case True
    with S(1) have "\<not> tHour t < tHour u" if "matchesTime e u" for u
      using matchesTime_fields(4) [OF c(1) that] by force
    then have "nextSpec afterHour e t (nextDayOfMonth e t)"
      by (intro nextSpec_outer [OF nextDayOfMonth_spec [OF ctx]]) (auto simp: afterHour_def)
    with True show ?thesis by (simp add: nextHour_def)
  next
    case False
    obtain h where h: "hourList e ! SearchInts (hourList e) (tHour t + 1) = h" by blast
    have h': "h \<in> set (hourList e)" "tHour t < h" "\<And>x. x \<in> set (hourList e) \<Longrightarrow> tHour t < x \<Longrightarrow> h \<le> x"
      using S(2) [OF False] h by auto
    note hds = schedulable_hds [OF c(1)]
    let ?r = "Date (tYear t) (tMonth t) (tDay t) h (hd (minuteList e)) (hd (secondList e)) 0 (tLoc t)"
    note r = c(5,6) [OF day h'(1) hds(2,1)]
    have "nextSpec afterHour e t (Some (Inr (?r, e)))"
    proof (rule nextSpec_here [OF r(1)], unfold r(2))
      fix u assume u: "matchesTime e u" "afterHour t u"
      note uf = matchesTime_fields [OF c(1) u(1)]
      show "\<not> fieldsLess u \<lparr>tYear = tYear t, tMonth = tMonth t, tDay = tDay t, tHour = h,
          tMinute = hd (minuteList e), tSecond = hd (secondList e), tNano = 0, tLoc = tLoc t\<rparr>"
        using u(2) h'(3) [OF uf(4)] hds(5) [OF uf(6)] hds(6) [OF uf(5)]
        by (auto simp: fieldsLess_def after_defs)
    qed (simp_all add: after_defs h'(2))
    with False show ?thesis
      by (simp add: nextHour_def h Let_def schedulable_firsts [OF c(1)] withExpr_def)
  qed
qed

lemma nextMinute_spec:
  assumes ctx: "dayContext e t" and day: "tDay t \<in> set (actualDaysOfMonthList e)" "tHour t \<in> set (hourList e)"
  shows "nextSpec afterMinute e t (nextMinute e t)"
proof -
  note c = dayContext_days [OF ctx]
  note S = after_search [OF schedulable_lists(2) [OF c(1)], of "tMinute t"]
  show ?thesis
  proof (cases "SearchInts (minuteList e) (tMinute t + 1) = length (minuteList e)")
    case True
    with S(1) have "\<not> tMinute t < tMinute u" if "matchesTime e u" for u
      using matchesTime_fields(5) [OF c(1) that] by force
    then have "nextSpec afterMinute e t (nextHour e t)"
      by (intro nextSpec_outer [OF nextHour_spec [OF ctx day(1)]]) (auto simp: afterMinute_def)
    with True show ?thesis by (simp add: nextMinute_def)
  next
    case False
    obtain mi where mi: "minuteList e ! SearchInts (minuteList e) (tMinute t + 1) = mi" by blast
    have mi': "mi \<in> set (minuteList e)" "tMinute t < mi" "\<And>x. x \<in> set (minuteList e) \<Longrightarrow> tMinute t < x \<Longrightarrow> mi \<le> x"
      using S(2) [OF False] mi by auto
    note hds = schedulable_hds [OF c(1)]
    let ?r = "Date (tYear t) (tMonth t) (tDay t) (tHour t) mi (hd (secondList e)) 0 (tLoc t)"
    note r = c(5,6) [OF day mi'(1) hds(1)]
    have "nextSpec afterMinute e t (Some (Inr (?r, e)))"
    proof (rule nextSpec_here [OF r(1)], unfold r(2))
      fix u assume u: "matchesTime e u" "afterMinute t u"
      note uf = matchesTime_fields [OF c(1) u(1)]
      show "\<not> fieldsLess u \<lparr>tYear = tYear t, tMonth = tMonth t, tDay = tDay t, tHour = tHour t,
          tMinute = mi, tSecond = hd (secondList e), tNano = 0, tLoc = tLoc t\<rparr>"
        using u(2) mi'(3) [OF uf(5)] hds(5) [OF uf(6)]
        by (auto simp: fieldsLess_def after_defs)
    qed (simp_all add: after_defs mi'(2))
    with False show ?thesis
      by (simp add: nextMinute_def mi Let_def schedulable_firsts [OF c(1)] withExpr_def)
  qed
qed

lemma nextSecond_spec:
  assumes ctx: "dayContext e t" and day: "tDay t \<in> set (actualDaysOfMonthList e)" "tHour t \<in> set (hourList e)"
    "tMinute t \<in> set (minuteList e)"
  shows "nextSpec fieldsLess e t (nextSecond e t)"
proof -
  note c = dayContext_days [OF ctx]
  note S = after_search [OF schedulable_lists(1) [OF c(1)], of "tSecond t"]
  show ?thesis
  proof (cases "SearchInts (secondList e) (tSecond t + 1) = length (secondList e)")
    case True
    with S(1) have "\<not> tSecond t < tSecond u" if "matchesTime e u" for u
      using matchesTime_fields(6) [OF c(1) that] by force
    then have "nextSpec fieldsLess e t (nextMinute e t)"
      by (intro nextSpec_outer [OF nextMinute_spec [OF ctx day(1,2)]]) (auto simp: fieldsLess_def after_defs)
    with True show ?thesis by (simp add: nextSecond_def)
  next
    case False
    obtain s where s: "secondList e ! SearchInts (secondList e) (tSecond t + 1) = s" by blast
    have s': "s \<in> set (secondList e)" "tSecond t < s" "\<And>x. x \<in> set (secondList e) \<Longrightarrow> tSecond t < x \<Longrightarrow> s \<le> x"
      using S(2) [OF False] s by auto
    let ?r = "Date (tYear t) (tMonth t) (tDay t) (tHour t) (tMinute t) s 0 (tLoc t)"
    note r = c(5,6) [OF day s'(1)]
    have "nextSpec fieldsLess e t (Some (Inr (?r, e)))"
    proof (rule nextSpec_here [OF r(1)], unfold r(2))
      fix u assume u: "matchesTime e u" "fieldsLess t u"
      show "\<not> fieldsLess u \<lparr>tYear = tYear t, tMonth = tMonth t, tDay = tDay t, tHour = tHour t,
          tMinute = tMinute t, tSecond = s, tNano = 0, tLoc = tLoc t\<rparr>"
        using u(2) s'(3) [OF matchesTime_fields(6) [OF c(1) u(1)]] by (auto simp: fieldsLess_def)
    qed (simp_all add: fieldsLess_def s'(2))
    with False show ?thesis by (simp add: nextSecond_def s Let_def)
  qed
qed


text \<open>\<open>Next\<close> compares field by field and hands over at the first that is not listed.\<close>

lemma compare_step:
  assumes "sorted a" "\<forall>y \<in> set a. y < x \<Longrightarrow> nextSpec P e t A" "x \<notin> set a \<Longrightarrow> nextSpec P e t B"
    "x \<in> set a \<Longrightarrow> nextSpec P e t C"
  shows "nextSpec P e t (if SearchInts a x = length a then A else if x \<noteq> a ! SearchInts a x then B else C)"
  using assms(2-4) SearchInts_length_iff [OF assms(1), of x] SearchInts_least(2,3) [OF assms(1), of x]
    SearchInts_least(4) [OF assms(1), of x x] by (smt (verit))

lemma Next_clock:
  assumes ctx: "dayContext e t" and day: "tDay t \<in> set (actualDaysOfMonthList e)"
  shows "nextSpec fieldsLess e t
    (if SearchInts (hourList e) (tHour t) = length (hourList e) then nextDayOfMonth e t
     else if tHour t \<noteq> hourList e ! SearchInts (hourList e) (tHour t) then nextHour e t
     else if SearchInts (minuteList e) (tMinute t) = length (minuteList e) then nextHour e t
     else if tMinute t \<noteq> minuteList e ! SearchInts (minuteList e) (tMinute t) then nextMinute e t
     else if SearchInts (secondList e) (tSecond t) = length (secondList e) then nextMinute e t
     else nextSecond e t)"
proof -
  note c = dayContext_days [OF ctx]
  note sl = schedulable_lists [OF c(1)] and mf = matchesTime_fields [OF c(1)]
  note outer = nextSpec_outer [where P = fieldsLess]
  note defs = fieldsLess_def after_defs
  show ?thesis
  proof (intro compare_step sl(2,3))
    assume "\<forall>y \<in> set (hourList e). y < tHour t"
    with mf(4) show "nextSpec fieldsLess e t (nextDayOfMonth e t)"
      by (intro outer [OF nextDayOfMonth_spec [OF ctx]]) (fastforce simp: defs)
  next
    assume "tHour t \<notin> set (hourList e)"
    with mf(4) show "nextSpec fieldsLess e t (nextHour e t)"
      by (intro outer [OF nextHour_spec [OF ctx day]]) (fastforce simp: defs)
  next
    assume "\<forall>y \<in> set (minuteList e). y < tMinute t"
    with mf(5) show "nextSpec fieldsLess e t (nextHour e t)"
      by (intro outer [OF nextHour_spec [OF ctx day]]) (fastforce simp: defs)
  next
    assume "tHour t \<in> set (hourList e)" "tMinute t \<notin> set (minuteList e)"
    with mf(5) show "nextSpec fieldsLess e t (nextMinute e t)"
      by (intro outer [OF nextMinute_spec [OF ctx day]]) (fastforce simp: defs)+
  next
    assume h: "tHour t \<in> set (hourList e)" "tMinute t \<in> set (minuteList e)"
    show "nextSpec fieldsLess e t (if SearchInts (secondList e) (tSecond t) = length (secondList e)
      then nextMinute e t else nextSecond e t)"
    proof (cases "SearchInts (secondList e) (tSecond t) = length (secondList e)")
      case True
      with SearchInts_length_iff [OF sl(1)] have "\<forall>y \<in> set (secondList e). y < tSecond t" by simp
      with mf(6) have "nextSpec fieldsLess e t (nextMinute e t)"
        by (intro outer [OF nextMinute_spec [OF ctx day h(1)]]) (fastforce simp: defs)
      with True show ?thesis by simp
    next
      case False
      with nextSecond_spec [OF ctx day h] show ?thesis by simp
    qed
  qed
qed

lemma Next_day:
  assumes ctx: "dayContext e t"
  shows "nextSpec fieldsLess e t
    (if actualDaysOfMonthList e = [] then nextMonth e t
     else if SearchInts (actualDaysOfMonthList e) (tDay t) = length (actualDaysOfMonthList e) then nextMonth e t
     else if tDay t \<noteq> actualDaysOfMonthList e ! SearchInts (actualDaysOfMonthList e) (tDay t) then nextDayOfMonth e t
     else if SearchInts (hourList e) (tHour t) = length (hourList e) then nextDayOfMonth e t
     else if tHour t \<noteq> hourList e ! SearchInts (hourList e) (tHour t) then nextHour e t
     else if SearchInts (minuteList e) (tMinute t) = length (minuteList e) then nextHour e t
     else if tMinute t \<noteq> minuteList e ! SearchInts (minuteList e) (tMinute t) then nextMinute e t
     else if SearchInts (secondList e) (tSecond t) = length (secondList e) then nextMinute e t
     else nextSecond e t)"
proof -
  note c = dayContext_days [OF ctx]
  have month: "nextSpec afterMonth e t (nextMonth e t)"
    using nextMonth_spec [OF c(1)] ctx c(4) by (simp add: dayContext_def)
  have day: "tYear u = tYear t \<and> tMonth u = tMonth t \<longrightarrow> tDay u \<in> set (actualDaysOfMonthList e)"
    if "matchesTime e u" for u
    using c(7) [OF that] by blast
  note defs = fieldsLess_def after_defs and outer = nextSpec_outer [where P = fieldsLess]
  show ?thesis
  proof (cases "actualDaysOfMonthList e = []")
    case True
    with day have "nextSpec fieldsLess e t (nextMonth e t)"
      by (intro outer [OF month]) (fastforce simp: defs)
    with True show ?thesis by simp
  next
    case False
    show ?thesis unfolding if_not_P [OF False]
    proof (rule compare_step [OF c(2)])
      assume "\<forall>y \<in> set (actualDaysOfMonthList e). y < tDay t"
      with day show "nextSpec fieldsLess e t (nextMonth e t)"
        by (intro outer [OF month]) (fastforce simp: defs)
    next
      assume "tDay t \<notin> set (actualDaysOfMonthList e)"
      with day show "nextSpec fieldsLess e t (nextDayOfMonth e t)"
        by (intro outer [OF nextDayOfMonth_spec [OF ctx]]) (fastforce simp: defs)
    qed (rule Next_clock [OF ctx])
  qed
qed

lemma Next_spec:
  assumes sch: "schedulable e" and t: "valid_time t" "\<not> IsZero t"
  shows "nextSpec fieldsLess e t (Next e t)"
proof -
  note sl = schedulable_lists [OF sch] and mf = matchesTime_fields [OF sch]
  have tm: "1 \<le> tMonth t" "tMonth t \<le> 12" using t by (simp_all add: valid_time_def)
  define e' where "e' = e\<lparr>actualDaysOfMonthList := calculateActualDaysOfMonth e (tYear t) (tMonth t)\<rparr>"
  have to: "nextSpec fieldsLess e t res" if "nextSpec fieldsLess e' t res" for res
    using that unfolding e'_def by (rule nextSpec_transfer) simp_all
  note defs = fieldsLess_def after_defs and outer = nextSpec_outer [where P = fieldsLess]
  show ?thesis
    unfolding Next_def Let_def if_not_P [OF t(2)] e'_def [symmetric]
  proof (intro compare_step sl(4,5))
    assume "\<forall>y \<in> set (yearList e). y < tYear t"
    then have "\<not> fieldsLess t u" if "matchesTime e u" for u using mf(1) [OF that] by (auto simp: defs)
    then have "nextSpec fieldsLess e t (Some (Inr (zeroTime, e\<lparr>actualDaysOfMonthList := actualDaysOfMonthList e\<rparr>)))"
      unfolding nextSpec_def by blast
    then show "nextSpec fieldsLess e t (Some (Inr (zeroTime, e)))" by simp
  next
    assume "tYear t \<notin> set (yearList e)"
    with mf(1) show "nextSpec fieldsLess e t (nextYear e t)"
      by (intro outer [OF nextYear_spec [OF sch]]) (fastforce simp: defs)
  next
    assume "\<forall>y \<in> set (monthList e). y < tMonth t"
    with mf(2) show "nextSpec fieldsLess e t (nextYear e t)"
      by (intro outer [OF nextYear_spec [OF sch]]) (fastforce simp: defs)
  next
    assume "tYear t \<in> set (yearList e)" "tMonth t \<notin> set (monthList e)"
    with mf(2) show "nextSpec fieldsLess e t (nextMonth e t)"
      by (intro outer [OF nextMonth_spec [OF sch _ tm(2)]]) (fastforce simp: defs)+
  next
    assume "tYear t \<in> set (yearList e)" "tMonth t \<in> set (monthList e)"
    then have "dayContext e' t" using sch by (simp add: dayContext_def e'_def)
    from to [OF Next_day [OF this]] show "nextSpec fieldsLess e t
    (if actualDaysOfMonthList e' = [] then nextMonth e' t
     else if SearchInts (actualDaysOfMonthList e') (tDay t) = length (actualDaysOfMonthList e') then nextMonth e' t
     else if tDay t \<noteq> actualDaysOfMonthList e' ! SearchInts (actualDaysOfMonthList e') (tDay t) then nextDayOfMonth e' t
     else if SearchInts (hourList e') (tHour t) = length (hourList e') then nextDayOfMonth e' t
     else if tHour t \<noteq> hourList e' ! SearchInts (hourList e') (tHour t) then nextHour e' t
     else if SearchInts (minuteList e') (tMinute t) = length (minuteList e') then nextHour e' t
     else if tMinute t \<noteq> minuteList e' ! SearchInts (minuteList e') (tMinute t) then nextMinute e' t
     else if SearchInts (secondList e') (tSecond t) = length (secondList e') then nextMinute e' t
     else nextSecond e' t)" .
  qed
qed

text \<open>In terms of instants: the returned time is the least match strictly after the argument.\<close>

lemma Next_least:
  assumes sch: "schedulable e" and t: "valid_time t" "\<not> IsZero t"
  shows "\<exists>r ds. Next e t = Some (Inr (r, e\<lparr>actualDaysOfMonthList := ds\<rparr>)) \<and>
    (matchesTime e r \<and> tLoc r = tLoc t \<and> After r t \<and>
       (\<forall>u. matchesTime e u \<and> tLoc u = tLoc t \<and> After u t \<longrightarrow> \<not> Before u r) \<or>
     r = zeroTime \<and> (\<forall>u. matchesTime e u \<and> tLoc u = tLoc t \<longrightarrow> \<not> After u t))"
proof -
  have v: "valid_time u" "tNano u = 0" if "matchesTime e u" for u using that by (simp_all add: matchesTime_def)
  have after: "After u t \<longleftrightarrow> fieldsLess t u" if "matchesTime e u" "tLoc u = tLoc t" for u
    using instant_less_fields [of t u] fieldsLess_of_instant [of t u] v [OF that(1)] t that
    by (auto simp: After_def)
  from Next_spec [OF assms] obtain r ds where N: "Next e t = Some (Inr (r, e\<lparr>actualDaysOfMonthList := ds\<rparr>))" and
    r: "matchesTime e r \<and> tLoc r = tLoc t \<and> fieldsLess t r \<and> (\<forall>u. matchesTime e u \<and> fieldsLess t u \<longrightarrow> \<not> fieldsLess u r) \<or>
      r = zeroTime \<and> (\<forall>u. matchesTime e u \<longrightarrow> \<not> fieldsLess t u)"
    unfolding nextSpec_def by blast
  from r show ?thesis
  proof
    assume r: "matchesTime e r \<and> tLoc r = tLoc t \<and> fieldsLess t r \<and> (\<forall>u. matchesTime e u \<and> fieldsLess t u \<longrightarrow> \<not> fieldsLess u r)"
    have "\<not> Before u r" if "matchesTime e u" "tLoc u = tLoc t" "After u t" for u
      using fieldsLess_of_instant [of u r] v that r after [OF that(1,2)] by (auto simp: Before_def)
    with N r after [of r] show ?thesis by blast
  qed (use N after in blast)
qed

section \<open>Properties\<close>

text \<open>C4: the parser always comes back, with an error value or with an expression whose lists
  are sorted, without duplicates and within the range of their field.\<close>

theorem Parse_wellformed:
  "Parse s \<noteq> Inl EDiverges \<and> (\<forall>e. Parse s = Inr e \<longrightarrow> wfExpression e)"
  using Parse_keepsWf [of s] by (auto simp: keepsWf_def)

text \<open>Noon of the 29th of February.\<close>

definition leapDayNoon :: expression where
  "leapDayNoon = emptyExpression\<lparr>secondList := [0], minuteList := [0], hourList := [12], daysOfMonth := {29},
     daysOfMonthRestricted := True, daysOfWeek := {0, 1, 2, 3, 4, 5, 6}, monthList := [2], yearList := [1970..2099]\<rparr>"

lemma Parse_leapDayNoon: "Parse ''0 12 29 2 *'' = Inr leapDayNoon"
  by code_simp

theorem Parse_wellformed_witness: "Parse ''0 12 29 2 *'' = Inr leapDayNoon \<and> wfExpression leapDayNoon"
  using Parse_wellformed [of "''0 12 29 2 *''"] Parse_leapDayNoon by blast

text \<open>C1: for a parsed expression none of whose lists is empty (and without the month 0), \<open>Next\<close>
  returns: the least matching time strictly after \<open>t\<close> in the location of \<open>t\<close>, or the zero
  time when no time up to the year 2099 matches any more.\<close>

theorem Next_correct:
  assumes "schedulable e" "valid_time t" "\<not> IsZero t"
  shows "\<exists>r ds. Next e t = Some (Inr (r, e\<lparr>actualDaysOfMonthList := ds\<rparr>)) \<and>
    (matchesTime e r \<and> tLoc r = tLoc t \<and> After r t \<and>
       (\<forall>u. matchesTime e u \<and> tLoc u = tLoc t \<and> After u t \<longrightarrow> \<not> Before u r) \<or>
     r = zeroTime \<and> (\<forall>u. matchesTime e u \<and> tLoc u = tLoc t \<longrightarrow> \<not> After u t))"
  using assms by (rule Next_least)

lemma schedulable_leapDayNoon: "schedulable leapDayNoon"
  using fieldList_upto [of 1970 2099]
  by (simp add: schedulable_def wfExpression_def leapDayNoon_def emptyExpression_def fieldList_def del: upto_rec_numeral)

theorem Next_correct_witness:
  "schedulable leapDayNoon \<and> valid_time (Date 2023 3 1 0 0 0 0 0) \<and> \<not> IsZero (Date 2023 3 1 0 0 0 0 0) \<and>
   (\<exists>ds. Next leapDayNoon (Date 2023 3 1 0 0 0 0 0) =
      Some (Inr (Date 2024 2 29 12 0 0 0 0, leapDayNoon\<lparr>actualDaysOfMonthList := ds\<rparr>)))"
proof -
  let ?t = "Date 2023 3 1 0 0 0 0 0"
  have t: "valid_time ?t" "\<not> IsZero ?t" by code_simp+
  have "(case Next leapDayNoon ?t of Some (Inr (r, _)) \<Rightarrow> r = Date 2024 2 29 12 0 0 0 0 | _ \<Rightarrow> False)" by code_simp
  with Next_correct [OF schedulable_leapDayNoon t] schedulable_leapDayNoon t show ?thesis by auto
qed


lemma nearestWorkday_ok:
  assumes "1 \<le> d" "d \<le> daysIn y m"
  shows "1 \<le> nearestWorkday y m d \<and> nearestWorkday y m d \<le> daysIn y m \<and>
    dayOfWeek y m (nearestWorkday y m d) \<in> {1..5} \<and>
    (\<forall>x. 1 \<le> x \<and> x \<le> daysIn y m \<and> dayOfWeek y m x \<in> {1..5} \<longrightarrow> \<bar>nearestWorkday y m d - d\<bar> \<le> \<bar>x - d\<bar>)"
proof -
  let ?w = "dayOfWeek y m" and ?n = "nearestWorkday y m d"
  have sh: "?w (d + k) = (?w d + k) mod 7" for k by (rule dayOfWeek_shift)
  have r: "0 \<le> ?w d" "?w d < 7" using dayOfWeek_range by auto
  have L: "28 \<le> daysIn y m" by (rule daysIn_bounds)
  have near: "\<forall>x. 1 \<le> x \<and> x \<le> daysIn y m \<and> ?w x \<in> {1..5} \<longrightarrow> \<bar>k\<bar> \<le> \<bar>x - d\<bar>"
    if "\<And>j. \<bar>j\<bar> < \<bar>k\<bar> \<Longrightarrow> 1 \<le> d + j \<Longrightarrow> d + j \<le> daysIn y m \<Longrightarrow> ?w (d + j) \<notin> {1..5}" for k
    using that [of "_ - d"] by force
  consider "?w d = 6" "d > 1" | "?w d = 6" "d = 1" | "?w d = 0" "d < daysIn y m" | "?w d = 0" "d = daysIn y m"
    | "1 \<le> ?w d" "?w d \<le> 5" using r assms by fastforce
  then show ?thesis
  proof cases
    case 1
    then have n: "?n = d + -1" by (simp add: nearestWorkday_def)
    with 1 assms near [of "-1"] sh [of "-1"] show ?thesis by simp
  next
    case 2
    then have n: "?n = d + 2" by (simp add: nearestWorkday_def)
    have "?w (d + j) \<notin> {1..5}" if "\<bar>j\<bar> < 2" "1 \<le> d + j" for j
    proof -
      have "j = 0 \<or> j = 1" using that 2 by arith
      then show ?thesis using sh [of j] 2 by auto
    qed
    with 2 assms L near [of 2] sh [of 2] show ?thesis unfolding n by simp
  next
    case 3
    then have n: "?n = d + 1" by (simp add: nearestWorkday_def)
    with 3 assms near [of 1] sh [of 1] show ?thesis by simp
  next
    case 4
    then have n: "?n = d + -2" by (simp add: nearestWorkday_def)
    have "?w (d + j) \<notin> {1..5}" if "\<bar>j\<bar> < \<bar>-2\<bar>" "d + j \<le> daysIn y m" for j
    proof -
      have "j = 0 \<or> j = -1" using that 4 by arith
      then show ?thesis using sh [of j] 4 by auto
    qed
    with 4 assms L near [of "-2"] sh [of "-2"] show ?thesis unfolding n by simp
  next
    case 5
    then have "?n = d" by (simp add: nearestWorkday_def)
    with 5 assms show ?thesis by simp
  qed
qed

text \<open>\<open>15W\<close> and \<open>LW\<close>: the working day that \<open>workdayOfMonth\<close> picks lies in the
  month, is a Monday to Friday, and no other such day of the month is closer to the given day.\<close>

theorem workdayOfMonth_nearest_weekday:
  assumes "1 \<le> m" "m \<le> 12" "1 \<le> d" "d \<le> daysIn y m"
    and "wd = workdayOfMonth (Date y m d 0 0 0 0 0) (AddDate (Date y m 1 0 0 0 0 0) 0 1 (-1))"
  shows "1 \<le> wd \<and> wd \<le> daysIn y m \<and> dayOfWeek y m wd \<in> {1..5} \<and>
    (\<forall>x. 1 \<le> x \<and> x \<le> daysIn y m \<and> dayOfWeek y m x \<in> {1..5} \<longrightarrow> \<bar>wd - d\<bar> \<le> \<bar>x - d\<bar>)"
proof -
  have "wd = nearestWorkday y m d"
    unfolding assms(5) using assms AddDate_next_month [OF assms(1,2), of "-1" y] by (simp add: workdayOfMonth_nearest)
  with nearestWorkday_ok [OF assms(3,4)] show ?thesis by simp
qed

text \<open>Saturday the first of June 2024: the Monday after it.\<close>

theorem workdayOfMonth_nearest_weekday_witness:
  "workdayOfMonth (Date 2024 6 1 0 0 0 0 0) (AddDate (Date 2024 6 1 0 0 0 0 0) 0 1 (-1)) = 3 \<and>
   3 \<le> daysIn 2024 6 \<and> dayOfWeek 2024 6 3 \<in> {1..5}"
proof -
  have w: "3 = workdayOfMonth (Date 2024 6 1 0 0 0 0 0) (AddDate (Date 2024 6 1 0 0 0 0 0) 0 1 (-1))"
    by code_simp
  have "(1::int) \<le> daysIn 2024 6" by code_simp
  from workdayOfMonth_nearest_weekday [OF _ _ _ this w] w show ?thesis by simp
qed

text \<open>C5: the days of a month that the scheduler uses are exactly the days the two day fields
  select, in ascending order: all days when neither field is restricted, otherwise the days that
  match one of the restricted fields.\<close>

theorem calculateActualDaysOfMonth_correct:
  assumes "wfExpression e" "1 \<le> m" "m \<le> 12"
  shows "set (calculateActualDaysOfMonth e y m) = {d. 1 \<le> d \<and> d \<le> daysIn y m \<and> dayMatches e y m d} \<and>
    sorted (calculateActualDaysOfMonth e y m)"
  using calculateActualDaysOfMonth_days [OF assms] by blast

theorem calculateActualDaysOfMonth_correct_witness:
  "set (calculateActualDaysOfMonth leapDayNoon 2024 2) = {29} \<and>
   {d. 1 \<le> d \<and> d \<le> daysIn 2024 2 \<and> dayMatches leapDayNoon 2024 2 d} = {29}"
proof -
  have "calculateActualDaysOfMonth leapDayNoon 2024 2 = [29]" by code_simp
  moreover have "wfExpression leapDayNoon" using schedulable_leapDayNoon by (simp add: schedulable_def)
  ultimately show ?thesis
    using calculateActualDaysOfMonth_correct [of leapDayNoon 2 2024] by simp
qed

text \<open>C6: the interval to the next run is positive and, unless it saturates, ends at the least
  matching time; so a worker that sleeps for it never starts a job early or twice.\<close>

theorem NextInterval_positive:
  assumes "schedulable e" "valid_time t" "\<not> IsZero t" "matchesTime e u" "tLoc u = tLoc t" "After u t"
  shows "\<exists>d ds. NextInterval e t = Some (Inr (d, e\<lparr>actualDaysOfMonthList := ds\<rparr>)) \<and> 0 < d \<and>
    (d = maxInt64 \<or> (\<exists>r. matchesTime e r \<and> instant (Add t d) = instant r \<and> instant r \<le> instant u))"
proof -
  from Next_least [OF assms(1-3)] assms(4-6) obtain r ds where
    N: "Next e t = Some (Inr (r, e\<lparr>actualDaysOfMonthList := ds\<rparr>))" and
    r: "matchesTime e r" "After r t" "\<not> Before u r" by metis
  have i: "NextInterval e t = Some (Inr (Sub r t, e\<lparr>actualDaysOfMonthList := ds\<rparr>))"
    by (simp add: NextInterval_def N)
  have p: "0 < instant r - instant t" using r(2) by (simp add: After_def)
  have "Sub r t = maxInt64 \<or> Sub r t = instant r - instant t"
    using p by (auto simp: Sub_def clamp64_def minInt64_def)
  moreover have "0 < Sub r t" using p by (auto simp: Sub_def clamp64_def minInt64_def maxInt64_def)
  ultimately show ?thesis using i r assms(2) instant_Add [of t "Sub r t"]
    by (fastforce simp: Before_def)
qed

theorem NextInterval_positive_witness:
  "\<exists>d ds. NextInterval leapDayNoon (Date 2024 2 29 11 0 0 0 0) = Some (Inr (d, leapDayNoon\<lparr>actualDaysOfMonthList := ds\<rparr>)) \<and> 0 < d \<and>
    (d = maxInt64 \<or> (\<exists>r. matchesTime leapDayNoon r \<and> instant (Add (Date 2024 2 29 11 0 0 0 0) d) = instant r \<and>
      instant r \<le> instant (Date 2024 2 29 12 0 0 0 0)))"
proof (rule NextInterval_positive [OF schedulable_leapDayNoon])
  show "valid_time (Date 2024 2 29 11 0 0 0 0)" "\<not> IsZero (Date 2024 2 29 11 0 0 0 0)"
    "tLoc (Date 2024 2 29 12 0 0 0 0) = tLoc (Date 2024 2 29 11 0 0 0 0)"
    "After (Date 2024 2 29 12 0 0 0 0) (Date 2024 2 29 11 0 0 0 0)" by code_simp+
  show "matchesTime leapDayNoon (Date 2024 2 29 12 0 0 0 0)"
    by code_simp
qed

text \<open>A month written with a leading zero is accepted and read as month 0, so
  \<open>0 0 1 01 *\<close> runs on the first of December of the year before each listed year.\<close>

theorem Parse_month_leading_zero:
  "(case Parse ''0 0 1 01 *'' of
      Inr e \<Rightarrow> monthList e = [0] \<and>
        (case Next e (Date 2023 3 1 0 0 0 0 0) of Some (Inr (r, _)) \<Rightarrow> r = Date 2023 12 1 0 0 0 0 0 | _ \<Rightarrow> False)
    | _ \<Rightarrow> False) \<and>
   (case Parse ''0 0 1 1 *'' of
      Inr e \<Rightarrow> monthList e = [1] \<and>
        (case Next e (Date 2023 3 1 0 0 0 0 0) of Some (Inr (r, _)) \<Rightarrow> r = Date 2024 1 1 0 0 0 0 0 | _ \<Rightarrow> False)
    | _ \<Rightarrow> False)"
  by code_simp

text \<open>A descending range is accepted as an empty list of hours, and \<open>Next\<close> then panics with
  an index out of range.\<close>

theorem Next_panics_on_descending_range:
  "case Parse ''0 20-5 * * *'' of
     Inr e \<Rightarrow> hourList e = [] \<and> Next e (Date 2024 3 1 0 0 0 0 0) = Some (Inl IndexOutOfRange)
   | _ \<Rightarrow> False"
  by code_simp

section \<open>An expression on which Next does not return\<close>

text \<open>\<open>0 0 * 01 5-7\<close>: month 0 and no day.\<close>

definition noDayMonthZero :: expression where
  "noDayMonthZero = emptyExpression\<lparr>secondList := [0], minuteList := [0], hourList := [0], daysOfMonth := set [1..31],
     daysOfWeekRestricted := True, monthList := [0], yearList := [1970..2099]\<rparr>"

lemma noDayMonthZero_lists:
  "yearList noDayMonthZero = [1970..2099]" "monthList noDayMonthZero = [0]"
  "calculateActualDaysOfMonth noDayMonthZero 2025 0 = []"
  "noDayMonthZero\<lparr>actualDaysOfMonthList := []\<rparr> = noDayMonthZero"
  "dateFirst noDayMonthZero 2025 0 1 0 = Inr (Date 2024 12 1 0 0 0 0 0)"
  by code_simp+

lemma noDayMonthZero_search:
  "SearchInts [1970..2099] 2025 = 55" "length [1970..2099] = 130" "[1970..2099] ! 55 = 2025"
  by code_simp+

lemma month_zero_search: "0 \<le> x \<Longrightarrow> SearchInts [0] x = (if x = 0 then 0 else 1)"
  using SearchInts_length_iff [of "[0]" x] SearchInts_spec(1) [of "[0]" x] by auto

lemma nextYearMonth_loops:
  assumes "nextYearMonth isYear e t = Some r"
  shows "\<not> (e = noDayMonthZero \<and> tYear t = 2024 \<and> 1 \<le> tMonth t \<and> tLoc t = 0)"
proof (rule nextYearMonth.raw_induct [OF _ assms], goal_cases)
  case (1 f isYear e t r)
  note IH = 1(1) and body = 1(2)
  show "\<not> (e = noDayMonthZero \<and> tYear t = 2024 \<and> 1 \<le> tMonth t \<and> tLoc t = 0)"
  proof
    assume a: "e = noDayMonthZero \<and> tYear t = 2024 \<and> 1 \<le> tMonth t \<and> tLoc t = 0"
    have d: "tYear (Date 2024 12 1 0 0 0 0 0) = 2024" "tMonth (Date 2024 12 1 0 0 0 0 0) = 12"
      "tLoc (Date 2024 12 1 0 0 0 0 0) = 0" by code_simp+
    show False
    proof (cases isYear)
      case True
      with body a have "f False noDayMonthZero (Date 2024 12 1 0 0 0 0 0) = Some r"
        by (simp add: noDayMonthZero_lists noDayMonthZero_search Let_def del: upto_rec_numeral)
      from IH [OF this] d show False by simp
    next
      case False
      with body a have "f True noDayMonthZero t = Some r"
        by (simp add: noDayMonthZero_lists month_zero_search Let_def)
      from IH [OF this] a show False by simp
    qed
  qed
qed

lemma instant_zeroTime: "instant zeroTime = 0"
  by code_simp

text \<open>The expression \<open>0 0 * 01 5-7\<close> is accepted, but \<open>Next\<close> recurses without end on it
  from every time of the year 2024.\<close>

theorem Next_diverges:
  "Parse ''0 0 * 01 5-7'' = Inr noDayMonthZero \<and>
   (\<forall>t. valid_time t \<and> tYear t = 2024 \<and> tLoc t = 0 \<longrightarrow> Next noDayMonthZero t = None)"
proof -
  have "Next noDayMonthZero t = None" if t: "valid_time t" "tYear t = 2024" "tLoc t = 0" for t
  proof -
    have m: "1 \<le> tMonth t" using t by (simp add: valid_time_def)
    have "\<not> IsZero t"
      using instant_less_fields [of zeroTime t] t instant_zeroTime
      by (simp add: IsZero_def fieldsLess_def zeroTime_def valid_time_def daysIn_def)
    moreover have "SearchInts [1970..2099] 2024 = 54" "[1970..2099] ! 54 = 2024" by code_simp+
    ultimately have "Next noDayMonthZero t = nextYear noDayMonthZero t"
      using t m by (simp add: Next_def noDayMonthZero_lists noDayMonthZero_search(2) month_zero_search del: upto_rec_numeral)
    moreover have "nextYear noDayMonthZero t = None"
      using nextYearMonth_loops [of True noDayMonthZero t] t m unfolding nextYear_def by (cases "nextYearMonth True noDayMonthZero t") auto
    ultimately show ?thesis by simp
  qed
  moreover have "Parse ''0 0 * 01 5-7'' = Inr noDayMonthZero" by code_simp
  ultimately show ?thesis by blast
qed

theorem Next_diverges_witness:
  "valid_time (Date 2024 6 1 0 0 0 0 0) \<and> Next noDayMonthZero (Date 2024 6 1 0 0 0 0 0) = None"
proof -
  have "valid_time (Date 2024 6 1 0 0 0 0 0)" "tYear (Date 2024 6 1 0 0 0 0 0) = 2024"
    "tLoc (Date 2024 6 1 0 0 0 0 0) = 0" by code_simp+
  with Next_diverges show ?thesis by blast
qed

end
