(* ===== verification/Go_Duration.thy ===== *)
theory Go_Duration
  imports Go_Base
begin

text \<open>
  \<open>time.Duration\<close>, \<open>time.ParseDuration\<close> and \<open>Duration.String\<close>, which the task queue worker uses
  to store a retry interval as text and to read it back.  A duration is an integer number of
  nanoseconds; 64-bit overflow is the error value the library returns.  The fraction of a unit is
  computed exactly, where the library multiplies floating-point numbers: the two agree whenever the
  fraction is a whole number of nanoseconds, as in every text that \<open>String\<close> produces.
\<close>

definition Millisecond :: int where "Millisecond = 1000000"
definition Second :: int where "Second = 1000000000"
definition Minute :: int where "Minute = 60 * Second"

section \<open>Reading a duration\<close>

datatype durationError = EInvalidDuration | EMissingUnit | EUnknownUnit

definition two63 :: int where "two63 = 9223372036854775808"

fun leadingInt :: "int \<Rightarrow> string \<Rightarrow> (int \<times> string) option" where
  "leadingInt x [] = Some (x, [])"
| "leadingInt x (c # cs) =
     (if \<not> is_digit c then Some (x, c # cs)
      else if x > two63 div 10 then None
      else let y = x * 10 + digit_val c in if y > two63 then None else leadingInt y cs)"

text \<open>The numerator, the scale (a power of ten) and the rest; digits beyond the range are skipped.\<close>

fun leadingFraction :: "int \<Rightarrow> int \<Rightarrow> bool \<Rightarrow> string \<Rightarrow> int \<times> int \<times> string" where
  "leadingFraction x scale ovf [] = (x, scale, [])"
| "leadingFraction x scale ovf (c # cs) =
     (if \<not> is_digit c then (x, scale, c # cs)
      else if ovf then leadingFraction x scale True cs
      else if x > (two63 - 1) div 10 then leadingFraction x scale True cs
      else let y = x * 10 + digit_val c
           in if y > two63 then leadingFraction x scale True cs
              else leadingFraction y (scale * 10) False cs)"

text \<open>The two encodings of the micro sign are the byte pairs C2 B5 and CE BC.\<close>

definition unitMap :: "(string \<times> int) list" where
  "unitMap = [(''ns'', 1), (''us'', 1000), ([CHR 0xC2, CHR 0xB5, CHR ''s''], 1000),
     ([CHR 0xCE, CHR 0xBC, CHR ''s''], 1000), (''ms'', 1000000), (''s'', 1000000000),
     (''m'', 60000000000), (''h'', 3600000000000)]"

definition unitByte :: "char \<Rightarrow> bool" where
  "unitByte c \<longleftrightarrow> c \<noteq> CHR ''.'' \<and> \<not> is_digit c"

text \<open>The optional fraction: its numerator, its scale, the rest and whether it has a digit.\<close>

definition durationFraction :: "string \<Rightarrow> int \<times> int \<times> string \<times> bool" where
  "durationFraction s =
     (if s \<noteq> [] \<and> hd s = CHR ''.''
      then let (f, scale, r) = leadingFraction 0 1 False (tl s) in (f, scale, r, length r \<noteq> length (tl s))
      else (0, 1, s, False))"

text \<open>The unit and the value of a term with integer part \<open>v\<close> and fraction \<open>f / scale\<close>.\<close>

definition durationUnit :: "int \<Rightarrow> int \<Rightarrow> int \<Rightarrow> string \<Rightarrow> durationError + int \<times> string" where
  "durationUnit v f scale s =
     (let u = takeWhile unitByte s; r = dropWhile unitByte s
      in if u = [] then Inl EMissingUnit
         else case map_of unitMap u of
           None \<Rightarrow> Inl EUnknownUnit
         | Some unit \<Rightarrow>
             if v > two63 div unit then Inl EInvalidDuration
             else let v' = v * unit + (if f > 0 then f * unit div scale else 0)
                  in if f > 0 \<and> v' > two63 then Inl EInvalidDuration else Inr (v', r))"

text \<open>One term of a duration: its value and the rest of the text.\<close>

definition durationTerm :: "string \<Rightarrow> durationError + int \<times> string" where
  "durationTerm s =
     (if \<not> (hd s = CHR ''.'' \<or> is_digit (hd s)) then Inl EInvalidDuration
      else case leadingInt 0 s of
        None \<Rightarrow> Inl EInvalidDuration
      | Some (v, s1) \<Rightarrow>
          (case durationFraction s1 of (f, scale, s2, post) \<Rightarrow>
             if length s1 = length s \<and> \<not> post then Inl EInvalidDuration
             else durationUnit v f scale s2))"

lemma leadingInt_length: "leadingInt x s = Some (v, r) \<Longrightarrow> length r \<le> length s"
  by (induction x s rule: leadingInt.induct) (auto simp: Let_def split: if_splits)

lemma leadingFraction_length: "leadingFraction x sc ovf s = (f, sc', r) \<Longrightarrow> length r \<le> length s"
proof (induction x sc ovf s rule: leadingFraction.induct)
  case (2 x scale ovf c cs)
  then show ?case by (simp add: Let_def split: if_splits) auto
qed simp

lemma durationFraction_length: "durationFraction s = (f, sc, r, post) \<Longrightarrow> length r \<le> length s"
proof -
  assume d: "durationFraction s = (f, sc, r, post)"
  show ?thesis
  proof (cases "s \<noteq> [] \<and> hd s = CHR ''.''")
    case True
    obtain f' sc' r' where l: "leadingFraction 0 1 False (tl s) = (f', sc', r')" by (metis prod_cases3)
    with d True have "r = r'" by (simp add: durationFraction_def)
    with leadingFraction_length [OF l] show ?thesis by simp
  next
    case False
    with d show ?thesis unfolding durationFraction_def by auto
  qed
qed

lemma durationUnit_length: "durationUnit v f sc s = Inr (v', r) \<Longrightarrow> length r < length s"
proof -
  assume d: "durationUnit v f sc s = Inr (v', r)"
  then have "takeWhile unitByte s \<noteq> []" "r = dropWhile unitByte s"
    by (auto simp: durationUnit_def Let_def split: if_splits option.splits)
  moreover have "length (takeWhile unitByte s) + length (dropWhile unitByte s) = length s"
    by (metis length_append takeWhile_dropWhile_id)
  ultimately show ?thesis by (cases "takeWhile unitByte s") auto
qed

lemma durationTerm_length: "durationTerm s = Inr (v, r) \<Longrightarrow> length r < length s"
proof -
  assume d: "durationTerm s = Inr (v, r)"
  then obtain i s1 where i: "leadingInt 0 s = Some (i, s1)"
    by (auto simp: durationTerm_def split: if_splits option.splits)
  obtain f sc s2 post where q: "durationFraction s1 = (f, sc, s2, post)" by (metis prod_cases4)
  have "durationUnit i f sc s2 = Inr (v, r)"
    using d i q by (simp add: durationTerm_def split: if_splits)
  from durationUnit_length [OF this] durationFraction_length [OF q] leadingInt_length [OF i]
  show ?thesis by simp
qed

function durationLoop :: "int \<Rightarrow> string \<Rightarrow> durationError + int" where
  "durationLoop d s =
     (if s = [] then Inr d
      else case durationTerm s of
        Inl e \<Rightarrow> Inl e
      | Inr (v, r) \<Rightarrow> if d + v > two63 then Inl EInvalidDuration else durationLoop (d + v) r)"
  by pat_completeness auto
termination
  by (relation "measure (\<lambda>(d, s). length s)") (auto dest: durationTerm_length)

declare durationLoop.simps [simp del]

definition ParseDuration :: "string \<Rightarrow> durationError + int" where
  "ParseDuration s =
     (let (neg, s) = (case s of
                        c # cs \<Rightarrow> if c = CHR ''-'' then (True, cs)
                                  else if c = CHR ''+'' then (False, cs) else (False, s)
                      | [] \<Rightarrow> (False, []))
      in if s = ''0'' then Inr 0
         else if s = [] then Inl EInvalidDuration
         else case durationLoop 0 s of
           Inl e \<Rightarrow> Inl e
         | Inr d \<Rightarrow> if neg then Inr (- d) else if d > two63 - 1 then Inl EInvalidDuration else Inr d)"

section \<open>Printing a duration\<close>

function fmtInt :: "int \<Rightarrow> string" where
  "fmtInt v = (if v < 10 then [char_of (48 + v)] else fmtInt (v div 10) @ [char_of (48 + v mod 10)])"
  by pat_completeness auto
termination
  by (relation "measure nat") auto

declare fmtInt.simps [simp del]

text \<open>The fraction without trailing zeros and without a point when it is zero, in front of \<open>buf\<close>.\<close>

fun fmtFrac :: "nat \<Rightarrow> bool \<Rightarrow> int \<Rightarrow> string \<Rightarrow> string \<times> int" where
  "fmtFrac 0 print v buf = (if print then CHR ''.'' # buf else buf, v)"
| "fmtFrac (Suc i) print v buf =
     (let digit = v mod 10; print' = (print \<or> digit \<noteq> 0)
      in fmtFrac i print' (v div 10) (if print' then char_of (48 + digit) # buf else buf))"

definition DurationString :: "int \<Rightarrow> string" where
  "DurationString d =
     (let u = \<bar>d\<bar>;
          body =
            (if u < Second then
               (if u = 0 then ''0s''
                else let (prec, unit) = (if u < 1000 then (0, ''ns'')
                                         else if u < Millisecond then (3, [CHR 0xC2, CHR 0xB5, CHR ''s''])
                                         else (6, ''ms''));
                         (buf, v) = fmtFrac prec False u unit
                     in fmtInt v @ buf)
             else
               let (buf, v) = fmtFrac 9 False u ''s'';
                   buf = fmtInt (v mod 60) @ buf; v = v div 60
               in if v > 0 then
                    let buf = fmtInt (v mod 60) @ CHR ''m'' # buf; v = v div 60
                    in if v > 0 then fmtInt v @ CHR ''h'' # buf else buf
                  else buf)
      in if d < 0 then CHR ''-'' # body else body)"

section \<open>Reading back a printed duration\<close>

definition digitsFrom :: "int \<Rightarrow> string \<Rightarrow> int" where
  "digitsFrom x ds = foldl (\<lambda>a c. 10 * a + digit_val c) x ds"

lemma digitsFrom_simps [simp]:
  "digitsFrom x [] = x" "digitsFrom x (c # cs) = digitsFrom (10 * x + digit_val c) cs"
  "digitsFrom x (ds @ [c]) = 10 * digitsFrom x ds + digit_val c"
  by (simp_all add: digitsFrom_def)

lemma digit_val_range: "is_digit c \<Longrightarrow> 0 \<le> digit_val c \<and> digit_val c \<le> 9"
  by (auto simp: is_digit_def digit_val_def)

lemma digitsFrom_mono: "list_all is_digit ds \<Longrightarrow> 0 \<le> x \<Longrightarrow> x \<le> digitsFrom x ds"
proof (induction ds arbitrary: x)
  case (Cons c cs)
  then have "10 * x + digit_val c \<le> digitsFrom x (c # cs)" using digit_val_range [of c] by simp
  with Cons.prems digit_val_range [of c] show ?case by simp
qed simp

definition noDigit :: "string \<Rightarrow> bool" where
  "noDigit r \<longleftrightarrow> r = [] \<or> \<not> is_digit (hd r)"

lemma leadingInt_digits:
  assumes "list_all is_digit ds" "noDigit r" "0 \<le> x" "digitsFrom x ds \<le> two63"
  shows "leadingInt x (ds @ r) = Some (digitsFrom x ds, r)"
  using assms
proof (induction ds arbitrary: x)
  case Nil
  then show ?case by (cases r) (auto simp: noDigit_def)
next
  case (Cons c cs)
  let ?y = "10 * x + digit_val c"
  have c: "0 \<le> digit_val c" "is_digit c" using Cons.prems digit_val_range [of c] by simp_all
  have y: "?y \<le> two63" using digitsFrom_mono [of cs ?y] Cons.prems c by simp
  with c have "x \<le> two63 div 10" by (simp add: two63_def)
  with y c Cons show ?case by (simp add: mult.commute)
qed

lemma leadingFraction_digits:
  assumes "list_all is_digit ds" "noDigit r" "0 \<le> x" "digitsFrom x ds < two63"
  shows "leadingFraction x sc False (ds @ r) = (digitsFrom x ds, sc * 10 ^ length ds, r)"
  using assms
proof (induction ds arbitrary: x sc)
  case Nil
  then show ?case by (cases r) (auto simp: noDigit_def)
next
  case (Cons c cs)
  let ?y = "10 * x + digit_val c"
  have c: "0 \<le> digit_val c" "is_digit c" using Cons.prems digit_val_range [of c] by simp_all
  have y: "?y < two63" using digitsFrom_mono [of cs ?y] Cons.prems c by simp
  with c have "x \<le> (two63 - 1) div 10" by (simp add: two63_def)
  with y c Cons show ?case by (simp add: mult.commute)
qed

lemma digit_of_int:
  assumes "0 \<le> v" "v < 10"
  shows "is_digit (char_of (48 + v))" "digit_val (char_of (48 + v)) = v"
proof -
  have "(of_char (char_of (48 + v) :: char) :: int) = 48 + v" using assms by simp
  then show "is_digit (char_of (48 + v))" "digit_val (char_of (48 + v)) = v"
    using assms by (simp_all add: is_digit_def digit_val_def)
qed

lemma fmtInt_digits:
  "0 \<le> v \<Longrightarrow> fmtInt v \<noteq> [] \<and> list_all is_digit (fmtInt v) \<and> digitsFrom 0 (fmtInt v) = v"
proof (induction v rule: fmtInt.induct)
  case (1 v)
  show ?case
  proof (cases "v < 10")
    case True
    with 1(2) digit_of_int [of v] show ?thesis by (subst (1 2 3) fmtInt.simps) simp
  next
    case False
    with 1 digit_of_int [of "v mod 10"] show ?thesis by (subst (1 2 3) fmtInt.simps) simp
  qed
qed

text \<open>The last \<open>n\<close> digits of a number.\<close>

fun lastDigits :: "nat \<Rightarrow> int \<Rightarrow> string" where
  "lastDigits 0 v = []"
| "lastDigits (Suc i) v = lastDigits i (v div 10) @ [char_of (48 + v mod 10)]"

lemma mod_pow10_Suc: "v mod 10 ^ Suc n = 10 * (v div 10 mod 10 ^ n) + v mod 10" for v :: int
  using zmod_zmult2_eq [of "10 ^ n" v 10] by simp

lemma div_pow10_Suc: "v div 10 div 10 ^ n = v div 10 ^ Suc n" for v :: int
  by (simp add: zdiv_zmult2_eq)

lemma lastDigits_digits:
  "length (lastDigits n v) = n \<and> list_all is_digit (lastDigits n v) \<and> digitsFrom 0 (lastDigits n v) = v mod 10 ^ n"
proof (induction n arbitrary: v)
  case (Suc n)
  from Suc [of "v div 10"] digit_of_int [of "v mod 10"] mod_pow10_Suc [of v n] show ?case by simp
qed simp

lemma fmtFrac_print:
  "fmtFrac n True v buf = (CHR ''.'' # lastDigits n v @ buf, v div 10 ^ n)"
proof (induction n arbitrary: v buf)
  case (Suc n)
  then show ?case by (simp add: Let_def zdiv_zmult2_eq)
qed simp

lemma fmtFrac_digits:
  "\<exists>ds. fmtFrac n False v buf = ((if ds = [] then buf else CHR ''.'' # ds @ buf), v div 10 ^ n) \<and>
     length ds \<le> n \<and> list_all is_digit ds \<and> digitsFrom 0 ds * 10 ^ (n - length ds) = v mod 10 ^ n"
proof (induction n arbitrary: v buf)
  case 0
  show ?case by (rule exI [of _ "[]"]) simp
next
  case (Suc n)
  show ?case
  proof (cases "v mod 10 = 0")
    case True
    from Suc [of "v div 10" buf] obtain ds where
      ds: "fmtFrac n False (v div 10) buf = ((if ds = [] then buf else CHR ''.'' # ds @ buf), v div 10 div 10 ^ n)"
      "length ds \<le> n" "list_all is_digit ds" "digitsFrom 0 ds * 10 ^ (n - length ds) = v div 10 mod 10 ^ n"
      by blast
    have "digitsFrom 0 ds * 10 ^ (Suc n - length ds) = v mod 10 ^ Suc n"
      using ds(2,4) True mod_pow10_Suc [of v n] by (simp add: Suc_diff_le algebra_simps)
    with ds True div_pow10_Suc [of v n] show ?thesis by (intro exI [of _ ds]) simp
  next
    case False
    let ?ds = "lastDigits (Suc n) v"
    have "fmtFrac (Suc n) False v buf = (CHR ''.'' # ?ds @ buf, v div 10 ^ Suc n)"
      using False div_pow10_Suc [of v n] by (simp add: fmtFrac_print Let_def)
    with lastDigits_digits [of "Suc n" v] show ?thesis by (intro exI [of _ ?ds]) (simp del: power_Suc)
  qed
qed

definition unitText :: "string \<Rightarrow> int \<Rightarrow> bool" where
  "unitText u unit \<longleftrightarrow> u \<noteq> [] \<and> list_all unitByte u \<and> map_of unitMap u = Some unit \<and> 0 < unit"

lemma unitText_units:
  "unitText ''ns'' 1" "unitText [CHR 0xC2, CHR 0xB5, CHR ''s''] 1000" "unitText ''ms'' 1000000"
  "unitText ''s'' 1000000000" "unitText ''m'' 60000000000" "unitText ''h'' 3600000000000"
  by code_simp+

lemma durationUnit_text:
  assumes "unitText u unit" "rest = [] \<or> is_digit (hd rest)" "v \<le> two63 div unit" "0 \<le> f"
    "v * unit + f * unit div sc \<le> two63"
  shows "durationUnit v f sc (u @ rest) = Inr (v * unit + f * unit div sc, rest)"
proof -
  have t: "takeWhile unitByte (u @ rest) = u" "dropWhile unitByte (u @ rest) = rest"
    using assms(1,2) by (cases rest; simp add: unitText_def list_all_iff unitByte_def)+
  show ?thesis unfolding durationUnit_def t using assms(1,3-5) by (auto simp: unitText_def Let_def)
qed

lemma unitText_hd: "unitText u unit \<Longrightarrow> u \<noteq> [] \<and> \<not> is_digit (hd u) \<and> hd u \<noteq> CHR ''.''"
  by (cases u) (auto simp: unitText_def unitByte_def)

lemma le_div_of_mult: "v * k \<le> n \<Longrightarrow> 0 < k \<Longrightarrow> v \<le> n div k" for v :: int
  using zdiv_mono1 [of "v * k" n k] by simp

lemma durationTerm_int:
  assumes "0 \<le> v" "unitText u unit" "rest = [] \<or> is_digit (hd rest)" "v * unit \<le> two63"
  shows "durationTerm (fmtInt v @ u @ rest) = Inr (v * unit, rest)"
proof -
  note d = fmtInt_digits [OF assms(1)] and h = unitText_hd [OF assms(2)]
  have unit: "0 < unit" using assms(2) by (simp add: unitText_def)
  then have le: "v \<le> two63 div unit" using assms(4) by (simp add: le_div_of_mult)
  have "v * 1 \<le> v * unit" using assms(1) unit by (intro mult_left_mono) auto
  then have li: "leadingInt 0 (fmtInt v @ u @ rest) = Some (v, u @ rest)"
    using leadingInt_digits [of "fmtInt v" "u @ rest" 0] d h assms(4) by (simp add: noDigit_def)
  have "durationFraction (u @ rest) = (0, 1, u @ rest, False)" using h by (simp add: durationFraction_def)
  moreover have "is_digit (hd (fmtInt v @ u @ rest))" using d by (cases "fmtInt v") auto
  moreover have "durationUnit v 0 1 (u @ rest) = Inr (v * unit, rest)"
    using durationUnit_text [OF assms(2,3) le, of 0 1] assms(4) by simp
  ultimately show ?thesis using li d by (simp add: durationTerm_def)
qed

lemma durationTerm_frac:
  assumes "0 \<le> v" "unitText u unit" "v * unit + digitsFrom 0 ds * unit div 10 ^ length ds \<le> two63"
    "list_all is_digit ds" "ds \<noteq> []" "digitsFrom 0 ds < two63"
  shows "durationTerm (fmtInt v @ CHR ''.'' # ds @ u) = Inr (v * unit + digitsFrom 0 ds * unit div 10 ^ length ds, [])"
proof -
  note d = fmtInt_digits [OF assms(1)] and h = unitText_hd [OF assms(2)]
  let ?f = "digitsFrom 0 ds"
  have f: "0 \<le> ?f" using digitsFrom_mono [OF assms(4), of 0] by simp
  have unit: "0 < unit" using assms(2) by (simp add: unitText_def)
  have "0 \<le> ?f * unit div 10 ^ length ds" using f unit by (simp add: pos_imp_zdiv_nonneg_iff)
  with assms(3) have vu: "v * unit \<le> two63" by simp
  then have le: "v \<le> two63 div unit" using unit by (simp add: le_div_of_mult)
  have "v * 1 \<le> v * unit" using assms(1) unit by (intro mult_left_mono) auto
  then have li: "leadingInt 0 (fmtInt v @ CHR ''.'' # ds @ u) = Some (v, CHR ''.'' # ds @ u)"
    using leadingInt_digits [of "fmtInt v" "CHR ''.'' # ds @ u" 0] d vu by (simp add: noDigit_def is_digit_def)
  have "leadingFraction 0 1 False (ds @ u) = (?f, 10 ^ length ds, u)"
    using leadingFraction_digits [of ds u 0 1] assms(4,6) h by (simp add: noDigit_def)
  then have fr: "durationFraction (CHR ''.'' # ds @ u) = (?f, 10 ^ length ds, u, True)"
    using assms(5) by (simp add: durationFraction_def)
  have "is_digit (hd (fmtInt v @ CHR ''.'' # ds @ u))" using d by (cases "fmtInt v") auto
  moreover have "durationUnit v ?f (10 ^ length ds) u = Inr (v * unit + ?f * unit div 10 ^ length ds, [])"
    using durationUnit_text [OF assms(2) _ le f assms(3), of "[]"] by simp
  ultimately show ?thesis using li d fr by (simp add: durationTerm_def)
qed

text \<open>The last term of a printed duration, with \<open>n\<close> decimals of the unit \<open>10 ^ n\<close>.\<close>

lemma durationTerm_fmtFrac:
  assumes "0 \<le> v" "unitText u (10 ^ n)" "n \<le> 9" "v * 10 ^ n + x mod 10 ^ n \<le> two63"
  shows "durationTerm (fmtInt v @ fst (fmtFrac n False x u)) = Inr (v * 10 ^ n + x mod 10 ^ n, [])"
proof -
  obtain ds where ds: "fmtFrac n False x u = ((if ds = [] then u else CHR ''.'' # ds @ u), x div 10 ^ n)"
    "length ds \<le> n" "list_all is_digit ds" "digitsFrom 0 ds * 10 ^ (n - length ds) = x mod 10 ^ n"
    using fmtFrac_digits [of n x u] by blast
  show ?thesis
  proof (cases "ds = []")
    case True
    with ds(4) have "x mod 10 ^ n = 0" by simp
    with True ds(1) durationTerm_int [OF assms(1,2), of "[]"] assms(4) show ?thesis by simp
  next
    case False
    let ?f = "digitsFrom 0 ds" and ?k = "length ds"
    have "(10 :: int) ^ n = 10 ^ (n - ?k) * 10 ^ ?k" using ds(2) by (simp flip: power_add)
    then have fd: "?f * 10 ^ n div 10 ^ ?k = x mod 10 ^ n" using ds(4) by (simp flip: mult.assoc)
    have "?f * 1 \<le> ?f * 10 ^ (n - ?k)"
      using digitsFrom_mono [OF ds(3), of 0] by (intro mult_left_mono) simp_all
    then have "?f \<le> x mod 10 ^ n" using ds(4) by simp
    moreover have "x mod 10 ^ n < 10 ^ n" by simp
    moreover have "(10 :: int) ^ n \<le> 10 ^ 9" using assms(3) by (intro power_increasing) simp_all
    moreover have "(10 :: int) ^ 9 < two63" by (simp add: two63_def)
    ultimately have "?f < two63" by linarith
    from durationTerm_frac [OF assms(1,2) _ ds(3) False this] assms(4) False ds(1)
    show ?thesis unfolding fd by simp
  qed
qed


lemma durationLoop_last: "durationTerm s = Inr (v, []) \<Longrightarrow> s \<noteq> [] \<Longrightarrow> d + v \<le> two63 \<Longrightarrow> durationLoop d s = Inr (d + v)"
  by (simp add: durationLoop.simps)

lemma durationLoop_more:
  "durationTerm s = Inr (v, r) \<Longrightarrow> s \<noteq> [] \<Longrightarrow> d + v \<le> two63 \<Longrightarrow> durationLoop d s = durationLoop (d + v) r"
  by (subst durationLoop.simps) simp

lemma fmtInt_hd: "0 \<le> v \<Longrightarrow> is_digit (hd (fmtInt v @ r)) \<and> fmtInt v @ r \<noteq> []"
  using fmtInt_digits [of v] by (cases "fmtInt v") auto

lemma small_body:
  assumes "0 < u" "u < Second"
  shows "durationLoop 0 (DurationString u) = Inr u"
proof -
  define n unit where "n = (if u < 1000 then 0 else if u < Millisecond then 3 else 6 :: nat)"
    and "unit = (if u < 1000 then ''ns'' else if u < Millisecond then [CHR 0xC2, CHR 0xB5, CHR ''s''] else ''ms'')"
  have t: "unitText unit (10 ^ n)" "n \<le> 9" using unitText_units by (simp_all add: n_def unit_def)
  have v: "0 \<le> u div 10 ^ n" using assms(1) by (simp add: pos_imp_zdiv_nonneg_iff)
  have sum: "u div 10 ^ n * 10 ^ n + u mod 10 ^ n = u" by (rule div_mult_mod_eq)
  have s: "DurationString u = fmtInt (u div 10 ^ n) @ fst (fmtFrac n False u unit)"
    using assms fmtFrac_digits [of n u unit]
    by (auto simp: DurationString_def n_def unit_def Let_def split_beta)
  from durationTerm_fmtFrac [OF v t] sum assms have "durationTerm (DurationString u) = Inr (u, [])"
    unfolding s by (simp add: Second_def two63_def)
  from durationLoop_last [OF this, of 0] assms fmtInt_hd [OF v] show ?thesis
    unfolding s by (simp add: Second_def two63_def)
qed

lemma hms_total:
  "q = 60 * p + c \<Longrightarrow> p = 60 * h + m \<Longrightarrow> q * 10 ^ 9 + r = u \<Longrightarrow>
     h * 3600000000000 + m * 60000000000 + (c * 10 ^ 9 + r) = u" for q :: int
  by simp

lemma first_le_total: "a + b + (c + r) = u \<Longrightarrow> 0 \<le> b \<Longrightarrow> 0 \<le> c \<Longrightarrow> 0 \<le> r \<Longrightarrow> u \<le> n \<Longrightarrow> a \<le> n" for a :: int
  by simp

lemma large_body:
  assumes "Second \<le> u" "u \<le> two63"
  shows "durationLoop 0 (DurationString u) = Inr u"
proof -
  define q where "q = u div 10 ^ 9"
  define secs where "secs = fmtInt (q mod 60) @ fst (fmtFrac 9 False u ''s'')"
  have q: "0 \<le> q" "q * 10 ^ 9 + u mod 10 ^ 9 = u"
    using assms by (simp_all add: q_def Second_def pos_imp_zdiv_nonneg_iff)
  have mods: "0 \<le> u mod 10 ^ 9" "u mod 10 ^ 9 < 10 ^ 9" "0 \<le> q mod 60" "q mod 60 < 60" by simp_all
  have snd_frac: "snd (fmtFrac 9 False u ''s'') = q" using fmtFrac_digits [of 9 u "''s''"] by (auto simp: q_def)
  have secs_hd: "is_digit (hd secs)" "secs \<noteq> []" using fmtInt_hd [OF mods(3)] by (simp_all add: secs_def)
  have t_secs: "durationTerm secs = Inr (q mod 60 * 10 ^ 9 + u mod 10 ^ 9, [])"
    unfolding secs_def using mods
    by (intro durationTerm_fmtFrac) (simp_all add: unitText_units two63_def)
  have S: "DurationString u = (if q div 60 > 0 then
      (if q div 60 div 60 > 0 then fmtInt (q div 60 div 60) @ ''h'' @ fmtInt (q div 60 mod 60) @ ''m'' @ secs
       else fmtInt (q div 60 mod 60) @ ''m'' @ secs) else secs)"
    using assms snd_frac by (simp add: DurationString_def secs_def Let_def split_beta Second_def)
  have div: "q = 60 * (q div 60) + q mod 60" "q div 60 = 60 * (q div 60 div 60) + q div 60 mod 60" by simp_all
  define m h where "m = q div 60 mod 60" and "h = q div 60 div 60"
  have m: "0 \<le> m" "m < 60" "0 \<le> h" using q(1) by (simp_all add: m_def h_def pos_imp_zdiv_nonneg_iff)
  have total: "h * 3600000000000 + m * 60000000000 + (q mod 60 * 10 ^ 9 + u mod 10 ^ 9) = u"
    using hms_total [OF div q(2)] by (simp only: m_def h_def)
  have ends: "d + (q mod 60 * 10 ^ 9 + u mod 10 ^ 9) = u \<Longrightarrow> durationLoop d secs = Inr u" for d
    using durationLoop_last [OF t_secs secs_hd(2), of d] assms(2) by simp
  have mins: "d + (m * 60000000000 + (q mod 60 * 10 ^ 9 + u mod 10 ^ 9)) = u \<Longrightarrow> 0 \<le> d \<Longrightarrow>
      durationLoop d (fmtInt m @ ''m'' @ secs) = Inr u" for d
    using durationLoop_more [OF durationTerm_int [OF m(1) unitText_units(5), of secs], of d] secs_hd m
      fmtInt_hd [OF m(1)] mods assms(2) ends [of "d + m * 60000000000"] by (simp add: two63_def)
  show ?thesis
  proof (cases "q div 60 > 0")
    case False
    with q(1) have "h = 0" "m = 0" by (simp_all add: h_def m_def)
    with False S total ends [of 0] show ?thesis by simp
  next
    case True
    show ?thesis
    proof (cases "h > 0")
      case False
      with m(3) total mins [of 0] True S show ?thesis by (simp add: h_def [symmetric] m_def [symmetric])
    next
      case hp: True
      have le: "h * 3600000000000 \<le> two63" 
        by (rule first_le_total [OF total]) (use m mods assms(2) in simp_all)
      have "durationTerm (fmtInt h @ ''h'' @ (fmtInt m @ ''m'' @ secs)) = Inr (h * 3600000000000, fmtInt m @ ''m'' @ secs)"
        using fmtInt_hd [OF m(1)] by (intro durationTerm_int [OF m(3) unitText_units(6) _ le]) simp
      from durationLoop_more [OF this, of 0] fmtInt_hd [OF m(3)] le mins [of "h * 3600000000000"] total m(3)
      have "durationLoop 0 (fmtInt h @ ''h'' @ (fmtInt m @ ''m'' @ secs)) = Inr u" by simp
      with hp True S show ?thesis by (simp add: h_def [symmetric] m_def [symmetric])
    qed
  qed
qed

lemma DurationString_abs: "d < 0 \<Longrightarrow> DurationString d = CHR ''-'' # DurationString (- d)"
  by (simp add: DurationString_def Let_def)

text \<open>A text that the loop reads to a positive value has no sign and is not \<open>0\<close>.\<close>

lemma durationLoop_positive:
  assumes "durationLoop 0 s = Inr u" "0 < u"
  shows "s \<noteq> []" "s \<noteq> ''0''" "hd s \<noteq> CHR ''-''" "hd s \<noteq> CHR ''+''"
proof -
  show ne: "s \<noteq> []" using assms by (auto simp: durationLoop.simps)
  have "durationLoop 0 ''0'' = Inl EMissingUnit" by code_simp
  with assms show "s \<noteq> ''0''" by auto
  have "hd s = CHR ''.'' \<or> is_digit (hd s)"
    using assms(1) ne by (subst (asm) durationLoop.simps) (auto simp: durationTerm_def split: if_splits)
  then show "hd s \<noteq> CHR ''-''" "hd s \<noteq> CHR ''+''" by (auto simp: is_digit_def)
qed

lemma ParseDuration_String:
  assumes "minInt64 \<le> d" "d \<le> maxInt64"
  shows "ParseDuration (DurationString d) = Inr d"
proof -
  have body: "durationLoop 0 (DurationString u) = Inr u" if "0 < u" "u \<le> two63" for u
    using that small_body [of u] large_body [of u] by (cases "u < Second") simp_all
  consider "d = 0" | "0 < d" | "d < 0" by linarith
  then show ?thesis
  proof cases
    case 1
    have "ParseDuration (DurationString 0) = Inr 0" by code_simp
    with 1 show ?thesis by simp
  next
    case 2
    have b: "durationLoop 0 (DurationString d) = Inr d" using body 2 assms by (simp add: two63_def maxInt64_def)
    obtain c cs where s: "DurationString d = c # cs" "c \<noteq> CHR ''-''" "c \<noteq> CHR ''+''"
      using durationLoop_positive [OF b 2] by (cases "DurationString d") auto
    with b durationLoop_positive(2) [OF b 2] assms show ?thesis
      by (auto simp: ParseDuration_def two63_def maxInt64_def)
  next
    case 3
    then have u: "0 < - d" "- d \<le> two63" using assms by (simp_all add: two63_def minInt64_def)
    note b = body [OF u]
    show ?thesis unfolding DurationString_abs [OF 3]
      using b durationLoop_positive(1,2) [OF b u(1)] by (simp add: ParseDuration_def)
  qed
qed

end
