(* ===== verification/Go_RFC3339.thy ===== *)
theory Go_RFC3339
  imports Go_Time Go_Duration
begin

text \<open>
  \<open>time.Parse\<close> and \<open>Time.Format\<close> for the layouts \<open>RFC3339\<close> and \<open>RFC3339Nano\<close>, in which the
  persistence layer writes and reads its times.  The reader follows the general parser of package
  \<open>time\<close>: an hour of one digit is accepted, and a fraction may follow the seconds whether or not
  the layout has one.  The lemmas give the round trip.
\<close>

section \<open>Writing\<close>

definition pad2 :: "int \<Rightarrow> string" where
  "pad2 n = [char_of (48 + n div 10), char_of (48 + n mod 10)]"

text \<open>\<open>appendInt\<close> of width 4.\<close>

definition pad4 :: "int \<Rightarrow> string" where
  "pad4 n =
     (let ds = fmtInt \<bar>n\<bar>
      in (if n < 0 then ''-'' else '''') @ replicate (4 - length ds) (CHR ''0'') @ ds)"

definition fmtZone :: "int \<Rightarrow> string" where
  "fmtZone loc =
     (if loc = 0 then ''Z''
      else let z = \<bar>loc\<bar> div 60
           in (if loc < 0 then CHR ''-'' else CHR ''+'') # pad2 (z div 60) @ CHR '':'' # pad2 (z mod 60))"

text \<open>The fraction \<open>.999999999\<close>: nine digits without the trailing zeros.\<close>

definition fmtNano :: "int \<Rightarrow> string" where
  "fmtNano ns = fst (fmtFrac 9 False ns [])"

definition FormatRFC3339 :: "bool \<Rightarrow> gotime \<Rightarrow> string" where
  "FormatRFC3339 nano t =
     pad4 (tYear t) @ CHR ''-'' # pad2 (tMonth t) @ CHR ''-'' # pad2 (tDay t) @
     CHR ''T'' # pad2 (tHour t) @ CHR '':'' # pad2 (tMinute t) @ CHR '':'' # pad2 (tSecond t) @
     (if nano then fmtNano (tNano t) else []) @ fmtZone (tLoc t)"

section \<open>Reading\<close>

text \<open>\<open>getnum\<close>: two digits, or one where the width is not fixed.\<close>

definition getnum :: "bool \<Rightarrow> string \<Rightarrow> (int \<times> string) option" where
  "getnum fixed s =
     (case s of
        [] \<Rightarrow> None
      | a # s1 \<Rightarrow>
          if \<not> is_digit a then None
          else (case s1 of
                  b # s2 \<Rightarrow> if is_digit b then Some (digit_val a * 10 + digit_val b, s2)
                            else if fixed then None else Some (digit_val a, s1)
                | [] \<Rightarrow> if fixed then None else Some (digit_val a, s1)))"

definition skipChar :: "char \<Rightarrow> string \<Rightarrow> string option" where
  "skipChar c s = (case s of x # r \<Rightarrow> if x = c then Some r else None | [] \<Rightarrow> None)"

definition getYear :: "string \<Rightarrow> (int \<times> string) option" where
  "getYear s =
     (let ds = take 4 s
      in if length ds = 4 \<and> list_all is_digit ds then Some (digits_val ds, drop 4 s) else None)"

definition inRange :: "int \<Rightarrow> int \<Rightarrow> (int \<times> string) option \<Rightarrow> (int \<times> string) option" where
  "inRange lo hi r = (case r of Some (v, s) \<Rightarrow> if lo \<le> v \<and> v \<le> hi then Some (v, s) else None | None \<Rightarrow> None)"

text \<open>The optional fraction: up to nine digits count, further ones are read over.\<close>

definition getFrac :: "string \<Rightarrow> int \<times> string" where
  "getFrac s =
     (case s of
        c # r \<Rightarrow>
          (if (c = CHR ''.'' \<or> c = CHR '','') \<and> r \<noteq> [] \<and> is_digit (hd r)
           then let ds = takeWhile is_digit r; n = take 9 ds
                in (digits_val n * 10 ^ (9 - length n), drop (length ds) r)
           else (0, s))
      | [] \<Rightarrow> (0, s))"

definition getZone :: "string \<Rightarrow> (int \<times> string) option" where
  "getZone s =
     (case s of
        [] \<Rightarrow> None
      | c # r \<Rightarrow>
          if c = CHR ''Z'' then Some (0, r)
          else if c = CHR ''+'' \<or> c = CHR ''-'' then
            Option.bind (inRange 0 24 (getnum True r)) (\<lambda>(h, r).
            Option.bind (skipChar (CHR '':'') r) (\<lambda>r.
            Option.bind (inRange 0 60 (getnum True r)) (\<lambda>(m, r).
              let off = (h * 60 + m) * 60 in Some (if c = CHR ''-'' then - off else off, r))))
          else None)"

definition ParseRFC3339 :: "string \<Rightarrow> gotime option" where
  "ParseRFC3339 s =
     Option.bind (getYear s) (\<lambda>(y, s).
     Option.bind (skipChar (CHR ''-'') s) (\<lambda>s.
     Option.bind (inRange 1 12 (getnum True s)) (\<lambda>(mo, s).
     Option.bind (skipChar (CHR ''-'') s) (\<lambda>s.
     Option.bind (getnum True s) (\<lambda>(d, s).
     Option.bind (skipChar (CHR ''T'') s) (\<lambda>s.
     Option.bind (inRange 0 23 (getnum False s)) (\<lambda>(h, s).
     Option.bind (skipChar (CHR '':'') s) (\<lambda>s.
     Option.bind (inRange 0 59 (getnum True s)) (\<lambda>(mi, s).
     Option.bind (skipChar (CHR '':'') s) (\<lambda>s.
     Option.bind (inRange 0 59 (getnum True s)) (\<lambda>(sec, s).
     case getFrac s of (ns, s) \<Rightarrow>
     Option.bind (getZone s) (\<lambda>(loc, s).
       if s = [] \<and> 1 \<le> d \<and> d \<le> daysIn y mo
       then Some \<lparr>tYear = y, tMonth = mo, tDay = d, tHour = h, tMinute = mi, tSecond = sec, tNano = ns, tLoc = loc\<rparr>
       else None))))))))))))"

section \<open>Round trip\<close>

lemma getnum_pad2:
  assumes "0 \<le> n" "n < 100"
  shows "getnum b (pad2 n @ r) = Some (n, r)"
proof -
  have "0 \<le> n div 10" "n div 10 < 10" "0 \<le> n mod 10" "n mod 10 < 10" using assms by auto
  with digit_of_int [of "n div 10"] digit_of_int [of "n mod 10"] show ?thesis
    by (simp add: getnum_def pad2_def)
qed

lemma skipChar_same [simp]: "skipChar c (c # r) = Some r"
  by (simp add: skipChar_def)

lemma inRange_Some [simp]: "lo \<le> v \<Longrightarrow> v \<le> hi \<Longrightarrow> inRange lo hi (Some (v, s)) = Some (v, s)"
  by (simp add: inRange_def)

lemma digits_val_from: "digits_val s = digitsFrom 0 s"
  by (simp add: digits_val_def digitsFrom_def)

lemma digitsFrom_zeros: "digitsFrom 0 (replicate k (CHR ''0'') @ ds) = digitsFrom 0 ds"
  by (induction k) (simp_all add: digit_val_def)

lemma fmtInt_length: "0 \<le> v \<Longrightarrow> v < 10 ^ Suc n \<Longrightarrow> length (fmtInt v) \<le> Suc n"
proof (induction n arbitrary: v)
  case 0
  then show ?case by (subst fmtInt.simps) simp
next
  case (Suc n)
  show ?case
  proof (cases "v < 10")
    case True
    then show ?thesis by (subst fmtInt.simps) simp
  next
    case False
    have "v div 10 < 10 ^ Suc n" using Suc.prems by simp
    with Suc.IH [of "v div 10"] Suc.prems False show ?thesis by (subst fmtInt.simps) simp
  qed
qed

lemma getYear_pad4:
  assumes "0 \<le> y" "y \<le> 9999"
  shows "getYear (pad4 y @ r) = Some (y, r)"
proof -
  have l: "length (fmtInt y) \<le> 4" using fmtInt_length [of y 3] assms by simp
  then have "length (pad4 y) = 4" using assms by (simp add: pad4_def Let_def)
  moreover have "list_all is_digit (pad4 y)"
    using fmtInt_digits [OF assms(1)] assms(1) by (auto simp: pad4_def Let_def list_all_iff is_digit_def)
  moreover have "digits_val (pad4 y) = y"
    using fmtInt_digits [OF assms(1)] assms(1) by (simp add: pad4_def Let_def digits_val_from digitsFrom_zeros)
  ultimately show ?thesis by (simp add: getYear_def Let_def)
qed

definition zoneOk :: "int \<Rightarrow> bool" where
  "zoneOk loc \<longleftrightarrow> loc mod 60 = 0 \<and> \<bar>loc\<bar> < 86400"

lemma getZone_fmtZone:
  assumes "zoneOk loc"
  shows "getZone (fmtZone loc) = Some (loc, [])"
proof (cases "loc = 0")
  case True
  then show ?thesis by (simp add: getZone_def fmtZone_def)
next
  case False
  obtain k where k: "loc = 60 * k" using assms by (auto simp: zoneOk_def dest: mod_0_imp_dvd)
  have d: "\<bar>loc\<bar> div 60 = \<bar>k\<bar>" using k by (simp add: abs_mult)
  have b: "\<bar>k\<bar> < 1440" using assms k by (auto simp: zoneOk_def abs_mult)
  have hm: "0 \<le> \<bar>k\<bar> div 60" "\<bar>k\<bar> div 60 \<le> 23" "0 \<le> \<bar>k\<bar> mod 60" "\<bar>k\<bar> mod 60 < 60"
    using b by (auto simp: pos_imp_zdiv_nonneg_iff)
  obtain h m where h: "\<bar>k\<bar> div 60 = h" and m: "\<bar>k\<bar> mod 60 = m" by blast
  have "60 * h + m = \<bar>k\<bar>" using h m by auto
  then have off: "(h * 60 + m) * 60 = \<bar>loc\<bar>" using k by (simp add: abs_mult)
  have n: "getnum True (pad2 h @ CHR '':'' # pad2 m) = Some (h, CHR '':'' # pad2 m)"
    "getnum True (pad2 m) = Some (m, [])"
    using getnum_pad2 [of h True] getnum_pad2 [of m True "[]"] hm h m by simp_all
  have z: "fmtZone loc = (if loc < 0 then CHR ''-'' else CHR ''+'') # pad2 h @ CHR '':'' # pad2 m"
    using False by (simp add: fmtZone_def d h m Let_def)
  show ?thesis unfolding z getZone_def using n hm off unfolding h m by (simp add: Let_def)
qed

lemma getFrac_fmtNano:
  assumes "0 \<le> ns" "ns < 1000000000" "\<not> is_digit (hd z)" "z \<noteq> []" "hd z \<noteq> CHR ''.''" "hd z \<noteq> CHR '',''"
  shows "getFrac (fmtNano ns @ z) = (ns, z)"
proof -
  obtain ds where ds: "fmtFrac 9 False ns [] = ((if ds = [] then [] else CHR ''.'' # ds @ []), ns div 10 ^ 9)"
    "length ds \<le> 9" "list_all is_digit ds" "digitsFrom 0 ds * 10 ^ (9 - length ds) = ns mod 10 ^ 9"
    using fmtFrac_digits [of 9 ns "[]"] by blast
  have m: "ns mod 10 ^ 9 = ns" using assms(1,2) by simp
  obtain c r where z: "z = c # r" "\<not> is_digit c" "c \<noteq> CHR ''.''" "c \<noteq> CHR '',''" using assms(3-6) by (cases z) auto
  show ?thesis
  proof (cases ds)
    case Nil
    with ds(1,4) m z show ?thesis by (simp add: fmtNano_def getFrac_def)
  next
    case (Cons a as)
    have t: "takeWhile is_digit (ds @ z) = ds" using ds(3) z by (simp add: list_all_iff takeWhile_append)
    have f: "fmtNano ns @ z = CHR ''.'' # (ds @ z)" using ds(1) Cons by (simp add: fmtNano_def)
    have "hd (ds @ z) = a" "is_digit a" "ds @ z \<noteq> []" using Cons ds(3) by auto
    then show ?thesis unfolding f getFrac_def using ds(2,4) t m
      by (simp add: Let_def digits_val_from)
  qed
qed

lemma fmtZone_hd: "fmtZone loc \<noteq> []" "\<not> is_digit (hd (fmtZone loc))" "hd (fmtZone loc) \<noteq> CHR ''.''" "hd (fmtZone loc) \<noteq> CHR '',''"
  by (auto simp: fmtZone_def Let_def is_digit_def)

lemma getFrac_none: "\<not> is_digit (hd z) \<Longrightarrow> z \<noteq> [] \<Longrightarrow> hd z \<noteq> CHR ''.'' \<Longrightarrow> hd z \<noteq> CHR '','' \<Longrightarrow> getFrac z = (0, z)"
  by (cases z) (simp_all add: getFrac_def)

lemma ParseRFC3339_Format:
  assumes "valid_time t" "0 \<le> tYear t" "tYear t \<le> 9999" "zoneOk (tLoc t)"
  shows "ParseRFC3339 (FormatRFC3339 nano t) = Some (if nano then t else t\<lparr>tNano := 0\<rparr>)"
proof -
  have v: "1 \<le> tMonth t" "tMonth t \<le> 12" "1 \<le> tDay t" "tDay t \<le> daysIn (tYear t) (tMonth t)"
     "0 \<le> tHour t" "tHour t \<le> 23" "0 \<le> tMinute t" "tMinute t \<le> 59" "0 \<le> tSecond t" "tSecond t \<le> 59"
     "0 \<le> tNano t" "tNano t < 1000000000"
    using assms(1) by (auto simp: valid_time_def)
  have "tDay t \<le> 31" using v(4) daysIn_bounds(2) [of "tYear t" "tMonth t"] by linarith
  with v have g: "\<And>r. getnum True (pad2 (tMonth t) @ r) = Some (tMonth t, r)"
    "\<And>r. getnum True (pad2 (tDay t) @ r) = Some (tDay t, r)"
    "\<And>r. getnum False (pad2 (tHour t) @ r) = Some (tHour t, r)"
    "\<And>r. getnum True (pad2 (tMinute t) @ r) = Some (tMinute t, r)"
    "\<And>r. getnum True (pad2 (tSecond t) @ r) = Some (tSecond t, r)"
    by (auto intro!: getnum_pad2)
  have f: "getFrac ((if nano then fmtNano (tNano t) else []) @ fmtZone (tLoc t)) =
      (if nano then tNano t else 0, fmtZone (tLoc t))"
    using getFrac_fmtNano [OF v(11,12)] getFrac_none fmtZone_hd by simp
  show ?thesis
    unfolding ParseRFC3339_def FormatRFC3339_def
    using getYear_pad4 [OF assms(2,3)] g f v getZone_fmtZone [OF assms(4)] by simp
qed

end
