(* ===== verification/Candi_Helper.thy ===== *)
theory Candi_Helper
  imports Go_RFC3339 "HOL-Library.AList"
begin

text \<open>
  Package \<open>candihelper\<close> (\<open>src/candihelper\<close>): conversions of dynamically typed values, string
  case helpers, the daily time expression, the batch streamers and the multi error.  A value of
  type \<open>any\<close> is a \<open>gval\<close> with the dynamic types that the modelled code passes; floating-point
  values are not modelled.  The reflective and cryptographic helpers are left out.
\<close>

section \<open>Dynamically typed values\<close>

datatype gval = VNil | VInt int | VBool bool | VStr string | VTime gotime

definition UnwrapPtr :: "'a \<Rightarrow> 'a option \<Rightarrow> 'a" where
  "UnwrapPtr zero p = (case p of None \<Rightarrow> zero | Some x \<Rightarrow> x)"

definition PtrToString :: "string option \<Rightarrow> string" where
  "PtrToString p = (case p of None \<Rightarrow> [] | Some s \<Rightarrow> s)"

definition FormatBool :: "bool \<Rightarrow> string" where
  "FormatBool b = (if b then ''true'' else ''false'')"

text \<open>The string of a time (\<open>fmt.Stringer\<close>) is an argument: its layout plays no role.\<close>

definition ToString :: "(gotime \<Rightarrow> string) \<Rightarrow> gval \<Rightarrow> string" where
  "ToString timeString v =
     (case v of VStr s \<Rightarrow> s | VBool b \<Rightarrow> FormatBool b | VInt i \<Rightarrow> Itoa i | VNil \<Rightarrow> [] | VTime t \<Rightarrow> timeString t)"

text \<open>\<open>strconv.ParseInt(s, 0, 0)\<close>: the base from the prefix, underscores between digits or after
  the prefix.\<close>

definition hexVal :: "char \<Rightarrow> int option" where
  "hexVal c =
     (let n = (of_char (lower_char c) :: int)
      in if 48 \<le> n \<and> n \<le> 57 then Some (n - 48) else if 97 \<le> n \<and> n \<le> 122 then Some (n - 87) else None)"

fun digitsBase :: "int \<Rightarrow> int \<Rightarrow> string \<Rightarrow> int option" where
  "digitsBase b acc [] = Some acc"
| "digitsBase b acc (c # cs) =
     (if c = CHR ''_'' then digitsBase b acc cs
      else case hexVal c of
        None \<Rightarrow> None
      | Some d \<Rightarrow> if d < b then digitsBase b (acc * b + d) cs else None)"

text \<open>\<open>underscoreOK\<close>: the state is the kind of the last byte: \<open>^\<close> start, \<open>0\<close> digit,
  \<open>_\<close> underscore, \<open>!\<close> anything else.\<close>

fun underscores :: "bool \<Rightarrow> char \<Rightarrow> string \<Rightarrow> bool" where
  "underscores hex i [] = (i \<noteq> CHR ''_'')"
| "underscores hex i (c # cs) =
     (if is_digit c \<or> (hex \<and> (case hexVal c of Some n \<Rightarrow> n < 16 | None \<Rightarrow> False)) then underscores hex (CHR ''0'') cs
      else if c = CHR ''_'' then (if i \<noteq> CHR ''0'' then False else underscores hex (CHR ''_'') cs)
      else if i = CHR ''_'' then False
      else underscores hex (CHR ''!'') cs)"

definition basePrefix :: "string \<Rightarrow> (int \<times> string) option" where
  "basePrefix s =
     (case s of
        z # x # y # r \<Rightarrow>
          (if z = CHR ''0'' then
             (if lower_char x = CHR ''b'' then Some (2, y # r)
              else if lower_char x = CHR ''o'' then Some (8, y # r)
              else if lower_char x = CHR ''x'' then Some (16, y # r) else None)
           else None)
      | _ \<Rightarrow> None)"

definition underscoreOK :: "string \<Rightarrow> bool" where
  "underscoreOK s =
     (let s = (case s of c # r \<Rightarrow> if c = CHR ''-'' \<or> c = CHR ''+'' then r else s | [] \<Rightarrow> s)
      in case basePrefix s of
           Some (b, r) \<Rightarrow> underscores (b = 16) (CHR ''0'') r
         | None \<Rightarrow> underscores False (CHR ''^'') s)"

definition ParseInt0 :: "string \<Rightarrow> int option" where
  "ParseInt0 s =
     (let (neg, u) = (case s of c # r \<Rightarrow> if c = CHR ''-'' then (True, r) else if c = CHR ''+'' then (False, r)
                                         else (False, s)
                      | [] \<Rightarrow> (False, s));
          (b, ds) = (case basePrefix u of
                       Some p \<Rightarrow> p
                     | None \<Rightarrow> if u \<noteq> [] \<and> hd u = CHR ''0'' then (8, tl u) else (10, u))
      in if u = [] \<or> CHR ''_'' \<in> set ds \<and> \<not> underscoreOK u then None
         else case digitsBase b 0 ds of
           None \<Rightarrow> None
         | Some n \<Rightarrow> let v = (if neg then - n else n)
                      in if minInt64 \<le> v \<and> v \<le> maxInt64 then Some v else None)"

definition ToInt :: "gval \<Rightarrow> int" where
  "ToInt v =
     (case v of
        VInt i \<Rightarrow> i
      | VStr s \<Rightarrow> (case ParseInt0 s of Some i \<Rightarrow> i | None \<Rightarrow> 0)
      | VBool b \<Rightarrow> if b then 1 else 0
      | VNil \<Rightarrow> 0
      | VTime t \<Rightarrow> 0)"

section \<open>Slices and maps\<close>

fun StringInSlice :: "string \<Rightarrow> string list \<Rightarrow> bool" where
  "StringInSlice str [] = False"
| "StringInSlice str (v # vs) = (if v = str then True else StringInSlice str vs)"

fun ElementInSlice :: "'a \<Rightarrow> 'a list \<Rightarrow> bool" where
  "ElementInSlice el [] = False"
| "ElementInSlice el (v # vs) = (if v = el then True else ElementInSlice el vs)"

definition ToMap :: "'a list \<Rightarrow> ('a \<Rightarrow> 'k) \<Rightarrow> ('k \<rightharpoonup> 'a)" where
  "ToMap xs keyGetter = foldl (\<lambda>mp el. mp(keyGetter el \<mapsto> el)) (\<lambda>_. None) xs"

definition IsExistInMap :: "('k \<rightharpoonup> 'a) \<Rightarrow> 'k \<Rightarrow> bool" where
  "IsExistInMap m key \<longleftrightarrow> m key \<noteq> None"

section \<open>Sizes\<close>

definition KByte :: int where "KByte = 1024"
definition MByte :: int where "MByte = 1048576"
definition GByte :: int where "GByte = 1073741824"
definition TByte :: int where "TByte = 1099511627776"

definition TransformSizeToByte :: "int \<Rightarrow> string" where
  "TransformSizeToByte sz =
     (let (unit, n) =
        (if sz \<ge> TByte then (''TB'', sz div TByte)
         else if sz \<ge> GByte then (''GB'', sz div GByte)
         else if sz \<ge> MByte then (''MB'', sz div MByte)
         else if sz \<ge> KByte then (''KB'', sz div KByte)
         else (''B'', sz div 1))
      in fmtInt n @ '' '' @ unit)"

section \<open>Case conversion\<close>

definition isUpperByte :: "char \<Rightarrow> bool" where
  "isUpperByte c \<longleftrightarrow> 65 \<le> (of_char c :: int) \<and> (of_char c :: int) \<le> 90"

definition isLowerByte :: "char \<Rightarrow> bool" where
  "isLowerByte c \<longleftrightarrow> 97 \<le> (of_char c :: int) \<and> (of_char c :: int) \<le> 122"

text \<open>\<open>strings.TrimSpace\<close> on ASCII white space.\<close>

definition isSpaceChar :: "char \<Rightarrow> bool" where
  "isSpaceChar c \<longleftrightarrow> c = CHR '' '' \<or> (9 \<le> (of_char c :: int) \<and> (of_char c :: int) \<le> 13)"

definition TrimSpace :: "string \<Rightarrow> string" where
  "TrimSpace s = rev (dropWhile isSpaceChar (rev (dropWhile isSpaceChar s)))"

definition isSepByte :: "char \<Rightarrow> bool" where
  "isSepByte c \<longleftrightarrow> c = CHR ''_'' \<or> c = CHR '' '' \<or> c = CHR ''-'' \<or> c = CHR ''.''"

text \<open>The loop of \<open>ToCamelCase\<close>; \<open>atStart\<close> is \<open>i == 0\<close>.\<close>

fun camelLoop :: "bool \<Rightarrow> bool \<Rightarrow> string \<Rightarrow> string" where
  "camelLoop atStart capNext [] = []"
| "camelLoop atStart capNext (v # vs) =
     (let vIsCap = isUpperByte v; vIsLow = isLowerByte v;
          v' = (if capNext then (if vIsLow then upper_char v else v)
                else if atStart then (if vIsCap then lower_char v else v) else v)
      in if vIsCap \<or> vIsLow then v' # camelLoop False False vs
         else if is_digit v' then v' # camelLoop False True vs
         else camelLoop False (isSepByte v') vs)"

definition ToCamelCase :: "string \<Rightarrow> string" where
  "ToCamelCase str = (let str = TrimSpace str in if str = [] then str else camelLoop True False str)"

text \<open>The loop of \<open>ToDelimited\<close>: the previous byte of \<open>s\<close>, the current one and the rest; \<open>screaming\<close>
  is false and \<open>ignore\<close> is empty throughout.\<close>

fun delimitedLoop :: "char \<Rightarrow> char option \<Rightarrow> string \<Rightarrow> string" where
  "delimitedLoop delim prev [] = []"
| "delimitedLoop delim prev (v0 # vs) =
     (let vIsCap = isUpperByte v0; vIsLow = isLowerByte v0; vIsNum = is_digit v0;
          v = (if vIsCap then lower_char v0 else v0);
          plain = (if isSepByte v then [delim] else [v])
      in (case vs of
            [] \<Rightarrow> plain
          | nxt # _ \<Rightarrow>
              (let nextIsCap = isUpperByte nxt; nextIsLow = isLowerByte nxt; nextIsNum = is_digit nxt
               in if vIsCap \<and> (nextIsLow \<or> nextIsNum) \<or> vIsLow \<and> (nextIsCap \<or> nextIsNum) \<or> vIsNum \<and> (nextIsCap \<or> nextIsLow)
                  then (if vIsCap \<and> nextIsLow \<and> (case prev of Some p \<Rightarrow> isUpperByte p | None \<Rightarrow> False) then [delim] else []) @
                       [v] @ (if vIsLow \<or> vIsNum \<or> nextIsNum then [delim] else [])
                  else plain))
         @ delimitedLoop delim (Some v0) vs)"

definition ToDelimited :: "string \<Rightarrow> char \<Rightarrow> string" where
  "ToDelimited s delim = delimitedLoop delim None (TrimSpace s)"

section \<open>Times\<close>

definition ToUTC :: "gotime \<Rightarrow> gotime" where
  "ToUTC t = Date (tYear t) (tMonth t) (tDay t) (tHour t) (tMinute t) (tSecond t) (tNano t) 0"

definition TimeRemoveNanosecond :: "gotime \<Rightarrow> gotime" where
  "TimeRemoveNanosecond t = Date (tYear t) (tMonth t) (tDay t) (tHour t) (tMinute t) (tSecond t) 0 (tLoc t)"

text \<open>\<open>ParseTimeToString\<close> for the layouts \<open>RFC3339\<close> and \<open>RFC3339Nano\<close>.\<close>

definition ParseTimeToString :: "gotime \<Rightarrow> bool \<Rightarrow> string" where
  "ParseTimeToString date nano = (if \<not> IsZero date then FormatRFC3339 nano date else [])"

definition OneDay :: int where "OneDay = 24 * 60 * Minute"
definition OneWeek :: int where "OneWeek = 7 * OneDay"
definition OneMonth :: int where "OneMonth = 30 * OneDay"
definition OneYear :: int where "OneYear = 12 * OneMonth"

datatype timeExprError = ETimeFormat | EAtoi string | EDescriptor string

definition repeatDuration :: "string list \<Rightarrow> timeExprError + int" where
  "repeatDuration withDescriptors =
     (case withDescriptors of
        _ # d # _ \<Rightarrow>
          if d = ''daily'' then Inr OneDay
          else if d = ''weekly'' then Inr OneWeek
          else if d = ''monthly'' then Inr OneMonth
          else if d = ''yearly'' then Inr OneYear
          else (case ParseDuration d of Inr r \<Rightarrow> Inr r | Inl _ \<Rightarrow> Inl (EDescriptor d))
      | _ \<Rightarrow> Inr OneDay)"

definition AtoiE :: "string \<Rightarrow> timeExprError + int" where
  "AtoiE s = (let (v, ok) = Atoi s in if ok then Inr v else Inl (EAtoi s))"

text \<open>The clock fields of \<open>HH:mm\<close> or \<open>HH:mm:ss\<close>.\<close>

definition clockFields :: "string list \<Rightarrow> timeExprError + int \<times> int \<times> int" where
  "clockFields ts =
     (if length ts < 2 \<or> length ts > 3 then Inl ETimeFormat
      else case AtoiE (ts ! 0) of
        Inl e \<Rightarrow> Inl e
      | Inr hour \<Rightarrow> (case AtoiE (ts ! 1) of
          Inl e \<Rightarrow> Inl e
        | Inr mn \<Rightarrow> (case (if length ts = 3 then AtoiE (ts ! 2) else Inr 0) of
            Inl e \<Rightarrow> Inl e
          | Inr sec \<Rightarrow>
              if hour < 0 \<or> hour > 23 \<or> mn < 0 \<or> mn > 59 \<or> sec < 0 \<or> sec > 59 then Inl ETimeFormat
              else Inr (hour, mn, sec))))"

definition ParseDurationExpression :: "gotime \<Rightarrow> string \<Rightarrow> timeExprError + int \<times> int" where
  "ParseDurationExpression now t =
     (case ParseDuration t of
        Inr interval \<Rightarrow> Inr (interval, 0)
      | Inl _ \<Rightarrow>
          let withDescriptors = SplitByte (CHR ''@'') t;
              ts = SplitByte (CHR '':'') (withDescriptors ! 0)
          in case clockFields ts of
               Inl e \<Rightarrow> Inl e
             | Inr (hour, mn, sec) \<Rightarrow> (case repeatDuration withDescriptors of
                 Inl e \<Rightarrow> Inl e
               | Inr rep \<Rightarrow>
                   let atTime = Date (tYear now) (tMonth now) (tDay now) hour mn sec 0 (tLoc now);
                       d = (if Before now atTime then Sub atTime now else OneDay - Sub now atTime);
                       d = (if d < 0 then d * (-1) else d)
                   in Inr (d, rep)))"

section \<open>Streams of pages\<close>

text \<open>\<open>math.Ceil(float64(a) / float64(b))\<close> for a positive \<open>b\<close> (exact below \<open>2 ^ 53\<close>).\<close>

definition ceilDiv :: "int \<Rightarrow> int \<Rightarrow> int" where
  "ceilDiv a b = (a + b - 1) div b"

text \<open>\<open>int(math.Ceil(float64(records) / float64(limit)))\<close>, exact below \<open>2 ^ 53\<close>.  For a limit of zero
  the quotient is infinite or no number, and its conversion is left open by the language.\<close>

definition pagesOf :: "int \<Rightarrow> int \<Rightarrow> int option" where
  "pagesOf records limit = (if limit = 0 then None else Some (- ((- records) div limit)))"

text \<open>The loop over the elements of a page: \<open>handle\<close> works on a state and may stop with an error.\<close>

fun handleAll :: "(int \<Rightarrow> 'a \<Rightarrow> 's \<Rightarrow> 's \<times> 'e option) \<Rightarrow> int \<Rightarrow> 'a list \<Rightarrow> 's \<Rightarrow> 's \<times> 'e option" where
  "handleAll handle i [] s = (s, None)"
| "handleAll handle i (x # xs) s =
     (case handle i x s of
        (s', Some e) \<Rightarrow> (s', Some e)
      | (s', None) \<Rightarrow> handleAll handle (i + 1) xs s')"

function streamPages :: "int \<Rightarrow> int \<Rightarrow> int \<Rightarrow> ('s \<Rightarrow> int \<Rightarrow> int \<Rightarrow> 'e + 'a list) \<Rightarrow>
    (int \<Rightarrow> 'a \<Rightarrow> 's \<Rightarrow> 's \<times> 'e option) \<Rightarrow> 's \<Rightarrow> 's \<times> 'e option" where
  "streamPages totalPages page limit fetchAll handle s =
     (if page \<le> totalPages then
        (case fetchAll s page limit of
           Inl e \<Rightarrow> (s, Some e)
         | Inr lst \<Rightarrow>
             (case handleAll handle ((page - 1) * limit) lst s of
                (s', Some e) \<Rightarrow> (s', Some e)
              | (s', None) \<Rightarrow> streamPages totalPages (page + 1) limit fetchAll handle s'))
      else (s, None))"
  by pat_completeness auto
termination
  by (relation "measure (\<lambda>(tp, p, l, f, h, s). nat (tp - p + 1))") auto

declare streamPages.simps [simp del]

definition StreamAllBatch :: "int \<Rightarrow> int \<Rightarrow> int \<Rightarrow> ('s \<Rightarrow> int \<Rightarrow> int \<Rightarrow> 'e + 'a list) \<Rightarrow>
    (int \<Rightarrow> 'a \<Rightarrow> 's \<Rightarrow> 's \<times> 'e option) \<Rightarrow> 's \<Rightarrow> 's \<times> 'e option" where
  "StreamAllBatch totalData page limit fetchAll handle s =
     streamPages (ceilDiv totalData limit) page limit fetchAll handle s"

text \<open>Without a total the stream goes on until an empty page; a source that never ends keeps it
  running.\<close>

partial_function (option) StreamAllBatchDynamic :: "int \<Rightarrow> int \<Rightarrow> ('s \<Rightarrow> int \<Rightarrow> int \<Rightarrow> 'e + 'a list) \<Rightarrow>
    (int \<Rightarrow> 'a \<Rightarrow> 's \<Rightarrow> 's \<times> 'e option) \<Rightarrow> 's \<Rightarrow> ('s \<times> 'e option) option" where
  "StreamAllBatchDynamic page limit fetchAll handle s =
     (case fetchAll s page limit of
        Inl e \<Rightarrow> Some (s, Some e)
      | Inr lst \<Rightarrow>
          if lst = [] then Some (s, None)
          else (case handleAll handle ((page - 1) * limit) lst s of
                  (s', Some e) \<Rightarrow> Some (s', Some e)
                | (s', None) \<Rightarrow> StreamAllBatchDynamic (page + 1) limit fetchAll handle s'))"

declare StreamAllBatchDynamic.simps [code]

section \<open>The multi error\<close>

type_synonym multiError = "(string \<times> string) list"

definition NewMultiError :: multiError where
  "NewMultiError = []"

definition multiAppend :: "multiError \<Rightarrow> string \<Rightarrow> string option \<Rightarrow> multiError" where
  "multiAppend m key err = (case err of None \<Rightarrow> m | Some e \<Rightarrow> AList.update key e m)"

definition HasError :: "multiError \<Rightarrow> bool" where
  "HasError m \<longleftrightarrow> length m \<noteq> 0"

definition multiMerge :: "multiError \<Rightarrow> multiError \<Rightarrow> multiError" where
  "multiMerge m e = foldl (\<lambda>m (k, v). multiAppend m k (Some v)) m e"

definition multiErrorText :: "multiError \<Rightarrow> string" where
  "multiErrorText m = JoinStr [CHR 10] (map (\<lambda>(k, v). k @ '': '' @ v) m)"

section \<open>Streams visit every element once\<close>

text \<open>A page of a list that does not change while it is streamed.\<close>

definition pageOf :: "'a list \<Rightarrow> int \<Rightarrow> int \<Rightarrow> 'a list" where
  "pageOf xs page limit = take (nat limit) (drop (nat ((page - 1) * limit)) xs)"

lemma handleAll_append:
  "handleAll h i (xs @ ys) s =
     (case handleAll h i xs s of (s', Some e) \<Rightarrow> (s', Some e) | (s', None) \<Rightarrow> handleAll h (i + int (length xs)) ys s')"
  by (induction xs arbitrary: i s) (auto simp: algebra_simps split: prod.splits option.splits)

lemma le_div_iff: "0 < b \<Longrightarrow> p \<le> x div b \<longleftrightarrow> p * b \<le> x" for b :: int
proof
  assume b: "0 < b" and "p \<le> x div b"
  then have "p * b \<le> x div b * b" by (intro mult_right_mono) simp_all
  also have "\<dots> \<le> x" using div_mult_mod_eq [of x b] pos_mod_sign [OF b, of x] by linarith
  finally show "p * b \<le> x" .
qed (rule le_div_of_mult)

lemma ceilDiv_le: "0 < b \<Longrightarrow> p \<le> ceilDiv a b \<longleftrightarrow> (p - 1) * b < a"
  unfolding ceilDiv_def le_div_iff by (auto simp: algebra_simps)

lemma pagesOf_ceilDiv: "0 < limit \<Longrightarrow> pagesOf n limit = Some (ceilDiv n limit)"
proof -
  assume "0 < limit"
  have "p \<le> - ((- n) div limit) \<longleftrightarrow> (p - 1) * limit < n" for p
  proof -
    have "p \<le> - ((- n) div limit) \<longleftrightarrow> \<not> 1 - p \<le> (- n) div limit" by linarith
    also have "\<dots> \<longleftrightarrow> \<not> (1 - p) * limit \<le> - n" using \<open>0 < limit\<close> by (simp add: le_div_iff)
    finally show ?thesis by (simp add: left_diff_distrib) linarith
  qed
  then have "p \<le> - ((- n) div limit) \<longleftrightarrow> p \<le> ceilDiv n limit" for p using ceilDiv_le [OF \<open>0 < limit\<close>] by simp
  then have "- ((- n) div limit) = ceilDiv n limit" by (meson order_antisym order_refl)
  with \<open>0 < limit\<close> show ?thesis by (simp add: pagesOf_def)
qed

lemma drop_page:
  assumes "0 < limit" "1 \<le> page"
  shows "drop (nat ((page - 1) * limit)) xs = pageOf xs page limit @ drop (nat (page * limit)) xs"
proof -
  have "nat (page * limit) = nat limit + nat ((page - 1) * limit)"
    using assms by (subst nat_add_distrib [symmetric]) (auto simp: algebra_simps mult_le_cancel_right1)
  then show ?thesis by (simp add: pageOf_def flip: drop_drop)
qed

lemma pageOf_length:
  assumes "0 < limit" "1 \<le> page" "drop (nat (page * limit)) xs \<noteq> []"
  shows "int (length (pageOf xs page limit)) = limit"
proof -
  have "nat (page * limit) < length xs" using assms(3) by (simp add: not_le)
  moreover have "nat (page * limit) = nat limit + nat ((page - 1) * limit)"
    using assms by (subst nat_add_distrib [symmetric]) (auto simp: algebra_simps mult_le_cancel_right1)
  ultimately show ?thesis using assms(1) by (simp add: pageOf_def)
qed

text \<open>One page handled, then the rest of the list.\<close>

lemma handle_page:
  assumes "0 < limit" "1 \<le> page"
  shows "handleAll h ((page - 1) * limit) (drop (nat ((page - 1) * limit)) xs) s =
    (case handleAll h ((page - 1) * limit) (pageOf xs page limit) s of
       (s', Some e) \<Rightarrow> (s', Some e)
     | (s', None) \<Rightarrow> handleAll h (page * limit) (drop (nat (page * limit)) xs) s')"
proof (cases "drop (nat (page * limit)) xs = []")
  case True
  then have "drop (nat ((page - 1) * limit)) xs = pageOf xs page limit" using drop_page [OF assms, of xs] by simp
  with True show ?thesis by (auto split: prod.splits option.splits)
next
  case False
  from pageOf_length [OF assms False] have "(page - 1) * limit + int (length (pageOf xs page limit)) = page * limit"
    by (simp add: algebra_simps)
  then show ?thesis unfolding drop_page [OF assms, of xs] handleAll_append by simp
qed

text \<open>The source may depend on the state, as long as the handler keeps what the pages depend on.\<close>

lemma handleAll_inv:
  "(\<And>i x s. P s \<Longrightarrow> P (fst (handle i x s))) \<Longrightarrow> P s \<Longrightarrow> P (fst (handleAll handle i xs s))"
proof (induction xs arbitrary: i s)
  case (Cons x xs)
  then have "P (fst (handle i x s))" by blast
  then show ?case using Cons by (cases "handle i x s") (auto split: option.splits)
qed simp

lemma streamPages_source:
  assumes limit: "0 < limit" and page: "1 \<le> page" and P: "P s"
    and fetch: "\<And>s p. P s \<Longrightarrow> 1 \<le> p \<Longrightarrow> fetch s p limit = Inr (pageOf xs p limit)"
    and h: "\<And>i x s. P s \<Longrightarrow> P (fst (h i x s))"
  shows "streamPages (ceilDiv (int (length xs)) limit) page limit fetch h s =
    handleAll h ((page - 1) * limit) (drop (nat ((page - 1) * limit)) xs) s"
  using page P
proof (induction "nat (ceilDiv (int (length xs)) limit - page + 1)" arbitrary: page s)
  case 0
  then have "\<not> page \<le> ceilDiv (int (length xs)) limit" by simp
  with limit have "length xs \<le> nat ((page - 1) * limit)" by (simp add: ceilDiv_le)
  with \<open>\<not> _\<close> show ?case by (subst streamPages.simps) simp
next
  case (Suc n)
  then have le: "page \<le> ceilDiv (int (length xs)) limit" by simp
  have IH: "streamPages (ceilDiv (int (length xs)) limit) (page + 1) limit fetch h s' =
      handleAll h (page * limit) (drop (nat (page * limit)) xs) s'" if "P s'" for s'
    using Suc.hyps(1) [of "page + 1" s'] Suc.hyps(2) Suc.prems that by simp
  have "P (fst (handleAll h ((page - 1) * limit) (pageOf xs page limit) s))"
    by (rule handleAll_inv [where P = P]) (use Suc.prems(2) h in auto)
  then show ?case unfolding handle_page [OF limit Suc.prems(1)]
    by (subst streamPages.simps) (auto simp: le fetch Suc.prems IH split: prod.split option.split)
qed

lemma streamPages_list:
  assumes "0 < limit" "1 \<le> page" "\<And>s p. fetch s p limit = Inr (pageOf xs p limit)"
  shows "streamPages (ceilDiv (int (length xs)) limit) page limit fetch h s =
    handleAll h ((page - 1) * limit) (drop (nat ((page - 1) * limit)) xs) s"
  using streamPages_source [where P = "\<lambda>_. True" and fetch = fetch and h = h] assms by blast

lemma StreamAllBatchDynamic_list:
  assumes "0 < limit" "1 \<le> page" "\<And>s p. fetch s p limit = Inr (pageOf xs p limit)"
  shows "StreamAllBatchDynamic page limit fetch h s =
    Some (handleAll h ((page - 1) * limit) (drop (nat ((page - 1) * limit)) xs) s)"
  using assms(2)
proof (induction "length xs - nat ((page - 1) * limit)" arbitrary: page s rule: less_induct)
  case less
  show ?case
  proof (cases "pageOf xs page limit = []")
    case True
    then have "drop (nat ((page - 1) * limit)) xs = []" using assms(1) by (simp add: pageOf_def)
    with True show ?thesis by (subst StreamAllBatchDynamic.simps) (simp add: assms(3))
  next
    case False
    then have "nat ((page - 1) * limit) < length xs" by (auto simp: pageOf_def not_le)
    moreover have "nat ((page - 1) * limit) < nat (page * limit)"
      using assms(1) less.prems by (simp add: algebra_simps mult_pos_pos)
    ultimately have "length xs - nat ((page + 1 - 1) * limit) < length xs - nat ((page - 1) * limit)"
      by (metis add_diff_cancel_right' diff_less_mono2)
    from less.hyps [OF this] less.prems have IH: "StreamAllBatchDynamic (page + 1) limit fetch h s' =
        Some (handleAll h (page * limit) (drop (nat (page * limit)) xs) s')" for s' by simp
    show ?thesis unfolding handle_page [OF assms(1) less.prems]
      using False by (subst StreamAllBatchDynamic.simps) (simp add: assms(3) IH split: prod.split option.split)
  qed
qed

text \<open>C15: streaming a data set page by page, with its total or until an empty page, handles every
  element exactly once, in order and with its index, and stops at the first error: it is the plain
  loop over the whole set.\<close>

theorem Stream_visits_all_once:
  assumes "0 < limit" "\<And>s p. fetch s p limit = Inr (pageOf xs p limit)"
  shows "StreamAllBatch (int (length xs)) 1 limit fetch h s = handleAll h 0 xs s \<and>
    StreamAllBatchDynamic 1 limit fetch h s = Some (handleAll h 0 xs s)"
  using streamPages_list [where fetch = fetch and page = 1 and limit = limit and xs = xs]
    StreamAllBatchDynamic_list [where fetch = fetch and page = 1 and limit = limit and xs = xs] assms
  by (simp add: StreamAllBatch_def)

theorem Stream_visits_all_once_witness:
  "StreamAllBatch 5 1 2 (\<lambda>s p l. Inr (pageOf [10, 20, 30, 40, 50 :: int] p l)) (\<lambda>i x s. (s @ [(i, x)], None :: string option)) [] =
     ([(0, 10), (1, 20), (2, 30), (3, 40), (4, 50)], None)"
  using Stream_visits_all_once [where limit = 2 and xs = "[10, 20, 30, 40, 50 :: int]" and s = "[]"
      and fetch = "\<lambda>s p l. Inr (pageOf [10, 20, 30, 40, 50] p l)" and h = "\<lambda>i x s. (s @ [(i, x)], None :: string option)"]
  by simp


section \<open>The daily time expression\<close>

lemma clockFields_range:
  "clockFields ts = Inr (h, m, s) \<Longrightarrow> 0 \<le> h \<and> h \<le> 23 \<and> 0 \<le> m \<and> m \<le> 59 \<and> 0 \<le> s \<and> s \<le> 59"
  by (auto simp: clockFields_def split: if_splits sum.splits)

lemma same_day_distance:
  assumes "valid_time now" "0 \<le> h" "h \<le> 23" "0 \<le> m" "m \<le> 59" "0 \<le> s" "s \<le> 59"
  defines "at' \<equiv> Date (tYear now) (tMonth now) (tDay now) h m s 0 (tLoc now)"
  shows "\<bar>instant at' - instant now\<bar> < OneDay"
proof -
  have v: "1 \<le> tMonth now" "tMonth now \<le> 12" "1 \<le> tDay now" "tDay now \<le> daysIn (tYear now) (tMonth now)"
    "0 \<le> tHour now" "tHour now \<le> 23" "0 \<le> tMinute now" "tMinute now \<le> 59" "0 \<le> tSecond now" "tSecond now \<le> 59"
    "0 \<le> tNano now" "tNano now < 1000000000"
    using assms(1) by (auto simp: valid_time_def)
  have at: "at' = \<lparr>tYear = tYear now, tMonth = tMonth now, tDay = tDay now, tHour = h, tMinute = m,
      tSecond = s, tNano = 0, tLoc = tLoc now\<rparr>"
    unfolding at'_def using v assms by (intro Date_id) auto
  show ?thesis using v assms(2-7)
    by (simp add: at instant_def wallSeconds_def OneDay_def Minute_def Second_def)
qed

text \<open>For an expression \<open>HH:mm[:ss][@repeat]\<close> the first delay is positive, at most a day, and
  ends exactly at that clock time of today or of the day after.\<close>

theorem ParseDurationExpression_next_clock:
  assumes "valid_time now" "ParseDurationExpression now t = Inr (d, rep)" "ParseDuration t = Inl err"
  shows "\<exists>h m s. clockFields (SplitByte (CHR '':'') (SplitByte (CHR ''@'') t ! 0)) = Inr (h, m, s) \<and> 0 < d \<and> d \<le> OneDay \<and>
    instant (Add now d) \<in> {instant (Date (tYear now) (tMonth now) (tDay now) h m s 0 (tLoc now)),
      instant (Date (tYear now) (tMonth now) (tDay now) h m s 0 (tLoc now)) + OneDay}"
proof -
  obtain h m s where f: "clockFields (SplitByte (CHR '':'') (SplitByte (CHR ''@'') t ! 0)) = Inr (h, m, s)"
    using assms(2,3) by (auto simp: ParseDurationExpression_def Let_def split: sum.splits)
  let ?at = "Date (tYear now) (tMonth now) (tDay now) h m s 0 (tLoc now)"
  define d0 where "d0 = (if Before now ?at then Sub ?at now else OneDay - Sub now ?at)"
  have d: "d = (if d0 < 0 then d0 * (-1) else d0)"
    using assms(2,3) f by (auto simp: ParseDurationExpression_def Let_def d0_def split: sum.splits)
  have b: "\<bar>instant ?at - instant now\<bar> < OneDay"
    by (rule same_day_distance [OF assms(1)]) (use clockFields_range [OF f] in auto)
  then have c: "Sub ?at now = instant ?at - instant now" "Sub now ?at = instant now - instant ?at"
    unfolding Sub_def by (auto simp: clamp64_def maxInt64_def minInt64_def OneDay_def Minute_def Second_def)
  have add: "instant (Add now d) = instant now + d" by (rule instant_Add [OF assms(1)])
  show ?thesis
  proof (cases "Before now ?at")
    case True
    then have "d = instant ?at - instant now" "0 < d" using c d by (auto simp: d0_def Before_def)
    with f b add show ?thesis by auto
  next
    case False
    then have "d = OneDay - (instant now - instant ?at)" "0 < d" "d \<le> OneDay"
      using c d b by (auto simp: d0_def Before_def)
    with f add show ?thesis by auto
  qed
qed

theorem ParseDurationExpression_next_clock_witness:
  "ParseDurationExpression (Date 2024 3 1 20 0 0 0 0) ''07:30@weekly'' = Inr (41400000000000, OneWeek) \<and>
   instant (Add (Date 2024 3 1 20 0 0 0 0) 41400000000000) \<in> {instant (Date 2024 3 1 7 30 0 0 0), instant (Date 2024 3 1 7 30 0 0 0) + OneDay}"
proof -
  have e: "valid_time (Date 2024 3 1 20 0 0 0 0)"
    "ParseDurationExpression (Date 2024 3 1 20 0 0 0 0) ''07:30@weekly'' = Inr (41400000000000, OneWeek)"
    "ParseDuration ''07:30@weekly'' = Inl EUnknownUnit"
    "clockFields (SplitByte (CHR '':'') (SplitByte (CHR ''@'') ''07:30@weekly'' ! 0)) = Inr (7, 30, 0)"
    "tYear (Date 2024 3 1 20 0 0 0 0) = 2024" "tMonth (Date 2024 3 1 20 0 0 0 0) = 3"
    "tDay (Date 2024 3 1 20 0 0 0 0) = 1" "tLoc (Date 2024 3 1 20 0 0 0 0) = 0"
    by code_simp+
  from ParseDurationExpression_next_clock [OF e(1-3)] e show ?thesis by auto
qed

section \<open>Styles of names\<close>

text \<open>Reference for \<open>ToDelimited\<close>: where a word ends between two bytes, given the byte after them.  A word
  ends where a small letter meets a capital or a digit, a digit meets a letter, a capital meets a digit,
  and before the last of several capitals that a small letter follows.\<close>

definition wordBreak :: "char \<Rightarrow> char \<Rightarrow> string \<Rightarrow> bool" where
  "wordBreak a b rest \<longleftrightarrow>
     isLowerByte a \<and> (isUpperByte b \<or> is_digit b) \<or> is_digit a \<and> (isUpperByte b \<or> isLowerByte b) \<or> isUpperByte a \<and> is_digit b \<or>
     isUpperByte a \<and> isUpperByte b \<and> rest \<noteq> [] \<and> isLowerByte (hd rest)"

definition plainByte :: "char \<Rightarrow> char \<Rightarrow> char" where
  "plainByte delim c = (if isSepByte c then delim else if isUpperByte c then lower_char c else c)"

fun splitWords :: "char \<Rightarrow> string \<Rightarrow> string" where
  "splitWords delim [] = []"
| "splitWords delim [a] = [plainByte delim a]"
| "splitWords delim (a # b # rest) = plainByte delim a # (if wordBreak a b rest then [delim] else []) @ splitWords delim (b # rest)"

text \<open>A byte is of one kind.\<close>

datatype byteKind = Capital | Small | Digit | Separator | OtherByte

definition kindOf :: "char \<Rightarrow> byteKind" where
  "kindOf c = (if isUpperByte c then Capital else if isLowerByte c then Small else if is_digit c then Digit
     else if isSepByte c then Separator else OtherByte)"

lemma kinds:
  "isUpperByte c \<longleftrightarrow> kindOf c = Capital" "isLowerByte c \<longleftrightarrow> kindOf c = Small" "is_digit c \<longleftrightarrow> kindOf c = Digit"
  "isSepByte c \<longleftrightarrow> kindOf c = Separator"
  by (auto simp: kindOf_def isUpperByte_def isLowerByte_def is_digit_def isSepByte_def)

lemma kindOf_lower: "kindOf c = Capital \<Longrightarrow> kindOf (lower_char c) = Small"
proof -
  have "isUpperByte c \<Longrightarrow> isLowerByte (lower_char c)" by (auto simp: isUpperByte_def isLowerByte_def lower_char_def)
  then show "kindOf c = Capital \<Longrightarrow> kindOf (lower_char c) = Small" by (simp add: kinds)
qed

lemma upper_of_lower: "kindOf c = Capital \<Longrightarrow> upper_char (lower_char c) = c"
proof -
  have "isUpperByte c \<Longrightarrow> upper_char (lower_char c) = c" by (auto simp: isUpperByte_def lower_char_def upper_char_def)
  then show "kindOf c = Capital \<Longrightarrow> upper_char (lower_char c) = c" by (simp add: kinds)
qed

text \<open>The loop looks back for several capitals, the reference looks ahead.\<close>

definition backBreak :: "char option \<Rightarrow> string \<Rightarrow> bool" where
  "backBreak prev s \<longleftrightarrow> (case (prev, s) of (Some p, a # b # _) \<Rightarrow> isUpperByte p \<and> isUpperByte a \<and> isLowerByte b | _ \<Rightarrow> False)"

lemma delimitedLoop_splitWords:
  "delimitedLoop delim prev s = (if backBreak prev s then [delim] else []) @ splitWords delim s"
proof (induction delim s arbitrary: prev rule: splitWords.induct)
  case (2 delim a)
  then show ?case using kindOf_lower [of a] by (cases "kindOf a") (simp_all add: backBreak_def plainByte_def kinds split: option.splits)
next
  case (3 delim a b rest)
  have "backBreak (Some a) (b # rest) \<longleftrightarrow> kindOf a = Capital \<and> kindOf b = Capital \<and> rest \<noteq> [] \<and> kindOf (hd rest) = Small"
    by (cases rest) (auto simp: backBreak_def kinds)
  moreover have "backBreak prev (a # b # rest) \<longleftrightarrow>
      (case prev of None \<Rightarrow> False | Some p \<Rightarrow> kindOf p = Capital) \<and> kindOf a = Capital \<and> kindOf b = Small"
    by (auto simp: backBreak_def kinds split: option.splits)
  ultimately show ?case unfolding delimitedLoop.simps(2) [of delim prev a "b # rest"] 3 splitWords.simps(3) using kindOf_lower [of a]
    by (cases "kindOf a"; cases "kindOf b") (auto simp: Let_def plainByte_def wordBreak_def kinds split: option.splits)
qed (simp add: backBreak_def split: option.split)

text \<open>C37: \<open>ToDelimited\<close> writes the trimmed name byte by byte, capitals as small letters and each separator as the
  delimiter, and puts the delimiter in at the ends of words and nowhere else.\<close>

theorem ToDelimited_splits_words:
  "ToDelimited s delim = splitWords delim (TrimSpace s)"
  by (simp add: ToDelimited_def delimitedLoop_splitWords backBreak_def)

text \<open>Names in camel case: letters only, the first one small, and no two capitals side by side.\<close>

fun camelTail :: "string \<Rightarrow> bool" where
  "camelTail [] \<longleftrightarrow> True"
| "camelTail [a] \<longleftrightarrow> isLowerByte a \<or> isUpperByte a"
| "camelTail (a # b # rest) \<longleftrightarrow> (isLowerByte a \<or> isUpperByte a) \<and> \<not> (isUpperByte a \<and> isUpperByte b) \<and> camelTail (b # rest)"

definition camelName :: "string \<Rightarrow> bool" where
  "camelName s \<longleftrightarrow> s \<noteq> [] \<and> isLowerByte (hd s) \<and> camelTail s"

lemma camelTail_hd: "camelTail s \<Longrightarrow> s \<noteq> [] \<Longrightarrow> kindOf (hd s) = Small \<or> kindOf (hd s) = Capital"
  by (induction s rule: camelTail.induct) (auto simp: kinds)

lemma camelLoop_letter:
  assumes "kindOf a = Small \<or> kindOf a = Capital"
  shows "camelLoop atStart (isUpperByte a) (plainByte delim a # t) = a # camelLoop False False t"
  using assms kindOf_lower [of a] upper_of_lower [of a] by (auto simp: plainByte_def kinds)

lemma camelLoop_splitWords:
  assumes "kindOf delim = Separator" "camelTail s" "s \<noteq> []"
  shows "camelLoop atStart (isUpperByte (hd s)) (splitWords delim s) = s"
  using assms
proof (induction delim s arbitrary: atStart rule: splitWords.induct)
  case (2 delim a)
  then show ?case using camelLoop_letter [of a atStart delim "[]"] camelTail_hd [of "[a]"] by simp
next
  case (3 delim a b rest)
  have ih: "camelLoop False (isUpperByte b) (splitWords delim (b # rest)) = b # rest" using 3 by simp
  have a: "kindOf a = Small \<or> kindOf a = Capital" "kindOf b = Small \<or> kindOf b = Capital" "\<not> (kindOf a = Capital \<and> kindOf b = Capital)"
    using "3.prems" camelTail_hd [of "b # rest"] by (auto simp: kinds)
  then have "wordBreak a b rest \<longleftrightarrow> isUpperByte b" by (auto simp: wordBreak_def kinds)
  moreover have "camelLoop False False (delim # t) = camelLoop False True t" for t using "3.prems"(1) by (simp add: kinds)
  ultimately show ?case using ih camelLoop_letter [OF a(1)] by (cases "isUpperByte b") simp_all
qed simp

lemma TrimSpace_id:
  assumes "s \<noteq> []" "\<not> isSpaceChar (hd s)" "\<not> isSpaceChar (last s)"
  shows "TrimSpace s = s"
proof -
  have "dropWhile isSpaceChar s = s" "dropWhile isSpaceChar (rev s) = rev s"
    using assms by (simp_all add: dropWhile_eq_self_iff hd_rev)
  then show ?thesis by (simp add: TrimSpace_def)
qed

lemma letter_not_space: "kindOf c = Small \<or> kindOf c = Capital \<Longrightarrow> \<not> isSpaceChar c"
proof -
  have "isLowerByte c \<or> isUpperByte c \<Longrightarrow> \<not> isSpaceChar c" by (auto simp: isLowerByte_def isUpperByte_def isSpaceChar_def)
  then show "kindOf c = Small \<or> kindOf c = Capital \<Longrightarrow> \<not> isSpaceChar c" by (simp add: kinds)
qed

lemma camelTail_last: "camelTail s \<Longrightarrow> s \<noteq> [] \<Longrightarrow> kindOf (last s) = Small \<or> kindOf (last s) = Capital"
  by (induction s rule: camelTail.induct) (auto simp: kinds)

lemma plainByte_letter: "kindOf a = Small \<or> kindOf a = Capital \<Longrightarrow> kindOf (plainByte delim a) = Small"
  using kindOf_lower [of a] by (auto simp: plainByte_def kinds)

lemma splitWords_ends:
  assumes "camelTail s" "s \<noteq> []"
  shows "splitWords delim s \<noteq> [] \<and> hd (splitWords delim s) = plainByte delim (hd s) \<and> last (splitWords delim s) = plainByte delim (last s)"
  using assms by (induction delim s rule: splitWords.induct) auto

text \<open>C38: A name in camel case comes back when it is written with separators and read again: \<open>ToCamelCase\<close>
  after \<open>ToDelimited\<close> with \<open>_\<close>, \<open>-\<close>, a dot or a space is the name.\<close>

theorem ToCamelCase_ToDelimited:
  assumes "camelName s" "isSepByte delim"
  shows "ToCamelCase (ToDelimited s delim) = s"
proof -
  have s: "s \<noteq> []" "camelTail s" "\<not> isUpperByte (hd s)" using assms(1) by (auto simp: camelName_def kinds)
  have "TrimSpace s = s" using s camelTail_hd camelTail_last letter_not_space by (intro TrimSpace_id) blast+
  then have d: "ToDelimited s delim = splitWords delim s" by (simp add: ToDelimited_def delimitedLoop_splitWords backBreak_def)
  note ends = splitWords_ends [OF s(2,1), of delim]
  have "TrimSpace (splitWords delim s) = splitWords delim s"
    using ends camelTail_hd [OF s(2,1)] camelTail_last [OF s(2,1)] plainByte_letter letter_not_space by (intro TrimSpace_id) simp_all
  then show ?thesis using camelLoop_splitWords [of delim s True] s ends assms(2) by (simp add: d ToCamelCase_def Let_def kinds)
qed

theorem ToCamelCase_ToDelimited_witness:
  "ToDelimited ''userProfileName'' CHR ''-'' = ''user-profile-name'' \<and> ToCamelCase (ToDelimited ''userProfileName'' CHR ''-'') = ''userProfileName''"
proof
  show "ToDelimited ''userProfileName'' CHR ''-'' = ''user-profile-name''" by code_simp
  show "ToCamelCase (ToDelimited ''userProfileName'' CHR ''-'') = ''userProfileName''"
    by (rule ToCamelCase_ToDelimited) code_simp+
qed

end
