(* ===== verification/Task_Model.thy ===== *)
theory Task_Model
  imports Cron_Next Candi_Helper
begin

text \<open>
  The data of the task queue worker (\<open>src/codebase/app/task_queue_worker\<close>): \<open>types.go\<close>,
  \<open>persistent_model.go\<close>, \<open>helper.go\<close> and the filters of \<open>graphql_types.go\<close>.  Maps from strings to
  dynamically typed values are association lists, in the order in which the program iterates over
  them.  A call that reads the clock takes its readings as arguments.  Calls that can panic or run
  forever return an \<open>outcome\<close>.
\<close>

section \<open>Statuses and counters\<close>

definition StatusRetrying :: string where "StatusRetrying = ''RETRYING''"
definition StatusFailure :: string where "StatusFailure = ''FAILURE''"
definition StatusSuccess :: string where "StatusSuccess = ''SUCCESS''"
definition StatusQueueing :: string where "StatusQueueing = ''QUEUEING''"
definition StatusStopped :: string where "StatusStopped = ''STOPPED''"
definition StatusHold :: string where "StatusHold = ''HOLD''"

lemmas status_defs = StatusRetrying_def StatusFailure_def StatusSuccess_def StatusQueueing_def
  StatusStopped_def StatusHold_def

definition defaultInterval :: int where
  "defaultInterval = 500 * Millisecond"

definition normalizeCount :: "int \<Rightarrow> int" where
  "normalizeCount count = (if count < 0 then 0 else count)"

section \<open>Filters\<close>

record jobFilter =
  fPage :: int
  fLimit :: int
  fSort :: string
  fTaskName :: string
  fTaskNameList :: "string list"
  fExcludeTaskNameList :: "string list"
  fSearch :: "string option"
  fJobID :: "string option"
  fStatus :: "string option"
  fStatuses :: "string list"
  fShowAll :: bool
  fStartDate :: string
  fEndDate :: string
  fBeforeCreatedAt :: "gotime option"
  fCount :: int
  fMaxRetry :: "int option"
  fSecondary :: bool

definition emptyFilter :: jobFilter where
  "emptyFilter = \<lparr>fPage = 0, fLimit = 0, fSort = [], fTaskName = [], fTaskNameList = [], fExcludeTaskNameList = [],
     fSearch = None, fJobID = None, fStatus = None, fStatuses = [], fShowAll = False, fStartDate = [], fEndDate = [],
     fBeforeCreatedAt = None, fCount = 0, fMaxRetry = None, fSecondary = False\<rparr>"

definition CalculateOffset :: "jobFilter \<Rightarrow> int" where
  "CalculateOffset f = (fPage f - 1) * fLimit f"

definition parseOrZero :: "string \<Rightarrow> gotime" where
  "parseOrZero s = (case ParseRFC3339 s of None \<Rightarrow> zeroTime | Some t \<Rightarrow> t)"

definition ParseStartEndDate :: "jobFilter \<Rightarrow> gotime \<times> gotime" where
  "ParseStartEndDate f = (parseOrZero (fStartDate f), parseOrZero (fEndDate f))"

record getAllJobInput =
  gaTaskName :: "string option"
  gaPage :: "int option"
  gaLimit :: "int option"
  gaSearch :: "string option"
  gaJobID :: "string option"
  gaStatuses :: "string list option"
  gaStartDate :: "string option"
  gaEndDate :: "string option"

definition positiveOr :: "int \<Rightarrow> int option \<Rightarrow> int" where
  "positiveOr d p = (case p of Some v \<Rightarrow> if v > 0 then v else d | None \<Rightarrow> d)"

definition GetAllJobInput_ToFilter :: "getAllJobInput \<Rightarrow> jobFilter" where
  "GetAllJobInput_ToFilter i = emptyFilter\<lparr>fPage := positiveOr 1 (gaPage i), fLimit := positiveOr 10 (gaLimit i),
     fSearch := gaSearch i, fTaskName := PtrToString (gaTaskName i), fJobID := gaJobID i,
     fStatuses := UnwrapPtr [] (gaStatuses i), fStartDate := PtrToString (gaStartDate i),
     fEndDate := PtrToString (gaEndDate i)\<rparr>"

record filterMutateInput =
  fmTaskName :: string
  fmSearch :: "string option"
  fmJobID :: "string option"
  fmStatuses :: "string list"
  fmStartDate :: "string option"
  fmEndDate :: "string option"

definition FilterMutate_ToFilter :: "filterMutateInput \<Rightarrow> jobFilter" where
  "FilterMutate_ToFilter i = emptyFilter\<lparr>fPage := 1, fLimit := 10, fSearch := fmSearch i, fTaskName := fmTaskName i,
     fJobID := fmJobID i, fStatuses := fmStatuses i, fStartDate := PtrToString (fmStartDate i),
     fEndDate := PtrToString (fmEndDate i)\<rparr>"

section \<open>Summaries\<close>

record taskSummary =
  sID :: string
  sTaskName :: string
  sSuccess :: int
  sQueueing :: int
  sRetrying :: int
  sFailure :: int
  sStopped :: int
  sHold :: int
  sIsLoading :: bool
  sIsHold :: bool
  sLoadingMessage :: string

definition emptySummary :: taskSummary where
  "emptySummary = \<lparr>sID = [], sTaskName = [], sSuccess = 0, sQueueing = 0, sRetrying = 0, sFailure = 0, sStopped = 0,
     sHold = 0, sIsLoading = False, sIsHold = False, sLoadingMessage = []\<rparr>"

definition CountTotalJob :: "taskSummary \<Rightarrow> int" where
  "CountTotalJob s = normalizeCount (sSuccess s) + normalizeCount (sQueueing s) + normalizeCount (sRetrying s) +
     normalizeCount (sFailure s) + normalizeCount (sStopped s) + normalizeCount (sHold s)"

record summaryDetail =
  sdFailure :: int
  sdRetrying :: int
  sdSuccess :: int
  sdQueueing :: int
  sdStopped :: int
  sdHold :: int

definition ToSummaryDetail :: "taskSummary \<Rightarrow> summaryDetail" where
  "ToSummaryDetail s = \<lparr>sdFailure = normalizeCount (sFailure s), sdRetrying = normalizeCount (sRetrying s),
     sdSuccess = normalizeCount (sSuccess s), sdQueueing = normalizeCount (sQueueing s),
     sdStopped = normalizeCount (sStopped s), sdHold = normalizeCount (sHold s)\<rparr>"

record taskResolver =
  trName :: string
  trModuleName :: string
  trTotalJobs :: int
  trIsLoading :: bool
  trLoadingMessage :: string
  trIsHold :: bool
  trDetail :: summaryDetail

text \<open>The registry gives the module of a registered task; for an unregistered task the resolver is
  the zero value.\<close>

definition emptyResolver :: taskResolver where
  "emptyResolver = \<lparr>trName = [], trModuleName = [], trTotalJobs = 0, trIsLoading = False, trLoadingMessage = [],
     trIsHold = False, trDetail = \<lparr>sdFailure = 0, sdRetrying = 0, sdSuccess = 0, sdQueueing = 0, sdStopped = 0, sdHold = 0\<rparr>\<rparr>"

definition ToTaskResolver :: "(string \<rightharpoonup> string) \<Rightarrow> taskSummary \<Rightarrow> taskResolver" where
  "ToTaskResolver moduleOf s =
     (case moduleOf (sTaskName s) of
        None \<Rightarrow> emptyResolver
      | Some m \<Rightarrow> \<lparr>trName = sTaskName s, trModuleName = m, trTotalJobs = CountTotalJob s,
          trIsLoading = sIsLoading s, trLoadingMessage = sLoadingMessage s, trIsHold = sIsHold s,
          trDetail = ToSummaryDetail s\<rparr>)"

definition ToMapResult :: "taskSummary \<Rightarrow> (string \<times> int) list" where
  "ToMapResult s =
     [(ToUpper StatusFailure, sFailure s), (ToUpper StatusRetrying, sRetrying s), (ToUpper StatusSuccess, sSuccess s),
      (ToUpper StatusQueueing, sQueueing s), (ToUpper StatusStopped, sStopped s), (ToUpper StatusHold, sHold s)]"

text \<open>Reading a Go map of counters.\<close>

definition getCount :: "(string \<times> int) list \<Rightarrow> string \<Rightarrow> int" where
  "getCount m k = (case map_of m k of None \<Rightarrow> 0 | Some v \<Rightarrow> v)"

definition SetValue :: "taskSummary \<Rightarrow> (string \<times> int) list \<Rightarrow> taskSummary" where
  "SetValue s source = s\<lparr>sFailure := getCount source (ToUpper StatusFailure),
     sRetrying := getCount source (ToUpper StatusRetrying), sSuccess := getCount source (ToUpper StatusSuccess),
     sQueueing := getCount source (ToUpper StatusQueueing), sStopped := getCount source (ToUpper StatusStopped),
     sHold := getCount source (ToUpper StatusHold)\<rparr>"

definition ApplyFilterStatus :: "taskSummary \<Rightarrow> string list \<Rightarrow> taskSummary" where
  "ApplyFilterStatus s statuses =
     (if statuses = [] then s
      else SetValue s (foldl (\<lambda>m st. AList.update (ToUpper st) (getCount (ToMapResult s) (ToUpper st)) m) [] statuses))"

definition GetColumnName :: "string list" where
  "GetColumnName = [''id'', ''success'', ''queueing'', ''retrying'', ''failure'', ''stopped'', ''is_loading'',
     ''is_hold'', ''hold'', ''loading_message'']"

definition getVal :: "(string \<times> gval) list \<Rightarrow> string \<Rightarrow> gval" where
  "getVal m k = (case map_of m k of None \<Rightarrow> VNil | Some v \<Rightarrow> v)"

definition ToArgs :: "taskSummary \<Rightarrow> (string \<times> gval) list \<Rightarrow> gval list" where
  "ToArgs s val =
     [VStr (sTaskName s), VInt (ToInt (getVal val ''success'')), VInt (ToInt (getVal val ''queueing'')),
      VInt (ToInt (getVal val ''retrying'')), VInt (ToInt (getVal val ''failure'')),
      VInt (ToInt (getVal val ''stopped'')), getVal val ''is_loading'', getVal val ''is_hold'',
      getVal val ''hold'', getVal val ''loading_message'']"

section \<open>Jobs\<close>

record retryHistory =
  rhErrorStack :: string
  rhStatus :: string
  rhError :: string
  rhResult :: string
  rhTraceID :: string
  rhStartAt :: gotime
  rhEndAt :: gotime

record job =
  jID :: string
  jTaskName :: string
  jArguments :: string
  jRetries :: int
  jMaxRetry :: int
  jInterval :: string
  jCreatedAt :: gotime
  jUpdatedAt :: gotime
  jFinishedAt :: gotime
  jNextRunningAt :: gotime
  jStatus :: string
  jError :: string
  jErrorStack :: string
  jResult :: string
  jTraceID :: string
  jCurrentProgress :: int
  jMaxProgress :: int
  jRetryHistories :: "retryHistory list"
  jDirect :: bool

definition emptyJob :: job where
  "emptyJob = \<lparr>jID = [], jTaskName = [], jArguments = [], jRetries = 0, jMaxRetry = 0, jInterval = [],
     jCreatedAt = zeroTime, jUpdatedAt = zeroTime, jFinishedAt = zeroTime, jNextRunningAt = zeroTime, jStatus = [],
     jError = [], jErrorStack = [], jResult = [], jTraceID = [], jCurrentProgress = 0, jMaxProgress = 0,
     jRetryHistories = [], jDirect = False\<rparr>"

definition Job_toMap :: "job \<Rightarrow> (string \<times> gval) list" where
  "Job_toMap j =
     [(''task_name'', VStr (jTaskName j)), (''arguments'', VStr (jArguments j)), (''retries'', VInt (jRetries j)),
      (''max_retry'', VInt (jMaxRetry j)), (''interval'', VStr (jInterval j)), (''updated_at'', VTime (jUpdatedAt j)),
      (''finished_at'', VTime (jFinishedAt j)), (''status'', VStr (jStatus j)), (''error'', VStr (jError j)),
      (''trace_id'', VStr (jTraceID j))]"

definition IsCronMode :: "job \<Rightarrow> bool" where
  "IsCronMode j = (case ParseDuration (jInterval j) of Inl _ \<Rightarrow> True | Inr _ \<Rightarrow> False)"

datatype 'a outcome = Returns 'a | Panics | Diverges

datatype jobError = EParse durationError | ECron cronError | EStore string | ENotFound | EInactive | EOther string

text \<open>The readings of the clock are \<open>now1\<close> for the comparison and then \<open>now2\<close> and \<open>now3\<close>.  The
  result is the interval, the error and the job as the method leaves it.\<close>

definition ParseNextRunningInterval :: "gotime \<Rightarrow> gotime \<Rightarrow> gotime \<Rightarrow> job \<Rightarrow> (int \<times> jobError option \<times> job) outcome" where
  "ParseNextRunningInterval now1 now2 now3 j =
     (if \<not> IsZero (jNextRunningAt j) \<and> After (jNextRunningAt j) now1
      then Returns (Sub (jNextRunningAt j) now2, None, j)
      else
        let (interval, failed) = (case ParseDuration (jInterval j) of Inl _ \<Rightarrow> (0, True) | Inr d \<Rightarrow> (d, False))
        in if failed \<or> interval \<le> 0 then
             (case Parse (jInterval j) of
                Inl e \<Rightarrow> Returns (interval, Some (ECron e), j)
              | Inr schedule \<Rightarrow>
                  (case NextInterval schedule now2 of
                     None \<Rightarrow> Diverges
                   | Some (Inl _) \<Rightarrow> Panics
                   | Some (Inr (d, _)) \<Rightarrow> Returns (d, None, j\<lparr>jNextRunningAt := Add now3 d\<rparr>)))
           else Returns (interval, None, j\<lparr>jNextRunningAt := Add now3 interval\<rparr>))"

section \<open>Configurations\<close>

record configuration =
  cKey :: string
  cName :: string
  cValue :: string
  cIsActive :: bool

definition Configurations_ToMap :: "configuration list \<Rightarrow> (string \<times> string) list" where
  "Configurations_ToMap c = foldl (\<lambda>mp cfg. AList.update (cKey cfg) (cValue cfg) mp) [] c"

end
