(* ===== verification/Task_SQL.thy ===== *)
theory Task_SQL
  imports Task_Model
begin

text \<open>
  \<open>SQLPersistent\<close> of the task queue worker (\<open>persistent_sql.go\<close>, \<open>persistent_sql_tools.go\<close>).  The
  first part builds the texts of the queries exactly as the code does.  The second part gives the
  operations their effect on the tables: the rows of the jobs, the histories, the summaries and the
  configurations.  The database itself is not code of the repository: its answers follow the SQL
  standard for the statements used, \<open>LIKE\<close> is a parameter because the three drivers differ in it,
  and a database that cannot be reached answers every statement with the error \<open>dbErr\<close>.  The number
  of affected rows of an \<open>UPDATE\<close> is the number of rows that match.
\<close>

section \<open>Query texts\<close>

definition quoteChar :: char where "quoteChar = CHR 0x27"

definition jobModelName :: string where "jobModelName = ''task_queue_worker_jobs''"
definition jobSummaryModelName :: string where "jobSummaryModelName = ''task_queue_worker_job_summaries''"
definition jobHistoryModel :: string where "jobHistoryModel = ''task_queue_worker_job_histories''"
definition configurationModelName :: string where "configurationModelName = ''task_queue_worker_configurations''"

definition formatColumnName :: "string \<Rightarrow> string list \<Rightarrow> string" where
  "formatColumnName driver columns =
     JoinStr '','' (if driver = ''mysql'' then map (\<lambda>name. ''`'' @ TrimSpace name @ ''`'') columns else columns)"

definition toMultiParamQuery :: "string list \<Rightarrow> string" where
  "toMultiParamQuery params = '' ('' @ JoinStr '','' (map (\<lambda>p. [quoteChar] @ p @ [quoteChar]) params) @ '') ''"

text \<open>\<open>queryReplacer\<close>: every quote doubled.\<close>

definition queryReplace :: "string \<Rightarrow> string" where
  "queryReplace s = concat (map (\<lambda>c. if c = quoteChar then [quoteChar, quoteChar] else [c]) s)"

definition sqlQuoted :: "string \<Rightarrow> string" where
  "sqlQuoted s = [quoteChar] @ s @ [quoteChar]"

definition parameterize :: "string \<Rightarrow> nat \<Rightarrow> string" where
  "parameterize driver lenCols =
     (if driver = ''postgres'' then JoinStr '','' (map (\<lambda>i. CHR ''$'' # Itoa_nat (i + 1)) [0..<lenCols])
      else if driver = ''mysql'' \<or> driver = ''sqlite3'' then JoinStr '','' (replicate lenCols ''?'')
      else [])"

definition parameterizeByColumnAndNumber :: "string \<Rightarrow> string \<Rightarrow> nat \<Rightarrow> string" where
  "parameterizeByColumnAndNumber driver column number =
     (if driver = ''postgres'' then [CHR 0x22] @ column @ [CHR 0x22] @ ''=$'' @ Itoa_nat number
      else if driver = ''mysql'' \<or> driver = ''sqlite3'' then formatColumnName driver [column] @ ''=?''
      else [])"

definition parameterizeForUpdate :: "string \<Rightarrow> string list \<Rightarrow> string" where
  "parameterizeForUpdate driver columns =
     (if driver = ''postgres'' then
        JoinStr '','' (map (\<lambda>(i, c). [CHR 0x22] @ c @ [CHR 0x22] @ ''=$'' @ Itoa_nat (i + 1)) (zip [0..<length columns] columns))
      else if driver = ''mysql'' \<or> driver = ''sqlite3'' then
        JoinStr '','' (map (\<lambda>c. formatColumnName driver [c] @ ''=?'') columns)
      else [])"

record sqlQueryMigration =
  conditionQuery :: string
  executionQuery :: string

definition generateAdditionalColumnQuery :: "string \<Rightarrow> string \<Rightarrow> string \<Rightarrow> string \<Rightarrow> sqlQueryMigration" where
  "generateAdditionalColumnQuery driver tableName newColumnName dataType =
     (if driver = ''postgres'' then
        \<lparr>conditionQuery = ''SELECT column_name FROM information_schema.columns WHERE table_name='' @ sqlQuoted tableName @
           '' AND column_name='' @ sqlQuoted newColumnName @ '' AND table_catalog=(SELECT current_database());'',
         executionQuery = ''ALTER TABLE '' @ tableName @ '' ADD COLUMN IF NOT EXISTS '' @ [CHR 0x22] @ newColumnName @ [CHR 0x22] @
           '' '' @ dataType\<rparr>
      else if driver = ''sqlite3'' then
        \<lparr>conditionQuery = ''SELECT name FROM pragma_table_info('' @ sqlQuoted tableName @ '') WHERE name='' @ sqlQuoted newColumnName,
         executionQuery = ''ALTER TABLE '' @ tableName @ '' ADD COLUMN '' @ [CHR 0x22] @ newColumnName @ [CHR 0x22] @ '' '' @ dataType\<rparr>
      else if driver = ''mysql'' then
        let dataType = (if dataType = ''TIMESTAMPTZ'' then ''DATETIME(3)'' else dataType) in
        \<lparr>conditionQuery = ''SELECT `COLUMN_NAME` FROM `INFORMATION_SCHEMA`.`COLUMNS` WHERE `TABLE_NAME` = '' @ sqlQuoted tableName @
           '' AND `COLUMN_NAME` = '' @ sqlQuoted newColumnName @ '' AND `TABLE_SCHEMA` = (SELECT DATABASE());'',
         executionQuery = ''ALTER TABLE '' @ tableName @ '' ADD COLUMN `'' @ newColumnName @ ''` '' @ dataType\<rparr>
      else \<lparr>conditionQuery = [], executionQuery = []\<rparr>)"

text \<open>The conditions of a filter, in the order of \<open>toQueryFilter\<close>, and their texts.\<close>

datatype sqlCond =
    CTaskName string
  | CTaskIn "string list"
  | CTaskNotIn "string list"
  | CJobID string
  | CSearch string
  | CStatusIn "string list"
  | CStatus string
  | CCreatedBetween gotime gotime
  | CCreatedBefore gotime
  | CMaxRetry int

definition queryConditions :: "jobFilter \<Rightarrow> sqlCond list" where
  "queryConditions f =
     (if fTaskName f \<noteq> [] then [CTaskName (fTaskName f)]
      else if fTaskNameList f \<noteq> [] then [CTaskIn (fTaskNameList f)]
      else if fExcludeTaskNameList f \<noteq> [] then [CTaskNotIn (fExcludeTaskNameList f)]
      else []) @
     (case fJobID f of Some i \<Rightarrow> if i \<noteq> [] then [CJobID i] else [] | None \<Rightarrow> []) @
     (case fSearch f of Some s \<Rightarrow> if s \<noteq> [] then [CSearch s] else [] | None \<Rightarrow> []) @
     (if fStatuses f \<noteq> [] then [CStatusIn (fStatuses f)] else []) @
     (case fStatus f of Some s \<Rightarrow> [CStatus s] | None \<Rightarrow> []) @
     (let (startDate, endDate) = ParseStartEndDate f
      in if \<not> IsZero startDate \<and> \<not> IsZero endDate then [CCreatedBetween startDate endDate] else []) @
     (case fBeforeCreatedAt f of Some t \<Rightarrow> if \<not> IsZero t then [CCreatedBefore t] else [] | None \<Rightarrow> []) @
     (case fMaxRetry f of Some n \<Rightarrow> [CMaxRetry n] | None \<Rightarrow> [])"

definition renderCond :: "string \<Rightarrow> sqlCond \<Rightarrow> string" where
  "renderCond driver c =
     (case c of
        CTaskName s \<Rightarrow> formatColumnName driver [''task_name''] @ ''='' @ sqlQuoted (queryReplace s)
      | CTaskIn l \<Rightarrow> formatColumnName driver [''task_name''] @ '' IN '' @ toMultiParamQuery l
      | CTaskNotIn l \<Rightarrow> formatColumnName driver [''task_name''] @ '' NOT IN '' @ toMultiParamQuery l
      | CJobID s \<Rightarrow> ''id='' @ sqlQuoted (queryReplace s)
      | CSearch s \<Rightarrow> ''('' @ formatColumnName driver [''arguments''] @ '' LIKE '' @ sqlQuoted (''%%'' @ s @ ''%%'') @ '' OR '' @
          formatColumnName driver [''error''] @ '' LIKE '' @ sqlQuoted (''%%'' @ s @ ''%%'') @ '')''
      | CStatusIn l \<Rightarrow> formatColumnName driver [''status''] @ '' IN '' @ toMultiParamQuery l
      | CStatus s \<Rightarrow> formatColumnName driver [''status''] @ ''='' @ sqlQuoted (queryReplace s)
      | CCreatedBetween a b \<Rightarrow> formatColumnName driver [''created_at''] @ '' BETWEEN '' @ sqlQuoted (FormatRFC3339 False a) @
          '' AND '' @ sqlQuoted (FormatRFC3339 False b)
      | CCreatedBefore t \<Rightarrow> formatColumnName driver [''created_at''] @ '' <= '' @ sqlQuoted (FormatRFC3339 False t)
      | CMaxRetry n \<Rightarrow> ''max_retry='' @ sqlQuoted (Itoa n))"

definition toQueryFilter :: "string \<Rightarrow> jobFilter \<Rightarrow> string \<times> jobError option" where
  "toQueryFilter driver f =
     (let conditions = map (renderCond driver) (queryConditions f)
      in if length conditions = 0 then ([], Some (EOther ''empty filter''))
         else ('' WHERE '' @ JoinStr '' AND '' conditions, None))"

section \<open>Dates as text\<close>

definition ParseDateTime :: "string \<Rightarrow> gotime option" where
  "ParseDateTime s =
     Option.bind (getYear s) (\<lambda>(y, s).
     Option.bind (skipChar (CHR ''-'') s) (\<lambda>s.
     Option.bind (inRange 1 12 (getnum True s)) (\<lambda>(mo, s).
     Option.bind (skipChar (CHR ''-'') s) (\<lambda>s.
     Option.bind (getnum True s) (\<lambda>(d, s).
     Option.bind (skipChar (CHR '' '') s) (\<lambda>s.
     Option.bind (inRange 0 23 (getnum False s)) (\<lambda>(h, s).
     Option.bind (skipChar (CHR '':'') s) (\<lambda>s.
     Option.bind (inRange 0 59 (getnum True s)) (\<lambda>(mi, s).
     Option.bind (skipChar (CHR '':'') s) (\<lambda>s.
     Option.bind (inRange 0 59 (getnum True s)) (\<lambda>(sec, s).
     case getFrac s of (ns, s) \<Rightarrow>
       if s = [] \<and> 1 \<le> d \<and> d \<le> daysIn y mo
       then Some \<lparr>tYear = y, tMonth = mo, tDay = d, tHour = h, tMinute = mi, tSecond = sec, tNano = ns, tLoc = 0\<rparr>
       else None)))))))))))"

text \<open>The layouts \<open>RFC3339\<close> and \<open>RFC3339Nano\<close> accept the same texts.\<close>

definition parseDateString :: "string \<Rightarrow> gotime \<times> bool" where
  "parseDateString date =
     (case ParseRFC3339 date of
        Some t \<Rightarrow> (t, True)
      | None \<Rightarrow> (case ParseDateTime date of Some t \<Rightarrow> (t, True) | None \<Rightarrow> (zeroTime, False)))"

definition parseDate :: "gotime \<Rightarrow> string option" where
  "parseDate t = (let date = ParseTimeToString t True in if date = [] then None else Some date)"

section \<open>Tables\<close>

text \<open>A time in a row is the time that was written: the precision of the columns (microseconds in
  PostgreSQL, milliseconds in MySQL) and their loss of the zone are not modelled.\<close>

text \<open>A row of the summary table.  \<open>is_loading\<close>, \<open>is_hold\<close> and \<open>hold\<close> may be NULL;
  \<open>loading_message\<close> and the other counters are declared NOT NULL.\<close>

record summaryRow =
  rId :: string
  rSuccess :: int
  rQueueing :: int
  rRetrying :: int
  rFailure :: int
  rStopped :: int
  rIsLoading :: "bool option"
  rIsHold :: "bool option"
  rHold :: "int option"
  rLoadingMessage :: string

record sqlDB =
  dbJobs :: "job list"
  dbHist :: "(string \<times> retryHistory) list"
  dbSummaries :: "summaryRow list"
  dbConfigs :: "configuration list"
  dbErr :: "string option"
  dbLike :: "string \<Rightarrow> string \<Rightarrow> bool"

definition truncSecond :: "gotime \<Rightarrow> gotime" where
  "truncSecond t = t\<lparr>tNano := 0\<rparr>"

text \<open>What a condition says of a row.\<close>

definition condHolds :: "(string \<Rightarrow> string \<Rightarrow> bool) \<Rightarrow> sqlCond \<Rightarrow> job \<Rightarrow> bool" where
  "condHolds like c j =
     (case c of
        CTaskName s \<Rightarrow> jTaskName j = s
      | CTaskIn l \<Rightarrow> jTaskName j \<in> set l
      | CTaskNotIn l \<Rightarrow> jTaskName j \<notin> set l
      | CJobID s \<Rightarrow> jID j = s
      | CSearch s \<Rightarrow> like (jArguments j) (''%%'' @ s @ ''%%'') \<or> like (jError j) (''%%'' @ s @ ''%%'')
      | CStatusIn l \<Rightarrow> jStatus j \<in> set l
      | CStatus s \<Rightarrow> jStatus j = s
      | CCreatedBetween a b \<Rightarrow> instant (truncSecond a) \<le> instant (jCreatedAt j) \<and> instant (jCreatedAt j) \<le> instant (truncSecond b)
      | CCreatedBefore t \<Rightarrow> instant (jCreatedAt j) \<le> instant (truncSecond t)
      | CMaxRetry n \<Rightarrow> jMaxRetry j = n)"

definition matchesFilter :: "(string \<Rightarrow> string \<Rightarrow> bool) \<Rightarrow> jobFilter \<Rightarrow> job \<Rightarrow> bool" where
  "matchesFilter like f j \<longleftrightarrow> list_all (\<lambda>c. condHolds like c j) (queryConditions f)"

section \<open>Jobs\<close>

text \<open>The columns that a query selects: \<open>updated_at\<close> is not among them, and the error stack and
  the histories are not columns of the job table.\<close>

definition scanJob :: "job \<Rightarrow> job" where
  "scanJob j = j\<lparr>jUpdatedAt := zeroTime, jErrorStack := [], jRetryHistories := [], jDirect := False\<rparr>"

text \<open>The sort key of a column and the order of the rows.\<close>

datatype sortKey = KInt int | KStr string

definition sortKeyOf :: "string \<Rightarrow> job \<Rightarrow> sortKey" where
  "sortKeyOf col j =
     (if col = ''created_at'' then KInt (instant (jCreatedAt j))
      else if col = ''finished_at'' then KInt (instant (jFinishedAt j))
      else if col = ''next_running_at'' then KInt (instant (jNextRunningAt j))
      else if col = ''retries'' then KInt (jRetries j)
      else if col = ''max_retry'' then KInt (jMaxRetry j)
      else if col = ''task_name'' then KStr (jTaskName j)
      else if col = ''status'' then KStr (jStatus j)
      else KStr (jID j))"

fun strLe :: "string \<Rightarrow> string \<Rightarrow> bool" where
  "strLe [] t = True"
| "strLe (c # cs) [] = False"
| "strLe (c # cs) (d # ds) =
     (if (of_char c :: int) < of_char d then True else if c = d then strLe cs ds else False)"

definition keyLe :: "sortKey \<Rightarrow> sortKey \<Rightarrow> bool" where
  "keyLe a b = (case (a, b) of (KInt x, KInt y) \<Rightarrow> x \<le> y | (KStr x, KStr y) \<Rightarrow> strLe x y
     | _ \<Rightarrow> False)"

fun insertBy :: "('a \<Rightarrow> 'a \<Rightarrow> bool) \<Rightarrow> 'a \<Rightarrow> 'a list \<Rightarrow> 'a list" where
  "insertBy le x [] = [x]"
| "insertBy le x (y # ys) = (if le x y then x # y # ys else y # insertBy le x ys)"

definition orderBy :: "('a \<Rightarrow> 'a \<Rightarrow> bool) \<Rightarrow> 'a list \<Rightarrow> 'a list" where
  "orderBy le xs = foldr (insertBy le) xs []"

definition TrimPrefixDash :: "string \<Rightarrow> string" where
  "TrimPrefixDash s = (case s of c # r \<Rightarrow> if c = CHR ''-'' then r else s | [] \<Rightarrow> s)"

text \<open>The rows a filter selects, in the order of its sort field.\<close>

definition selectedJobs :: "sqlDB \<Rightarrow> jobFilter \<Rightarrow> job list" where
  "selectedJobs db f =
     (let srt = (if fSort f = [] then ''-created_at'' else fSort f);
          key = sortKeyOf (TrimPrefixDash srt);
          rows = filter (matchesFilter (dbLike db) f) (dbJobs db)
      in if HasPrefix srt ''-'' then orderBy (\<lambda>a b. keyLe (key b) (key a)) rows
         else orderBy (\<lambda>a b. keyLe (key a) (key b)) rows)"

text \<open>\<open>LIMIT\<close> and \<open>OFFSET\<close>; a negative value is an error of the database.\<close>

definition limitOffset :: "int \<Rightarrow> int \<Rightarrow> 'a list \<Rightarrow> 'a list" where
  "limitOffset lim off xs = (if lim < 0 \<or> off < 0 then [] else take (nat lim) (drop (nat off) xs))"

definition FindAllJob :: "sqlDB \<Rightarrow> jobFilter \<Rightarrow> job list" where
  "FindAllJob db f =
     (if dbErr db \<noteq> None then []
      else map scanJob (if fShowAll f then selectedJobs db f
                        else limitOffset (fLimit f) (CalculateOffset f) (selectedJobs db f)))"

definition findRow :: "sqlDB \<Rightarrow> string \<Rightarrow> job option" where
  "findRow db i = find (\<lambda>j. jID j = i) (dbJobs db)"

text \<open>With a history filter the page of the histories, latest start first, comes with the job.\<close>

definition FindJobByID :: "sqlDB \<Rightarrow> string \<Rightarrow> jobFilter option \<Rightarrow> jobError + job" where
  "FindJobByID db i filterHistory =
     (case dbErr db of
        Some e \<Rightarrow> Inl (EStore e)
      | None \<Rightarrow> (case findRow db i of
          None \<Rightarrow> Inl ENotFound
        | Some row \<Rightarrow>
            (case filterHistory of
               None \<Rightarrow> Inr (scanJob row)
             | Some fh \<Rightarrow>
                 if fLimit fh < 0 \<or> CalculateOffset fh < 0 then Inl (EStore ''negative LIMIT or OFFSET'')
                 else let hs = orderBy (\<lambda>a b. instant (rhStartAt b) \<le> instant (rhStartAt a)) (map snd (filter (\<lambda>h. fst h = i) (dbHist db)))
                 in Inr ((scanJob row)\<lparr>jRetryHistories := limitOffset (fLimit fh) (CalculateOffset fh) hs\<rparr>))))"

definition CountAllJob :: "sqlDB \<Rightarrow> jobFilter \<Rightarrow> int" where
  "CountAllJob db f =
     (if dbErr db \<noteq> None then 0 else int (length (filter (matchesFilter (dbLike db) f) (dbJobs db))))"

text \<open>\<open>GROUP BY status, task_name\<close>: one row for each pair that occurs.\<close>

definition groupCounts :: "job list \<Rightarrow> (int \<times> string \<times> string) list" where
  "groupCounts js =
     map (\<lambda>(st, t). (int (length (filter (\<lambda>j. jStatus j = st \<and> jTaskName j = t) js)), st, t))
       (remdups (map (\<lambda>j. (jStatus j, jTaskName j)) js))"

definition addGroup :: "(string \<times> taskSummary) list \<Rightarrow> int \<times> string \<times> string \<Rightarrow> (string \<times> taskSummary) list" where
  "addGroup m row =
     (case row of (count, st, t) \<Rightarrow>
        let s = (case map_of m t of None \<Rightarrow> emptySummary | Some s \<Rightarrow> s);
            s = (if st = StatusSuccess then s\<lparr>sSuccess := sSuccess s + count\<rparr>
                 else if st = StatusQueueing then s\<lparr>sQueueing := sQueueing s + count\<rparr>
                 else if st = StatusRetrying then s\<lparr>sRetrying := sRetrying s + count\<rparr>
                 else if st = StatusFailure then s\<lparr>sFailure := sFailure s + count\<rparr>
                 else if st = StatusStopped then s\<lparr>sStopped := sStopped s + count\<rparr> else s)
        in AList.update t s m)"

definition AggregateAllTaskJob :: "sqlDB \<Rightarrow> jobFilter \<Rightarrow> taskSummary list" where
  "AggregateAllTaskJob db f =
     (if dbErr db \<noteq> None then []
      else map (\<lambda>(t, s). s\<lparr>sTaskName := t, sID := t\<rparr>)
        (foldl addGroup [] (groupCounts (filter (matchesFilter (dbLike db) f) (dbJobs db)))))"

text \<open>\<open>SaveJob\<close>: \<open>uuid\<close> is the fresh id and \<open>now\<close> the clock.  The job is returned because its id
  and creation time are set in place.\<close>

definition storeJob :: "job \<Rightarrow> job" where
  "storeJob j = j\<lparr>jErrorStack := [], jRetryHistories := [], jDirect := False\<rparr>"

definition SaveJob :: "string \<Rightarrow> gotime \<Rightarrow> sqlDB \<Rightarrow> job \<Rightarrow> retryHistory list \<Rightarrow> job \<times> jobError option \<times> sqlDB" where
  "SaveJob uuid now db j hs =
     (let j' = (if jID j = [] then j\<lparr>jID := uuid, jCreatedAt := now\<rparr> else j)
      in case dbErr db of
           Some e \<Rightarrow> (j', Some (EStore e), db)
         | None \<Rightarrow>
             if jID j = [] then
               (if findRow db uuid \<noteq> None then (j', Some (EStore ''duplicate key''), db)
                else (j', None, db\<lparr>dbJobs := dbJobs db @ [storeJob (j'\<lparr>jUpdatedAt := now\<rparr>)],
                        dbHist := dbHist db @ map (Pair uuid) hs\<rparr>))
             else
               (j', None, db\<lparr>dbJobs := map (\<lambda>r. if jID r = jID j
                   then r\<lparr>jTaskName := jTaskName j, jArguments := jArguments j, jRetries := jRetries j, jMaxRetry := jMaxRetry j,
                     jInterval := jInterval j, jUpdatedAt := now, jFinishedAt := jFinishedAt j, jStatus := jStatus j,
                     jError := jError j, jResult := jResult j, jTraceID := jTraceID j,
                     jCurrentProgress := jCurrentProgress j, jMaxProgress := jMaxProgress j\<rparr>
                   else r) (dbJobs db),
                 dbHist := dbHist db @ map (Pair (jID j)) hs\<rparr>))"

text \<open>Setting one column; \<open>None\<close> is an unknown column or a value of the wrong type.\<close>

definition setColumn :: "string \<times> gval \<Rightarrow> job \<Rightarrow> job option" where
  "setColumn kv j =
     (let (k, v) = kv in
      case v of
        VStr s \<Rightarrow>
          if k = ''status'' then Some (j\<lparr>jStatus := s\<rparr>)
          else if k = ''interval'' then Some (j\<lparr>jInterval := s\<rparr>)
          else if k = ''error'' then Some (j\<lparr>jError := s\<rparr>)
          else if k = ''trace_id'' then Some (j\<lparr>jTraceID := s\<rparr>)
          else if k = ''result'' then Some (j\<lparr>jResult := s\<rparr>)
          else if k = ''arguments'' then Some (j\<lparr>jArguments := s\<rparr>)
          else if k = ''task_name'' then Some (j\<lparr>jTaskName := s\<rparr>) else None
      | VInt i \<Rightarrow>
          if k = ''retries'' then Some (j\<lparr>jRetries := i\<rparr>)
          else if k = ''max_retry'' then Some (j\<lparr>jMaxRetry := i\<rparr>)
          else if k = ''current_progress'' then Some (j\<lparr>jCurrentProgress := i\<rparr>)
          else if k = ''max_progress'' then Some (j\<lparr>jMaxProgress := i\<rparr>) else None
      | VTime t \<Rightarrow>
          if k = ''next_running_at'' then Some (j\<lparr>jNextRunningAt := t\<rparr>)
          else if k = ''finished_at'' then Some (j\<lparr>jFinishedAt := t\<rparr>)
          else if k = ''updated_at'' then Some (j\<lparr>jUpdatedAt := t\<rparr>) else None
      | VNil \<Rightarrow>
          if k = ''next_running_at'' then Some (j\<lparr>jNextRunningAt := zeroTime\<rparr>)
          else if k = ''finished_at'' then Some (j\<lparr>jFinishedAt := zeroTime\<rparr>) else None
      | VBool b \<Rightarrow> None)"

fun setColumns :: "(string \<times> gval) list \<Rightarrow> job \<Rightarrow> job option" where
  "setColumns [] j = Some j"
| "setColumns (kv # kvs) j = Option.bind (setColumn kv j) (setColumns kvs)"

definition UpdateJob :: "gotime \<Rightarrow> sqlDB \<Rightarrow> jobFilter \<Rightarrow> (string \<times> gval) list \<Rightarrow> retryHistory list \<Rightarrow>
    int \<times> int \<times> jobError option \<times> sqlDB" where
  "UpdateJob now db f updated hs =
     (if queryConditions f = [] then (0, 0, Some (EOther ''empty filter''), db)
      else case dbErr db of
        Some e \<Rightarrow> (0, 0, Some (EStore e), db)
      | None \<Rightarrow>
          let sel = matchesFilter (dbLike db) f;
              matched = int (length (filter sel (dbJobs db)));
              updated = AList.update ''updated_at'' (VTime now) updated;
              upd = (\<lambda>j. case setColumns updated j of Some j' \<Rightarrow> j' | None \<Rightarrow> j)
          in if setColumns updated emptyJob = None then (matched, 0, Some (EStore ''column''), db)
             else (matched, matched, None,
                db\<lparr>dbJobs := map (\<lambda>j. if sel j then upd j else j) (dbJobs db),
                   dbHist := dbHist db @ (case fJobID f of Some i \<Rightarrow> map (Pair i) hs | None \<Rightarrow> [])\<rparr>))"

definition CleanJob :: "sqlDB \<Rightarrow> jobFilter \<Rightarrow> int \<times> sqlDB" where
  "CleanJob db f =
     (if queryConditions f = [] \<or> dbErr db \<noteq> None then (0, db)
      else
        let sel = matchesFilter (dbLike db) f;
            gone = filter sel (dbJobs db)
        in (int (length gone),
            db\<lparr>dbHist := filter (\<lambda>h. fst h \<notin> jID ` set gone) (dbHist db),
               dbJobs := filter (\<lambda>j. \<not> sel j) (dbJobs db)\<rparr>))"

text \<open>\<open>DeleteJob\<close>: the error of the first statement is overwritten by those of the deletions.\<close>

definition DeleteJob :: "sqlDB \<Rightarrow> string \<Rightarrow> job \<times> jobError option \<times> sqlDB" where
  "DeleteJob db i =
     (case dbErr db of
        Some e \<Rightarrow> (emptyJob, Some (EStore e), db)
      | None \<Rightarrow>
          ((case findRow db i of None \<Rightarrow> emptyJob | Some r \<Rightarrow> scanJob r), None,
           db\<lparr>dbJobs := filter (\<lambda>j. jID j \<noteq> i) (dbJobs db), dbHist := filter (\<lambda>h. fst h \<noteq> i) (dbHist db)\<rparr>))"

section \<open>Summaries\<close>

text \<open>\<open>Scan\<close> assigns the columns in order and stops at the first NULL, whose type does not allow
  it; its error is ignored, so the fields after it keep their zero value.\<close>

definition scanSummary :: "summaryRow \<Rightarrow> taskSummary" where
  "scanSummary r =
     (let s = emptySummary\<lparr>sTaskName := rId r, sSuccess := rSuccess r, sQueueing := rQueueing r, sRetrying := rRetrying r,
            sFailure := rFailure r, sStopped := rStopped r\<rparr>
      in case rIsLoading r of
           None \<Rightarrow> s
         | Some l \<Rightarrow> (case rIsHold r of
             None \<Rightarrow> s\<lparr>sIsLoading := l\<rparr>
           | Some h \<Rightarrow> (case rHold r of
               None \<Rightarrow> s\<lparr>sIsLoading := l, sIsHold := h\<rparr>
             | Some n \<Rightarrow> s\<lparr>sIsLoading := l, sIsHold := h, sHold := n, sLoadingMessage := rLoadingMessage r\<rparr>)))"

definition FindAllSummary :: "sqlDB \<Rightarrow> jobFilter \<Rightarrow> taskSummary list" where
  "FindAllSummary db f =
     (if dbErr db \<noteq> None then []
      else
        let rows = filter (\<lambda>r. if fTaskName f \<noteq> [] then rId r = fTaskName f
                               else if fTaskNameList f \<noteq> [] then rId r \<in> set (fTaskNameList f) else True) (dbSummaries db);
            result = map (\<lambda>r. let d = scanSummary r in d\<lparr>sID := sTaskName d\<rparr>) (orderBy (\<lambda>a b. strLe (rId a) (rId b)) rows)
        in map (\<lambda>res. ApplyFilterStatus res (fStatuses f)) result)"

definition FindDetailSummary :: "sqlDB \<Rightarrow> string \<Rightarrow> taskSummary" where
  "FindDetailSummary db taskName =
     (if dbErr db \<noteq> None then emptySummary
      else case find (\<lambda>r. rId r = taskName) (dbSummaries db) of
        None \<Rightarrow> emptySummary
      | Some r \<Rightarrow> (let s = scanSummary r in s\<lparr>sID := sTaskName s\<rparr>))"

text \<open>Setting a column of a summary row.\<close>

definition setSummaryColumn :: "string \<times> gval \<Rightarrow> summaryRow \<Rightarrow> summaryRow option" where
  "setSummaryColumn kv r =
     (let (k, v) = kv in
      case v of
        VInt i \<Rightarrow>
          if k = ''success'' then Some (r\<lparr>rSuccess := i\<rparr>)
          else if k = ''queueing'' then Some (r\<lparr>rQueueing := i\<rparr>)
          else if k = ''retrying'' then Some (r\<lparr>rRetrying := i\<rparr>)
          else if k = ''failure'' then Some (r\<lparr>rFailure := i\<rparr>)
          else if k = ''stopped'' then Some (r\<lparr>rStopped := i\<rparr>)
          else if k = ''hold'' then Some (r\<lparr>rHold := Some i\<rparr>) else None
      | VBool b \<Rightarrow>
          if k = ''is_loading'' then Some (r\<lparr>rIsLoading := Some b\<rparr>)
          else if k = ''is_hold'' then Some (r\<lparr>rIsHold := Some b\<rparr>) else None
      | VStr s \<Rightarrow> if k = ''loading_message'' then Some (r\<lparr>rLoadingMessage := s\<rparr>) else None
      | VNil \<Rightarrow>
          if k = ''is_loading'' then Some (r\<lparr>rIsLoading := None\<rparr>)
          else if k = ''is_hold'' then Some (r\<lparr>rIsHold := None\<rparr>)
          else if k = ''hold'' then Some (r\<lparr>rHold := None\<rparr>) else None
      | VTime t \<Rightarrow> None)"

fun setSummaryColumns :: "(string \<times> gval) list \<Rightarrow> summaryRow \<Rightarrow> summaryRow option" where
  "setSummaryColumns [] r = Some r"
| "setSummaryColumns (kv # kvs) r = Option.bind (setSummaryColumn kv r) (setSummaryColumns kvs)"

definition blankRow :: summaryRow where
  "blankRow = \<lparr>rId = [], rSuccess = 0, rQueueing = 0, rRetrying = 0, rFailure = 0, rStopped = 0, rIsLoading = None,
     rIsHold = None, rHold = None, rLoadingMessage = []\<rparr>"

text \<open>The \<open>INSERT\<close> of the arguments of \<open>ToArgs\<close>; NULL in \<open>loading_message\<close> is refused.\<close>

definition insertSummary :: "gval list \<Rightarrow> sqlDB \<Rightarrow> sqlDB" where
  "insertSummary args db =
     (case setSummaryColumns (zip (tl GetColumnName) (tl args)) blankRow of
        None \<Rightarrow> db
      | Some r \<Rightarrow> (case hd args of VStr i \<Rightarrow> db\<lparr>dbSummaries := dbSummaries db @ [r\<lparr>rId := i\<rparr>]\<rparr> | _ \<Rightarrow> db))"

definition hasSummary :: "sqlDB \<Rightarrow> string \<Rightarrow> bool" where
  "hasSummary db taskName \<longleftrightarrow> list_ex (\<lambda>r. rId r = taskName) (dbSummaries db)"

definition UpdateSummary :: "sqlDB \<Rightarrow> string \<Rightarrow> (string \<times> gval) list \<Rightarrow> sqlDB" where
  "UpdateSummary db taskName updated =
     (let cols = filter (\<lambda>(k, v). k \<noteq> []) updated
      in if dbErr db \<noteq> None \<or> cols = [] \<or> setSummaryColumns cols blankRow = None then db
         else if hasSummary db taskName then
           db\<lparr>dbSummaries := map (\<lambda>r. if rId r = taskName then (case setSummaryColumns cols r of Some r' \<Rightarrow> r' | None \<Rightarrow> r) else r)
                 (dbSummaries db)\<rparr>
         else insertSummary (ToArgs (emptySummary\<lparr>sTaskName := taskName\<rparr>) updated) db)"

text \<open>Adding to a counter; adding to NULL gives NULL.\<close>

definition addSummaryColumn :: "string \<times> int \<Rightarrow> summaryRow \<Rightarrow> summaryRow option" where
  "addSummaryColumn kv r =
     (let (k, i) = kv in
      if k = ''success'' then Some (r\<lparr>rSuccess := rSuccess r + i\<rparr>)
      else if k = ''queueing'' then Some (r\<lparr>rQueueing := rQueueing r + i\<rparr>)
      else if k = ''retrying'' then Some (r\<lparr>rRetrying := rRetrying r + i\<rparr>)
      else if k = ''failure'' then Some (r\<lparr>rFailure := rFailure r + i\<rparr>)
      else if k = ''stopped'' then Some (r\<lparr>rStopped := rStopped r + i\<rparr>)
      else if k = ''hold'' then Some (r\<lparr>rHold := map_option (\<lambda>n. n + i) (rHold r)\<rparr>) else None)"

fun addSummaryColumns :: "(string \<times> int) list \<Rightarrow> summaryRow \<Rightarrow> summaryRow option" where
  "addSummaryColumns [] r = Some r"
| "addSummaryColumns (kv # kvs) r = Option.bind (addSummaryColumn kv r) (addSummaryColumns kvs)"

text \<open>The fields in lower case; a column assigned twice, an unknown one or none at all makes the
  statement fail.  The map for the insertion is keyed by the formatted name, with the quotes that
  MySQL needs.\<close>

definition IncrementSummary :: "string \<Rightarrow> sqlDB \<Rightarrow> string \<Rightarrow> (string \<times> int) list \<Rightarrow> sqlDB" where
  "IncrementSummary driver db taskName incr =
     (let fields = map (\<lambda>(k, v). (ToLower k, v)) (filter (\<lambda>(k, v). k \<noteq> []) incr);
          updated = map (\<lambda>(k, v). (formatColumnName driver [k], VInt v)) fields
      in if incr = [] \<or> dbErr db \<noteq> None \<or> fields = [] \<or> \<not> distinct (map fst fields) \<or>
            addSummaryColumns fields blankRow = None then db
         else if hasSummary db taskName then
           db\<lparr>dbSummaries := map (\<lambda>r. if rId r = taskName then (case addSummaryColumns fields r of Some r' \<Rightarrow> r' | None \<Rightarrow> r) else r)
                 (dbSummaries db)\<rparr>
         else insertSummary (ToArgs (emptySummary\<lparr>sTaskName := taskName\<rparr>) updated) db)"

definition DeleteAllSummary :: "sqlDB \<Rightarrow> jobFilter \<Rightarrow> sqlDB" where
  "DeleteAllSummary db f =
     (if dbErr db \<noteq> None then db
      else db\<lparr>dbSummaries := filter (\<lambda>r. fExcludeTaskNameList f \<noteq> [] \<and> rId r \<in> set (fExcludeTaskNameList f)) (dbSummaries db)\<rparr>)"

section \<open>Configurations\<close>

definition GetAllConfiguration :: "sqlDB \<Rightarrow> jobError + configuration list" where
  "GetAllConfiguration db =
     (case dbErr db of
        Some e \<Rightarrow> Inl (EStore e)
      | None \<Rightarrow> Inr (orderBy (\<lambda>a b. strLe (cKey a) (cKey b)) (dbConfigs db)))"

definition GetConfiguration :: "sqlDB \<Rightarrow> string \<Rightarrow> jobError + configuration" where
  "GetConfiguration db key =
     (case dbErr db of
        Some e \<Rightarrow> Inl (EStore e)
      | None \<Rightarrow> (case find (\<lambda>c. cKey c = key) (dbConfigs db) of None \<Rightarrow> Inl ENotFound | Some c \<Rightarrow> Inr c))"

definition SetConfiguration :: "sqlDB \<Rightarrow> configuration \<Rightarrow> jobError option \<times> sqlDB" where
  "SetConfiguration db cfg =
     (case dbErr db of
        Some e \<Rightarrow> (Some (EStore e), db)
      | None \<Rightarrow>
          (None,
           if list_ex (\<lambda>c. cKey c = cKey cfg) (dbConfigs db)
           then db\<lparr>dbConfigs := map (\<lambda>c. if cKey c = cKey cfg
                    then c\<lparr>cName := cName cfg, cValue := cValue cfg, cIsActive := cIsActive cfg\<rparr> else c) (dbConfigs db)\<rparr>
           else db\<lparr>dbConfigs := dbConfigs db @ [cfg]\<rparr>))"

end
