(* ===== verification/Task_Summary.thy ===== *)
theory Task_Summary
  imports Task_SQL
begin

text \<open>
  The interface \<open>Summary\<close> (\<open>summary.go\<close>) and its two implementations: \<open>inMemSummary\<close>, defined here,
  and the summary table of \<open>SQLPersistent\<close>.  The locale \<open>job_counters\<close> states what the worker relies
  on: \<open>IncrementSummary\<close> adds to the counters of one task, whatever the case of its keys.  Inside it
  the counters are shown to follow the jobs.  The tracked statuses are a parameter because
  \<open>inMemSummary\<close> ignores \<open>HOLD\<close>.
\<close>

section \<open>In memory\<close>

type_synonym inMemSummary = "string \<rightharpoonup> taskSummary"

definition NewInMemSummary :: inMemSummary where
  "NewInMemSummary = (\<lambda>_. None)"

definition orEmpty :: "taskSummary option \<Rightarrow> taskSummary" where
  "orEmpty s = (case s of None \<Rightarrow> emptySummary | Some s \<Rightarrow> s)"

text \<open>\<open>order\<close> is the order in which the map is iterated.\<close>

definition inMem_FindAllSummary :: "string list \<Rightarrow> inMemSummary \<Rightarrow> jobFilter \<Rightarrow> taskSummary list" where
  "inMem_FindAllSummary order i f =
     (let named = filter (\<lambda>t. i t \<noteq> None \<and> (fTaskName f = [] \<or> t = fTaskName f)) order;
          result = map (\<lambda>t. (orEmpty (i t))\<lparr>sID := t, sTaskName := t\<rparr>) named
      in if fStatuses f = [] then result
         else map (\<lambda>res. SetValue res
                (foldl (\<lambda>m st. AList.update (ToUpper st) (getCount (ToMapResult res) (ToUpper st)) m) [] (fStatuses f))) result)"

definition inMem_FindDetailSummary :: "inMemSummary \<Rightarrow> string \<Rightarrow> taskSummary" where
  "inMem_FindDetailSummary i taskName = orEmpty (i taskName)"

text \<open>A value that is no number counts as zero, and any boolean is taken for \<open>is_loading\<close>.\<close>

definition inMemSet :: "taskSummary \<Rightarrow> string \<times> gval \<Rightarrow> taskSummary" where
  "inMemSet s kv =
     (let (k, v) = kv;
          count = (case v of VInt c \<Rightarrow> c | _ \<Rightarrow> 0);
          s = (case v of VBool b \<Rightarrow> s\<lparr>sIsLoading := b\<rparr> | _ \<Rightarrow> s);
          k = ToUpper k
      in if k = StatusFailure then s\<lparr>sFailure := count\<rparr>
         else if k = StatusRetrying then s\<lparr>sRetrying := count\<rparr>
         else if k = StatusSuccess then s\<lparr>sSuccess := count\<rparr>
         else if k = StatusQueueing then s\<lparr>sQueueing := count\<rparr>
         else if k = StatusStopped then s\<lparr>sStopped := count\<rparr> else s)"

definition inMem_UpdateSummary :: "inMemSummary \<Rightarrow> string \<Rightarrow> (string \<times> gval) list \<Rightarrow> inMemSummary" where
  "inMem_UpdateSummary i taskName updated = i(taskName \<mapsto> foldl inMemSet (orEmpty (i taskName)) updated)"

definition inMemAdd :: "taskSummary \<Rightarrow> string \<times> int \<Rightarrow> taskSummary" where
  "inMemAdd s kv =
     (let (k, v) = kv; k = ToUpper k
      in if k = StatusFailure then s\<lparr>sFailure := sFailure s + v\<rparr>
         else if k = StatusRetrying then s\<lparr>sRetrying := sRetrying s + v\<rparr>
         else if k = StatusSuccess then s\<lparr>sSuccess := sSuccess s + v\<rparr>
         else if k = StatusQueueing then s\<lparr>sQueueing := sQueueing s + v\<rparr>
         else if k = StatusStopped then s\<lparr>sStopped := sStopped s + v\<rparr> else s)"

definition inMem_IncrementSummary :: "inMemSummary \<Rightarrow> string \<Rightarrow> (string \<times> int) list \<Rightarrow> inMemSummary" where
  "inMem_IncrementSummary i taskName incr = i(taskName \<mapsto> foldl inMemAdd (orEmpty (i taskName)) incr)"

definition inMem_DeleteAllSummary :: "inMemSummary \<Rightarrow> jobFilter \<Rightarrow> inMemSummary" where
  "inMem_DeleteAllSummary i f = i"

section \<open>Counting jobs\<close>

definition allStatuses :: "string list" where
  "allStatuses = [StatusRetrying, StatusFailure, StatusSuccess, StatusQueueing, StatusStopped, StatusHold]"

definition countJobs :: "job list \<Rightarrow> string \<Rightarrow> string \<Rightarrow> int" where
  "countJobs js t st = int (length (filter (\<lambda>j. jTaskName j = t \<and> jStatus j = st) js))"

text \<open>What a map of increments adds to the counter of a status.\<close>

definition incrFor :: "(string \<times> int) list \<Rightarrow> string \<Rightarrow> int" where
  "incrFor kvs st = sum_list (map snd (filter (\<lambda>(k, v). ToUpper k = st) kvs))"

definition keysOk :: "(string \<times> int) list \<Rightarrow> bool" where
  "keysOk kvs \<longleftrightarrow> distinct (map (\<lambda>(k, v). ToUpper k) kvs) \<and> list_all (\<lambda>(k, v). ToUpper k \<in> set allStatuses) kvs"

text \<open>Counters that agree with the jobs of a task.\<close>

definition agrees :: "('s \<Rightarrow> string \<Rightarrow> string \<Rightarrow> int) \<Rightarrow> string list \<Rightarrow> 's \<Rightarrow> job list \<Rightarrow> string \<Rightarrow> bool" where
  "agrees counter tracked s js t \<longleftrightarrow> (\<forall>st\<in>set tracked. counter s t st = countJobs js t st)"

lemma incrFor_Nil [simp]: "incrFor [] st = 0"
  by (simp add: incrFor_def)

lemma incrFor_Cons [simp]: "incrFor ((k, v) # kvs) st = (if ToUpper k = st then v else 0) + incrFor kvs st"
  by (simp add: incrFor_def)

lemma countJobs_Nil [simp]: "countJobs [] t st = 0"
  by (simp add: countJobs_def)

lemma countJobs_Cons [simp]:
  "countJobs (j # js) t st = (if jTaskName j = t \<and> jStatus j = st then 1 else 0) + countJobs js t st"
  by (simp add: countJobs_def)

lemma countJobs_append [simp]: "countJobs (xs @ ys) t st = countJobs xs t st + countJobs ys t st"
  by (simp add: countJobs_def)

lemma countJobs_cong:
  assumes "map jTaskName js' = map jTaskName js" "map jStatus js' = map jStatus js"
  shows "countJobs js' t st = countJobs js t st"
proof -
  have "length js' = length js" using assms(1) map_eq_imp_length_eq by blast
  then show ?thesis using assms by (induction js' js rule: list_induct2) auto
qed

lemma countJobs_split:
  "countJobs js t st = countJobs (filter P js) t st + countJobs (filter (\<lambda>j. \<not> P j) js) t st"
  by (induction js) auto

section \<open>The interface\<close>

locale job_counters =
  fixes inv :: "'s \<Rightarrow> string \<Rightarrow> bool"
    and counter :: "'s \<Rightarrow> string \<Rightarrow> string \<Rightarrow> int"
    and incr :: "'s \<Rightarrow> string \<Rightarrow> (string \<times> int) list \<Rightarrow> 's"
    and tracked :: "string list"
  assumes incr_inv: "inv s t \<Longrightarrow> inv s t' \<Longrightarrow> keysOk kvs \<Longrightarrow> inv (incr s t kvs) t'"
    and incr_counter: "inv s t \<Longrightarrow> keysOk kvs \<Longrightarrow> st \<in> set tracked \<Longrightarrow>
      counter (incr s t kvs) t' st = counter s t' st + (if t' = t then incrFor kvs st else 0)"
begin

text \<open>Increments that equal the change of the numbers of jobs keep the agreement, of the task itself
  and of every other one.\<close>

lemma follow:
  assumes inv: "inv s t" and keys: "keysOk kvs" and ag: "agrees counter tracked s js t'"
    and diff: "\<And>st. countJobs js' t' st = countJobs js t' st + (if t' = t then incrFor kvs st else 0)"
  shows "agrees counter tracked (incr s t kvs) js' t'"
  using ag by (auto simp: agrees_def incr_counter [OF inv keys] diff)

lemma follow_add:
  assumes "inv s (jTaskName j)" "ToUpper (jStatus j) = jStatus j" "jStatus j \<in> set allStatuses"
    and "agrees counter tracked s js t'" "ToUpper k = jStatus j"
  shows "agrees counter tracked (incr s (jTaskName j) [(k, 1)]) (js @ [j]) t'"
  by (rule follow [OF assms(1) _ assms(4)]) (use assms in \<open>auto simp: keysOk_def\<close>)

end

section \<open>In memory counters\<close>

definition inMemCounter :: "inMemSummary \<Rightarrow> string \<Rightarrow> string \<Rightarrow> int" where
  "inMemCounter i t st = getCount (ToMapResult (orEmpty (i t))) st"

definition inMemTracked :: "string list" where
  "inMemTracked = [StatusRetrying, StatusFailure, StatusSuccess, StatusQueueing, StatusStopped]"

lemma ToUpper_status [simp]:
  "ToUpper StatusRetrying = StatusRetrying" "ToUpper StatusFailure = StatusFailure"
  "ToUpper StatusSuccess = StatusSuccess" "ToUpper StatusQueueing = StatusQueueing"
  "ToUpper StatusStopped = StatusStopped" "ToUpper StatusHold = StatusHold"
  by code_simp+

lemma ToUpper_ToLower_status [simp]:
  "ToUpper (ToLower StatusRetrying) = StatusRetrying" "ToUpper (ToLower StatusFailure) = StatusFailure"
  "ToUpper (ToLower StatusSuccess) = StatusSuccess" "ToUpper (ToLower StatusQueueing) = StatusQueueing"
  "ToUpper (ToLower StatusStopped) = StatusStopped" "ToUpper (ToLower StatusHold) = StatusHold"
  by code_simp+

lemma status_neq [simp]:
  "StatusRetrying \<noteq> StatusFailure" "StatusRetrying \<noteq> StatusSuccess" "StatusRetrying \<noteq> StatusQueueing"
  "StatusRetrying \<noteq> StatusStopped" "StatusRetrying \<noteq> StatusHold" "StatusFailure \<noteq> StatusRetrying"
  "StatusFailure \<noteq> StatusSuccess" "StatusFailure \<noteq> StatusQueueing" "StatusFailure \<noteq> StatusStopped"
  "StatusFailure \<noteq> StatusHold" "StatusSuccess \<noteq> StatusRetrying" "StatusSuccess \<noteq> StatusFailure"
  "StatusSuccess \<noteq> StatusQueueing" "StatusSuccess \<noteq> StatusStopped" "StatusSuccess \<noteq> StatusHold"
  "StatusQueueing \<noteq> StatusRetrying" "StatusQueueing \<noteq> StatusFailure" "StatusQueueing \<noteq> StatusSuccess"
  "StatusQueueing \<noteq> StatusStopped" "StatusQueueing \<noteq> StatusHold" "StatusStopped \<noteq> StatusRetrying"
  "StatusStopped \<noteq> StatusFailure" "StatusStopped \<noteq> StatusSuccess" "StatusStopped \<noteq> StatusQueueing"
  "StatusStopped \<noteq> StatusHold" "StatusHold \<noteq> StatusRetrying" "StatusHold \<noteq> StatusFailure"
  "StatusHold \<noteq> StatusSuccess" "StatusHold \<noteq> StatusQueueing" "StatusHold \<noteq> StatusStopped"
  by (simp_all add: status_defs)

lemma inMemAdd_counter:
  "st \<in> set inMemTracked \<Longrightarrow>
   getCount (ToMapResult (inMemAdd s (k, v))) st = getCount (ToMapResult s) st + (if ToUpper k = st then v else 0)"
  by (auto simp: inMemTracked_def inMemAdd_def ToMapResult_def getCount_def Let_def)

lemma inMemAdds_counter:
  "st \<in> set inMemTracked \<Longrightarrow>
   getCount (ToMapResult (foldl inMemAdd s kvs)) st = getCount (ToMapResult s) st + incrFor kvs st"
proof (induction kvs arbitrary: s)
  case (Cons kv kvs)
  then show ?case by (cases kv) (simp add: inMemAdd_counter)
qed simp

interpretation memc: job_counters "\<lambda>s t. True" inMemCounter inMem_IncrementSummary inMemTracked
  by unfold_locales (auto simp: inMemCounter_def inMem_IncrementSummary_def inMemAdds_counter orEmpty_def)

section \<open>Counters in the summary table\<close>

definition rowCounter :: "summaryRow \<Rightarrow> string \<Rightarrow> int" where
  "rowCounter r st =
     (if st = StatusSuccess then rSuccess r else if st = StatusQueueing then rQueueing r
      else if st = StatusRetrying then rRetrying r else if st = StatusFailure then rFailure r
      else if st = StatusStopped then rStopped r
      else if st = StatusHold then (case rHold r of None \<Rightarrow> 0 | Some n \<Rightarrow> n) else 0)"

definition summaryRowOf :: "sqlDB \<Rightarrow> string \<Rightarrow> summaryRow option" where
  "summaryRowOf db t = find (\<lambda>r. rId r = t) (dbSummaries db)"

definition sqlCounter :: "sqlDB \<Rightarrow> string \<Rightarrow> string \<Rightarrow> int" where
  "sqlCounter db t st = (case summaryRowOf db t of None \<Rightarrow> 0 | Some r \<Rightarrow> rowCounter r st)"

text \<open>The row of the task exists and its \<open>hold\<close> column is not NULL.\<close>

definition sqlCounted :: "sqlDB \<Rightarrow> string \<Rightarrow> bool" where
  "sqlCounted db t \<longleftrightarrow> dbErr db = None \<and> (case summaryRowOf db t of None \<Rightarrow> False | Some r \<Rightarrow> rHold r \<noteq> None)"

lemma lower_upper_char: "lower_char (upper_char c) = lower_char c"
proof (cases "97 \<le> (of_char c :: int) \<and> (of_char c :: int) \<le> 122")
  case True
  then have "(of_char (upper_char c) :: int) = of_char c - 32" by (simp add: upper_char_def of_char_of)
  with True show ?thesis by (simp add: lower_char_def)
qed (auto simp: upper_char_def)

lemma upper_lower_char: "upper_char (lower_char c) = upper_char c"
proof (cases "65 \<le> (of_char c :: int) \<and> (of_char c :: int) \<le> 90")
  case True
  then have "(of_char (lower_char c) :: int) = of_char c + 32" by (simp add: lower_char_def of_char_of)
  with True show ?thesis by (simp add: upper_char_def)
qed (auto simp: lower_char_def)

lemma ToUpper_ToLower: "ToUpper (ToLower s) = ToUpper s"
  by (simp add: ToLower_def ToUpper_def upper_lower_char)

lemma ToLower_ToUpper: "ToLower (ToUpper s) = ToLower s"
  by (simp add: ToLower_def ToUpper_def lower_upper_char)

lemma addSummaryColumn_status:
  assumes "ToUpper k \<in> set allStatuses"
  shows "\<exists>r'. addSummaryColumn (ToLower k, v) r = Some r' \<and> rId r' = rId r \<and> (rHold r' = None \<longleftrightarrow> rHold r = None) \<and>
    (rHold r \<noteq> None \<longrightarrow> (\<forall>st\<in>set allStatuses. rowCounter r' st = rowCounter r st + (if ToUpper k = st then v else 0)))"
proof -
  have low: "ToLower StatusRetrying = ''retrying''" "ToLower StatusFailure = ''failure''" "ToLower StatusSuccess = ''success''"
    "ToLower StatusQueueing = ''queueing''" "ToLower StatusStopped = ''stopped''" "ToLower StatusHold = ''hold''"
    by code_simp+
  have k: "ToLower k = ToLower (ToUpper k)" by (simp add: ToLower_ToUpper)
  consider "ToUpper k = StatusRetrying" | "ToUpper k = StatusFailure" | "ToUpper k = StatusSuccess" |
    "ToUpper k = StatusQueueing" | "ToUpper k = StatusStopped" | "ToUpper k = StatusHold"
    using assms by (auto simp: allStatuses_def)
  then show ?thesis
    by cases (auto simp: k low addSummaryColumn_def allStatuses_def rowCounter_def split: option.splits)
qed

lemma addSummaryColumns_status:
  assumes "list_all (\<lambda>(k, v). ToUpper k \<in> set allStatuses) kvs"
  shows "\<exists>r'. addSummaryColumns (map (\<lambda>(k, v). (ToLower k, v)) kvs) r = Some r' \<and> rId r' = rId r \<and>
    (rHold r' = None \<longleftrightarrow> rHold r = None) \<and>
    (rHold r \<noteq> None \<longrightarrow> (\<forall>st\<in>set allStatuses. rowCounter r' st = rowCounter r st + incrFor kvs st))"
  using assms
proof (induction kvs arbitrary: r)
  case (Cons kv kvs)
  obtain k v where kv: "kv = (k, v)" by force
  with Cons.prems have k: "ToUpper k \<in> set allStatuses" and "list_all (\<lambda>(k, v). ToUpper k \<in> set allStatuses) kvs" by auto
  obtain r1 where r1: "addSummaryColumn (ToLower k, v) r = Some r1" "rId r1 = rId r" "rHold r1 = None \<longleftrightarrow> rHold r = None"
    "rHold r \<noteq> None \<longrightarrow> (\<forall>st\<in>set allStatuses. rowCounter r1 st = rowCounter r st + (if ToUpper k = st then v else 0))"
    using addSummaryColumn_status [OF k, of v r] by (elim exE conjE) (rule that)
  obtain r2 where r2: "addSummaryColumns (map (\<lambda>(k, v). (ToLower k, v)) kvs) r1 = Some r2" "rId r2 = rId r1"
    "rHold r2 = None \<longleftrightarrow> rHold r1 = None"
    "rHold r1 \<noteq> None \<longrightarrow> (\<forall>st\<in>set allStatuses. rowCounter r2 st = rowCounter r1 st + incrFor kvs st)"
    using Cons.IH [OF \<open>list_all _ kvs\<close>, of r1] by (elim exE conjE) (rule that)
  show ?case
  proof (intro exI conjI impI ballI)
    show "addSummaryColumns (map (\<lambda>(k, v). (ToLower k, v)) (kv # kvs)) r = Some r2" using r1(1) r2(1) by (simp add: kv)
    show "rId r2 = rId r" "rHold r2 = None \<longleftrightarrow> rHold r = None" using r1 r2 by simp_all
    show "rowCounter r2 st = rowCounter r st + incrFor (kv # kvs) st" if "rHold r \<noteq> None" "st \<in> set allStatuses" for st
      using that r1(3,4) r2(4) by (simp add: kv)
  qed
qed simp

lemma find_map_same:
  "(\<And>x. x \<in> set xs \<Longrightarrow> P (f x) = P x) \<Longrightarrow> find P (map f xs) = map_option f (find P xs)"
  by (induction xs) auto

lemma distinct_lower:
  assumes "distinct (map (\<lambda>(k, v). ToUpper k) kvs)"
  shows "distinct (map fst (map (\<lambda>(k, v). (ToLower k, v)) kvs))"
proof -
  have "map (\<lambda>(k, v). ToUpper k) kvs = map ToUpper (map fst (map (\<lambda>(k, v). (ToLower k, v)) kvs))"
    by (auto simp: ToUpper_ToLower)
  with assms show ?thesis by (metis distinct_map)
qed

text \<open>\<open>IncrementSummary\<close> on a table that has the row of the task.\<close>

definition addToRow :: "(string \<times> int) list \<Rightarrow> summaryRow \<Rightarrow> summaryRow" where
  "addToRow kvs r = (case addSummaryColumns (map (\<lambda>(k, v). (ToLower k, v)) kvs) r of Some r' \<Rightarrow> r' | None \<Rightarrow> r)"

lemma hasSummary_rowOf: "hasSummary db t \<longleftrightarrow> summaryRowOf db t \<noteq> None"
  by (auto simp: hasSummary_def summaryRowOf_def list_ex_iff find_None_iff)

lemma IncrementSummary_row:
  assumes "sqlCounted db t" "keysOk kvs"
  shows "IncrementSummary driver db t kvs =
    (if kvs = [] then db else db\<lparr>dbSummaries := map (\<lambda>r. if rId r = t then addToRow kvs r else r) (dbSummaries db)\<rparr>)"
proof -
  have ne: "filter (\<lambda>(k, v). k \<noteq> []) kvs = kvs"
    using assms(2) by (auto simp: keysOk_def list_all_iff allStatuses_def status_defs ToUpper_def filter_id_conv)
  have "addSummaryColumns (map (\<lambda>(k, v). (ToLower k, v)) kvs) blankRow \<noteq> None"
    using addSummaryColumns_status [of kvs blankRow] assms(2) by (auto simp: keysOk_def)
  moreover have "hasSummary db t" "dbErr db = None"
    using assms(1) by (auto simp: sqlCounted_def hasSummary_rowOf split: option.splits)
  ultimately show ?thesis
    using distinct_lower [of kvs] assms(2) by (auto simp: IncrementSummary_def ne Let_def addToRow_def keysOk_def cong: if_cong)
qed

lemma addToRow_props:
  assumes "keysOk kvs"
  shows "rId (addToRow kvs r) = rId r" "rHold (addToRow kvs r) = None \<longleftrightarrow> rHold r = None"
    "rHold r \<noteq> None \<Longrightarrow> st \<in> set allStatuses \<Longrightarrow> rowCounter (addToRow kvs r) st = rowCounter r st + incrFor kvs st"
  using addSummaryColumns_status [of kvs r] assms by (auto simp: keysOk_def addToRow_def)

lemma IncrementSummary_rowOf:
  assumes "sqlCounted db t" "keysOk kvs"
  shows "summaryRowOf (IncrementSummary driver db t kvs) t' =
    (if t' = t then map_option (addToRow kvs) (summaryRowOf db t') else summaryRowOf db t')"
proof -
  have "find (\<lambda>r. rId r = t') (map (\<lambda>r. if rId r = t then addToRow kvs r else r) rs) =
      (if t' = t then map_option (addToRow kvs) (find (\<lambda>r. rId r = t') rs) else find (\<lambda>r. rId r = t') rs)" for rs
    by (induction rs) (auto simp: addToRow_props [OF assms(2)])
  moreover have "addToRow [] = id" by (auto simp: addToRow_def)
  ultimately show ?thesis by (auto simp: IncrementSummary_row [OF assms] summaryRowOf_def option.map_id)
qed

lemma IncrementSummary_frame [simp]:
  "dbJobs (IncrementSummary driver db t kvs) = dbJobs db" "dbErr (IncrementSummary driver db t kvs) = dbErr db"
  "dbLike (IncrementSummary driver db t kvs) = dbLike db" "dbConfigs (IncrementSummary driver db t kvs) = dbConfigs db"
  by (simp_all add: IncrementSummary_def insertSummary_def Let_def split: option.splits gval.splits)

interpretation sqlc: job_counters sqlCounted sqlCounter "IncrementSummary driver" allStatuses
proof
  fix s :: sqlDB and t t' :: string and kvs
  assume a: "sqlCounted s t" "sqlCounted s t'" "keysOk kvs"
  then show "sqlCounted (IncrementSummary driver s t kvs) t'"
    by (auto simp: sqlCounted_def IncrementSummary_rowOf [OF a(1,3)] addToRow_props(2) [OF a(3)]
        simp del: not_None_eq split: option.splits)
next
  fix s :: sqlDB and t st t' :: string and kvs
  assume a: "sqlCounted s t" "keysOk kvs" "st \<in> set allStatuses"
  then show "sqlCounter (IncrementSummary driver s t kvs) t' st = sqlCounter s t' st + (if t' = t then incrFor kvs st else 0)"
    by (auto simp: sqlCounter_def sqlCounted_def IncrementSummary_rowOf [OF a(1,2)] addToRow_props(3) [OF a(2)] split: option.splits)
qed

end
