(* ===== verification/Shared_Queue.thy ===== *)
theory Shared_Queue
  imports Go_Base
begin

text \<open>
  \<open>candishared.Queue\<close> (\<open>src/candishared/queue.go\<close>): a ring buffer whose length is a power of
  two.  Head, tail and count are naturals, since the code only increments them, masks them or
  decrements a positive count.  The zero value of the element type is the argument \<open>z\<close>.  The
  lemmas give the invariant and show that the buffer refines a list: \<open>Push\<close> appends, \<open>Pop\<close>
  removes the first element, and growing or shrinking the buffer is not observable.
\<close>

unbundle bit_operations_syntax

section \<open>The ring buffer\<close>

definition minQueueLen :: nat where
  "minQueueLen = 16"

record 'a queue =
  qBuf :: "'a list"
  qHead :: nat
  qTail :: nat
  qCount :: nat

datatype queueError = EPopEmpty | EPeekEmpty

definition NewQueue :: "'a \<Rightarrow> 'a queue" where
  "NewQueue z = \<lparr>qBuf = replicate minQueueLen z, qHead = 0, qTail = 0, qCount = 0\<rparr>"

definition Len :: "'a queue \<Rightarrow> nat" where
  "Len q = qCount q"

text \<open>Go's \<open>copy(dst, src)\<close>: the destination afterwards and the number of elements copied.\<close>

definition goCopy :: "'a list \<Rightarrow> 'a list \<Rightarrow> 'a list \<times> nat" where
  "goCopy dst src =
     (let n = min (length dst) (length src) in (take n src @ drop n dst, n))"

definition resize :: "'a \<Rightarrow> 'a queue \<Rightarrow> 'a queue" where
  "resize z q =
     (let newBuf = replicate (push_bit 1 (qCount q)) z;
          newBuf' =
            (if qTail q > qHead q
             then fst (goCopy newBuf (drop (qHead q) (take (qTail q) (qBuf q))))
             else let (b, n) = goCopy newBuf (drop (qHead q) (qBuf q))
                  in take n b @ fst (goCopy (drop n b) (take (qTail q) (qBuf q))))
      in q\<lparr>qHead := 0, qTail := qCount q, qBuf := newBuf'\<rparr>)"

definition Push :: "'a \<Rightarrow> 'a queue \<Rightarrow> 'a \<Rightarrow> 'a queue" where
  "Push z q elem =
     (let q = (if qCount q = length (qBuf q) then resize z q else q)
      in q\<lparr>qBuf := (qBuf q)[qTail q := elem],
           qTail := (qTail q + 1) AND (length (qBuf q) - 1),
           qCount := qCount q + 1\<rparr>)"

definition Pop :: "'a \<Rightarrow> 'a queue \<Rightarrow> (queueError + 'a) \<times> 'a queue" where
  "Pop z q =
     (if qCount q \<le> 0 then (Inl EPopEmpty, q)
      else
        let ret = qBuf q ! qHead q;
            q = q\<lparr>qBuf := (qBuf q)[qHead q := z]\<rparr>;
            q = q\<lparr>qHead := (qHead q + 1) AND (length (qBuf q) - 1), qCount := qCount q - 1\<rparr>;
            q = (if length (qBuf q) > minQueueLen \<and> push_bit 2 (qCount q) = length (qBuf q)
                 then resize z q else q)
        in (Inr ret, q))"

definition Peek :: "'a queue \<Rightarrow> queueError + 'a" where
  "Peek q = (if qCount q \<le> 0 then Inl EPeekEmpty else Inr (qBuf q ! qHead q))"

section \<open>Invariant and abstraction\<close>

definition queueInv :: "'a queue \<Rightarrow> bool" where
  "queueInv q \<longleftrightarrow> (\<exists>k \<ge> 4. length (qBuf q) = 2 ^ k) \<and> qHead q < length (qBuf q) \<and>
     qCount q \<le> length (qBuf q) \<and> qTail q = (qHead q + qCount q) mod length (qBuf q)"

definition contents :: "'a queue \<Rightarrow> 'a list" where
  "contents q = take (qCount q) (rotate (qHead q) (qBuf q))"

lemma and_pow2_minus_1: "n AND (2 ^ k - 1) = n mod 2 ^ (k :: nat)" for n :: nat
  by (metis mask_eq_exp_minus_1 take_bit_eq_mask take_bit_eq_mod)

lemma queueInv_mask: "queueInv q \<Longrightarrow> n AND (length (qBuf q) - 1) = n mod length (qBuf q)"
  unfolding queueInv_def using and_pow2_minus_1 by metis

lemma queueInv_length: "queueInv q \<Longrightarrow> 16 \<le> length (qBuf q)"
proof -
  assume "queueInv q"
  then obtain k where "k \<ge> 4" "length (qBuf q) = 2 ^ k" by (auto simp: queueInv_def)
  then show ?thesis using power_increasing [of 4 k "2 :: nat"] by simp
qed

lemma contents_length: "queueInv q \<Longrightarrow> length (contents q) = qCount q"
  by (simp add: contents_def queueInv_def)

lemma contents_nth:
  "queueInv q \<Longrightarrow> i < qCount q \<Longrightarrow> contents q ! i = qBuf q ! ((qHead q + i) mod length (qBuf q))"
  by (simp add: contents_def queueInv_def nth_rotate)

lemma goCopy_fits: "length src \<le> length dst \<Longrightarrow> goCopy dst src = (src @ drop (length src) dst, length src)"
  by (simp add: goCopy_def min_absorb2 Let_def)

text \<open>The stored elements, as the two slices that \<open>resize\<close> copies.\<close>

lemma contents_slices:
  assumes "queueInv q" "0 < qCount q"
  shows "contents q = (if qTail q > qHead q then drop (qHead q) (take (qTail q) (qBuf q))
    else drop (qHead q) (qBuf q) @ take (qTail q) (qBuf q))"
proof -
  let ?n = "length (qBuf q)" and ?h = "qHead q" and ?c = "qCount q"
  have h: "?h < ?n" "?c \<le> ?n" "qTail q = (?h + ?c) mod ?n" using assms(1) by (auto simp: queueInv_def)
  then have r: "rotate ?h (qBuf q) = drop ?h (qBuf q) @ take ?h (qBuf q)"
    by (simp add: rotate_drop_take)
  show ?thesis
  proof (cases "?h + ?c < ?n")
    case True
    with h assms(2) show ?thesis by (simp add: contents_def r drop_take)
  next
    case False
    then have "qTail q = ?h + ?c - ?n" using h by (simp add: mod_if)
    with False h(1,2) show ?thesis by (auto simp: contents_def r min_def add.commute)
  qed
qed

lemma resize_contents:
  assumes "queueInv q" "0 < qCount q"
  shows "qBuf (resize z q) = contents q @ replicate (qCount q) z"
    and "qHead (resize z q) = 0" "qTail (resize z q) = qCount q" "qCount (resize z q) = qCount q"
proof -
  let ?new = "replicate (2 * qCount q) z" and ?h = "qHead q" and ?t = "qTail q"
  have len: "length (contents q) = qCount q" by (rule contents_length [OF assms(1)])
  show "qBuf (resize z q) = contents q @ replicate (qCount q) z"
  proof (cases "?t > ?h")
    case True
    then have c: "contents q = drop ?h (take ?t (qBuf q))" using contents_slices [OF assms] by simp
    then have "goCopy ?new (drop ?h (take ?t (qBuf q))) = (contents q @ replicate (qCount q) z, qCount q)"
      using len by (simp only: c [symmetric]) (simp add: goCopy_fits)
    with True show ?thesis by (simp add: resize_def push_bit_nat_def mult.commute)
  next
    case False
    then have c: "contents q = drop ?h (qBuf q) @ take ?t (qBuf q)" using contents_slices [OF assms] by simp
    let ?a = "drop ?h (qBuf q)" and ?b = "take ?t (qBuf q)"
    have l: "length ?a + length ?b = qCount q" using len unfolding c by simp
    then have "goCopy ?new ?a = (?a @ replicate (2 * qCount q - length ?a) z, length ?a)"
      by (subst goCopy_fits) auto
    moreover have "goCopy (replicate (2 * qCount q - length ?a) z) ?b =
        (?b @ replicate (qCount q) z, length ?b)"
      using l by (subst goCopy_fits) auto
    ultimately show ?thesis using False c
      by (simp add: resize_def push_bit_nat_def mult.commute Let_def)
  qed
  show "qHead (resize z q) = 0" "qTail (resize z q) = qCount q" "qCount (resize z q) = qCount q"
    by (simp_all add: resize_def Let_def)
qed

lemma resize_keeps:
  assumes "queueInv q" "0 < qCount q"
  shows "contents (resize z q) = contents q" "length (qBuf (resize z q)) = 2 * qCount q"
  using resize_contents [OF assms] contents_length [OF assms(1)] by (simp_all add: contents_def [of "resize z q"])


lemma queueInv_New [wf_intros]: "queueInv (NewQueue z)" "contents (NewQueue z) = []"
proof -
  have "(16 :: nat) = 2 ^ 4" by simp
  then show "queueInv (NewQueue z)" by (auto simp: queueInv_def NewQueue_def minQueueLen_def)
  show "contents (NewQueue z) = []" by (simp add: contents_def NewQueue_def)
qed

text \<open>Writing the slot after the last element, and clearing the slot of the first.\<close>

lemma mod_shift_inj:
  "i < n \<Longrightarrow> j < n \<Longrightarrow> (h + i) mod n = (h + j) mod n \<Longrightarrow> i = j" for i :: nat
proof -
  assume ij: "i < n" "j < n" "(h + i) mod n = (h + j) mod n"
  obtain a where a: "a = h mod n" by blast
  then have "a < n" using ij by simp
  then have red: "(a + k) mod n = (if a + k < n then a + k else a + k - n)" if "k < n" for k
    using that by (simp add: mod_if)
  have "(a + i) mod n = (a + j) mod n" using ij a by (simp add: mod_add_left_eq)
  then show "i = j" using red ij \<open>a < n\<close> by (auto split: if_splits)
qed

lemma store_last:
  assumes "queueInv q" "qCount q < length (qBuf q)"
  shows "queueInv (q\<lparr>qBuf := (qBuf q)[qTail q := x], qTail := (qTail q + 1) mod length (qBuf q), qCount := qCount q + 1\<rparr>)"
    and "contents (q\<lparr>qBuf := (qBuf q)[qTail q := x], qTail := (qTail q + 1) mod length (qBuf q), qCount := qCount q + 1\<rparr>) = contents q @ [x]"
proof -
  let ?q = "q\<lparr>qBuf := (qBuf q)[qTail q := x], qTail := (qTail q + 1) mod length (qBuf q), qCount := qCount q + 1\<rparr>"
  let ?n = "length (qBuf q)"
  have t: "qTail q = (qHead q + qCount q) mod ?n" "qHead q < ?n" using assms(1) by (simp_all add: queueInv_def)
  then show inv: "queueInv ?q" using assms by (simp add: queueInv_def mod_Suc_eq)
  show "contents ?q = contents q @ [x]"
  proof (rule nth_equalityI)
    show len: "length (contents ?q) = length (contents q @ [x])"
      using contents_length [OF inv] contents_length [OF assms(1)] by simp
    fix i assume "i < length (contents ?q)"
    then have i: "i < qCount q + 1" using contents_length [OF inv] by simp
    then have *: "contents ?q ! i = (qBuf q)[qTail q := x] ! ((qHead q + i) mod ?n)"
      using contents_nth [OF inv, of i] by simp
    show "contents ?q ! i = (contents q @ [x]) ! i"
    proof (cases "i = qCount q")
      case True
      have "qTail q < ?n" using t by (simp add: mod_less_divisor [OF le_less_trans [OF _ t(2)]])
      with True t(1) show ?thesis unfolding * by (simp add: nth_append contents_length [OF assms(1)])
    next
      case False
      with i have i': "i < qCount q" by simp
      then have "(qHead q + i) mod ?n \<noteq> qTail q"
        using mod_shift_inj [of i ?n "qCount q" "qHead q"] assms(2) t(1) by fastforce
      with i' show ?thesis unfolding *
        by (simp add: nth_append contents_length [OF assms(1)] contents_nth [OF assms(1)])
    qed
  qed
qed

lemma drop_first:
  assumes "queueInv q" "0 < qCount q"
  shows "queueInv (q\<lparr>qBuf := (qBuf q)[qHead q := z], qHead := (qHead q + 1) mod length (qBuf q), qCount := qCount q - 1\<rparr>)"
    and "contents q = qBuf q ! qHead q #
      contents (q\<lparr>qBuf := (qBuf q)[qHead q := z], qHead := (qHead q + 1) mod length (qBuf q), qCount := qCount q - 1\<rparr>)"
proof -
  let ?q = "q\<lparr>qBuf := (qBuf q)[qHead q := z], qHead := (qHead q + 1) mod length (qBuf q), qCount := qCount q - 1\<rparr>"
  let ?n = "length (qBuf q)"
  have t: "qTail q = (qHead q + qCount q) mod ?n" "qHead q < ?n" "qCount q \<le> ?n" using assms(1) by (simp_all add: queueInv_def)
  have "(qHead q + 1 + (qCount q - 1)) mod ?n = qTail q" using assms(2) t(1) by simp
  then have "((qHead q + 1) mod ?n + (qCount q - 1)) mod ?n = qTail q" by (simp only: mod_add_left_eq)
  then show inv: "queueInv ?q"
    using assms(1) t(3) mod_less_divisor [OF le_less_trans [OF le0 t(2)]] by (simp add: queueInv_def)
  show "contents q = qBuf q ! qHead q # contents ?q"
  proof (rule nth_equalityI)
    show "length (contents q) = length (qBuf q ! qHead q # contents ?q)"
      using contents_length [OF inv] contents_length [OF assms(1)] assms(2) by simp
    fix i assume "i < length (contents q)"
    then have i: "i < qCount q" using contents_length [OF assms(1)] by simp
    show "contents q ! i = (qBuf q ! qHead q # contents ?q) ! i"
    proof (cases i)
      case 0
      with i t show ?thesis by (simp add: contents_nth [OF assms(1)])
    next
      case (Suc j)
      have eq: "((qHead q + 1) mod ?n + j) mod ?n = (qHead q + i) mod ?n" by (simp add: Suc mod_add_left_eq)
      have "(qHead q + i) mod ?n \<noteq> qHead q"
        using mod_shift_inj [of i ?n 0 "qHead q"] i t Suc by fastforce
      then show ?thesis using i contents_nth [OF inv, of j] eq
        by (simp add: contents_nth [OF assms(1)] Suc)
    qed
  qed
qed

lemma resize_inv:
  assumes "queueInv q" "0 < qCount q" "2 * qCount q = 2 ^ k" "4 \<le> k"
  shows "queueInv (resize z q)"
  using resize_contents [OF assms(1,2)] resize_keeps [OF assms(1,2), of z] assms(2-4)
  by (auto simp: queueInv_def)

lemma Push_refines:
  assumes "queueInv q"
  shows "queueInv (Push z q x)" "contents (Push z q x) = contents q @ [x]"
proof -
  let ?n = "length (qBuf q)"
  define p where "p = (if qCount q = ?n then resize z q else q)"
  obtain k where k: "k \<ge> 4" "?n = 2 ^ k" using assms by (auto simp: queueInv_def)
  have "16 \<le> ?n" by (rule queueInv_length [OF assms])
  then have p: "queueInv p" "contents p = contents q" "qCount p < length (qBuf p)"
    using resize_inv [OF assms, of "Suc k" z] resize_keeps [OF assms, of z] resize_contents [OF assms, of z] k assms
    by (auto simp: p_def queueInv_def)
  have "Push z q x = p\<lparr>qBuf := (qBuf p)[qTail p := x], qTail := (qTail p + 1) mod length (qBuf p), qCount := qCount p + 1\<rparr>"
    unfolding Push_def p_def [symmetric] Let_def queueInv_mask [OF p(1)] ..
  with store_last [OF p(1,3), of x] p(2) show "queueInv (Push z q x)" "contents (Push z q x) = contents q @ [x]"
    by simp_all
qed

lemma Pop_refines:
  assumes "queueInv q"
  shows "queueInv (snd (Pop z q))"
    and "(fst (Pop z q), contents (snd (Pop z q))) =
      (case contents q of [] \<Rightarrow> (Inl EPopEmpty, []) | x # xs \<Rightarrow> (Inr x, xs))"
proof -
  define p where "p = q\<lparr>qBuf := (qBuf q)[qHead q := z], qHead := (qHead q + 1) mod length (qBuf q), qCount := qCount q - 1\<rparr>"
  have *: "queueInv (snd (Pop z q)) \<and> (fst (Pop z q), contents (snd (Pop z q))) =
      (case contents q of [] \<Rightarrow> (Inl EPopEmpty, []) | x # xs \<Rightarrow> (Inr x, xs))"
  proof (cases "qCount q = 0")
    case True
    with assms contents_length [OF assms] show ?thesis by (simp add: Pop_def)
  next
    case False
    then have pos: "0 < qCount q" by simp
    have p: "queueInv p" "contents q = qBuf q ! qHead q # contents p"
      using drop_first [OF assms pos, of z] by (simp_all add: p_def)
    define r where "r = (if length (qBuf p) > minQueueLen \<and> push_bit 2 (qCount p) = length (qBuf p) then resize z p else p)"
    have P: "Pop z q = (Inr (qBuf q ! qHead q), r)"
      using False queueInv_mask [OF assms] by (simp add: Pop_def Let_def r_def p_def)
    have "queueInv r \<and> contents r = contents p"
    proof (cases "length (qBuf p) > minQueueLen \<and> push_bit 2 (qCount p) = length (qBuf p)")
      case True
      obtain k where k: "length (qBuf p) = 2 ^ k" "4 \<le> k" using p(1) by (auto simp: queueInv_def)
      with True have "(2 :: nat) ^ 4 < 2 ^ k" by (simp add: minQueueLen_def)
      then have "4 < k" by (rule power_less_imp_less_exp [rotated]) simp
      then obtain j where j: "k = Suc j" "4 \<le> j" by (cases k) auto
      with True k have "2 * qCount p = 2 ^ j" "0 < qCount p" by (auto simp: push_bit_nat_def)
      with True p(1) j show ?thesis by (simp add: r_def resize_inv resize_keeps)
    next
      case False
      with p(1) show ?thesis by (simp only: r_def if_False)
    qed
    with P p(2) show ?thesis by simp
  qed
  then show "queueInv (snd (Pop z q))" by blast
  from * show "(fst (Pop z q), contents (snd (Pop z q))) =
      (case contents q of [] \<Rightarrow> (Inl EPopEmpty, []) | x # xs \<Rightarrow> (Inr x, xs))" by blast
qed

lemma Peek_refines:
  "queueInv q \<Longrightarrow> Peek q = (case contents q of [] \<Rightarrow> Inl EPeekEmpty | x # xs \<Rightarrow> Inr x)"
  using contents_length [of q] drop_first(2) [of q "qBuf q ! 0"]
  by (cases "qCount q = 0") (simp_all add: Peek_def split: list.split)

lemma Len_refines: "queueInv q \<Longrightarrow> Len q = length (contents q)"
  by (simp add: Len_def contents_length)

section \<open>Sequences of operations\<close>

datatype 'a queueOp = DoPush 'a | DoPop | DoPeek | DoLen

datatype 'a queueOut = Done | Elem "queueError + 'a" | Size nat

definition queueStep :: "'a \<Rightarrow> 'a queue \<Rightarrow> 'a queueOp \<Rightarrow> 'a queueOut \<times> 'a queue" where
  "queueStep z q c =
     (case c of
        DoPush x \<Rightarrow> (Done, Push z q x)
      | DoPop \<Rightarrow> (let (r, q') = Pop z q in (Elem r, q'))
      | DoPeek \<Rightarrow> (Elem (Peek q), q)
      | DoLen \<Rightarrow> (Size (Len q), q))"

text \<open>The same operations on a list.\<close>

definition listStep :: "'a list \<Rightarrow> 'a queueOp \<Rightarrow> 'a queueOut \<times> 'a list" where
  "listStep xs c =
     (case c of
        DoPush x \<Rightarrow> (Done, xs @ [x])
      | DoPop \<Rightarrow> (case xs of [] \<Rightarrow> (Elem (Inl EPopEmpty), []) | y # ys \<Rightarrow> (Elem (Inr y), ys))
      | DoPeek \<Rightarrow> (Elem (case xs of [] \<Rightarrow> Inl EPeekEmpty | y # ys \<Rightarrow> Inr y), xs)
      | DoLen \<Rightarrow> (Size (length xs), xs))"

interpretation ring: refinement "queueStep z" listStep queueInv contents for z
proof
  fix q :: "'a queue" and c
  assume q: "queueInv q"
  show "queueInv (snd (queueStep z q c))"
    using q Pop_refines(1) [OF q, of z] by (cases c) (auto simp: queueStep_def Push_refines split_beta)
  show "listStep (contents q) c = (fst (queueStep z q c), contents (snd (queueStep z q c)))"
    using q Pop_refines(2) [OF q, of z]
    by (cases c) (auto simp: queueStep_def listStep_def Push_refines Peek_refines Len_refines split_beta
        split: list.splits)
qed

text \<open>C14: a new queue behaves as a first-in first-out list under every sequence of \<open>Push\<close>,
  \<open>Pop\<close>, \<open>Peek\<close> and \<open>Len\<close>, however often the ring buffer wraps around, grows or shrinks;
  and its length stays a power of two of at least \<open>minQueueLen\<close>.\<close>

theorem Queue_is_fifo:
  "fst (runOps (queueStep z) (NewQueue z) cs) = fst (runOps listStep [] cs) \<and>
   contents (snd (runOps (queueStep z) (NewQueue z) cs)) = snd (runOps listStep [] cs) \<and>
   (\<exists>k. length (qBuf (snd (runOps (queueStep z) (NewQueue z) cs))) = 2 ^ k) \<and>
   minQueueLen \<le> length (qBuf (snd (runOps (queueStep z) (NewQueue z) cs)))"
  using ring.run_refines [OF queueInv_New(1), of z z cs] queueInv_New(2) [of z]
    queueInv_length [of "snd (runOps (queueStep z) (NewQueue z) cs)"]
  by (auto simp: queueInv_def minQueueLen_def)

text \<open>The buffer is minimal or more than a quarter full.\<close>

definition spaceInv :: "'a queue \<Rightarrow> bool" where
  "spaceInv q \<longleftrightarrow> queueInv q \<and> (length (qBuf q) = minQueueLen \<or> length (qBuf q) < 4 * qCount q)"

lemma Push_space: "spaceInv q \<Longrightarrow> spaceInv (Push z q x)"
proof -
  assume s: "spaceInv q"
  then have q: "queueInv q" by (simp add: spaceInv_def)
  then have "16 \<le> length (qBuf q)" by (rule queueInv_length)
  then have "length (qBuf (Push z q x)) = minQueueLen \<or> length (qBuf (Push z q x)) < 4 * qCount (Push z q x)"
    using s resize_keeps(2) [OF q, of z] resize_contents(4) [OF q, of z]
    by (auto simp: Push_def Let_def spaceInv_def)
  with Push_refines(1) [OF q] show ?thesis by (simp add: spaceInv_def)
qed

lemma Pop_space: "spaceInv q \<Longrightarrow> spaceInv (snd (Pop z q))"
proof -
  assume s: "spaceInv q"
  then have q: "queueInv q" by (simp add: spaceInv_def)
  show ?thesis
  proof (cases "qCount q = 0")
    case True
    with s show ?thesis by (simp add: Pop_def)
  next
    case False
    define p where "p = q\<lparr>qBuf := (qBuf q)[qHead q := z], qHead := (qHead q + 1) mod length (qBuf q), qCount := qCount q - 1\<rparr>"
    have p: "queueInv p" "length (qBuf p) = length (qBuf q)" "qCount p = qCount q - 1"
      using drop_first(1) [OF q, of z] False by (simp_all add: p_def)
    define r where "r = (if length (qBuf p) > minQueueLen \<and> push_bit 2 (qCount p) = length (qBuf p) then resize z p else p)"
    have P: "snd (Pop z q) = r"
      using False queueInv_mask [OF q] by (simp add: Pop_def Let_def r_def p_def)
    obtain k where k: "length (qBuf q) = 2 ^ k" "4 \<le> k" using q by (auto simp: queueInv_def)
    obtain j where "k = Suc (Suc j)" using k(2) by (metis One_nat_def add_2_eq_Suc le_Suc_ex numeral_Bit0 numeral_One add.assoc)
    then have "(2 :: nat) ^ k = 4 * 2 ^ j" by simp
    then have "length (qBuf r) = minQueueLen \<or> length (qBuf r) < 4 * qCount r"
      using s p k(1) resize_keeps(2) [OF p(1), of z] resize_contents(4) [OF p(1), of z] queueInv_length [OF q]
      by (auto simp: r_def spaceInv_def push_bit_nat_def minQueueLen_def)
    with P Pop_refines(1) [OF q, of z] show ?thesis by (simp add: spaceInv_def)
  qed
qed

lemma run_space: "spaceInv q \<Longrightarrow> spaceInv (snd (runOps (queueStep z) q cs))"
proof (induction cs arbitrary: q)
  case (Cons c cs)
  have "spaceInv (snd (queueStep z q c))"
    using Cons.prems by (cases c) (auto simp: queueStep_def Push_space Pop_space split_beta)
  from Cons.IH [OF this] show ?case by (simp add: split_beta Let_def)
qed simp

text \<open>After every sequence of operations the buffer of a queue is of the minimal length or more
  than a quarter of it is in use.\<close>

theorem Queue_space_bound:
  "length (qBuf (snd (runOps (queueStep z) (NewQueue z) cs))) \<le>
     max minQueueLen (4 * Len (snd (runOps (queueStep z) (NewQueue z) cs)))"
proof -
  have "spaceInv (NewQueue z)" using queueInv_New(1) by (simp add: spaceInv_def NewQueue_def)
  from run_space [OF this, of z cs] show ?thesis by (auto simp: spaceInv_def Len_def)
qed

end
