(* ===== verification/Task_Queue.thy ===== *)
theory Task_Queue
  imports Shared_Queue Task_Model
begin

text \<open>
  The queue backends of the task queue worker: the interface \<open>QueueStorage\<close> (\<open>queue.go\<close>),
  \<open>inMemQueue\<close> (\<open>queue_inmem.go\<close>) over the ring buffer, and \<open>redisQueue\<close> (\<open>queue_redis.go\<close>) over a
  Redis server that is a parameter.  The interface is a locale whose laws say that a task name owns a
  first-in first-out list of job ids; both backends are shown to satisfy it.  The mutex makes each
  operation one step.
\<close>

section \<open>The interface\<close>

locale queue_storage =
  fixes inv :: "'s \<Rightarrow> bool"
    and view :: "'s \<Rightarrow> string \<Rightarrow> string list"
    and push :: "'s \<Rightarrow> job \<Rightarrow> int \<times> 's"
    and pop :: "'s \<Rightarrow> string \<Rightarrow> string \<times> 's"
    and nxt :: "'s \<Rightarrow> string \<Rightarrow> string \<times> 's"
    and clear :: "'s \<Rightarrow> string \<Rightarrow> 's"
  assumes push_inv: "inv s \<Longrightarrow> inv (snd (push s j))"
    and push_view: "inv s \<Longrightarrow> view (snd (push s j)) = (view s)(jTaskName j := view s (jTaskName j) @ [jID j])"
    and push_count: "inv s \<Longrightarrow> fst (push s j) = int (length (view s (jTaskName j))) + 1"
    and pop_inv: "inv s \<Longrightarrow> inv (snd (pop s t))"
    and pop_view: "inv s \<Longrightarrow> view (snd (pop s t)) = (view s)(t := tl (view s t))"
    and pop_result: "inv s \<Longrightarrow> fst (pop s t) = (case view s t of [] \<Rightarrow> [] | x # _ \<Rightarrow> x)"
    and nxt_inv: "inv s \<Longrightarrow> inv (snd (nxt s t))"
    and nxt_view: "inv s \<Longrightarrow> view (snd (nxt s t)) = view s"
    and nxt_result: "inv s \<Longrightarrow> fst (nxt s t) = (case view s t of [] \<Rightarrow> [] | x # _ \<Rightarrow> x)"
    and clear_inv: "inv s \<Longrightarrow> inv (clear s t)"
    and clear_view: "inv s \<Longrightarrow> view (clear s t) = (view s)(t := [])"
begin

fun pushAll :: "'s \<Rightarrow> job list \<Rightarrow> 's" where
  "pushAll s [] = s"
| "pushAll s (j # js) = pushAll (snd (push s j)) js"

fun popN :: "nat \<Rightarrow> 's \<Rightarrow> string \<Rightarrow> string list \<times> 's" where
  "popN 0 s t = ([], s)"
| "popN (Suc n) s t = (let (x, s1) = pop s t; (xs, s2) = popN n s1 t in (x # xs, s2))"

lemma pushAll_view:
  "inv s \<Longrightarrow> inv (pushAll s js) \<and>
     view (pushAll s js) t = view s t @ map jID (filter (\<lambda>j. jTaskName j = t) js)"
  by (induction js arbitrary: s) (auto simp: push_inv push_view)

lemma popN_view:
  "inv s \<Longrightarrow> n \<le> length (view s t) \<Longrightarrow> inv (snd (popN n s t)) \<and> fst (popN n s t) = take n (view s t) \<and>
     view (snd (popN n s t)) = (view s)(t := drop n (view s t))"
proof (induction n arbitrary: s)
  case (Suc n)
  obtain x xs where v: "view s t = x # xs" using Suc.prems by (cases "view s t") auto
  have "inv (snd (pop s t))" "view (snd (pop s t)) = (view s)(t := xs)" "fst (pop s t) = x"
    using Suc.prems(1) v by (simp_all add: pop_inv pop_view pop_result)
  with Suc.IH [of "snd (pop s t)"] Suc.prems(2) v show ?case by (auto simp: split_beta Let_def)
qed simp

text \<open>Jobs come out in the order in which they went in, each task by itself.\<close>

lemma fifo:
  assumes "inv s" "view s t = []"
  shows "fst (popN (length (filter (\<lambda>j. jTaskName j = t) js)) (pushAll s js) t) =
    map jID (filter (\<lambda>j. jTaskName j = t) js)"
  using pushAll_view [OF assms(1), of js t] popN_view [of "pushAll s js" "length (filter (\<lambda>j. jTaskName j = t) js)" t] assms(2)
  by simp

lemma next_is_pop: "inv s \<Longrightarrow> fst (nxt s t) = fst (pop (snd (nxt s t)) t)"
  by (simp add: nxt_inv nxt_view nxt_result pop_result)

end

section \<open>In memory\<close>

type_synonym inMemQueue = "string \<rightharpoonup> string queue"

definition NewInMemQueue :: inMemQueue where
  "NewInMemQueue = (\<lambda>_. None)"

text \<open>The queue of a task, created where there is none.\<close>

definition orNewQueue :: "string queue option \<Rightarrow> string queue" where
  "orNewQueue q = (case q of None \<Rightarrow> NewQueue [] | Some q \<Rightarrow> q)"

definition inMem_PushJob :: "inMemQueue \<Rightarrow> job \<Rightarrow> int \<times> inMemQueue" where
  "inMem_PushJob i j =
     (let i = (if i (jTaskName j) = None then i(jTaskName j \<mapsto> NewQueue []) else i);
          q = Push [] (the (i (jTaskName j))) (jID j)
      in (int (Len q), i(jTaskName j \<mapsto> q)))"

definition inMem_PopJob :: "inMemQueue \<Rightarrow> string \<Rightarrow> string \<times> inMemQueue" where
  "inMem_PopJob i taskName =
     (let i = (if i taskName = None then i(taskName \<mapsto> NewQueue []) else i);
          (r, q) = Pop [] (the (i taskName))
      in ((case r of Inl _ \<Rightarrow> [] | Inr el \<Rightarrow> el), i(taskName \<mapsto> q)))"

definition inMem_NextJob :: "inMemQueue \<Rightarrow> string \<Rightarrow> string \<times> inMemQueue" where
  "inMem_NextJob i taskName =
     (let i = (if i taskName = None then i(taskName \<mapsto> NewQueue []) else i)
      in ((case Peek (the (i taskName)) of Inl _ \<Rightarrow> [] | Inr el \<Rightarrow> el), i))"

definition inMem_Clear :: "inMemQueue \<Rightarrow> string \<Rightarrow> inMemQueue" where
  "inMem_Clear i taskName = i(taskName \<mapsto> NewQueue [])"

definition inMemInv :: "inMemQueue \<Rightarrow> bool" where
  "inMemInv i \<longleftrightarrow> (\<forall>t q. i t = Some q \<longrightarrow> queueInv q)"

definition inMemView :: "inMemQueue \<Rightarrow> string \<Rightarrow> string list" where
  "inMemView i t = (case i t of None \<Rightarrow> [] | Some q \<Rightarrow> contents q)"

lemma inMem_orNew:
  "inMem_PushJob i j = (let q = Push [] (orNewQueue (i (jTaskName j))) (jID j) in (int (Len q), i(jTaskName j \<mapsto> q)))"
  "inMem_PopJob i t = (let (r, q) = Pop [] (orNewQueue (i t)) in ((case r of Inl _ \<Rightarrow> [] | Inr el \<Rightarrow> el), i(t \<mapsto> q)))"
  "inMem_NextJob i t = ((case Peek (orNewQueue (i t)) of Inl _ \<Rightarrow> [] | Inr el \<Rightarrow> el), i(t \<mapsto> orNewQueue (i t)))"
  by (auto simp: inMem_PushJob_def inMem_PopJob_def inMem_NextJob_def orNewQueue_def Let_def fun_upd_idem_iff
      split: option.splits)

lemma orNewQueue_inv:
  assumes "inMemInv i"
  shows "queueInv (orNewQueue (i t))" "contents (orNewQueue (i t)) = inMemView i t"
  using assms queueInv_New [of "[] :: string"]
  by (auto simp: inMemInv_def orNewQueue_def inMemView_def split: option.splits)

lemma inMemInv_upd: "inMemInv i \<Longrightarrow> queueInv q \<Longrightarrow> inMemInv (i(t \<mapsto> q))"
  by (auto simp: inMemInv_def)

lemma inMemView_upd: "inMemView (i(t \<mapsto> q)) = (inMemView i)(t := contents q)"
  by (auto simp: inMemView_def)

interpretation mem: queue_storage inMemInv inMemView inMem_PushJob inMem_PopJob inMem_NextJob inMem_Clear
proof
  fix s :: inMemQueue and j :: job and t :: string
  assume s: "inMemInv s"
  note q = orNewQueue_inv [OF s]
  show "inMemInv (snd (inMem_PushJob s j))"
    by (simp add: inMem_orNew Let_def inMemInv_upd s Push_refines(1) q)
  show "inMemView (snd (inMem_PushJob s j)) = (inMemView s)(jTaskName j := inMemView s (jTaskName j) @ [jID j])"
    by (simp add: inMem_orNew Let_def inMemView_upd Push_refines(2) q)
  show "fst (inMem_PushJob s j) = int (length (inMemView s (jTaskName j))) + 1"
    by (simp add: inMem_orNew Let_def Len_refines Push_refines q)
  note p = Pop_refines [OF q(1), of "[]"]
  show "inMemInv (snd (inMem_PopJob s t))"
    using p(1) by (simp add: inMem_orNew split_beta Let_def inMemInv_upd s)
  show "inMemView (snd (inMem_PopJob s t)) = (inMemView s)(t := tl (inMemView s t))"
    using p(2) [of t] q(2) [of t]
    by (cases "inMemView s t") (simp_all add: inMem_orNew split_beta Let_def inMemView_upd)
  show "fst (inMem_PopJob s t) = (case inMemView s t of [] \<Rightarrow> [] | x # _ \<Rightarrow> x)"
    using p(2) [of t] q(2) [of t]
    by (cases "inMemView s t") (simp_all add: inMem_orNew split_beta Let_def)
  show "inMemInv (snd (inMem_NextJob s t))" by (simp add: inMem_orNew inMemInv_upd s q)
  show "inMemView (snd (inMem_NextJob s t)) = inMemView s" by (simp add: inMem_orNew inMemView_upd q fun_upd_idem)
  show "fst (inMem_NextJob s t) = (case inMemView s t of [] \<Rightarrow> [] | x # _ \<Rightarrow> x)"
    using q(2) [of t] by (simp add: inMem_orNew Peek_refines q(1) split: list.split)
  show "inMemInv (inMem_Clear s t)" by (simp add: inMem_Clear_def inMemInv_upd s queueInv_New)
  show "inMemView (inMem_Clear s t) = (inMemView s)(t := [])"
    by (simp add: inMem_Clear_def inMemView_upd queueInv_New)
qed

section \<open>Redis\<close>

datatype redisCmd = RPUSH string string | LPOP string | LINDEX string int | DEL string | PING

datatype redisReply = RInt int | RBulk string | RNil | RErr string

text \<open>\<open>redis.Int64\<close> and \<open>redis.String\<close>: the value, or the error of the call or of the conversion.\<close>

definition redisInt64 :: "redisReply \<Rightarrow> string + int" where
  "redisInt64 r = (case r of RInt n \<Rightarrow> Inr n | RErr e \<Rightarrow> Inl e | RNil \<Rightarrow> Inl ''nil returned''
     | RBulk s \<Rightarrow> (let (v, ok) = Atoi s in if ok then Inr v else Inl ''invalid syntax''))"

definition redisString :: "redisReply \<Rightarrow> string + string" where
  "redisString r = (case r of RBulk s \<Rightarrow> Inr s | RErr e \<Rightarrow> Inl e | RNil \<Rightarrow> Inl ''nil returned'' | RInt n \<Rightarrow> Inl ''unexpected type'')"

text \<open>The server is a function \<open>Do\<close> from its state and a command to the reply and its next state.\<close>

definition redis_PushJob :: "('r \<Rightarrow> redisCmd \<Rightarrow> redisReply \<times> 'r) \<Rightarrow> 'r \<Rightarrow> job \<Rightarrow> int \<times> 'r" where
  "redis_PushJob Do r j =
     (let (reply, r') = Do r (RPUSH (jTaskName j) (jID j))
      in ((case redisInt64 reply of Inr n \<Rightarrow> n | Inl _ \<Rightarrow> 0), r'))"

definition redis_PopJob :: "('r \<Rightarrow> redisCmd \<Rightarrow> redisReply \<times> 'r) \<Rightarrow> 'r \<Rightarrow> string \<Rightarrow> string \<times> 'r" where
  "redis_PopJob Do r taskName =
     (let (reply, r') = Do r (LPOP taskName)
      in ((case redisString reply of Inr i \<Rightarrow> i | Inl _ \<Rightarrow> []), r'))"

definition redis_NextJob :: "('r \<Rightarrow> redisCmd \<Rightarrow> redisReply \<times> 'r) \<Rightarrow> 'r \<Rightarrow> string \<Rightarrow> string \<times> 'r" where
  "redis_NextJob Do r taskName =
     (let (reply, r') = Do r (LINDEX taskName 0)
      in ((case redisString reply of Inl _ \<Rightarrow> [] | Inr i \<Rightarrow> if length i = 0 then [] else i), r'))"

definition redis_Clear :: "('r \<Rightarrow> redisCmd \<Rightarrow> redisReply \<times> 'r) \<Rightarrow> 'r \<Rightarrow> string \<Rightarrow> 'r" where
  "redis_Clear Do r taskName = snd (Do r (DEL taskName))"

definition redis_Ping :: "('r \<Rightarrow> redisCmd \<Rightarrow> redisReply \<times> 'r) \<Rightarrow> 'r \<Rightarrow> string option" where
  "redis_Ping Do r = (case fst (Do r PING) of RErr e \<Rightarrow> Some (''redis ping: '' @ e) | _ \<Rightarrow> None)"

text \<open>What the commands do, as Redis documents it, on a server whose lists are \<open>view\<close>.\<close>

definition redisLists :: "('r \<Rightarrow> redisCmd \<Rightarrow> redisReply \<times> 'r) \<Rightarrow> ('r \<Rightarrow> string \<Rightarrow> string list) \<Rightarrow> bool" where
  "redisLists Do view \<longleftrightarrow> (\<forall>r k x.
     fst (Do r (RPUSH k x)) = RInt (int (length (view r k)) + 1) \<and>
     view (snd (Do r (RPUSH k x))) = (view r)(k := view r k @ [x]) \<and>
     fst (Do r (LPOP k)) = (case view r k of [] \<Rightarrow> RNil | y # _ \<Rightarrow> RBulk y) \<and>
     view (snd (Do r (LPOP k))) = (view r)(k := tl (view r k)) \<and>
     fst (Do r (LINDEX k 0)) = (case view r k of [] \<Rightarrow> RNil | y # _ \<Rightarrow> RBulk y) \<and>
     view (snd (Do r (LINDEX k 0))) = view r \<and>
     view (snd (Do r (DEL k))) = (view r)(k := []))"

lemma redis_storage:
  assumes "redisLists Do view"
  shows "queue_storage (\<lambda>_. True) view (redis_PushJob Do) (redis_PopJob Do) (redis_NextJob Do) (redis_Clear Do)"
proof
  fix s :: 'a and j :: job and t :: string
  note R = assms [unfolded redisLists_def, rule_format, THEN conjunct1]
    assms [unfolded redisLists_def, rule_format, THEN conjunct2]
  show "view (snd (redis_PushJob Do s j)) = (view s)(jTaskName j := view s (jTaskName j) @ [jID j])"
    "fst (redis_PushJob Do s j) = int (length (view s (jTaskName j))) + 1"
    using R by (simp_all add: redis_PushJob_def split_beta redisInt64_def)
  show "view (snd (redis_PopJob Do s t)) = (view s)(t := tl (view s t))"
    "fst (redis_PopJob Do s t) = (case view s t of [] \<Rightarrow> [] | x # _ \<Rightarrow> x)"
    using R by (simp_all add: redis_PopJob_def split_beta redisString_def split: list.split)
  show "view (snd (redis_NextJob Do s t)) = view s"
    "fst (redis_NextJob Do s t) = (case view s t of [] \<Rightarrow> [] | x # _ \<Rightarrow> x)"
    using R by (simp_all add: redis_NextJob_def split_beta redisString_def split: list.split)
  show "view (redis_Clear Do s t) = (view s)(t := [])" using R by (simp add: redis_Clear_def)
qed simp_all

section \<open>Sequences of operations\<close>

datatype storageOp = QPush job | QPop string | QNext string | QClear string

datatype storageOut = OCount int | OId string | ODone

definition storageStep :: "('s \<Rightarrow> job \<Rightarrow> int \<times> 's) \<Rightarrow> ('s \<Rightarrow> string \<Rightarrow> string \<times> 's) \<Rightarrow> ('s \<Rightarrow> string \<Rightarrow> string \<times> 's) \<Rightarrow>
    ('s \<Rightarrow> string \<Rightarrow> 's) \<Rightarrow> 's \<Rightarrow> storageOp \<Rightarrow> storageOut \<times> 's" where
  "storageStep push pop nxt clear s c =
     (case c of
        QPush j \<Rightarrow> (let (n, s') = push s j in (OCount n, s'))
      | QPop t \<Rightarrow> (let (i, s') = pop s t in (OId i, s'))
      | QNext t \<Rightarrow> (let (i, s') = nxt s t in (OId i, s'))
      | QClear t \<Rightarrow> (ODone, clear s t))"

text \<open>The specification: a list of job ids for each task.\<close>

definition listsStep :: "(string \<Rightarrow> string list) \<Rightarrow> storageOp \<Rightarrow> storageOut \<times> (string \<Rightarrow> string list)" where
  "listsStep v c =
     (case c of
        QPush j \<Rightarrow> (OCount (int (length (v (jTaskName j))) + 1), v(jTaskName j := v (jTaskName j) @ [jID j]))
      | QPop t \<Rightarrow> (OId (case v t of [] \<Rightarrow> [] | x # _ \<Rightarrow> x), v(t := tl (v t)))
      | QNext t \<Rightarrow> (OId (case v t of [] \<Rightarrow> [] | x # _ \<Rightarrow> x), v)
      | QClear t \<Rightarrow> (ODone, v(t := [])))"

sublocale queue_storage \<subseteq> ops: refinement "storageStep push pop nxt clear" listsStep inv view
proof
  fix s c
  assume s: "inv s"
  show "inv (snd (storageStep push pop nxt clear s c))"
    using s by (cases c) (simp_all add: storageStep_def split_beta push_inv pop_inv nxt_inv clear_inv)
  show "listsStep (view s) c =
      (fst (storageStep push pop nxt clear s c), view (snd (storageStep push pop nxt clear s c)))"
    using s by (cases c) (simp_all add: storageStep_def listsStep_def split_beta push_view push_count pop_view
        pop_result nxt_view nxt_result clear_view)
qed

context queue_storage
begin

lemma seq_outputs: "inv s \<Longrightarrow> fst (runOps (storageStep push pop nxt clear) s cs) = fst (runOps listsStep (view s) cs)"
  by (rule ops.run_outputs)

end

text \<open>C11: the in-memory queue answers every sequence of \<open>PushJob\<close>, \<open>PopJob\<close>, \<open>NextJob\<close> and
  \<open>Clear\<close> as one first-in first-out list of job ids per task would, with the empty string for an
  empty list.\<close>

theorem inMemQueue_is_fifo:
  "fst (runOps (storageStep inMem_PushJob inMem_PopJob inMem_NextJob inMem_Clear) NewInMemQueue cs) =
   fst (runOps listsStep (\<lambda>_. []) cs)"
proof -
  have "inMemInv NewInMemQueue" "inMemView NewInMemQueue = (\<lambda>_. [])"
    by (auto simp: inMemInv_def inMemView_def NewInMemQueue_def)
  with mem.seq_outputs [of NewInMemQueue cs] show ?thesis by simp
qed

text \<open>C16: over a Redis server whose list commands behave as documented, the Redis queue gives the
  same answers.\<close>

theorem redisQueue_is_fifo:
  assumes "redisLists Do view" "view r = (\<lambda>_. [])"
  shows "fst (runOps (storageStep (redis_PushJob Do) (redis_PopJob Do) (redis_NextJob Do) (redis_Clear Do)) r cs) =
    fst (runOps listsStep (\<lambda>_. []) cs)"
  using queue_storage.seq_outputs [OF redis_storage [OF assms(1)], of r cs] assms(2) by simp

text \<open>A server that keeps its lists in a function.\<close>

definition listServer :: "(string \<Rightarrow> string list) \<Rightarrow> redisCmd \<Rightarrow> redisReply \<times> (string \<Rightarrow> string list)" where
  "listServer v c =
     (case c of
        RPUSH k x \<Rightarrow> (RInt (int (length (v k)) + 1), v(k := v k @ [x]))
      | LPOP k \<Rightarrow> (case v k of [] \<Rightarrow> (RNil, v) | y # ys \<Rightarrow> (RBulk y, v(k := ys)))
      | LINDEX k i \<Rightarrow> (if 0 \<le> i \<and> nat i < length (v k) then RBulk (v k ! nat i) else RNil, v)
      | DEL k \<Rightarrow> (RInt (if v k = [] then 0 else 1), v(k := []))
      | PING \<Rightarrow> (RBulk ''PONG'', v))"

lemma redisLists_listServer: "redisLists listServer (\<lambda>v. v)"
  by (auto simp: redisLists_def listServer_def split: list.split)

theorem redisQueue_is_fifo_witness:
  "fst (runOps (storageStep (redis_PushJob listServer) (redis_PopJob listServer) (redis_NextJob listServer) (redis_Clear listServer))
     (\<lambda>_. []) [QPush (emptyJob\<lparr>jTaskName := ''t'', jID := ''1''\<rparr>), QPush (emptyJob\<lparr>jTaskName := ''t'', jID := ''2''\<rparr>),
       QNext ''t'', QPop ''t'', QPop ''t'', QPop ''t'']) =
   [OCount 1, OCount 2, OId ''1'', OId ''1'', OId ''2'', OId '''']"
  unfolding redisQueue_is_fifo [OF redisLists_listServer, of "\<lambda>_. []", simplified]
  by (simp add: listsStep_def emptyJob_def)

end
