(* ===== verification/Candi_Locker.thy ===== *)
theory Candi_Locker
  imports Go_Base
begin

text \<open>
  \<open>candiutils\<close> lockers (\<open>src/candiutils/locker.go\<close>): \<open>RedisLocker\<close> over the counters of a Redis
  server, and \<open>NoopLocker\<close>.  The server is a map from keys to counters (0 for a key that does not
  exist) and a flag for a server that answers every command with an error.  Expiry is not
  modelled.  The protocol of processes that share one lock is a step relation: with \<open>IsLocked\<close> and
  \<open>Unlock\<close> alone at most one process holds the lock; with the time-out of \<open>Lock\<close> two can.
\<close>

section \<open>The lockers\<close>

record lockServer =
  lsVals :: "string \<Rightarrow> int"
  lsDown :: bool

datatype locker = NoopLocker | RedisLocker string

definition lockKeyOf :: "string \<Rightarrow> string \<Rightarrow> string" where
  "lockKeyOf prefix key = prefix @ '':'' @ key"

definition IsLocked :: "locker \<Rightarrow> string \<Rightarrow> lockServer \<Rightarrow> bool \<times> lockServer" where
  "IsLocked l key r =
     (case l of
        NoopLocker \<Rightarrow> (False, r)
      | RedisLocker prefix \<Rightarrow>
          let k = lockKeyOf prefix key; incr = lsVals r k + 1
          in if lsDown r then (False, r) else (incr > 1, r\<lparr>lsVals := (lsVals r)(k := incr)\<rparr>))"

definition HasBeenLocked :: "locker \<Rightarrow> string \<Rightarrow> lockServer \<Rightarrow> bool" where
  "HasBeenLocked l key r =
     (case l of NoopLocker \<Rightarrow> False | RedisLocker prefix \<Rightarrow> \<not> lsDown r \<and> lsVals r (lockKeyOf prefix key) > 0)"

definition Unlock :: "locker \<Rightarrow> string \<Rightarrow> lockServer \<Rightarrow> lockServer" where
  "Unlock l key r =
     (case l of
        NoopLocker \<Rightarrow> r
      | RedisLocker prefix \<Rightarrow>
          if lsDown r then r else r\<lparr>lsVals := (lsVals r)(lockKeyOf prefix key := 0)\<rparr>)"

text \<open>\<open>KEYS\<close> matches a glob pattern; \<open>Reset\<close> deletes every key that matches.  Only \<open>*\<close> is
  special among the patterns the worker uses.\<close>

fun globMatch :: "string \<Rightarrow> string \<Rightarrow> bool" where
  "globMatch [] s = (s = [])"
| "globMatch (p # ps) [] = (p = CHR ''*'' \<and> globMatch ps [])"
| "globMatch (p # ps) (c # cs) =
     (if p = CHR ''*'' then globMatch ps (c # cs) \<or> globMatch (p # ps) cs else p = c \<and> globMatch ps cs)"

definition Reset :: "locker \<Rightarrow> string \<Rightarrow> lockServer \<Rightarrow> lockServer" where
  "Reset l key r =
     (case l of
        NoopLocker \<Rightarrow> r
      | RedisLocker prefix \<Rightarrow>
          if lsDown r then r
          else r\<lparr>lsVals := (\<lambda>k. if globMatch (lockKeyOf prefix key) k then 0 else lsVals r k)\<rparr>)"

text \<open>\<open>Disconnect\<close> deletes the one key named \<open>prefix:*\<close>: \<open>DEL\<close> takes no pattern.\<close>

definition Disconnect :: "locker \<Rightarrow> lockServer \<Rightarrow> lockServer" where
  "Disconnect l r =
     (case l of
        NoopLocker \<Rightarrow> r
      | RedisLocker prefix \<Rightarrow> if lsDown r then r else r\<lparr>lsVals := (lsVals r)(lockKeyOf prefix ''*'' := 0)\<rparr>)"

datatype lockError = ETimeoutNotPositive | EKeyEmpty | ETimeout

text \<open>\<open>Lock\<close>: the checks and the first attempt; \<open>Inr False\<close> means that the caller now waits for the
  deletion of the key.\<close>

definition LockBegin :: "locker \<Rightarrow> string \<Rightarrow> int \<Rightarrow> lockServer \<Rightarrow> (lockError + bool) \<times> lockServer" where
  "LockBegin l key timeout r =
     (case l of
        NoopLocker \<Rightarrow> (Inr True, r)
      | RedisLocker prefix \<Rightarrow>
          if timeout \<le> 0 then (Inl ETimeoutNotPositive, r)
          else if key = [] then (Inl EKeyEmpty, r)
          else let (b, r') = IsLocked l key r in (Inr (\<not> b), r'))"

text \<open>A waiting caller that is notified tries again; one that waits too long gives up.\<close>

definition LockNotified :: "locker \<Rightarrow> string \<Rightarrow> lockServer \<Rightarrow> bool \<times> lockServer" where
  "LockNotified l key r = (let (b, r') = IsLocked l key r in (\<not> b, r'))"

definition LockTimedOut :: "locker \<Rightarrow> string \<Rightarrow> lockServer \<Rightarrow> lockError \<times> lockServer" where
  "LockTimedOut l key r = (ETimeout, Unlock l key r)"

section \<open>Processes that share a lock\<close>

text \<open>The server and the processes that believe to hold the lock.\<close>

type_synonym lockState = "lockServer \<times> nat set"

inductive tryStep :: "locker \<Rightarrow> string \<Rightarrow> lockState \<Rightarrow> lockState \<Rightarrow> bool" for l key where
  acquire: "IsLocked l key r = (False, r') \<Longrightarrow> tryStep l key (r, H) (r', insert p H)"
| refuse: "IsLocked l key r = (True, r') \<Longrightarrow> tryStep l key (r, H) (r', H)"
| release: "p \<in> H \<Longrightarrow> tryStep l key (r, H) (Unlock l key r, H - {p})"

inductive tryReach :: "locker \<Rightarrow> string \<Rightarrow> lockState \<Rightarrow> bool" for l key where
  start: "\<not> lsDown r \<Longrightarrow> lsVals r = (\<lambda>_. 0) \<Longrightarrow> tryReach l key (r, {})"
| step: "tryReach l key s \<Longrightarrow> tryStep l key s s' \<Longrightarrow> tryReach l key s'"

text \<open>With \<open>Lock\<close> there are also the processes that wait.\<close>

type_synonym waitState = "lockServer \<times> nat set \<times> nat set"

inductive lockStep :: "locker \<Rightarrow> string \<Rightarrow> waitState \<Rightarrow> waitState \<Rightarrow> bool" for l key where
  got: "LockBegin l key timeout r = (Inr True, r') \<Longrightarrow> lockStep l key (r, H, W) (r', insert p H, W)"
| wait: "LockBegin l key timeout r = (Inr False, r') \<Longrightarrow> lockStep l key (r, H, W) (r', H, insert p W)"
| notified: "p \<in> W \<Longrightarrow> LockNotified l key r = (True, r') \<Longrightarrow> lockStep l key (r, H, W) (r', insert p H, W - {p})"
| not_yet: "p \<in> W \<Longrightarrow> LockNotified l key r = (False, r') \<Longrightarrow> lockStep l key (r, H, W) (r', H, W)"
| give_up: "p \<in> W \<Longrightarrow> LockTimedOut l key r = (e, r') \<Longrightarrow> lockStep l key (r, H, W) (r', H, W - {p})"
| unlock: "p \<in> H \<Longrightarrow> lockStep l key (r, H, W) (Unlock l key r, H - {p}, W)"

inductive lockReach :: "locker \<Rightarrow> string \<Rightarrow> waitState \<Rightarrow> bool" for l key where
  start: "\<not> lsDown r \<Longrightarrow> lsVals r = (\<lambda>_. 0) \<Longrightarrow> lockReach l key (r, {}, {})"
| step: "lockReach l key s \<Longrightarrow> lockStep l key s s' \<Longrightarrow> lockReach l key s'"

inductive_cases tryStepE [elim]: "tryStep l key s s'"

definition lockInv :: "string \<Rightarrow> string \<Rightarrow> lockState \<Rightarrow> bool" where
  "lockInv prefix key s \<longleftrightarrow> \<not> lsDown (fst s) \<and> 0 \<le> lsVals (fst s) (lockKeyOf prefix key) \<and>
     (lsVals (fst s) (lockKeyOf prefix key) = 0 \<longrightarrow> snd s = {}) \<and> (\<exists>p. snd s \<subseteq> {p})"

lemma tryStep_inv:
  assumes "tryStep (RedisLocker prefix) key s s'" "lockInv prefix key s"
  shows "lockInv prefix key s'"
  using assms
proof cases
  case (acquire r r' H p)
  then have "lsVals r (lockKeyOf prefix key) = 0" "H = {}"
    using assms(2) by (auto simp: lockInv_def IsLocked_def Let_def split: if_splits)
  with acquire assms(2) show ?thesis by (auto simp: lockInv_def IsLocked_def Let_def split: if_splits)
next
  case (refuse r r' H)
  with assms(2) show ?thesis by (auto simp: lockInv_def IsLocked_def Let_def split: if_splits)
next
  case (release p H r)
  with assms(2) show ?thesis by (auto simp: lockInv_def Unlock_def)
qed

lemma tryReach_inv: "tryReach (RedisLocker prefix) key s \<Longrightarrow> lockInv prefix key s"
  by (induction rule: tryReach.induct) (auto simp: tryStep_inv, auto simp: lockInv_def)

text \<open>C12: processes that take the Redis lock with \<open>IsLocked\<close> and give back only what they hold never
  hold it at the same time, on a server that answers.\<close>

theorem locker_mutual_exclusion:
  assumes "tryReach (RedisLocker prefix) key (r, H)"
  shows "card H \<le> 1"
proof -
  from tryReach_inv [OF assms] obtain p where "H \<subseteq> {p}" by (auto simp: lockInv_def)
  then show ?thesis using card_mono [of "{p}" H] by simp
qed

definition freshServer :: lockServer where
  "freshServer = \<lparr>lsVals = (\<lambda>_. 0), lsDown = False\<rparr>"

theorem locker_mutual_exclusion_witness:
  "tryReach (RedisLocker ''LOCKFOR'') ''job'' (snd (IsLocked (RedisLocker ''LOCKFOR'') ''job'' freshServer), {7}) \<and>
   card {7 :: nat} \<le> 1"
proof -
  have "tryReach (RedisLocker ''LOCKFOR'') ''job'' (freshServer, {})"
    by (rule tryReach.start) (simp_all add: freshServer_def)
  moreover have "tryStep (RedisLocker ''LOCKFOR'') ''job'' (freshServer, {})
      (snd (IsLocked (RedisLocker ''LOCKFOR'') ''job'' freshServer), insert 7 {})"
    by (rule tryStep.acquire) (simp add: IsLocked_def freshServer_def Let_def)
  ultimately have r: "tryReach (RedisLocker ''LOCKFOR'') ''job'' (snd (IsLocked (RedisLocker ''LOCKFOR'') ''job'' freshServer), {7})"
    by (rule tryReach.step)
  from r locker_mutual_exclusion [OF r] show ?thesis by blast
qed

text \<open>The time-out of \<open>Lock\<close> deletes the key that another process holds, after which a third
  process gets the lock as well: two processes hold it.\<close>

theorem Lock_timeout_breaks_exclusion:
  "\<exists>r. lockReach (RedisLocker ''LOCKFOR'') ''job'' (r, {1, 3}, {})"
proof -
  let ?l = "RedisLocker ''LOCKFOR''" and ?k = "''job''"
  define r1 r2 where "r1 = snd (IsLocked ?l ?k freshServer)" and "r2 = snd (IsLocked ?l ?k r1)"
  define r3 r4 where "r3 = Unlock ?l ?k r2" and "r4 = snd (IsLocked ?l ?k r3)"
  note defs = r1_def r2_def r3_def r4_def LockBegin_def LockTimedOut_def IsLocked_def Unlock_def freshServer_def Let_def
  have "lockReach ?l ?k (freshServer, {}, {})" by (rule lockReach.start) (simp_all add: freshServer_def)
  moreover have "lockStep ?l ?k (freshServer, {}, {}) (r1, insert 1 {}, {})"
    by (rule lockStep.got [where timeout = 1]) (simp add: defs)
  moreover have "lockStep ?l ?k (r1, {1}, {}) (r2, {1}, insert 2 {})"
    by (rule lockStep.wait [where timeout = 1]) (simp add: defs)
  moreover have "lockStep ?l ?k (r2, {1}, {2}) (r3, {1}, {2} - {2})"
    by (rule lockStep.give_up [where e = ETimeout]) (simp_all add: defs)
  moreover have "lockStep ?l ?k (r3, {1}, {}) (r4, insert 3 {1}, {})"
    by (rule lockStep.got [where timeout = 1]) (simp add: defs)
  ultimately have "lockReach ?l ?k (r4, insert 3 {1}, {})" by (metis Diff_cancel lockReach.step)
  then show ?thesis by (metis insert_commute)
qed

text \<open>\<open>Disconnect\<close> leaves every held lock in place, since the deleted key is the literal
  \<open>prefix:*\<close>.\<close>

theorem Disconnect_keeps_locks:
  "key \<noteq> ''*'' \<Longrightarrow> HasBeenLocked (RedisLocker p) key (Disconnect (RedisLocker p) r) = HasBeenLocked (RedisLocker p) key r"
  by (simp add: HasBeenLocked_def Disconnect_def lockKeyOf_def)

theorem Disconnect_keeps_locks_witness:
  "HasBeenLocked (RedisLocker ''L'') ''job'' (Disconnect (RedisLocker ''L'') (snd (IsLocked (RedisLocker ''L'') ''job'' freshServer)))"
  unfolding Disconnect_keeps_locks [of "''job''", simplified]
  by (simp add: HasBeenLocked_def IsLocked_def freshServer_def Let_def)

end
