(* ===== verification/Task_Engine.thy ===== *)
theory Task_Engine
  imports Task_Summary Task_Queue Candi_Locker
begin

text \<open>
  The task queue worker (\<open>task_queue_worker.go\<close>, \<open>trigger_task.go\<close>, \<open>job_operation.go\<close>,
  \<open>internal_task.go\<close> and the mutations of \<open>graphql_resolver.go\<close>) over SQL persistence, the
  in-memory queue and a locker.  The state is one record; every operation is one step on it, which
  fixes the order of the goroutines that an operation starts: they run where they are started.  The
  clock reading \<open>now\<close> and the fresh id \<open>uuid\<close> are arguments.  Broadcasts to dashboard clients only
  read the state and are left out.  An operation that can panic or run forever (through the cron
  scheduler) returns a \<open>run\<close>.
\<close>

section \<open>State\<close>

record world =
  wDriver :: string
  wDB :: sqlDB
  wSecondary :: "sqlDB option"
  wQueue :: inMemQueue
  wTasks :: "string list"
  wTicker :: "string \<rightharpoonup> int"
  wSem :: "string \<Rightarrow> bool"
  wCurrent :: "string \<rightharpoonup> job"
  wCanceled :: "string \<Rightarrow> bool"
  wLocker :: locker
  wLocks :: lockServer
  wService :: string
  wExternalHost :: string
  wActive :: bool
  wShutdown :: bool
  wCtxDone :: bool
  wRetention :: "(expression option \<times> int option) option"

text \<open>\<open>wSecondary\<close> is \<open>None\<close> for \<open>noopPersistent\<close>; \<open>wTasks\<close> are the registered tasks; \<open>wTicker\<close> holds
  the running ticker of a task; \<open>wSem\<close> is the semaphore of its worker, \<open>wCurrent\<close> the job whose
  handlers run and \<open>wCanceled\<close> whether its context is canceled; \<open>wActive\<close> says that the global
  engine is set, \<open>wShutdown\<close> that it shuts down and \<open>wCtxDone\<close> that its context is done;
  \<open>wRetention\<close> is the internal task with its schedule and its ticker.\<close>

datatype 'r run = Done 'r world | Crash world | Forever

definition thenW :: "unit run \<Rightarrow> (world \<Rightarrow> 'r run) \<Rightarrow> 'r run" where
  "thenW r f = (case r of Done _ w \<Rightarrow> f w | Crash w \<Rightarrow> Crash w | Forever \<Rightarrow> Forever)"

definition getLockKey :: "world \<Rightarrow> string \<Rightarrow> string" where
  "getLockKey w jobID = wService w @ '':task-queue-worker-lock:'' @ jobID"

text \<open>A Go map literal with computed keys: a later entry replaces an earlier one with its key.\<close>

definition goMap :: "(string \<times> int) list \<Rightarrow> (string \<times> int) list" where
  "goMap kvs = foldl (\<lambda>m (k, v). AList.update k v m) [] kvs"

definition incrSummary :: "world \<Rightarrow> string \<Rightarrow> (string \<times> int) list \<Rightarrow> world" where
  "incrSummary w taskName incr = w\<lparr>wDB := IncrementSummary (wDriver w) (wDB w) taskName (goMap incr)\<rparr>"

definition updSummary :: "world \<Rightarrow> string \<Rightarrow> (string \<times> gval) list \<Rightarrow> world" where
  "updSummary w taskName upd = w\<lparr>wDB := UpdateSummary (wDB w) taskName upd\<rparr>"

definition pushJob :: "world \<Rightarrow> job \<Rightarrow> int \<times> world" where
  "pushJob w j = (let (n, q) = inMem_PushJob (wQueue w) j in (n, w\<lparr>wQueue := q\<rparr>))"

definition unlockKey :: "world \<Rightarrow> string \<Rightarrow> world" where
  "unlockKey w key = w\<lparr>wLocks := Unlock (wLocker w) key (wLocks w)\<rparr>"

section \<open>Workers\<close>

definition registerJobToWorker :: "gotime \<Rightarrow> world \<Rightarrow> job \<Rightarrow> unit run" where
  "registerJobToWorker now w j =
     (if jStatus j \<noteq> StatusQueueing then Done () w
      else case ParseNextRunningInterval now now now j of
        Diverges \<Rightarrow> Forever
      | Panics \<Rightarrow> Crash w
      | Returns (interval, err, j') \<Rightarrow>
          if err \<noteq> None \<or> interval \<le> 0 then Done () w
          else if jTaskName j \<notin> set (wTasks w) then Crash w
          else Done () (w\<lparr>wTicker := (wTicker w)(jTaskName j \<mapsto> interval)\<rparr>))"

definition stopAllJobInTask :: "world \<Rightarrow> string \<Rightarrow> world" where
  "stopAllJobInTask w taskName =
     (if taskName \<notin> set (wTasks w) then w
      else w\<lparr>wTicker := (wTicker w)(taskName := None), wCanceled := (wCanceled w)(taskName := True)\<rparr>)"

definition unlockTask :: "world \<Rightarrow> string \<Rightarrow> world" where
  "unlockTask w taskName =
     (if CountAllJob (wDB w) (emptyFilter\<lparr>fTaskName := taskName, fStatus := Some StatusRetrying\<rparr>) = 0
      then unlockKey w (getLockKey w taskName) else w)"

section \<open>Streaming jobs\<close>

datatype halt = HCrash | HForever

definition runToHandle :: "world \<Rightarrow> unit run \<Rightarrow> world \<times> halt option" where
  "runToHandle w r = (case r of Done _ w' \<Rightarrow> (w', None) | Crash w' \<Rightarrow> (w', Some HCrash) | Forever \<Rightarrow> (w, Some HForever))"

text \<open>\<open>StreamAllJob\<close> with its defaults; the callback gets the index, the total and the job.\<close>

definition StreamAllJob :: "jobFilter \<Rightarrow> (int \<Rightarrow> int \<Rightarrow> job \<Rightarrow> world \<Rightarrow> unit run) option \<Rightarrow> world \<Rightarrow> int run" where
  "StreamAllJob f streamFunc w =
     (let page = (if fPage f \<le> 0 then 1 else fPage f);
          limit = (if fLimit f \<le> 0 then 10 else fLimit f);
          perst = (\<lambda>w. if fSecondary f then wSecondary w else Some (wDB w));
          count = (case perst w of None \<Rightarrow> 0 | Some db \<Rightarrow> CountAllJob db f)
      in case streamFunc of
           None \<Rightarrow> Done count w
         | Some h \<Rightarrow>
             if count = 0 then Done count w
             else
               (case streamPages (ceilDiv count limit) page limit
                   (\<lambda>w p l. Inr (case perst w of None \<Rightarrow> [] | Some db \<Rightarrow> FindAllJob db (f\<lparr>fPage := p, fLimit := l\<rparr>)))
                   (\<lambda>i j w. runToHandle w (h i count j w)) w of
                  (w', None) \<Rightarrow> Done count w'
                | (w', Some HCrash) \<Rightarrow> Crash w'
                | (w', Some HForever) \<Rightarrow> Forever))"

definition pushStreamed :: "int \<Rightarrow> int \<Rightarrow> job \<Rightarrow> world \<Rightarrow> unit run" where
  "pushStreamed idx tot j w = Done () (snd (pushJob w j))"

text \<open>\<open>registerNextJob\<close> drops the ids at the head of the queue whose job does not wait; \<open>n\<close> bounds
  the number of drops, and one more than the length of the queue is enough.\<close>

fun registerNextQueued :: "nat \<Rightarrow> gotime \<Rightarrow> string \<Rightarrow> world \<Rightarrow> unit run" where
  "registerNextQueued n now taskName w =
     (let (nextJobID, q) = inMem_NextJob (wQueue w) taskName; w = w\<lparr>wQueue := q\<rparr>
      in if nextJobID = [] then Done () w
         else
           let nextJob = (case FindJobByID (wDB w) nextJobID None of Inl _ \<Rightarrow> emptyJob | Inr j \<Rightarrow> j)
           in if jStatus nextJob \<noteq> StatusQueueing then
                (case n of
                   0 \<Rightarrow> Forever
                 | Suc m \<Rightarrow> registerNextQueued m now taskName (w\<lparr>wQueue := snd (inMem_PopJob (wQueue w) taskName)\<rparr>))
              else registerJobToWorker now w nextJob)"

declare registerNextQueued.simps [simp del]

definition queueLength :: "world \<Rightarrow> string \<Rightarrow> nat" where
  "queueLength w taskName = (case wQueue w taskName of None \<Rightarrow> 0 | Some q \<Rightarrow> Len q)"

definition registerNextJob :: "bool \<Rightarrow> gotime \<Rightarrow> string \<Rightarrow> world \<Rightarrow> unit run" where
  "registerNextJob withStream now taskName w =
     (if withStream \<and> fst (inMem_NextJob (wQueue w) taskName) = [] then
        (case StreamAllJob (emptyFilter\<lparr>fTaskName := taskName, fSort := ''created_at'', fStatus := Some StatusQueueing\<rparr>)
            (Some pushStreamed) w of
           Done _ w' \<Rightarrow> registerNextQueued (queueLength w' taskName) now taskName w'
         | Crash w' \<Rightarrow> Crash w' | Forever \<Rightarrow> Forever)
      else registerNextQueued (queueLength w taskName) now taskName w)"

section \<open>Adding jobs\<close>

record addJobRequest =
  aTaskName :: string
  aMaxRetry :: int
  aArgs :: string
  aRetryInterval :: int
  aStartAt :: gotime
  aCronExpression :: string
  aDirect :: bool

text \<open>\<open>Validate\<close> keeps the schedule of a cron expression in the request; here it returns it.\<close>

definition Validate :: "addJobRequest \<Rightarrow> jobError + expression option" where
  "Validate a =
     (if aCronExpression a \<noteq> [] then
        (case Parse (aCronExpression a) of Inl e \<Rightarrow> Inl (ECron e) | Inr schedule \<Rightarrow> Inr (Some schedule))
      else if aTaskName a = [] then Inl (EOther ''Task name cannot empty'')
      else if aMaxRetry a \<le> 0 then Inl (EOther ''Max retry cannot less or equal than zero'')
      else if aRetryInterval a < 0 then Inl (EOther ''Retry interval cannot less than zero'')
      else Inr None)"

text \<open>\<open>AddJobViaHTTPRequest\<close>: \<open>post\<close> is the HTTP client.  It gets the address and the variables of
  the mutation and answers with a transport error or with the messages and the data of the response.
  The JSON texts around them are left out.\<close>

definition trimSlashes :: "string \<Rightarrow> string" where
  "trimSlashes s = rev (dropWhile (\<lambda>c. c = CHR ''/'') (rev (dropWhile (\<lambda>c. c = CHR ''/'') s)))"

definition AddJobViaHTTPRequest :: "(string \<Rightarrow> (string \<times> gval) list \<Rightarrow> string + string list \<times> string) \<Rightarrow> string \<Rightarrow>
    addJobRequest \<Rightarrow> string \<times> jobError option" where
  "AddJobViaHTTPRequest post workerHost a =
     (case Validate a of
        Inl e \<Rightarrow> ([], Some e)
      | Inr _ \<Rightarrow>
          let param = [(''task_name'', VStr (aTaskName a)), (''max_retry'', VInt (aMaxRetry a)), (''args'', VStr (aArgs a))] @
                (if aRetryInterval a > 0 then [(''retry_interval'', VStr (DurationString (aRetryInterval a)))] else [])
          in (case post (trimSlashes workerHost @ ''/graphql'') param of
                Inl e \<Rightarrow> ([], Some (EOther e))
              | Inr (errs, addJob) \<Rightarrow> (case errs of m # _ \<Rightarrow> ([], Some (EOther m)) | [] \<Rightarrow> (addJob, None))))"

definition unregistered :: "world \<Rightarrow> string \<Rightarrow> jobError" where
  "unregistered w taskName = EOther (''task '' @ [quoteChar] @ taskName @ [quoteChar] @ '' unregistered, task must one of ['' @
     JoinStr '', '' (wTasks w) @ '']'')"

text \<open>The job that a request asks for, before it is saved.  The outcome is that of the cron
  scheduler.\<close>

definition newJobOf :: "gotime \<Rightarrow> addJobRequest \<Rightarrow> expression option \<Rightarrow> job outcome" where
  "newJobOf now a schedule =
     (let j = emptyJob\<lparr>jTaskName := aTaskName a, jArguments := aArgs a, jMaxRetry := aMaxRetry a,
            jInterval := (if aRetryInterval a > 0 then DurationString (aRetryInterval a) else DurationString defaultInterval),
            jNextRunningAt := (if IsZero (aStartAt a) then zeroTime else aStartAt a),
            jStatus := StatusQueueing, jCreatedAt := now, jDirect := aDirect a\<rparr>
      in case schedule of
           None \<Rightarrow> Returns j
         | Some e \<Rightarrow>
             (case Next e (if IsZero (aStartAt a) then now else aStartAt a) of
                None \<Rightarrow> Diverges
              | Some (Inl _) \<Rightarrow> Panics
              | Some (Inr (t, _)) \<Rightarrow> Returns (j\<lparr>jInterval := aCronExpression a, jNextRunningAt := t\<rparr>)))"

text \<open>The part of \<open>AddJob\<close> after the job is made: saved, counted, queued and registered.\<close>

definition saveNewJob :: "gotime \<Rightarrow> string \<Rightarrow> world \<Rightarrow> job \<Rightarrow> (string \<times> jobError option) run" where
  "saveNewJob now uuid w j =
     (let summary = FindDetailSummary (wDB w) (jTaskName j);
          j = (if sIsHold summary then j\<lparr>jStatus := StatusHold,
                 jRetryHistories := [\<lparr>rhErrorStack = [], rhStatus = StatusHold, rhError = [], rhResult = [], rhTraceID = [],
                   rhStartAt = now, rhEndAt = now\<rparr>]\<rparr> else j)
      in case SaveJob uuid now (wDB w) j [] of
           (_, Some _, _) \<Rightarrow>
             (case wSecondary w of
                None \<Rightarrow> Done ([], None) w
              | Some db2 \<Rightarrow>
                  (case SaveJob uuid now db2 (j\<lparr>jID := []\<rparr>) [] of
                     (j2, err, db2') \<Rightarrow> Done (jID j2, err) (w\<lparr>wSecondary := Some db2'\<rparr>)))
         | (j1, None, db1) \<Rightarrow>
             let w = incrSummary (w\<lparr>wDB := db1\<rparr>) (jTaskName j1) [(ToLower (jStatus j1), 1)]
             in if sIsHold summary \<or> sIsLoading summary then Done (jID j1, None) w
                else
                  let (n, w) = pushJob w j1;
                      r = (if n \<le> 1 \<and> \<not> wSem w (jTaskName j1) then registerJobToWorker now w j1 else Done () w)
                  in thenW r (\<lambda>w. Done (jID j1, None)
                       (if HasBeenLocked (wLocker w) (getLockKey w (jTaskName j1)) (wLocks w)
                        then unlockTask w (jTaskName j1) else w)))"

text \<open>\<open>AddJob\<close>: its deferred function turns a panic into an error.\<close>

definition recovering :: "(string \<times> jobError option) run \<Rightarrow> (string \<times> jobError option) run" where
  "recovering r = (case r of Crash w \<Rightarrow> Done ([], Some (EOther ''panic'')) w | _ \<Rightarrow> r)"

definition AddJob :: "(string \<Rightarrow> (string \<times> gval) list \<Rightarrow> string + string list \<times> string) \<Rightarrow> gotime \<Rightarrow> string \<Rightarrow> world \<Rightarrow>
    addJobRequest \<Rightarrow> (string \<times> jobError option) run" where
  "AddJob post now uuid w a =
     (case Validate a of
        Inl e \<Rightarrow> Done ([], Some e) w
      | Inr schedule \<Rightarrow>
          if \<not> aDirect a \<and> wExternalHost w \<noteq> [] then Done (AddJobViaHTTPRequest post (wExternalHost w) a) w
          else if \<not> wActive w then Done ([], Some EInactive) w
          else if aTaskName a \<notin> set (wTasks w) then Done ([], Some (unregistered w (aTaskName a))) w
          else if aCronExpression a \<noteq> [] \<and>
              CountAllJob (wDB w) (emptyFilter\<lparr>fTaskName := aTaskName a, fMaxRetry := Some 0,
                fStatuses := [StatusQueueing, StatusRetrying]\<rparr>) > 0
          then Done ([], Some (EOther (''there is running cron job in task '' @ [quoteChar] @ aTaskName a @ [quoteChar]))) w
          else
            recovering
              (case newJobOf now a schedule of
                 Diverges \<Rightarrow> Forever
               | Panics \<Rightarrow> Crash w
               | Returns j \<Rightarrow> saveNewJob now uuid w j))"

definition AddJobWorkerHandler :: "(string \<Rightarrow> (string \<times> gval) list \<Rightarrow> string + string list \<times> string) \<Rightarrow> gotime \<Rightarrow> string \<Rightarrow>
    world \<Rightarrow> string \<Rightarrow> string \<Rightarrow> (string \<times> jobError option) run" where
  "AddJobWorkerHandler post now uuid w taskName message =
     AddJob post now uuid w \<lparr>aTaskName = taskName, aMaxRetry = 5, aArgs = message, aRetryInterval = 0, aStartAt = zeroTime,
       aCronExpression = [], aDirect = False\<rparr>"

section \<open>Operations on a job\<close>

definition GetDetailJob :: "world \<Rightarrow> string \<Rightarrow> jobError + job" where
  "GetDetailJob w jobID = (if \<not> wActive w then Inl EInactive else FindJobByID (wDB w) jobID None)"

text \<open>The changes that \<open>RetryJob\<close> makes to the job; the status is set before it is compared.\<close>

definition retried :: "job \<Rightarrow> job" where
  "retried j =
     (let j = (case Parse (jInterval j) of Inl _ \<Rightarrow> j\<lparr>jInterval := DurationString defaultInterval\<rparr> | Inr _ \<Rightarrow> j);
          j = j\<lparr>jStatus := StatusQueueing\<rparr>
      in if jStatus j = StatusFailure \<or> jRetries j \<ge> jMaxRetry j then j\<lparr>jRetries := 0\<rparr> else j)"

definition RetryJob :: "gotime \<Rightarrow> world \<Rightarrow> string \<Rightarrow> jobError option run" where
  "RetryJob now w jobID =
     (if \<not> wActive w then Done (Some EInactive) w
      else case FindJobByID (wDB w) jobID None of
        Inl e \<Rightarrow> Done (Some e) w
      | Inr j \<Rightarrow>
          let w = unlockKey w (getLockKey w (jTaskName j));
              w = unlockKey w (getLockKey w (jID j));
              statusBefore = jStatus j;
              j = retried j
          in (case ParseNextRunningInterval now now now j of
                Diverges \<Rightarrow> Forever
              | Panics \<Rightarrow> Crash w
              | Returns (_, _, j) \<Rightarrow>
                  (case UpdateJob now (wDB w) (emptyFilter\<lparr>fJobID := Some (jID j)\<rparr>)
                      [(''status'', VStr (jStatus j)), (''interval'', VStr (jInterval j)), (''retries'', VInt (jRetries j)),
                       (''next_running_at'', VTime (jNextRunningAt j))] [] of
                     (matched, affected, Some e, _) \<Rightarrow> Done (Some e) w
                   | (matched, affected, None, db) \<Rightarrow>
                       let w = incrSummary (w\<lparr>wDB := db\<rparr>) (jTaskName j) [(statusBefore, - matched), (jStatus j, affected)]
                       in if jTaskName j \<notin> set (wTasks w) then Done (Some (EOther ''Task not found'')) w
                          else thenW (registerJobToWorker now (snd (pushJob w j)) j) (\<lambda>w. Done None w))))"

definition StopJob :: "gotime \<Rightarrow> world \<Rightarrow> string \<Rightarrow> jobError option run" where
  "StopJob now w jobID =
     (if \<not> wActive w then Done (Some EInactive) w
      else case FindJobByID (wDB w) jobID None of
        Inl e \<Rightarrow> Done (Some e) w
      | Inr j \<Rightarrow>
          let statusBefore = jStatus j;
              w = (if jStatus j = StatusRetrying then stopAllJobInTask w (jTaskName j) else w)
          in (case UpdateJob now (wDB w) (emptyFilter\<lparr>fJobID := Some (jID j), fStatus := Some statusBefore\<rparr>)
                  [(''status'', VStr StatusStopped)] [] of
                (matchedCount, countAffected, Some e, _) \<Rightarrow> Done (Some e) w
              | (matchedCount, countAffected, None, db) \<Rightarrow>
                  let w = incrSummary (w\<lparr>wDB := db\<rparr>) (jTaskName j) [(StatusStopped, countAffected), (statusBefore, - matchedCount)]
                  in thenW (registerNextJob False now (jTaskName j) w) (\<lambda>w. Done None w)))"

definition RecalculateSummary :: "world \<Rightarrow> world" where
  "RecalculateSummary w =
     (if \<not> wActive w then w
      else
        let mapper = map (\<lambda>s. (sID s, s)) (AggregateAllTaskJob (wDB w) emptyFilter)
        in foldl (\<lambda>w task.
             let s = (case map_of (rev mapper) task of Some s \<Rightarrow> s | None \<Rightarrow> emptySummary\<lparr>sID := task\<rparr>)
             in updSummary w (sID s)
                  [(''success'', VInt (sSuccess s)), (''queueing'', VInt (sQueueing s)), (''retrying'', VInt (sRetrying s)),
                   (''failure'', VInt (sFailure s)), (''stopped'', VInt (sStopped s))]) w (wTasks w))"

definition UpdateProgressJob :: "gotime \<Rightarrow> world \<Rightarrow> string \<Rightarrow> int \<Rightarrow> int \<Rightarrow> jobError option \<times> world" where
  "UpdateProgressJob now w jobID numProcessed maxProcess =
     (if \<not> wActive w then (Some EInactive, w)
      else if numProcessed > maxProcess then (Some (EOther ''Num processed cannot greater than max process''), w)
      else case FindJobByID (wDB w) jobID None of
        Inl e \<Rightarrow> (Some e, w)
      | Inr j \<Rightarrow>
          (case UpdateJob now (wDB w) (emptyFilter\<lparr>fJobID := Some (jID j)\<rparr>)
              [(''current_progress'', VInt numProcessed), (''max_progress'', VInt maxProcess)] [] of
             (_, _, err, db) \<Rightarrow> (err, w\<lparr>wDB := db\<rparr>)))"

section \<open>Running a job\<close>

record errorRetrier =
  erDelay :: int
  erMessage :: string
  erNewArgsPayload :: string
  erNewRetryIntervalFunc :: "(int \<Rightarrow> int) option"

datatype handlerError = EPlain string | ERetrier errorRetrier

definition handlerErrorText :: "handlerError \<Rightarrow> string" where
  "handlerErrorText e = (case e of EPlain s \<Rightarrow> s | ERetrier r \<Rightarrow> erMessage r)"

record jobResult =
  resErr :: "handlerError option"
  resResult :: string
  resTraceID :: string
  resStackTrace :: string

text \<open>What a handler sees of the event context: the header, the key and the message; what it does
  with it is an argument of the model.  It returns or panics, and writes a response.\<close>

record handlerContext =
  hcHeader :: "(string \<times> string) list"
  hcKey :: string
  hcMessage :: string

datatype handlerOut = HReturn "handlerError option" | HPanic string

type_synonym handlerFunc = "handlerContext \<Rightarrow> handlerOut \<times> string"

record taskHandler =
  thFuncs :: "handlerFunc list"
  thDeleteAfterSuccess :: bool

definition jobHeader :: "job \<Rightarrow> (string \<times> string) list" where
  "jobHeader j = [(''retries'', Itoa (jRetries j)), (''max_retry'', Itoa (jMaxRetry j)), (''interval'', jInterval j),
     (''current_progress'', Itoa (jCurrentProgress j)), (''max_progress'', Itoa (jMaxProgress j))]"

record contextHeader =
  chRetries :: int
  chMaxRetries :: int
  chInterval :: string
  chCurrentProgress :: int
  chMaxProgress :: int

definition headerValue :: "(string \<times> string) list \<Rightarrow> string \<Rightarrow> string" where
  "headerValue h k = (case map_of h k of None \<Rightarrow> [] | Some v \<Rightarrow> v)"

definition headerInt :: "(string \<times> string) list \<Rightarrow> string \<Rightarrow> int" where
  "headerInt h k = fst (Atoi (headerValue h k))"

definition GetContextHeader :: "(string \<times> string) list \<Rightarrow> contextHeader" where
  "GetContextHeader h = \<lparr>chRetries = headerInt h ''retries'', chMaxRetries = headerInt h ''max_retry'',
     chInterval = headerValue h ''interval'', chCurrentProgress = headerInt h ''current_progress'',
     chMaxProgress = headerInt h ''max_progress''\<rparr>"

text \<open>The handlers run in order on one context; the error of the first is the error of the job; a
  panic ends the loop, becomes the error, and leaves no result.\<close>

fun runHandlers :: "nat \<Rightarrow> handlerFunc list \<Rightarrow> handlerContext \<Rightarrow> string \<Rightarrow> jobResult \<Rightarrow> jobResult" where
  "runHandlers i [] ctx response res = res\<lparr>resResult := response\<rparr>"
| "runHandlers i (h # hs) ctx response res =
     (case h ctx of
        (HPanic m, _) \<Rightarrow> res\<lparr>resErr := Some (EPlain m), resStackTrace := ''stack''\<rparr>
      | (HReturn err, out) \<Rightarrow>
          runHandlers (Suc i) hs ctx (response @ out)
            (if err \<noteq> None \<and> i = 0 then res\<lparr>resErr := err\<rparr> else res))"

definition runJob :: "string \<Rightarrow> taskHandler \<Rightarrow> job \<Rightarrow> jobResult" where
  "runJob traceID h j =
     runHandlers 0 (thFuncs h) \<lparr>hcHeader = jobHeader j, hcKey = jID j, hcMessage = jArguments j\<rparr> []
       \<lparr>resErr = None, resResult = [], resTraceID = traceID, resStackTrace = []\<rparr>"

text \<open>\<open>execJob\<close> until the handlers start: the job taken from the queue, now \<open>RETRYING\<close>.  \<open>None\<close>
  means that the function has returned.\<close>

definition startJob :: "gotime \<Rightarrow> taskHandler \<Rightarrow> world \<Rightarrow> string \<Rightarrow> job option \<times> world" where
  "startJob now h w taskName =
     (let (jobID, q) = inMem_PopJob (wQueue w) taskName; w = w\<lparr>wQueue := q\<rparr>
      in if jobID = [] then (None, w)
         else case FindJobByID (wDB w) jobID None of
           Inl _ \<Rightarrow> (None, w)
         | Inr j \<Rightarrow>
             if jStatus j \<noteq> StatusQueueing then (None, w)
             else
               let j = j\<lparr>jRetries := jRetries j + 1\<rparr>;
                   statusBefore = ToLower (jStatus j);
                   j = j\<lparr>jStatus := StatusRetrying\<rparr>
               in (case UpdateJob now (wDB w) (emptyFilter\<lparr>fJobID := Some (jID j)\<rparr>) [(''status'', VStr (jStatus j))] [] of
                     (matchedCount, affectedCount, Some _, _) \<Rightarrow> (None, w)
                   | (matchedCount, affectedCount, None, db) \<Rightarrow>
                       let w = incrSummary (w\<lparr>wDB := db\<rparr>) (jTaskName j)
                             [(jStatus j, affectedCount), (statusBefore, - matchedCount)]
                       in if thFuncs h = [] then (None, w) else (Some j, w)))"

text \<open>The \<open>select\<close>: \<open>None\<close> is the canceled context, \<open>Some\<close> the result of the handlers.  The
  components are the state, the job, the status for the history and whether the arguments changed.\<close>

definition settleJob :: "jobResult option \<Rightarrow> world \<Rightarrow> job \<Rightarrow> world \<times> job \<times> string \<times> bool" where
  "settleJob r w j =
     (case r of
        None \<Rightarrow> (w, j\<lparr>jError := ''Job has been stopped when running (context canceled)'', jStatus := StatusStopped\<rparr>,
                 StatusStopped, False)
      | Some res \<Rightarrow>
          let j = j\<lparr>jTraceID := resTraceID res, jStatus := StatusSuccess, jError := [], jResult := resResult res,
                jErrorStack := resStackTrace res\<rparr>;
              j = (case resErr res of None \<Rightarrow> j | Some e \<Rightarrow> j\<lparr>jError := handlerErrorText e, jStatus := StatusFailure\<rparr>);
              hist = jStatus j
          in if IsCronMode j \<and> (jMaxRetry j = 0 \<or> jRetries j < jMaxRetry j) then
               (let j = j\<lparr>jStatus := StatusQueueing\<rparr> in (snd (pushJob w j), j, hist, False))
             else
               (case resErr res of
                  Some (ERetrier e) \<Rightarrow>
                    if jRetries j < jMaxRetry j then
                      let delay = (if erDelay e \<le> 0 then defaultInterval else erDelay e);
                          j = j\<lparr>jStatus := StatusQueueing,
                                jInterval := (case erNewRetryIntervalFunc e of
                                    None \<Rightarrow> DurationString delay | Some f \<Rightarrow> DurationString (f (jRetries j)))\<rparr>;
                          upd = (erNewArgsPayload e \<noteq> []);
                          j = (if upd then j\<lparr>jArguments := erNewArgsPayload e\<rparr> else j)
                      in (snd (pushJob w j), j, hist, upd)
                    else (w, j, hist, False)
                | _ \<Rightarrow> (w, j, hist, False)))"

definition errorText :: "jobError \<Rightarrow> string" where
  "errorText e = (case e of EStore s \<Rightarrow> s | EOther s \<Rightarrow> s | _ \<Rightarrow> [])"

text \<open>\<open>FINISH\<close>: the job deleted or stored with its history, and the counters moved.\<close>

definition finishUpdate :: "gotime \<Rightarrow> bool \<Rightarrow> bool \<Rightarrow> job \<Rightarrow> ((string \<times> gval) list \<times> job) outcome" where
  "finishUpdate finishedAt isContextCanceled isUpdateArgs j =
     (let base = (\<lambda>j nxt. [(''retries'', VInt (jRetries j)), (''finished_at'', VTime (jFinishedAt j)), (''status'', VStr (jStatus j)),
            (''next_running_at'', nxt), (''interval'', VStr (jInterval j)), (''error'', VStr (jError j)),
            (''trace_id'', VStr (jTraceID j)), (''result'', VStr (jResult j))]);
          finish = (\<lambda>(u, j). (if isContextCanceled then [(''error'', VStr (jError j)), (''trace_id'', VStr (jTraceID j))]
            else u @ (if isUpdateArgs then [(''arguments'', VStr (jArguments j))] else []), j))
      in if jStatus j = StatusQueueing then
           (case ParseNextRunningInterval finishedAt finishedAt finishedAt (j\<lparr>jNextRunningAt := zeroTime\<rparr>) of
              Diverges \<Rightarrow> Diverges
            | Panics \<Rightarrow> Panics
            | Returns (_, _, j') \<Rightarrow> Returns (finish (base j' (VTime (jNextRunningAt j')), j')))
         else Returns (finish (base j VNil, j)))"

definition finishJob :: "gotime \<Rightarrow> gotime \<Rightarrow> taskHandler \<Rightarrow> bool \<Rightarrow> world \<times> job \<times> string \<times> bool \<Rightarrow> unit run" where
  "finishJob startAt finishedAt h isContextCanceled st =
     (case st of (w, j, jobHistoryStatus, isUpdateArgs) \<Rightarrow>
      let j = j\<lparr>jFinishedAt := finishedAt\<rparr>; statusBefore = ToLower StatusRetrying
      in if thDeleteAfterSuccess h \<and> jStatus j = StatusSuccess then
           (case DeleteJob (wDB w) (jID j) of
              (_, _, db) \<Rightarrow> Done () (incrSummary (w\<lparr>wDB := db\<rparr>) (jTaskName j) [(statusBefore, - 1)]))
         else
           (case finishUpdate finishedAt isContextCanceled isUpdateArgs j of
              Diverges \<Rightarrow> Forever
            | Panics \<Rightarrow> Crash w
            | Returns (updated, j) \<Rightarrow>
                let hist = \<lparr>rhErrorStack = jErrorStack j,
                      rhStatus = (if jobHistoryStatus \<noteq> [] then jobHistoryStatus else jStatus j),
                      rhError = jError j, rhResult = jResult j, rhTraceID = jTraceID j, rhStartAt = startAt, rhEndAt = finishedAt\<rparr>;
                    f = emptyFilter\<lparr>fJobID := Some (jID j)\<rparr>;
                    (matched, affected, db) =
                      (case UpdateJob finishedAt (wDB w) f updated [hist] of
                         (m, a, None, db) \<Rightarrow> (m, a, db)
                       | (m, a, Some e, db) \<Rightarrow>
                           (case UpdateJob finishedAt db f
                               (AList.update ''error'' (VStr (''[Internal Worker Error]: '' @ errorText e)) updated) [hist] of
                              (m, a, _, db) \<Rightarrow> (m, a, db)))
                in Done () (incrSummary (w\<lparr>wDB := db\<rparr>) (jTaskName j)
                     (if isContextCanceled then [] else [(jStatus j, affected), (statusBefore, - matched)]))))"

end
