(* ===== verification/Task_Worker.thy ===== *)
theory Task_Worker
  imports Task_Engine
begin

text \<open>
  The worker around the jobs: \<open>triggerTask\<close>, \<open>prepare\<close>, \<open>Shutdown\<close> and the internal task of
  \<open>internal_task.go\<close>, the configurations of \<open>configuration.go\<close>, and the mutations of
  \<open>graphql_resolver.go\<close>.
\<close>

section \<open>Triggering a task\<close>

text \<open>The deferred functions of the goroutine: the task is unlocked when this run locked it, the
  semaphore is released and the next job is registered.\<close>

definition endRun :: "bool \<Rightarrow> gotime \<Rightarrow> string \<Rightarrow> world \<Rightarrow> unit run" where
  "endRun locked now taskName w =
     (let w = (if locked then unlockKey w (getLockKey w taskName) else w)
      in registerNextJob True now taskName
           (w\<lparr>wSem := (wSem w)(taskName := False), wCurrent := (wCurrent w)(taskName := None)\<rparr>))"

text \<open>\<open>triggerTask\<close> until the handlers of the job start.  \<open>None\<close> says that the goroutine waits for
  the semaphore.\<close>

definition triggerTask :: "gotime \<Rightarrow> taskHandler \<Rightarrow> world \<Rightarrow> string \<Rightarrow> unit run option" where
  "triggerTask now h w taskName =
     (if taskName \<notin> set (wTasks w) then Some (Done () w)
      else
        let w = w\<lparr>wTicker := (wTicker w)(taskName := None)\<rparr>
        in if sIsHold (FindDetailSummary (wDB w) taskName) then Some (Done () w)
           else if wSem w taskName then None
           else
             let w = w\<lparr>wSem := (wSem w)(taskName := True)\<rparr>
             in if wShutdown w then Some (Done () w)
                else
                  let w = w\<lparr>wCanceled := (wCanceled w)(taskName := False)\<rparr>
                  in if wCtxDone w then Some (endRun False now taskName w)
                     else
                       (case IsLocked (wLocker w) (getLockKey w taskName) (wLocks w) of
                          (True, r) \<Rightarrow> Some (endRun False now taskName (unlockTask (w\<lparr>wLocks := r\<rparr>) taskName))
                        | (False, r) \<Rightarrow>
                            (case startJob now h (w\<lparr>wLocks := r\<rparr>) taskName of
                               (None, w) \<Rightarrow> Some (endRun True now taskName w)
                             | (Some j, w) \<Rightarrow> Some (Done () (w\<lparr>wCurrent := (wCurrent w)(taskName \<mapsto> j)\<rparr>)))))"

text \<open>The rest of the run of a job, when its handlers are done or its context is canceled; a panic
  is recovered.\<close>

definition completeTask :: "gotime \<Rightarrow> gotime \<Rightarrow> taskHandler \<Rightarrow> jobResult option \<Rightarrow> world \<Rightarrow> string \<Rightarrow> unit run" where
  "completeTask startAt now h r w taskName =
     (case wCurrent w taskName of
        None \<Rightarrow> Done () w
      | Some j \<Rightarrow>
          (case finishJob startAt now h (r = None) (settleJob r w j) of
             Done _ w \<Rightarrow> endRun True now taskName w
           | Crash w \<Rightarrow> endRun True now taskName w
           | Forever \<Rightarrow> Forever))"

section \<open>The life of the worker\<close>

definition stopAllJob :: "world \<Rightarrow> world" where
  "stopAllJob w = w\<lparr>wTicker := (\<lambda>_. None), wRetention := map_option (\<lambda>(s, t). (s, None)) (wRetention w)\<rparr>"

text \<open>\<open>Shutdown\<close>; the wait for the running jobs comes before the step that clears the queues.\<close>

definition Shutdown :: "world \<Rightarrow> world" where
  "Shutdown w =
     (if wTasks w = [] then w
      else
        let w = stopAllJob w;
            w = w\<lparr>wShutdown := True, wLocks := Reset (wLocker w) (getLockKey w ''*'') (wLocks w)\<rparr>
        in foldl (\<lambda>w task. w\<lparr>wQueue := inMem_Clear (wQueue w) task\<rparr>) w (wTasks w)\<lparr>wCtxDone := True\<rparr>)"

text \<open>\<open>NewTaskQueueWorker\<close> registers the handlers in order; a pattern registered before is a panic.\<close>

fun registerTasks :: "string list \<Rightarrow> string list \<Rightarrow> string list option" where
  "registerTasks tasks [] = Some tasks"
| "registerTasks tasks (p # ps) = (if p \<in> set tasks then None else registerTasks (tasks @ [p]) ps)"

text \<open>\<open>registerInternalTask\<close>; a schedule that never comes leaves the goroutine running.\<close>

definition registerInternalTask :: "gotime \<Rightarrow> world \<Rightarrow> unit run" where
  "registerInternalTask now w =
     (case GetConfiguration (wDB w) ''retention_age'' of
        Inl _ \<Rightarrow> Done () (w\<lparr>wRetention := Some (None, None)\<rparr>)
      | Inr cfg \<Rightarrow>
          if \<not> cIsActive cfg then Done () (w\<lparr>wRetention := Some (None, None)\<rparr>)
          else
            (case Parse (cValue cfg) of
               Inl _ \<Rightarrow> Done () (w\<lparr>wRetention := Some (None, None)\<rparr>)
             | Inr e \<Rightarrow>
                 (case NextInterval e now of
                    None \<Rightarrow> Forever
                  | Some (Inl _) \<Rightarrow> Crash w
                  | Some (Inr (d, e)) \<Rightarrow>
                      if d \<le> 0 then Crash w else Done () (w\<lparr>wRetention := Some (Some e, Some d)\<rparr>))))"

definition cleanSucceeded :: "gotime \<Rightarrow> world \<Rightarrow> string \<Rightarrow> world" where
  "cleanSucceeded beforeCreatedAt w task =
     (let (n, db) = CleanJob (wDB w) (emptyFilter\<lparr>fTaskName := task, fBeforeCreatedAt := Some beforeCreatedAt,
            fStatus := Some StatusSuccess\<rparr>)
      in incrSummary (w\<lparr>wDB := db\<rparr>) task [(ToLower StatusSuccess, - n)])"

definition execInternalTask :: "gotime \<Rightarrow> world \<Rightarrow> unit run" where
  "execInternalTask now w =
     (case GetConfiguration (wDB w) ''retention_age'' of
        Inl _ \<Rightarrow> Done () w
      | Inr cfg \<Rightarrow>
          if \<not> cIsActive cfg then Done () w
          else
            (case wRetention w of
               Some (Some e, _) \<Rightarrow>
                 (case NextInterval e now of
                    None \<Rightarrow> Forever
                  | Some (Inl _) \<Rightarrow> Crash w
                  | Some (Inr (d, e)) \<Rightarrow>
                      if d \<le> 0 then Crash w
                      else
                        let w = w\<lparr>wRetention := Some (Some e, Some d)\<rparr>;
                            lockKey = getLockKey w (''internal_task:retention_age'')
                        in (case IsLocked (wLocker w) lockKey (wLocks w) of
                              (True, r) \<Rightarrow> Done () (w\<lparr>wLocks := r\<rparr>)
                            | (False, r) \<Rightarrow>
                                Done () (unlockKey (foldl (cleanSucceeded (Add now (- d))) (w\<lparr>wLocks := r\<rparr>) (wTasks w)) lockKey)))
             | _ \<Rightarrow> Done () w))"

text \<open>\<open>prepare\<close>: one pending job put back into the queue.\<close>

definition requeueing :: "int \<Rightarrow> int \<Rightarrow> string" where
  "requeueing idx tot = ''Requeueing '' @ Itoa idx @ '' of '' @ Itoa tot"

definition requeuePending :: "gotime \<Rightarrow> string \<Rightarrow> int \<Rightarrow> int \<Rightarrow> job \<Rightarrow> world \<Rightarrow> unit run" where
  "requeuePending now taskName idx tot j w =
     (if HasBeenLocked (wLocker w) (getLockKey w (jID j)) (wLocks w) then Done () w
      else case ParseNextRunningInterval now now now j of
        Diverges \<Rightarrow> Forever
      | Panics \<Rightarrow> Crash w
      | Returns (_, _, j) \<Rightarrow>
          let f = emptyFilter\<lparr>fJobID := Some (jID j)\<rparr>;
              loading = (\<lambda>w. Done () (if tot > 500 \<and> idx mod 500 \<noteq> 0 then w
                 else updSummary w taskName [(''is_loading'', VBool True), (''loading_message'', VStr (requeueing idx tot))]))
          in if jStatus j \<noteq> StatusQueueing then
               (let statusBefore = jStatus j; j = j\<lparr>jStatus := StatusQueueing\<rparr>
                in case UpdateJob now (wDB w) f [(''status'', VStr (jStatus j)), (''next_running_at'', VTime (jNextRunningAt j))] [] of
                     (matched, affected, Some _, _) \<Rightarrow> Done () w
                   | (matched, affected, None, db) \<Rightarrow>
                       loading (snd (pushJob (incrSummary (w\<lparr>wDB := db\<rparr>) (jTaskName j)
                         [(jStatus j, affected), (statusBefore, - matched)]) j)))
             else
               (case UpdateJob now (wDB w) f [(''next_running_at'', VTime (jNextRunningAt j))] [] of
                  (_, _, _, db) \<Rightarrow> loading (snd (pushJob (w\<lparr>wDB := db\<rparr>) j))))"

definition prepareTask :: "gotime \<Rightarrow> string \<Rightarrow> world \<Rightarrow> unit run" where
  "prepareTask now taskName w =
     (let w = w\<lparr>wQueue := inMem_Clear (wQueue w) taskName\<rparr>;
          summary = FindDetailSummary (wDB w) taskName;
          count = (\<lambda>st. CountAllJob (wDB w) (emptyFilter\<lparr>fTaskName := taskName, fStatus := Some st\<rparr>));
          isRequeueing = (count StatusRetrying > 0 \<or> count StatusQueueing > 0);
          w = updSummary w taskName ([(''is_loading'', VBool True), (''loading_message'', VStr ''Requeueing...'')] @
                map (\<lambda>st. (ToLower st, VInt (count st)))
                  [StatusRetrying, StatusFailure, StatusSuccess, StatusQueueing, StatusStopped, StatusHold]);
          done = (\<lambda>w. updSummary w taskName [(''is_loading'', VBool False), (''loading_message'', VStr (sLoadingMessage summary))])
      in if isRequeueing then
           (case StreamAllJob (emptyFilter\<lparr>fPage := 1, fLimit := 100, fTaskName := taskName, fSort := ''created_at'',
               fStatuses := [StatusRetrying, StatusQueueing]\<rparr>) (Some (requeuePending now taskName)) w of
              Crash w \<Rightarrow> Crash w
            | Forever \<Rightarrow> Forever
            | Done _ w \<Rightarrow> registerNextJob False now taskName (done w))
         else Done () (done w))"

fun prepareTasks :: "gotime \<Rightarrow> string list \<Rightarrow> world \<Rightarrow> unit run" where
  "prepareTasks now [] w = Done () w"
| "prepareTasks now (t # ts) w = thenW (prepareTask now t w) (prepareTasks now ts)"

definition prepare :: "gotime \<Rightarrow> world \<Rightarrow> unit run" where
  "prepare now w =
     (if wTasks w = [] then Done () w
      else
        let w = w\<lparr>wLocks := Reset (wLocker w) (getLockKey w ''*'') (wLocks w)\<rparr>;
            f = emptyFilter\<lparr>fExcludeTaskNameList := wTasks w\<rparr>;
            w = w\<lparr>wDB := snd (CleanJob (DeleteAllSummary (wDB w) f) f)\<rparr>
        in thenW (prepareTasks now (wTasks w) w) (registerInternalTask now))"

section \<open>Mutations of the dashboard\<close>

text \<open>\<open>broadcastWhenChangeAllJob\<close> also stores what it broadcasts.\<close>

definition broadcastWhenChangeAllJob :: "world \<Rightarrow> string \<Rightarrow> bool \<Rightarrow> string \<Rightarrow> world" where
  "broadcastWhenChangeAllJob w taskName isLoading loadingMessage =
     updSummary w taskName [(''is_loading'', VBool isLoading), (''loading_message'', VStr loadingMessage)]"

definition Resolver_GetAllJobCount :: "world \<Rightarrow> getAllJobInput \<Rightarrow> int" where
  "Resolver_GetAllJobCount w i = CountAllJob (wDB w) (GetAllJobInput_ToFilter i)"

definition Resolver_DeleteJob :: "world \<Rightarrow> string \<Rightarrow> jobError option \<times> world" where
  "Resolver_DeleteJob w jobID =
     (case DeleteJob (wDB w) jobID of
        (_, Some e, db) \<Rightarrow> (Some e, w\<lparr>wDB := db\<rparr>)
      | (j, None, db) \<Rightarrow> (None, incrSummary (w\<lparr>wDB := db\<rparr>) (jTaskName j) [(jStatus j, - 1)]))"

record addJobInput =
  aiTaskName :: string
  aiMaxRetry :: int
  aiArgs :: string
  aiRetryInterval :: "string option"
  aiCronExpression :: "string option"

definition Resolver_AddJob :: "(string \<Rightarrow> (string \<times> gval) list \<Rightarrow> string + string list \<times> string) \<Rightarrow> gotime \<Rightarrow> string \<Rightarrow> world \<Rightarrow>
    addJobInput \<Rightarrow> (string \<times> jobError option) run" where
  "Resolver_AddJob post now uuid w i =
     (let a = \<lparr>aTaskName = aiTaskName i, aMaxRetry = aiMaxRetry i, aArgs = aiArgs i, aRetryInterval = 0, aStartAt = zeroTime,
            aCronExpression = [], aDirect = True\<rparr>
      in case aiRetryInterval i of
           Some s \<Rightarrow>
             (case ParseDuration s of
                Inl e \<Rightarrow> Done ([], Some (EParse e)) w
              | Inr d \<Rightarrow> AddJob post now uuid w (a\<lparr>aRetryInterval := d\<rparr>))
         | None \<Rightarrow>
             (case aiCronExpression i of
                Some c \<Rightarrow> AddJob post now uuid w (a\<lparr>aCronExpression := c\<rparr>)
              | None \<Rightarrow> AddJob post now uuid w a))"

text \<open>The loops that move or remove the jobs of each status of a list and collect the changes of the
  counters.\<close>

definition addIncr :: "(string \<times> int) list \<Rightarrow> string \<Rightarrow> int \<Rightarrow> (string \<times> int) list" where
  "addIncr m k i = AList.update k (getCount m k + i) m"

fun moveStatuses :: "gotime \<Rightarrow> (string \<Rightarrow> jobFilter) \<Rightarrow> (string \<times> gval) list \<Rightarrow> string \<Rightarrow> string list \<Rightarrow>
    sqlDB \<times> (string \<times> int) list \<Rightarrow> sqlDB \<times> (string \<times> int) list" where
  "moveStatuses now flt updated target [] (db, incr) = (db, incr)"
| "moveStatuses now flt updated target (st # sts) (db, incr) =
     (case UpdateJob now db (flt st) updated [] of
        (matched, affected, Some _, _) \<Rightarrow> moveStatuses now flt updated target sts (db, incr)
      | (matched, affected, None, db') \<Rightarrow>
          moveStatuses now flt updated target sts
            (db', addIncr (addIncr incr (ToLower st) (- matched)) (ToLower target) affected))"

fun cleanStatuses :: "(string \<Rightarrow> jobFilter) \<Rightarrow> string list \<Rightarrow> sqlDB \<times> (string \<times> int) list \<Rightarrow> sqlDB \<times> (string \<times> int) list" where
  "cleanStatuses flt [] (db, incr) = (db, incr)"
| "cleanStatuses flt (st # sts) (db, incr) =
     (case CleanJob db (flt st) of (n, db') \<Rightarrow> cleanStatuses flt sts (db', addIncr incr (ToLower st) (- n)))"

definition Resolver_StopAllJob :: "gotime \<Rightarrow> world \<Rightarrow> string \<Rightarrow> jobError option \<times> world" where
  "Resolver_StopAllJob now w taskName =
     (if taskName \<notin> set (wTasks w) then (Some (unregistered w taskName), w)
      else
        let w = broadcastWhenChangeAllJob w taskName True ''Stopping...'';
            w = updSummary w taskName [(''is_hold'', VBool True)];
            w = stopAllJobInTask w taskName;
            (db, incrQuery) = moveStatuses now (\<lambda>st. emptyFilter\<lparr>fTaskName := taskName, fStatus := Some st\<rparr>)
              [(''status'', VStr StatusStopped)] StatusStopped [StatusQueueing, StatusRetrying] (wDB w, []);
            w = updSummary (w\<lparr>wDB := db\<rparr>) taskName [(''is_hold'', VBool False)];
            w = broadcastWhenChangeAllJob w taskName False [];
            w = incrSummary w taskName incrQuery
        in (None, w\<lparr>wQueue := inMem_Clear (wQueue w) taskName\<rparr>))"

text \<open>The callback of the streams that requeue: the job pushed and, for one in 200 of many, the
  message stored.\<close>

definition requeueStreamed :: "string \<Rightarrow> int \<Rightarrow> int \<Rightarrow> job \<Rightarrow> world \<Rightarrow> unit run" where
  "requeueStreamed taskName idx tot j w =
     (let w = snd (pushJob w j)
      in Done () (if tot > 200 \<and> idx mod 200 \<noteq> 0 then w
           else updSummary w taskName [(''is_loading'', VBool True), (''loading_message'', VStr (requeueing idx tot))]))"

definition statusFilter :: "jobFilter \<Rightarrow> string \<Rightarrow> jobFilter" where
  "statusFilter f st = emptyFilter\<lparr>fTaskName := fTaskName f, fStatus := Some st, fSearch := fSearch f,
     fStartDate := fStartDate f, fEndDate := fEndDate f\<rparr>"

definition retryFilter :: "filterMutateInput \<Rightarrow> jobFilter" where
  "retryFilter req =
     (let f = FilterMutate_ToFilter req
      in f\<lparr>fSort := ''created_at'', fStatuses := (if fStatuses f = [] then [StatusFailure, StatusStopped] else fStatuses f)\<rparr>)"

definition Resolver_RetryAllJob :: "gotime \<Rightarrow> world \<Rightarrow> filterMutateInput \<Rightarrow> unit run" where
  "Resolver_RetryAllJob now w req =
     (let summary = FindDetailSummary (wDB w) (fmTaskName req);
          f = retryFilter req;
          taskName = fTaskName f;
          w = broadcastWhenChangeAllJob w taskName True ''Retrying...''
      in case StreamAllJob f (Some (requeueStreamed taskName)) w of
           Crash w \<Rightarrow> Crash w
         | Forever \<Rightarrow> Forever
         | Done _ w \<Rightarrow>
             let (db, incr) = moveStatuses now (statusFilter f) [(''status'', VStr StatusQueueing), (''retries'', VInt 0)]
                   StatusQueueing (fStatuses f) (wDB w, []);
                 w = broadcastWhenChangeAllJob (w\<lparr>wDB := db\<rparr>) taskName False (sLoadingMessage summary);
                 w = incrSummary w taskName incr
             in registerNextJob False now taskName w)"

definition Resolver_CleanJob :: "world \<Rightarrow> filterMutateInput \<Rightarrow> world" where
  "Resolver_CleanJob w req =
     (let f = FilterMutate_ToFilter req;
          w = broadcastWhenChangeAllJob w (fTaskName f) True ''Cleaning...'';
          (db, incrQuery) = cleanStatuses (statusFilter f) (fmStatuses req) (wDB w, []);
          w = broadcastWhenChangeAllJob (w\<lparr>wDB := db\<rparr>) (fmTaskName req) False []
      in incrSummary w (fmTaskName req) incrQuery)"

definition Resolver_RunQueuedJob :: "gotime \<Rightarrow> world \<Rightarrow> string \<Rightarrow> unit run" where
  "Resolver_RunQueuedJob now w taskName = registerNextJob True now taskName (unlockTask w taskName)"

text \<open>\<open>RestoreFromSecondary\<close>: \<open>uuid\<close> would name a job without an id.\<close>

definition restoreJob :: "string \<Rightarrow> gotime \<Rightarrow> int \<Rightarrow> int \<Rightarrow> job \<Rightarrow> world \<Rightarrow> unit run" where
  "restoreJob uuid now idx tot j w =
     (case SaveJob uuid now (wDB w) j [] of
        (_, Some _, _) \<Rightarrow> Done () w
      | (j, None, db) \<Rightarrow>
          let w = incrSummary (w\<lparr>wDB := db\<rparr>) (jTaskName j) [(ToLower (jStatus j), 1)];
              (n, w) = pushJob w j
          in if n \<le> 1 then registerJobToWorker now w j else Done () w)"

definition Resolver_RestoreFromSecondary :: "string \<Rightarrow> gotime \<Rightarrow> world \<Rightarrow> int run" where
  "Resolver_RestoreFromSecondary uuid now w =
     (let f = emptyFilter\<lparr>fSort := ''created_at'', fSecondary := True, fStatus := Some StatusQueueing\<rparr>
      in case StreamAllJob f (Some (restoreJob uuid now)) w of
           Crash w \<Rightarrow> Crash w
         | Forever \<Rightarrow> Forever
         | Done n w \<Rightarrow> Done n (w\<lparr>wSecondary := map_option (\<lambda>db. snd (CleanJob db f)) (wSecondary w)\<rparr>))"

text \<open>\<open>ParseCronExpression\<close>: the next six runs.\<close>

fun nextRuns :: "nat \<Rightarrow> expression \<Rightarrow> gotime \<Rightarrow> gotime list outcome" where
  "nextRuns 0 e now = Returns []"
| "nextRuns (Suc n) e now =
     (case NextInterval e now of
        None \<Rightarrow> Diverges
      | Some (Inl _) \<Rightarrow> Panics
      | Some (Inr (d, e')) \<Rightarrow>
          (case nextRuns n e' (Add now d) of
             Returns ts \<Rightarrow> Returns (Add now d # ts)
           | Panics \<Rightarrow> Panics
           | Diverges \<Rightarrow> Diverges))"

definition ParseCronExpression :: "gotime \<Rightarrow> string \<Rightarrow> (cronError + gotime list) outcome" where
  "ParseCronExpression now expr =
     (case Parse expr of
        Inl e \<Rightarrow> Returns (Inl e)
      | Inr e \<Rightarrow> (case nextRuns 6 e now of Returns ts \<Rightarrow> Returns (Inr ts) | Panics \<Rightarrow> Panics | Diverges \<Rightarrow> Diverges))"

definition Resolver_HoldJobTask :: "gotime \<Rightarrow> world \<Rightarrow> string \<Rightarrow> bool \<Rightarrow> string option \<Rightarrow> jobError option run" where
  "Resolver_HoldJobTask now w taskName isAutoSwitch switchInterval =
     (let summaryTask = FindDetailSummary (wDB w) taskName
      in if sTaskName summaryTask = [] then Done (Some (EOther ''Task not found'')) w
         else if \<not> isAutoSwitch then
           (let w = updSummary w taskName [(''is_hold'', VBool (\<not> sIsHold summaryTask)), (''loading_message'', VStr ''Hold Mode'')]
            in if \<not> sIsHold summaryTask then Done None w
               else
                 let w = broadcastWhenChangeAllJob w taskName True ''Unhold...'';
                     f = emptyFilter\<lparr>fTaskName := taskName, fStatus := Some StatusHold, fSort := ''created_at''\<rparr>
                 in (case StreamAllJob f (Some (requeueStreamed taskName)) w of
                       Crash w \<Rightarrow> Crash w
                     | Forever \<Rightarrow> Forever
                     | Done _ w \<Rightarrow>
                         (case UpdateJob now (wDB w) f [(''status'', VStr StatusQueueing), (''retries'', VInt 0)] [] of
                            (matchedCount, affectedRow, _, db) \<Rightarrow>
                              let w = incrSummary (w\<lparr>wDB := db\<rparr>) taskName
                                    [(ToLower StatusQueueing, matchedCount), (ToLower StatusHold, - affectedRow)];
                                  w = broadcastWhenChangeAllJob w taskName False []
                              in thenW (registerNextJob False now taskName w) (\<lambda>w. Done None w))))
         else
           (case switchInterval of
              None \<Rightarrow> Done None w
            | Some s \<Rightarrow>
                (case ParseCronExpression now s of
                   Diverges \<Rightarrow> Forever
                 | Panics \<Rightarrow> Crash w
                 | Returns (Inl e) \<Rightarrow> Done (Some (ECron e)) w
                 | Returns (Inr _) \<Rightarrow> Done None w)))"

section \<open>Configurations\<close>

definition defaultConfigs :: "configuration list" where
  "defaultConfigs =
     [\<lparr>cKey = ''retention_age'', cName = ''Retention Age'', cValue = ''0 0 * * *'', cIsActive = False\<rparr>,
      \<lparr>cKey = ''client_subscriber_age'', cName = ''Client Subscriber Age'', cValue = ''10m'', cIsActive = False\<rparr>,
      \<lparr>cKey = ''max_client_subscriber'', cName = ''Max Client Subscriber'', cValue = ''5'', cIsActive = False\<rparr>,
      \<lparr>cKey = ''trace_detail_url'', cName = ''Trace Detail URL'', cValue = ''http://localhost:16686/trace'', cIsActive = True\<rparr>]"

definition initConfiguration :: "sqlDB \<Rightarrow> sqlDB" where
  "initConfiguration db =
     foldl (\<lambda>db cfg. case GetConfiguration db (cKey cfg) of Inl _ \<Rightarrow> snd (SetConfiguration db cfg) | Inr _ \<Rightarrow> db) db defaultConfigs"

definition getClientSubscriberAge :: "int \<Rightarrow> sqlDB \<Rightarrow> int" where
  "getClientSubscriberAge autoRemoveClientInterval db =
     (case GetConfiguration db ''client_subscriber_age'' of
        Inl _ \<Rightarrow> autoRemoveClientInterval
      | Inr cfg \<Rightarrow> (case ParseDuration (cValue cfg) of
          Inl _ \<Rightarrow> autoRemoveClientInterval
        | Inr age \<Rightarrow> if cIsActive cfg then age else autoRemoveClientInterval))"

definition getMaxClientSubscriber :: "int \<Rightarrow> sqlDB \<Rightarrow> int" where
  "getMaxClientSubscriber maxClientSubscriber db =
     (case GetConfiguration db ''max_client_subscriber'' of
        Inl _ \<Rightarrow> maxClientSubscriber
      | Inr cfg \<Rightarrow> (case Atoi (cValue cfg) of (n, ok) \<Rightarrow> if ok \<and> cIsActive cfg then n else maxClientSubscriber))"

definition setConfiguration :: "gotime \<Rightarrow> world \<Rightarrow> configuration \<Rightarrow> jobError option run" where
  "setConfiguration now w cfg =
     (let store = (\<lambda>w. case SetConfiguration (wDB w) cfg of (err, db) \<Rightarrow> Done err (w\<lparr>wDB := db\<rparr>))
      in if cKey cfg = ''retention_age'' then
           (case wRetention w of
              None \<Rightarrow> Done (Some (EOther ''Missing task for worker'')) w
            | Some (_, ticker) \<Rightarrow>
                (case Parse (cValue cfg) of
                   Inl e \<Rightarrow> Done (Some (ECron e)) (w\<lparr>wRetention := Some (None, ticker)\<rparr>)
                 | Inr e \<Rightarrow>
                     if cIsActive cfg then
                       (case NextInterval e now of
                          None \<Rightarrow> Forever
                        | Some (Inl _) \<Rightarrow> Crash (w\<lparr>wRetention := Some (Some e, ticker)\<rparr>)
                        | Some (Inr (d, e)) \<Rightarrow>
                            if d \<le> 0 then Crash (w\<lparr>wRetention := Some (Some e, ticker)\<rparr>)
                            else store (w\<lparr>wRetention := Some (Some e, Some d)\<rparr>))
                     else store (w\<lparr>wRetention := Some (Some e, None)\<rparr>)))
         else if cKey cfg = ''client_subscriber_age'' then
           (case ParseDuration (cValue cfg) of
              Inl _ \<Rightarrow> Done (Some (EOther ''Invalid value'')) w
            | Inr d \<Rightarrow> if d \<le> 0 then Done (Some (EOther ''Invalid value'')) w else store w)
         else if cKey cfg = ''max_client_subscriber'' then
           (case Atoi (cValue cfg) of (n, ok) \<Rightarrow>
              if \<not> ok then Done (Some (EOther ''Atoi'')) w
              else if n \<le> 0 then Done (Some (EOther ''Must positive integer'')) w else store w)
         else if cKey cfg = ''trace_detail_url'' then store w
         else Done (Some (EOther ''Invalid config'')) w)"

end
