(* ===== verification/Task_Invariant.thy ===== *)
theory Task_Invariant
  imports Task_Worker "HOL-Library.Multiset"
begin

text \<open>
  The invariant of the task queue worker: the counters of the summary table equal the numbers of
  jobs.  Every operation that changes the status of a job is shown to keep it, through the
  interpretation \<open>sqlc\<close> of the counter interface; the operations are then put together into one step
  relation.  The last part states what each operation does to the job it is called for, and where the
  code loses a job or lets the counters drift.
\<close>

section \<open>The invariant\<close>

definition tableOk :: "sqlDB \<Rightarrow> bool" where
  "tableOk db \<longleftrightarrow> dbErr db = None \<and> distinct (map jID (dbJobs db)) \<and>
     (\<forall>j\<in>set (dbJobs db). jID j \<noteq> [] \<and> jStatus j \<in> set allStatuses)"

definition dbOk :: "string set \<Rightarrow> sqlDB \<Rightarrow> bool" where
  "dbOk T db \<longleftrightarrow> tableOk db \<and>
     (\<forall>t\<in>T. sqlCounted db t \<and> agrees sqlCounter allStatuses db (dbJobs db) t)"

lemma dbOk_table: "dbOk T db \<Longrightarrow> tableOk db"
  by (simp add: dbOk_def)

lemma dbOk_noErr: "dbOk T db \<Longrightarrow> dbErr db = None"
  by (simp add: dbOk_def tableOk_def)

lemma sqlCounter_cong:
  "dbSummaries db' = dbSummaries db \<Longrightarrow> sqlCounter db' = sqlCounter db"
  by (auto simp: sqlCounter_def summaryRowOf_def fun_eq_iff)

lemma sqlCounted_cong:
  "dbSummaries db' = dbSummaries db \<Longrightarrow> dbErr db' = dbErr db \<Longrightarrow> sqlCounted db' = sqlCounted db"
  by (auto simp: sqlCounted_def summaryRowOf_def fun_eq_iff)

lemma agrees_counter_cong:
  "sqlCounter db' = sqlCounter db \<Longrightarrow> agrees sqlCounter tr db' js t = agrees sqlCounter tr db js t"
  by (simp add: agrees_def)

lemma find_append_none: "find P xs = Some x \<Longrightarrow> find P (xs @ ys) = Some x"
  by (induction xs) auto

lemma insertSummary_frame [simp]:
  "dbJobs (insertSummary args db) = dbJobs db" "dbErr (insertSummary args db) = dbErr db"
  by (simp_all add: insertSummary_def split: option.splits gval.splits)

lemma insertSummary_rowOf: "summaryRowOf db t = Some r \<Longrightarrow> summaryRowOf (insertSummary args db) t = Some r"
  by (auto simp: insertSummary_def summaryRowOf_def find_append_none split: option.splits gval.splits)

lemma IncrementSummary_other:
  assumes "t' \<noteq> t" "summaryRowOf db t' = Some r"
  shows "summaryRowOf (IncrementSummary driver db t kvs) t' = Some r"
proof -
  define fields where "fields = map (\<lambda>(k, v). (ToLower k, v)) (filter (\<lambda>(k, v). k \<noteq> []) kvs)"
  define h where "h r = (if rId r = t then (case addSummaryColumns fields r of Some r' \<Rightarrow> r' | None \<Rightarrow> r) else r)" for r
  have id: "rId r2 = rId r1" if "addSummaryColumns fs r1 = Some r2" for fs r1 r2
    using that by (induction fs arbitrary: r1)
      (auto simp: addSummaryColumn_def Let_def split: bind_splits prod.splits if_splits)
  have "rId (h r) = rId r" for r by (auto simp: h_def split: option.splits dest: id)
  then have "find (\<lambda>r. rId r = t') (map h (dbSummaries db)) = map_option h (find (\<lambda>r. rId r = t') (dbSummaries db))"
    by (intro find_map_same) simp
  moreover have "rId r = t'" using assms(2) by (auto simp: summaryRowOf_def find_Some_iff)
  ultimately have "summaryRowOf (db\<lparr>dbSummaries := map h (dbSummaries db)\<rparr>) t' = Some r"
    using assms by (simp add: summaryRowOf_def h_def)
  moreover have "IncrementSummary driver db t kvs \<in>
      {db, db\<lparr>dbSummaries := map h (dbSummaries db)\<rparr>} \<union> range (\<lambda>a. insertSummary a db)"
    unfolding IncrementSummary_def Let_def h_def fields_def by auto
  moreover have "summaryRowOf (insertSummary a db) t' = Some r" for a
    by (rule insertSummary_rowOf [OF assms(2)])
  ultimately show ?thesis using assms(2) by auto
qed

text \<open>The jobs change and the counters of one task follow.\<close>

lemma dbOk_follow:
  assumes ok: "dbOk T db" and same: "dbSummaries db' = dbSummaries db" and tab: "tableOk db'"
    and keys: "keysOk kvs"
    and diff: "\<And>t' st. t' \<in> T \<Longrightarrow>
      countJobs (dbJobs db') t' st = countJobs (dbJobs db) t' st + (if t' = t then incrFor kvs st else 0)"
  shows "dbOk T (IncrementSummary driver db' t kvs)"
proof -
  have err: "dbErr db' = dbErr db" using ok tab by (simp add: dbOk_def tableOk_def)
  have counted: "sqlCounted db' t'" if "t' \<in> T" for t'
    using ok that by (simp add: dbOk_def sqlCounted_cong [OF same err])
  have agree: "agrees sqlCounter allStatuses db' (dbJobs db) t'" if "t' \<in> T" for t'
    using ok that by (simp add: dbOk_def agrees_counter_cong [OF sqlCounter_cong [OF same]])
  have "sqlCounted (IncrementSummary driver db' t kvs) t' \<and>
      agrees sqlCounter allStatuses (IncrementSummary driver db' t kvs) (dbJobs db') t'" if t': "t' \<in> T" for t'
  proof (cases "t' = t")
    case True
    then show ?thesis
      using sqlc.follow [OF counted [OF t', unfolded True] keys agree [OF t'] diff [OF t']]
        sqlc.incr_inv [OF counted [OF t', unfolded True] counted [OF t'] keys] by blast
  next
    case False
    obtain r where r: "summaryRowOf db' t' = Some r" "rHold r \<noteq> None"
      using counted [OF t'] by (auto simp: sqlCounted_def split: option.splits)
    show ?thesis
      using IncrementSummary_other [OF False r(1), of driver kvs] r tab agree [OF t'] diff [OF t'] False
      by (auto simp: sqlCounted_def sqlCounter_def agrees_def tableOk_def)
  qed
  then show ?thesis using tab by (simp add: dbOk_def tableOk_def)
qed

lemma dbOk_same_counts:
  assumes "dbOk T db" "dbSummaries db' = dbSummaries db" "tableOk db'"
    and "\<And>t st. countJobs (dbJobs db') t st = countJobs (dbJobs db) t st"
  shows "dbOk T db'"
proof -
  have "dbErr db' = dbErr db" using assms by (simp add: dbOk_def tableOk_def)
  then have "sqlCounted db' = sqlCounted db" using assms sqlCounted_cong by blast
  then show ?thesis using assms by (auto simp: dbOk_def agrees_def sqlCounter_cong [OF assms(2)])
qed

section \<open>Effects on the job table\<close>

lemma countJobs_update:
  assumes "distinct (map jID js)" "r \<in> set js" "jID (g r) = jID r"
  shows "countJobs (map (\<lambda>j. if jID j = jID r then g j else j) js) t st =
    countJobs js t st + (if jTaskName (g r) = t \<and> jStatus (g r) = st then 1 else 0)
      - (if jTaskName r = t \<and> jStatus r = st then 1 else 0)"
  using assms
proof (induction js)
  case (Cons j js)
  show ?case
  proof (cases "j = r")
    case True
    then have "map (\<lambda>j. if jID j = jID r then g j else j) js = js"
    proof (intro map_idI)
      fix x assume "x \<in> set js"
      moreover have "jID r \<notin> jID ` set js" using Cons.prems(1) True by simp
      ultimately have "jID x \<noteq> jID r" by (metis imageI)
      then show "(if jID x = jID r then g x else x) = x" by simp
    qed
    with True show ?thesis by simp
  next
    case False
    then have "r \<in> set js" "jID j \<noteq> jID r" using Cons.prems by auto
    then show ?thesis using Cons.IH Cons.prems by simp
  qed
qed simp

lemma findRow_mem: "findRow db i = Some r \<Longrightarrow> r \<in> set (dbJobs db) \<and> jID r = i"
  by (auto simp: findRow_def find_Some_iff)

lemma findRow_None: "findRow db i = None \<longleftrightarrow> i \<notin> jID ` set (dbJobs db)"
  by (auto simp: findRow_def find_None_iff)

lemma tableOk_update:
  assumes "tableOk db" "findRow db i = Some r" "jID (g r) = jID r" "jStatus (g r) \<in> set allStatuses"
  shows "tableOk (db\<lparr>dbJobs := map (\<lambda>j. if jID j = i then g j else j) (dbJobs db), dbHist := h\<rparr>)"
proof -
  have eq: "map (\<lambda>j. if jID j = i then g j else j) (dbJobs db) = map (\<lambda>j. if j = r then g r else j) (dbJobs db)"
    using assms(1) findRow_mem [OF assms(2)] by (auto simp: tableOk_def distinct_map inj_on_def)
  have "map jID (map (\<lambda>j. if j = r then g r else j) (dbJobs db)) = map jID (dbJobs db)" using assms(3) by simp
  then show ?thesis using assms(1,3,4) unfolding eq by (auto simp: tableOk_def simp del: map_map)
qed

text \<open>One job gets a new row; the counters of the old and of the new status follow.\<close>

lemma dbOk_update_row:
  assumes ok: "dbOk T db" and r: "findRow db i = Some r" and g: "jID (g r) = jID r" "jTaskName (g r) = jTaskName r"
    and st: "jStatus (g r) \<in> set allStatuses" and keys: "keysOk kvs"
    and diff: "\<And>st. incrFor kvs st = (if jStatus (g r) = st then 1 else 0) - (if jStatus r = st then 1 else 0)"
  shows "dbOk T (IncrementSummary driver
    (db\<lparr>dbJobs := map (\<lambda>j. if jID j = i then g j else j) (dbJobs db), dbHist := h\<rparr>) (jTaskName r) kvs)"
proof (rule dbOk_follow [OF ok])
  have mem: "r \<in> set (dbJobs db)" "jID r = i" using findRow_mem [OF r] by auto
  have tab: "tableOk db" by (rule dbOk_table [OF ok])
  show "tableOk (db\<lparr>dbJobs := map (\<lambda>j. if jID j = i then g j else j) (dbJobs db), dbHist := h\<rparr>)"
    by (rule tableOk_update [where g = g, OF tab r g(1) st])
  show "countJobs (dbJobs (db\<lparr>dbJobs := map (\<lambda>j. if jID j = i then g j else j) (dbJobs db), dbHist := h\<rparr>)) t' st =
      countJobs (dbJobs db) t' st + (if t' = jTaskName r then incrFor kvs st else 0)" for t' st
    using countJobs_update [of "dbJobs db" r g t' st] tab mem g diff [of st] by (auto simp: tableOk_def)
qed (simp_all add: keys)

lemma dbOk_add:
  assumes ok: "dbOk T db" and new: "findRow db (jID j) = None" "jID j \<noteq> []" "jStatus j \<in> set allStatuses"
    and k: "ToUpper k = jStatus j"
  shows "dbOk T (IncrementSummary driver (db\<lparr>dbJobs := dbJobs db @ [j], dbHist := h\<rparr>) (jTaskName j) [(k, 1)])"
proof (rule dbOk_follow [OF ok])
  show "tableOk (db\<lparr>dbJobs := dbJobs db @ [j], dbHist := h\<rparr>)"
    using ok new by (auto simp: dbOk_def tableOk_def findRow_None)
qed (use new k in \<open>auto simp: keysOk_def\<close>)

text \<open>Jobs of one task and one status are removed.\<close>

lemma dbOk_remove:
  assumes ok: "dbOk T db" and st: "ToUpper k \<in> set allStatuses"
    and sel: "\<And>j. j \<in> set (dbJobs db) \<Longrightarrow> sel j \<Longrightarrow> jTaskName j = t \<and> jStatus j = ToUpper k"
    and n: "n = int (length (filter sel (dbJobs db)))"
  shows "dbOk T (IncrementSummary driver (db\<lparr>dbJobs := filter (\<lambda>j. \<not> sel j) (dbJobs db), dbHist := h\<rparr>) t [(k, - n)])"
proof (rule dbOk_follow [OF ok])
  show "tableOk (db\<lparr>dbJobs := filter (\<lambda>j. \<not> sel j) (dbJobs db), dbHist := h\<rparr>)"
    using ok by (auto simp: dbOk_def tableOk_def intro: distinct_map_filter)
  have "countJobs (filter sel js) t' st' = (if t' = t \<and> ToUpper k = st' then int (length (filter sel js)) else 0)"
    if "set js \<subseteq> set (dbJobs db)" for js t' st'
    using that by (induction js) (auto dest: sel)
  then show "countJobs (dbJobs (db\<lparr>dbJobs := filter (\<lambda>j. \<not> sel j) (dbJobs db), dbHist := h\<rparr>)) t' st' =
      countJobs (dbJobs db) t' st' + (if t' = t then incrFor [(k, - n)] st' else 0)" for t' st'
    using countJobs_split [of "dbJobs db" t' st' sel] by (auto simp: n)
qed (use ok st in \<open>auto simp: dbOk_def keysOk_def\<close>)

lemma noDates [simp]: "parseOrZero [] = zeroTime" "IsZero zeroTime"
  by code_simp+

text \<open>\<open>UpdateJob\<close> for one id; \<open>g\<close> is the effect of the columns on a row.\<close>

lemma UpdateJob_byID:
  assumes "dbErr db = None" "i \<noteq> []"
    and "\<And>j. setColumns (AList.update ''updated_at'' (VTime now) updated) j = Some (g j)"
  shows "UpdateJob now db (emptyFilter\<lparr>fJobID := Some i\<rparr>) updated hs =
    (let n = int (length (filter (\<lambda>j. jID j = i) (dbJobs db)))
     in (n, n, None, db\<lparr>dbJobs := map (\<lambda>j. if jID j = i then g j else j) (dbJobs db), dbHist := dbHist db @ map (Pair i) hs\<rparr>))"
proof -
  have q: "queryConditions (emptyFilter\<lparr>fJobID := Some i\<rparr>) = [CJobID i]"
    using assms(2) by (simp add: queryConditions_def emptyFilter_def ParseStartEndDate_def)
  have "matchesFilter (dbLike db) (emptyFilter\<lparr>fJobID := Some i\<rparr>) = (\<lambda>j. jID j = i)"
    by (simp add: fun_eq_iff q matchesFilter_def condHolds_def)
  then show ?thesis using assms(1,3) by (simp add: UpdateJob_def q Let_def)
qed

lemma UpdateJob_byID_status:
  assumes "dbErr db = None" "i \<noteq> []"
    and "\<And>j. setColumns (AList.update ''updated_at'' (VTime now) updated) j = Some (g j)"
  shows "UpdateJob now db (emptyFilter\<lparr>fJobID := Some i, fStatus := Some st\<rparr>) updated hs =
    (let n = int (length (filter (\<lambda>j. jID j = i \<and> jStatus j = st) (dbJobs db)))
     in (n, n, None, db\<lparr>dbJobs := map (\<lambda>j. if jID j = i \<and> jStatus j = st then g j else j) (dbJobs db),
       dbHist := dbHist db @ map (Pair i) hs\<rparr>))"
proof -
  have q: "queryConditions (emptyFilter\<lparr>fJobID := Some i, fStatus := Some st\<rparr>) = [CJobID i, CStatus st]"
    using assms(2) by (simp add: queryConditions_def emptyFilter_def ParseStartEndDate_def)
  have "matchesFilter (dbLike db) (emptyFilter\<lparr>fJobID := Some i, fStatus := Some st\<rparr>) = (\<lambda>j. jID j = i \<and> jStatus j = st)"
    by (simp add: fun_eq_iff q matchesFilter_def condHolds_def)
  then show ?thesis using assms(1,3) by (simp add: UpdateJob_def q Let_def)
qed

lemma length_filter_unique:
  assumes "distinct (map jID js)" "r \<in> set js" "P r"
  shows "length (filter (\<lambda>j. jID j = jID r \<and> P j) js) = 1"
proof -
  have "filter (\<lambda>j. jID j = jID r \<and> P j) js = filter (\<lambda>j. j = r) js"
    using assms by (intro filter_cong) (auto simp: distinct_map inj_on_def)
  moreover have "distinct js" using assms(1) by (simp add: distinct_map)
  ultimately show ?thesis using assms(2) by (simp add: distinct_length_filter)
qed

lemma setColumns_status:
  "setColumns (AList.update ''updated_at'' (VTime now) [(''status'', VStr s)]) j = Some (j\<lparr>jStatus := s, jUpdatedAt := now\<rparr>)"
  by (simp add: setColumn_def)

section \<open>Frames\<close>

text \<open>What an operation that does not touch the tables keeps.\<close>

definition frame :: "world \<Rightarrow> world \<Rightarrow> bool" where
  "frame w w' \<longleftrightarrow> wDB w' = wDB w \<and> wTasks w' = wTasks w \<and> wDriver w' = wDriver w"

definition runOk :: "(world \<Rightarrow> bool) \<Rightarrow> 'r run \<Rightarrow> bool" where
  "runOk P r \<longleftrightarrow> (case r of Done _ w \<Rightarrow> P w | Crash w \<Rightarrow> P w | Forever \<Rightarrow> True)"

lemma runOk_simps [simp]: "runOk P (Done x w) = P w" "runOk P (Crash w) = P w" "runOk P Forever = True"
  by (simp_all add: runOk_def)

lemma runOk_mono: "runOk P r \<Longrightarrow> (\<And>w. P w \<Longrightarrow> Q w) \<Longrightarrow> runOk Q r"
  by (auto simp: runOk_def split: run.splits)

lemma runOk_thenW: "runOk P r \<Longrightarrow> (\<And>w. P w \<Longrightarrow> runOk P (f w)) \<Longrightarrow> runOk P (thenW r f)"
  by (cases r) (simp_all add: thenW_def)

lemma frame_refl [simp]: "frame w w"
  by (simp add: frame_def)

lemma frame_trans: "frame a b \<Longrightarrow> frame b c \<Longrightarrow> frame a c"
  by (simp add: frame_def)

lemma frame_push [simp]: "frame w (snd (pushJob w j))"
  by (simp add: frame_def pushJob_def split: prod.splits)

lemma frame_unlock [simp]: "frame w (unlockKey w k)" "frame w (unlockTask w t)" "frame w (stopAllJobInTask w t)"
  by (simp_all add: frame_def unlockKey_def unlockTask_def stopAllJobInTask_def)

lemma frame_queue: "frame w0 w \<Longrightarrow> frame w0 (w\<lparr>wQueue := q\<rparr>)"
  by (simp add: frame_def)

lemma frame_register: "frame w0 w \<Longrightarrow> runOk (frame w0) (registerJobToWorker now w j)"
  by (simp add: registerJobToWorker_def frame_def split: outcome.splits)

lemma frame_nextQueued: "frame w0 w \<Longrightarrow> runOk (frame w0) (registerNextQueued n now t w)"
proof (induction n arbitrary: w)
  case 0
  then show ?case
    by (subst registerNextQueued.simps) (simp add: Let_def frame_register frame_queue split: prod.splits)
next
  case (Suc n)
  then show ?case
    by (subst registerNextQueued.simps) (simp add: Let_def frame_register frame_queue split: prod.splits)
qed

text \<open>A stream keeps what its callback keeps.\<close>

lemma streamPages_inv:
  "(\<And>p s lst. P s \<Longrightarrow> fetch s p l = Inr lst \<Longrightarrow> P (fst (handleAll handle ((p - 1) * l) lst s))) \<Longrightarrow>
   P s \<Longrightarrow> P (fst (streamPages tp p l fetch handle s))"
proof (induction tp p l fetch handle s rule: streamPages.induct)
  case (1 tp p l fetch handle s)
  show ?case
  proof (cases "p \<le> tp")
    case False
    then show ?thesis using "1.prems"(2) by (simp add: streamPages.simps)
  next
    case True
    show ?thesis
    proof (cases "fetch s p l")
      case (Inl e)
      then show ?thesis using "1.prems"(2) True by (simp add: streamPages.simps)
    next
      case (Inr lst)
      obtain s' e where s': "handleAll handle ((p - 1) * l) lst s = (s', e)" by force
      have P: "P s'" using "1.prems"(1) [OF "1.prems"(2) Inr] by (simp add: s')
      show ?thesis
      proof (cases e)
        case None
        have "P (fst (streamPages tp (p + 1) l fetch handle s'))"
          by (rule "1.IH" [OF True Inr]) (use None s' P "1.prems"(1) in auto)
        then show ?thesis using True Inr s' None by (simp add: streamPages.simps [of tp p])
      next
        case (Some x)
        then show ?thesis using True Inr s' P by (simp add: streamPages.simps [of tp p])
      qed
    qed
  qed
qed

text \<open>\<open>StreamAllJob\<close>, page by page; \<open>storeOf\<close> is the persistence it reads.\<close>

definition storeOf :: "jobFilter \<Rightarrow> world \<Rightarrow> sqlDB option" where
  "storeOf f w = (if fSecondary f then wSecondary w else Some (wDB w))"

definition fetchJobs :: "jobFilter \<Rightarrow> world \<Rightarrow> job list" where
  "fetchJobs f w = (case storeOf f w of None \<Rightarrow> [] | Some db \<Rightarrow> FindAllJob db f)"

lemma StreamAllJob_inv:
  assumes P: "P w"
    and page: "\<And>p l c w i. P w \<Longrightarrow>
      P (fst (handleAll (\<lambda>i j w. runToHandle w (h i c j w)) i (fetchJobs (f\<lparr>fPage := p, fLimit := l\<rparr>) w) w))"
  shows "runOk P (StreamAllJob f (Some h) w)"
proof -
  let ?page = "if fPage f \<le> 0 then 1 else fPage f" and ?limit = "if fLimit f \<le> 0 then 10 else fLimit f"
  define count where "count = (case storeOf f w of None \<Rightarrow> 0 | Some db \<Rightarrow> CountAllJob db f)"
  define run where "run = streamPages (ceilDiv count ?limit) ?page ?limit
    (\<lambda>w p l. Inr (fetchJobs (f\<lparr>fPage := p, fLimit := l\<rparr>) w)) (\<lambda>i j w. runToHandle w (h i count j w)) w"
  have eq: "StreamAllJob f (Some h) w = (if count = 0 then Done count w
      else case run of (w', None) \<Rightarrow> Done count w' | (w', Some HCrash) \<Rightarrow> Crash w' | (w', Some HForever) \<Rightarrow> Forever)"
    by (simp add: StreamAllJob_def Let_def run_def count_def fetchJobs_def storeOf_def)
  have "P (fst run)" unfolding run_def
    by (rule streamPages_inv [where P = P, OF _ P]) (metis page sum.inject(2))
  then show ?thesis using P by (auto simp: eq split: prod.splits option.splits halt.splits)
qed

lemma runToHandle_ok: "runOk P r \<Longrightarrow> P w \<Longrightarrow> P (fst (runToHandle w r))"
  by (auto simp: runToHandle_def split: run.splits)

lemma frame_stream: "frame w0 w \<Longrightarrow> runOk (frame w0) (StreamAllJob f (Some pushStreamed) w)"
proof (rule StreamAllJob_inv [where P = "frame w0"])
  fix p l c w i
  assume "frame w0 w"
  then show "frame w0 (fst (handleAll (\<lambda>i j w. runToHandle w (pushStreamed i c j w)) i
      (fetchJobs (f\<lparr>fPage := p, fLimit := l\<rparr>) w) w))"
    by (rule handleAll_inv [rotated])
      (auto simp: pushStreamed_def runToHandle_def intro: frame_trans [OF _ frame_push])
qed

lemma frame_nextJob: "frame w0 w \<Longrightarrow> runOk (frame w0) (registerNextJob b now t w)"
  using frame_stream [of w0 w "emptyFilter\<lparr>fTaskName := t, fSort := ''created_at'', fStatus := Some StatusQueueing\<rparr>"]
  by (auto simp: registerNextJob_def frame_nextQueued split: run.splits)

section \<open>Flags of a summary\<close>

definition flagColumn :: "string \<times> gval \<Rightarrow> bool" where
  "flagColumn kv \<longleftrightarrow> (\<exists>b. kv = (''is_loading'', VBool b)) \<or> (\<exists>b. kv = (''is_hold'', VBool b)) \<or>
     (\<exists>s. kv = (''loading_message'', VStr s))"

definition sameCounters :: "summaryRow \<Rightarrow> summaryRow \<Rightarrow> bool" where
  "sameCounters r r' \<longleftrightarrow> rId r' = rId r \<and> rHold r' = rHold r \<and> rowCounter r' = rowCounter r"

lemma setSummaryColumns_flags:
  "list_all flagColumn kvs \<Longrightarrow> \<exists>r'. setSummaryColumns kvs r = Some r' \<and> sameCounters r r'"
proof (induction kvs arbitrary: r)
  case (Cons kv kvs)
  then obtain r1 where r1: "setSummaryColumn kv r = Some r1" "sameCounters r r1"
    by (auto simp: flagColumn_def setSummaryColumn_def sameCounters_def rowCounter_def fun_eq_iff)
  obtain r2 where "setSummaryColumns kvs r1 = Some r2" "sameCounters r1 r2"
    using Cons.IH [of r1] Cons.prems by auto
  then show ?case using r1 by (auto simp: sameCounters_def)
qed (simp add: sameCounters_def)

lemma UpdateSummary_frame [simp]:
  "dbJobs (UpdateSummary db t upd) = dbJobs db" "dbErr (UpdateSummary db t upd) = dbErr db"
  by (simp_all add: UpdateSummary_def Let_def)

lemma UpdateSummary_flags:
  assumes "list_all flagColumn upd" "summaryRowOf db t' = Some r"
  shows "\<exists>r'. summaryRowOf (UpdateSummary db t upd) t' = Some r' \<and> sameCounters r r'"
proof -
  have cols: "filter (\<lambda>(k, v). k \<noteq> []) upd = upd"
    using assms(1) by (auto simp: filter_id_conv list_all_iff flagColumn_def)
  define h where "h r = (if rId r = t then (case setSummaryColumns upd r of Some r' \<Rightarrow> r' | None \<Rightarrow> r) else r)" for r
  have h: "sameCounters r (h r)" for r
    using setSummaryColumns_flags [OF assms(1), of r] by (auto simp: h_def sameCounters_def)
  have "find (\<lambda>r. rId r = t') (map h (dbSummaries db)) = Some (h r)"
    using assms(2) find_map_same [of "dbSummaries db" "\<lambda>r. rId r = t'" h] h
    by (simp add: summaryRowOf_def sameCounters_def)
  then have "summaryRowOf (db\<lparr>dbSummaries := map h (dbSummaries db)\<rparr>) t' = Some (h r)" by (simp add: summaryRowOf_def)
  moreover have "UpdateSummary db t upd \<in> {db, db\<lparr>dbSummaries := map h (dbSummaries db)\<rparr>} \<union> range (\<lambda>a. insertSummary a db)"
    unfolding UpdateSummary_def cols Let_def h_def by auto
  ultimately show ?thesis
    using assms(2) h insertSummary_rowOf [OF assms(2)] by (auto simp: sameCounters_def)
qed

lemma flags_same:
  assumes "list_all flagColumn upd" "sqlCounted db t'"
  shows "sqlCounted (UpdateSummary db t upd) t' \<and> sqlCounter (UpdateSummary db t upd) t' = sqlCounter db t'"
proof -
  obtain r where r: "summaryRowOf db t' = Some r" "rHold r \<noteq> None" "dbErr db = None"
    using assms(2) by (auto simp: sqlCounted_def split: option.splits)
  with UpdateSummary_flags [OF assms(1) r(1), of t] show ?thesis
    by (auto simp: sqlCounted_def sqlCounter_def sameCounters_def fun_eq_iff)
qed

lemma dbOk_flags: "dbOk T db \<Longrightarrow> list_all flagColumn upd \<Longrightarrow> dbOk T (UpdateSummary db t upd)"
  using flags_same by (auto simp: dbOk_def tableOk_def agrees_def)

section \<open>The operations keep the invariant\<close>

definition engineOk :: "world \<Rightarrow> bool" where
  "engineOk w \<longleftrightarrow> dbOk (set (wTasks w)) (wDB w)"

lemma engineOk_frame: "engineOk w \<Longrightarrow> frame w w' \<Longrightarrow> engineOk w'"
  by (simp add: engineOk_def frame_def)

lemma engineOk_run: "engineOk w \<Longrightarrow> runOk (frame w) r \<Longrightarrow> runOk engineOk r"
  by (erule runOk_mono) (rule engineOk_frame)

lemma goMap_single [simp]: "goMap [(a, x)] = [(a, x)]"
  by (simp add: goMap_def)

lemma goMap_pair: "a \<noteq> b \<Longrightarrow> goMap [(a, x), (b, y)] = [(a, x), (b, y)]"
  by (simp add: goMap_def)

lemma engineOk_incr:
  "dbOk (set (wTasks w)) (IncrementSummary (wDriver w) db t (goMap kvs)) \<Longrightarrow> engineOk (incrSummary (w\<lparr>wDB := db\<rparr>) t kvs)"
  by (simp add: engineOk_def incrSummary_def)

lemma status_keys: "st \<in> set allStatuses \<Longrightarrow> ToUpper st = st \<and> ToUpper (ToLower st) = st"
  by (auto simp: allStatuses_def)

text \<open>The move of one job from one status to another.\<close>

lemma dbOk_move:
  assumes ok: "dbOk T db" and r: "findRow db i = Some r" and g: "jID (g r) = jID r" "jTaskName (g r) = jTaskName r"
    and st: "jStatus (g r) \<in> set allStatuses" "jStatus (g r) \<noteq> jStatus r"
    and kvs: "kvs = [(k1, 1), (k2, - 1)] \<or> kvs = [(k2, - 1), (k1, 1)]" "ToUpper k1 = jStatus (g r)" "ToUpper k2 = jStatus r"
  shows "dbOk T (IncrementSummary driver (db\<lparr>dbJobs := map (\<lambda>j. if jID j = i then g j else j) (dbJobs db), dbHist := h\<rparr>)
    (jTaskName r) (goMap kvs))"
proof -
  have old: "jStatus r \<in> set allStatuses" using ok findRow_mem [OF r] by (auto simp: dbOk_def tableOk_def)
  have "k1 \<noteq> k2" using kvs st by auto
  then have gm: "goMap kvs = kvs" using kvs(1) by (auto simp: goMap_pair)
  show ?thesis unfolding gm
    by (rule dbOk_update_row [where g = g, OF ok r g st(1)]) (use kvs st old in \<open>auto simp: keysOk_def\<close>)
qed

lemma engineOk_move:
  assumes "engineOk w" "findRow (wDB w) i = Some r" "jID (g r) = jID r" "jTaskName (g r) = jTaskName r"
    and "jStatus (g r) \<in> set allStatuses" "jStatus (g r) \<noteq> jStatus r"
    and "kvs = [(k1, 1), (k2, - 1)] \<or> kvs = [(k2, - 1), (k1, 1)]" "ToUpper k1 = jStatus (g r)" "ToUpper k2 = jStatus r"
  shows "engineOk (incrSummary (w\<lparr>wDB := (wDB w)\<lparr>dbJobs := map (\<lambda>j. if jID j = i then g j else j) (dbJobs (wDB w)), dbHist := h\<rparr>\<rparr>)
    (jTaskName r) kvs)"
  using dbOk_move [where g = g and T = "set (wTasks w)" and db = "wDB w"] assms
  by (intro engineOk_incr) (simp add: engineOk_def)

lemma dbOk_rowStatus: "dbOk T db \<Longrightarrow> findRow db i = Some r \<Longrightarrow> jStatus r \<in> set allStatuses \<and> jID r = i \<and> i \<noteq> []"
  using findRow_mem [of db i r] by (auto simp: dbOk_def tableOk_def)

lemma scanJob_simps [simp]:
  "jID (scanJob j) = jID j" "jTaskName (scanJob j) = jTaskName j" "jStatus (scanJob j) = jStatus j"
  "jInterval (scanJob j) = jInterval j" "jRetries (scanJob j) = jRetries j" "jMaxRetry (scanJob j) = jMaxRetry j"
  "jArguments (scanJob j) = jArguments j" "jNextRunningAt (scanJob j) = jNextRunningAt j"
  by (simp_all add: scanJob_def)

lemma FindJobByID_row: "dbErr db = None \<Longrightarrow>
  FindJobByID db i None = (case findRow db i of None \<Rightarrow> Inl ENotFound | Some r \<Rightarrow> Inr (scanJob r))"
  by (simp add: FindJobByID_def split: option.splits)

lemma FindJobByID_found: "dbOk T db \<Longrightarrow> findRow db i = Some r \<Longrightarrow> FindJobByID db i None = Inr (scanJob r)"
  by (simp add: FindJobByID_row dbOk_noErr)

lemma saveNewJob_keeps:
  assumes ok: "engineOk w" and u: "uuid \<noteq> []" and j: "jID j = []" "jStatus j \<in> set allStatuses"
  shows "runOk engineOk (saveNewJob now uuid w j)"
proof -
  define hold where "hold = sIsHold (FindDetailSummary (wDB w) (jTaskName j))"
  define j0 where "j0 = (if hold then j\<lparr>jStatus := StatusHold,
                 jRetryHistories := [\<lparr>rhErrorStack = [], rhStatus = StatusHold, rhError = [], rhResult = [], rhTraceID = [],
                   rhStartAt = now, rhEndAt = now\<rparr>]\<rparr> else j)"
  have j0: "jID j0 = []" "jTaskName j0 = jTaskName j" "jStatus j0 \<in> set allStatuses"
    using j by (auto simp: j0_def allStatuses_def)
  have err: "dbErr (wDB w) = None" using ok by (simp add: engineOk_def dbOk_noErr)
  show ?thesis
  proof (cases "findRow (wDB w) uuid")
    case (Some r)
    then have "SaveJob uuid now (wDB w) j0 [] = (j0\<lparr>jID := uuid, jCreatedAt := now\<rparr>, Some (EStore ''duplicate key''), wDB w)"
      using j0 err by (simp add: SaveJob_def)
    then show ?thesis
      using ok by (auto simp: saveNewJob_def Let_def j0_def hold_def engineOk_def split: option.splits prod.splits)
  next
    case None
    define j1 where "j1 = j0\<lparr>jID := uuid, jCreatedAt := now\<rparr>"
    define row where "row = storeJob (j1\<lparr>jUpdatedAt := now\<rparr>)"
    have save: "SaveJob uuid now (wDB w) j0 [] = (j1, None, (wDB w)\<lparr>dbJobs := dbJobs (wDB w) @ [row], dbHist := dbHist (wDB w)\<rparr>)"
      using j0 err None by (simp add: SaveJob_def j1_def row_def Let_def)
    have row: "jID row = uuid" "jTaskName row = jTaskName j1" "jStatus row = jStatus j1" "jStatus j1 \<in> set allStatuses"
      using j0 by (simp_all add: row_def j1_def storeJob_def)
    define w1 where "w1 = incrSummary (w\<lparr>wDB := (wDB w)\<lparr>dbJobs := dbJobs (wDB w) @ [row], dbHist := dbHist (wDB w)\<rparr>\<rparr>)
      (jTaskName j1) [(ToLower (jStatus j1), 1)]"
    have "engineOk w1" unfolding w1_def row(2) [symmetric]
      by (intro engineOk_incr, unfold goMap_single, rule dbOk_add)
        (use ok u None row in \<open>auto simp: engineOk_def status_keys\<close>)
    then have "runOk engineOk (if n \<le> 1 \<and> b then registerJobToWorker now (snd (pushJob w1 j1)) j1 else Done () (snd (pushJob w1 j1)))" for n :: int and b
      using engineOk_run [OF _ frame_register [OF frame_push]] engineOk_frame [OF _ frame_push] by auto
    then have A: "runOk engineOk (thenW (if n \<le> 1 \<and> b then registerJobToWorker now (snd (pushJob w1 j1)) j1 else Done () (snd (pushJob w1 j1)))
        (\<lambda>w. Done (jID j1, None) (if HasBeenLocked (wLocker w) (getLockKey w (jTaskName j1)) (wLocks w) then unlockTask w (jTaskName j1) else w)))"
      for n :: int and b
      by (rule runOk_thenW) (auto intro: engineOk_frame [OF _ frame_unlock(2)])
    have eq: "saveNewJob now uuid w j = (if hold \<or> sIsLoading (FindDetailSummary (wDB w) (jTaskName j)) then Done (jID j1, None) w1
      else thenW (if fst (pushJob w1 j1) \<le> 1 \<and> \<not> wSem (snd (pushJob w1 j1)) (jTaskName j1) then registerJobToWorker now (snd (pushJob w1 j1)) j1
          else Done () (snd (pushJob w1 j1)))
        (\<lambda>w. Done (jID j1, None) (if HasBeenLocked (wLocker w) (getLockKey w (jTaskName j1)) (wLocks w) then unlockTask w (jTaskName j1) else w)))"
      unfolding saveNewJob_def Let_def hold_def [symmetric] j0_def [symmetric] save w1_def
      by (simp add: case_prod_unfold cong: if_cong)
    show ?thesis unfolding eq
      by (cases "hold \<or> sIsLoading (FindDetailSummary (wDB w) (jTaskName j))")
        (simp_all only: if_True if_False A runOk_simps \<open>engineOk w1\<close>)
  qed
qed

lemma newJobOf_shape: "newJobOf now a sch = Returns j \<Longrightarrow> jID j = [] \<and> jStatus j = StatusQueueing \<and> jTaskName j = aTaskName a"
  by (auto simp: newJobOf_def Let_def emptyJob_def split: option.splits sum.splits prod.splits)

lemma runOk_recovering: "runOk P r \<Longrightarrow> runOk P (recovering r)"
  by (cases r) (simp_all add: recovering_def)

lemma AddJob_keeps:
  assumes "engineOk w" "uuid \<noteq> []"
  shows "runOk engineOk (AddJob post now uuid w a)"
proof -
  have "runOk engineOk (saveNewJob now uuid w j)" if "newJobOf now a sch = Returns j" for sch j
    using newJobOf_shape [OF that] by (intro saveNewJob_keeps assms) (auto simp: allStatuses_def)
  then have "runOk engineOk (recovering (case newJobOf now a sch of Diverges \<Rightarrow> Forever | Panics \<Rightarrow> Crash w
      | Returns j \<Rightarrow> saveNewJob now uuid w j))" for sch
    using assms(1) by (cases "newJobOf now a sch") (auto intro: runOk_recovering)
  then show ?thesis using assms(1) by (auto simp: AddJob_def split: sum.splits)
qed

lemma UpdateJob_row:
  assumes "dbOk T db" "findRow db i = Some r"
    and "\<And>j. setColumns (AList.update ''updated_at'' (VTime now) updated) j = Some (g j)"
  shows "UpdateJob now db (emptyFilter\<lparr>fJobID := Some i\<rparr>) updated hs =
    (1, 1, None, db\<lparr>dbJobs := map (\<lambda>j. if jID j = i then g j else j) (dbJobs db), dbHist := dbHist db @ map (Pair i) hs\<rparr>)"
proof -
  have i: "i \<noteq> []" "dbErr db = None" "distinct (map jID (dbJobs db))"
    using assms(1) dbOk_rowStatus [OF assms(1,2)] by (auto simp: dbOk_def tableOk_def)
  have "length (filter (\<lambda>j. jID j = i) (dbJobs db)) = 1"
    using length_filter_unique [OF i(3), of r "\<lambda>_. True"] findRow_mem [OF assms(2)] by simp
  then show ?thesis using UpdateJob_byID [OF i(2,1) assms(3)] by (simp add: Let_def)
qed

lemma UpdateJob_row_status:
  assumes "dbOk T db" "findRow db i = Some r" "jStatus r = st"
    and "\<And>j. setColumns (AList.update ''updated_at'' (VTime now) updated) j = Some (g j)"
  shows "UpdateJob now db (emptyFilter\<lparr>fJobID := Some i, fStatus := Some st\<rparr>) updated hs =
    (1, 1, None, db\<lparr>dbJobs := map (\<lambda>j. if jID j = i then g j else j) (dbJobs db), dbHist := dbHist db @ map (Pair i) hs\<rparr>)"
proof -
  have i: "i \<noteq> []" "dbErr db = None" "distinct (map jID (dbJobs db))"
    using assms(1) dbOk_rowStatus [OF assms(1,2)] by (auto simp: dbOk_def tableOk_def)
  have r: "r \<in> set (dbJobs db)" "jID r = i" using findRow_mem [OF assms(2)] by auto
  have "length (filter (\<lambda>j. jID j = i \<and> jStatus j = st) (dbJobs db)) = 1"
    using length_filter_unique [OF i(3) r(1), of "\<lambda>j. jStatus j = st"] assms(3) r by simp
  moreover have "map (\<lambda>j. if jID j = i \<and> jStatus j = st then g j else j) (dbJobs db) =
      map (\<lambda>j. if jID j = i then g j else j) (dbJobs db)"
    using i(3) r assms(3) by (intro map_cong) (auto simp: distinct_map inj_on_def)
  ultimately show ?thesis using UpdateJob_byID_status [OF i(2,1) assms(4)] by (simp add: Let_def)
qed

lemma engineOk_nextJob: "engineOk w \<Longrightarrow> runOk engineOk (registerNextJob b now t w)"
  by (erule engineOk_run) (rule frame_nextJob [OF frame_refl])

lemma engineOk_registerPushed: "engineOk w \<Longrightarrow> runOk engineOk (registerJobToWorker now (snd (pushJob w j)) j)"
  by (erule engineOk_run) (rule frame_register [OF frame_push])

lemma StopJob_keeps:
  assumes ok: "engineOk w" and st: "\<And>r. findRow (wDB w) i = Some r \<Longrightarrow> jStatus r \<noteq> StatusStopped"
  shows "runOk engineOk (StopJob now w i)"
proof (cases "findRow (wDB w) i")
  case None
  then show ?thesis using ok by (simp add: StopJob_def FindJobByID_row dbOk_noErr engineOk_def)
next
  case (Some r)
  have db: "dbOk (set (wTasks w)) (wDB w)" using ok by (simp add: engineOk_def)
  define w1 where "w1 = (if jStatus r = StatusRetrying then stopAllJobInTask w (jTaskName r) else w)"
  have w1: "wDB w1 = wDB w" "wTasks w1 = wTasks w" "engineOk w1"
    using ok by (auto simp: w1_def engineOk_def stopAllJobInTask_def)
  define g where "g j = j\<lparr>jStatus := StatusStopped, jUpdatedAt := now\<rparr>" for j :: job
  have cols: "\<And>j. setColumns (AList.update ''updated_at'' (VTime now) [(''status'', VStr StatusStopped)]) j = Some (g j)"
    by (simp only: setColumns_status g_def)
  note upd = UpdateJob_row_status [where g = g, OF db Some refl cols, of "[]"]
  have id: "jID r = i" using findRow_mem [OF Some] by simp
  define w2 where "w2 = incrSummary (w1\<lparr>wDB := (wDB w1)\<lparr>dbJobs := map (\<lambda>j. if jID j = i then g j else j) (dbJobs (wDB w1)),
    dbHist := dbHist (wDB w1)\<rparr>\<rparr>) (jTaskName r) [(StatusStopped, 1), (jStatus r, - 1)]"
  have "engineOk w2" unfolding w2_def
    by (rule engineOk_move [where g = g, OF w1(3)])
      (use Some w1 st [OF Some] dbOk_rowStatus [OF db Some] in \<open>auto simp: g_def allStatuses_def\<close>)
  then have "runOk engineOk (thenW (registerNextJob False now (jTaskName r) w2) (\<lambda>w. Done (None :: jobError option) w))"
    by (intro runOk_thenW engineOk_nextJob) auto
  moreover have "StopJob now w i = (if wActive w then thenW (registerNextJob False now (jTaskName r) w2) (\<lambda>w. Done (None :: jobError option) w)
      else Done (Some EInactive) w)"
    unfolding StopJob_def Let_def FindJobByID_found [OF db Some] sum.case scanJob_simps id w1_def [symmetric] w1(1) upd
    by (simp add: w2_def w1(1))
  ultimately show ?thesis using ok by simp
qed

lemma ParseNextRunningInterval_shape:
  "ParseNextRunningInterval n1 n2 n3 j = Returns (d, e, j') \<Longrightarrow> \<exists>t. j' = j\<lparr>jNextRunningAt := t\<rparr>"
  by (auto simp: ParseNextRunningInterval_def Let_def split: if_splits sum.splits option.splits prod.splits
      intro: exI [of _ "jNextRunningAt j"])

lemma RetryJob_keeps:
  assumes ok: "engineOk w" and st: "\<And>r. findRow (wDB w) i = Some r \<Longrightarrow> jStatus r \<noteq> StatusQueueing"
  shows "runOk engineOk (RetryJob now w i)"
proof (cases "findRow (wDB w) i")
  case None
  then show ?thesis using ok by (simp add: RetryJob_def FindJobByID_row dbOk_noErr engineOk_def)
next
  case (Some r)
  have db: "dbOk (set (wTasks w)) (wDB w)" using ok by (simp add: engineOk_def)
  have id: "jID r = i" using findRow_mem [OF Some] by simp
  define w1 where "w1 = unlockKey (unlockKey w (getLockKey w (jTaskName r))) (getLockKey (unlockKey w (getLockKey w (jTaskName r))) i)"
  have w1: "wDB w1 = wDB w" "wTasks w1 = wTasks w" "engineOk w1"
    using ok by (auto simp: w1_def engineOk_def unlockKey_def)
  have j1: "jTaskName (retried (scanJob r)) = jTaskName r" "jID (retried (scanJob r)) = i" "jStatus (retried (scanJob r)) = StatusQueueing"
    using id by (simp_all add: retried_def Let_def split: sum.splits)
  note eq = RetryJob_def [of now w i, unfolded Let_def FindJobByID_found [OF db Some] sum.case scanJob_simps id, folded w1_def, unfolded w1(1)]
  show ?thesis
  proof (cases "ParseNextRunningInterval now now now (retried (scanJob r))")
    case (Returns x)
    obtain d e j where x: "x = (d, e, j)" by (cases x)
    obtain t where t: "j = (retried (scanJob r))\<lparr>jNextRunningAt := t\<rparr>"
      using ParseNextRunningInterval_shape [OF Returns [unfolded x]] by blast
    then have j: "jTaskName j = jTaskName r" "jID j = i" "jStatus j = StatusQueueing" using j1 by simp_all
    define upd where "upd = [(''status'', VStr (jStatus j)), (''interval'', VStr (jInterval j)), (''retries'', VInt (jRetries j)),
                       (''next_running_at'', VTime (jNextRunningAt j))]"
    define g where "g k = k\<lparr>jStatus := jStatus j, jInterval := jInterval j, jRetries := jRetries j,
      jNextRunningAt := jNextRunningAt j, jUpdatedAt := now\<rparr>" for k :: job
    have cols: "setColumns (AList.update ''updated_at'' (VTime now) upd) k = Some (g k)" for k
      by (simp add: setColumn_def upd_def g_def)
    note u = UpdateJob_row [where g = g, OF db Some cols, of "[]"]
    define w2 where "w2 = incrSummary (w1\<lparr>wDB := (wDB w1)\<lparr>dbJobs := map (\<lambda>j. if jID j = i then g j else j) (dbJobs (wDB w1)),
      dbHist := dbHist (wDB w1)\<rparr>\<rparr>) (jTaskName r) [(jStatus r, - 1), (StatusQueueing, 1)]"
    have ok2: "engineOk w2" unfolding w2_def
      by (rule engineOk_move [where g = g, OF w1(3)])
        (use Some w1 j st [OF Some] dbOk_rowStatus [OF db Some] in \<open>auto simp: g_def allStatuses_def\<close>)
    then have A: "runOk engineOk (thenW (registerJobToWorker now (snd (pushJob w2 j)) j) (\<lambda>w. Done (None :: jobError option) w))"
      by (intro runOk_thenW engineOk_registerPushed) auto
    show ?thesis using u ok A ok2
      unfolding eq Returns x upd_def [symmetric] outcome.case prod.case j
      by (simp add: w2_def w1(1) upd_def j)
  qed (use ok w1 in \<open>simp_all add: eq\<close>)
qed

lemma startJob_keeps:
  assumes ok: "engineOk w"
  shows "engineOk (snd (startJob now h w t))"
proof -
  obtain i q where pop: "inMem_PopJob (wQueue w) t = (i, q)" by force
  have db: "dbOk (set (wTasks w)) (wDB w)" using ok by (simp add: engineOk_def)
  have okq: "engineOk (w\<lparr>wQueue := q\<rparr>)" using ok by (simp add: engineOk_def)
  show ?thesis
  proof (cases "findRow (wDB w) i")
    case None
    then show ?thesis using okq by (simp add: startJob_def pop Let_def FindJobByID_row dbOk_noErr [OF db])
  next
    case (Some r)
    have id: "jID r = i" using findRow_mem [OF Some] by simp
    define g where "g j = j\<lparr>jStatus := StatusRetrying, jUpdatedAt := now\<rparr>" for j :: job
    have cols: "\<And>j. setColumns (AList.update ''updated_at'' (VTime now) [(''status'', VStr StatusRetrying)]) j = Some (g j)"
      by (simp only: setColumns_status g_def)
    note u = UpdateJob_row [where g = g, OF db Some cols, of "[]"]
    define w2 where "w2 = incrSummary ((w\<lparr>wQueue := q\<rparr>)\<lparr>wDB := (wDB (w\<lparr>wQueue := q\<rparr>))\<lparr>dbJobs := map (\<lambda>j. if jID j = i then g j else j)
      (dbJobs (wDB (w\<lparr>wQueue := q\<rparr>))), dbHist := dbHist (wDB w)\<rparr>\<rparr>) (jTaskName r) [(StatusRetrying, 1), (ToLower (jStatus r), - 1)]"
    have "engineOk w2" if "jStatus r = StatusQueueing" unfolding w2_def
      by (rule engineOk_move [where g = g, OF okq])
        (use Some that dbOk_rowStatus [OF db Some] in \<open>auto simp: g_def allStatuses_def\<close>)
    then show ?thesis using okq u id
      by (auto simp: startJob_def pop Let_def FindJobByID_found [OF db Some] w2_def)
  qed
qed

text \<open>The end of a run: the row of the job is still \<open>RETRYING\<close>, or the context was canceled and
  the status stays.\<close>

definition finishedRow :: "gotime \<Rightarrow> bool \<Rightarrow> job \<Rightarrow> gotime \<Rightarrow> job \<Rightarrow> job" where
  "finishedRow now isUpdateArgs j nxt k = k\<lparr>jRetries := jRetries j, jFinishedAt := jFinishedAt j, jStatus := jStatus j,
     jNextRunningAt := nxt, jInterval := jInterval j, jError := jError j, jTraceID := jTraceID j, jResult := jResult j,
     jArguments := (if isUpdateArgs then jArguments j else jArguments k), jUpdatedAt := now\<rparr>"

lemma finishedRow_simps [simp]:
  "jID (finishedRow now b j nxt k) = jID k" "jTaskName (finishedRow now b j nxt k) = jTaskName k"
  "jStatus (finishedRow now b j nxt k) = jStatus j"
  by (simp_all add: finishedRow_def)

lemma setColumns_finish:
  assumes "nxt = VNil \<and> t = zeroTime \<or> nxt = VTime t"
  shows "setColumns (AList.update ''updated_at'' (VTime now) ([(''retries'', VInt (jRetries j)), (''finished_at'', VTime (jFinishedAt j)),
      (''status'', VStr (jStatus j)), (''next_running_at'', nxt), (''interval'', VStr (jInterval j)), (''error'', VStr (jError j)),
      (''trace_id'', VStr (jTraceID j)), (''result'', VStr (jResult j))] @
      (if b then [(''arguments'', VStr (jArguments j))] else []))) k = Some (finishedRow now b j t k)"
  using assms by (cases b) (auto simp: setColumn_def finishedRow_def)

lemma finishUpdate_cols:
  assumes "finishUpdate now False b j = Returns (u, j')"
  shows "\<exists>v nxt. j' = j\<lparr>jNextRunningAt := v\<rparr> \<and>
    (\<forall>k. setColumns (AList.update ''updated_at'' (VTime now) u) k = Some (finishedRow now b j nxt k))"
proof (cases "jStatus j = StatusQueueing")
  case False
  have "j' = j\<lparr>jNextRunningAt := jNextRunningAt j\<rparr>" using assms False by (simp add: finishUpdate_def Let_def)
  moreover have "setColumns (AList.update ''updated_at'' (VTime now) u) k = Some (finishedRow now b j zeroTime k)" for k
    using assms False setColumns_finish [of VNil zeroTime now j b] by (auto simp: finishUpdate_def Let_def)
  ultimately show ?thesis by blast
next
  case True
  obtain d e where p: "ParseNextRunningInterval now now now (j\<lparr>jNextRunningAt := zeroTime\<rparr>) = Returns (d, e, j')"
    using assms True by (auto simp: finishUpdate_def Let_def split: outcome.splits prod.splits)
  then obtain t where j': "j' = j\<lparr>jNextRunningAt := t\<rparr>"
    using ParseNextRunningInterval_shape [of now now now "j\<lparr>jNextRunningAt := zeroTime\<rparr>" d e j'] by auto
  have "setColumns (AList.update ''updated_at'' (VTime now) u) k = Some (finishedRow now b j t k)" for k
    using assms True p j' setColumns_finish [of "VTime t" t now j b] by (auto simp: finishUpdate_def Let_def)
  then show ?thesis using j' by blast
qed

lemma settleJob_shape:
  assumes "settleJob r w j = (w', j', hist, upd)"
  shows "frame w w' \<and> jID j' = jID j \<and> jTaskName j' = jTaskName j \<and> jStatus j' \<noteq> StatusRetrying \<and> jStatus j' \<in> set allStatuses"
  using assms frame_push
  by (auto simp: settleJob_def Let_def allStatuses_def split: option.splits if_splits handlerError.splits)

lemma IncrementSummary_none [simp]: "IncrementSummary driver db t [] = db"
  by (simp add: IncrementSummary_def)

lemma DeleteJob_row:
  assumes "dbErr db = None"
  shows "DeleteJob db i = ((case findRow db i of None \<Rightarrow> emptyJob | Some r \<Rightarrow> scanJob r), None,
    db\<lparr>dbJobs := filter (\<lambda>j. \<not> jID j = i) (dbJobs db), dbHist := filter (\<lambda>h. fst h \<noteq> i) (dbHist db)\<rparr>)"
  using assms by (simp add: DeleteJob_def)

lemma engineOk_delete:
  assumes ok: "engineOk w" and r: "findRow (wDB w) i = Some r" and k: "ToUpper k = jStatus r"
  shows "engineOk (incrSummary (w\<lparr>wDB := (wDB w)\<lparr>dbJobs := filter (\<lambda>j. \<not> jID j = i) (dbJobs (wDB w)), dbHist := hs\<rparr>\<rparr>)
    (jTaskName r) [(k, - 1)])"
proof -
  have db: "dbOk (set (wTasks w)) (wDB w)" using ok by (simp add: engineOk_def)
  have mem: "r \<in> set (dbJobs (wDB w))" "jID r = i" using findRow_mem [OF r] by auto
  have dist: "distinct (map jID (dbJobs (wDB w)))" using db by (simp add: dbOk_def tableOk_def)
  have uniq: "j = r" if "j \<in> set (dbJobs (wDB w))" "jID j = i" for j
    using dist that mem by (auto simp: distinct_map inj_on_def)
  have n: "1 = int (length (filter (\<lambda>j. jID j = i) (dbJobs (wDB w))))"
    using length_filter_unique [OF dist mem(1), of "\<lambda>_. True"] mem by simp
  show ?thesis
    by (intro engineOk_incr, unfold goMap_single, rule dbOk_remove [OF db _ _ n])
      (use k uniq dbOk_rowStatus [OF db r] in \<open>auto dest: uniq\<close>)
qed

lemma finishJob_keeps_result:
  assumes ok: "engineOk w" and r: "findRow (wDB w) (jID j) = Some r" "jStatus r = StatusRetrying" "jTaskName r = jTaskName j"
    and st: "jStatus j \<noteq> StatusRetrying" "jStatus j \<in> set allStatuses"
  shows "runOk engineOk (finishJob s now h False (w, j, hist, b))"
proof -
  have db: "dbOk (set (wTasks w)) (wDB w)" using ok by (simp add: engineOk_def)
  define j0 where "j0 = j\<lparr>jFinishedAt := now\<rparr>"
  have j0: "jID j0 = jID j" "jTaskName j0 = jTaskName j" "jStatus j0 = jStatus j" by (simp_all add: j0_def)
  show ?thesis
  proof (cases "thDeleteAfterSuccess h \<and> jStatus j = StatusSuccess")
    case True
    have "engineOk (incrSummary (w\<lparr>wDB := (wDB w)\<lparr>dbJobs := filter (\<lambda>k. \<not> jID k = jID j) (dbJobs (wDB w)),
        dbHist := filter (\<lambda>h. fst h \<noteq> jID j) (dbHist (wDB w))\<rparr>\<rparr>) (jTaskName r) [(ToLower StatusRetrying, - 1)])"
      by (rule engineOk_delete [OF ok r(1)]) (simp add: r)
    then show ?thesis using True by (simp add: finishJob_def Let_def DeleteJob_row dbOk_noErr [OF db] r(3))
  next
    case False
    show ?thesis
    proof (cases "finishUpdate now False b j0")
      case (Returns x)
      obtain u j' where x: "x = (u, j')" by (cases x)
      obtain v nxt where v: "j' = j0\<lparr>jNextRunningAt := v\<rparr>"
        and cols: "\<forall>k. setColumns (AList.update ''updated_at'' (VTime now) u) k = Some (finishedRow now b j0 nxt k)"
        using finishUpdate_cols [OF Returns [unfolded x]] by blast
      have same: "jID j' = jID j" "jTaskName j' = jTaskName j" "jStatus j' = jStatus j" by (simp_all add: v j0)
      define g where "g = finishedRow now b j0 nxt"
      have g: "\<forall>k. setColumns (AList.update ''updated_at'' (VTime now) u) k = Some (g k) \<and>
          jID (g k) = jID k \<and> jTaskName (g k) = jTaskName k \<and> jStatus (g k) = jStatus j"
        using cols j0 by (simp add: g_def)
      note upd = UpdateJob_row [where g = g and now = now and updated = u, OF db r(1)]
      have ok2: "engineOk (incrSummary (w\<lparr>wDB := (wDB w)\<lparr>dbJobs := map (\<lambda>k. if jID k = jID j then g k else k) (dbJobs (wDB w)),
          dbHist := hs\<rparr>\<rparr>) (jTaskName r) [(jStatus j, 1), (ToLower StatusRetrying, - 1)])" for hs
        by (rule engineOk_move [where g = g, OF ok r(1)]) (use g r st status_keys [OF st(2)] in auto)
      show ?thesis
        using False ok2 upd g unfolding finishJob_def Let_def prod.case j0_def [symmetric] Returns x outcome.case
        by (auto simp: same r(3) j0 split: prod.splits)
    qed (use False ok in \<open>auto simp: finishJob_def Let_def j0_def\<close>)
  qed
qed

lemma finishUpdate_canceled:
  "jStatus j = StatusStopped \<Longrightarrow> finishUpdate now True b j = Returns ([(''error'', VStr (jError j)), (''trace_id'', VStr (jTraceID j))], j)"
  by (simp add: finishUpdate_def Let_def)

lemma UpdateJob_noCondition: "UpdateJob now db (emptyFilter\<lparr>fJobID := Some []\<rparr>) u hs = (0, 0, Some (EOther ''empty filter''), db)"
  by (simp add: UpdateJob_def queryConditions_def emptyFilter_def ParseStartEndDate_def)

lemma tableOk_map:
  assumes "tableOk db" "\<And>j. jID (g j) = jID j" "\<And>j. jStatus (g j) = jStatus j"
  shows "tableOk (db\<lparr>dbJobs := map g (dbJobs db), dbHist := h\<rparr>)"
  using assms by (auto simp: tableOk_def comp_def)

lemma finishJob_keeps_canceled:
  assumes ok: "engineOk w" and st: "jStatus j = StatusStopped"
  shows "runOk engineOk (finishJob s now h True (w, j, hist, b))"
proof -
  have db: "dbOk (set (wTasks w)) (wDB w)" using ok by (simp add: engineOk_def)
  define u where "u = [(''error'', VStr (jError j)), (''trace_id'', VStr (jTraceID j))]"
  define g where "g k = k\<lparr>jError := jError j, jTraceID := jTraceID j, jUpdatedAt := now\<rparr>" for k :: job
  have cols: "setColumns (AList.update ''updated_at'' (VTime now) u) k = Some (g k)" for k
    by (simp add: u_def g_def setColumn_def)
  have step: "dbOk (set (wTasks w)) ((wDB w)\<lparr>dbJobs := map (\<lambda>k. if jID k = i then g k else k) (dbJobs (wDB w)), dbHist := hs\<rparr>)" for i hs
    by (rule dbOk_same_counts [OF db])
      (auto intro!: tableOk_map dbOk_table [OF db] countJobs_cong simp: g_def)
  have "\<not> (thDeleteAfterSuccess h \<and> jStatus j = StatusSuccess)" using st by simp
  then show ?thesis
  proof (cases "jID j = []")
    case True
    then show ?thesis using ok st UpdateJob_noCondition
      by (simp add: finishJob_def Let_def finishUpdate_canceled incrSummary_def goMap_def engineOk_def)
  next
    case False
    then show ?thesis using st step UpdateJob_byID [where g = g and updated = u, OF dbOk_noErr [OF db] False cols]
      by (simp add: finishJob_def Let_def finishUpdate_canceled incrSummary_def goMap_def engineOk_def u_def)
  qed
qed

lemma endRun_keeps: "engineOk w \<Longrightarrow> runOk engineOk (endRun l now t w)"
  unfolding endRun_def Let_def by (rule engineOk_nextJob) (simp add: engineOk_def unlockKey_def)

lemma completeTask_keeps:
  assumes ok: "engineOk w"
    and row: "\<And>j. r \<noteq> None \<Longrightarrow> wCurrent w t = Some j \<Longrightarrow>
      \<exists>k. findRow (wDB w) (jID j) = Some k \<and> jStatus k = StatusRetrying \<and> jTaskName k = jTaskName j"
  shows "runOk engineOk (completeTask s now h r w t)"
proof (cases "wCurrent w t")
  case None
  then show ?thesis using ok by (simp add: completeTask_def)
next
  case (Some j0)
  obtain w' j' hist b where s: "settleJob r w j0 = (w', j', hist, b)" by (metis prod_cases4)
  note shape = settleJob_shape [OF s]
  have ok': "engineOk w'" using engineOk_frame [OF ok] shape by blast
  have "runOk engineOk (finishJob s now h (r = None) (w', j', hist, b))"
  proof (cases r)
    case None
    have "jStatus j' = StatusStopped" using s None by (auto simp: settleJob_def)
    then show ?thesis using finishJob_keeps_canceled [OF ok'] None by simp
  next
    case r: (Some res)
    obtain k where k: "findRow (wDB w) (jID j0) = Some k" "jStatus k = StatusRetrying" "jTaskName k = jTaskName j0"
      using row [OF _ Some] r by auto
    show ?thesis
      using finishJob_keeps_result [OF ok', of j' k] k shape r by (simp add: frame_def)
  qed
  then show ?thesis using Some s
    by (cases "finishJob s now h (r = None) (w', j', hist, b)") (simp_all add: completeTask_def endRun_keeps)
qed

lemma triggerTask_keeps:
  assumes ok: "engineOk w" and r: "triggerTask now h w t = Some r"
  shows "runOk engineOk r"
proof -
  define w1 where "w1 = w\<lparr>wTicker := (wTicker w)(t := None), wSem := (wSem w)(t := True)\<rparr>"
  define w2 where "w2 = w1\<lparr>wCanceled := (wCanceled w1)(t := False)\<rparr>"
  have ok2: "engineOk (w2\<lparr>wLocks := l\<rparr>)" "engineOk w2" for l using ok by (simp_all add: w2_def w1_def engineOk_def)
  have start: "engineOk w'" if "startJob now h (w2\<lparr>wLocks := l\<rparr>) t = (x, w')" for l x w'
    using startJob_keeps [OF ok2(1), of now h l t] that by simp
  have locked: "runOk engineOk (endRun False now t (unlockTask (w2\<lparr>wLocks := l\<rparr>) t))" for l
    by (rule endRun_keeps, rule engineOk_frame [OF ok2(1) frame_unlock(2)])
  have held: "engineOk (w\<lparr>wTicker := f, wSem := g\<rparr>)" "engineOk (w\<lparr>wTicker := f\<rparr>)" for f g
    using ok by (simp_all add: engineOk_def)
  consider "t \<notin> set (wTasks w)" "r = Done () w"
    | "r = Done () (w\<lparr>wTicker := (wTicker w)(t := None)\<rparr>)" | "r = Done () w1" | "r = endRun False now t w2"
    | l where "r = endRun False now t (unlockTask (w2\<lparr>wLocks := l\<rparr>) t)"
    | l w' where "startJob now h (w2\<lparr>wLocks := l\<rparr>) t = (None, w')" "r = endRun True now t w'"
    | l j w' where "startJob now h (w2\<lparr>wLocks := l\<rparr>) t = (Some j, w')" "r = Done () (w'\<lparr>wCurrent := (wCurrent w')(t \<mapsto> j)\<rparr>)"
    using r unfolding triggerTask_def Let_def
    by (auto simp: w1_def w2_def split: if_splits prod.splits bool.splits option.splits)
  then show ?thesis
    using ok held ok2 endRun_keeps locked by cases (auto simp: w1_def engineOk_def dest!: start)
qed

lemma Resolver_DeleteJob_keeps:
  assumes ok: "engineOk w"
  shows "engineOk (snd (Resolver_DeleteJob w i))"
proof (cases "findRow (wDB w) i")
  case (Some r)
  then show ?thesis using engineOk_delete [OF ok Some, of "jStatus r"] ok dbOk_rowStatus [of "set (wTasks w)" "wDB w" i r]
    by (simp add: Resolver_DeleteJob_def DeleteJob_row dbOk_noErr engineOk_def status_keys)
next
  case None
  have db: "dbOk (set (wTasks w)) (wDB w)" using ok by (simp add: engineOk_def)
  have "filter (\<lambda>j. jID j \<noteq> i) (dbJobs (wDB w)) = dbJobs (wDB w)"
    using None by (auto simp: findRow_None filter_id_conv)
  moreover have "IncrementSummary driver db' t [([], n)] = db'" for driver db' t and n :: int
    by (simp add: IncrementSummary_def)
  moreover have "dbOk (set (wTasks w)) ((wDB w)\<lparr>dbHist := hs\<rparr>)" for hs
    by (rule dbOk_same_counts [OF db]) (use db in \<open>auto simp: dbOk_def tableOk_def\<close>)
  ultimately show ?thesis
    by (simp add: Resolver_DeleteJob_def DeleteJob_row dbOk_noErr [OF db] None emptyJob_def incrSummary_def engineOk_def)
qed

section \<open>Bulk operations keep the invariant\<close>

lemma incrFor_update: "incrFor (AList.update k v m) st = incrFor m st + (if ToUpper k = st then v - getCount m k else 0)"
  by (induction m) (auto simp: getCount_def split: option.splits)

lemma keys_update: "fst ` set (AList.update k v m) = insert k (fst ` set m)"
  by (induction m) auto

text \<open>Maps of increments with the lower case names of the statuses as keys.\<close>

definition lowKeys :: "(string \<times> int) list \<Rightarrow> bool" where
  "lowKeys m \<longleftrightarrow> distinct (map fst m) \<and> fst ` set m \<subseteq> ToLower ` set allStatuses"

lemma lowKeys_addIncr: "lowKeys m \<Longrightarrow> st \<in> set allStatuses \<Longrightarrow> lowKeys (addIncr m (ToLower st) i)"
  by (auto simp: lowKeys_def addIncr_def keys_update distinct_update)

lemma incrFor_addIncr: "incrFor (addIncr m k i) st = incrFor m st + (if ToUpper k = st then i else 0)"
  by (simp add: addIncr_def incrFor_update)

lemma inj_ToLower: "inj_on ToLower (set allStatuses)"
  by (rule inj_on_inverseI [where g = ToUpper]) (simp add: status_keys)

lemma lowKeys_keysOk: "lowKeys m \<Longrightarrow> keysOk m"
proof -
  assume low: "lowKeys m"
  have "map (\<lambda>(k, v). ToUpper k) m = map ToUpper (map fst m)" by auto
  moreover have "inj_on ToUpper (ToLower ` set allStatuses)"
    by (rule inj_on_inverseI [where g = ToLower]) (auto simp: status_keys)
  ultimately have "distinct (map (\<lambda>(k, v). ToUpper k) m)"
    using low by (simp add: lowKeys_def distinct_map inj_on_subset del: map_map)
  moreover have "list_all (\<lambda>(k, v). ToUpper k \<in> set allStatuses) m"
    using low by (auto simp: lowKeys_def list_all_iff status_keys dest!: subsetD [OF _ imageI])
  ultimately show "keysOk m" by (simp add: keysOk_def)
qed

lemma update_new: "k \<notin> fst ` set m \<Longrightarrow> AList.update k v m = m @ [(k, v)]"
  by (induction m) auto

lemma goMap_distinct: "distinct (map fst m) \<Longrightarrow> goMap m = m"
proof (induction m rule: rev_induct)
  case (snoc kv m)
  then show ?case by (cases kv) (simp add: goMap_def update_new)
qed (simp add: goMap_def)

lemma UpdateJob_sel:
  assumes "dbErr db = None" "queryConditions f \<noteq> []" "fJobID f = None"
    and "\<And>j. setColumns (AList.update ''updated_at'' (VTime now) updated) j = Some (g j)"
  shows "UpdateJob now db f updated hs =
    (let n = int (length (filter (matchesFilter (dbLike db) f) (dbJobs db)))
     in (n, n, None, db\<lparr>dbJobs := map (\<lambda>j. if matchesFilter (dbLike db) f j then g j else j) (dbJobs db)\<rparr>))"
  using assms by (simp add: UpdateJob_def Let_def)

lemma countJobs_move:
  assumes "\<And>j. j \<in> set js \<Longrightarrow> sel j \<Longrightarrow> jTaskName j = t \<and> jStatus j = st"
    and "\<And>j. jTaskName (g j) = jTaskName j \<and> jStatus (g j) = target"
  shows "countJobs (map (\<lambda>j. if sel j then g j else j) js) t' st' =
    countJobs js t' st' + (if t' = t then (if target = st' then int (length (filter sel js)) else 0)
      - (if st = st' then int (length (filter sel js)) else 0) else 0)"
  using assms(1)
proof (induction js)
  case (Cons j js)
  then show ?case using assms(2) by auto
qed simp

lemma countJobs_selected:
  "(\<And>j. j \<in> set js \<Longrightarrow> sel j \<Longrightarrow> jTaskName j = t \<and> jStatus j = st) \<Longrightarrow>
   countJobs (filter sel js) t' st' = (if t' = t \<and> st = st' then int (length (filter sel js)) else 0)"
  by (induction js) auto

definition bulkFilter :: "(string \<Rightarrow> string \<Rightarrow> bool) \<Rightarrow> string \<Rightarrow> (string \<Rightarrow> jobFilter) \<Rightarrow> bool" where
  "bulkFilter like t flt \<longleftrightarrow> (\<forall>st. queryConditions (flt st) \<noteq> [] \<and> fJobID (flt st) = None \<and>
     (\<forall>j. matchesFilter like (flt st) j \<longrightarrow> jTaskName j = t \<and> jStatus j = st))"

lemma moveStatuses_effect:
  assumes "tableOk db" "bulkFilter (dbLike db) t flt" "target \<in> set allStatuses" "lowKeys incr" "set sts \<subseteq> set allStatuses"
    and cols: "\<And>j. setColumns (AList.update ''updated_at'' (VTime now) updated) j = Some (g j)"
    and g: "\<And>j. jID (g j) = jID j \<and> jTaskName (g j) = jTaskName j \<and> jStatus (g j) = target"
  shows "case moveStatuses now flt updated target sts (db, incr) of (db', incr') \<Rightarrow>
    tableOk db' \<and> dbSummaries db' = dbSummaries db \<and> lowKeys incr' \<and>
    (\<forall>t' st. countJobs (dbJobs db') t' st = countJobs (dbJobs db) t' st + (if t' = t then incrFor incr' st - incrFor incr st else 0))"
  using assms(1-5)
proof (induction sts arbitrary: db incr)
  case (Cons st sts)
  let ?sel = "matchesFilter (dbLike db) (flt st)"
  define n where "n = int (length (filter ?sel (dbJobs db)))"
  define db1 where "db1 = db\<lparr>dbJobs := map (\<lambda>j. if ?sel j then g j else j) (dbJobs db)\<rparr>"
  define m1 where "m1 = addIncr (addIncr incr (ToLower st) (- n)) (ToLower target) n"
  have st: "st \<in> set allStatuses" using Cons.prems by simp
  have bulk: "queryConditions (flt st) \<noteq> []" "fJobID (flt st) = None" "\<And>j. ?sel j \<Longrightarrow> jTaskName j = t \<and> jStatus j = st"
    using Cons.prems(2) by (auto simp: bulkFilter_def)
  have "UpdateJob now db (flt st) updated [] = (n, n, None, db1)"
    using UpdateJob_sel [OF _ bulk(1,2) cols] Cons.prems(1) by (simp add: tableOk_def Let_def n_def db1_def)
  then have step: "moveStatuses now flt updated target (st # sts) (db, incr) = moveStatuses now flt updated target sts (db1, m1)"
    by (simp add: m1_def)
  have "map jID (dbJobs db1) = map jID (dbJobs db)" using g by (simp add: db1_def)
  moreover have "jID k \<noteq> [] \<and> jStatus k \<in> set allStatuses" if "k \<in> set (dbJobs db1)" for k
    using that Cons.prems(1,3) g by (auto simp: db1_def tableOk_def)
  ultimately have tab1: "tableOk db1" using Cons.prems(1) by (simp add: tableOk_def) (simp add: db1_def)
  have cnt: "countJobs (dbJobs db1) t' st' = countJobs (dbJobs db) t' st' + (if t' = t then incrFor m1 st' - incrFor incr st' else 0)" for t' st'
    using countJobs_move [of "dbJobs db" ?sel t st g target t' st'] bulk(3) g status_keys [OF st] status_keys [OF Cons.prems(3)]
    by (simp add: db1_def m1_def incrFor_addIncr n_def)
  have low: "lowKeys m1" unfolding m1_def using Cons.prems st by (intro lowKeys_addIncr)
  have pre: "bulkFilter (dbLike db1) t flt" "set sts \<subseteq> set allStatuses" using Cons.prems by (simp_all add: db1_def)
  show ?case
    using Cons.IH [OF tab1 pre(1) Cons.prems(3) low pre(2)] cnt unfolding step by (auto simp: db1_def split: prod.splits)
qed auto

lemma cleanStatuses_effect:
  assumes "tableOk db" "bulkFilter (dbLike db) t flt" "lowKeys incr" "set sts \<subseteq> set allStatuses"
  shows "case cleanStatuses flt sts (db, incr) of (db', incr') \<Rightarrow>
    tableOk db' \<and> dbSummaries db' = dbSummaries db \<and> lowKeys incr' \<and>
    (\<forall>t' st. countJobs (dbJobs db') t' st = countJobs (dbJobs db) t' st + (if t' = t then incrFor incr' st - incrFor incr st else 0))"
  using assms
proof (induction sts arbitrary: db incr)
  case (Cons st sts)
  let ?sel = "matchesFilter (dbLike db) (flt st)"
  define n where "n = int (length (filter ?sel (dbJobs db)))"
  define db1 where "db1 = snd (CleanJob db (flt st))"
  define m1 where "m1 = addIncr incr (ToLower st) (- n)"
  have st: "st \<in> set allStatuses" using Cons.prems by simp
  have bulk: "queryConditions (flt st) \<noteq> []" "\<And>j. ?sel j \<Longrightarrow> jTaskName j = t \<and> jStatus j = st"
    using Cons.prems(2) by (auto simp: bulkFilter_def)
  have clean: "CleanJob db (flt st) = (n, db1)" "dbJobs db1 = filter (\<lambda>j. \<not> ?sel j) (dbJobs db)" "dbSummaries db1 = dbSummaries db"
    "dbErr db1 = dbErr db" "dbLike db1 = dbLike db"
    using bulk(1) Cons.prems(1) by (auto simp: CleanJob_def Let_def tableOk_def n_def db1_def)
  have step: "cleanStatuses flt (st # sts) (db, incr) = cleanStatuses flt sts (db1, m1)"
    using clean(1) by (simp add: m1_def)
  have tab1: "tableOk db1" using Cons.prems(1) clean by (auto simp: tableOk_def intro: distinct_map_filter)
  have "countJobs (filter ?sel (dbJobs db)) t' st' = (if t' = t \<and> st = st' then n else 0)" for t' st'
    unfolding n_def by (rule countJobs_selected) (rule bulk(2))
  then have cnt: "countJobs (dbJobs db1) t' st' = countJobs (dbJobs db) t' st' + (if t' = t then incrFor m1 st' - incrFor incr st' else 0)" for t' st'
    using countJobs_split [of "dbJobs db" t' st' ?sel] status_keys [OF st] by (auto simp: clean(2) m1_def incrFor_addIncr)
  have low: "lowKeys m1" unfolding m1_def using Cons.prems st by (intro lowKeys_addIncr)
  have pre: "bulkFilter (dbLike db1) t flt" "set sts \<subseteq> set allStatuses" using Cons.prems clean by simp_all
  show ?case
    using Cons.IH [OF tab1 pre(1) low pre(2)] cnt clean unfolding step by (auto split: prod.splits)
qed auto

text \<open>Between the change of the jobs and that of the counters: the increments \<open>m\<close> of task \<open>t\<close> are
  still to come.\<close>

definition pendingOk :: "string set \<Rightarrow> string \<Rightarrow> (string \<times> int) list \<Rightarrow> sqlDB \<Rightarrow> bool" where
  "pendingOk T t m db \<longleftrightarrow> tableOk db \<and> (\<forall>t'\<in>T. sqlCounted db t' \<and> (\<forall>st\<in>set allStatuses.
     sqlCounter db t' st + (if t' = t then incrFor m st else 0) = countJobs (dbJobs db) t' st))"

lemma pendingOk_flags:
  assumes "pendingOk T t m db" "list_all flagColumn upd"
  shows "pendingOk T t m (UpdateSummary db t'' upd)"
  using assms flags_same [OF assms(2)] by (auto simp: pendingOk_def tableOk_def)

lemma pendingOk_incr:
  assumes pend: "pendingOk T t m db" and keys: "keysOk m"
  shows "dbOk T (IncrementSummary driver db t m)"
proof -
  have "sqlCounted (IncrementSummary driver db t m) t' \<and>
      agrees sqlCounter allStatuses (IncrementSummary driver db t m) (dbJobs db) t'" if t': "t' \<in> T" for t'
  proof (cases "t' = t")
    case True
    have c: "sqlCounted db t" using pend t' True by (simp add: pendingOk_def)
    show ?thesis using sqlc.incr_inv [OF c c keys] sqlc.incr_counter [OF c keys] pend t' True
      by (auto simp: agrees_def pendingOk_def)
  next
    case False
    obtain r where r: "summaryRowOf db t' = Some r" "rHold r \<noteq> None"
      using pend t' by (auto simp: pendingOk_def sqlCounted_def split: option.splits)
    show ?thesis
      using IncrementSummary_other [OF False r(1), of driver m] r pend t' False
      by (auto simp: sqlCounted_def sqlCounter_def agrees_def tableOk_def pendingOk_def)
  qed
  then show ?thesis using pend by (simp add: dbOk_def tableOk_def pendingOk_def)
qed

lemma dbOk_pending:
  assumes "dbOk T db" "tableOk db'" "dbSummaries db' = dbSummaries db"
    and "\<forall>t' st. countJobs (dbJobs db') t' st = countJobs (dbJobs db) t' st + (if t' = t then incrFor m st - incrFor [] st else 0)"
  shows "pendingOk T t m db'"
proof -
  have "dbErr db' = dbErr db" using assms by (simp add: dbOk_def tableOk_def)
  then have "sqlCounted db' = sqlCounted db" using assms sqlCounted_cong by blast
  then show ?thesis using assms by (auto simp: pendingOk_def dbOk_def agrees_def sqlCounter_cong [OF assms(3)])
qed

lemma engineOk_upd: "engineOk w \<Longrightarrow> list_all flagColumn upd \<Longrightarrow> engineOk (updSummary w t upd)"
  by (simp add: engineOk_def updSummary_def dbOk_flags)

lemma flagColumns [simp]:
  "flagColumn (''is_loading'', VBool b)" "flagColumn (''is_hold'', VBool b)" "flagColumn (''loading_message'', VStr s)"
  by (simp_all add: flagColumn_def)

lemma lowKeys_Nil [simp]: "lowKeys []"
  by (simp add: lowKeys_def)

lemma bulk_statusFilter: "fTaskName f \<noteq> [] \<Longrightarrow> bulkFilter like (fTaskName f) (statusFilter f)"
  by (auto simp: bulkFilter_def statusFilter_def emptyFilter_def queryConditions_def matchesFilter_def condHolds_def
      split: option.splits if_splits)

lemma bulk_taskStatus: "t \<noteq> [] \<Longrightarrow> bulkFilter like t (\<lambda>st. emptyFilter\<lparr>fTaskName := t, fStatus := Some st\<rparr>)"
  by (auto simp: bulkFilter_def emptyFilter_def queryConditions_def matchesFilter_def condHolds_def ParseStartEndDate_def)

lemma pendingOk_finish:
  assumes "pendingOk (set (wTasks w)) t m (wDB w)" "lowKeys m"
  shows "engineOk (incrSummary w t m)"
  using pendingOk_incr [OF assms(1) lowKeys_keysOk [OF assms(2)]] assms(2)
  by (simp add: engineOk_def incrSummary_def goMap_distinct lowKeys_def)

lemma Resolver_StopAllJob_keeps:
  assumes ok: "engineOk w" and t: "t \<noteq> []"
  shows "engineOk (snd (Resolver_StopAllJob now w t))"
proof (cases "t \<in> set (wTasks w)")
  case False
  then show ?thesis using ok by (simp add: Resolver_StopAllJob_def)
next
  case True
  define w1 where "w1 = stopAllJobInTask (updSummary (broadcastWhenChangeAllJob w t True ''Stopping...'') t [(''is_hold'', VBool True)]) t"
  have ok1: "engineOk w1" "wTasks w1 = wTasks w"
    using ok by (auto simp: w1_def broadcastWhenChangeAllJob_def updSummary_def stopAllJobInTask_def
        engineOk_def intro!: dbOk_flags)
  define mv where "mv = moveStatuses now (\<lambda>st. emptyFilter\<lparr>fTaskName := t, fStatus := Some st\<rparr>)
              [(''status'', VStr StatusStopped)] StatusStopped [StatusQueueing, StatusRetrying] (wDB w1, [])"
  obtain db m where mv: "mv = (db, m)" by (cases mv)
  have "tableOk db \<and> dbSummaries db = dbSummaries (wDB w1) \<and> lowKeys m \<and>
    (\<forall>t' st. countJobs (dbJobs db) t' st = countJobs (dbJobs (wDB w1)) t' st + (if t' = t then incrFor m st - incrFor [] st else 0))"
    using moveStatuses_effect [where db = "wDB w1" and t = t and target = StatusStopped and incr = "[]" and now = now
        and sts = "[StatusQueueing, StatusRetrying]" and updated = "[(''status'', VStr StatusStopped)]"
        and flt = "\<lambda>st. emptyFilter\<lparr>fTaskName := t, fStatus := Some st\<rparr>" and g = "\<lambda>j. j\<lparr>jStatus := StatusStopped, jUpdatedAt := now\<rparr>"]
      ok1 bulk_taskStatus [OF t] mv [unfolded mv_def]
    by (simp add: engineOk_def dbOk_table allStatuses_def setColumns_status del: update.simps)
  then have pend: "pendingOk (set (wTasks w)) t m db" "lowKeys m"
    using dbOk_pending [of "set (wTasks w)" "wDB w1" db t m] ok1 by (auto simp: engineOk_def)
  define w2 where "w2 = broadcastWhenChangeAllJob (updSummary (w1\<lparr>wDB := db\<rparr>) t [(''is_hold'', VBool False)]) t False []"
  have "pendingOk (set (wTasks w2)) t m (wDB w2)"
    using pend ok1 by (auto simp: w2_def broadcastWhenChangeAllJob_def updSummary_def intro!: pendingOk_flags)
  then have "engineOk (incrSummary w2 t m)" by (rule pendingOk_finish) (rule pend(2))
  moreover have "snd (Resolver_StopAllJob now w t) = (incrSummary w2 t m)\<lparr>wQueue := inMem_Clear (wQueue (incrSummary w2 t m)) t\<rparr>"
    using True mv unfolding Resolver_StopAllJob_def Let_def mv_def w1_def w2_def by simp
  ultimately show ?thesis by (simp add: engineOk_def)
qed

lemma Resolver_CleanJob_keeps:
  assumes ok: "engineOk w" and t: "fmTaskName req \<noteq> []" and sts: "set (fmStatuses req) \<subseteq> set allStatuses"
  shows "engineOk (Resolver_CleanJob w req)"
proof -
  define f where "f = FilterMutate_ToFilter req"
  have f: "fTaskName f = fmTaskName req" by (simp add: f_def FilterMutate_ToFilter_def)
  define w1 where "w1 = broadcastWhenChangeAllJob w (fTaskName f) True ''Cleaning...''"
  have ok1: "engineOk w1" "wTasks w1 = wTasks w"
    using ok by (auto simp: w1_def broadcastWhenChangeAllJob_def updSummary_def engineOk_def intro!: dbOk_flags)
  obtain db m where mv: "cleanStatuses (statusFilter f) (fmStatuses req) (wDB w1, []) = (db, m)" by force
  have "tableOk db \<and> dbSummaries db = dbSummaries (wDB w1) \<and> lowKeys m \<and>
    (\<forall>t' st. countJobs (dbJobs db) t' st = countJobs (dbJobs (wDB w1)) t' st + (if t' = fmTaskName req then incrFor m st - incrFor [] st else 0))"
    using cleanStatuses_effect [OF dbOk_table [OF ok1(1) [unfolded engineOk_def]] bulk_statusFilter [of f] lowKeys_Nil sts] t f mv by simp
  then have pend: "pendingOk (set (wTasks w)) (fmTaskName req) m db" "lowKeys m"
    using dbOk_pending [of "set (wTasks w)" "wDB w1" db "fmTaskName req" m] ok1 by (auto simp: engineOk_def)
  define w2 where "w2 = broadcastWhenChangeAllJob (w1\<lparr>wDB := db\<rparr>) (fmTaskName req) False []"
  have "pendingOk (set (wTasks w2)) (fmTaskName req) m (wDB w2)"
    using pend ok1 by (auto simp: w2_def broadcastWhenChangeAllJob_def updSummary_def intro!: pendingOk_flags)
  then have "engineOk (incrSummary w2 (fmTaskName req) m)" by (rule pendingOk_finish) (rule pend(2))
  then show ?thesis using mv by (simp add: Resolver_CleanJob_def Let_def f_def w1_def w2_def)
qed

lemma requeueStreamed_keeps:
  "engineOk w \<Longrightarrow> runOk engineOk (requeueStreamed t i n j w)"
  using engineOk_frame [OF _ frame_push, of w j] by (auto simp: requeueStreamed_def Let_def intro: engineOk_upd)

text \<open>A stream whose callback keeps the invariant, whatever the job.\<close>

lemma stream_keeps:
  assumes "engineOk w" "\<And>i n j w. engineOk w \<Longrightarrow> runOk engineOk (h i n j w)"
  shows "runOk engineOk (StreamAllJob f (Some h) w)"
  by (rule StreamAllJob_inv [where P = engineOk, OF assms(1)], rule handleAll_inv) (auto intro: runToHandle_ok assms(2))

lemma Resolver_RetryAllJob_keeps:
  assumes ok: "engineOk w" and t: "fmTaskName req \<noteq> []" and sts: "set (fmStatuses req) \<subseteq> set allStatuses"
  shows "runOk engineOk (Resolver_RetryAllJob now w req)"
proof -
  define f where "f = retryFilter req"
  have f: "fTaskName f = fmTaskName req" "set (fStatuses f) \<subseteq> set allStatuses"
    using sts by (auto simp: f_def retryFilter_def FilterMutate_ToFilter_def allStatuses_def)
  define w1 where "w1 = broadcastWhenChangeAllJob w (fmTaskName req) True ''Retrying...''"
  have ok1: "engineOk w1" using ok by (auto simp: w1_def broadcastWhenChangeAllJob_def intro!: engineOk_upd)
  have stream: "runOk engineOk (StreamAllJob f (Some (requeueStreamed (fmTaskName req))) w1)"
    by (rule stream_keeps [OF ok1]) (rule requeueStreamed_keeps)
  have eq: "Resolver_RetryAllJob now w req = (case StreamAllJob f (Some (requeueStreamed (fmTaskName req))) w1 of
      Crash w \<Rightarrow> Crash w | Forever \<Rightarrow> Forever
    | Done _ w' \<Rightarrow> (case moveStatuses now (statusFilter f) [(''status'', VStr StatusQueueing), (''retries'', VInt 0)] StatusQueueing (fStatuses f) (wDB w', []) of
        (db, incr) \<Rightarrow> registerNextJob False now (fmTaskName req) (incrSummary (broadcastWhenChangeAllJob (w'\<lparr>wDB := db\<rparr>) (fmTaskName req) False
          (sLoadingMessage (FindDetailSummary (wDB w) (fmTaskName req)))) (fmTaskName req) incr)))"
    unfolding Resolver_RetryAllJob_def Let_def f_def [symmetric] f(1) w1_def by simp
  have fin: "runOk engineOk (case moveStatuses now (statusFilter f) [(''status'', VStr StatusQueueing), (''retries'', VInt 0)] StatusQueueing (fStatuses f) (wDB w', []) of
        (db, incr) \<Rightarrow> registerNextJob False now (fmTaskName req) (incrSummary (broadcastWhenChangeAllJob (w'\<lparr>wDB := db\<rparr>) (fmTaskName req) False msg) (fmTaskName req) incr))"
    if ok': "engineOk w'" for w' msg
  proof -
    obtain db m where mv: "moveStatuses now (statusFilter f) [(''status'', VStr StatusQueueing), (''retries'', VInt 0)] StatusQueueing (fStatuses f) (wDB w', []) = (db, m)" by force
    have "tableOk db \<and> dbSummaries db = dbSummaries (wDB w') \<and> lowKeys m \<and>
      (\<forall>t' st. countJobs (dbJobs db) t' st = countJobs (dbJobs (wDB w')) t' st + (if t' = fmTaskName req then incrFor m st - incrFor [] st else 0))"
      using moveStatuses_effect [where db = "wDB w'" and t = "fmTaskName req" and target = StatusQueueing and incr = "[]" and now = now
          and sts = "fStatuses f" and updated = "[(''status'', VStr StatusQueueing), (''retries'', VInt 0)]"
          and flt = "statusFilter f" and g = "\<lambda>j. j\<lparr>jStatus := StatusQueueing, jRetries := 0, jUpdatedAt := now\<rparr>"]
        ok' bulk_statusFilter [of f] t f mv
      by (simp add: engineOk_def dbOk_table allStatuses_def setColumn_def)
    then have pend: "pendingOk (set (wTasks w')) (fmTaskName req) m db" "lowKeys m"
      using dbOk_pending [of "set (wTasks w')" "wDB w'" db "fmTaskName req" m] ok' by (auto simp: engineOk_def)
    have "pendingOk (set (wTasks w')) (fmTaskName req) m (wDB (broadcastWhenChangeAllJob (w'\<lparr>wDB := db\<rparr>) (fmTaskName req) False msg))"
      using pend by (auto simp: broadcastWhenChangeAllJob_def updSummary_def intro!: pendingOk_flags)
    then have "engineOk (incrSummary (broadcastWhenChangeAllJob (w'\<lparr>wDB := db\<rparr>) (fmTaskName req) False msg) (fmTaskName req) m)"
      by (intro pendingOk_finish [OF _ pend(2)]) (simp add: broadcastWhenChangeAllJob_def updSummary_def)
    then show ?thesis unfolding mv prod.case by (rule engineOk_nextJob)
  qed
  show ?thesis using stream fin unfolding eq by (cases "StreamAllJob f (Some (requeueStreamed (fmTaskName req))) w1") auto
qed

lemma Resolver_RunQueuedJob_keeps: "engineOk w \<Longrightarrow> runOk engineOk (Resolver_RunQueuedJob now w t)"
  unfolding Resolver_RunQueuedJob_def by (rule engineOk_nextJob) (rule engineOk_frame [OF _ frame_unlock(2)])

lemma cleanSucceeded_keeps:
  assumes ok: "engineOk w" and t: "t \<noteq> []"
  shows "engineOk (cleanSucceeded b w t)"
proof -
  have db: "dbOk (set (wTasks w)) (wDB w)" using ok by (simp add: engineOk_def)
  define f where "f = emptyFilter\<lparr>fTaskName := t, fBeforeCreatedAt := Some b, fStatus := Some StatusSuccess\<rparr>"
  have q: "queryConditions f \<noteq> []" "\<And>j like. matchesFilter like f j \<Longrightarrow> jTaskName j = t \<and> jStatus j = StatusSuccess"
    using t by (auto simp: f_def emptyFilter_def queryConditions_def matchesFilter_def condHolds_def)
  obtain n db' where c: "CleanJob (wDB w) f = (n, db')" by force
  then have "n = int (length (filter (matchesFilter (dbLike (wDB w)) f) (dbJobs (wDB w))))"
    "\<exists>hs. db' = (wDB w)\<lparr>dbJobs := filter (\<lambda>j. \<not> matchesFilter (dbLike (wDB w)) f j) (dbJobs (wDB w)), dbHist := hs\<rparr>"
    using q(1) dbOk_noErr [OF db] by (auto simp: CleanJob_def Let_def intro!: exI [of _ "dbHist db'"])
  then have "dbOk (set (wTasks w)) (IncrementSummary (wDriver w) db' t [(ToLower StatusSuccess, - n)])"
    using dbOk_remove [OF db, of "ToLower StatusSuccess" "matchesFilter (dbLike (wDB w)) f" t n] q(2) by (auto simp: allStatuses_def)
  then show ?thesis using c by (simp add: cleanSucceeded_def f_def engineOk_incr)
qed

lemma foldl_keeps: "P w \<Longrightarrow> (\<And>w t. t \<in> set ts \<Longrightarrow> P w \<Longrightarrow> P (f w t)) \<Longrightarrow> P (foldl f w ts)"
  by (induction ts arbitrary: w) auto

lemma execInternalTask_keeps:
  assumes "engineOk w" "[] \<notin> set (wTasks w)"
  shows "runOk engineOk (execInternalTask now w)"
proof -
  have "engineOk (unlockKey (foldl (cleanSucceeded b) (w\<lparr>wRetention := x, wLocks := l\<rparr>) (wTasks w)) k)" for b x l k
  proof (rule engineOk_frame [OF _ frame_unlock(1)], rule foldl_keeps [where P = engineOk])
    show "engineOk (w\<lparr>wRetention := x, wLocks := l\<rparr>)" using assms(1) by (simp add: engineOk_def)
    show "engineOk (cleanSucceeded b w' t)" if "t \<in> set (wTasks w)" "engineOk w'" for w' t
      by (rule cleanSucceeded_keeps) (use that assms(2) in auto)
  qed
  note clean = this
  show ?thesis
  proof (cases "GetConfiguration (wDB w) ''retention_age''")
    case (Inr cfg)
    show ?thesis
    proof (cases "wRetention w")
      case (Some rt)
      obtain sch tick where rt: "rt = (sch, tick)" by (cases rt)
      have "runOk engineOk (case NextInterval e now of None \<Rightarrow> Forever | Some (Inl _) \<Rightarrow> Crash w
          | Some (Inr (d, e)) \<Rightarrow> if d \<le> 0 then Crash w
              else case IsLocked (wLocker (w\<lparr>wRetention := Some (Some e, Some d)\<rparr>)) (getLockKey (w\<lparr>wRetention := Some (Some e, Some d)\<rparr>) ''internal_task:retention_age'')
                  (wLocks (w\<lparr>wRetention := Some (Some e, Some d)\<rparr>)) of
                (True, r) \<Rightarrow> Done () (w\<lparr>wRetention := Some (Some e, Some d), wLocks := r\<rparr>)
              | (False, r) \<Rightarrow> Done () (unlockKey (foldl (cleanSucceeded (Add now (- d))) (w\<lparr>wRetention := Some (Some e, Some d), wLocks := r\<rparr>)
                  (wTasks (w\<lparr>wRetention := Some (Some e, Some d)\<rparr>))) (getLockKey (w\<lparr>wRetention := Some (Some e, Some d)\<rparr>) ''internal_task:retention_age'')))" for e
        using assms(1) clean by (auto simp: engineOk_def split: option.splits sum.splits prod.splits bool.splits)
      then show ?thesis using assms(1) Inr Some rt unfolding execInternalTask_def Let_def
        by (cases sch) (simp_all cong: if_cong)
    qed (use assms Inr in \<open>simp add: execInternalTask_def\<close>)
  qed (use assms in \<open>simp add: execInternalTask_def\<close>)
qed

end
