(* ===== verification/Task_Startup.thy ===== *)
theory Task_Startup
  imports Task_Invariant
begin

text \<open>
  The start of the worker: \<open>prepare\<close> makes the counters of every registered task equal to the numbers
  of its jobs, whatever the summary table held before.  The stream of pending jobs is followed page
  by page: a page holds rows of the table with different ids, and requeueing one job leaves the
  others of the page as they were read.
\<close>

section \<open>Pages of the job table\<close>

lemma mset_insertBy [simp]: "mset (insertBy le x xs) = add_mset x (mset xs)"
  by (induction xs) auto

lemma mset_orderBy [simp]: "mset (orderBy le xs) = mset xs"
proof -
  have "mset (foldr (insertBy le) xs ys) = mset xs + mset ys" for ys by (induction xs) auto
  then show ?thesis by (simp add: orderBy_def)
qed

lemma set_orderBy [simp]: "set (orderBy le xs) = set xs"
  by (metis mset_orderBy set_mset_mset)

lemma mset_selectedJobs: "mset (selectedJobs db f) = mset (filter (matchesFilter (dbLike db) f) (dbJobs db))"
  by (simp add: selectedJobs_def Let_def)

lemma distinct_selected:
  assumes "distinct (map jID (dbJobs db))"
  shows "distinct (map jID (selectedJobs db f))"
proof -
  have "mset (map jID (selectedJobs db f)) = mset (map jID (filter (matchesFilter (dbLike db) f) (dbJobs db)))"
    by (simp only: mset_map mset_selectedJobs)
  then show ?thesis using mset_eq_imp_distinct_iff assms distinct_map_filter by blast
qed

text \<open>What the jobs of a list still have in common with their rows.\<close>

definition asRead :: "sqlDB \<Rightarrow> job list \<Rightarrow> bool" where
  "asRead db js \<longleftrightarrow> distinct (map jID js) \<and>
     (\<forall>j\<in>set js. \<exists>r. findRow db (jID j) = Some r \<and> jStatus r = jStatus j \<and> jTaskName r = jTaskName j)"

lemma findRow_unique: "distinct (map jID (dbJobs db)) \<Longrightarrow> r \<in> set (dbJobs db) \<Longrightarrow> findRow db (jID r) = Some r"
  by (cases "findRow db (jID r)")
    (auto simp: findRow_None dest!: findRow_mem simp: distinct_map inj_on_def)

lemma FindAllJob_asRead:
  assumes "tableOk db"
  shows "asRead db (FindAllJob db f)"
proof -
  define page where "page = (if fShowAll f then selectedJobs db f else limitOffset (fLimit f) (CalculateOffset f) (selectedJobs db f))"
  have eq: "FindAllJob db f = map scanJob page" using assms by (simp add: FindAllJob_def page_def tableOk_def)
  have dist: "distinct (map jID (dbJobs db))" using assms by (simp add: tableOk_def)
  have "set page \<subseteq> set (dbJobs db)"
    using mset_selectedJobs [of db f, THEN arg_cong [where f = set_mset]]
    by (auto simp: page_def limitOffset_def dest: in_set_takeD in_set_dropD)
  moreover have "distinct (map jID page)"
    using distinct_selected [OF dist, of f] by (auto simp: page_def limitOffset_def take_map [symmetric] drop_map [symmetric])
  ultimately show ?thesis
    using findRow_unique [OF dist] by (auto simp: asRead_def eq comp_def)
qed

lemma handleAll_list:
  assumes "\<And>i x xs s. I (x # xs) s \<Longrightarrow> I xs (fst (handle i x s))" "\<And>xs s. I xs s \<Longrightarrow> P s"
  shows "I xs s \<Longrightarrow> P (fst (handleAll handle i xs s))"
proof (induction xs arbitrary: i s)
  case (Cons x xs)
  have "I xs (fst (handle i x s))" by (rule assms(1) [OF Cons.prems])
  then show ?case using Cons.IH assms(2) by (cases "handle i x s") (auto split: option.splits)
qed (auto intro: assms(2))

section \<open>Requeueing a pending job\<close>

lemma findRow_update:
  assumes "\<And>j. jID (g j) = jID j" "i' \<noteq> i"
  shows "findRow (db\<lparr>dbJobs := map (\<lambda>j. if jID j = i then g j else j) (dbJobs db), dbHist := h\<rparr>) i' = findRow db i'"
proof -
  have "find (\<lambda>j. jID j = i') (map (\<lambda>j. if jID j = i then g j else j) js) = find (\<lambda>j. jID j = i') js" for js
    using assms by (induction js) auto
  then show ?thesis by (simp add: findRow_def)
qed

lemma asRead_tail:
  assumes "asRead db (j # js)" "\<And>i'. i' \<noteq> jID j \<Longrightarrow> findRow db' i' = findRow db i'"
  shows "asRead db' js"
  unfolding asRead_def
proof (intro conjI ballI)
  show "distinct (map jID js)" using assms(1) by (simp add: asRead_def)
  fix k assume k: "k \<in> set js"
  then have "jID k \<noteq> jID j" using assms(1) by (simp add: asRead_def) (metis imageI)
  then show "\<exists>r. findRow db' (jID k) = Some r \<and> jStatus r = jStatus k \<and> jTaskName r = jTaskName k"
    using assms k by (auto simp: asRead_def)
qed

definition requeueInv :: "string set \<Rightarrow> world \<Rightarrow> job list \<Rightarrow> world \<Rightarrow> bool" where
  "requeueInv T w0 js w \<longleftrightarrow> dbOk T (wDB w) \<and> asRead (wDB w) js \<and> wTasks w = wTasks w0 \<and> wDriver w = wDriver w0"

lemma requeueInv_queue: "requeueInv T w0 js (snd (pushJob w j)) = requeueInv T w0 js w"
  using frame_push [of w j] by (simp add: requeueInv_def frame_def)

lemma requeueInv_flags:
  "requeueInv T w0 js w \<Longrightarrow> list_all flagColumn upd \<Longrightarrow> requeueInv T w0 js (updSummary w t upd)"
  by (auto simp: requeueInv_def updSummary_def asRead_def findRow_def intro: dbOk_flags)

lemma requeuePending_step:
  assumes inv: "requeueInv T w0 (j # js) w"
  shows "requeueInv T w0 js (fst (runToHandle w (requeuePending now t i n j w)))"
proof -
  have db: "dbOk T (wDB w)" using inv by (simp add: requeueInv_def)
  obtain r where r: "findRow (wDB w) (jID j) = Some r" "jStatus r = jStatus j" "jTaskName r = jTaskName j"
    using inv by (auto simp: requeueInv_def asRead_def)
  have same: "requeueInv T w0 js w" using inv asRead_tail [of "wDB w" j js "wDB w"] by (simp add: requeueInv_def)
  have loading: "requeueInv T w0 js (fst (runToHandle w (Done () (if b then w' else updSummary w' t
      [(''is_loading'', VBool True), (''loading_message'', VStr m)]))))" if "requeueInv T w0 js w'" for w' b m
    using that requeueInv_flags [OF that] by (simp add: runToHandle_def)
  show ?thesis
  proof (cases "HasBeenLocked (wLocker w) (getLockKey w (jID j)) (wLocks w)")
    case True
    then show ?thesis using same by (simp add: requeuePending_def runToHandle_def)
  next
    case False
    show ?thesis
    proof (cases "ParseNextRunningInterval now now now j")
      case (Returns x)
      obtain d e j' where x: "x = (d, e, j')" by (cases x)
      obtain tn where j': "j' = j\<lparr>jNextRunningAt := tn\<rparr>"
        using ParseNextRunningInterval_shape [OF Returns [unfolded x]] by blast
      show ?thesis
      proof (cases "jStatus j = StatusQueueing")
        case st: True
        define g where "g k = k\<lparr>jNextRunningAt := tn, jUpdatedAt := now\<rparr>" for k :: job
        have cols: "setColumns (AList.update ''updated_at'' (VTime now) [(''next_running_at'', VTime tn)]) k = Some (g k)" for k
          by (simp add: setColumn_def g_def)
        define db' where "db' = (wDB w)\<lparr>dbJobs := map (\<lambda>k. if jID k = jID j then g k else k) (dbJobs (wDB w)), dbHist := dbHist (wDB w)\<rparr>"
        have upd: "UpdateJob now (wDB w) (emptyFilter\<lparr>fJobID := Some (jID j)\<rparr>) [(''next_running_at'', VTime tn)] [] = (1, 1, None, db')"
          using UpdateJob_row [where g = g, OF db r(1) cols, of "[]"] by (simp add: db'_def)
        have A: "findRow db' i' = findRow (wDB w) i'" if "i' \<noteq> jID j" for i'
          unfolding db'_def by (rule findRow_update) (use that in \<open>simp_all add: g_def\<close>)
        have "tableOk db'" unfolding db'_def by (rule tableOk_map [OF dbOk_table [OF db]]) (auto simp: g_def)
        then have "dbOk T db'"
          by (rule dbOk_same_counts [OF db, rotated]) (auto intro!: countJobs_cong simp: g_def db'_def)
        moreover have "asRead db' js" by (rule asRead_tail [of "wDB w" j, OF _ A]) (use inv in \<open>simp add: requeueInv_def\<close>)
        ultimately have "requeueInv T w0 js (snd (pushJob (w\<lparr>wDB := db'\<rparr>) j'))"
          using inv by (simp add: requeueInv_queue) (simp add: requeueInv_def)
        then show ?thesis using loading False Returns x st upd
          unfolding requeuePending_def Let_def by (simp add: j')
      next
        case st: False
        define g where "g k = k\<lparr>jStatus := StatusQueueing, jNextRunningAt := tn, jUpdatedAt := now\<rparr>" for k :: job
        have cols: "setColumns (AList.update ''updated_at'' (VTime now) [(''status'', VStr StatusQueueing), (''next_running_at'', VTime tn)]) k = Some (g k)" for k
          by (simp add: setColumn_def g_def)
        define db' where "db' = (wDB w)\<lparr>dbJobs := map (\<lambda>k. if jID k = jID j then g k else k) (dbJobs (wDB w)), dbHist := dbHist (wDB w)\<rparr>"
        have upd: "UpdateJob now (wDB w) (emptyFilter\<lparr>fJobID := Some (jID j)\<rparr>) [(''status'', VStr StatusQueueing), (''next_running_at'', VTime tn)] [] = (1, 1, None, db')"
          using UpdateJob_row [where g = g, OF db r(1) cols, of "[]"] by (simp add: db'_def)
        have A: "findRow db' i' = findRow (wDB w) i'" if "i' \<noteq> jID j" for i'
          unfolding db'_def by (rule findRow_update) (use that in \<open>simp_all add: g_def\<close>)
        have "dbOk T (IncrementSummary (wDriver w) db' (jTaskName r) (goMap [(StatusQueueing, 1), (jStatus j, - 1)]))"
          unfolding db'_def by (rule dbOk_move [where g = g, OF db r(1)])
            (use r st dbOk_rowStatus [OF db r(1)] in \<open>auto simp: g_def allStatuses_def\<close>)
        moreover have "asRead db' js" by (rule asRead_tail [of "wDB w" j, OF _ A]) (use inv in \<open>simp add: requeueInv_def\<close>)
        ultimately have "requeueInv T w0 js (snd (pushJob (incrSummary (w\<lparr>wDB := db'\<rparr>) (jTaskName j) [(StatusQueueing, 1), (jStatus j, - 1)])
            (j'\<lparr>jStatus := StatusQueueing\<rparr>)))"
          using inv r(3) by (simp add: requeueInv_queue) (simp add: requeueInv_def incrSummary_def asRead_def findRow_def)
        then show ?thesis using loading False Returns x st upd
          unfolding requeuePending_def Let_def by (simp add: j')
      qed
    qed (use False same in \<open>simp_all add: requeuePending_def runToHandle_def\<close>)
  qed
qed

lemma requeue_stream:
  assumes "dbOk T (wDB w)" "\<not> fSecondary f"
  shows "runOk (\<lambda>w'. dbOk T (wDB w') \<and> wTasks w' = wTasks w \<and> wDriver w' = wDriver w) (StreamAllJob f (Some (requeuePending now t)) w)"
proof (rule StreamAllJob_inv)
  fix p l c i and w1 :: world
  assume a: "dbOk T (wDB w1) \<and> wTasks w1 = wTasks w \<and> wDriver w1 = wDriver w"
  show "(\<lambda>w'. dbOk T (wDB w') \<and> wTasks w' = wTasks w \<and> wDriver w' = wDriver w)
      (fst (handleAll (\<lambda>i j w. runToHandle w (requeuePending now t i c j w)) i (fetchJobs (f\<lparr>fPage := p, fLimit := l\<rparr>) w1) w1))"
  proof (rule handleAll_list [where I = "requeueInv T w"])
    show "requeueInv T w (fetchJobs (f\<lparr>fPage := p, fLimit := l\<rparr>) w1) w1"
      using a assms(2) FindAllJob_asRead [OF dbOk_table, of T "wDB w1"] by (simp add: requeueInv_def fetchJobs_def storeOf_def)
  qed (erule requeuePending_step, simp add: requeueInv_def)
qed (use assms in simp)

section \<open>Setting every counter\<close>

lemma CountAllJob_countJobs:
  assumes "dbErr db = None" "t \<noteq> []"
  shows "CountAllJob db (emptyFilter\<lparr>fTaskName := t, fStatus := Some st\<rparr>) = countJobs (dbJobs db) t st"
proof -
  have "matchesFilter (dbLike db) (emptyFilter\<lparr>fTaskName := t, fStatus := Some st\<rparr>) = (\<lambda>j. jTaskName j = t \<and> jStatus j = st)"
    using assms(2) by (auto simp: fun_eq_iff emptyFilter_def queryConditions_def matchesFilter_def condHolds_def ParseStartEndDate_def)
  then show ?thesis using assms(1) by (simp add: CountAllJob_def countJobs_def)
qed

definition countColumns :: "(string \<Rightarrow> int) \<Rightarrow> string \<Rightarrow> (string \<times> gval) list" where
  "countColumns c msg = [(''is_loading'', VBool True), (''loading_message'', VStr msg)] @
     map (\<lambda>st. (ToLower st, VInt (c st)))
       [StatusRetrying, StatusFailure, StatusSuccess, StatusQueueing, StatusStopped, StatusHold]"

lemma low_names:
  "ToLower StatusRetrying = ''retrying''" "ToLower StatusFailure = ''failure''" "ToLower StatusSuccess = ''success''"
  "ToLower StatusQueueing = ''queueing''" "ToLower StatusStopped = ''stopped''" "ToLower StatusHold = ''hold''"
  by code_simp+

lemma setSummaryColumns_counts:
  "\<exists>r'. setSummaryColumns (countColumns c msg) r = Some r' \<and> rId r' = rId r \<and> rHold r' \<noteq> None \<and>
     (\<forall>st\<in>set allStatuses. rowCounter r' st = c st)"
  by (simp add: countColumns_def low_names setSummaryColumn_def rowCounter_def allStatuses_def)

lemma insertSummary_counts:
  "\<exists>r. insertSummary (ToArgs (emptySummary\<lparr>sTaskName := t\<rparr>) (countColumns c msg)) db = db\<lparr>dbSummaries := dbSummaries db @ [r]\<rparr> \<and>
     rId r = t \<and> rHold r \<noteq> None \<and> (\<forall>st\<in>set allStatuses. rowCounter r st = c st)"
  by (simp add: insertSummary_def ToArgs_def countColumns_def low_names getVal_def ToInt_def GetColumnName_def setSummaryColumn_def
      blankRow_def rowCounter_def allStatuses_def) force

lemma UpdateSummary_counts:
  assumes "dbErr db = None"
  shows "sqlCounted (UpdateSummary db t (countColumns c msg)) t \<and>
    (\<forall>st\<in>set allStatuses. sqlCounter (UpdateSummary db t (countColumns c msg)) t st = c st) \<and>
    (\<forall>t'. t' \<noteq> t \<longrightarrow> summaryRowOf db t' \<noteq> None \<longrightarrow> summaryRowOf (UpdateSummary db t (countColumns c msg)) t' = summaryRowOf db t')"
proof -
  have cols: "filter (\<lambda>(k, v). k \<noteq> []) (countColumns c msg) = countColumns c msg" "countColumns c msg \<noteq> []"
    by (simp_all add: countColumns_def low_names)
  have ok: "setSummaryColumns (countColumns c msg) blankRow \<noteq> None" using setSummaryColumns_counts [of c msg blankRow] by auto
  define h where "h r = (if rId r = t then (case setSummaryColumns (countColumns c msg) r of Some r' \<Rightarrow> r' | None \<Rightarrow> r) else r)" for r
  have h: "rId (h r) = rId r" "rId r = t \<Longrightarrow> rHold (h r) \<noteq> None \<and> (\<forall>st\<in>set allStatuses. rowCounter (h r) st = c st)" "rId r \<noteq> t \<Longrightarrow> h r = r" for r
    using setSummaryColumns_counts [of c msg r] by (auto simp: h_def)
  show ?thesis
  proof (cases "hasSummary db t")
    case True
    have eq: "UpdateSummary db t (countColumns c msg) = db\<lparr>dbSummaries := map h (dbSummaries db)\<rparr>"
      unfolding UpdateSummary_def Let_def cols h_def [abs_def] using assms ok True cols(2) by auto
    have row: "summaryRowOf (UpdateSummary db t (countColumns c msg)) t' = map_option h (summaryRowOf db t')" for t'
      using find_map_same [of "dbSummaries db" "\<lambda>r. rId r = t'" h] h(1) by (simp add: eq summaryRowOf_def)
    have "rId r = t'" if "summaryRowOf db t' = Some r" for r t' using that by (auto simp: summaryRowOf_def find_Some_iff)
    then show ?thesis using True h assms row by (auto simp: sqlCounted_def sqlCounter_def hasSummary_rowOf eq)
  next
    case False
    obtain r where eq0: "insertSummary (ToArgs (emptySummary\<lparr>sTaskName := t\<rparr>) (countColumns c msg)) db = db\<lparr>dbSummaries := dbSummaries db @ [r]\<rparr>"
      and r: "rId r = t" "rHold r \<noteq> None" "\<forall>st\<in>set allStatuses. rowCounter r st = c st"
      using insertSummary_counts [of t c msg db] by blast
    have eq: "UpdateSummary db t (countColumns c msg) = db\<lparr>dbSummaries := dbSummaries db @ [r]\<rparr>"
      unfolding UpdateSummary_def Let_def cols using assms ok False cols(2) eq0 by auto
    have "find (\<lambda>r. rId r = t) (rs @ [r]) = Some r" if "\<not> list_ex (\<lambda>r. rId r = t) rs" for rs
      using that r(1) by (induction rs) auto
    then have "find (\<lambda>r. rId r = t) (dbSummaries db @ [r]) = Some r" using False by (simp add: hasSummary_def)
    then show ?thesis using r assms find_append_none
      by (auto simp: eq sqlCounted_def sqlCounter_def summaryRowOf_def)
  qed
qed

lemma dbOk_setCounts:
  assumes ok: "dbOk S db" and c: "\<And>st. st \<in> set allStatuses \<Longrightarrow> c st = countJobs (dbJobs db) t st"
  shows "dbOk (insert t S) (UpdateSummary db t (countColumns c msg))"
proof -
  note upd = UpdateSummary_counts [OF dbOk_noErr [OF ok], of t c msg]
  have "sqlCounted (UpdateSummary db t (countColumns c msg)) t' \<and>
      agrees sqlCounter allStatuses (UpdateSummary db t (countColumns c msg)) (dbJobs db) t'" if "t' \<in> insert t S" for t'
  proof (cases "t' = t")
    case True
    then show ?thesis using upd c by (auto simp: agrees_def)
  next
    case False
    then have t': "sqlCounted db t'" "agrees sqlCounter allStatuses db (dbJobs db) t'" using ok that by (auto simp: dbOk_def)
    then have "summaryRowOf db t' \<noteq> None" by (auto simp: sqlCounted_def split: option.splits)
    then have "summaryRowOf (UpdateSummary db t (countColumns c msg)) t' = summaryRowOf db t'" using upd False by blast
    then show ?thesis using t' by (simp add: sqlCounted_def sqlCounter_def agrees_def)
  qed
  then show ?thesis using ok by (simp add: dbOk_def tableOk_def)
qed

section \<open>\<open>prepare\<close>\<close>

lemma prepareTask_establishes:
  assumes ok: "dbOk S (wDB w)" and t: "t \<noteq> []"
  shows "runOk (\<lambda>w'. dbOk (insert t S) (wDB w') \<and> wTasks w' = wTasks w) (prepareTask now t w)"
proof -
  define w1 where "w1 = w\<lparr>wQueue := inMem_Clear (wQueue w) t\<rparr>"
  define c where "c st = CountAllJob (wDB w) (emptyFilter\<lparr>fTaskName := t, fStatus := Some st\<rparr>)" for st
  define w2 where "w2 = updSummary w1 t (countColumns c ''Requeueing...'')"
  have ok2: "dbOk (insert t S) (wDB w2)" "wTasks w2 = wTasks w"
    using dbOk_setCounts [OF ok, of c t] CountAllJob_countJobs [OF dbOk_noErr [OF ok] t]
    by (auto simp: w2_def w1_def updSummary_def c_def)
  define fin where "fin w' = updSummary w' t [(''is_loading'', VBool False), (''loading_message'', VStr (sLoadingMessage (FindDetailSummary (wDB w1) t)))]" for w'
  have fin: "dbOk (insert t S) (wDB (fin w')) \<and> wTasks (fin w') = wTasks w'" if "dbOk (insert t S) (wDB w')" for w'
    using that by (auto simp: fin_def updSummary_def intro: dbOk_flags)
  define f where "f = emptyFilter\<lparr>fPage := 1, fLimit := 100, fTaskName := t, fSort := ''created_at'', fStatuses := [StatusRetrying, StatusQueueing]\<rparr>"
  have eq: "prepareTask now t w = (if c StatusRetrying > 0 \<or> c StatusQueueing > 0 then
      (case StreamAllJob f (Some (requeuePending now t)) w2 of Crash w \<Rightarrow> Crash w | Forever \<Rightarrow> Forever
       | Done _ w \<Rightarrow> registerNextJob False now t (fin w)) else Done () (fin w2))"
    unfolding prepareTask_def Let_def f_def fin_def w2_def countColumns_def c_def w1_def by simp
  have stream: "runOk (\<lambda>w'. dbOk (insert t S) (wDB w') \<and> wTasks w' = wTasks w2 \<and> wDriver w' = wDriver w2)
      (StreamAllJob f (Some (requeuePending now t)) w2)"
    by (rule requeue_stream [OF ok2(1)]) (simp add: f_def emptyFilter_def)
  have nxt: "runOk (\<lambda>w'. dbOk (insert t S) (wDB w') \<and> wTasks w' = wTasks w) (registerNextJob False now t (fin w'))"
    if "dbOk (insert t S) (wDB w')" "wTasks w' = wTasks w" for w'
    by (rule runOk_mono [OF frame_nextJob [OF frame_refl]]) (use that fin [OF that(1)] in \<open>simp add: frame_def\<close>)
  show ?thesis
    using stream nxt fin [OF ok2(1)] ok2(2) unfolding eq
    by (cases "StreamAllJob f (Some (requeuePending now t)) w2") auto
qed

lemma prepareTasks_establishes:
  assumes "dbOk S (wDB w)" "[] \<notin> set ts"
  shows "runOk (\<lambda>w'. wTasks w' = wTasks w) (prepareTasks now ts w) \<and>
    (\<forall>w'. prepareTasks now ts w = Done () w' \<longrightarrow> dbOk (S \<union> set ts) (wDB w'))"
  using assms
proof (induction ts arbitrary: S w)
  case (Cons t ts)
  have p: "runOk (\<lambda>w'. dbOk (insert t S) (wDB w') \<and> wTasks w' = wTasks w) (prepareTask now t w)"
    by (rule prepareTask_establishes) (use Cons.prems in auto)
  show ?case
  proof (cases "prepareTask now t w")
    case (Done x w1)
    then show ?thesis using p Cons.IH [of "insert t S" w1] Cons.prems by (auto simp: thenW_def)
  qed (use p in \<open>auto simp: thenW_def\<close>)
qed auto

lemma DeleteAllSummary_frame [simp]:
  "dbJobs (DeleteAllSummary db f) = dbJobs db" "dbErr (DeleteAllSummary db f) = dbErr db"
  by (simp_all add: DeleteAllSummary_def)

lemma tableOk_filter: "tableOk db \<Longrightarrow> tableOk (snd (CleanJob db f))"
  by (auto simp: CleanJob_def Let_def tableOk_def intro: distinct_map_filter)

lemma prepare_engineOk:
  assumes tab: "tableOk (wDB w)" and tasks: "[] \<notin> set (wTasks w)" "wTasks w \<noteq> []" and run: "prepare now w = Done () w'"
  shows "engineOk w'"
proof -
  define w1 where "w1 = w\<lparr>wLocks := Reset (wLocker w) (getLockKey w ''*'') (wLocks w),
    wDB := snd (CleanJob (DeleteAllSummary (wDB w) (emptyFilter\<lparr>fExcludeTaskNameList := wTasks w\<rparr>)) (emptyFilter\<lparr>fExcludeTaskNameList := wTasks w\<rparr>))\<rparr>"
  have "tableOk (wDB w1)" unfolding w1_def
    by simp (rule tableOk_filter, use tab in \<open>simp add: tableOk_def\<close>)
  then have "dbOk {} (wDB w1)" by (simp add: dbOk_def)
  note est = prepareTasks_establishes [OF this tasks(1), of now]
  have eq: "prepare now w = thenW (prepareTasks now (wTasks w) w1) (registerInternalTask now)"
    using tasks(2) unfolding prepare_def Let_def w1_def by simp
  obtain w2 where w2: "prepareTasks now (wTasks w) w1 = Done () w2" "registerInternalTask now w2 = Done () w'"
    using run unfolding eq by (auto simp: thenW_def split: run.splits)
  have "wDB w' = wDB w2" "wTasks w' = wTasks w2"
    using w2(2) by (auto simp: registerInternalTask_def split: sum.splits if_splits option.splits prod.splits)
  moreover have "dbOk (set (wTasks w)) (wDB w2)" "wTasks w2 = wTasks w" using est w2(1) by (auto simp: w1_def)
  ultimately show ?thesis by (simp add: engineOk_def)
qed

section \<open>Unholding a task\<close>

lemma Resolver_HoldJobTask_keeps:
  assumes ok: "engineOk w" and t: "t \<noteq> []"
  shows "runOk engineOk (Resolver_HoldJobTask now w t auto sw)"
proof -
  define f where "f = emptyFilter\<lparr>fTaskName := t, fStatus := Some StatusHold, fSort := ''created_at''\<rparr>"
  have q: "queryConditions f \<noteq> []" "fJobID f = None" "\<And>j like. matchesFilter like f j \<Longrightarrow> jTaskName j = t \<and> jStatus j = StatusHold"
    using t by (auto simp: f_def emptyFilter_def queryConditions_def matchesFilter_def condHolds_def ParseStartEndDate_def)
  define w1 where "w1 = broadcastWhenChangeAllJob (updSummary w t
    [(''is_hold'', VBool (\<not> sIsHold (FindDetailSummary (wDB w) t))), (''loading_message'', VStr ''Hold Mode'')]) t True ''Unhold...''"
  have ok1: "engineOk w1" using ok by (auto simp: w1_def broadcastWhenChangeAllJob_def intro!: engineOk_upd)
  have stream: "runOk engineOk (StreamAllJob f (Some (requeueStreamed t)) w1)"
    by (rule stream_keeps [OF ok1]) (rule requeueStreamed_keeps)
  have fin: "runOk engineOk (case UpdateJob now (wDB w') f [(''status'', VStr StatusQueueing), (''retries'', VInt 0)] [] of
      (m, a, _, db) \<Rightarrow> thenW (registerNextJob False now t (broadcastWhenChangeAllJob (incrSummary (w'\<lparr>wDB := db\<rparr>) t
        [(ToLower StatusQueueing, m), (ToLower StatusHold, - a)]) t False [])) (\<lambda>w. Done (None :: jobError option) w))" if ok': "engineOk w'" for w'
  proof -
    have db: "dbOk (set (wTasks w')) (wDB w')" using ok' by (simp add: engineOk_def)
    define sel where "sel = matchesFilter (dbLike (wDB w')) f"
    define g where "g j = j\<lparr>jStatus := StatusQueueing, jRetries := 0, jUpdatedAt := now\<rparr>" for j :: job
    define n where "n = int (length (filter sel (dbJobs (wDB w'))))"
    define db' where "db' = (wDB w')\<lparr>dbJobs := map (\<lambda>j. if sel j then g j else j) (dbJobs (wDB w'))\<rparr>"
    have upd: "UpdateJob now (wDB w') f [(''status'', VStr StatusQueueing), (''retries'', VInt 0)] [] = (n, n, None, db')"
      using UpdateJob_sel [where g = g and updated = "[(''status'', VStr StatusQueueing), (''retries'', VInt 0)]", OF dbOk_noErr [OF db] q(1,2), of now "[]"]
      by (simp add: setColumn_def g_def [abs_def] n_def db'_def sel_def Let_def)
    have "map jID (dbJobs db') = map jID (dbJobs (wDB w'))" by (simp add: db'_def g_def)
    moreover have "jID k \<noteq> [] \<and> jStatus k \<in> set allStatuses" if "k \<in> set (dbJobs db')" for k
      using that dbOk_table [OF db] by (auto simp: db'_def g_def tableOk_def allStatuses_def)
    ultimately have tab: "tableOk db'" using dbOk_table [OF db] by (simp add: tableOk_def) (simp add: db'_def)
    define m where "m = [(ToLower StatusQueueing, n), (ToLower StatusHold, - n)]"
    have "countJobs (dbJobs db') t' st = countJobs (dbJobs (wDB w')) t' st + (if t' = t then incrFor m st - incrFor [] st else 0)" for t' st
      using countJobs_move [of "dbJobs (wDB w')" sel t StatusHold g StatusQueueing t' st] q(3)
      by (auto simp: db'_def m_def n_def sel_def g_def)
    then have "pendingOk (set (wTasks w')) t m db'" using dbOk_pending [OF db tab] by (simp add: db'_def)
    moreover have "lowKeys m" by (simp add: m_def lowKeys_def allStatuses_def low_names)
    ultimately have "engineOk (incrSummary (w'\<lparr>wDB := db'\<rparr>) t m)" by (intro pendingOk_finish) simp_all
    then have "engineOk (broadcastWhenChangeAllJob (incrSummary (w'\<lparr>wDB := db'\<rparr>) t m) t False [])"
      by (simp add: broadcastWhenChangeAllJob_def engineOk_upd)
    then show ?thesis unfolding upd prod.case m_def [symmetric] by (intro runOk_thenW engineOk_nextJob) auto
  qed
  define r where "r = (case StreamAllJob f (Some (requeueStreamed t)) w1 of Crash w \<Rightarrow> Crash w | Forever \<Rightarrow> Forever
    | Done _ w' \<Rightarrow> (case UpdateJob now (wDB w') f [(''status'', VStr StatusQueueing), (''retries'', VInt 0)] [] of
      (m, a, _, db) \<Rightarrow> thenW (registerNextJob False now t (broadcastWhenChangeAllJob (incrSummary (w'\<lparr>wDB := db\<rparr>) t
        [(ToLower StatusQueueing, m), (ToLower StatusHold, - a)]) t False [])) (\<lambda>w. Done (None :: jobError option) w)))"
  have r: "runOk engineOk r" using stream fin unfolding r_def
    by (cases "StreamAllJob f (Some (requeueStreamed t)) w1") auto
  have flags: "engineOk (updSummary w t [(''is_hold'', VBool b), (''loading_message'', VStr s)])" for b s
    using ok by (auto intro: engineOk_upd)
  have "Resolver_HoldJobTask now w t auto sw \<in> {Done (Some (EOther ''Task not found'')) w,
      Done None (updSummary w t [(''is_hold'', VBool True), (''loading_message'', VStr ''Hold Mode'')]), r, Done None w, Forever, Crash w} \<union>
      range (\<lambda>e. Done (Some (ECron e)) w)"
    unfolding Resolver_HoldJobTask_def Let_def r_def f_def w1_def
    by (auto split: option.splits outcome.splits sum.splits)
  then show ?thesis using ok flags r by auto
qed

section \<open>Recalculation\<close>

lemma addGroup_counter:
  assumes "st \<in> set inMemTracked"
  shows "getCount (ToMapResult (orEmpty (map_of (addGroup m (n, st', t')) t))) st =
    getCount (ToMapResult (orEmpty (map_of m t))) st + (if t' = t \<and> st' = st then n else 0)"
proof -
  define s where "s = orEmpty (map_of m t')"
  define s' where "s' = (if st' = StatusSuccess then s\<lparr>sSuccess := sSuccess s + n\<rparr>
                 else if st' = StatusQueueing then s\<lparr>sQueueing := sQueueing s + n\<rparr>
                 else if st' = StatusRetrying then s\<lparr>sRetrying := sRetrying s + n\<rparr>
                 else if st' = StatusFailure then s\<lparr>sFailure := sFailure s + n\<rparr>
                 else if st' = StatusStopped then s\<lparr>sStopped := sStopped s + n\<rparr> else s)"
  have "addGroup m (n, st', t') = AList.update t' s' m"
    by (simp add: addGroup_def s'_def s_def orEmpty_def Let_def)
  moreover have "getCount (ToMapResult s') st = getCount (ToMapResult s) st + (if st' = st then n else 0)"
    using assms by (auto simp: s'_def inMemTracked_def ToMapResult_def getCount_def)
  ultimately show ?thesis by (auto simp: update_conv' s_def orEmpty_def)
qed

lemma addGroups_counter:
  "st \<in> set inMemTracked \<Longrightarrow> getCount (ToMapResult (orEmpty (map_of (foldl addGroup m rows) t))) st =
    getCount (ToMapResult (orEmpty (map_of m t))) st + sum_list (map (\<lambda>(n, st', t'). if t' = t \<and> st' = st then n else 0) rows)"
proof (induction rows arbitrary: m)
  case (Cons row rows)
  then show ?case by (cases row) (simp add: addGroup_counter)
qed simp

lemma sum_list_single: "distinct xs \<Longrightarrow> sum_list (map (\<lambda>x. if x = a then (f a :: int) else 0) xs) = (if a \<in> set xs then f a else 0)"
  by (induction xs) auto

lemma groupCounts_sum:
  "sum_list (map (\<lambda>(n, st', t'). if t' = t \<and> st' = st then n else 0) (groupCounts js)) = countJobs js t st"
proof -
  define c where "c = (\<lambda>(st', t'). int (length (filter (\<lambda>j. jStatus j = st' \<and> jTaskName j = t') js)))"
  have "map (\<lambda>(n, st', t'). if t' = t \<and> st' = st then n else 0) (groupCounts js) =
      map (\<lambda>x. if x = (st, t) then c (st, t) else 0) (remdups (map (\<lambda>j. (jStatus j, jTaskName j)) js))"
    by (auto simp: groupCounts_def c_def)
  also have "sum_list \<dots> = (if (st, t) \<in> set (map (\<lambda>j. (jStatus j, jTaskName j)) js) then c (st, t) else 0)"
    by (simp add: sum_list_single)
  also have "\<dots> = countJobs js t st"
    by (auto simp: c_def countJobs_def image_iff filter_empty_conv conj_commute cong: conj_cong)
  finally show ?thesis .
qed

lemma keys_addGroups: "distinct (map fst m) \<Longrightarrow> distinct (map fst (foldl addGroup m rows))"
proof (induction rows arbitrary: m)
  case (Cons row rows)
  then show ?case by (cases row) (auto simp: addGroup_def Let_def distinct_update)
qed simp

lemma Aggregate_counts:
  assumes "dbErr db = None" "st \<in> set inMemTracked"
  shows "getCount (ToMapResult (orEmpty (map_of (rev (map (\<lambda>s. (sID s, s)) (AggregateAllTaskJob db emptyFilter))) t))) st = countJobs (dbJobs db) t st"
proof -
  define m where "m = foldl addGroup [] (groupCounts (dbJobs db))"
  have "matchesFilter (dbLike db) emptyFilter = (\<lambda>_. True)"
    by (simp add: fun_eq_iff matchesFilter_def queryConditions_def emptyFilter_def ParseStartEndDate_def)
  then have agg: "AggregateAllTaskJob db emptyFilter = map (\<lambda>(t, s). s\<lparr>sTaskName := t, sID := t\<rparr>) m"
    using assms(1) by (simp add: AggregateAllTaskJob_def m_def)
  have keys: "distinct (map fst m)" unfolding m_def by (rule keys_addGroups) simp
  define al where "al = map (\<lambda>s. (sID s, s)) (AggregateAllTaskJob db emptyFilter)"
  have al: "al = map (\<lambda>(t, s). (t, s\<lparr>sTaskName := t, sID := t\<rparr>)) m" by (auto simp: al_def agg)
  then have "map fst al = map fst m" by auto
  then have "map_of (rev al) = map_of al" using keys by (simp add: map_of_inject_set flip: rev_map)
  then have "map_of (rev al) t = map_of al t" by simp
  also have "\<dots> = map_option (\<lambda>s. s\<lparr>sTaskName := t, sID := t\<rparr>) (map_of m t)"
    unfolding al by (induction m) auto
  finally have "getCount (ToMapResult (orEmpty (map_of (rev al) t))) st = getCount (ToMapResult (orEmpty (map_of m t))) st"
    by (auto simp: orEmpty_def ToMapResult_def split: option.splits)
  also have "\<dots> = countJobs (dbJobs db) t st"
    using addGroups_counter [OF assms(2), of "[]" "groupCounts (dbJobs db)" t] assms(2)
    by (simp add: m_def groupCounts_sum) (auto simp: orEmpty_def emptySummary_def ToMapResult_def getCount_def inMemTracked_def)
  finally show ?thesis by (simp add: al_def)
qed

definition fiveColumns :: "taskSummary \<Rightarrow> (string \<times> gval) list" where
  "fiveColumns s = [(''success'', VInt (sSuccess s)), (''queueing'', VInt (sQueueing s)), (''retrying'', VInt (sRetrying s)),
     (''failure'', VInt (sFailure s)), (''stopped'', VInt (sStopped s))]"

lemma UpdateSummary_five:
  assumes "dbErr db = None" "hasSummary db t"
  shows "\<exists>h. UpdateSummary db t (fiveColumns s) = db\<lparr>dbSummaries := map h (dbSummaries db)\<rparr> \<and> (\<forall>r. rId (h r) = rId r) \<and>
    (\<forall>r. rId r \<noteq> t \<longrightarrow> h r = r) \<and> (\<forall>r st. rId r = t \<longrightarrow> st \<in> set inMemTracked \<longrightarrow> rowCounter (h r) st = getCount (ToMapResult s) st) \<and>
    (\<forall>r. rHold (h r) = rHold r)"
proof (intro exI conjI)
  let ?h = "\<lambda>r. if rId r = t then r\<lparr>rSuccess := sSuccess s, rQueueing := sQueueing s, rRetrying := sRetrying s, rFailure := sFailure s,
    rStopped := sStopped s\<rparr> else r"
  show "UpdateSummary db t (fiveColumns s) = db\<lparr>dbSummaries := map ?h (dbSummaries db)\<rparr>"
    using assms by (simp add: UpdateSummary_def fiveColumns_def setSummaryColumn_def)
qed (auto simp: rowCounter_def ToMapResult_def getCount_def inMemTracked_def)

lemma RecalculateSummary_step:
  assumes db: "dbErr (wDB w) = None" "hasSummary (wDB w) t" and s: "sID s = t"
    and counts: "\<And>st. st \<in> set inMemTracked \<Longrightarrow> getCount (ToMapResult s) st = countJobs (dbJobs (wDB w)) t st"
  defines "w' \<equiv> updSummary w (sID s) (fiveColumns s)"
  shows "dbErr (wDB w') = None" "dbJobs (wDB w') = dbJobs (wDB w)" "wTasks w' = wTasks w"
    "hasSummary (wDB w') t' = hasSummary (wDB w) t'"
    "st \<in> set inMemTracked \<Longrightarrow> sqlCounter (wDB w') t' st = (if t' = t then countJobs (dbJobs (wDB w)) t st else sqlCounter (wDB w) t' st)"
proof -
  obtain h where h: "UpdateSummary (wDB w) t (fiveColumns s) = (wDB w)\<lparr>dbSummaries := map h (dbSummaries (wDB w))\<rparr>" "\<forall>r. rId (h r) = rId r"
    "\<forall>r. rId r \<noteq> t \<longrightarrow> h r = r" "\<forall>r st. rId r = t \<longrightarrow> st \<in> set inMemTracked \<longrightarrow> rowCounter (h r) st = getCount (ToMapResult s) st"
    using UpdateSummary_five [OF db, of s] by blast
  have w': "wDB w' = (wDB w)\<lparr>dbSummaries := map h (dbSummaries (wDB w))\<rparr>" using h(1) s by (simp add: w'_def updSummary_def)
  show "dbErr (wDB w') = None" "dbJobs (wDB w') = dbJobs (wDB w)" "wTasks w' = wTasks w" using db by (simp_all add: w') (simp add: w'_def updSummary_def)
  have row: "summaryRowOf (wDB w') t' = map_option h (summaryRowOf (wDB w) t')" for t'
    using find_map_same [of "dbSummaries (wDB w)" "\<lambda>r. rId r = t'" h] h(2) by (simp add: w' summaryRowOf_def)
  show "hasSummary (wDB w') t' = hasSummary (wDB w) t'" by (simp add: hasSummary_rowOf row)
  have id: "rId r = t'" if "summaryRowOf (wDB w) t' = Some r" for r t' using that by (auto simp: summaryRowOf_def find_Some_iff)
  show "sqlCounter (wDB w') t' st = (if t' = t then countJobs (dbJobs (wDB w)) t st else sqlCounter (wDB w) t' st)" if "st \<in> set inMemTracked"
    using that db(2) h(3,4) counts id unfolding sqlCounter_def row hasSummary_rowOf by (auto split: option.splits)
qed

definition recounted :: "world \<Rightarrow> string set \<Rightarrow> bool" where
  "recounted w S \<longleftrightarrow> (\<forall>t\<in>S. \<forall>st\<in>set inMemTracked. sqlCounter (wDB w) t st = countJobs (dbJobs (wDB w)) t st)"

lemma RecalculateSummary_loop:
  assumes "dbErr (wDB w) = None" "\<forall>t\<in>set ts. hasSummary (wDB w) t" "recounted w S"
    and s: "\<And>t. sID (s t) = t" "\<And>t st. st \<in> set inMemTracked \<Longrightarrow> getCount (ToMapResult (s t)) st = countJobs (dbJobs (wDB w)) t st"
  shows "recounted (foldl (\<lambda>w t. updSummary w (sID (s t)) (fiveColumns (s t))) w ts) (S \<union> set ts) \<and>
    dbJobs (wDB (foldl (\<lambda>w t. updSummary w (sID (s t)) (fiveColumns (s t))) w ts)) = dbJobs (wDB w)"
  using assms
proof (induction ts arbitrary: w S)
  case (Cons t ts)
  define w1 where "w1 = updSummary w (sID (s t)) (fiveColumns (s t))"
  note step = RecalculateSummary_step [of w t "s t", folded w1_def]
  have w1: "dbErr (wDB w1) = None" "dbJobs (wDB w1) = dbJobs (wDB w)" "\<forall>t\<in>set ts. hasSummary (wDB w1) t" "recounted w1 (insert t S)"
    using step Cons.prems by (auto simp: recounted_def)
  show ?case using Cons.IH [of w1 "insert t S"] w1 Cons.prems by (simp add: w1_def)
qed simp

end
