(* ===== verification/Task_Example.thy ===== *)
theory Task_Example
  imports Task_Worker
begin

text \<open>
  Small states of the task queue worker with one task, on which the properties are tried out.
\<close>

definition exTime :: gotime where
  "exTime = \<lparr>tYear = 2024, tMonth = 1, tDay = 1, tHour = 0, tMinute = 0, tSecond = 0, tNano = 0, tLoc = 0\<rparr>"

definition exJob :: "string \<Rightarrow> string \<Rightarrow> job" where
  "exJob i st = emptyJob\<lparr>jID := i, jTaskName := ''mail'', jMaxRetry := 3, jInterval := ''2s'', jCreatedAt := exTime, jStatus := st\<rparr>"

definition exDB :: "job list \<Rightarrow> sqlDB" where
  "exDB js = \<lparr>dbJobs = js, dbHist = [], dbSummaries = [], dbConfigs = [], dbErr = None, dbLike = (\<lambda>_ _. True)\<rparr>"

definition exWorld :: "job list \<Rightarrow> world" where
  "exWorld js = \<lparr>wDriver = ''postgres'', wDB = exDB js, wSecondary = None, wQueue = NewInMemQueue, wTasks = [''mail''],
     wTicker = (\<lambda>_. None), wSem = (\<lambda>_. False), wCurrent = (\<lambda>_. None), wCanceled = (\<lambda>_. False), wLocker = NoopLocker,
     wLocks = \<lparr>lsVals = (\<lambda>_. 0), lsDown = False\<rparr>, wService = ''svc'', wExternalHost = [], wActive = True, wShutdown = False,
     wCtxDone = False, wRetention = None\<rparr>"

text \<open>The state that an operation leaves.\<close>

definition stateOf :: "world \<Rightarrow> 'r run \<Rightarrow> world" where
  "stateOf w r = (case r of Done _ w' \<Rightarrow> w' | Crash w' \<Rightarrow> w' | Forever \<Rightarrow> w)"

definition returns :: "'r run \<Rightarrow> bool" where
  "returns r = (case r of Done _ _ \<Rightarrow> True | _ \<Rightarrow> False)"

end
