(* ===== verification/Task_Correct.thy ===== *)
theory Task_Correct
  imports Task_Startup Task_Example
begin

text \<open>
  The properties of the task queue worker: the step relation of its operations and the invariant of
  its reachable states, what the operations do to a job, and the cases in which a job is lost or a
  counter drifts.
\<close>

section \<open>Operations in any order\<close>

text \<open>What a caller, a timer, the end of a handler or the dashboard can do to the worker: the functions of
  \<open>job_operation.go\<close>, the mutations of \<open>graphql_resolver.go\<close>, the two halves of a run of a job
  (\<open>triggerTask\<close> until the handlers start, then the result of the handlers or the canceled context), the
  internal task and \<open>Shutdown\<close>.  The result of a job can come at any time, whatever happened to its row
  since the start.\<close>

datatype engineOp =
    OpAddJob "string \<Rightarrow> (string \<times> gval) list \<Rightarrow> string + string list \<times> string" gotime string addJobRequest
  | OpStopJob gotime string
  | OpRetryJob gotime string
  | OpTrigger gotime taskHandler string
  | OpResult gotime gotime taskHandler jobResult string
  | OpCancel gotime gotime taskHandler string
  | OpProgress gotime string int int
  | OpDeleteJob string
  | OpStopAllJob gotime string
  | OpRetryAllJob gotime filterMutateInput
  | OpCleanJob filterMutateInput
  | OpHoldJobTask gotime string bool "string option"
  | OpRunQueuedJob gotime string
  | OpRecalculateSummary
  | OpRestoreFromSecondary string gotime
  | OpSetConfiguration gotime configuration
  | OpRetention gotime
  | OpShutdown

text \<open>The state after an operation, also after one that panics; \<open>None\<close> when the operation does not end,
  or when a trigger still waits for the semaphore of its task.\<close>

definition leaves :: "'r run \<Rightarrow> world option" where
  "leaves r = (case r of Done _ w \<Rightarrow> Some w | Crash w \<Rightarrow> Some w | Forever \<Rightarrow> None)"

fun perform :: "engineOp \<Rightarrow> world \<Rightarrow> world option" where
  "perform (OpAddJob post now uuid a) w = leaves (AddJob post now uuid w a)"
| "perform (OpStopJob now i) w = leaves (StopJob now w i)"
| "perform (OpRetryJob now i) w = leaves (RetryJob now w i)"
| "perform (OpTrigger now h t) w = Option.bind (triggerTask now h w t) leaves"
| "perform (OpResult s now h res t) w = leaves (completeTask s now h (Some res) w t)"
| "perform (OpCancel s now h t) w = leaves (completeTask s now h None w t)"
| "perform (OpProgress now i n m) w = Some (snd (UpdateProgressJob now w i n m))"
| "perform (OpDeleteJob i) w = Some (snd (Resolver_DeleteJob w i))"
| "perform (OpStopAllJob now t) w = Some (snd (Resolver_StopAllJob now w t))"
| "perform (OpRetryAllJob now req) w = leaves (Resolver_RetryAllJob now w req)"
| "perform (OpCleanJob req) w = Some (Resolver_CleanJob w req)"
| "perform (OpHoldJobTask now t b sw) w = leaves (Resolver_HoldJobTask now w t b sw)"
| "perform (OpRunQueuedJob now t) w = leaves (Resolver_RunQueuedJob now w t)"
| "perform OpRecalculateSummary w = Some (RecalculateSummary w)"
| "perform (OpRestoreFromSecondary uuid now) w = leaves (Resolver_RestoreFromSecondary uuid now w)"
| "perform (OpSetConfiguration now cfg) w = leaves (setConfiguration now w cfg)"
| "perform (OpRetention now) w = leaves (execInternalTask now w)"
| "perform OpShutdown w = Some (Shutdown w)"

fun performs :: "engineOp list \<Rightarrow> world \<Rightarrow> world option" where
  "performs [] w = Some w"
| "performs (op # ops) w = Option.bind (perform op w) (performs ops)"

text \<open>The operations whose increments do not match what they do to the rows, in the state where they
  start: stopping a job that is stopped, retrying one that waits, a result of a job whose row is no longer
  \<open>RETRYING\<close> (it was retried, stopped or deleted while its handlers ran), restoring from a secondary store;
  an operation on all the jobs of the task with the empty name, which the filters read as every task, or
  with a status that has no counter; and a new job with the empty id, which the generator of ids never gives.\<close>

fun irregular :: "world \<Rightarrow> engineOp \<Rightarrow> bool" where
  "irregular w (OpStopJob _ i) = (case findRow (wDB w) i of None \<Rightarrow> False | Some r \<Rightarrow> jStatus r = StatusStopped)"
| "irregular w (OpRetryJob _ i) = (case findRow (wDB w) i of None \<Rightarrow> False | Some r \<Rightarrow> jStatus r = StatusQueueing)"
| "irregular w (OpResult _ _ _ _ t) =
     (case wCurrent w t of None \<Rightarrow> False
      | Some j \<Rightarrow> (case findRow (wDB w) (jID j) of None \<Rightarrow> True
          | Some k \<Rightarrow> jStatus k \<noteq> StatusRetrying \<or> jTaskName k \<noteq> jTaskName j))"
| "irregular w (OpRestoreFromSecondary _ _) = (wSecondary w \<noteq> None)"
| "irregular w (OpAddJob _ _ uuid _) = (uuid = [])"
| "irregular w (OpStopAllJob _ t) = (t = [])"
| "irregular w (OpHoldJobTask _ t _ _) = (t = [])"
| "irregular w (OpRetryAllJob _ req) = (fmTaskName req = [] \<or> \<not> set (fmStatuses req) \<subseteq> set allStatuses)"
| "irregular w (OpCleanJob req) = (fmTaskName req = [] \<or> \<not> set (fmStatuses req) \<subseteq> set allStatuses)"
| "irregular w (OpRetention _) = ([] \<in> set (wTasks w))"
| "irregular w _ = False"

lemma leaves_runOk: "leaves r = Some w' \<Longrightarrow> runOk P r \<Longrightarrow> P w'"
  by (auto simp: leaves_def split: run.splits)

lemma UpdateProgressJob_keeps:
  assumes ok: "engineOk w"
  shows "engineOk (snd (UpdateProgressJob now w i n m))"
proof (cases "findRow (wDB w) i")
  case None
  then show ?thesis using ok by (simp add: UpdateProgressJob_def FindJobByID_row dbOk_noErr engineOk_def)
next
  case (Some r)
  have db: "dbOk (set (wTasks w)) (wDB w)" using ok by (simp add: engineOk_def)
  define g where "g k = k\<lparr>jCurrentProgress := n, jMaxProgress := m, jUpdatedAt := now\<rparr>" for k :: job
  have cols: "setColumns (AList.update ''updated_at'' (VTime now) [(''current_progress'', VInt n), (''max_progress'', VInt m)]) k = Some (g k)" for k
    by (simp add: setColumn_def g_def)
  define db' where "db' = (wDB w)\<lparr>dbJobs := map (\<lambda>k. if jID k = i then g k else k) (dbJobs (wDB w)), dbHist := dbHist (wDB w)\<rparr>"
  have "tableOk db'" unfolding db'_def by (rule tableOk_map [OF dbOk_table [OF db]]) (auto simp: g_def)
  then have "dbOk (set (wTasks w)) db'"
    by (rule dbOk_same_counts [OF db, rotated]) (auto intro!: countJobs_cong simp: g_def db'_def)
  then show ?thesis
    using ok UpdateJob_row [where g = g, OF db Some cols, of "[]"] findRow_mem [OF Some]
    by (simp add: UpdateProgressJob_def FindJobByID_found [OF db Some] engineOk_def db'_def)
qed

lemma setConfiguration_keeps:
  assumes "engineOk w"
  shows "runOk engineOk (setConfiguration now w cfg)"
proof -
  define store where "store w' = (case SetConfiguration (wDB w') cfg of (err, db) \<Rightarrow> Done err (w'\<lparr>wDB := db\<rparr>))" for w'
  have store: "runOk engineOk (store w')" if "engineOk w'" for w'
    using that by (auto simp: store_def SetConfiguration_def engineOk_def dbOk_def tableOk_def sqlCounted_def agrees_def sqlCounter_def
      summaryRowOf_def split: option.splits)
  have ret: "engineOk (w\<lparr>wRetention := x\<rparr>)" for x using assms by (simp add: engineOk_def)
  have ret2: "runOk engineOk (store (w\<lparr>wRetention := x\<rparr>))" for x by (rule store [OF ret])
  show ?thesis unfolding setConfiguration_def Let_def store_def [symmetric]
    using assms store [OF assms] ret ret2 by (simp split: option.split sum.split prod.split)
qed

lemma Shutdown_keeps: "engineOk w \<Longrightarrow> engineOk (Shutdown w)"
proof -
  have "engineOk (foldl (\<lambda>w task. w\<lparr>wQueue := inMem_Clear (wQueue w) task\<rparr>) w ts)" if "engineOk w" for w ts
    by (rule foldl_keeps [where P = engineOk, OF that]) (simp add: engineOk_def)
  then show "engineOk w \<Longrightarrow> engineOk (Shutdown w)" by (simp add: Shutdown_def stopAllJob_def engineOk_def Let_def) auto
qed

lemma restore_without_secondary:
  assumes "wSecondary w = None"
  shows "Resolver_RestoreFromSecondary uuid now w = Done 0 w"
  using assms by (simp add: Resolver_RestoreFromSecondary_def StreamAllJob_def Let_def)

text \<open>\<open>RecalculateSummary\<close> as a loop over the tasks with summaries that hold the numbers of the jobs.\<close>

lemma RecalculateSummary_counts:
  assumes "dbErr (wDB w) = None" "wActive w"
  obtains s where "\<And>t. sID (s t) = t" "\<And>t st. st \<in> set inMemTracked \<Longrightarrow> getCount (ToMapResult (s t)) st = countJobs (dbJobs (wDB w)) t st"
    "RecalculateSummary w = foldl (\<lambda>w t. updSummary w (sID (s t)) (fiveColumns (s t))) w (wTasks w)"
proof -
  define mapper where "mapper = rev (map (\<lambda>s. (sID s, s)) (AggregateAllTaskJob (wDB w) emptyFilter))"
  define s where "s t = (case map_of mapper t of Some s \<Rightarrow> s | None \<Rightarrow> emptySummary\<lparr>sID := t\<rparr>)" for t
  show thesis
  proof (rule that)
    show "sID (s t) = t" for t by (auto simp: s_def mapper_def split: option.splits dest!: map_of_SomeD)
    show "getCount (ToMapResult (s t)) st = countJobs (dbJobs (wDB w)) t st" if "st \<in> set inMemTracked" for t st
      using Aggregate_counts [OF assms(1) that, of t]
      by (auto simp: s_def orEmpty_def mapper_def ToMapResult_def split: option.splits)
    show "RecalculateSummary w = foldl (\<lambda>w t. updSummary w (sID (s t)) (fiveColumns (s t))) w (wTasks w)"
      using assms(2) by (simp add: RecalculateSummary_def Let_def s_def mapper_def fiveColumns_def)
  qed
qed

lemma updSummary_five_keeps:
  assumes ok: "engineOk w" and t: "t \<in> set (wTasks w)" and s: "sID s = t"
    and counts: "\<And>st. st \<in> set inMemTracked \<Longrightarrow> getCount (ToMapResult s) st = countJobs (dbJobs (wDB w)) t st"
  shows "engineOk (updSummary w (sID s) (fiveColumns s))"
proof -
  have db: "dbOk (set (wTasks w)) (wDB w)" using ok by (simp add: engineOk_def)
  have has: "hasSummary (wDB w) t" using db t by (auto simp: dbOk_def sqlCounted_def hasSummary_rowOf split: option.splits)
  obtain h where h: "UpdateSummary (wDB w) t (fiveColumns s) = (wDB w)\<lparr>dbSummaries := map h (dbSummaries (wDB w))\<rparr>" "\<forall>r. rId (h r) = rId r"
    "\<forall>r. rId r \<noteq> t \<longrightarrow> h r = r" "\<forall>r st. rId r = t \<longrightarrow> st \<in> set inMemTracked \<longrightarrow> rowCounter (h r) st = getCount (ToMapResult s) st"
    "\<forall>r. rHold (h r) = rHold r"
    using UpdateSummary_five [OF dbOk_noErr [OF db] has, of s] by blast
  define db' where "db' = UpdateSummary (wDB w) t (fiveColumns s)"
  have row: "summaryRowOf db' t' = map_option h (summaryRowOf (wDB w) t')" for t'
    using find_map_same [of "dbSummaries (wDB w)" "\<lambda>r. rId r = t'" h] h(1,2) by (simp add: db'_def summaryRowOf_def)
  have id: "rId r = t'" if "summaryRowOf (wDB w) t' = Some r" for r t' using that by (auto simp: summaryRowOf_def find_Some_iff)
  have jobs: "dbJobs db' = dbJobs (wDB w)" "dbErr db' = dbErr (wDB w)" by (simp_all add: db'_def h(1))
  have "sqlCounted db' t' \<and> (\<forall>st\<in>set allStatuses. sqlCounter db' t' st = countJobs (dbJobs (wDB w)) t' st)" if t': "t' \<in> set (wTasks w)" for t'
  proof -
    have c: "sqlCounted (wDB w) t'" "\<forall>st\<in>set allStatuses. sqlCounter (wDB w) t' st = countJobs (dbJobs (wDB w)) t' st"
      using db t' by (auto simp: dbOk_def agrees_def)
    obtain r where r: "summaryRowOf (wDB w) t' = Some r" "rHold r \<noteq> None" using c(1) by (auto simp: sqlCounted_def split: option.splits)
    have hold: "rowCounter (h r) StatusHold = rowCounter r StatusHold" using h(5) by (simp add: rowCounter_def)
    have "rowCounter (h r) st = countJobs (dbJobs (wDB w)) t' st" if st: "st \<in> set allStatuses" for st
    proof (cases "t' = t \<and> st \<in> set inMemTracked")
      case True
      then show ?thesis using h(4) id [OF r(1)] counts by simp
    next
      case False
      have "st \<in> set inMemTracked \<or> st = StatusHold" using st by (auto simp: allStatuses_def inMemTracked_def)
      then have "rowCounter (h r) st = rowCounter r st" using False h(3) id [OF r(1)] hold by auto
      then show ?thesis using c(2) st r(1) by (simp add: sqlCounter_def)
    qed
    then show ?thesis using r h(5) c(1) jobs by (simp add: sqlCounted_def sqlCounter_def row)
  qed
  moreover have "tableOk db'" using dbOk_table [OF db] jobs by (simp add: tableOk_def)
  ultimately have "dbOk (set (wTasks w)) db'" by (simp add: dbOk_def agrees_def jobs)
  then show ?thesis by (simp add: engineOk_def updSummary_def s db'_def)
qed

lemma RecalculateSummary_keeps:
  assumes ok: "engineOk w"
  shows "engineOk (RecalculateSummary w)"
proof (cases "wActive w")
  case True
  have "dbErr (wDB w) = None" using ok by (auto simp: engineOk_def intro: dbOk_noErr)
  then obtain s where s: "\<And>t. sID (s t) = t" "\<And>t st. st \<in> set inMemTracked \<Longrightarrow> getCount (ToMapResult (s t)) st = countJobs (dbJobs (wDB w)) t st"
    "RecalculateSummary w = foldl (\<lambda>w t. updSummary w (sID (s t)) (fiveColumns (s t))) w (wTasks w)"
    using RecalculateSummary_counts [OF _ True] by blast
  define P where "P w' \<longleftrightarrow> engineOk w' \<and> wTasks w' = wTasks w \<and> dbJobs (wDB w') = dbJobs (wDB w)" for w'
  have "P (RecalculateSummary w)" unfolding s(3)
  proof (rule foldl_keeps [where P = P])
    show "P (updSummary w' (sID (s t)) (fiveColumns (s t)))" if "t \<in> set (wTasks w)" "P w'" for w' t
      using that s(1,2) updSummary_five_keeps [of w' t "s t"] by (simp add: P_def updSummary_def)
  qed (simp add: P_def ok)
  then show ?thesis by (simp add: P_def)
qed (simp add: RecalculateSummary_def ok)

text \<open>Every operation that is not irregular keeps the invariant.\<close>

lemma perform_keeps:
  assumes run: "perform op w = Some w'" and ok: "engineOk w" and reg: "\<not> irregular w op"
  shows "engineOk w'"
proof (cases op)
  case (OpAddJob post now uuid a)
  show ?thesis by (rule leaves_runOk [OF _ AddJob_keeps [OF ok]]) (use run reg OpAddJob in \<open>auto split: option.splits\<close>)
next
  case (OpStopJob now i)
  show ?thesis by (rule leaves_runOk [OF _ StopJob_keeps [OF ok]]) (use run reg OpStopJob in \<open>auto split: option.splits\<close>)
next
  case (OpRetryJob now i)
  show ?thesis by (rule leaves_runOk [OF _ RetryJob_keeps [OF ok]]) (use run reg OpRetryJob in \<open>auto split: option.splits\<close>)
next
  case (OpResult s now h res t)
  show ?thesis by (rule leaves_runOk [OF _ completeTask_keeps [OF ok]]) (use run reg OpResult in \<open>auto split: option.splits\<close>)
next
  case (OpCancel s now h t)
  show ?thesis by (rule leaves_runOk [OF _ completeTask_keeps [OF ok]]) (use run reg OpCancel in \<open>auto split: option.splits\<close>)
next
  case (OpRetryAllJob now req)
  show ?thesis by (rule leaves_runOk [OF _ Resolver_RetryAllJob_keeps [OF ok]]) (use run reg OpRetryAllJob in \<open>auto split: option.splits\<close>)
next
  case (OpHoldJobTask now t b sw)
  show ?thesis by (rule leaves_runOk [OF _ Resolver_HoldJobTask_keeps [OF ok]]) (use run reg OpHoldJobTask in \<open>auto split: option.splits\<close>)
next
  case (OpRunQueuedJob now t)
  show ?thesis by (rule leaves_runOk [OF _ Resolver_RunQueuedJob_keeps [OF ok]]) (use run reg OpRunQueuedJob in \<open>auto split: option.splits\<close>)
next
  case (OpSetConfiguration now cfg)
  show ?thesis by (rule leaves_runOk [OF _ setConfiguration_keeps [OF ok]]) (use run reg OpSetConfiguration in \<open>auto split: option.splits\<close>)
next
  case (OpRetention now)
  show ?thesis by (rule leaves_runOk [OF _ execInternalTask_keeps [OF ok]]) (use run reg OpRetention in \<open>auto split: option.splits\<close>)
next
  case (OpProgress now i n m)
  then show ?thesis using run reg UpdateProgressJob_keeps [OF ok, of now i n m] by auto
next
  case (OpDeleteJob i)
  then show ?thesis using run reg Resolver_DeleteJob_keeps [OF ok, of i] by auto
next
  case (OpStopAllJob now t)
  then show ?thesis using run reg Resolver_StopAllJob_keeps [OF ok, of t now] by auto
next
  case (OpCleanJob req)
  then show ?thesis using run reg Resolver_CleanJob_keeps [OF ok, of req] by auto
next
  case OpRecalculateSummary
  then show ?thesis using run reg RecalculateSummary_keeps [OF ok] by auto
next
  case OpShutdown
  then show ?thesis using run reg Shutdown_keeps [OF ok] by auto
next
  case (OpTrigger now h t)
  then obtain r where "triggerTask now h w t = Some r" "leaves r = Some w'" using run by (auto simp: Option.bind_eq_Some_conv)
  then show ?thesis using leaves_runOk triggerTask_keeps [OF ok] by blast
next
  case (OpRestoreFromSecondary uuid now)
  then show ?thesis using run reg ok by (simp add: restore_without_secondary leaves_def)
qed

lemma performs_keeps:
  assumes "performs ops w = Some w'" "engineOk w"
  shows "engineOk w' \<or> (\<exists>ops1 op ops2 w1. ops = ops1 @ op # ops2 \<and> performs ops1 w = Some w1 \<and> irregular w1 op)"
  using assms
proof (induction ops arbitrary: w)
  case (Cons op ops)
  show ?case
  proof (cases "irregular w op")
    case True
    then show ?thesis by (metis append_Nil performs.simps(1))
  next
    case False
    obtain w1 where w1: "perform op w = Some w1" "performs ops w1 = Some w'" using Cons.prems(1) by (auto simp: Option.bind_eq_Some_conv)
    from Cons.IH [OF w1(2) perform_keeps [OF w1(1) Cons.prems(2) False]] show ?thesis
    proof
      assume "\<exists>ops1 op ops2 w2. ops = ops1 @ op # ops2 \<and> performs ops1 w1 = Some w2 \<and> irregular w2 op"
      then obtain ops1 op' ops2 w2 where e: "ops = ops1 @ op' # ops2" "performs ops1 w1 = Some w2" "irregular w2 op'" by blast
      have "op # ops = (op # ops1) @ op' # ops2" "performs (op # ops1) w = Some w2" using e w1(1) by simp_all
      then show ?thesis using e(3) by blast
    qed simp
  qed
qed simp

section \<open>An example\<close>

definition exStarted :: world where
  "exStarted = stateOf (exWorld []) (prepare exTime (exWorld [exJob ''a'' ''RETRYING'', exJob ''b'' ''QUEUEING'', exJob ''c'' ''FAILURE'']))"

lemma exStarted_runs:
  "prepare exTime (exWorld [exJob ''a'' ''RETRYING'', exJob ''b'' ''QUEUEING'', exJob ''c'' ''FAILURE'']) = Done () exStarted"
proof -
  have "returns (prepare exTime (exWorld [exJob ''a'' ''RETRYING'', exJob ''b'' ''QUEUEING'', exJob ''c'' ''FAILURE'']))"
    by code_simp
  then show ?thesis by (auto simp: returns_def exStarted_def stateOf_def split: run.splits)
qed

lemma exStarted_ok: "engineOk exStarted"
  by (rule prepare_engineOk [OF _ _ _ exStarted_runs])
    (auto simp: exWorld_def exDB_def exJob_def tableOk_def emptyJob_def allStatuses_def status_defs)

lemma exStarted_facts: "wTasks exStarted = [''mail'']" "map (\<lambda>j. (jID j, jStatus j)) (dbJobs (wDB exStarted)) =
    [(''a'', ''QUEUEING''), (''b'', ''QUEUEING''), (''c'', ''FAILURE'')]"
  by code_simp+

definition exHandler :: taskHandler where
  "exHandler = \<lparr>thFuncs = [\<lambda>_. (HReturn None, [])], thDeleteAfterSuccess = False\<rparr>"

definition exResult :: jobResult where
  "exResult = \<lparr>resErr = None, resResult = ''ok'', resTraceID = [], resStackTrace = []\<rparr>"

text \<open>The job \<open>a\<close> starts and succeeds, then \<open>b\<close> is stopped.\<close>

definition exOps :: "engineOp list" where
  "exOps = [OpTrigger exTime exHandler ''mail'', OpResult exTime exTime exHandler exResult ''mail'', OpStopJob exTime ''b'']"

section \<open>Properties\<close>

text \<open>C2: The worker starts on a table of jobs with different ids and known statuses and a database that
  answers, and then performs any sequence of operations, each of which runs to its end before the next
  begins.  Then the counter of every status of every registered task equals the number of the jobs of the
  task with that status, unless one of the operations was irregular in the state where it began: a stop of
  a stopped job, a retry of a waiting one, a late result, a restore from a secondary store, an operation on
  the empty task name or an unknown status, or an empty new id.\<close>

theorem engine_counters_agree:
  assumes "tableOk (wDB w0)" "[] \<notin> set (wTasks w0)" "wTasks w0 \<noteq> []" "prepare now w0 = Done () w1"
    and "performs ops w1 = Some w" "t \<in> set (wTasks w)" "st \<in> set allStatuses"
  shows "sqlCounter (wDB w) t st = countJobs (dbJobs (wDB w)) t st \<or>
    (\<exists>ops1 op ops2 w'. ops = ops1 @ op # ops2 \<and> performs ops1 w1 = Some w' \<and> irregular w' op)"
  using performs_keeps [OF assms(5) prepare_engineOk [OF assms(1-4)]] assms(6,7) by (auto simp: engineOk_def dbOk_def agrees_def)

theorem engine_counters_agree_witness:
  "\<exists>w. performs exOps exStarted = Some w \<and> sqlCounter (wDB w) ''mail'' StatusStopped = 1 \<and> sqlCounter (wDB w) ''mail'' StatusSuccess = 1 \<and>
     sqlCounter (wDB w) ''mail'' StatusQueueing = 0"
proof -
  have "(case performs exOps exStarted of None \<Rightarrow> False
      | Some w \<Rightarrow> wTasks w = [''mail''] \<and> map (countJobs (dbJobs (wDB w)) ''mail'') [StatusStopped, StatusSuccess, StatusQueueing] = [1, 1, 0])"
    by code_simp
  then obtain w where w: "performs exOps exStarted = Some w" "wTasks w = [''mail'']" "countJobs (dbJobs (wDB w)) ''mail'' StatusStopped = 1"
    "countJobs (dbJobs (wDB w)) ''mail'' StatusSuccess = 1" "countJobs (dbJobs (wDB w)) ''mail'' StatusQueueing = 0"
    by (auto split: option.splits)
  have regular: "case performs (take k exOps) exStarted of None \<Rightarrow> False | Some w \<Rightarrow> \<not> irregular w (exOps ! k)" if "k < 3" for k
  proof -
    have "\<forall>k\<in>{0, 1, 2}. case performs (take k exOps) exStarted of None \<Rightarrow> False | Some w \<Rightarrow> \<not> irregular w (exOps ! k)" by code_simp
    moreover have "k \<in> {0, 1, 2}" using that by auto
    ultimately show ?thesis by blast
  qed
  have "\<not> (exOps = ops1 @ op # ops2 \<and> performs ops1 exStarted = Some w' \<and> irregular w' op)" for ops1 op ops2 w'
  proof
    assume a: "exOps = ops1 @ op # ops2 \<and> performs ops1 exStarted = Some w' \<and> irregular w' op"
    then have e: "exOps = ops1 @ op # ops2" by (rule conjunct1)
    have "length ops1 < length exOps" "take (length ops1) exOps = ops1" "exOps ! length ops1 = op" unfolding e by simp_all
    moreover have "length exOps = 3" by (simp add: exOps_def)
    ultimately have "case performs ops1 exStarted of None \<Rightarrow> False | Some w \<Rightarrow> \<not> irregular w op"
      using regular [of "length ops1"] by (simp only:)
    then show False using a by (simp del: performs.simps irregular.simps)
  qed
  then have "sqlCounter (wDB w) ''mail'' st = countJobs (dbJobs (wDB w)) ''mail'' st" if "st \<in> set allStatuses" for st
    using engine_counters_agree [OF _ _ _ exStarted_runs w(1), of "''mail''" st] that w(2)
    by (auto simp: exWorld_def exDB_def exJob_def tableOk_def emptyJob_def allStatuses_def status_defs)
  then show ?thesis using w by (simp add: allStatuses_def)
qed

text \<open>C3: After \<open>prepare\<close>, whatever the summary table held, the counters of every registered task equal
  the numbers of its jobs.\<close>

theorem prepare_establishes_counters:
  assumes "tableOk (wDB w)" "[] \<notin> set (wTasks w)" "wTasks w \<noteq> []" "prepare now w = Done () w'" "t \<in> set (wTasks w')" "st \<in> set allStatuses"
  shows "sqlCounter (wDB w') t st = countJobs (dbJobs (wDB w')) t st"
  using prepare_engineOk [OF assms(1-4)] assms(5,6) by (simp add: engineOk_def dbOk_def agrees_def)

theorem prepare_establishes_counters_witness:
  "sqlCounter (wDB exStarted) ''mail'' StatusRetrying = countJobs (dbJobs (wDB exStarted)) ''mail'' StatusRetrying \<and>
   countJobs (dbJobs (wDB exStarted)) ''mail'' StatusRetrying = 0"
proof
  show "sqlCounter (wDB exStarted) ''mail'' StatusRetrying = countJobs (dbJobs (wDB exStarted)) ''mail'' StatusRetrying"
    by (rule prepare_establishes_counters [OF _ _ _ exStarted_runs])
      (auto simp: exWorld_def exDB_def exJob_def tableOk_def emptyJob_def allStatuses_def status_defs exStarted_facts)
  show "countJobs (dbJobs (wDB exStarted)) ''mail'' StatusRetrying = 0" by code_simp
qed

text \<open>C17: \<open>RecalculateSummary\<close> sets the counters of success, queueing, retrying, failure and stopped of
  every registered task that has a summary row to the numbers of its jobs; the jobs stay as they
  are.\<close>

theorem RecalculateSummary_repairs:
  assumes "dbErr (wDB w) = None" "\<forall>t\<in>set (wTasks w). hasSummary (wDB w) t" "wActive w"
    and "t \<in> set (wTasks w)" "st \<in> {StatusSuccess, StatusQueueing, StatusRetrying, StatusFailure, StatusStopped}"
  shows "sqlCounter (wDB (RecalculateSummary w)) t st = countJobs (dbJobs (wDB w)) t st \<and>
    dbJobs (wDB (RecalculateSummary w)) = dbJobs (wDB w)"
proof -
  obtain s where "\<And>t. sID (s t) = t" "\<And>t st. st \<in> set inMemTracked \<Longrightarrow> getCount (ToMapResult (s t)) st = countJobs (dbJobs (wDB w)) t st"
    "RecalculateSummary w = foldl (\<lambda>w t. updSummary w (sID (s t)) (fiveColumns (s t))) w (wTasks w)"
    using RecalculateSummary_counts [OF assms(1,3)] by blast
  then show ?thesis
    using RecalculateSummary_loop [OF assms(1,2), of "{}" s] assms(4,5) by (auto simp: recounted_def inMemTracked_def)
qed

definition exDrifted :: world where
  "exDrifted = (exWorld [exJob ''a'' ''FAILURE''])\<lparr>wDB := (exDB [exJob ''a'' ''FAILURE''])\<lparr>dbSummaries := [blankRow\<lparr>rId := ''mail'', rFailure := 7\<rparr>]\<rparr>\<rparr>"

theorem RecalculateSummary_repairs_witness:
  "sqlCounter (wDB exDrifted) ''mail'' StatusFailure = 7 \<and> sqlCounter (wDB (RecalculateSummary exDrifted)) ''mail'' StatusFailure = 1"
proof -
  have "sqlCounter (wDB (RecalculateSummary exDrifted)) ''mail'' StatusFailure = countJobs (dbJobs (wDB exDrifted)) ''mail'' StatusFailure"
    by (rule RecalculateSummary_repairs [THEN conjunct1]) (simp_all add: exDrifted_def exWorld_def exDB_def hasSummary_def blankRow_def)
  moreover have "countJobs (dbJobs (wDB exDrifted)) ''mail'' StatusFailure = 1" "sqlCounter (wDB exDrifted) ''mail'' StatusFailure = 7"
    by code_simp+
  ultimately show ?thesis by simp
qed

section \<open>Adding a job\<close>

text \<open>The interval that a job waits before its first run.\<close>

lemma ParseNextRunningInterval_duration:
  assumes "IsZero (jNextRunningAt j)" "ParseDuration (jInterval j) = Inr d" "0 < d"
  shows "ParseNextRunningInterval now now now j = Returns (d, None, j\<lparr>jNextRunningAt := Add now d\<rparr>)"
  using assms by (simp add: ParseNextRunningInterval_def)

lemma registerJobToWorker_waits:
  assumes "jStatus j = StatusQueueing" "IsZero (jNextRunningAt j)" "ParseDuration (jInterval j) = Inr d" "0 < d" "jTaskName j \<in> set (wTasks w)"
  shows "registerJobToWorker now w j = Done () (w\<lparr>wTicker := (wTicker w)(jTaskName j \<mapsto> d)\<rparr>)"
  using assms ParseNextRunningInterval_duration [OF assms(2-4)] by (simp add: registerJobToWorker_def)

lemma SaveJob_new:
  assumes "dbErr db = None" "findRow db uuid = None" "jID j = []"
  shows "SaveJob uuid now db j [] = (j\<lparr>jID := uuid, jCreatedAt := now\<rparr>, None,
    db\<lparr>dbJobs := dbJobs db @ [storeJob (j\<lparr>jID := uuid, jCreatedAt := now, jUpdatedAt := now\<rparr>)]\<rparr>)"
  using assms by (simp add: SaveJob_def Let_def)

lemma findRow_append: "findRow db i = None \<Longrightarrow> jID j = i \<Longrightarrow> findRow (db\<lparr>dbJobs := dbJobs db @ [j]\<rparr>) i = Some j"
proof -
  have "find (\<lambda>j. jID j = i) (js @ [j]) = Some j" if "find (\<lambda>j. jID j = i) js = None" "jID j = i" for js
    using that by (induction js) (auto split: if_splits)
  then show "findRow db i = None \<Longrightarrow> jID j = i \<Longrightarrow> findRow (db\<lparr>dbJobs := dbJobs db @ [j]\<rparr>) i = Some j"
    by (simp add: findRow_def)
qed

lemma findRow_incr [simp]: "findRow (wDB (incrSummary w t kvs)) i = findRow (wDB w) i"
  by (simp add: incrSummary_def findRow_def)

lemma incrSummary_frame [simp]:
  "wQueue (incrSummary w t kvs) = wQueue w" "wTasks (incrSummary w t kvs) = wTasks w" "wSem (incrSummary w t kvs) = wSem w"
  "wTicker (incrSummary w t kvs) = wTicker w" "wLocker (incrSummary w t kvs) = wLocker w" "wLocks (incrSummary w t kvs) = wLocks w"
  "wSecondary (incrSummary w t kvs) = wSecondary w" "wActive (incrSummary w t kvs) = wActive w"
  by (simp_all add: incrSummary_def)

lemma pushJob_effect:
  assumes "inMemInv (wQueue w)"
  shows "inMemView (wQueue (snd (pushJob w j))) = (inMemView (wQueue w))(jTaskName j := inMemView (wQueue w) (jTaskName j) @ [jID j])"
    "fst (pushJob w j) = int (length (inMemView (wQueue w) (jTaskName j))) + 1"
    "\<exists>q. snd (pushJob w j) = w\<lparr>wQueue := q\<rparr> \<and> inMemInv q"
  using mem.push_view [OF assms, of j] mem.push_count [OF assms, of j] mem.push_inv [OF assms, of j]
  by (auto simp: pushJob_def split: prod.splits)

text \<open>C7: A valid request for a registered task that is neither held nor loading, with a database that
  answers and a fresh id, returns that id and no error; the job is stored as \<open>QUEUEING\<close> with the
  arguments and the retry limit of the request, its stored interval reads back as the requested one
  (half a second when none is given), its id is the last of the queue of the task, and when the queue
  was empty and the worker idle the task waits for that interval.\<close>

theorem AddJob_stores_and_queues:
  assumes req: "aCronExpression a = []" "aTaskName a \<noteq> []" "aMaxRetry a > 0" "0 \<le> aRetryInterval a" "aRetryInterval a \<le> maxInt64" "IsZero (aStartAt a)"
    and eng: "aDirect a \<or> wExternalHost w = []" "wActive w" "aTaskName a \<in> set (wTasks w)" "inMemInv (wQueue w)"
    and db: "dbErr (wDB w) = None" "findRow (wDB w) uuid = None"
    and free: "\<not> sIsHold (FindDetailSummary (wDB w) (aTaskName a))" "\<not> sIsLoading (FindDetailSummary (wDB w) (aTaskName a))"
  defines "d \<equiv> if aRetryInterval a > 0 then aRetryInterval a else defaultInterval"
  shows "\<exists>w' r. AddJob post now uuid w a = Done (uuid, None) w' \<and> findRow (wDB w') uuid = Some r \<and>
    jStatus r = StatusQueueing \<and> jTaskName r = aTaskName a \<and> jArguments r = aArgs a \<and> jMaxRetry r = aMaxRetry a \<and> jRetries r = 0 \<and>
    ParseDuration (jInterval r) = Inr d \<and>
    inMemView (wQueue w') (aTaskName a) = inMemView (wQueue w) (aTaskName a) @ [uuid] \<and>
    (inMemView (wQueue w) (aTaskName a) = [] \<longrightarrow> \<not> wSem w (aTaskName a) \<longrightarrow> wTicker w' (aTaskName a) = Some d)"
proof -
  define j where "j = emptyJob\<lparr>jTaskName := aTaskName a, jArguments := aArgs a, jMaxRetry := aMaxRetry a, jInterval := DurationString d,
    jNextRunningAt := zeroTime, jStatus := StatusQueueing, jCreatedAt := now, jDirect := aDirect a\<rparr>"
  have d: "0 < d" "ParseDuration (DurationString d) = Inr d"
    using req by (auto simp: d_def defaultInterval_def Millisecond_def minInt64_def maxInt64_def intro!: ParseDuration_String)
  have "newJobOf now a None = Returns j" using req(6) by (simp add: newJobOf_def j_def d_def)
  then have add: "AddJob post now uuid w a = recovering (saveNewJob now uuid w j)"
    using req eng by (auto simp: AddJob_def Validate_def)
  define j1 where "j1 = j\<lparr>jID := uuid, jCreatedAt := now\<rparr>"
  define row where "row = storeJob (j1\<lparr>jUpdatedAt := now\<rparr>)"
  define w1 where "w1 = incrSummary (w\<lparr>wDB := (wDB w)\<lparr>dbJobs := dbJobs (wDB w) @ [row]\<rparr>\<rparr>) (aTaskName a) [(ToLower StatusQueueing, 1)]"
  have j1: "jTaskName j1 = aTaskName a" "jStatus j1 = StatusQueueing" "jID j1 = uuid" "jInterval j1 = DurationString d" "IsZero (jNextRunningAt j1)"
    by (simp_all add: j1_def j_def)
  have save: "SaveJob uuid now (wDB w) j [] = (j1, None, (wDB w)\<lparr>dbJobs := dbJobs (wDB w) @ [row]\<rparr>)"
    using SaveJob_new [OF db, of j now] by (simp add: j1_def row_def j_def emptyJob_def)
  have jt: "jTaskName j = aTaskName a" by (simp add: j_def)
  have q1: "inMemInv (wQueue w1)" using eng(4) by (simp add: w1_def)
  obtain q where q: "snd (pushJob w1 j1) = w1\<lparr>wQueue := q\<rparr>" "inMemInv q" using pushJob_effect(3) [OF q1] by blast
  have view: "inMemView q (aTaskName a) = inMemView (wQueue w) (aTaskName a) @ [uuid]"
    using pushJob_effect(1) [OF q1, of j1] q by (simp add: j1 w1_def)
  define reg where "reg = (if fst (pushJob w1 j1) \<le> 1 \<and> \<not> wSem (w1\<lparr>wQueue := q\<rparr>) (aTaskName a)
    then registerJobToWorker now (w1\<lparr>wQueue := q\<rparr>) j1 else Done () (w1\<lparr>wQueue := q\<rparr>))"
  have reg: "reg = Done () (w1\<lparr>wQueue := q, wTicker := if inMemView (wQueue w) (aTaskName a) = [] \<and> \<not> wSem w (aTaskName a)
      then (wTicker w1)(aTaskName a \<mapsto> d) else wTicker w1\<rparr>)"
    using registerJobToWorker_waits [of j1 d "w1\<lparr>wQueue := q\<rparr>" now] j1 d eng(3) pushJob_effect(2) [OF q1, of j1]
    by (auto simp: reg_def w1_def)
  have run: "saveNewJob now uuid w j = thenW reg (\<lambda>w. Done (jID j1, None)
      (if HasBeenLocked (wLocker w) (getLockKey w (aTaskName a)) (wLocks w) then unlockTask w (aTaskName a) else w))"
    using free unfolding saveNewJob_def Let_def jt reg_def
    by (simp add: save j1 w1_def [symmetric] q case_prod_unfold cong: if_cong)
  have row: "findRow (wDB w1) uuid = Some row" using findRow_append [OF db(2), of row] by (simp add: w1_def row_def storeJob_def j1_def)
  have rowf: "jStatus row = StatusQueueing" "jTaskName row = aTaskName a" "jArguments row = aArgs a" "jMaxRetry row = aMaxRetry a"
    "jRetries row = 0" "jInterval row = DurationString d" by (simp_all add: row_def storeJob_def j1_def j_def emptyJob_def)
  show ?thesis
    unfolding add run reg thenW_def recovering_def
    using row rowf d(2) view j1(3)
    by (auto simp: unlockTask_def unlockKey_def w1_def)
qed

definition exRequest :: addJobRequest where
  "exRequest = \<lparr>aTaskName = ''mail'', aMaxRetry = 3, aArgs = ''hello'', aRetryInterval = 1500000000, aStartAt = zeroTime,
     aCronExpression = [], aDirect = False\<rparr>"

theorem AddJob_stores_and_queues_witness:
  "\<exists>w' r. AddJob (\<lambda>_ _. Inl []) exTime ''id-1'' (exWorld []) exRequest = Done (''id-1'', None) w' \<and> findRow (wDB w') ''id-1'' = Some r \<and>
     ParseDuration (jInterval r) = Inr 1500000000 \<and> inMemView (wQueue w') ''mail'' = [''id-1''] \<and> wTicker w' ''mail'' = Some 1500000000"
proof -
  have "\<exists>w' r. AddJob (\<lambda>_ _. Inl []) exTime ''id-1'' (exWorld []) exRequest = Done (''id-1'', None) w' \<and> findRow (wDB w') ''id-1'' = Some r \<and>
    jStatus r = StatusQueueing \<and> jTaskName r = aTaskName exRequest \<and> jArguments r = aArgs exRequest \<and> jMaxRetry r = aMaxRetry exRequest \<and> jRetries r = 0 \<and>
    ParseDuration (jInterval r) = Inr (if aRetryInterval exRequest > 0 then aRetryInterval exRequest else defaultInterval) \<and>
    inMemView (wQueue w') (aTaskName exRequest) = inMemView (wQueue (exWorld [])) (aTaskName exRequest) @ [''id-1''] \<and>
    (inMemView (wQueue (exWorld [])) (aTaskName exRequest) = [] \<longrightarrow> \<not> wSem (exWorld []) (aTaskName exRequest) \<longrightarrow>
      wTicker w' (aTaskName exRequest) = Some (if aRetryInterval exRequest > 0 then aRetryInterval exRequest else defaultInterval))"
    by (rule AddJob_stores_and_queues)
      (simp_all add: exRequest_def exWorld_def exDB_def maxInt64_def NewInMemQueue_def inMemInv_def findRow_def FindDetailSummary_def emptySummary_def)
  then show ?thesis by (auto simp: exRequest_def exWorld_def NewInMemQueue_def inMemView_def)
qed

text \<open>When the database does not answer and no secondary persistence is configured, \<open>AddJob\<close> reports
  no error, with an empty id, and stores the job nowhere: the state is unchanged.\<close>

theorem AddJob_lost_when_store_down:
  assumes "aCronExpression a = []" "aTaskName a \<noteq> []" "aMaxRetry a > 0" "0 \<le> aRetryInterval a"
    and "aDirect a \<or> wExternalHost w = []" "wActive w" "aTaskName a \<in> set (wTasks w)" "dbErr (wDB w) = Some e" "wSecondary w = None"
  shows "AddJob post now uuid w a = Done ([], None) w"
proof -
  obtain j where j: "newJobOf now a None = Returns j" "jID j = []" by (simp add: newJobOf_def emptyJob_def)
  then have "saveNewJob now uuid w j = Done ([], None) w"
    using assms(8,9) by (simp add: saveNewJob_def SaveJob_def FindDetailSummary_def emptySummary_def Let_def)
  then show ?thesis using assms j(1) by (auto simp: AddJob_def Validate_def recovering_def)
qed

theorem AddJob_lost_when_store_down_witness:
  "AddJob (\<lambda>_ _. Inl []) exTime ''id-1'' ((exWorld [])\<lparr>wDB := (exDB [])\<lparr>dbErr := Some ''down''\<rparr>\<rparr>) exRequest =
     Done ([], None) ((exWorld [])\<lparr>wDB := (exDB [])\<lparr>dbErr := Some ''down''\<rparr>\<rparr>)"
  by (rule AddJob_lost_when_store_down [where e = "''down''"]) (simp_all add: exRequest_def exWorld_def exDB_def)

section \<open>Counters that drift\<close>

text \<open>\<open>StopJob\<close> on a job that is already stopped leaves the jobs as they are but takes one from the
  stopped counter: the two entries of the map of increments have the same key.\<close>

theorem StopJob_stopped_drifts:
  assumes ok: "engineOk w" and r: "findRow (wDB w) i = Some r" "jStatus r = StatusStopped" "jTaskName r \<in> set (wTasks w)"
    and run: "StopJob now w i = Done x w'" and active: "wActive w"
  shows "sqlCounter (wDB w') (jTaskName r) StatusStopped = countJobs (dbJobs (wDB w')) (jTaskName r) StatusStopped - 1"
proof -
  have db: "dbOk (set (wTasks w)) (wDB w)" using ok by (simp add: engineOk_def)
  define g where "g j = j\<lparr>jStatus := StatusStopped, jUpdatedAt := now\<rparr>" for j :: job
  have cols: "\<And>j. setColumns (AList.update ''updated_at'' (VTime now) [(''status'', VStr StatusStopped)]) j = Some (g j)"
    by (simp only: setColumns_status g_def)
  define db1 where "db1 = (wDB w)\<lparr>dbJobs := map (\<lambda>j. if jID j = i then g j else j) (dbJobs (wDB w)), dbHist := dbHist (wDB w)\<rparr>"
  have upd: "UpdateJob now (wDB w) (emptyFilter\<lparr>fJobID := Some i, fStatus := Some StatusStopped\<rparr>) [(''status'', VStr StatusStopped)] [] = (1, 1, None, db1)"
    using UpdateJob_row_status [where g = g, OF db r(1,2) cols, of "[]"] by (simp add: db1_def)
  have id: "jID r = i" using findRow_mem [OF r(1)] by simp
  define w2 where "w2 = incrSummary (w\<lparr>wDB := db1\<rparr>) (jTaskName r) [(StatusStopped, 1), (StatusStopped, - 1)]"
  have "StopJob now w i = thenW (registerNextJob False now (jTaskName r) w2) (\<lambda>w. Done None w)"
    unfolding StopJob_def Let_def FindJobByID_found [OF db r(1)] sum.case scanJob_simps id r(2)
    using active upd by (simp add: w2_def)
  then have "frame w2 w'"
    using run frame_nextJob [OF frame_refl, of w2 False now "jTaskName r"] by (auto simp: thenW_def split: run.splits)
  moreover have "tableOk db1" unfolding db1_def by (rule tableOk_update [where g = g, OF dbOk_table [OF db] r(1)]) (simp_all add: g_def allStatuses_def)
  moreover have "countJobs (dbJobs db1) t st = countJobs (dbJobs (wDB w)) t st" for t st
    using countJobs_update [of "dbJobs (wDB w)" r g t st] findRow_mem [OF r(1)] dbOk_table [OF db] r(2) id by (simp add: db1_def g_def tableOk_def)
  ultimately have "dbOk (set (wTasks w)) db1" by (intro dbOk_same_counts [OF db]) (simp_all add: db1_def)
  then have c: "sqlCounted db1 (jTaskName r)" "sqlCounter db1 (jTaskName r) StatusStopped = countJobs (dbJobs db1) (jTaskName r) StatusStopped"
    using r(3) by (auto simp: dbOk_def agrees_def allStatuses_def)
  have "sqlCounter (wDB w2) (jTaskName r) StatusStopped = sqlCounter db1 (jTaskName r) StatusStopped - 1"
    using sqlc.incr_counter [OF c(1), of "[(StatusStopped, - 1)]" StatusStopped "wDriver w" "jTaskName r"]
    by (simp add: w2_def incrSummary_def goMap_def keysOk_def allStatuses_def)
  then show ?thesis using c(2) \<open>frame w2 w'\<close> by (simp add: frame_def w2_def incrSummary_def)
qed

definition exStopped :: world where
  "exStopped = stateOf (exWorld []) (prepare exTime (exWorld [exJob ''a'' ''STOPPED'']))"

lemma exStopped_runs: "prepare exTime (exWorld [exJob ''a'' ''STOPPED'']) = Done () exStopped"
proof -
  have "returns (prepare exTime (exWorld [exJob ''a'' ''STOPPED'']))" by code_simp
  then show ?thesis by (auto simp: returns_def exStopped_def stateOf_def split: run.splits)
qed

lemma exStopped_ok: "engineOk exStopped"
  by (rule prepare_engineOk [OF _ _ _ exStopped_runs])
    (auto simp: exWorld_def exDB_def exJob_def tableOk_def emptyJob_def allStatuses_def status_defs)

lemma exStopped_facts: "wTasks exStopped = [''mail'']" "map_option (\<lambda>r. (jStatus r, jTaskName r)) (findRow (wDB exStopped) ''a'') = Some (StatusStopped, ''mail'')"
  "wActive exStopped" "returns (StopJob exTime exStopped ''a'')"
  by code_simp+

theorem StopJob_stopped_drifts_witness:
  "\<exists>w'. StopJob exTime exStopped ''a'' = Done None w' \<and>
     sqlCounter (wDB w') ''mail'' StatusStopped = countJobs (dbJobs (wDB w')) ''mail'' StatusStopped - 1"
proof -
  obtain x w' where run: "StopJob exTime exStopped ''a'' = Done x w'" using exStopped_facts(4) by (auto simp: returns_def split: run.splits)
  obtain r where r: "findRow (wDB exStopped) ''a'' = Some r" "jStatus r = StatusStopped" "jTaskName r = ''mail''" using exStopped_facts(2) by auto
  have "(case StopJob exTime exStopped ''a'' of Done x _ \<Rightarrow> x = None | _ \<Rightarrow> False)" by code_simp
  then have "x = None" using run by simp
  then show ?thesis using StopJob_stopped_drifts [OF exStopped_ok r(1,2) _ run exStopped_facts(3)] run r exStopped_facts(1) by auto
qed

text \<open>Each kind of irregular operation on single jobs does let the counters drift, from a state right
  after the start: a retry of a waiting job, a retry of a running job whose result comes later, a second
  stop, and a restore.\<close>

definition drifted :: "world \<Rightarrow> bool" where
  "drifted w \<longleftrightarrow> list_ex (\<lambda>t. list_ex (\<lambda>st. sqlCounter (wDB w) t st \<noteq> countJobs (dbJobs (wDB w)) t st) allStatuses) (wTasks w)"

theorem irregular_operations_drift:
  "map_option drifted (performs [OpRetryJob exTime ''a''] exStarted) = Some True"
  "map_option drifted (performs [OpTrigger exTime exHandler ''mail'', OpRetryJob exTime ''a'',
     OpResult exTime exTime exHandler exResult ''mail''] exStarted) = Some True"
  "map_option drifted (performs [OpStopJob exTime ''a'', OpStopJob exTime ''a''] exStarted) = Some True"
  "map_option drifted (performs [OpRestoreFromSecondary ''u'' exTime]
     (exStarted\<lparr>wSecondary := Some (exDB [exJob ''d'' ''QUEUEING''])\<rparr>)) = Some True"
  by code_simp+

section \<open>The secondary persistence\<close>

lemma SaveJob_unknown:
  assumes "dbErr db = None" "jID j \<noteq> []" "findRow db (jID j) = None"
  shows "SaveJob uuid now db j [] = (j, None, db)"
proof -
  have "map (\<lambda>r. if jID r = jID j then f r else r) (dbJobs db) = dbJobs db" for f
  proof (rule map_idI)
    fix x assume "x \<in> set (dbJobs db)"
    then have "jID x \<noteq> jID j" using assms(3) by (metis findRow_None imageI)
    then show "(if jID x = jID j then f x else x) = x" by simp
  qed
  then show ?thesis using assms(1,2) by (simp add: SaveJob_def)
qed

lemma restoreJob_ineffective:
  assumes "dbErr (wDB w) = None" "jID j \<noteq> []" "findRow (wDB w) (jID j) = None"
  shows "runOk (\<lambda>w'. dbJobs (wDB w') = dbJobs (wDB w) \<and> dbErr (wDB w') = None \<and> wSecondary w' = wSecondary w) (restoreJob uuid now i n j w)"
proof -
  define w1 where "w1 = incrSummary w (jTaskName j) [(ToLower (jStatus j), 1)]"
  have w1: "dbJobs (wDB w1) = dbJobs (wDB w)" "dbErr (wDB w1) = None" "wSecondary w1 = wSecondary w"
    using assms(1) by (simp_all add: w1_def incrSummary_def)
  obtain k w2 where p: "pushJob w1 j = (k, w2)" by force
  then have w2: "wDB w2 = wDB w1" "wSecondary w2 = wSecondary w1" by (auto simp: pushJob_def split: prod.splits)
  have "runOk (\<lambda>w'. wDB w' = wDB w2 \<and> wSecondary w' = wSecondary w2) (registerJobToWorker now w2 j)"
    by (simp add: registerJobToWorker_def split: outcome.splits)
  then show ?thesis using w1 w2 p SaveJob_unknown [OF assms]
    by (auto simp: restoreJob_def w1_def [symmetric] elim!: runOk_mono)
qed

text \<open>C40: \<open>RestoreFromSecondary\<close> of jobs that the primary table does not hold writes none of them into
  it, because \<open>SaveJob\<close> updates the row of a job that has an id; afterwards they are deleted from
  the secondary table: every waiting job there is lost.\<close>

theorem RestoreFromSecondary_loses_jobs:
  assumes db: "dbErr (wDB w) = None" "wSecondary w = Some db2" "dbErr db2 = None" "tableOk db2"
    and new: "\<forall>j\<in>set (dbJobs db2). findRow (wDB w) (jID j) = None"
    and run: "Resolver_RestoreFromSecondary uuid now w = Done n w'"
  shows "dbJobs (wDB w') = dbJobs (wDB w) \<and> wSecondary w' \<noteq> None \<and>
    (\<forall>db2'. wSecondary w' = Some db2' \<longrightarrow> dbJobs db2' = filter (\<lambda>j. jStatus j \<noteq> StatusQueueing) (dbJobs db2))"
proof -
  define f where "f = emptyFilter\<lparr>fSort := ''created_at'', fSecondary := True, fStatus := Some StatusQueueing\<rparr>"
  define P where "P w' \<longleftrightarrow> dbJobs (wDB w') = dbJobs (wDB w) \<and> dbErr (wDB w') = None \<and> wSecondary w' = wSecondary w" for w' :: world
  have stream: "runOk P (StreamAllJob f (Some (restoreJob uuid now)) w)"
  proof (rule StreamAllJob_inv [where P = P])
    show "P w" using db by (simp add: P_def)
  next
    fix p l c i and w1 :: world
    assume w1: "P w1"
    define js where "js = fetchJobs (f\<lparr>fPage := p, fLimit := l\<rparr>) w1"
    have "js = FindAllJob db2 (f\<lparr>fPage := p, fLimit := l\<rparr>)"
      using w1 db(2) by (simp add: js_def fetchJobs_def storeOf_def f_def P_def)
    then have ids: "\<forall>j\<in>set js. jID j \<in> jID ` set (dbJobs db2)"
      using FindAllJob_asRead [OF db(4), of "f\<lparr>fPage := p, fLimit := l\<rparr>"] unfolding asRead_def by (metis findRow_mem imageI)
    define I where "I xs w' \<longleftrightarrow> P w' \<and> (\<forall>j\<in>set xs. jID j \<in> jID ` set (dbJobs db2))" for xs :: "job list" and w'
    show "P (fst (handleAll (\<lambda>i j w. runToHandle w (restoreJob uuid now i c j w)) i js w1))"
    proof (rule handleAll_list [where I = I])
      show "I js w1" using w1 ids by (simp add: I_def)
      show "I xs (fst (runToHandle s (restoreJob uuid now i c x s)))" if "I (x # xs) s" for i x xs s
      proof -
        have "jID x \<in> jID ` set (dbJobs db2)" using that by (simp add: I_def)
        then obtain k where k: "k \<in> set (dbJobs db2)" "jID x = jID k" by (rule imageE) simp
        have "findRow (wDB s) (jID x) = None" using new k that by (auto simp: I_def P_def findRow_def)
        moreover have "jID x \<noteq> []" using db(4) k by (auto simp: tableOk_def)
        ultimately have "runOk P (restoreJob uuid now i c x s)"
          using restoreJob_ineffective [of s x uuid now i c] that by (auto simp: I_def P_def elim!: runOk_mono)
        then show ?thesis using runToHandle_ok [of P] that by (auto simp: I_def)
      qed
    qed (simp add: I_def)
  qed
  obtain n1 w1 where w1: "StreamAllJob f (Some (restoreJob uuid now)) w = Done n1 w1"
    and w': "w' = w1\<lparr>wSecondary := map_option (\<lambda>db. snd (CleanJob db f)) (wSecondary w1)\<rparr>"
    using run by (auto simp: Resolver_RestoreFromSecondary_def Let_def f_def split: run.splits)
  have "P w1" using stream w1 by simp
  moreover have "matchesFilter like f = (\<lambda>j. jStatus j = StatusQueueing)" "queryConditions f \<noteq> []" for like
    by (auto simp: fun_eq_iff f_def emptyFilter_def queryConditions_def matchesFilter_def condHolds_def ParseStartEndDate_def)
  ultimately show ?thesis using db w' by (auto simp: P_def CleanJob_def Let_def)
qed

definition exSecondary :: world where
  "exSecondary = (exWorld [])\<lparr>wSecondary := Some (exDB [exJob ''a'' ''QUEUEING''])\<rparr>"

theorem RestoreFromSecondary_loses_jobs_witness:
  "\<exists>w'. Resolver_RestoreFromSecondary ''u'' exTime exSecondary = Done 1 w' \<and> dbJobs (wDB w') = [] \<and> map_option dbJobs (wSecondary w') = Some []"
proof -
  have "(case Resolver_RestoreFromSecondary ''u'' exTime exSecondary of Done n _ \<Rightarrow> n = 1 | _ \<Rightarrow> False)" by code_simp
  then obtain w' where w': "Resolver_RestoreFromSecondary ''u'' exTime exSecondary = Done 1 w'" by (auto split: run.splits)
  have "dbJobs (wDB w') = dbJobs (wDB exSecondary) \<and> wSecondary w' \<noteq> None \<and>
    (\<forall>db2'. wSecondary w' = Some db2' \<longrightarrow> dbJobs db2' = filter (\<lambda>j. jStatus j \<noteq> StatusQueueing) (dbJobs (exDB [exJob ''a'' ''QUEUEING''])))"
    by (rule RestoreFromSecondary_loses_jobs [OF _ _ _ _ _ w'])
      (auto simp: exSecondary_def exWorld_def exDB_def exJob_def tableOk_def emptyJob_def allStatuses_def status_defs findRow_def)
  then show ?thesis using w' by (auto simp: exSecondary_def exWorld_def exDB_def exJob_def status_defs)
qed

section \<open>Retrying a job\<close>

text \<open>C22: \<open>RetryJob\<close> stores the job as \<open>QUEUEING\<close>; the retries start again from zero exactly when they had
  reached the limit, also for a job that failed before the limit; and an interval that is no cron
  expression, as every duration, is replaced by half a second.\<close>

theorem RetryJob_stores:
  assumes ok: "engineOk w" and r: "findRow (wDB w) i = Some r" and active: "wActive w" and iv: "Parse (jInterval r) = Inl e"
    and run: "RetryJob now w i = Done x w'"
  shows "\<exists>k. findRow (wDB w') i = Some k \<and> jStatus k = StatusQueueing \<and> jTaskName k = jTaskName r \<and> jArguments k = jArguments r \<and>
    jRetries k = (if jRetries r \<ge> jMaxRetry r then 0 else jRetries r) \<and> ParseDuration (jInterval k) = Inr defaultInterval"
proof -
  have db: "dbOk (set (wTasks w)) (wDB w)" using ok by (simp add: engineOk_def)
  have id: "jID r = i" using findRow_mem [OF r] by simp
  define w1 where "w1 = unlockKey (unlockKey w (getLockKey w (jTaskName r))) (getLockKey (unlockKey w (getLockKey w (jTaskName r))) i)"
  have w1: "wDB w1 = wDB w" by (simp add: w1_def unlockKey_def)
  note eq = RetryJob_def [of now w i, unfolded Let_def FindJobByID_found [OF db r] sum.case scanJob_simps id, folded w1_def, unfolded w1]
  obtain d er j where p: "ParseNextRunningInterval now now now (retried (scanJob r)) = Returns (d, er, j)"
    using run active unfolding eq by (auto split: outcome.splits)
  obtain t where j: "j = (retried (scanJob r))\<lparr>jNextRunningAt := t\<rparr>" using ParseNextRunningInterval_shape [OF p] by blast
  have jf: "jTaskName j = jTaskName r" "jID j = i" "jStatus j = StatusQueueing" "jInterval j = DurationString defaultInterval"
    "jRetries j = (if jRetries r \<ge> jMaxRetry r then 0 else jRetries r)"
    using id iv by (simp_all add: j retried_def Let_def)
  define upd where "upd = [(''status'', VStr (jStatus j)), (''interval'', VStr (jInterval j)), (''retries'', VInt (jRetries j)),
    (''next_running_at'', VTime (jNextRunningAt j))]"
  define g where "g k = k\<lparr>jStatus := jStatus j, jInterval := jInterval j, jRetries := jRetries j,
    jNextRunningAt := jNextRunningAt j, jUpdatedAt := now\<rparr>" for k :: job
  have cols: "setColumns (AList.update ''updated_at'' (VTime now) upd) k = Some (g k)" for k
    by (simp add: setColumn_def upd_def g_def)
  define db1 where "db1 = (wDB w)\<lparr>dbJobs := map (\<lambda>k. if jID k = i then g k else k) (dbJobs (wDB w)), dbHist := dbHist (wDB w)\<rparr>"
  have u: "UpdateJob now (wDB w) (emptyFilter\<lparr>fJobID := Some i\<rparr>) upd [] = (1, 1, None, db1)"
    using UpdateJob_row [where g = g, OF db r cols, of "[]"] by (simp add: db1_def)
  define w2 where "w2 = incrSummary (w1\<lparr>wDB := db1\<rparr>) (jTaskName r) [(jStatus r, - 1), (StatusQueueing, 1)]"
  have "RetryJob now w i = (if jTaskName r \<notin> set (wTasks w2) then Done (Some (EOther ''Task not found'')) w2
      else thenW (registerJobToWorker now (snd (pushJob w2 j)) j) (\<lambda>w. Done None w))"
    using active u unfolding eq p outcome.case prod.case jf(1,2) upd_def [symmetric] by (simp add: w2_def jf)
  then have "frame w2 w'"
    using run frame_register [OF frame_push [of w2 j], of now j] by (auto simp: thenW_def split: if_splits run.splits)
  moreover have "findRow db1 i = Some (g r)"
    using r id unfolding db1_def findRow_def by (simp add: find_map_same g_def)
  ultimately have "findRow (wDB w') i = Some (g r)" using r by (simp add: frame_def w2_def incrSummary_def findRow_def)
  then show ?thesis using jf ParseDuration_String [of defaultInterval]
    by (auto simp: g_def defaultInterval_def Millisecond_def minInt64_def maxInt64_def)
qed

theorem RetryJob_stores_witness:
  "\<exists>w' k. RetryJob exTime exStopped ''a'' = Done None w' \<and> findRow (wDB w') ''a'' = Some k \<and> jStatus k = StatusQueueing \<and>
     jRetries k = 0 \<and> ParseDuration (jInterval k) = Inr defaultInterval \<and> ParseDuration ''2s'' = Inr (4 * defaultInterval)"
proof -
  have "(case RetryJob exTime exStopped ''a'' of Done x _ \<Rightarrow> x = None | _ \<Rightarrow> False)" by code_simp
  then obtain w' where run: "RetryJob exTime exStopped ''a'' = Done None w'" by (auto split: run.splits)
  have "map_option (\<lambda>r. (jInterval r, jRetries r)) (findRow (wDB exStopped) ''a'') = Some (''2s'', 0)" by code_simp
  then obtain r where r: "findRow (wDB exStopped) ''a'' = Some r" "jInterval r = ''2s''" "jRetries r = 0" by auto
  have "(case Parse ''2s'' of Inl _ \<Rightarrow> True | _ \<Rightarrow> False)" by code_simp
  then obtain e where e: "Parse (jInterval r) = Inl e" using r(2) by (auto split: sum.splits)
  have "ParseDuration ''2s'' = Inr (4 * defaultInterval)" by code_simp
  then show ?thesis using RetryJob_stores [OF exStopped_ok r(1) exStopped_facts(3) e run] run r(3) by auto
qed

end
