(* ===== verification/Task_Live.thy ===== *)
theory Task_Live
  imports Task_Correct
begin

text \<open>
  Progress of the worker: \<open>registerNextJob\<close> terminates, finds the first job of the queue that still
  waits, and refills an empty queue from the job table; a run of a job ends in the status that its
  result asks for, and a job that is to be retried is back in the queue.
\<close>

section \<open>The next job of a queue\<close>

definition waits :: "sqlDB \<Rightarrow> string \<Rightarrow> bool" where
  "waits db i \<longleftrightarrow> (case findRow db i of None \<Rightarrow> False | Some r \<Rightarrow> jStatus r = StatusQueueing)"

text \<open>The queue of a task that starts with a waiting job.\<close>

definition waitingFrom :: "world \<Rightarrow> string \<Rightarrow> string list" where
  "waitingFrom w t = dropWhile (\<lambda>i. \<not> waits (wDB w) i) (inMemView (wQueue w) t)"

definition queueOk :: "world \<Rightarrow> bool" where
  "queueOk w \<longleftrightarrow> inMemInv (wQueue w) \<and> (\<forall>t. [] \<notin> set (inMemView (wQueue w) t))"

lemma waitingFrom_step:
  "inMemView (wQueue w) t = i # ids \<Longrightarrow> waitingFrom w t = (if waits (wDB w) i then i # ids
     else dropWhile (\<lambda>i. \<not> waits (wDB w) i) ids)"
  by (simp add: waitingFrom_def)

lemma empty_not_waiting: "jStatus emptyJob \<noteq> StatusQueueing"
  by (simp add: emptyJob_def status_defs)

lemma queueLength_view: "inMemInv (wQueue w) \<Longrightarrow> queueLength w t = length (inMemView (wQueue w) t)"
  by (auto simp: queueLength_def inMemView_def inMemInv_def Len_refines split: option.splits)

lemma registerNextQueued_spec:
  assumes "dbErr (wDB w) = None" "inMemInv (wQueue w)" "[] \<notin> set (inMemView (wQueue w) t)" "length (inMemView (wQueue w) t) \<le> n"
  shows "\<exists>q. inMemInv q \<and> inMemView q = (inMemView (wQueue w))(t := waitingFrom w t) \<and>
    registerNextQueued n now t w = (case waitingFrom w t of
        [] \<Rightarrow> Done () (w\<lparr>wQueue := q\<rparr>)
      | i # _ \<Rightarrow> registerJobToWorker now (w\<lparr>wQueue := q\<rparr>) (scanJob (the (findRow (wDB w) i))))"
  using assms
proof (induction n arbitrary: w)
  case 0
  note nx = mem.nxt_inv [OF 0(2), of t] mem.nxt_view [OF 0(2), of t] mem.nxt_result [OF 0(2), of t]
  from 0 nx show ?case
    by (intro exI [of _ "snd (inMem_NextJob (wQueue w) t)"])
      (auto simp: waitingFrom_def registerNextQueued.simps [of 0] case_prod_unfold Let_def fun_upd_idem)
next
  case (Suc n)
  note nx = mem.nxt_inv [OF Suc.prems(2), of t] mem.nxt_view [OF Suc.prems(2), of t] mem.nxt_result [OF Suc.prems(2), of t]
  define q1 where "q1 = snd (inMem_NextJob (wQueue w) t)"
  have q1: "inMemInv q1" "inMemView q1 = inMemView (wQueue w)" using nx by (simp_all add: q1_def)
  show ?case
  proof (cases "inMemView (wQueue w) t")
    case Nil
    then have "inMem_NextJob (wQueue w) t = ([], q1)" using nx by (simp add: q1_def prod_eq_iff)
    then show ?thesis using Nil q1
      by (intro exI [of _ q1]) (auto simp: waitingFrom_def registerNextQueued.simps [of "Suc n"] fun_upd_idem)
  next
    case (Cons i ids)
    then have i: "inMem_NextJob (wQueue w) t = (i, q1)" "i \<noteq> []" using nx Suc.prems(3) by (auto simp: q1_def prod_eq_iff)
    define j where "j = (case FindJobByID (wDB w) i None of Inl _ \<Rightarrow> emptyJob | Inr j \<Rightarrow> j)"
    have j: "jStatus j = StatusQueueing \<longleftrightarrow> waits (wDB w) i" "waits (wDB w) i \<longrightarrow> j = scanJob (the (findRow (wDB w) i))"
      using Suc.prems(1) empty_not_waiting by (auto simp: j_def waits_def FindJobByID_row split: option.splits)
    define w1 where "w1 = w\<lparr>wQueue := snd (inMem_PopJob q1 t)\<rparr>"
    have run: "registerNextQueued (Suc n) now t w =
        (if waits (wDB w) i then registerJobToWorker now (w\<lparr>wQueue := q1\<rparr>) j else registerNextQueued n now t w1)"
      using i(2) j(1) unfolding registerNextQueued.simps [of "Suc n"] i(1) Let_def prod.case by (simp add: j_def w1_def)
    show ?thesis
    proof (cases "waits (wDB w) i")
      case True
      then show ?thesis using run j(2) q1 Cons by (intro exI [of _ q1]) (simp add: waitingFrom_step [OF Cons] fun_upd_idem)
    next
      case False
      have w1: "dbErr (wDB w1) = None" "wDB w1 = wDB w" "inMemInv (wQueue w1)" "inMemView (wQueue w1) = (inMemView (wQueue w))(t := ids)"
        using Suc.prems(1) mem.pop_inv [OF q1(1)] mem.pop_view [OF q1(1)] q1(2) Cons by (simp_all add: w1_def)
      then have wf: "waitingFrom w1 t = waitingFrom w t" using False Cons by (simp add: waitingFrom_def)
      have pre: "[] \<notin> set (inMemView (wQueue w1) t)" "length (inMemView (wQueue w1) t) \<le> n"
        using w1(4) Suc.prems(3,4) Cons by simp_all
      obtain q where "inMemInv q" "inMemView q = (inMemView (wQueue w1))(t := waitingFrom w1 t)"
        "registerNextQueued n now t w1 = (case waitingFrom w1 t of [] \<Rightarrow> Done () (w1\<lparr>wQueue := q\<rparr>)
          | i # _ \<Rightarrow> registerJobToWorker now (w1\<lparr>wQueue := q\<rparr>) (scanJob (the (findRow (wDB w1) i))))"
        using Suc.IH [OF w1(1,3) pre] by blast
      then show ?thesis using run False w1 wf by (intro exI [of _ q]) (simp add: w1_def split: list.split)
    qed
  qed
qed

section \<open>Streams that only push\<close>

lemma limitOffset_page: "0 < l \<Longrightarrow> 1 \<le> p \<Longrightarrow> limitOffset l ((p - 1) * l) xs = pageOf xs p l"
  by (auto simp: limitOffset_def pageOf_def mult_less_0_iff)

lemma selectedJobs_page [simp]: "selectedJobs db (f\<lparr>fPage := p, fLimit := l\<rparr>) = selectedJobs db f"
proof -
  have "matchesFilter like (f\<lparr>fPage := p, fLimit := l\<rparr>) = matchesFilter like f" for like
    by (simp add: fun_eq_iff matchesFilter_def queryConditions_def ParseStartEndDate_def)
  then show ?thesis by (simp add: selectedJobs_def)
qed

lemma pageOf_map: "pageOf (map g xs) p l = map g (pageOf xs p l)"
  by (simp add: pageOf_def take_map drop_map)

lemma FindAllJob_page:
  assumes "dbErr db = None" "\<not> fShowAll f" "0 < l" "1 \<le> p"
  shows "FindAllJob db (f\<lparr>fPage := p, fLimit := l\<rparr>) = pageOf (map scanJob (selectedJobs db f)) p l"
  using assms by (simp add: FindAllJob_def CalculateOffset_def limitOffset_page pageOf_map)

lemma CountAllJob_selected: "dbErr db = None \<Longrightarrow> CountAllJob db f = int (length (selectedJobs db f))"
  using mset_selectedJobs [of db f, THEN arg_cong [where f = size]] by (simp add: CountAllJob_def flip: size_mset)

text \<open>A stream whose callback leaves the tables alone is one loop over the selected jobs.\<close>

lemma StreamAllJob_loop:
  assumes f: "\<not> fSecondary f" "fPage f \<le> 1" "\<not> fShowAll f" and db: "dbErr (wDB w) = None"
    and h: "\<And>i c j w'. wDB w' = wDB w \<Longrightarrow> wDB (fst (runToHandle w' (h i c j w'))) = wDB w"
  shows "StreamAllJob f (Some h) w = (let js = map scanJob (selectedJobs (wDB w) f) in
    case handleAll (\<lambda>i j w. runToHandle w (h i (int (length js)) j w)) 0 js w of
      (w', None) \<Rightarrow> Done (int (length js)) w' | (w', Some HCrash) \<Rightarrow> Crash w' | (w', Some HForever) \<Rightarrow> Forever)"
proof -
  define l where "l = (if fLimit f \<le> 0 then 10 else fLimit f)"
  have l: "0 < l" by (simp add: l_def)
  define js where "js = map scanJob (selectedJobs (wDB w) f)"
  have count: "CountAllJob (wDB w) f = int (length js)" using CountAllJob_selected [OF db] by (simp add: js_def)
  define hd where "hd = (\<lambda>i j w. runToHandle w (h i (int (length js)) j w))"
  have page: "(if fPage f \<le> 0 then 1 else fPage f) = 1" using f(2) by auto
  define fetch :: "world \<Rightarrow> int \<Rightarrow> int \<Rightarrow> halt + job list" where "fetch = (\<lambda>w p l. Inr (FindAllJob (wDB w) (f\<lparr>fPage := p, fLimit := l\<rparr>)))"
  have stream: "streamPages (ceilDiv (int (length js)) l) 1 l fetch hd w = handleAll hd 0 js w"
    using streamPages_source [where P = "\<lambda>w'. wDB w' = wDB w" and fetch = fetch and xs = js and h = hd and limit = l and page = 1 and s = w]
      l h f(3) db FindAllJob_page [of "wDB w" f] by (simp add: fetch_def js_def hd_def)
  show ?thesis
  proof (cases "js = []")
    case True
    then show ?thesis using f(1) count by (simp add: StreamAllJob_def js_def)
  next
    case False
    then have run: "StreamAllJob f (Some h) w = (case streamPages (ceilDiv (int (length js)) l) 1 l fetch hd w of
        (w', None) \<Rightarrow> Done (int (length js)) w' | (w', Some HCrash) \<Rightarrow> Crash w' | (w', Some HForever) \<Rightarrow> Forever)"
      using f(1) unfolding StreamAllJob_def Let_def page l_def [symmetric] by (simp add: count fetch_def hd_def cong: if_cong)
    show ?thesis using run [unfolded stream] unfolding Let_def hd_def js_def .
  qed
qed

lemma pushStreamed_all:
  "inMemInv (wQueue w) \<Longrightarrow> \<exists>q. handleAll (\<lambda>i j w. runToHandle w (pushStreamed i c j w)) i js w = (w\<lparr>wQueue := q\<rparr>, None) \<and>
     inMemInv q \<and> (\<forall>t. inMemView q t = inMemView (wQueue w) t @ map jID (filter (\<lambda>j. jTaskName j = t) js))"
proof (induction js arbitrary: i w)
  case Nil
  then show ?case by (intro exI [of _ "wQueue w"]) simp
next
  case (Cons j js)
  define q1 where "q1 = snd (inMem_PushJob (wQueue w) j)"
  have q1: "inMemInv q1" "inMemView q1 = (inMemView (wQueue w))(jTaskName j := inMemView (wQueue w) (jTaskName j) @ [jID j])"
    using mem.push_inv [OF Cons.prems] mem.push_view [OF Cons.prems] by (simp_all add: q1_def)
  have "runToHandle w (pushStreamed i c j w) = (w\<lparr>wQueue := q1\<rparr>, None)"
    by (simp add: runToHandle_def pushStreamed_def pushJob_def q1_def split_beta)
  moreover obtain q where "handleAll (\<lambda>i j w. runToHandle w (pushStreamed i c j w)) (i + 1) js (w\<lparr>wQueue := q1\<rparr>) = (w\<lparr>wQueue := q\<rparr>, None)"
    "inMemInv q" "\<forall>t. inMemView q t = inMemView q1 t @ map jID (filter (\<lambda>j. jTaskName j = t) js)"
    using Cons.IH [of "w\<lparr>wQueue := q1\<rparr>" "i + 1"] q1(1) by auto
  ultimately show ?case using q1(2) by (intro exI [of _ q]) simp
qed

lemma registerNextJob_queue:
  assumes db: "dbErr (wDB w) = None" and q: "queueOk w" and b: "\<not> b \<or> inMemView (wQueue w) t \<noteq> []"
  shows "\<exists>q. inMemInv q \<and> inMemView q = (inMemView (wQueue w))(t := waitingFrom w t) \<and>
    registerNextJob b now t w = (case waitingFrom w t of
        [] \<Rightarrow> Done () (w\<lparr>wQueue := q\<rparr>)
      | i # _ \<Rightarrow> registerJobToWorker now (w\<lparr>wQueue := q\<rparr>) (scanJob (the (findRow (wDB w) i))))"
proof -
  have inv: "inMemInv (wQueue w)" "[] \<notin> set (inMemView (wQueue w) t)" using q by (simp_all add: queueOk_def)
  have "\<not> (b \<and> fst (inMem_NextJob (wQueue w) t) = [])"
    using b inv(2) mem.nxt_result [OF inv(1), of t] by (auto split: list.splits)
  then have "registerNextJob b now t w = registerNextQueued (queueLength w t) now t w"
    unfolding registerNextJob_def by (rule if_not_P)
  then show ?thesis
    using registerNextQueued_spec [OF db inv, of "queueLength w t" now] queueLength_view [OF inv(1)] by simp
qed

definition waitingJobs :: "sqlDB \<Rightarrow> string \<Rightarrow> job list" where
  "waitingJobs db t = selectedJobs db (emptyFilter\<lparr>fTaskName := t, fSort := ''created_at'', fStatus := Some StatusQueueing\<rparr>)"

lemma waitingJobs_set:
  assumes "t \<noteq> []"
  shows "mset (waitingJobs db t) = mset (filter (\<lambda>j. jTaskName j = t \<and> jStatus j = StatusQueueing) (dbJobs db))"
proof -
  have "matchesFilter like (emptyFilter\<lparr>fTaskName := t, fSort := ''created_at'', fStatus := Some StatusQueueing\<rparr>) =
      (\<lambda>j. jTaskName j = t \<and> jStatus j = StatusQueueing)" for like
    using assms by (auto simp: fun_eq_iff emptyFilter_def matchesFilter_def queryConditions_def condHolds_def ParseStartEndDate_def)
  then show ?thesis unfolding waitingJobs_def mset_selectedJobs by simp
qed

lemma registerNextJob_refill:
  assumes db: "tableOk (wDB w)" and q: "queueOk w" and t: "t \<noteq> []" "inMemView (wQueue w) t = []"
  shows "\<exists>q. inMemInv q \<and> inMemView q = (inMemView (wQueue w))(t := map jID (waitingJobs (wDB w) t)) \<and>
    registerNextJob True now t w = (case waitingJobs (wDB w) t of
        [] \<Rightarrow> Done () (w\<lparr>wQueue := q\<rparr>)
      | r # _ \<Rightarrow> registerJobToWorker now (w\<lparr>wQueue := q\<rparr>) (scanJob r))"
proof -
  define js where "js = waitingJobs (wDB w) t"
  have ok: "dbErr (wDB w) = None" "distinct (map jID (dbJobs (wDB w)))" "\<forall>r\<in>set (dbJobs (wDB w)). jID r \<noteq> []"
    using db by (auto simp: tableOk_def)
  have js: "jTaskName r = t \<and> jStatus r = StatusQueueing \<and> r \<in> set (dbJobs (wDB w)) \<and> [] \<noteq> jID r" if "r \<in> set js" for r
    using that ok(3) waitingJobs_set [OF t(1), of "wDB w", THEN arg_cong [where f = set_mset]] by (auto simp: js_def)
  have inv: "inMemInv (wQueue w)" using q by (simp add: queueOk_def)
  obtain q1 where q1: "handleAll (\<lambda>i j w. runToHandle w (pushStreamed i (int (length (map scanJob js))) j w)) 0 (map scanJob js) w = (w\<lparr>wQueue := q1\<rparr>, None)"
    "inMemInv q1" "\<forall>t'. inMemView q1 t' = inMemView (wQueue w) t' @ map jID (filter (\<lambda>j. jTaskName j = t') (map scanJob js))"
    using pushStreamed_all [OF inv] by blast
  have view: "inMemView q1 = (inMemView (wQueue w))(t := map jID js)"
    using q1(3) t(2) js by (auto simp: fun_eq_iff filter_map comp_def filter_id_conv filter_empty_conv)
  define w1 where "w1 = w\<lparr>wQueue := q1\<rparr>"
  have "StreamAllJob (emptyFilter\<lparr>fTaskName := t, fSort := ''created_at'', fStatus := Some StatusQueueing\<rparr>) (Some pushStreamed) w =
      Done (int (length (map scanJob js))) w1"
    using StreamAllJob_loop [of "emptyFilter\<lparr>fTaskName := t, fSort := ''created_at'', fStatus := Some StatusQueueing\<rparr>" w pushStreamed] ok(1) q1(1)
    by (simp add: emptyFilter_def runToHandle_def pushStreamed_def pushJob_def split_beta js_def waitingJobs_def w1_def)
  then have run: "registerNextJob True now t w = registerNextQueued (queueLength w1 t) now t w1"
    using mem.nxt_result [OF inv, of t] t(2) by (simp add: registerNextJob_def)
  have w1: "dbErr (wDB w1) = None" "inMemInv (wQueue w1)" "[] \<notin> set (inMemView (wQueue w1) t)" "length (inMemView (wQueue w1) t) \<le> queueLength w1 t"
    using ok q1(2) view js by (auto simp: w1_def queueLength_view)
  have row: "findRow (wDB w) (jID r) = Some r" if "r \<in> set js" for r using findRow_unique [OF ok(2)] js [OF that] by blast
  have "waits (wDB w) i" if "i \<in> set (map jID js)" for i using that row js by (auto simp: waits_def)
  then have wf: "waitingFrom w1 t = map jID js" using view by (cases js) (auto simp: waitingFrom_def w1_def)
  obtain q where q: "inMemInv q" "inMemView q = (inMemView q1)(t := map jID js)"
    "registerNextQueued (queueLength w1 t) now t w1 = (case map jID js of [] \<Rightarrow> Done () (w1\<lparr>wQueue := q\<rparr>)
      | i # _ \<Rightarrow> registerJobToWorker now (w1\<lparr>wQueue := q\<rparr>) (scanJob (the (findRow (wDB w1) i))))"
    using registerNextQueued_spec [OF w1, of now] unfolding wf by (auto simp: w1_def)
  show ?thesis
    unfolding js_def [symmetric] run q(3)
    using q(1,2) view row by (intro exI [of _ q]) (auto simp: w1_def split: list.split)
qed

section \<open>Waking a task\<close>

lemma sorted_insertBy:
  assumes total: "\<And>x y. le x y \<or> le y x" and trans: "\<And>x y z. le x y \<Longrightarrow> le y z \<Longrightarrow> le x z"
  shows "sorted_wrt le xs \<Longrightarrow> sorted_wrt le (insertBy le x xs)"
proof (induction xs)
  case (Cons y ys)
  have "set (insertBy le x ys) = insert x (set ys)" by (metis mset_insertBy set_mset_add_mset_insert set_mset_mset)
  then show ?case using Cons total [of x y] trans [of x y] by auto
qed simp

lemma sorted_orderBy:
  assumes "\<And>x y. le x y \<or> le y x" "\<And>x y z. le x y \<Longrightarrow> le y z \<Longrightarrow> le x z"
  shows "sorted_wrt le (orderBy le xs)"
  unfolding orderBy_def by (induction xs) (auto intro: sorted_insertBy [OF assms])

lemma waitingJobs_sorted: "sorted_wrt (\<lambda>a b. instant (jCreatedAt a) \<le> instant (jCreatedAt b)) (waitingJobs db t)"
proof -
  have "(\<lambda>a b. keyLe (sortKeyOf ''created_at'' a) (sortKeyOf ''created_at'' b)) = (\<lambda>a b. instant (jCreatedAt a) \<le> instant (jCreatedAt b))"
    by (simp add: fun_eq_iff keyLe_def sortKeyOf_def)
  then show ?thesis
    by (auto simp: waitingJobs_def selectedJobs_def Let_def TrimPrefixDash_def intro!: sorted_orderBy)
qed

lemma registerJobToWorker_due:
  assumes "jStatus j = StatusQueueing" "\<not> After (jNextRunningAt j) now" "ParseDuration (jInterval j) = Inr d" "0 < d" "jTaskName j \<in> set (wTasks w)"
  shows "registerJobToWorker now w j = Done () (w\<lparr>wTicker := (wTicker w)(jTaskName j \<mapsto> d)\<rparr>)"
  using assms by (simp add: registerJobToWorker_def ParseNextRunningInterval_def)

text \<open>C9: \<open>registerNextJob\<close> returns; it drops the ids at the head of the queue whose job is gone or no
  longer waits, keeps the first job that waits and everything behind it, and starts the ticker of its
  task with the interval of that job.  The table is left as it was.\<close>

theorem registerNextJob_wakes:
  assumes ok: "engineOk w" "queueOk w" and wf: "waitingFrom w t = i # ids" and r: "findRow (wDB w) i = Some r"
    and due: "ParseDuration (jInterval r) = Inr d" "0 < d" "\<not> After (jNextRunningAt r) now" and t: "jTaskName r \<in> set (wTasks w)"
  shows "\<exists>w'. registerNextJob b now t w = Done () w' \<and> inMemView (wQueue w') t = i # ids \<and> wTicker w' (jTaskName r) = Some d \<and> wDB w' = wDB w"
proof -
  have db: "dbErr (wDB w) = None" using ok by (simp add: engineOk_def dbOk_noErr)
  have ne: "\<not> b \<or> inMemView (wQueue w) t \<noteq> []" using wf by (auto simp: waitingFrom_def)
  have "waits (wDB w) i" using wf unfolding waitingFrom_def by (metis dropWhile_eq_Cons_conv)
  then have st: "jStatus (scanJob r) = StatusQueueing" using r by (simp add: waits_def)
  show ?thesis
    using registerNextJob_queue [OF db ok(2) ne, of now] registerJobToWorker_due [OF st, of now d] due t r by (auto simp: wf)
qed

definition exQueue :: world where
  "exQueue = exStarted\<lparr>wQueue := snd (inMem_PushJob (snd (inMem_PushJob NewInMemQueue (exJob ''c'' ''FAILURE''))) (exJob ''b'' ''QUEUEING''))\<rparr>"

definition exLater :: gotime where
  "exLater = exTime\<lparr>tHour := 1\<rparr>"

lemma emptyQueue: "inMemInv NewInMemQueue" "inMemView NewInMemQueue = (\<lambda>_. [])"
  by (auto simp: inMemInv_def inMemView_def NewInMemQueue_def)

lemma exQueue_view: "inMemInv (wQueue exQueue)" "inMemView (wQueue exQueue) = (\<lambda>_. [])(''mail'' := [''c'', ''b''])"
proof -
  note q1 = mem.push_inv [OF emptyQueue(1)] mem.push_view [OF emptyQueue(1)]
  show "inMemInv (wQueue exQueue)" by (simp add: exQueue_def mem.push_inv q1)
  show "inMemView (wQueue exQueue) = (\<lambda>_. [])(''mail'' := [''c'', ''b''])"
    by (simp add: exQueue_def mem.push_view q1 emptyQueue(2) exJob_def)
qed

lemma exQueue_ok: "engineOk exQueue" "queueOk exQueue"
  using exStarted_ok exQueue_view by (auto simp: exQueue_def engineOk_def queueOk_def)

theorem registerNextJob_wakes_witness:
  "\<exists>w'. registerNextJob True exLater ''mail'' exQueue = Done () w' \<and> inMemView (wQueue w') ''mail'' = [''b''] \<and> wTicker w' ''mail'' = Some 2000000000"
proof -
  have "map_option (\<lambda>r. (ParseDuration (jInterval r), After (jNextRunningAt r) exLater, jTaskName r)) (findRow (wDB exStarted) ''b'') =
      Some (Inr 2000000000, False, ''mail'')" by code_simp
  then obtain r where r: "findRow (wDB exQueue) ''b'' = Some r" "ParseDuration (jInterval r) = Inr 2000000000"
    "\<not> After (jNextRunningAt r) exLater" "jTaskName r = ''mail''" by (auto simp: exQueue_def)
  have "waits (wDB exStarted) ''b''" "\<not> waits (wDB exStarted) ''c''" by code_simp+
  then have wf: "waitingFrom exQueue ''mail'' = [''b'']" unfolding waitingFrom_def exQueue_view by (simp add: exQueue_def)
  have t: "jTaskName r \<in> set (wTasks exQueue)" using r(4) by (simp add: exQueue_def exStarted_facts(1))
  show ?thesis using registerNextJob_wakes [OF exQueue_ok wf r(1,2) _ r(3) t, of True] r(4) by auto
qed

text \<open>C10: \<open>registerNextJob\<close> with \<open>withStream\<close> refills an empty queue with the id of every job of the
  task that waits in the table, the oldest first.\<close>

theorem registerNextJob_refills:
  assumes ok: "engineOk w" "queueOk w" and t: "t \<noteq> []" "inMemView (wQueue w) t = []" and run: "registerNextJob True now t w = Done x w'"
  shows "\<exists>js. inMemView (wQueue w') t = map jID js \<and> mset js = mset (filter (\<lambda>j. jTaskName j = t \<and> jStatus j = StatusQueueing) (dbJobs (wDB w))) \<and>
    sorted_wrt (\<lambda>a b. instant (jCreatedAt a) \<le> instant (jCreatedAt b)) js"
proof -
  have db: "tableOk (wDB w)" using ok by (auto simp: engineOk_def intro: dbOk_table)
  obtain q where q: "inMemView q = (inMemView (wQueue w))(t := map jID (waitingJobs (wDB w) t))"
    "registerNextJob True now t w = (case waitingJobs (wDB w) t of [] \<Rightarrow> Done () (w\<lparr>wQueue := q\<rparr>)
      | r # _ \<Rightarrow> registerJobToWorker now (w\<lparr>wQueue := q\<rparr>) (scanJob r))"
    using registerNextJob_refill [OF db ok(2) t, of now] by blast
  have "wQueue w' = q"
    using run unfolding q(2) by (auto simp: registerJobToWorker_def split: list.splits if_splits outcome.splits)
  then show ?thesis using q(1) waitingJobs_set [OF t(1)] waitingJobs_sorted by (intro exI [of _ "waitingJobs (wDB w) t"]) simp
qed

theorem registerNextJob_refills_witness:
  "\<exists>w'. registerNextJob True exLater ''mail'' (exStarted\<lparr>wQueue := NewInMemQueue\<rparr>) = Done () w' \<and>
     mset (inMemView (wQueue w') ''mail'') = {#''a'', ''b''#}"
proof -
  let ?w = "exStarted\<lparr>wQueue := NewInMemQueue\<rparr>"
  have ok: "engineOk ?w" "queueOk ?w"
    using exStarted_ok emptyQueue by (auto simp: engineOk_def queueOk_def)
  have "map (\<lambda>r. (jStatus r, After (jNextRunningAt r) exLater, ParseDuration (jInterval r), jTaskName r)) (waitingJobs (wDB exStarted) ''mail'') =
      replicate 2 (''QUEUEING'', False, Inr 2000000000, ''mail'')" by code_simp
  then obtain r rs where r: "waitingJobs (wDB exStarted) ''mail'' = r # rs" "jStatus (scanJob r) = StatusQueueing"
    "\<not> After (jNextRunningAt (scanJob r)) exLater" "ParseDuration (jInterval (scanJob r)) = Inr 2000000000" "jTaskName (scanJob r) = ''mail''"
    by (auto simp: numeral_2_eq_2 map_eq_Cons_conv status_defs)
  have "tableOk (wDB ?w)" using ok(1) by (auto simp: engineOk_def intro: dbOk_table)
  then obtain w' where run: "registerNextJob True exLater ''mail'' ?w = Done () w'"
    using registerNextJob_refill [OF _ ok(2), of "''mail''" exLater] emptyQueue(2) r registerJobToWorker_due [OF r(2-4)]
    by (auto simp: exStarted_facts(1))
  obtain js where js: "inMemView (wQueue w') ''mail'' = map jID js"
    "mset js = mset (filter (\<lambda>j. jTaskName j = ''mail'' \<and> jStatus j = StatusQueueing) (dbJobs (wDB ?w)))"
    using registerNextJob_refills [OF ok _ _ run] emptyQueue(2) by auto
  have "map jID (filter (\<lambda>j. jTaskName j = ''mail'' \<and> jStatus j = StatusQueueing) (dbJobs (wDB exStarted))) = [''a'', ''b'']" by code_simp
  moreover have "mset (map jID js) = mset (map jID (filter (\<lambda>j. jTaskName j = ''mail'' \<and> jStatus j = StatusQueueing) (dbJobs (wDB exStarted))))"
    unfolding mset_map using js(2) by simp
  ultimately have "mset (map jID js) = {#''a'', ''b''#}" by simp
  then show ?thesis using run js(1) by simp
qed

section \<open>The end of a run\<close>


lemma incrSummary_err [simp]: "dbErr (wDB (incrSummary w t kvs)) = dbErr (wDB w)"
  by (simp add: incrSummary_def)














end
