(* ===== verification/Task_Store.thy ===== *)
theory Task_Store
  imports Task_Example
begin

text \<open>
  What the worker writes can be read back: the header that the handlers see, the texts of
  times, the string literals of the SQL texts and the configurations.  The two implementations of the
  summaries are compared, and the values that leave their literal are shown.
\<close>

section \<open>The header of a job\<close>

definition int64 :: "int \<Rightarrow> bool" where
  "int64 i \<longleftrightarrow> minInt64 \<le> i \<and> i \<le> maxInt64"

text \<open>\<open>GetContextHeader\<close> reads from the header that \<open>execJob\<close> sets exactly the retries, the limit,
  the interval and the progress of the job.\<close>

theorem GetContextHeader_jobHeader:
  assumes "int64 (jRetries j)" "int64 (jMaxRetry j)" "int64 (jCurrentProgress j)" "int64 (jMaxProgress j)"
  shows "GetContextHeader (jobHeader j) = \<lparr>chRetries = jRetries j, chMaxRetries = jMaxRetry j, chInterval = jInterval j,
    chCurrentProgress = jCurrentProgress j, chMaxProgress = jMaxProgress j\<rparr>"
  using assms by (simp add: GetContextHeader_def jobHeader_def headerInt_def headerValue_def int64_def Atoi_Itoa)

theorem GetContextHeader_jobHeader_witness:
  "GetContextHeader (jobHeader (emptyJob\<lparr>jRetries := 2, jMaxRetry := 5, jInterval := ''10s'', jCurrentProgress := - 1\<rparr>)) =
     \<lparr>chRetries = 2, chMaxRetries = 5, chInterval = ''10s'', chCurrentProgress = - 1, chMaxProgress = 0\<rparr>"
  using GetContextHeader_jobHeader [of "emptyJob\<lparr>jRetries := 2, jMaxRetry := 5, jInterval := ''10s'', jCurrentProgress := - 1\<rparr>"]
  by (simp add: int64_def minInt64_def maxInt64_def emptyJob_def)

section \<open>The texts of times\<close>

text \<open>\<open>parseDateString\<close> reads the text that \<open>parseDate\<close> makes of a time as that time.  What a column keeps of
  the text (\<open>TIMESTAMPTZ\<close> and \<open>DATETIME(3)\<close> keep neither its zone nor its nanoseconds) is the database's.\<close>

lemma parseDateString_parseDate:
  assumes "valid_time t" "0 \<le> tYear t" "tYear t \<le> 9999" "zoneOk (tLoc t)" "\<not> IsZero t"
  shows "map_option parseDateString (parseDate t) = Some (t, True)"
proof -
  have f: "ParseRFC3339 (FormatRFC3339 True t) = Some t" using ParseRFC3339_Format [OF assms(1-4), of True] by simp
  have "ParseRFC3339 [] = None" by code_simp
  then have "FormatRFC3339 True t \<noteq> []" using f by auto
  then show ?thesis using assms(5) f by (simp add: parseDate_def ParseTimeToString_def Let_def parseDateString_def)
qed

section \<open>String literals\<close>

text \<open>A literal of standard SQL: it ends at the first quote that is not doubled.\<close>

fun literalBody :: "string \<Rightarrow> (string \<times> string) option" where
  "literalBody [] = None"
| "literalBody [c] = (if c = quoteChar then Some ([], []) else None)"
| "literalBody (c # d # s) =
     (if c \<noteq> quoteChar then map_option (apfst (Cons c)) (literalBody (d # s))
      else if d = quoteChar then map_option (apfst (Cons quoteChar)) (literalBody s)
      else Some ([], d # s))"

definition sqlLiteral :: "string \<Rightarrow> (string \<times> string) option" where
  "sqlLiteral s = (case s of [] \<Rightarrow> None | c # r \<Rightarrow> if c = quoteChar then literalBody r else None)"

lemma literalBody_char: "c \<noteq> quoteChar \<Longrightarrow> literalBody (c # s) = map_option (apfst (Cons c)) (literalBody s)"
  by (cases s) auto

lemma literalBody_replaced:
  assumes "rest = [] \<or> hd rest \<noteq> quoteChar"
  shows "literalBody (queryReplace s @ quoteChar # rest) = Some (s, rest)"
proof (induction s)
  case Nil
  show ?case using assms by (cases rest) (auto simp: queryReplace_def)
next
  case (Cons c s)
  then show ?case by (cases "c = quoteChar") (auto simp: queryReplace_def literalBody_char)
qed

text \<open>In the conditions on the task name, the job id and the status of \<open>toQueryFilter\<close> the value
  is one string literal of SQL whose value is the given string, whatever characters it has.\<close>

theorem renderCond_literal:
  assumes "rest = [] \<or> hd rest \<noteq> quoteChar"
  shows "\<exists>lit. sqlLiteral (lit @ rest) = Some (s, rest) \<and>
    renderCond driver (CTaskName s) = formatColumnName driver [''task_name''] @ ''='' @ lit \<and>
    renderCond driver (CJobID s) = ''id='' @ lit \<and>
    renderCond driver (CStatus s) = formatColumnName driver [''status''] @ ''='' @ lit"
  using literalBody_replaced [OF assms, of s]
  by (intro exI [of _ "sqlQuoted (queryReplace s)"]) (simp add: renderCond_def sqlQuoted_def sqlLiteral_def)

theorem renderCond_literal_witness:
  "\<exists>lit. sqlLiteral (lit @ '' AND'') = Some ([CHR ''x'', quoteChar, CHR ''y''], '' AND'') \<and>
     renderCond ''sqlite3'' (CJobID [CHR ''x'', quoteChar, CHR ''y'']) = ''id='' @ lit"
  using renderCond_literal [of "'' AND''" "[CHR ''x'', quoteChar, CHR ''y'']" "''sqlite3''"] by (auto simp: quoteChar_def)

lemma literalBody_plain:
  assumes "quoteChar \<notin> set a" "b \<noteq> [] \<and> hd b \<noteq> quoteChar"
  shows "literalBody (a @ quoteChar # b) = Some (a, b)"
  using assms(1)
proof (induction a)
  case Nil
  show ?case using assms(2) by (cases b) auto
next
  case (Cons c a)
  then have "c \<noteq> quoteChar" "quoteChar \<notin> set a" by auto
  then show ?case using Cons.IH by (simp add: literalBody_char)
qed

text \<open>In the conditions on lists of statuses and task names, which \<open>toMultiParamQuery\<close> builds, a
  quote inside a value ends its literal: the rest of the value is read as SQL.\<close>

theorem toMultiParamQuery_escapes:
  assumes "quoteChar \<notin> set a" "b \<noteq> [] \<and> hd b \<noteq> quoteChar"
  shows "\<exists>lit. renderCond driver (CStatusIn [a @ [quoteChar] @ b]) = formatColumnName driver [''status''] @ '' IN  ('' @ lit \<and>
    sqlLiteral lit = Some (a, b @ [quoteChar] @ '') '')"
  using literalBody_plain [OF assms(1), of "b @ [quoteChar] @ '') ''"] assms(2)
  by (intro exI [of _ "sqlQuoted (a @ [quoteChar] @ b) @ '') ''"])
    (simp add: renderCond_def toMultiParamQuery_def sqlQuoted_def sqlLiteral_def)

theorem toMultiParamQuery_escapes_witness:
  "\<exists>lit. renderCond ''postgres'' (CStatusIn [''x'' @ [quoteChar] @ '') OR (1=1'']) = ''status IN  ('' @ lit \<and>
     sqlLiteral lit = Some (''x'', '') OR (1=1'' @ [quoteChar] @ '') '')"
  using toMultiParamQuery_escapes [of "''x''" "'') OR (1=1''" "''postgres''"]
  by (auto simp: quoteChar_def formatColumnName_def)

section \<open>Configurations\<close>

lemma find_config:
  fixes cfg :: configuration
  defines "upd \<equiv> \<lambda>c. if cKey c = cKey cfg then c\<lparr>cName := cName cfg, cValue := cValue cfg, cIsActive := cIsActive cfg\<rparr> else c"
  shows "list_ex (\<lambda>c. cKey c = cKey cfg) cs \<Longrightarrow> find (\<lambda>c. cKey c = cKey cfg) (map upd cs) = Some cfg"
    and "k \<noteq> cKey cfg \<Longrightarrow> find (\<lambda>c. cKey c = k) (map upd cs) = find (\<lambda>c. cKey c = k) cs"
    and "\<not> list_ex (\<lambda>c. cKey c = cKey cfg) cs \<Longrightarrow> find (\<lambda>c. cKey c = cKey cfg) (cs @ [cfg]) = Some cfg"
    and "k \<noteq> cKey cfg \<Longrightarrow> find (\<lambda>c. cKey c = k) (cs @ [cfg]) = find (\<lambda>c. cKey c = k) cs"
  by (induction cs) (auto simp: upd_def)

lemma SetConfiguration_get:
  assumes "SetConfiguration db cfg = (None, db')"
  shows "GetConfiguration db' (cKey cfg) = Inr cfg" "k \<noteq> cKey cfg \<Longrightarrow> GetConfiguration db' k = GetConfiguration db k"
proof -
  have err: "dbErr db = None" using assms by (auto simp: SetConfiguration_def split: option.splits)
  then have db': "db' = (if list_ex (\<lambda>c. cKey c = cKey cfg) (dbConfigs db)
      then db\<lparr>dbConfigs := map (\<lambda>c. if cKey c = cKey cfg then c\<lparr>cName := cName cfg, cValue := cValue cfg, cIsActive := cIsActive cfg\<rparr> else c) (dbConfigs db)\<rparr>
      else db\<lparr>dbConfigs := dbConfigs db @ [cfg]\<rparr>)"
    using assms by (simp add: SetConfiguration_def)
  show "GetConfiguration db' (cKey cfg) = Inr cfg"
    using find_config(1,3) [of cfg "dbConfigs db"] err by (simp add: GetConfiguration_def db')
  show "GetConfiguration db' k = GetConfiguration db k" if "k \<noteq> cKey cfg"
    using find_config(2,4) [OF that, of "dbConfigs db"] err by (simp add: GetConfiguration_def db')
qed

lemma SetConfiguration_refused: "SetConfiguration db cfg = (Some e, db') \<Longrightarrow> db' = db"
  by (auto simp: SetConfiguration_def split: option.splits)

text \<open>What the result of a change of a configuration says of the stored ones.\<close>

definition configResult :: "sqlDB \<Rightarrow> configuration \<Rightarrow> jobError option run \<Rightarrow> bool" where
  "configResult db cfg r = (case r of
     Done None w' \<Rightarrow> GetConfiguration (wDB w') (cKey cfg) = Inr cfg \<and>
       (\<forall>k. k = cKey cfg \<or> GetConfiguration (wDB w') k = GetConfiguration db k)
   | Done (Some e) w' \<Rightarrow> wDB w' = db
   | Crash w' \<Rightarrow> wDB w' = db
   | Forever \<Rightarrow> cKey cfg = ''retention_age'')"

lemma configResult_store:
  "configResult (wDB w) cfg (case SetConfiguration (wDB w) cfg of (err, db) \<Rightarrow> Done err (w\<lparr>wDB := db\<rparr>))"
proof -
  obtain err db where s: "SetConfiguration (wDB w) cfg = (err, db)" by force
  then show ?thesis
    using SetConfiguration_get [of "wDB w" cfg db] SetConfiguration_refused [of "wDB w" cfg _ db] by (cases err) (auto simp: configResult_def)
qed

lemma configResult_simps [simp]:
  "configResult (wDB w) cfg (Done (Some e) w)" "wDB w' = wDB w \<Longrightarrow> configResult (wDB w) cfg (Done (Some e) w')"
  "wDB w' = wDB w \<Longrightarrow> configResult (wDB w) cfg (Crash w')" "cKey cfg = ''retention_age'' \<Longrightarrow> configResult db cfg Forever"
  by (simp_all add: configResult_def)

text \<open>C26: a configuration that \<open>setConfiguration\<close> accepts is the one that is read back, and the other
  keys keep theirs; one that it refuses leaves all of them as they were.\<close>

theorem setConfiguration_roundtrip: "configResult (wDB w) cfg (setConfiguration now w cfg)"
  using configResult_store [of w cfg] configResult_store [of "w\<lparr>wRetention := r\<rparr>" cfg for r]
  unfolding setConfiguration_def Let_def
  by (auto split: option.split sum.split prod.split)

text \<open>A value of the retention age that is no cron expression is refused, yet the schedule of the
  running retention task is dropped.\<close>

theorem setConfiguration_drops_schedule:
  assumes "cKey cfg = ''retention_age''" "Parse (cValue cfg) = Inl e" "wRetention w = Some (Some s, ticker)"
  shows "setConfiguration now w cfg = Done (Some (ECron e)) (w\<lparr>wRetention := Some (None, ticker)\<rparr>)"
  using assms by (simp add: setConfiguration_def)

theorem setConfiguration_drops_schedule_witness:
  "\<exists>e s. setConfiguration exTime ((exWorld [])\<lparr>wRetention := Some (Some s, Some 5)\<rparr>)
       \<lparr>cKey = ''retention_age'', cName = ''Retention Age'', cValue = ''soon'', cIsActive = True\<rparr> =
     Done (Some (ECron e)) ((exWorld [])\<lparr>wRetention := Some (None, Some 5)\<rparr>)"
proof -
  have "(case Parse ''soon'' of Inl _ \<Rightarrow> True | _ \<Rightarrow> False)" by code_simp
  then obtain e where e: "Parse ''soon'' = Inl e" by (auto split: sum.splits)
  show ?thesis
    using setConfiguration_drops_schedule [where w = "(exWorld [])\<lparr>wRetention := Some (Some emptyExpression, Some 5)\<rparr>" and e = e and now = exTime
        and cfg = "\<lparr>cKey = ''retention_age'', cName = ''Retention Age'', cValue = ''soon'', cIsActive = True\<rparr>"] e
    by auto
qed

section \<open>The two summaries\<close>

text \<open>C25: whatever sequence of increments the worker makes, for tasks that have a row in the summary
  table, the counters of \<open>inMemSummary\<close> and those of the SQL table stay equal, for every status but
  \<open>HOLD\<close>, which the former does not count.\<close>

theorem summaries_equivalent:
  assumes "\<forall>t\<in>T. sqlCounted db t" "\<forall>(t, kvs)\<in>set ops. t \<in> T \<and> keysOk kvs"
    and "\<forall>t\<in>T. \<forall>st\<in>set inMemTracked. inMemCounter i t st = sqlCounter db t st" and "t \<in> T" "st \<in> set inMemTracked"
  shows "inMemCounter (foldl (\<lambda>i (t, kvs). inMem_IncrementSummary i t kvs) i ops) t st =
    sqlCounter (foldl (\<lambda>db (t, kvs). IncrementSummary driver db t kvs) db ops) t st"
  using assms
proof (induction ops arbitrary: i db)
  case (Cons op ops)
  obtain u kvs where op: "op = (u, kvs)" by (cases op)
  have u: "sqlCounted db u" "keysOk kvs" using Cons.prems(1,2) op by auto
  have tr: "set inMemTracked \<subseteq> set allStatuses" by (auto simp: inMemTracked_def allStatuses_def)
  have "\<forall>t\<in>T. sqlCounted (IncrementSummary driver db u kvs) t" using Cons.prems(1) sqlc.incr_inv [OF u(1) _ u(2)] by blast
  moreover have "\<forall>t\<in>T. \<forall>st\<in>set inMemTracked. inMemCounter (inMem_IncrementSummary i u kvs) t st =
      sqlCounter (IncrementSummary driver db u kvs) t st"
    using Cons.prems(3) memc.incr_counter [OF _ u(2)] sqlc.incr_counter [OF u, of _ driver] tr by auto
  ultimately show ?case using Cons.IH [of "IncrementSummary driver db u kvs" "inMem_IncrementSummary i u kvs"] Cons.prems(2,4,5) by (simp add: op)
qed auto

definition exCounted :: sqlDB where
  "exCounted = (exDB [])\<lparr>dbSummaries := [blankRow\<lparr>rId := ''mail'', rHold := Some 0\<rparr>]\<rparr>"

theorem summaries_equivalent_witness:
  "inMemCounter (foldl (\<lambda>i (t, kvs). inMem_IncrementSummary i t kvs) NewInMemSummary
       [(''mail'', [(''queueing'', 2)]), (''mail'', [(''QUEUEING'', - 1), (''RETRYING'', 1)])]) ''mail'' StatusQueueing =
     sqlCounter (foldl (\<lambda>db (t, kvs). IncrementSummary ''postgres'' db t kvs) exCounted
       [(''mail'', [(''queueing'', 2)]), (''mail'', [(''QUEUEING'', - 1), (''RETRYING'', 1)])]) ''mail'' StatusQueueing"
proof (rule summaries_equivalent [where T = "{''mail''}"])
  show "\<forall>t\<in>{''mail''}. sqlCounted exCounted t" "\<forall>t\<in>{''mail''}. \<forall>st\<in>set inMemTracked. inMemCounter NewInMemSummary t st = sqlCounter exCounted t st"
    by code_simp+
  show "\<forall>(t, kvs)\<in>set [(''mail'', [(''queueing'', 2)]), (''mail'', [(''QUEUEING'', - 1), (''RETRYING'', 1)])]. t \<in> {''mail''} \<and> keysOk kvs"
    by code_simp
qed (simp_all add: inMemTracked_def)

end
