(* ===== verification/Task_Mongo.thy ===== *)
theory Task_Mongo
  imports Task_Summary
begin

text \<open>
  \<open>MongoPersistent\<close> of the task queue worker (\<open>persistent_mongo.go\<close>).  The query documents are built as
  the code builds them; what a query matches is decided by the server and is an argument \<open>matches\<close>,
  with the documented meaning of the operators as hypothesis (\<open>mongoQueries\<close>).  A collection is a list
  of documents; the documents of jobs and summaries are their records, because a missing field is
  decoded as the zero value.  Lookups by one unique key (\<open>_id\<close>, \<open>task_name\<close>, \<open>key\<close>) are searches of the
  list.  A date is stored in UTC with milliseconds.  The creation of the indexes, \<open>Ping\<close> and \<open>Type\<close> are
  left out.
\<close>

section \<open>Documents and queries\<close>

datatype bson = BStr string | BInt int | BTime gotime | BArr "bson list" | BDoc "(string \<times> bson) list"

definition bsonTime :: "gotime \<Rightarrow> gotime" where
  "bsonTime t = Add zeroTime (instant t div 1000000 * 1000000)"

text \<open>The fields of a job and of a summary that queries name.\<close>

definition jobDoc :: "job \<Rightarrow> string \<Rightarrow> bson option" where
  "jobDoc j k =
     (if k = ''_id'' then Some (BStr (jID j)) else if k = ''task_name'' then Some (BStr (jTaskName j))
      else if k = ''status'' then Some (BStr (jStatus j)) else if k = ''max_retry'' then Some (BInt (jMaxRetry j))
      else if k = ''created_at'' then Some (BTime (jCreatedAt j)) else None)"

definition summaryDoc :: "taskSummary \<Rightarrow> string \<Rightarrow> bson option" where
  "summaryDoc s k = (if k = ''task_name'' then Some (BStr (sTaskName s)) else None)"

definition toBsonFilter :: "jobFilter \<Rightarrow> bson" where
  "toBsonFilter f =
     (let pipeQuery =
        (if fTaskName f \<noteq> [] then [BDoc [(''task_name'', BStr (fTaskName f))]]
         else if fTaskNameList f \<noteq> [] then [BDoc [(''task_name'', BDoc [(''$in'', BArr (map BStr (fTaskNameList f)))])]]
         else if fExcludeTaskNameList f \<noteq> [] then [BDoc [(''task_name'', BDoc [(''$nin'', BArr (map BStr (fExcludeTaskNameList f)))])]]
         else []) @
        (case fJobID f of Some i \<Rightarrow> if i \<noteq> [] then [BDoc [(''_id'', BStr i)]] else [] | None \<Rightarrow> []) @
        (case fSearch f of Some s \<Rightarrow> if s \<noteq> [] then [BDoc [(''$text'', BDoc [(''$search'', BStr ([CHR 0x22] @ s @ [CHR 0x22]))])]] else []
         | None \<Rightarrow> []) @
        (if fStatuses f \<noteq> [] then [BDoc [(''status'', BDoc [(''$in'', BArr (map BStr (fStatuses f)))])]] else []) @
        (case fStatus f of Some s \<Rightarrow> [BDoc [(''status'', BStr s)]] | None \<Rightarrow> []) @
        (let (startDate, endDate) = ParseStartEndDate f
         in if \<not> IsZero startDate \<and> \<not> IsZero endDate
            then [BDoc [(''created_at'', BDoc [(''$gte'', BTime (bsonTime startDate)), (''$lte'', BTime (bsonTime endDate))])]] else []) @
        (case fBeforeCreatedAt f of Some t \<Rightarrow> if \<not> IsZero t then [BDoc [(''created_at'', BDoc [(''$lte'', BTime (bsonTime t))])]] else []
         | None \<Rightarrow> []) @
        (case fMaxRetry f of Some n \<Rightarrow> [BDoc [(''max_retry'', BInt n)]] | None \<Rightarrow> [])
      in if length pipeQuery > 0 then BDoc [(''$and'', BArr pipeQuery)] else BDoc [])"

text \<open>What the server matches.\<close>

type_synonym matcher = "bson \<Rightarrow> (string \<Rightarrow> bson option) \<Rightarrow> bool"

definition mongoQueries :: "matcher \<Rightarrow> bool" where
  "mongoQueries matches \<longleftrightarrow>
     (\<forall>d. matches (BDoc []) d) \<and>
     (\<forall>q qs d. matches (BDoc [(''$and'', BArr (q # qs))]) d = list_all (\<lambda>q. matches q d) (q # qs)) \<and>
     (\<forall>k s d. k \<noteq> [] \<and> hd k \<noteq> CHR ''$'' \<longrightarrow> matches (BDoc [(k, BStr s)]) d = (d k = Some (BStr s))) \<and>
     (\<forall>k n d. k \<noteq> [] \<and> hd k \<noteq> CHR ''$'' \<longrightarrow> matches (BDoc [(k, BInt n)]) d = (d k = Some (BInt n))) \<and>
     (\<forall>k vs d. k \<noteq> [] \<and> hd k \<noteq> CHR ''$'' \<longrightarrow>
        matches (BDoc [(k, BDoc [(''$in'', BArr vs)])]) d = (case d k of None \<Rightarrow> False | Some v \<Rightarrow> v \<in> set vs)) \<and>
     (\<forall>k vs d. k \<noteq> [] \<and> hd k \<noteq> CHR ''$'' \<longrightarrow>
        matches (BDoc [(k, BDoc [(''$nin'', BArr vs)])]) d = (case d k of None \<Rightarrow> True | Some v \<Rightarrow> v \<notin> set vs))"

section \<open>Jobs\<close>

record mongoDB =
  mgJobs :: "job list"
  mgSummaries :: "taskSummary list"
  mgConfigs :: "configuration list"
  mgErr :: "string option"

text \<open>\<open>limit(0)\<close> is no limit, a negative limit is its absolute value, a negative skip is an error.\<close>

definition mongoPage :: "int \<Rightarrow> int \<Rightarrow> 'a list \<Rightarrow> 'a list" where
  "mongoPage limit skip xs =
     (if skip < 0 then [] else let xs = drop (nat skip) xs in if limit = 0 then xs else take (nat \<bar>limit\<bar>) xs)"

definition mongoSortKey :: "string \<Rightarrow> job \<Rightarrow> sortKey" where
  "mongoSortKey field j =
     (if field \<in> {''created_at'', ''finished_at'', ''next_running_at'', ''retries'', ''max_retry'', ''task_name'', ''status'', ''_id''}
      then sortKeyOf field j else KInt 0)"

definition mongo_FindAllJob :: "matcher \<Rightarrow> mongoDB \<Rightarrow> jobFilter \<Rightarrow> job list" where
  "mongo_FindAllJob matches db f =
     (if mgErr db \<noteq> None then []
      else
        let srt = (if fSort f = [] then ''-created_at'' else fSort f);
            key = mongoSortKey (TrimPrefixDash srt);
            sel = filter (\<lambda>j. matches (toBsonFilter f) (jobDoc j)) (mgJobs db);
            sel = (if HasPrefix srt ''-'' then orderBy (\<lambda>a b. keyLe (key b) (key a)) sel else orderBy (\<lambda>a b. keyLe (key a) (key b)) sel)
        in map (\<lambda>j. j\<lparr>jRetryHistories := []\<rparr>)
             (if fShowAll f then sel else mongoPage (fLimit f) ((fPage f - 1) * fLimit f) sel))"




text \<open>\<open>AggregateAllTaskJob\<close>: one result for each task name, with the sums of the six statuses.\<close>

definition statusSummary :: "job list \<Rightarrow> string \<Rightarrow> taskSummary" where
  "statusSummary js t =
     (let count = (\<lambda>st. sum_list (map (\<lambda>j. if jStatus j = st then 1 else 0) (filter (\<lambda>j. jTaskName j = t) js)))
      in emptySummary\<lparr>sID := t, sSuccess := count StatusSuccess, sQueueing := count StatusQueueing, sRetrying := count StatusRetrying,
           sFailure := count StatusFailure, sStopped := count StatusStopped, sHold := count StatusHold\<rparr>)"

definition mongo_AggregateAllTaskJob :: "matcher \<Rightarrow> mongoDB \<Rightarrow> jobFilter \<Rightarrow> taskSummary list" where
  "mongo_AggregateAllTaskJob matches db f =
     (if mgErr db \<noteq> None then []
      else let js = filter (\<lambda>j. matches (toBsonFilter f) (jobDoc j)) (mgJobs db)
           in map (statusSummary js) (remdups (map jTaskName js)))"

text \<open>How values are stored: dates with milliseconds, no error stack, and \<open>direct\<close> not at all.\<close>

definition storeHistory :: "retryHistory \<Rightarrow> retryHistory" where
  "storeHistory h = h\<lparr>rhStartAt := bsonTime (rhStartAt h), rhEndAt := bsonTime (rhEndAt h)\<rparr>"

definition mongoDoc :: "job \<Rightarrow> job" where
  "mongoDoc j = j\<lparr>jCreatedAt := bsonTime (jCreatedAt j), jUpdatedAt := bsonTime (jUpdatedAt j), jFinishedAt := bsonTime (jFinishedAt j),
     jNextRunningAt := bsonTime (jNextRunningAt j), jErrorStack := [], jDirect := False, jRetryHistories := map storeHistory (jRetryHistories j)\<rparr>"

definition mongoVal :: "gval \<Rightarrow> gval" where
  "mongoVal v = (case v of VTime t \<Rightarrow> VTime (bsonTime t) | _ \<Rightarrow> v)"

text \<open>\<open>$set\<close>: a key that is no field of a job is ignored when the document is decoded.\<close>

definition setField :: "string \<times> gval \<Rightarrow> job \<Rightarrow> job" where
  "setField kv j =
     (case kv of (k, v) \<Rightarrow>
        if k = ''created_at'' then (case v of VTime t \<Rightarrow> j\<lparr>jCreatedAt := bsonTime t\<rparr> | _ \<Rightarrow> j)
        else case setColumn (k, mongoVal v) j of Some j' \<Rightarrow> j' | None \<Rightarrow> j)"

definition setFields :: "(string \<times> gval) list \<Rightarrow> job \<Rightarrow> job" where
  "setFields kvs j = foldl (\<lambda>j kv. setField kv j) j kvs"

definition pushHistories :: "retryHistory list \<Rightarrow> job \<Rightarrow> job" where
  "pushHistories hs j =
     (if hs = [] then j
      else j\<lparr>jRetryHistories := orderBy (\<lambda>a b. instant (rhStartAt b) \<le> instant (rhStartAt a)) (jRetryHistories j @ map storeHistory hs)\<rparr>)"


text \<open>\<open>UpdateMany\<close> counts the matched documents and those that it changed.\<close>

definition mongo_UpdateJob :: "matcher \<Rightarrow> gotime \<Rightarrow> mongoDB \<Rightarrow> jobFilter \<Rightarrow> (string \<times> gval) list \<Rightarrow> retryHistory list \<Rightarrow>
    int \<times> int \<times> jobError option \<times> mongoDB" where
  "mongo_UpdateJob matches now db f updated hs =
     (case mgErr db of
        Some e \<Rightarrow> (0, 0, Some (EStore e), db)
      | None \<Rightarrow>
          let sel = (\<lambda>j. matches (toBsonFilter f) (jobDoc j));
              upd = (\<lambda>j. pushHistories hs (setFields (AList.update ''updated_at'' (VTime now) updated) j))
          in (int (length (filter sel (mgJobs db))), int (length (filter (\<lambda>j. sel j \<and> upd j \<noteq> j) (mgJobs db))), None,
              db\<lparr>mgJobs := map (\<lambda>j. if sel j then upd j else j) (mgJobs db)\<rparr>))"

definition mongo_CleanJob :: "matcher \<Rightarrow> mongoDB \<Rightarrow> jobFilter \<Rightarrow> int \<times> mongoDB" where
  "mongo_CleanJob matches db f =
     (if mgErr db \<noteq> None then (0, db)
      else
        let sel = (\<lambda>j. matches (toBsonFilter f) (jobDoc j))
        in (int (length (filter sel (mgJobs db))), db\<lparr>mgJobs := filter (\<lambda>j. \<not> sel j) (mgJobs db)\<rparr>))"

definition mongo_DeleteJob :: "mongoDB \<Rightarrow> string \<Rightarrow> job \<times> jobError option \<times> mongoDB" where
  "mongo_DeleteJob db i =
     (case mgErr db of
        Some e \<Rightarrow> (emptyJob, Some (EStore e), db)
      | None \<Rightarrow>
          (case find (\<lambda>j. jID j = i) (mgJobs db) of
             None \<Rightarrow> (emptyJob, Some ENotFound, db)
           | Some j \<Rightarrow> (j, None, db\<lparr>mgJobs := filter (\<lambda>j. jID j \<noteq> i) (mgJobs db)\<rparr>)))"

section \<open>Summaries\<close>

definition mongo_FindAllSummary :: "mongoDB \<Rightarrow> jobFilter \<Rightarrow> taskSummary list" where
  "mongo_FindAllSummary db f =
     (if mgErr db \<noteq> None then []
      else
        let sel = filter (\<lambda>s. if fTaskName f \<noteq> [] then sTaskName s = fTaskName f
                    else if fTaskNameList f \<noteq> [] then sTaskName s \<in> set (fTaskNameList f) else True) (mgSummaries db);
            result = orderBy (\<lambda>a b. strLe (sTaskName a) (sTaskName b)) sel
        in if fStatuses f \<noteq> [] then map (\<lambda>s. ApplyFilterStatus s (fStatuses f)) result else result)"

definition mongo_FindDetailSummary :: "mongoDB \<Rightarrow> string \<Rightarrow> taskSummary" where
  "mongo_FindDetailSummary db taskName =
     (if mgErr db \<noteq> None then emptySummary
      else case find (\<lambda>s. sTaskName s = taskName) (mgSummaries db) of None \<Rightarrow> emptySummary | Some s \<Rightarrow> s)"

text \<open>The loop that makes the keys lower case while it runs over the map: an entry is removed and put
  back under its lower case key, with the value that it has when the loop reaches it.\<close>

definition lowerKey :: "(string \<times> 'v) list \<Rightarrow> string \<Rightarrow> (string \<times> 'v) list" where
  "lowerKey m k =
     (case map_of m k of
        None \<Rightarrow> m
      | Some v \<Rightarrow> (let m = AList.delete k m in if k = [] then m else AList.update (ToLower k) v m))"

definition lowerKeys :: "(string \<times> 'v) list \<Rightarrow> (string \<times> 'v) list" where
  "lowerKeys m = foldl lowerKey m (map fst m)"

definition incField :: "taskSummary \<Rightarrow> string \<times> int \<Rightarrow> taskSummary" where
  "incField s kv =
     (case kv of (k, v) \<Rightarrow>
        if k = ''success'' then s\<lparr>sSuccess := sSuccess s + v\<rparr> else if k = ''queueing'' then s\<lparr>sQueueing := sQueueing s + v\<rparr>
        else if k = ''retrying'' then s\<lparr>sRetrying := sRetrying s + v\<rparr> else if k = ''failure'' then s\<lparr>sFailure := sFailure s + v\<rparr>
        else if k = ''stopped'' then s\<lparr>sStopped := sStopped s + v\<rparr> else if k = ''hold'' then s\<lparr>sHold := sHold s + v\<rparr> else s)"

definition setSummaryField :: "taskSummary \<Rightarrow> string \<times> gval \<Rightarrow> taskSummary" where
  "setSummaryField s kv =
     (case kv of
        (k, VInt v) \<Rightarrow>
          if k = ''success'' then s\<lparr>sSuccess := v\<rparr> else if k = ''queueing'' then s\<lparr>sQueueing := v\<rparr>
          else if k = ''retrying'' then s\<lparr>sRetrying := v\<rparr> else if k = ''failure'' then s\<lparr>sFailure := v\<rparr>
          else if k = ''stopped'' then s\<lparr>sStopped := v\<rparr> else if k = ''hold'' then s\<lparr>sHold := v\<rparr> else s
      | (k, VBool b) \<Rightarrow> if k = ''is_loading'' then s\<lparr>sIsLoading := b\<rparr> else if k = ''is_hold'' then s\<lparr>sIsHold := b\<rparr> else s
      | (k, VStr t) \<Rightarrow> if k = ''loading_message'' then s\<lparr>sLoadingMessage := t\<rparr> else s
      | _ \<Rightarrow> s)"

text \<open>\<open>UpdateOne\<close> with \<open>upsert\<close> on the document of a task.\<close>

definition upsertSummary :: "(taskSummary \<Rightarrow> taskSummary) \<Rightarrow> string \<Rightarrow> mongoDB \<Rightarrow> mongoDB" where
  "upsertSummary upd taskName db =
     (if mgErr db \<noteq> None then db
      else if taskName \<in> sTaskName ` set (mgSummaries db)
      then db\<lparr>mgSummaries := map (\<lambda>s. if sTaskName s = taskName then upd s else s) (mgSummaries db)\<rparr>
      else db\<lparr>mgSummaries := mgSummaries db @ [upd (emptySummary\<lparr>sTaskName := taskName\<rparr>)]\<rparr>)"

definition mongo_IncrementSummary :: "mongoDB \<Rightarrow> string \<Rightarrow> (string \<times> int) list \<Rightarrow> mongoDB" where
  "mongo_IncrementSummary db taskName incr =
     (if incr = [] then db else upsertSummary (\<lambda>s. foldl incField s (lowerKeys incr)) taskName db)"

definition mongo_UpdateSummary :: "mongoDB \<Rightarrow> string \<Rightarrow> (string \<times> gval) list \<Rightarrow> mongoDB" where
  "mongo_UpdateSummary db taskName updated = upsertSummary (\<lambda>s. foldl setSummaryField s (lowerKeys updated)) taskName db"

definition mongo_DeleteAllSummary :: "matcher \<Rightarrow> mongoDB \<Rightarrow> jobFilter \<Rightarrow> mongoDB" where
  "mongo_DeleteAllSummary matches db f =
     (if mgErr db \<noteq> None then db
      else db\<lparr>mgSummaries := filter (\<lambda>s. \<not> matches (toBsonFilter f) (summaryDoc s)) (mgSummaries db)\<rparr>)"

section \<open>Configurations\<close>

definition mongo_GetAllConfiguration :: "mongoDB \<Rightarrow> jobError + configuration list" where
  "mongo_GetAllConfiguration db = (case mgErr db of Some e \<Rightarrow> Inl (EStore e) | None \<Rightarrow> Inr (mgConfigs db))"

definition mongo_GetConfiguration :: "mongoDB \<Rightarrow> string \<Rightarrow> jobError + configuration" where
  "mongo_GetConfiguration db key =
     (case mgErr db of
        Some e \<Rightarrow> Inl (EStore e)
      | None \<Rightarrow> (case find (\<lambda>c. cKey c = key) (mgConfigs db) of None \<Rightarrow> Inl ENotFound | Some c \<Rightarrow> Inr c))"

definition mongo_SetConfiguration :: "mongoDB \<Rightarrow> configuration \<Rightarrow> jobError option \<times> mongoDB" where
  "mongo_SetConfiguration db cfg =
     (case mgErr db of
        Some e \<Rightarrow> (Some (EStore e), db)
      | None \<Rightarrow>
          (None,
           if cKey cfg \<in> cKey ` set (mgConfigs db)
           then db\<lparr>mgConfigs := map (\<lambda>c. if cKey c = cKey cfg then cfg else c) (mgConfigs db)\<rparr>
           else db\<lparr>mgConfigs := mgConfigs db @ [cfg]\<rparr>))"

section \<open>The counters\<close>

definition mongoCounter :: "mongoDB \<Rightarrow> string \<Rightarrow> string \<Rightarrow> int" where
  "mongoCounter db t st = getCount (ToMapResult (mongo_FindDetailSummary db t)) st"

lemma alist_update_new: "k \<notin> fst ` set m \<Longrightarrow> AList.update k v m = m @ [(k, v)]"
  by (induction m) auto

lemma delete_absent: "k \<notin> fst ` set m \<Longrightarrow> AList.delete k m = m"
  by (induction m) auto

lemma lowerKeys_loop:
  assumes "distinct (map (\<lambda>(k, v). ToUpper k) (kvs @ acc))" "[] \<notin> fst ` set kvs"
  shows "foldl lowerKey (kvs @ acc) (map fst kvs) = acc @ map (\<lambda>(k, v). (ToLower k, v)) kvs"
  using assms
proof (induction kvs arbitrary: acc)
  case (Cons kv kvs)
  obtain k v where kv: "kv = (k, v)" by (cases kv)
  have up: "ToUpper k \<notin> (\<lambda>(k, v). ToUpper k) ` set (kvs @ acc)" using Cons.prems(1) kv by auto
  have absent: "k \<notin> fst ` set (kvs @ acc)" "ToLower k \<notin> fst ` set (kvs @ acc)" using up by (force simp: ToUpper_ToLower)+
  have "lowerKey ((kv # kvs) @ acc) k = (kvs @ acc) @ [(ToLower k, v)]"
    using Cons.prems(2) alist_update_new [OF absent(2)] delete_absent [OF absent(1)] by (auto simp: lowerKey_def kv Let_def)
  moreover have "distinct (map (\<lambda>(k, v). ToUpper k) (kvs @ acc @ [(ToLower k, v)]))"
    using Cons.prems(1) up kv by (auto simp: ToUpper_ToLower)
  ultimately show ?case using Cons.IH [of "acc @ [(ToLower k, v)]"] Cons.prems(2) kv by simp
qed simp

lemma keysOk_nonempty: "keysOk kvs \<Longrightarrow> [] \<notin> fst ` set kvs"
  by (auto simp: keysOk_def list_all_iff allStatuses_def status_defs ToUpper_def)

lemma lowerKeys_keysOk: "keysOk kvs \<Longrightarrow> lowerKeys kvs = map (\<lambda>(k, v). (ToLower k, v)) kvs"
  using lowerKeys_loop [of kvs "[]"] keysOk_nonempty [of kvs] by (simp add: lowerKeys_def keysOk_def)

lemma ToLower_statuses:
  "ToLower StatusRetrying = ''retrying''" "ToLower StatusFailure = ''failure''" "ToLower StatusSuccess = ''success''"
  "ToLower StatusQueueing = ''queueing''" "ToLower StatusStopped = ''stopped''" "ToLower StatusHold = ''hold''"
  by code_simp+

lemma incField_counter:
  assumes "ToUpper k \<in> set allStatuses" "st \<in> set allStatuses"
  shows "getCount (ToMapResult (incField s (ToLower k, v))) st = getCount (ToMapResult s) st + (if ToUpper k = st then v else 0)"
proof -
  have "ToLower k = ToLower (ToUpper k)" by (simp add: ToLower_ToUpper)
  then show ?thesis using assms
    by (auto simp: allStatuses_def incField_def ToLower_statuses ToMapResult_def getCount_def)
qed

lemma incFields_counter:
  assumes "list_all (\<lambda>(k, v). ToUpper k \<in> set allStatuses) kvs" "st \<in> set allStatuses"
  shows "getCount (ToMapResult (foldl incField s (map (\<lambda>(k, v). (ToLower k, v)) kvs))) st = getCount (ToMapResult s) st + incrFor kvs st"
  using assms(1)
proof (induction kvs arbitrary: s)
  case (Cons kv kvs)
  then show ?case using incField_counter [OF _ assms(2), of "fst kv" s "snd kv"] by (cases kv) simp
qed simp

lemma incField_name [simp]: "sTaskName (incField s kv) = sTaskName s"
  by (simp add: incField_def split: prod.split)

lemma incFields_name [simp]: "sTaskName (foldl incField s kvs) = sTaskName s"
  by (induction kvs arbitrary: s) auto

lemma find_append: "find P (xs @ [y]) = (case find P xs of None \<Rightarrow> if P y then Some y else None | Some x \<Rightarrow> Some x)"
  by (induction xs) auto

text \<open>The document of a task after an update that keeps its name.\<close>

lemma upsertSummary_detail:
  assumes "mgErr db = None" "\<And>s. sTaskName (upd s) = sTaskName s"
  shows "mongo_FindDetailSummary (upsertSummary upd t db) t' =
    (if t' \<noteq> t then mongo_FindDetailSummary db t'
     else upd (if t \<in> sTaskName ` set (mgSummaries db) then mongo_FindDetailSummary db t else emptySummary\<lparr>sTaskName := t\<rparr>))"
proof -
  have m: "find (\<lambda>s. sTaskName s = t') (map (\<lambda>s. if sTaskName s = t then upd s else s) ss) =
      map_option (\<lambda>s. if sTaskName s = t then upd s else s) (find (\<lambda>s. sTaskName s = t') ss)" for ss
    by (rule find_map_same) (simp add: assms(2))
  have hit: "find (\<lambda>s. sTaskName s = t') ss = Some s \<Longrightarrow> sTaskName s = t'" for ss s by (auto simp: find_Some_iff)
  have miss: "find (\<lambda>s. sTaskName s = t') ss = None \<longleftrightarrow> t' \<notin> sTaskName ` set ss" for ss by (auto simp: find_None_iff)
  consider "t' \<noteq> t" | "t' = t" "t \<in> sTaskName ` set (mgSummaries db)" | "t' = t" "t \<notin> sTaskName ` set (mgSummaries db)" by blast
  then show ?thesis
  proof cases
    case 1
    then show ?thesis using assms hit [of "mgSummaries db"]
      by (cases "find (\<lambda>s. sTaskName s = t') (mgSummaries db)") (simp_all add: upsertSummary_def mongo_FindDetailSummary_def m find_append)
  next
    case 2
    then obtain x where "find (\<lambda>s. sTaskName s = t') (mgSummaries db) = Some x" "sTaskName x = t'"
      using miss [of "mgSummaries db"] hit [of "mgSummaries db"] by (cases "find (\<lambda>s. sTaskName s = t') (mgSummaries db)") auto
    then show ?thesis using assms 2 m [of "mgSummaries db"] by (simp add: upsertSummary_def mongo_FindDetailSummary_def)
  next
    case 3
    then have "find (\<lambda>s. sTaskName s = t') (mgSummaries db) = None" using miss [of "mgSummaries db"] by simp
    then show ?thesis using assms 3 by (simp add: upsertSummary_def mongo_FindDetailSummary_def find_append)
  qed
qed

interpretation mongoc: job_counters "\<lambda>db t. mgErr db = None" mongoCounter mongo_IncrementSummary allStatuses
proof
  show "mgErr (mongo_IncrementSummary s t kvs) = None" if "mgErr s = None" for s t kvs
    using that by (simp add: mongo_IncrementSummary_def upsertSummary_def)
next
  fix s :: mongoDB and t st t' :: string and kvs
  assume a: "mgErr s = None" "keysOk kvs" "st \<in> set allStatuses"
  have none: "mongo_FindDetailSummary s t = emptySummary" if "t \<notin> sTaskName ` set (mgSummaries s)"
    using that by (auto simp: mongo_FindDetailSummary_def find_Some_iff split: option.split)
  have "getCount (ToMapResult (emptySummary\<lparr>sTaskName := t\<rparr>)) st = getCount (ToMapResult emptySummary) st"
    by (simp add: ToMapResult_def emptySummary_def)
  then show "mongoCounter (mongo_IncrementSummary s t kvs) t' st = mongoCounter s t' st + (if t' = t then incrFor kvs st else 0)"
    using a none incFields_counter [of kvs st] upsertSummary_detail [OF a(1), of "\<lambda>x. foldl incField x (lowerKeys kvs)" t t']
    by (cases "kvs = []") (auto simp: mongoCounter_def mongo_IncrementSummary_def lowerKeys_keysOk keysOk_def)
qed

section \<open>Selecting the same jobs\<close>


lemma matches_simps:
  assumes "mongoQueries matches"
  shows "matches (BDoc []) d" "matches (BDoc [(''$and'', BArr (q # qs))]) d = list_all (\<lambda>q. matches q d) (q # qs)"
    "matches (BDoc [(''task_name'', BStr s)]) (jobDoc j) = (jTaskName j = s)" "matches (BDoc [(''_id'', BStr s)]) (jobDoc j) = (jID j = s)"
    "matches (BDoc [(''status'', BStr s)]) (jobDoc j) = (jStatus j = s)" "matches (BDoc [(''max_retry'', BInt n)]) (jobDoc j) = (jMaxRetry j = n)"
    "matches (BDoc [(''task_name'', BDoc [(''$in'', BArr (map BStr l))])]) (jobDoc j) = (jTaskName j \<in> set l)"
    "matches (BDoc [(''task_name'', BDoc [(''$nin'', BArr (map BStr l))])]) (jobDoc j) = (jTaskName j \<notin> set l)"
    "matches (BDoc [(''status'', BDoc [(''$in'', BArr (map BStr l))])]) (jobDoc j) = (jStatus j \<in> set l)"
  using assms by (auto simp: mongoQueries_def jobDoc_def)


text \<open>The query document of each condition.\<close>

definition bsonCond :: "sqlCond \<Rightarrow> bson" where
  "bsonCond c =
     (case c of
        CTaskName s \<Rightarrow> BDoc [(''task_name'', BStr s)]
      | CTaskIn l \<Rightarrow> BDoc [(''task_name'', BDoc [(''$in'', BArr (map BStr l))])]
      | CTaskNotIn l \<Rightarrow> BDoc [(''task_name'', BDoc [(''$nin'', BArr (map BStr l))])]
      | CJobID s \<Rightarrow> BDoc [(''_id'', BStr s)]
      | CSearch s \<Rightarrow> BDoc [(''$text'', BDoc [(''$search'', BStr ([CHR 0x22] @ s @ [CHR 0x22]))])]
      | CStatusIn l \<Rightarrow> BDoc [(''status'', BDoc [(''$in'', BArr (map BStr l))])]
      | CStatus s \<Rightarrow> BDoc [(''status'', BStr s)]
      | CCreatedBetween a b \<Rightarrow> BDoc [(''created_at'', BDoc [(''$gte'', BTime (bsonTime a)), (''$lte'', BTime (bsonTime b))])]
      | CCreatedBefore t \<Rightarrow> BDoc [(''created_at'', BDoc [(''$lte'', BTime (bsonTime t))])]
      | CMaxRetry n \<Rightarrow> BDoc [(''max_retry'', BInt n)])"

lemma toBsonFilter_conds:
  "toBsonFilter f = (let qs = map bsonCond (queryConditions f) in if length qs > 0 then BDoc [(''$and'', BArr qs)] else BDoc [])"
  unfolding toBsonFilter_def queryConditions_def map_append
  by (simp only: if_distrib [of "map bsonCond"] option.case_distrib [of "map bsonCond"] prod.case_distrib [of "map bsonCond"] Let_def
      list.map bsonCond_def sqlCond.case)



section \<open>The job tables as one store\<close>

text \<open>What both databases keep of a job apart from times and histories.\<close>

definition jobCore :: "job \<Rightarrow> job" where
  "jobCore j = j\<lparr>jCreatedAt := zeroTime, jUpdatedAt := zeroTime, jFinishedAt := zeroTime, jNextRunningAt := zeroTime,
     jErrorStack := [], jDirect := False, jRetryHistories := []\<rparr>"








text \<open>The operations on which the databases agree, on the jobs \<open>js\<close> after the time \<open>c\<close> in milliseconds: filters
  without search and dates, which the databases compare in their own ways; a filter with at least one
  condition for an update or a deletion; known columns; an update later than \<open>c\<close>, because Mongo counts a
  document as affected only when it changes; and the deletion of a job that exists.\<close>

definition milli :: "gotime \<Rightarrow> int" where
  "milli t = instant t div 1000000"






lemma jobCore_fields [simp]:
  "jID (jobCore j) = jID j" "jTaskName (jobCore j) = jTaskName j" "jStatus (jobCore j) = jStatus j" "jMaxRetry (jobCore j) = jMaxRetry j"
  "jobCore (storeJob j) = jobCore j" "jobCore (mongoDoc j) = jobCore j" "jobCore (pushHistories hs j) = jobCore j"
  by (simp_all add: jobCore_def storeJob_def mongoDoc_def pushHistories_def)







lemma jobCore_idem [simp]: "jobCore (jobCore j) = jobCore j"
  by (simp add: jobCore_def)







lemma milli_bsonTime [simp]: "milli (bsonTime t) = milli t"
proof -
  have "valid_time zeroTime" "instant zeroTime = 0" by code_simp+
  then show ?thesis by (simp add: milli_def bsonTime_def instant_Add)
qed






section \<open>Properties\<close>


text \<open>A server for the queries of the worker.\<close>

fun evalBson :: matcher where
  "evalBson (BDoc [(k, v)]) d =
     (if k = ''$and'' then (case v of BArr qs \<Rightarrow> list_all (\<lambda>q. evalBson q d) qs | _ \<Rightarrow> False)
      else case v of
        BDoc [(op, BArr vs)] \<Rightarrow>
          if op = ''$in'' then (case d k of None \<Rightarrow> False | Some x \<Rightarrow> x \<in> set vs)
          else if op = ''$nin'' then (case d k of None \<Rightarrow> True | Some x \<Rightarrow> x \<notin> set vs) else False
      | _ \<Rightarrow> d k = Some v)"
| "evalBson (BDoc []) d = True"
| "evalBson _ d = False"

lemma evalBson_queries: "mongoQueries evalBson"
  by (auto simp: mongoQueries_def split: option.split)

definition exMongo :: "job list \<Rightarrow> mongoDB" where
  "exMongo js = \<lparr>mgJobs = js, mgSummaries = [], mgConfigs = [], mgErr = None\<rparr>"

definition exSql :: "job list \<Rightarrow> sqlDB" where
  "exSql js = \<lparr>dbJobs = js, dbHist = [], dbSummaries = [], dbConfigs = [], dbErr = None, dbLike = (\<lambda>_ _. False)\<rparr>"



text \<open>The deletion of a job that does not exist is an error in Mongo and none in SQL.\<close>

lemma missing_job_diverges:
  assumes "dbErr db = None" "findRow db i = None" "mgErr mg = None" "find (\<lambda>j. jID j = i) (mgJobs mg) = None"
  shows "fst (snd (DeleteJob db i)) = None \<and> fst (snd (mongo_DeleteJob mg i)) = Some ENotFound"
  using assms by (simp add: DeleteJob_def mongo_DeleteJob_def)

text \<open>The two databases differ for a filter without any condition.  In Mongo \<open>CleanJob\<close> deletes and
  \<open>UpdateJob\<close> updates every job of every task; in SQL both change nothing and the update is an error.\<close>

theorem empty_filter_diverges:
  assumes "mongoQueries matches" "queryConditions f = []" "mgErr mg = None"
  shows "mongo_CleanJob matches mg f = (int (length (mgJobs mg)), mg\<lparr>mgJobs := []\<rparr>) \<and>
    fst (mongo_UpdateJob matches now mg f updated hs) = int (length (mgJobs mg)) \<and>
    CleanJob db f = (0, db) \<and> UpdateJob now db f updated hs = (0, 0, Some (EOther ''empty filter''), db)"
proof -
  have "matches (toBsonFilter f) d" for d
    using matches_simps(1) [OF assms(1)] by (simp add: toBsonFilter_conds assms(2))
  then show ?thesis
    using assms(2,3) by (simp add: mongo_CleanJob_def mongo_UpdateJob_def CleanJob_def UpdateJob_def Let_def)
qed

theorem empty_filter_diverges_witness:
  "mongo_CleanJob evalBson (exMongo [emptyJob]) emptyFilter = (1, exMongo []) \<and> CleanJob (exSql [emptyJob]) emptyFilter = (0, exSql [emptyJob])"
proof -
  have "queryConditions emptyFilter = []" by code_simp
  then show ?thesis using empty_filter_diverges [OF evalBson_queries, of emptyFilter "exMongo [emptyJob]"] by (simp add: exMongo_def)
qed

end
