(* ===== verification/Task_Dashboard.thy ===== *)
theory Task_Dashboard
  imports Task_Startup Task_Example
begin

text \<open>
  What the dashboard of the task queue worker shows: the resolvers of \<open>graphql_types.go\<close>, the
  subscribers of \<open>subscribers.go\<close> and the queries and subscriptions of \<open>graphql_resolver.go\<close>.  The
  three maps of clients are association lists in the order in which they are iterated.  A broadcast
  returns the messages it writes to the channels of the clients, in order; a client is taken to read
  them.  An open subscription is a session; it ends with its context, with its age or with a token
  of \<open>closeAllSubscribers\<close>, which any session may take.  The time zone data base, which gives the
  offset of \<open>Asia/Jakarta\<close> at an instant, is the argument \<open>zone\<close>, and the modules of the registered
  tasks are the argument \<open>moduleOf\<close>.
\<close>

section \<open>Resolvers\<close>

record metaTask =
  mtPage :: int
  mtLimit :: int
  mtTotalRecords :: int
  mtTotalPages :: "int option"
  mtIsCloseSession :: bool
  mtTotalClientSubscriber :: int
  mtClientID :: string

definition emptyMetaTask :: metaTask where
  "emptyMetaTask = \<lparr>mtPage = 0, mtLimit = 0, mtTotalRecords = 0, mtTotalPages = Some 0, mtIsCloseSession = False,
     mtTotalClientSubscriber = 0, mtClientID = []\<rparr>"

definition CalculatePage :: "metaTask \<Rightarrow> metaTask" where
  "CalculatePage m = m\<lparr>mtTotalPages := pagesOf (mtTotalRecords m) (mtLimit m)\<rparr>"

record taskList =
  tlMeta :: metaTask
  tlData :: "taskResolver list"

record metaJobList =
  mjPage :: int
  mjLimit :: int
  mjTotalRecords :: int
  mjTotalPages :: "int option"
  mjMessage :: string
  mjIsCloseSession :: bool
  mjIsLoading :: bool
  mjIsFreezeBroadcast :: bool
  mjIsHold :: bool
  mjDetail :: summaryDetail

definition emptyMetaJobList :: metaJobList where
  "emptyMetaJobList = \<lparr>mjPage = 0, mjLimit = 0, mjTotalRecords = 0, mjTotalPages = Some 0, mjMessage = [],
     mjIsCloseSession = False, mjIsLoading = False, mjIsFreezeBroadcast = False, mjIsHold = False,
     mjDetail = ToSummaryDetail emptySummary\<rparr>"

record jobResolver =
  jrID :: string
  jrTaskName :: string
  jrArguments :: string
  jrRetries :: int
  jrMaxRetry :: int
  jrInterval :: string
  jrCreatedAt :: string
  jrFinishedAt :: string
  jrStatus :: string
  jrError :: string
  jrResult :: string
  jrErrorStack :: string
  jrTraceID :: string
  jrRetryHistories :: "retryHistory list"
  jrNextRunningAt :: string
  jrIsCronMode :: bool
  jrCurrentProgress :: int
  jrMaxProgress :: int
  jrIsCloseSession :: bool
  jrPage :: int
  jrTotalHistory :: int
  jrIsShowMoreArgs :: bool
  jrIsShowMoreError :: bool
  jrIsShowMoreResult :: bool

definition emptyJobResolver :: jobResolver where
  "emptyJobResolver = \<lparr>jrID = [], jrTaskName = [], jrArguments = [], jrRetries = 0, jrMaxRetry = 0, jrInterval = [],
     jrCreatedAt = [], jrFinishedAt = [], jrStatus = [], jrError = [], jrResult = [], jrErrorStack = [], jrTraceID = [],
     jrRetryHistories = [], jrNextRunningAt = [], jrIsCronMode = False, jrCurrentProgress = 0, jrMaxProgress = 0,
     jrIsCloseSession = False, jrPage = 0, jrTotalHistory = 0, jrIsShowMoreArgs = False, jrIsShowMoreError = False,
     jrIsShowMoreResult = False\<rparr>"

record jobList =
  jlMeta :: metaJobList
  jlData :: "jobResolver list"

record clientSubscriber =
  csClientID :: string
  csPageName :: string
  csPageFilter :: string

record getAllJobHistoryInput =
  ghPage :: "int option"
  ghLimit :: "int option"
  ghStartDate :: "string option"
  ghEndDate :: "string option"

definition GetAllJobHistory_ToFilter :: "getAllJobHistoryInput \<Rightarrow> jobFilter" where
  "GetAllJobHistory_ToFilter i = emptyFilter\<lparr>fPage := positiveOr 1 (ghPage i), fLimit := positiveOr 10 (ghLimit i),
     fStartDate := PtrToString (ghStartDate i), fEndDate := PtrToString (ghEndDate i)\<rparr>"

text \<open>\<open>Time.In\<close>: the same instant with the fields of another zone.\<close>

definition In :: "(int \<Rightarrow> int) \<Rightarrow> gotime \<Rightarrow> gotime" where
  "In zone t =
     (let off = zone (instant t)
      in Date (tYear t) (tMonth t) (tDay t) (tHour t) (tMinute t) (tSecond t - tLoc t + off) (tNano t) off)"

text \<open>A text cut to at most \<open>maxLength\<close> bytes, and whether it was cut.\<close>

definition cutText :: "int \<Rightarrow> string \<Rightarrow> string \<times> bool" where
  "cutText maxLength s =
     (if maxLength > 0 \<and> int (length s) > maxLength then (take (nat maxLength) s, True) else (s, False))"

text \<open>The histories are converted in the slice that the resolver shares with the job.\<close>

definition ParseFromJob :: "(int \<Rightarrow> int) \<Rightarrow> job \<Rightarrow> int \<Rightarrow> jobResolver" where
  "ParseFromJob zone j maxArgsLength =
     emptyJobResolver\<lparr>jrID := jID j, jrTaskName := jTaskName j,
       jrArguments := fst (cutText maxArgsLength (jArguments j)),
       jrIsShowMoreArgs := snd (cutText maxArgsLength (jArguments j)),
       jrError := (if jStatus j = StatusSuccess then [] else fst (cutText maxArgsLength (jError j))),
       jrIsShowMoreError := snd (cutText maxArgsLength (jError j)),
       jrResult := fst (cutText maxArgsLength (jResult j)),
       jrIsShowMoreResult := snd (cutText maxArgsLength (jResult j)),
       jrRetries := (if jMaxRetry j > 0 \<and> jRetries j > jMaxRetry j then jMaxRetry j else jRetries j),
       jrMaxRetry := jMaxRetry j, jrInterval := jInterval j, jrStatus := jStatus j, jrErrorStack := jErrorStack j,
       jrTraceID := jTraceID j, jrCurrentProgress := jCurrentProgress j, jrMaxProgress := jMaxProgress j,
       jrRetryHistories := map (\<lambda>h. h\<lparr>rhStartAt := In zone (rhStartAt h), rhEndAt := In zone (rhEndAt h)\<rparr>) (jRetryHistories j),
       jrIsCronMode := IsCronMode j,
       jrNextRunningAt := (if jStatus j = StatusQueueing then FormatRFC3339 False (jNextRunningAt j) else []),
       jrCreatedAt := FormatRFC3339 False (In zone (jCreatedAt j)),
       jrFinishedAt := (if IsZero (jFinishedAt j) then [] else FormatRFC3339 False (In zone (jFinishedAt j)))\<rparr>"

text \<open>Whether a filter narrows the list by more than its task and its statuses.\<close>

definition narrows :: "jobFilter \<Rightarrow> bool" where
  "narrows f \<longleftrightarrow> PtrToString (fSearch f) \<noteq> [] \<or> PtrToString (fJobID f) \<noteq> [] \<or> fStartDate f \<noteq> [] \<and> fEndDate f \<noteq> []"

definition listSummary :: "sqlDB \<Rightarrow> jobFilter \<Rightarrow> taskSummary" where
  "listSummary db f =
     (if narrows f then (case AggregateAllTaskJob db f of [] \<Rightarrow> emptySummary | s # _ \<Rightarrow> s)
      else ApplyFilterStatus (FindDetailSummary db (fTaskName f)) (fStatuses f))"

definition JobList_GetAllJob :: "(int \<Rightarrow> int) \<Rightarrow> sqlDB \<Rightarrow> jobFilter \<Rightarrow> jobList" where
  "JobList_GetAllJob zone db f =
     (let s = listSummary db f
      in \<lparr>jlMeta = emptyMetaJobList\<lparr>mjDetail := ToSummaryDetail s, mjTotalRecords := CountTotalJob s, mjIsHold := sIsHold s,
            mjMessage := sLoadingMessage s, mjPage := fPage f, mjLimit := fLimit f,
            mjTotalPages := pagesOf (CountTotalJob s) (fLimit f)\<rparr>,
          jlData = map (\<lambda>j. ParseFromJob zone j 100) (FindAllJob db f)\<rparr>)"

section \<open>Subscribers\<close>

record jobListClient =
  jcSkipBroadcast :: bool
  jcFilter :: jobFilter

datatype page = TaskPage | JobListPage | JobDetailPage

record subscriber =
  clientTaskSubscribers :: "(string \<times> jobFilter) list"
  clientTaskJobListSubscribers :: "(string \<times> jobListClient) list"
  clientJobDetailSubscribers :: "(string \<times> jobFilter) list"
  sessions :: "(page \<times> string) list"

datatype dashboardMessage = MTasks taskList | MJobs jobList | MDetail jobResolver

type_synonym messages = "(string \<times> dashboardMessage) list"

definition initSubscriber :: subscriber where
  "initSubscriber = \<lparr>clientTaskSubscribers = [], clientTaskJobListSubscribers = [], clientJobDetailSubscribers = [], sessions = []\<rparr>"

definition getTotalSubscriber :: "subscriber \<Rightarrow> int" where
  "getTotalSubscriber s = int (length (clientTaskSubscribers s)) + int (length (clientTaskJobListSubscribers s)) +
     int (length (clientJobDetailSubscribers s))"

definition registerNewTaskListSubscriber :: "int \<Rightarrow> subscriber \<Rightarrow> string \<Rightarrow> jobFilter \<Rightarrow> jobError option \<times> subscriber" where
  "registerNewTaskListSubscriber maxClient s clientID f =
     (if getTotalSubscriber s \<ge> maxClient then (Some (EOther ''client limit exceeded, please try again later''), s)
      else (None, s\<lparr>clientTaskSubscribers := AList.update clientID f (clientTaskSubscribers s)\<rparr>))"

definition removeTaskListSubscriber :: "subscriber \<Rightarrow> string \<Rightarrow> subscriber" where
  "removeTaskListSubscriber s clientID = s\<lparr>clientTaskSubscribers := AList.delete clientID (clientTaskSubscribers s)\<rparr>"

definition registerNewJobListSubscriber :: "int \<Rightarrow> subscriber \<Rightarrow> string \<Rightarrow> jobFilter \<Rightarrow> jobError option \<times> subscriber" where
  "registerNewJobListSubscriber maxClient s clientID f =
     (if getTotalSubscriber s \<ge> maxClient then (Some (EOther ''client limit exceeded, please try again later''), s)
      else (None, s\<lparr>clientTaskJobListSubscribers :=
        AList.update clientID \<lparr>jcSkipBroadcast = False, jcFilter = f\<rparr> (clientTaskJobListSubscribers s)\<rparr>))"

definition removeJobListSubscriber :: "subscriber \<Rightarrow> string \<Rightarrow> subscriber" where
  "removeJobListSubscriber s clientID =
     s\<lparr>clientTaskJobListSubscribers := AList.delete clientID (clientTaskJobListSubscribers s)\<rparr>"

definition registerNewJobDetailSubscriber :: "int \<Rightarrow> subscriber \<Rightarrow> string \<Rightarrow> jobFilter \<Rightarrow> jobError option \<times> subscriber" where
  "registerNewJobDetailSubscriber maxClient s clientID f =
     (if getTotalSubscriber s \<ge> maxClient then (Some (EOther ''client limit exceeded, please try again later''), s)
      else (None, s\<lparr>clientJobDetailSubscribers := AList.update clientID f (clientJobDetailSubscribers s)\<rparr>))"

definition removeJobDetailSubscriber :: "subscriber \<Rightarrow> string \<Rightarrow> subscriber" where
  "removeJobDetailSubscriber s clientID =
     s\<lparr>clientJobDetailSubscribers := AList.delete clientID (clientJobDetailSubscribers s)\<rparr>"

section \<open>Broadcasts\<close>

definition sortByModule :: "taskResolver list \<Rightarrow> taskResolver list" where
  "sortByModule = orderBy (\<lambda>a b. strLe (trModuleName a) (trModuleName b))"

definition taskResolvers :: "(string \<rightharpoonup> string) \<Rightarrow> sqlDB \<Rightarrow> taskResolver list" where
  "taskResolvers moduleOf db = sortByModule (map (ToTaskResolver moduleOf) (FindAllSummary db emptyFilter))"

definition broadcastTaskList :: "(string \<rightharpoonup> string) \<Rightarrow> sqlDB \<Rightarrow> subscriber \<Rightarrow> messages" where
  "broadcastTaskList moduleOf db s =
     (let tasks = taskResolvers moduleOf db
      in map (\<lambda>(clientID, f). (clientID, MTasks \<lparr>tlMeta = (CalculatePage (emptyMetaTask\<lparr>mtTotalRecords := int (length tasks),
             mtTotalClientSubscriber := getTotalSubscriber s, mtPage := fPage f, mtLimit := fLimit f\<rparr>))\<lparr>mtClientID := clientID\<rparr>,
           tlData = tasks\<rparr>)) (clientTaskSubscribers s))"

text \<open>What a list client is sent, if anything, and the state it is left in: a loading task and a
  narrowed list freeze it.\<close>

definition listClientStep :: "(int \<Rightarrow> int) \<Rightarrow> sqlDB \<Rightarrow> jobListClient \<Rightarrow> jobListClient \<times> jobList option" where
  "listClientStep zone db c =
     (let f = jcFilter c; summary = FindDetailSummary db (fTaskName f)
      in if fTaskName f \<noteq> [] \<and> sIsLoading summary
         then (c\<lparr>jcSkipBroadcast := True\<rparr>,
           Some \<lparr>jlMeta = emptyMetaJobList\<lparr>mjIsLoading := True, mjMessage := sLoadingMessage summary\<rparr>, jlData = []\<rparr>)
         else if jcSkipBroadcast c then (c, None)
         else let f = f\<lparr>fSort := ''-created_at''\<rparr>; res = JobList_GetAllJob zone db f
              in (\<lparr>jcSkipBroadcast = narrows f, jcFilter = f\<rparr>,
                  Some (res\<lparr>jlMeta := (jlMeta res)\<lparr>mjIsFreezeBroadcast := narrows f\<rparr>\<rparr>)))"

definition broadcastJobListToClient :: "(int \<Rightarrow> int) \<Rightarrow> sqlDB \<Rightarrow> subscriber \<Rightarrow> string \<Rightarrow> subscriber \<times> messages" where
  "broadcastJobListToClient zone db s clientID =
     (case map_of (clientTaskJobListSubscribers s) clientID of
        None \<Rightarrow> (s, [])
      | Some c \<Rightarrow> (case listClientStep zone db c of
          (c', m) \<Rightarrow> (s\<lparr>clientTaskJobListSubscribers := AList.update clientID c' (clientTaskJobListSubscribers s)\<rparr>,
            case m of None \<Rightarrow> [] | Some l \<Rightarrow> [(clientID, MJobs l)])))"

text \<open>A loop over clients, collecting the messages.\<close>

fun forClients :: "('s \<Rightarrow> 'k \<Rightarrow> 's \<times> 'm list) \<Rightarrow> 'k list \<Rightarrow> 's \<Rightarrow> 's \<times> 'm list" where
  "forClients f [] s = (s, [])"
| "forClients f (k # ks) s = (case f s k of (s, ms) \<Rightarrow> (case forClients f ks s of (s, ms') \<Rightarrow> (s, ms @ ms')))"

definition broadcastJobList :: "(int \<Rightarrow> int) \<Rightarrow> sqlDB \<Rightarrow> subscriber \<Rightarrow> subscriber \<times> messages" where
  "broadcastJobList zone db s =
     forClients (broadcastJobListToClient zone db) (map fst (clientTaskJobListSubscribers s)) s"

text \<open>The number of histories that \<open>FindJobByID\<close> stores into its filter.\<close>

definition historyCount :: "sqlDB \<Rightarrow> string \<Rightarrow> int" where
  "historyCount db i = int (length (filter (\<lambda>h. fst h = i) (dbHist db)))"

definition detailResolver :: "(int \<Rightarrow> int) \<Rightarrow> sqlDB \<Rightarrow> string \<Rightarrow> jobFilter \<Rightarrow> int \<Rightarrow> jobError + jobResolver" where
  "detailResolver zone db i f maxLength =
     (case FindJobByID db i (Some f) of
        Inl e \<Rightarrow> Inl e
      | Inr j \<Rightarrow> Inr ((ParseFromJob zone j maxLength)\<lparr>jrPage := fPage f, jrTotalHistory := historyCount db i\<rparr>))"

definition detailClientStep :: "(int \<Rightarrow> int) \<Rightarrow> sqlDB \<Rightarrow> subscriber \<Rightarrow> string \<times> jobFilter \<Rightarrow> subscriber \<times> messages" where
  "detailClientStep zone db s cf =
     (case cf of (clientID, f) \<Rightarrow>
        let i = PtrToString (fJobID f)
        in case detailResolver zone db i f 200 of
             Inl _ \<Rightarrow> (removeJobDetailSubscriber s clientID, [])
           | Inr r \<Rightarrow> (s\<lparr>clientJobDetailSubscribers :=
                 map (\<lambda>(k, g). (k, if k = clientID then f\<lparr>fCount := historyCount db i\<rparr> else g)) (clientJobDetailSubscribers s)\<rparr>,
               [(clientID, MDetail r)]))"

definition broadcastJobDetail :: "(int \<Rightarrow> int) \<Rightarrow> sqlDB \<Rightarrow> subscriber \<Rightarrow> subscriber \<times> messages" where
  "broadcastJobDetail zone db s = forClients (detailClientStep zone db) (clientJobDetailSubscribers s) s"

definition broadcastAllToSubscribers :: "(string \<rightharpoonup> string) \<Rightarrow> (int \<Rightarrow> int) \<Rightarrow> world \<Rightarrow> subscriber \<Rightarrow> subscriber \<times> messages" where
  "broadcastAllToSubscribers moduleOf zone w s =
     (if wCtxDone w then (s, [])
      else case broadcastJobList zone (wDB w) s of
        (s1, m1) \<Rightarrow> (case broadcastJobDetail zone (wDB w) s1 of
          (s2, m2) \<Rightarrow> (s2, broadcastTaskList moduleOf (wDB w) s @ m1 @ m2)))"

text \<open>\<open>broadcastWhenChangeAllJob\<close> of the engine stores the loading flag; this is the rest of it.  The
  messages of the tasks are read by their names.\<close>

definition loadingMessages :: "sqlDB \<Rightarrow> (string \<times> string) list" where
  "loadingMessages db = foldl (\<lambda>m s. AList.update (sTaskName s) (sLoadingMessage s) m) [] (FindAllSummary db emptyFilter)"

definition notifyChangeAllJob :: "(string \<rightharpoonup> string) \<Rightarrow> sqlDB \<Rightarrow> bool \<Rightarrow> subscriber \<Rightarrow> subscriber \<times> messages" where
  "notifyChangeAllJob moduleOf db isLoading s =
     (let tasks = \<lparr>tlMeta = emptyMetaTask\<lparr>mtTotalClientSubscriber := getTotalSubscriber s\<rparr>, tlData = taskResolvers moduleOf db\<rparr>
      in (s\<lparr>clientTaskJobListSubscribers := map (\<lambda>(k, c). (k, c\<lparr>jcSkipBroadcast := isLoading\<rparr>)) (clientTaskJobListSubscribers s)\<rparr>,
          map (\<lambda>(k, f). (k, MTasks tasks)) (clientTaskSubscribers s) @
          map (\<lambda>(k, c). (k, MJobs \<lparr>jlMeta = emptyMetaJobList\<lparr>mjIsLoading := isLoading,
                 mjMessage := (case map_of (loadingMessages db) (fTaskName (jcFilter c)) of None \<Rightarrow> [] | Some m \<Rightarrow> m)\<rparr>, jlData = []\<rparr>))
            (clientTaskJobListSubscribers s)))"

section \<open>Queries\<close>

definition emptyGetAllJobInput :: getAllJobInput where
  "emptyGetAllJobInput = \<lparr>gaTaskName = None, gaPage = None, gaLimit = None, gaSearch = None, gaJobID = None,
     gaStatuses = None, gaStartDate = None, gaEndDate = None\<rparr>"

definition emptyHistoryInput :: getAllJobHistoryInput where
  "emptyHistoryInput = \<lparr>ghPage = None, ghLimit = None, ghStartDate = None, ghEndDate = None\<rparr>"

definition Resolver_GetAllJob :: "(int \<Rightarrow> int) \<Rightarrow> sqlDB \<Rightarrow> getAllJobInput option \<Rightarrow> jobList" where
  "Resolver_GetAllJob zone db i = JobList_GetAllJob zone db (GetAllJobInput_ToFilter (UnwrapPtr emptyGetAllJobInput i))"

definition Resolver_GetDetailJob :: "(int \<Rightarrow> int) \<Rightarrow> sqlDB \<Rightarrow> string \<Rightarrow> getAllJobHistoryInput option \<Rightarrow> jobError + jobResolver" where
  "Resolver_GetDetailJob zone db jobID i =
     detailResolver zone db jobID (GetAllJobHistory_ToFilter (UnwrapPtr emptyHistoryInput i)) (- 1)"

text \<open>A page of the second and third kind replaces the name that an earlier one gave the client.  The
  JSON text of a filter is the argument \<open>render\<close>.\<close>

definition markClient :: "string \<Rightarrow> string option \<Rightarrow> (string \<times> clientSubscriber) list \<Rightarrow> string \<Rightarrow> (string \<times> clientSubscriber) list" where
  "markClient pageName pageFilter m k =
     (let c = (case map_of m k of None \<Rightarrow> \<lparr>csClientID = [], csPageName = [], csPageFilter = []\<rparr> | Some c \<Rightarrow> c)
      in AList.update k (c\<lparr>csClientID := k, csPageName := pageName,
           csPageFilter := (case pageFilter of None \<Rightarrow> csPageFilter c | Some p \<Rightarrow> p)\<rparr>) m)"

definition GetAllActiveSubscriber :: "(jobFilter \<Rightarrow> string) \<Rightarrow> subscriber \<Rightarrow> clientSubscriber list" where
  "GetAllActiveSubscriber render s =
     (let m = foldl (\<lambda>m (k, f). markClient ''Root Dashboard'' None m k) [] (clientTaskSubscribers s);
          m = foldl (\<lambda>m (k, c). markClient ''Job List'' (Some (render (jcFilter c))) m k) m (clientTaskJobListSubscribers s);
          m = foldl (\<lambda>m (k, f). markClient ''Job Detail'' (Some (PtrToString (fJobID f))) m k) m (clientJobDetailSubscribers s)
      in orderBy (\<lambda>a b. strLe (csPageName b) (csPageName a)) (map snd m))"

definition Resolver_GetAllConfiguration :: "sqlDB \<Rightarrow> jobError + configuration list" where
  "Resolver_GetAllConfiguration db = GetAllConfiguration db"

definition Resolver_GetDetailConfiguration :: "sqlDB \<Rightarrow> string \<Rightarrow> jobError + configuration" where
  "Resolver_GetDetailConfiguration db key = GetConfiguration db key"

section \<open>Sessions\<close>

text \<open>Opening a subscription; \<open>clientID\<close> is the websocket key of the request and \<open>limit\<close> the default of
  the maximal number of clients.\<close>

definition openSession :: "page \<Rightarrow> string \<Rightarrow> subscriber \<Rightarrow> subscriber" where
  "openSession p clientID s = s\<lparr>sessions := (p, clientID) # sessions s\<rparr>"

definition ListenTaskDashboard :: "(string \<rightharpoonup> string) \<Rightarrow> int \<Rightarrow> sqlDB \<Rightarrow> int \<Rightarrow> int \<Rightarrow> string option \<Rightarrow> string \<Rightarrow> subscriber \<Rightarrow>
    jobError option \<times> subscriber \<times> messages" where
  "ListenTaskDashboard moduleOf limit db pg lim search clientID s =
     (case registerNewTaskListSubscriber (getMaxClientSubscriber limit db) s clientID
            (emptyFilter\<lparr>fPage := pg, fLimit := lim, fSearch := search\<rparr>) of
        (Some e, s) \<Rightarrow> (Some e, s, [])
      | (None, s) \<Rightarrow> (None, openSession TaskPage clientID s, broadcastTaskList moduleOf db s))"

definition listenFilter :: "getAllJobInput option \<Rightarrow> jobFilter" where
  "listenFilter i =
     (let f = GetAllJobInput_ToFilter (UnwrapPtr emptyGetAllJobInput i)
      in f\<lparr>fPage := (if fPage f \<le> 0 then 1 else fPage f), fLimit := (if fLimit f \<le> 0 \<or> fLimit f > 10 then 10 else fLimit f)\<rparr>)"

definition ListenAllJob :: "(int \<Rightarrow> int) \<Rightarrow> int \<Rightarrow> sqlDB \<Rightarrow> getAllJobInput option \<Rightarrow> string \<Rightarrow> subscriber \<Rightarrow>
    jobError option \<times> subscriber \<times> messages" where
  "ListenAllJob zone limit db i clientID s =
     (case registerNewJobListSubscriber (getMaxClientSubscriber limit db) s clientID (listenFilter i) of
        (Some e, s) \<Rightarrow> (Some e, s, [])
      | (None, s) \<Rightarrow> (None, broadcastJobListToClient zone db (openSession JobListPage clientID s) clientID))"

definition ListenDetailJob :: "(int \<Rightarrow> int) \<Rightarrow> int \<Rightarrow> sqlDB \<Rightarrow> string \<Rightarrow> getAllJobHistoryInput option \<Rightarrow> string \<Rightarrow> subscriber \<Rightarrow>
    jobError option \<times> subscriber \<times> messages" where
  "ListenDetailJob zone limit db jobID i clientID s =
     (if jobID = [] then (Some (EOther ''Job ID cannot empty''), s, [])
      else case FindJobByID db jobID None of
        Inl _ \<Rightarrow> (Some (EOther ''Job not found''), s, [])
      | Inr _ \<Rightarrow>
          (case registerNewJobDetailSubscriber (getMaxClientSubscriber limit db) s clientID
                 ((GetAllJobHistory_ToFilter (UnwrapPtr emptyHistoryInput i))\<lparr>fJobID := Some jobID\<rparr>) of
             (Some e, s) \<Rightarrow> (Some e, s, [])
           | (None, s) \<Rightarrow> (None, broadcastJobDetail zone db (openSession JobDetailPage clientID s))))"

definition closeMessage :: "page \<Rightarrow> dashboardMessage" where
  "closeMessage p =
     (case p of
        TaskPage \<Rightarrow> MTasks \<lparr>tlMeta = emptyMetaTask\<lparr>mtIsCloseSession := True\<rparr>, tlData = []\<rparr>
      | JobListPage \<Rightarrow> MJobs \<lparr>jlMeta = emptyMetaJobList\<lparr>mjIsCloseSession := True\<rparr>, jlData = []\<rparr>
      | JobDetailPage \<Rightarrow> MDetail (emptyJobResolver\<lparr>jrIsCloseSession := True\<rparr>))"

definition removeClient :: "page \<Rightarrow> string \<Rightarrow> subscriber \<Rightarrow> subscriber" where
  "removeClient p clientID s =
     (case p of
        TaskPage \<Rightarrow> removeTaskListSubscriber s clientID
      | JobListPage \<Rightarrow> removeJobListSubscriber s clientID
      | JobDetailPage \<Rightarrow> removeJobDetailSubscriber s clientID)"

text \<open>The end of a session, \<open>told\<close> when it does not end with the context of the client.\<close>

definition endSession :: "(string \<rightharpoonup> string) \<Rightarrow> sqlDB \<Rightarrow> bool \<Rightarrow> page \<times> string \<Rightarrow> subscriber \<Rightarrow> subscriber \<times> messages" where
  "endSession moduleOf db told pc s =
     (case pc of (p, clientID) \<Rightarrow>
        let s = removeClient p clientID (s\<lparr>sessions := remove1 pc (sessions s)\<rparr>)
        in (s, (if told then [(clientID, closeMessage p)] else []) @
               (if p = TaskPage then broadcastTaskList moduleOf db s else [])))"

definition KillClientSubscriber :: "(string \<rightharpoonup> string) \<Rightarrow> sqlDB \<Rightarrow> string \<Rightarrow> subscriber \<Rightarrow> subscriber \<times> messages" where
  "KillClientSubscriber moduleOf db clientID s =
     (let s' = removeJobDetailSubscriber (removeJobListSubscriber (removeTaskListSubscriber s clientID) clientID) clientID
      in (s', (if map_of (clientTaskSubscribers s) clientID \<noteq> None then [(clientID, closeMessage TaskPage)] else []) @
              (if map_of (clientTaskJobListSubscribers s) clientID \<noteq> None then [(clientID, closeMessage JobListPage)] else []) @
              (if map_of (clientJobDetailSubscribers s) clientID \<noteq> None then [(clientID, closeMessage JobDetailPage)] else []) @
              broadcastTaskList moduleOf db s'))"

text \<open>\<open>ClearAllClientSubscriber\<close>: each client still in its map is removed, and a token is sent, which
  the session that \<open>taker\<close> picks receives; with no session open the send waits for ever.  A client that
  a session has removed meanwhile is not met any more.\<close>

definition clientsOf :: "page \<Rightarrow> subscriber \<Rightarrow> string list" where
  "clientsOf p s =
     (case p of
        TaskPage \<Rightarrow> map fst (clientTaskSubscribers s)
      | JobListPage \<Rightarrow> map fst (clientTaskJobListSubscribers s)
      | JobDetailPage \<Rightarrow> map fst (clientJobDetailSubscribers s))"

type_synonym sessionTaker = "(page \<times> string) list \<Rightarrow> page \<times> string"

fun clearClients :: "(string \<rightharpoonup> string) \<Rightarrow> sqlDB \<Rightarrow> sessionTaker \<Rightarrow> page \<Rightarrow> string list \<Rightarrow> subscriber \<times> messages \<Rightarrow>
    (subscriber \<times> messages) option" where
  "clearClients moduleOf db taker p [] sm = Some sm"
| "clearClients moduleOf db taker p (k # ks) (s, ms) =
     (if k \<notin> set (clientsOf p s) then clearClients moduleOf db taker p ks (s, ms)
      else let s1 = removeClient p k s
           in if sessions s1 = [] then None
              else case endSession moduleOf db True (taker (sessions s1)) s1 of
                (s2, ms') \<Rightarrow> clearClients moduleOf db taker p ks (s2, ms @ ms'))"

definition ClearAllClientSubscriber :: "(string \<rightharpoonup> string) \<Rightarrow> sqlDB \<Rightarrow> sessionTaker \<Rightarrow> subscriber \<Rightarrow> (subscriber \<times> messages) option" where
  "ClearAllClientSubscriber moduleOf db taker s =
     Option.bind (clearClients moduleOf db taker TaskPage (clientsOf TaskPage s) (s, [])) (\<lambda>(s, ms).
     Option.bind (clearClients moduleOf db taker JobListPage (clientsOf JobListPage s) (s, ms)) (\<lambda>(s, ms).
     clearClients moduleOf db taker JobDetailPage (clientsOf JobDetailPage s) (s, ms)))"

section \<open>Clients and their sessions\<close>

text \<open>The clients of a map are distinct, each has an open session, and their number is bounded.\<close>

definition dashOk :: "int \<Rightarrow> subscriber \<Rightarrow> bool" where
  "dashOk M s \<longleftrightarrow> (\<forall>p. distinct (clientsOf p s) \<and> (\<forall>k\<in>set (clientsOf p s). (p, k) \<in> set (sessions s))) \<and>
     getTotalSubscriber s \<le> M"

text \<open>One state comes from another by the loss of clients.\<close>

definition losesClients :: "subscriber \<Rightarrow> subscriber \<Rightarrow> bool" where
  "losesClients s s' \<longleftrightarrow> sessions s' = sessions s \<and> (\<forall>p. \<exists>P. clientsOf p s' = filter P (clientsOf p s))"

lemma getTotal_clientsOf:
  "getTotalSubscriber s = int (length (clientsOf TaskPage s)) + int (length (clientsOf JobListPage s)) + int (length (clientsOf JobDetailPage s))"
  by (simp add: getTotalSubscriber_def clientsOf_def)

lemma losesClients_refl [simp, intro]: "losesClients s s"
  unfolding losesClients_def by (auto intro: exI [of _ "\<lambda>_. True"])

lemma losesClients_trans:
  assumes "losesClients s t" "losesClients t u"
  shows "losesClients s u"
  unfolding losesClients_def
proof (intro conjI allI)
  fix p
  obtain P Q where "clientsOf p t = filter P (clientsOf p s)" "clientsOf p u = filter Q (clientsOf p t)"
    using assms unfolding losesClients_def by blast
  then show "\<exists>P. clientsOf p u = filter P (clientsOf p s)" by (auto intro: exI [of _ "\<lambda>x. Q x \<and> P x"])
qed (use assms in \<open>simp add: losesClients_def\<close>)

lemma losesClients_total: "losesClients s s' \<Longrightarrow> getTotalSubscriber s' \<le> getTotalSubscriber s"
  unfolding losesClients_def getTotal_clientsOf by (intro add_mono) (metis length_filter_le of_nat_mono)+

lemma losesClients_ok:
  assumes "losesClients s s'" "dashOk M s"
  shows "dashOk M s'"
proof -
  have "distinct (clientsOf p s') \<and> (\<forall>k\<in>set (clientsOf p s'). (p, k) \<in> set (sessions s'))" for p
  proof -
    obtain P where "clientsOf p s' = filter P (clientsOf p s)" using assms(1) unfolding losesClients_def by blast
    then show ?thesis using assms by (auto simp: dashOk_def losesClients_def)
  qed
  with losesClients_total [OF assms(1)] assms(2) show ?thesis by (auto simp: dashOk_def)
qed

lemma fst_delete: "map fst (AList.delete k xs) = filter (\<lambda>x. x \<noteq> k) (map fst xs)"
  by (induction xs) (auto simp: AList.delete_eq)

lemma fst_update_old: "k \<in> set (map fst xs) \<Longrightarrow> map fst (AList.update k v xs) = map fst xs"
  by (simp add: update_keys)

lemma clientsOf_removeClient [simp]:
  "clientsOf q (removeClient p k s) = (if q = p then filter (\<lambda>x. x \<noteq> k) (clientsOf q s) else clientsOf q s)"
  by (cases p; cases q) (simp_all add: clientsOf_def removeClient_def removeTaskListSubscriber_def
      removeJobListSubscriber_def removeJobDetailSubscriber_def fst_delete)

lemma sessions_removeClient [simp]: "sessions (removeClient p k s) = sessions s"
  by (cases p) (simp_all add: removeClient_def removeTaskListSubscriber_def removeJobListSubscriber_def removeJobDetailSubscriber_def)

lemma losesClients_removeClient: "losesClients s (removeClient p k s)"
  unfolding losesClients_def by (auto intro: exI [of _ "\<lambda>_. True"])

lemma losesClients_removed:
  "losesClients s (removeTaskListSubscriber s k)" "losesClients s (removeJobListSubscriber s k)"
  "losesClients s (removeJobDetailSubscriber s k)"
  using losesClients_removeClient [of s TaskPage k] losesClients_removeClient [of s JobListPage k]
    losesClients_removeClient [of s JobDetailPage k] by (simp_all add: removeClient_def)

lemma forClients_loses:
  assumes "\<And>s k. losesClients s (fst (f s k))"
  shows "losesClients s (fst (forClients f ks s))"
proof (induction ks arbitrary: s)
  case (Cons k ks)
  obtain s1 ms where f: "f s k = (s1, ms)" by force
  obtain s2 ms2 where "forClients f ks s1 = (s2, ms2)" by force
  with Cons.IH [of s1] assms [of s k] f show ?case by (auto intro: losesClients_trans)
qed simp

lemma losesClients_sameKeys: "sessions s' = sessions s \<Longrightarrow> (\<And>p. clientsOf p s' = clientsOf p s) \<Longrightarrow> losesClients s s'"
  unfolding losesClients_def by (auto intro: exI [of _ "\<lambda>_. True"])

lemma broadcastJobListToClient_loses: "losesClients s (fst (broadcastJobListToClient zone db s k))"
proof (cases "map_of (clientTaskJobListSubscribers s) k")
  case (Some c)
  then have "k \<in> set (map fst (clientTaskJobListSubscribers s))" by (metis map_of_eq_None_iff option.distinct(1) set_map)
  with Some show ?thesis
    by (intro losesClients_sameKeys) (auto simp: broadcastJobListToClient_def clientsOf_def fst_update_old
        split: prod.splits option.splits page.splits)
qed (simp add: broadcastJobListToClient_def)

lemma detailClientStep_loses: "losesClients s (fst (detailClientStep zone db s cf))"
proof (cases cf)
  case (Pair k f)
  have "map fst (map (\<lambda>(k, g). (k, h k g)) xs) = map fst xs" for h and xs :: "(string \<times> jobFilter) list"
    by (induction xs) auto
  then have "losesClients s (s\<lparr>clientJobDetailSubscribers := map (\<lambda>(k, g). (k, h k g)) (clientJobDetailSubscribers s)\<rparr>)" for h
    by (intro losesClients_sameKeys) (auto simp: clientsOf_def split: page.splits)
  then show ?thesis
    by (auto simp: Pair detailClientStep_def Let_def losesClients_removed split: sum.splits)
qed

lemma broadcastAll_loses: "losesClients s (fst (broadcastAllToSubscribers moduleOf zone w s))"
proof -
  obtain s1 m1 where 1: "broadcastJobList zone (wDB w) s = (s1, m1)" by force
  obtain s2 m2 where 2: "broadcastJobDetail zone (wDB w) s1 = (s2, m2)" by force
  have "losesClients s s1"
    using forClients_loses [where f = "broadcastJobListToClient zone (wDB w)" and s = s and ks = "map fst (clientTaskJobListSubscribers s)",
        OF broadcastJobListToClient_loses] 1
    by (simp add: broadcastJobList_def)
  moreover have "losesClients s1 s2"
    using forClients_loses [where f = "detailClientStep zone (wDB w)" and s = s1 and ks = "clientJobDetailSubscribers s1",
        OF detailClientStep_loses] 2
    by (simp add: broadcastJobDetail_def)
  ultimately show ?thesis using losesClients_trans by (auto simp: broadcastAllToSubscribers_def 1 2)
qed

lemma notify_loses: "losesClients s (fst (notifyChangeAllJob moduleOf db l s))"
proof (rule losesClients_sameKeys)
  have keys: "map fst (map (\<lambda>(k, c). (k, h c)) xs) = map fst xs" for h and xs :: "(string \<times> jobListClient) list"
    by (induction xs) auto
  show "clientsOf p (fst (notifyChangeAllJob moduleOf db l s)) = clientsOf p s" for p
    unfolding notifyChangeAllJob_def Let_def fst_conv clientsOf_def
    by (cases p) (simp_all add: keys del: map_map)
qed (simp add: notifyChangeAllJob_def Let_def)

lemma KillClientSubscriber_loses: "losesClients s (fst (KillClientSubscriber moduleOf db k s))"
  unfolding KillClientSubscriber_def Let_def fst_conv by (metis losesClients_trans losesClients_removed)

text \<open>Opening and ending a session.\<close>

lemma AList_update_ok: "distinct (map fst xs) \<Longrightarrow> distinct (map fst (AList.update k v xs)) \<and>
    set (map fst (AList.update k v xs)) = insert k (set (map fst xs)) \<and> length (AList.update k v xs) \<le> Suc (length xs)"
  by (induction xs) (auto simp: distinct_update dom_update)

lemma dashOk_register:
  assumes ok: "dashOk M s" and total: "getTotalSubscriber s < M" and ss: "sessions s' = (p, k) # sessions s"
    and new: "clientsOf p s' = map fst (AList.update k v xs)" "clientsOf p s = map fst xs"
    and old: "\<And>q. q \<noteq> p \<Longrightarrow> clientsOf q s' = clientsOf q s"
  shows "dashOk M s'"
proof -
  have "distinct (map fst xs)" using ok new(2) by (metis dashOk_def)
  note u = AList_update_ok [OF this, of k v, folded new]
  have "length (clientsOf p s') \<le> Suc (length (clientsOf p s))" using u new by simp
  then have "getTotalSubscriber s' \<le> getTotalSubscriber s + 1"
    using old [of TaskPage] old [of JobListPage] old [of JobDetailPage] by (cases p) (simp_all add: getTotal_clientsOf)
  moreover have "distinct (clientsOf q s') \<and> (\<forall>k\<in>set (clientsOf q s'). (q, k) \<in> set (sessions s'))" for q
    using ok u old [of q] by (cases "q = p") (auto simp: dashOk_def ss)
  ultimately show ?thesis using total by (auto simp: dashOk_def)
qed

lemma register_ok:
  assumes ok: "dashOk M s" and m: "m \<le> M"
  shows "registerNewTaskListSubscriber m s k f = (None, s1) \<Longrightarrow> dashOk M (openSession TaskPage k s1)"
    "registerNewJobListSubscriber m s k f = (None, s1) \<Longrightarrow> dashOk M (openSession JobListPage k s1)"
    "registerNewJobDetailSubscriber m s k f = (None, s1) \<Longrightarrow> dashOk M (openSession JobDetailPage k s1)"
  by (rule dashOk_register [OF ok, where p = TaskPage and xs = "clientTaskSubscribers s" and v = f],
      use m in \<open>auto simp: registerNewTaskListSubscriber_def openSession_def clientsOf_def split: if_splits page.splits\<close>)
    (rule dashOk_register [OF ok, where p = JobListPage and xs = "clientTaskJobListSubscribers s" and v = "\<lparr>jcSkipBroadcast = False, jcFilter = f\<rparr>"],
      use m in \<open>auto simp: registerNewJobListSubscriber_def openSession_def clientsOf_def split: if_splits page.splits\<close>,
     rule dashOk_register [OF ok, where p = JobDetailPage and xs = "clientJobDetailSubscribers s" and v = f],
      use m in \<open>auto simp: registerNewJobDetailSubscriber_def openSession_def clientsOf_def split: if_splits page.splits\<close>)

lemma endSession_clients:
  "clientsOf q (fst (endSession moduleOf db told (p, k) s)) =
     (if q = p then filter (\<lambda>x. x \<noteq> k) (clientsOf q s) else clientsOf q s)"
  "sessions (fst (endSession moduleOf db told (p, k) s)) = remove1 (p, k) (sessions s)"
proof -
  have "clientsOf q (s\<lparr>sessions := ss\<rparr>) = clientsOf q s" for q ss by (cases q) (simp_all add: clientsOf_def)
  then show "clientsOf q (fst (endSession moduleOf db told (p, k) s)) =
      (if q = p then filter (\<lambda>x. x \<noteq> k) (clientsOf q s) else clientsOf q s)"
    by (simp add: endSession_def Let_def)
qed (simp add: endSession_def Let_def)

lemma endSession_ok:
  assumes "dashOk M s"
  shows "dashOk M (fst (endSession moduleOf db told pc s))"
proof -
  obtain p k where pc: "pc = (p, k)" by force
  let ?s = "fst (endSession moduleOf db told (p, k) s)"
  have "getTotalSubscriber ?s \<le> getTotalSubscriber s"
    unfolding getTotal_clientsOf endSession_clients by (intro add_mono) (auto simp: length_filter_le)
  moreover have "distinct (clientsOf q ?s) \<and> (\<forall>x\<in>set (clientsOf q ?s). (q, x) \<in> set (sessions ?s))" for q
    using assms unfolding endSession_clients by (auto simp: dashOk_def intro: in_set_remove1 [THEN iffD2])
  ultimately show ?thesis using assms by (auto simp: pc dashOk_def)
qed

text \<open>Clearing meets every client and finds a session for each token.\<close>

lemma clearClients_ok:
  assumes "dashOk M s" "\<And>ss. ss \<noteq> [] \<Longrightarrow> taker ss \<in> set ss"
  shows "\<exists>s' ms'. clearClients moduleOf db taker p ks (s, ms) = Some (s', ms') \<and> dashOk M s' \<and>
    (\<forall>q. set (clientsOf q s') \<subseteq> set (clientsOf q s)) \<and> set (clientsOf p s') \<subseteq> set (clientsOf p s) - set ks"
  using assms(1)
proof (induction ks arbitrary: s ms)
  case (Cons k ks)
  show ?case
  proof (cases "k \<in> set (clientsOf p s)")
    case True
    define s1 where "s1 = removeClient p k s"
    have ok1: "dashOk M s1" using losesClients_ok [OF losesClients_removeClient Cons.prems] by (simp add: s1_def)
    have ne: "sessions s1 \<noteq> []" using True Cons.prems by (auto simp: s1_def dashOk_def)
    obtain s2 m2 where e: "endSession moduleOf db True (taker (sessions s1)) s1 = (s2, m2)" by force
    obtain q k' where t: "taker (sessions s1) = (q, k')" by force
    have ok2: "dashOk M s2" using endSession_ok [OF ok1, of moduleOf db True "taker (sessions s1)"] e by simp
    have sub: "set (clientsOf q' s2) \<subseteq> set (clientsOf q' s1)" for q'
      using endSession_clients(1) [of q' moduleOf db True q k' s1] e t by auto
    obtain s' ms' where r: "clearClients moduleOf db taker p ks (s2, ms @ m2) = Some (s', ms')" "dashOk M s'"
      "\<forall>q. set (clientsOf q s') \<subseteq> set (clientsOf q s2)" "set (clientsOf p s') \<subseteq> set (clientsOf p s2) - set ks"
      using Cons.IH [OF ok2, of "ms @ m2"] by blast
    have "clearClients moduleOf db taker p (k # ks) (s, ms) = Some (s', ms')"
      using True ne r(1) e by (simp add: s1_def [symmetric] Let_def)
    moreover have "set (clientsOf q' s') \<subseteq> set (clientsOf q' s)" for q'
    proof -
      have "set (clientsOf q' s1) \<subseteq> set (clientsOf q' s)" by (auto simp: s1_def)
      with r(3) sub [of q'] show ?thesis by (meson subset_trans)
    qed
    moreover have "set (clientsOf p s') \<subseteq> set (clientsOf p s) - set (k # ks)"
    proof -
      have "set (clientsOf p s1) = set (clientsOf p s) - {k}" by (auto simp: s1_def)
      with r(4) sub [of p] show ?thesis by auto
    qed
    ultimately show ?thesis using r(2) by (intro exI conjI allI)
  next
    case False
    with Cons.IH [OF Cons.prems, of ms] show ?thesis by fastforce
  qed
qed simp

lemma ClearAll_ok:
  assumes "dashOk M s" "\<And>ss. ss \<noteq> [] \<Longrightarrow> taker ss \<in> set ss"
  shows "\<exists>s' ms. ClearAllClientSubscriber moduleOf db taker s = Some (s', ms) \<and> dashOk M s' \<and> (\<forall>p. clientsOf p s' = [])"
proof -
  obtain s1 m1 where 1: "clearClients moduleOf db taker TaskPage (clientsOf TaskPage s) (s, []) = Some (s1, m1)" "dashOk M s1"
    "set (clientsOf TaskPage s1) \<subseteq> set (clientsOf TaskPage s) - set (clientsOf TaskPage s)"
    using clearClients_ok [OF assms, of moduleOf db TaskPage "clientsOf TaskPage s" "[]"] by blast
  obtain s2 m2 where 2: "clearClients moduleOf db taker JobListPage (clientsOf JobListPage s1) (s1, m1) = Some (s2, m2)" "dashOk M s2"
    "\<forall>q. set (clientsOf q s2) \<subseteq> set (clientsOf q s1)" "set (clientsOf JobListPage s2) \<subseteq> set (clientsOf JobListPage s1) - set (clientsOf JobListPage s1)"
    using clearClients_ok [OF 1(2) assms(2), of moduleOf db JobListPage "clientsOf JobListPage s1" m1] by blast
  obtain s3 m3 where 3: "clearClients moduleOf db taker JobDetailPage (clientsOf JobDetailPage s2) (s2, m2) = Some (s3, m3)" "dashOk M s3"
    "\<forall>q. set (clientsOf q s3) \<subseteq> set (clientsOf q s2)" "set (clientsOf JobDetailPage s3) \<subseteq> set (clientsOf JobDetailPage s2) - set (clientsOf JobDetailPage s2)"
    using clearClients_ok [OF 2(2) assms(2), of moduleOf db JobDetailPage "clientsOf JobDetailPage s2" m2] by blast
  have e: "set (clientsOf TaskPage s1) = {}" "set (clientsOf JobListPage s2) = {}" "set (clientsOf JobDetailPage s3) = {}"
    using 1(3) 2(4) 3(4) by (simp_all only: Diff_cancel subset_empty)
  have "set (clientsOf p s3) = {}" for p
    using e spec [OF 2(3), of TaskPage] spec [OF 3(3), of TaskPage] spec [OF 3(3), of JobListPage] by (cases p) (simp_all only: subset_empty)
  then have "clientsOf p s3 = []" for p by simp
  with 1(1) 2(1) 3(1,2) show ?thesis by (simp add: ClearAllClientSubscriber_def)
qed

section \<open>The dashboard as a state machine\<close>

inductive dashStep :: "(string \<rightharpoonup> string) \<Rightarrow> (int \<Rightarrow> int) \<Rightarrow> int \<Rightarrow> subscriber \<Rightarrow> subscriber \<Rightarrow> bool" for moduleOf zone M where
  tasks: "getMaxClientSubscriber limit db \<le> M \<Longrightarrow> ListenTaskDashboard moduleOf limit db pg lim search k s = (e, s', ms) \<Longrightarrow>
    dashStep moduleOf zone M s s'"
| jobs: "getMaxClientSubscriber limit db \<le> M \<Longrightarrow> ListenAllJob zone limit db i k s = (e, s', ms) \<Longrightarrow> dashStep moduleOf zone M s s'"
| detail: "getMaxClientSubscriber limit db \<le> M \<Longrightarrow> ListenDetailJob zone limit db jobID h k s = (e, s', ms) \<Longrightarrow> dashStep moduleOf zone M s s'"
| ends: "pc \<in> set (sessions s) \<Longrightarrow> endSession moduleOf db told pc s = (s', ms) \<Longrightarrow> dashStep moduleOf zone M s s'"
| kills: "KillClientSubscriber moduleOf db k s = (s', ms) \<Longrightarrow> dashStep moduleOf zone M s s'"
| clears: "(\<And>ss. ss \<noteq> [] \<Longrightarrow> taker ss \<in> set ss) \<Longrightarrow> ClearAllClientSubscriber moduleOf db taker s = Some (s', ms) \<Longrightarrow>
    dashStep moduleOf zone M s s'"
| broadcasts: "broadcastAllToSubscribers moduleOf zone w s = (s', ms) \<Longrightarrow> dashStep moduleOf zone M s s'"
| notifies: "notifyChangeAllJob moduleOf db l s = (s', ms) \<Longrightarrow> dashStep moduleOf zone M s s'"

lemma dashStep_ok: "dashStep moduleOf zone M s s' \<Longrightarrow> dashOk M s \<Longrightarrow> dashOk M s'"
proof (induction rule: dashStep.induct)
  case (tasks limit db pg lim search k s e s' ms)
  then show ?case
    by (auto simp: ListenTaskDashboard_def registerNewTaskListSubscriber_def split: if_splits
        intro!: register_ok(1) [where m = "getMaxClientSubscriber limit db"])
next
  case (jobs limit db i k s e s' ms)
  obtain e1 s1 where r: "registerNewJobListSubscriber (getMaxClientSubscriber limit db) s k (listenFilter i) = (e1, s1)" by force
  show ?case
  proof (cases e1)
    case None
    with jobs r register_ok(2) [OF jobs.prems jobs.hyps(1), of k "listenFilter i" s1] show ?thesis
      using losesClients_ok [OF broadcastJobListToClient_loses, of M "openSession JobListPage k s1" zone db k]
      by (simp add: ListenAllJob_def)
  qed (use jobs r in \<open>auto simp: ListenAllJob_def registerNewJobListSubscriber_def split: if_splits\<close>)
next
  case (detail limit db jobID h k s e s' ms)
  let ?f = "(GetAllJobHistory_ToFilter (UnwrapPtr emptyHistoryInput h))\<lparr>fJobID := Some jobID\<rparr>"
  obtain e1 s1 where r: "registerNewJobDetailSubscriber (getMaxClientSubscriber limit db) s k ?f = (e1, s1)" by force
  show ?case
  proof (cases e1)
    case None
    then have "dashOk M (openSession JobDetailPage k s1)" using register_ok(3) [OF detail.prems detail.hyps(1), of k ?f s1] r by simp
    from losesClients_ok [OF forClients_loses [OF detailClientStep_loses] this]
    have "dashOk M (fst (broadcastJobDetail zone db (openSession JobDetailPage k s1)))" by (simp add: broadcastJobDetail_def)
    with detail None r show ?thesis by (auto simp: ListenDetailJob_def split: if_splits sum.splits)
  qed (use detail r in \<open>auto simp: ListenDetailJob_def registerNewJobDetailSubscriber_def split: if_splits sum.splits\<close>)
next
  case (ends pc s db told s' ms)
  then show ?case using endSession_ok [of M s moduleOf db told pc] by simp
next
  case (kills db k s s' ms)
  then show ?case using losesClients_ok [OF KillClientSubscriber_loses] by (metis fst_conv)
next
  case (clears taker db s s' ms)
  then show ?case using ClearAll_ok [of M s taker moduleOf db] by auto
next
  case (broadcasts w s s' ms)
  then show ?case using losesClients_ok [OF broadcastAll_loses] by (metis fst_conv)
next
  case (notifies db l s s' ms)
  then show ?case using losesClients_ok [OF notify_loses] by (metis fst_conv)
qed

text \<open>Whatever clients come, go, are killed, cleared or sent messages, one operation after the
  other, the number of clients never exceeds the configured maximum, no client is listed twice on a
  page, each has an open session, and clearing the clients therefore always returns and leaves none.\<close>

theorem subscribers_bounded:
  assumes "(dashStep moduleOf zone M)\<^sup>*\<^sup>* initSubscriber s" "0 \<le> M" "\<And>ss. ss \<noteq> [] \<Longrightarrow> taker ss \<in> set ss"
  shows "getTotalSubscriber s \<le> M \<and>
    (\<forall>p. distinct (clientsOf p s) \<and> (\<forall>k\<in>set (clientsOf p s). (p, k) \<in> set (sessions s))) \<and>
    (\<exists>s' ms. ClearAllClientSubscriber moduleOf db taker s = Some (s', ms) \<and> getTotalSubscriber s' = 0)"
proof -
  have "dashOk M initSubscriber"
    using assms(2) by (simp add: dashOk_def initSubscriber_def getTotalSubscriber_def clientsOf_def split: page.split)
  with assms(1) have ok: "dashOk M s" by (induction rule: rtranclp_induct) (auto intro: dashStep_ok)
  from ClearAll_ok [OF this assms(3), of moduleOf db]
  have "\<exists>s' ms. ClearAllClientSubscriber moduleOf db taker s = Some (s', ms) \<and> getTotalSubscriber s' = 0"
    by (auto simp: getTotal_clientsOf)
  with ok show ?thesis by (simp add: dashOk_def)
qed

definition exModules :: "string \<rightharpoonup> string" where
  "exModules = [''mail'' \<mapsto> ''sender'']"

definition exDashboard :: subscriber where
  "exDashboard = initSubscriber\<lparr>clientTaskSubscribers := [(''a'', emptyFilter\<lparr>fPage := 1, fLimit := 10\<rparr>)], sessions := [(TaskPage, ''a'')]\<rparr>"

theorem subscribers_bounded_witness:
  "getTotalSubscriber exDashboard \<le> 5 \<and>
    (\<forall>p. distinct (clientsOf p exDashboard) \<and> (\<forall>k\<in>set (clientsOf p exDashboard). (p, k) \<in> set (sessions exDashboard))) \<and>
    (\<exists>s' ms. ClearAllClientSubscriber exModules (exDB []) hd exDashboard = Some (s', ms) \<and> getTotalSubscriber s' = 0)"
proof (rule subscribers_bounded [where zone = "\<lambda>_. 25200"])
  have m: "getMaxClientSubscriber 5 (exDB []) \<le> 5" by code_simp
  have "ListenTaskDashboard exModules 5 (exDB []) 1 10 None ''a'' initSubscriber =
      (None, exDashboard, broadcastTaskList exModules (exDB []) (removeClient TaskPage ''b'' (exDashboard\<lparr>sessions := []\<rparr>)))"
    by code_simp
  from dashStep.tasks [OF m this] show "(dashStep exModules (\<lambda>_. 25200) 5)\<^sup>*\<^sup>* initSubscriber exDashboard" by (rule r_into_rtranclp)
qed auto

text \<open>A token of \<open>ClearAllClientSubscriber\<close> may go to the session of the next client, which then is not
  met any more: its own session gets no token and stays open, although its client is removed.\<close>

lemma clear_leaves_session:
  "case ClearAllClientSubscriber exModules (exDB []) hd
       (snd (registerNewTaskListSubscriber 5 (openSession TaskPage ''b'' exDashboard) ''b'' emptyFilter)) of
     Some (s, ms) \<Rightarrow> getTotalSubscriber s = 0 \<and> sessions s = [(TaskPage, ''a'')] \<and> map fst ms = [''b'']
   | None \<Rightarrow> False"
  by code_simp

section \<open>The totals of a list\<close>

lemma ToFilter_conditions:
  assumes "f = GetAllJobInput_ToFilter i" "\<not> narrows f" "fTaskName f \<noteq> []"
  shows "queryConditions f = CTaskName (fTaskName f) # (if fStatuses f = [] then [] else [CStatusIn (fStatuses f)])"
proof -
  have z: "parseOrZero [] = zeroTime" "IsZero zeroTime" by code_simp+
  have "fJobID f = None \<or> fJobID f = Some []" "fSearch f = None \<or> fSearch f = Some []"
    using assms(2) by (auto simp: narrows_def PtrToString_def split: option.splits)
  moreover have "IsZero (parseOrZero (fStartDate f)) \<or> IsZero (parseOrZero (fEndDate f))"
    using assms(2) z by (auto simp: narrows_def)
  moreover have "fStatus f = None" "fBeforeCreatedAt f = None" "fMaxRetry f = None"
    by (simp_all add: assms(1) GetAllJobInput_ToFilter_def emptyFilter_def)
  ultimately show ?thesis using assms(3) by (auto simp: queryConditions_def ParseStartEndDate_def)
qed

lemma map_of_statuses:
  "map_of (foldl (\<lambda>m st. AList.update (ToUpper st) (g (ToUpper st)) m) m sts) k =
     (if k \<in> ToUpper ` set sts then Some (g k) else map_of m k)"
  by (induction sts arbitrary: m) (auto simp: update_conv')

text \<open>The counters that \<open>ApplyFilterStatus\<close> leaves.\<close>

lemma ApplyFilterStatus_count:
  assumes "sts \<noteq> []" "set sts \<subseteq> set allStatuses" "st \<in> set allStatuses"
  shows "getCount (ToMapResult (ApplyFilterStatus s sts)) st = (if st \<in> set sts then getCount (ToMapResult s) st else 0)"
proof -
  have "ToUpper ` set sts = set sts" using assms(2) by (force simp: allStatuses_def image_iff)
  then have "getCount (foldl (\<lambda>m st. AList.update (ToUpper st) (getCount (ToMapResult s) (ToUpper st)) m) [] sts) k =
      (if k \<in> set sts then getCount (ToMapResult s) k else 0)" for k
    by (simp add: getCount_def [of "foldl _ _ _"] map_of_statuses)
  then show ?thesis
    using assms(1,3) by (auto simp: ApplyFilterStatus_def SetValue_def ToMapResult_def getCount_def [of "[_, _, _, _, _, _]"] allStatuses_def)
qed

lemma CountTotalJob_counters:
  "CountTotalJob s = (\<Sum>st\<leftarrow>allStatuses. normalizeCount (getCount (ToMapResult s) st))"
  by (simp add: CountTotalJob_def allStatuses_def ToMapResult_def getCount_def)

lemma countJobs_statuses:
  "(\<Sum>st\<leftarrow>allStatuses. if P st then countJobs js t st else 0) =
     int (length (filter (\<lambda>j. jTaskName j = t \<and> jStatus j \<in> set allStatuses \<and> P (jStatus j)) js))"
proof (induction js)
  case (Cons j js)
  have "(\<Sum>st\<leftarrow>allStatuses. if P st then countJobs (j # js) t st else 0) =
      (\<Sum>st\<leftarrow>allStatuses. if P st \<and> jTaskName j = t \<and> jStatus j = st then 1 else 0) + (\<Sum>st\<leftarrow>allStatuses. if P st then countJobs js t st else 0)"
    by (simp add: allStatuses_def)
  moreover have "(\<Sum>st\<leftarrow>allStatuses. if P st \<and> jTaskName j = t \<and> jStatus j = st then 1 else 0) =
      (if jTaskName j = t \<and> jStatus j \<in> set allStatuses \<and> P (jStatus j) then 1 else (0::int))"
    by (auto simp: allStatuses_def)
  ultimately show ?case using Cons by simp
qed (simp add: allStatuses_def)

lemma countJobs_nonneg [simp]: "normalizeCount (countJobs js t st) = countJobs js t st" "normalizeCount 0 = 0"
  by (simp_all add: normalizeCount_def countJobs_def)

lemma scanSummary_counters:
  assumes "rIsLoading r \<noteq> None" "rIsHold r \<noteq> None" "rHold r \<noteq> None" "st \<in> set allStatuses"
  shows "getCount (ToMapResult (scanSummary r)) st = rowCounter r st"
  using assms by (auto simp: scanSummary_def ToMapResult_def getCount_def rowCounter_def allStatuses_def emptySummary_def)

lemma listSummary_total:
  assumes f: "f = GetAllJobInput_ToFilter i" "\<not> narrows f" "fTaskName f \<noteq> []" "set (fStatuses f) \<subseteq> set allStatuses"
    and db: "dbErr db = None" "summaryRowOf db (fTaskName f) = Some r" "rIsLoading r \<noteq> None" "rIsHold r \<noteq> None" "rHold r \<noteq> None"
    and ag: "agrees sqlCounter allStatuses db (dbJobs db) (fTaskName f)"
    and known: "\<forall>j\<in>set (dbJobs db). jTaskName j = fTaskName f \<longrightarrow> jStatus j \<in> set allStatuses"
  shows "CountTotalJob (listSummary db f) = CountAllJob db f"
proof -
  let ?t = "fTaskName f"
  let ?P = "\<lambda>st. fStatuses f = [] \<or> st \<in> set (fStatuses f)"
  have d: "FindDetailSummary db ?t = (scanSummary r)\<lparr>sID := sTaskName (scanSummary r)\<rparr>"
    using db(1,2) by (simp add: FindDetailSummary_def summaryRowOf_def Let_def)
  have c: "getCount (ToMapResult (FindDetailSummary db ?t)) st = countJobs (dbJobs db) ?t st" if "st \<in> set allStatuses" for st
    using scanSummary_counters [OF db(3-5) that] ag that db(2) by (simp add: d ToMapResult_def agrees_def sqlCounter_def)
  have "getCount (ToMapResult (listSummary db f)) st = (if ?P st then countJobs (dbJobs db) ?t st else 0)"
    if "st \<in> set allStatuses" for st
    using ApplyFilterStatus_count [OF _ f(4) that] c [OF that] f(2) by (cases "fStatuses f = []") (auto simp: listSummary_def ApplyFilterStatus_def)
  then have "CountTotalJob (listSummary db f) = (\<Sum>st\<leftarrow>allStatuses. if ?P st then countJobs (dbJobs db) ?t st else 0)"
    unfolding CountTotalJob_counters by (intro arg_cong [where f = sum_list] map_cong) auto
  also have "\<dots> = int (length (filter (\<lambda>j. jTaskName j = ?t \<and> jStatus j \<in> set allStatuses \<and> ?P (jStatus j)) (dbJobs db)))"
    by (rule countJobs_statuses)
  also have "filter (\<lambda>j. jTaskName j = ?t \<and> jStatus j \<in> set allStatuses \<and> ?P (jStatus j)) (dbJobs db) =
      filter (matchesFilter (dbLike db) f) (dbJobs db)"
    using known ToFilter_conditions [OF f(1-3)] by (intro filter_cong) (auto simp: matchesFilter_def condHolds_def)
  finally show ?thesis using db(1) by (simp add: CountAllJob_def)
qed

lemma FindAllJob_page_nonempty:
  assumes "dbErr db = None" "\<not> fShowAll f" "0 < fLimit f" "1 \<le> fPage f"
  shows "FindAllJob db f \<noteq> [] \<longleftrightarrow> fPage f \<le> ceilDiv (CountAllJob db f) (fLimit f)"
proof -
  have len: "length (selectedJobs db f) = length (filter (matchesFilter (dbLike db) f) (dbJobs db))"
    by (metis mset_selectedJobs size_mset)
  have nn: "0 \<le> (fPage f - 1) * fLimit f" using assms by simp
  have "FindAllJob db f \<noteq> [] \<longleftrightarrow> (fPage f - 1) * fLimit f < int (length (selectedJobs db f))"
    using assms(1-3) nn by (simp add: FindAllJob_def limitOffset_def CalculateOffset_def not_le not_less [symmetric] nat_less_iff)
  then show ?thesis using assms(1) ceilDiv_le [OF assms(3)] by (simp add: CountAllJob_def len)
qed

text \<open>C28: when the counters of a task agree with its jobs, the job list of the dashboard for this task,
  with or without a choice of statuses, reports as its total the number of jobs that the data base
  finds for the filter, and as its pages exactly those that show a job.\<close>

theorem dashboard_totals:
  assumes "f = GetAllJobInput_ToFilter i" "\<not> narrows f" "fTaskName f \<noteq> []" "set (fStatuses f) \<subseteq> set allStatuses"
    and "dbErr db = None" "summaryRowOf db (fTaskName f) = Some r" "rIsLoading r \<noteq> None" "rIsHold r \<noteq> None" "rHold r \<noteq> None"
    and "agrees sqlCounter allStatuses db (dbJobs db) (fTaskName f)"
    and "\<forall>j\<in>set (dbJobs db). jTaskName j = fTaskName f \<longrightarrow> jStatus j \<in> set allStatuses"
  shows "mjTotalRecords (jlMeta (JobList_GetAllJob zone db f)) = CountAllJob db f \<and>
    (\<exists>n. mjTotalPages (jlMeta (JobList_GetAllJob zone db f)) = Some n \<and>
      (\<forall>p\<ge>1. jlData (JobList_GetAllJob zone db (f\<lparr>fPage := p\<rparr>)) \<noteq> [] \<longleftrightarrow> p \<le> n))"
proof (intro conjI exI allI impI)
  note total = listSummary_total [OF assms]
  have lim: "0 < fLimit f" "\<not> fShowAll f"
    by (simp_all add: assms(1) GetAllJobInput_ToFilter_def positiveOr_def emptyFilter_def split: option.split)
  show "mjTotalRecords (jlMeta (JobList_GetAllJob zone db f)) = CountAllJob db f"
    by (simp add: JobList_GetAllJob_def Let_def total emptyMetaJobList_def)
  show "mjTotalPages (jlMeta (JobList_GetAllJob zone db f)) = Some (ceilDiv (CountAllJob db f) (fLimit f))"
    using lim by (simp add: JobList_GetAllJob_def Let_def total emptyMetaJobList_def pagesOf_ceilDiv)
  fix p :: int assume "1 \<le> p"
  have "CountAllJob db (f\<lparr>fPage := p\<rparr>) = CountAllJob db f"
    by (simp add: CountAllJob_def matchesFilter_def [abs_def] queryConditions_def ParseStartEndDate_def)
  with FindAllJob_page_nonempty [OF assms(5), of "f\<lparr>fPage := p\<rparr>"] lim \<open>1 \<le> p\<close>
  show "jlData (JobList_GetAllJob zone db (f\<lparr>fPage := p\<rparr>)) \<noteq> [] \<longleftrightarrow> p \<le> ceilDiv (CountAllJob db f) (fLimit f)"
    by (simp add: JobList_GetAllJob_def Let_def)
qed

definition exListed :: sqlDB where
  "exListed = (exDB [exJob ''1'' StatusQueueing, exJob ''2'' StatusSuccess, exJob ''3'' StatusSuccess])\<lparr>dbSummaries :=
     [\<lparr>rId = ''mail'', rSuccess = 2, rQueueing = 1, rRetrying = 0, rFailure = 0, rStopped = 0, rIsLoading = Some False,
       rIsHold = Some False, rHold = Some 0, rLoadingMessage = []\<rparr>]\<rparr>"

definition exListInput :: getAllJobInput where
  "exListInput = emptyGetAllJobInput\<lparr>gaTaskName := Some ''mail'', gaStatuses := Some [StatusSuccess], gaLimit := Some 1\<rparr>"

theorem dashboard_totals_witness:
  "mjTotalRecords (jlMeta (JobList_GetAllJob (\<lambda>_. 25200) exListed (GetAllJobInput_ToFilter exListInput))) = 2"
proof -
  let ?f = "GetAllJobInput_ToFilter exListInput"
  have "mjTotalRecords (jlMeta (JobList_GetAllJob (\<lambda>_. 25200) exListed ?f)) = CountAllJob exListed ?f \<and>
    (\<exists>n. mjTotalPages (jlMeta (JobList_GetAllJob (\<lambda>_. 25200) exListed ?f)) = Some n \<and>
      (\<forall>p\<ge>1. jlData (JobList_GetAllJob (\<lambda>_. 25200) exListed (?f\<lparr>fPage := p\<rparr>)) \<noteq> [] \<longleftrightarrow> p \<le> n))"
  proof (rule dashboard_totals [where i = exListInput and r = "hd (dbSummaries exListed)"])
    show "\<not> narrows ?f" "fTaskName ?f \<noteq> []" "set (fStatuses ?f) \<subseteq> set allStatuses" by code_simp+
    show "dbErr exListed = None" "summaryRowOf exListed (fTaskName ?f) = Some (hd (dbSummaries exListed))" by code_simp+
    show "rIsLoading (hd (dbSummaries exListed)) \<noteq> None" "rIsHold (hd (dbSummaries exListed)) \<noteq> None"
      "rHold (hd (dbSummaries exListed)) \<noteq> None" by code_simp+
    show "agrees sqlCounter allStatuses exListed (dbJobs exListed) (fTaskName ?f)"
      "\<forall>j\<in>set (dbJobs exListed). jTaskName j = fTaskName ?f \<longrightarrow> jStatus j \<in> set allStatuses" by code_simp+
  qed simp
  moreover have "CountAllJob exListed ?f = 2" by code_simp
  ultimately show ?thesis by simp
qed

section \<open>What a job shows\<close>

lemma instant_In: "valid_time t \<Longrightarrow> instant (In zone t) = instant t"
  by (simp add: In_def Let_def instant_Date valid_time_def) (simp add: instant_def wallSeconds_def)

text \<open>In a list the dashboard shows at most the first 100 bytes of the arguments of a job, says
  exactly when arguments or result are cut, never shows more retries than the maximum, and gives a
  creation time that parses to the stored instant up to the second.\<close>

theorem job_resolver_shows:
  assumes "valid_time (jCreatedAt j)" "0 \<le> tYear (In zone (jCreatedAt j))" "tYear (In zone (jCreatedAt j)) \<le> 9999"
    "zoneOk (zone (instant (jCreatedAt j)))"
  shows "length (jrArguments (ParseFromJob zone j 100)) \<le> 100 \<and>
    take (length (jrArguments (ParseFromJob zone j 100))) (jArguments j) = jrArguments (ParseFromJob zone j 100) \<and>
    (jrIsShowMoreArgs (ParseFromJob zone j 100) \<longleftrightarrow> jrArguments (ParseFromJob zone j 100) \<noteq> jArguments j) \<and>
    (jrIsShowMoreResult (ParseFromJob zone j 100) \<longleftrightarrow> jrResult (ParseFromJob zone j 100) \<noteq> jResult j) \<and>
    (jMaxRetry j > 0 \<longrightarrow> jrRetries (ParseFromJob zone j 100) \<le> jMaxRetry j) \<and>
    (\<exists>t. ParseRFC3339 (jrCreatedAt (ParseFromJob zone j 100)) = Some t \<and>
      0 \<le> instant (jCreatedAt j) - instant t \<and> instant (jCreatedAt j) - instant t < Second)"
proof -
  let ?t = "In zone (jCreatedAt j)"
  have v: "valid_time ?t" by (simp add: In_def Let_def valid_Date)
  have l: "tLoc ?t = zone (instant (jCreatedAt j))" by (simp add: In_def Date_def Let_def split: prod.split)
  have "ParseRFC3339 (FormatRFC3339 False ?t) = Some (?t\<lparr>tNano := 0\<rparr>)"
    using ParseRFC3339_Format [OF v assms(2,3), of False] assms(4) l by simp
  moreover have "instant ?t - instant (?t\<lparr>tNano := 0\<rparr>) = tNano ?t" by (simp add: instant_def wallSeconds_def)
  ultimately show ?thesis
    using v instant_In [OF assms(1), of zone]
    by (auto simp: ParseFromJob_def emptyJobResolver_def cutText_def valid_time_def Second_def min_def)
qed

theorem job_resolver_shows_witness:
  "jrIsShowMoreArgs (ParseFromJob (\<lambda>_. 25200) ((exJob ''1'' StatusFailure)\<lparr>jArguments := replicate 120 CHR ''x''\<rparr>) 100) \<and>
   (\<exists>t. ParseRFC3339 (jrCreatedAt (ParseFromJob (\<lambda>_. 25200) ((exJob ''1'' StatusFailure)\<lparr>jArguments := replicate 120 CHR ''x''\<rparr>) 100)) = Some t)"
proof -
  let ?j = "(exJob ''1'' StatusFailure)\<lparr>jArguments := replicate 120 CHR ''x''\<rparr>"
  have "valid_time (jCreatedAt ?j)" "0 \<le> tYear (In (\<lambda>_. 25200) (jCreatedAt ?j))" "tYear (In (\<lambda>_. 25200) (jCreatedAt ?j)) \<le> 9999"
    "zoneOk ((\<lambda>_. 25200) (instant (jCreatedAt ?j)))" by code_simp+
  from job_resolver_shows [OF this] have "length (jrArguments (ParseFromJob (\<lambda>_. 25200) ?j 100)) \<le> 100"
    "jrIsShowMoreArgs (ParseFromJob (\<lambda>_. 25200) ?j 100) \<longleftrightarrow> jrArguments (ParseFromJob (\<lambda>_. 25200) ?j 100) \<noteq> jArguments ?j"
    "\<exists>t. ParseRFC3339 (jrCreatedAt (ParseFromJob (\<lambda>_. 25200) ?j 100)) = Some t" by blast+
  then show ?thesis by auto
qed

text \<open>A succeeded job with a long error of an earlier run shows no error and says that there is more.\<close>

lemma success_shows_more_error:
  "jStatus j = StatusSuccess \<Longrightarrow> int (length (jError j)) > n \<Longrightarrow> 0 < n \<Longrightarrow>
   jrError (ParseFromJob zone j n) = [] \<and> jrIsShowMoreError (ParseFromJob zone j n)"
  by (simp add: ParseFromJob_def emptyJobResolver_def cutText_def)

end
