(* ===== verification/Worker_Base.thy ===== *)
theory Worker_Base
  imports Candi_Helper "HOL-Library.Multiset"
begin

text \<open>
  What the workers of candi share: the event context that a handler gets
  (\<open>src/candishared/event_context.go\<close>), the handler groups (\<open>src/codebase/factory/types/worker_type.go\<close>),
  the loop that runs the functions of a handler, and the pool of event contexts.  A handler function
  is a function of the event context; a panic is one of its outcomes.  The locale \<open>goroutine_pool\<close>
  states how a worker may use a semaphore and its goroutines, and bounds the number of goroutines.
\<close>

section \<open>Event contexts\<close>

text \<open>A context is its chain of values, \<open>None\<close> for nil; a header is a map; a buffer is its unread bytes.\<close>

record eventContext =
  ecCtx :: "(string \<times> gval) list option"
  ecWorkerType :: string
  ecHandlerRoute :: string
  ecHeader :: "string \<rightharpoonup> string"
  ecKey :: string
  ecErr :: "string option"
  ecValue :: "gval option"
  ecMessageBuff :: string
  ecResultBuff :: "string option"

definition NewEventContext :: "string \<Rightarrow> eventContext" where
  "NewEventContext msgBuff =
     \<lparr>ecCtx = None, ecWorkerType = [], ecHandlerRoute = [], ecHeader = Map.empty, ecKey = [], ecErr = None, ecValue = None,
      ecMessageBuff = [], ecResultBuff = None\<rparr>"

definition NewEventContextWithResult :: "string \<Rightarrow> string \<Rightarrow> eventContext" where
  "NewEventContextWithResult msgBuff resBuff = (NewEventContext msgBuff)\<lparr>ecResultBuff := Some []\<rparr>"

definition ResetContext :: "eventContext \<Rightarrow> eventContext" where
  "ResetContext e =
     e\<lparr>ecMessageBuff := [], ecResultBuff := map_option (\<lambda>_. []) (ecResultBuff e), ecCtx := None, ecWorkerType := [],
       ecHeader := Map.empty, ecHandlerRoute := [], ecKey := [], ecErr := None\<rparr>"

definition SetContext :: "(string \<times> gval) list option \<Rightarrow> eventContext \<Rightarrow> eventContext" where
  "SetContext ctx e = e\<lparr>ecCtx := ctx\<rparr>"

definition SetContextWithValue :: "string \<Rightarrow> gval \<Rightarrow> eventContext \<Rightarrow> eventContext" where
  "SetContextWithValue key value e =
     (let ctx = (case ecCtx e of None \<Rightarrow> [] | Some ctx \<Rightarrow> ctx) in e\<lparr>ecCtx := Some ((key, value) # ctx)\<rparr>)"

definition SetWorkerType :: "string \<Rightarrow> eventContext \<Rightarrow> eventContext" where
  "SetWorkerType w e = e\<lparr>ecWorkerType := w\<rparr>"

definition SetHandlerRoute :: "string \<Rightarrow> eventContext \<Rightarrow> eventContext" where
  "SetHandlerRoute h e = e\<lparr>ecHandlerRoute := h\<rparr>"

definition SetHeader :: "(string \<rightharpoonup> string) \<Rightarrow> eventContext \<Rightarrow> eventContext" where
  "SetHeader header e = e\<lparr>ecHeader := header\<rparr>"

definition SetKey :: "string \<Rightarrow> eventContext \<Rightarrow> eventContext" where
  "SetKey key e = e\<lparr>ecKey := key\<rparr>"

definition SetError :: "string option \<Rightarrow> eventContext \<Rightarrow> eventContext" where
  "SetError err e = e\<lparr>ecErr := err\<rparr>"

text \<open>\<open>Read\<close> of at most \<open>n\<close> bytes; \<open>True\<close> is \<open>io.EOF\<close>.\<close>

definition ReadContext :: "nat \<Rightarrow> eventContext \<Rightarrow> (string \<times> bool) \<times> eventContext" where
  "ReadContext n e =
     (if ecMessageBuff e = [] then (([], n \<noteq> 0), e)
      else ((take n (ecMessageBuff e), False), e\<lparr>ecMessageBuff := drop n (ecMessageBuff e)\<rparr>))"

definition WriteContext :: "string \<Rightarrow> eventContext \<Rightarrow> eventContext" where
  "WriteContext p e = e\<lparr>ecMessageBuff := ecMessageBuff e @ p\<rparr>"

definition WriteResult :: "string \<Rightarrow> eventContext \<Rightarrow> (string option) \<times> eventContext" where
  "WriteResult p e =
     (case ecResultBuff e of
        None \<Rightarrow> (Some ''result buff is nil'', e)
      | Some b \<Rightarrow> (None, e\<lparr>ecResultBuff := Some (b @ p)\<rparr>))"

definition SetContextValue :: "gval \<Rightarrow> eventContext \<Rightarrow> eventContext" where
  "SetContextValue val e = e\<lparr>ecValue := Some val\<rparr>"

lemmas setters = SetContext_def SetWorkerType_def SetHandlerRoute_def SetHeader_def SetKey_def SetError_def WriteContext_def

section \<open>Handlers\<close>

datatype outcome = HOk | HErr string | HPanic string

type_synonym workerFunc = "eventContext \<Rightarrow> outcome \<times> eventContext"

record workerHandler =
  whPattern :: string
  whHandlerFuncs :: "workerFunc list"
  whDisableTrace :: bool
  whAutoACK :: bool
  whConfigs :: "string \<rightharpoonup> gval"

type_synonym handlerOption = "workerHandler \<Rightarrow> workerHandler"

definition groupAdd :: "string \<Rightarrow> workerFunc \<Rightarrow> handlerOption list \<Rightarrow> workerHandler list \<Rightarrow> workerHandler list" where
  "groupAdd patternRoute mainHandlerFunc opts handlers =
     (let h = \<lparr>whPattern = patternRoute, whHandlerFuncs = [mainHandlerFunc], whDisableTrace = False, whAutoACK = True, whConfigs = Map.empty\<rparr>
      in handlers @ [foldl (\<lambda>h opt. opt h) h opts])"

definition AddMultiRoute :: "string list \<Rightarrow> workerFunc \<Rightarrow> handlerOption list \<Rightarrow> workerHandler list \<Rightarrow> workerHandler list" where
  "AddMultiRoute patternRoutes mainHandlerFunc opts handlers =
     foldl (\<lambda>hs route. if length route = 0 then hs else groupAdd route mainHandlerFunc opts hs) handlers patternRoutes"

definition WorkerHandlerOptionDisableTrace :: handlerOption where
  "WorkerHandlerOptionDisableTrace wh = wh\<lparr>whDisableTrace := True\<rparr>"

definition WorkerHandlerOptionAutoACK :: "bool \<Rightarrow> handlerOption" where
  "WorkerHandlerOptionAutoACK auto wh = wh\<lparr>whAutoACK := auto\<rparr>"

definition WorkerHandlerOptionAddConfig :: "string \<Rightarrow> gval \<Rightarrow> handlerOption" where
  "WorkerHandlerOptionAddConfig key value wh = wh\<lparr>whConfigs := (whConfigs wh)(key \<mapsto> value)\<rparr>"

definition WorkerHandlerOptionAddHandlers :: "workerFunc list \<Rightarrow> handlerOption" where
  "WorkerHandlerOptionAddHandlers handlerFuncs wh = wh\<lparr>whHandlerFuncs := whHandlerFuncs wh @ handlerFuncs\<rparr>"

text \<open>The loop over the functions of a handler, the same in every worker.  \<open>err\<close> is the variable that
  every call assigns; a panic ends the loop and is recovered into it.\<close>

fun runHandlerFuncs :: "workerFunc list \<Rightarrow> eventContext \<Rightarrow> string option \<Rightarrow> string option \<times> eventContext" where
  "runHandlerFuncs [] e err = (err, e)"
| "runHandlerFuncs (f # fs) e err =
     (case f e of
        (HOk, e') \<Rightarrow> runHandlerFuncs fs e' None
      | (HErr x, e') \<Rightarrow> runHandlerFuncs fs (SetError (Some x) e') (Some x)
      | (HPanic x, e') \<Rightarrow> (Some x, e'))"

section \<open>The pool of event contexts\<close>

text \<open>\<open>sync.Pool\<close> may drop what it keeps: \<open>keep\<close> says whether it still has the last context.\<close>

definition poolGet :: "bool \<Rightarrow> eventContext list \<Rightarrow> eventContext \<times> eventContext list" where
  "poolGet keep pool =
     (case pool of [] \<Rightarrow> (NewEventContext [], []) | e # es \<Rightarrow> if keep then (e, es) else (NewEventContext [], es))"

definition releaseMessagePool :: "eventContext \<Rightarrow> eventContext list \<Rightarrow> eventContext list" where
  "releaseMessagePool e pool = ResetContext e # pool"

text \<open>Every field of a pooled context but the value is blank.\<close>

definition blankContext :: "eventContext \<Rightarrow> bool" where
  "blankContext e \<longleftrightarrow> e = (NewEventContext [])\<lparr>ecValue := ecValue e, ecResultBuff := ecResultBuff e\<rparr> \<and>
     (ecResultBuff e = None \<or> ecResultBuff e = Some [])"

lemma blank_Reset: "blankContext (ResetContext e)"
  by (cases e) (auto simp: blankContext_def ResetContext_def NewEventContext_def map_option_case split: option.split)

lemma blank_New [simp]: "blankContext (NewEventContext b)"
  by (simp add: blankContext_def NewEventContext_def)

lemma poolGet_blank: "list_all blankContext pool \<Longrightarrow> list_all blankContext (snd (poolGet keep pool)) \<and> blankContext (fst (poolGet keep pool))"
  by (auto simp: poolGet_def split: list.split)

lemma release_blank: "list_all blankContext pool \<Longrightarrow> list_all blankContext (releaseMessagePool e pool)"
  by (simp add: releaseMessagePool_def blank_Reset)

section \<open>Bounded goroutines\<close>

text \<open>A semaphore for each key, the keys of the running goroutines, and the steps of a worker: a step
  starts a goroutine after a place was free, ends one, takes a place that stays taken, or touches
  neither.\<close>

datatype 'k poolMove = Start 'k | Finish 'k | Leak 'k | Keep

fun poolMoves :: "('k \<Rightarrow> nat) \<Rightarrow> 'k poolMove \<Rightarrow> ('k \<Rightarrow> nat) \<times> 'k multiset \<Rightarrow> ('k \<Rightarrow> nat) \<times> 'k multiset \<Rightarrow> bool" where
  "poolMoves cap (Start k) (sem, runs) (sem', runs') \<longleftrightarrow> sem k < cap k \<and> sem' = sem(k := sem k + 1) \<and> runs' = add_mset k runs"
| "poolMoves cap (Finish k) (sem, runs) (sem', runs') \<longleftrightarrow> k \<in># runs \<and> sem' = sem(k := sem k - 1) \<and> runs' = runs - {#k#}"
| "poolMoves cap (Leak k) (sem, runs) (sem', runs') \<longleftrightarrow> sem k < cap k \<and> sem' = sem(k := sem k + 1) \<and> runs' = runs"
| "poolMoves cap Keep (sem, runs) (sem', runs') \<longleftrightarrow> sem' = sem \<and> runs' = runs"

locale goroutine_pool =
  fixes cap :: "'s \<Rightarrow> 'k \<Rightarrow> nat"
    and sem :: "'s \<Rightarrow> 'k \<Rightarrow> nat"
    and runs :: "'s \<Rightarrow> 'k multiset"
    and inv :: "'s \<Rightarrow> bool"
    and init :: "'s \<Rightarrow> bool"
    and step :: "'s \<Rightarrow> 's \<Rightarrow> bool"
  assumes init_empty: "init s \<Longrightarrow> sem s = (\<lambda>_. 0) \<and> runs s = {#}"
    and init_inv: "init s \<Longrightarrow> inv s"
    and step_inv: "step s s' \<Longrightarrow> inv s \<Longrightarrow> inv s'"
    and step_cap: "step s s' \<Longrightarrow> inv s \<Longrightarrow> cap s' = cap s"
    and step_move: "step s s' \<Longrightarrow> inv s \<Longrightarrow> \<exists>m. poolMoves (cap s) m (sem s, runs s) (sem s', runs s')"
begin

definition counted :: "'s \<Rightarrow> bool" where
  "counted s \<longleftrightarrow> inv s \<and> (\<forall>k. count (runs s) k \<le> sem s k \<and> sem s k \<le> cap s k)"

lemma step_counted:
  assumes "step s s'" "counted s"
  shows "counted s'"
proof -
  have inv: "inv s" and c: "count (runs s) k \<le> sem s k \<and> sem s k \<le> cap s k" for k using assms(2) by (auto simp: counted_def)
  from step_move [OF assms(1) inv] obtain m where m: "poolMoves (cap s) m (sem s, runs s) (sem s', runs s')" by blast
  have "count (runs s') k \<le> sem s' k \<and> sem s' k \<le> cap s' k" for k
    using m c [of k] step_cap [OF assms(1) inv] by (cases m) (auto intro: le_trans [OF diff_le_self] diff_le_mono le_SucI)
  then show ?thesis using step_inv [OF assms(1) inv] unfolding counted_def by blast
qed

lemma reach_counted:
  assumes "init s" "step\<^sup>*\<^sup>* s s'"
  shows "counted s'"
  using assms(2)
proof induction
  case base
  then show ?case using assms(1) init_empty init_inv by (auto simp: counted_def)
next
  case (step t u)
  then show ?case using step_counted by blast
qed

lemma reach_inv: "init s \<Longrightarrow> step\<^sup>*\<^sup>* s s' \<Longrightarrow> inv s'"
  using reach_counted by (auto simp: counted_def)

lemma bounded: "init s \<Longrightarrow> step\<^sup>*\<^sup>* s s' \<Longrightarrow> count (runs s') k \<le> cap s' k"
  using reach_counted [of s s'] unfolding counted_def by (meson le_trans)

end

end
