(* ===== verification/Cron_Worker.thy ===== *)
theory Cron_Worker
  imports Worker_Base Cron_Next Candi_Locker
begin

text \<open>
  The cron worker (\<open>src/codebase/app/cron_worker\<close>).  Tickers live in a list and are named by their index,
  so that a job and a select case can share one.  The clock is an argument.  A fault is an error of
  \<open>addJob\<close> or a panic of the code; \<open>None\<close> is a search for the next time that does not return.
  \<open>cronStep\<close> has the steps of one worker: time passes, \<open>Serve\<close> receives from a channel, a goroutine
  starts or ends its job, \<open>Shutdown\<close> begins and ends.  The keys of the handlers come as their three
  parts; the JSON text around them is not modelled.
\<close>

section \<open>Tickers\<close>

record ticker =
  tkDue :: int
  tkPeriod :: int
  tkStopped :: bool
  tkPending :: bool

datatype cronFault = EHandlerFuncs | EHandlerName | ECronExpr cronError | PNonPositive | PNext panic

definition NewTicker :: "gotime \<Rightarrow> int \<Rightarrow> cronFault + ticker" where
  "NewTicker now d =
     (if d \<le> 0 then Inl PNonPositive
      else Inr \<lparr>tkDue = instant now + d, tkPeriod = d, tkStopped = False, tkPending = False\<rparr>)"

text \<open>At a time \<open>t\<close> that is due a tick waits in the channel, which holds one, and the ticks that were
  missed are dropped.\<close>

definition tickAt :: "int \<Rightarrow> ticker \<Rightarrow> ticker" where
  "tickAt t tk =
     (if tkStopped tk \<or> t < tkDue tk then tk
      else tk\<lparr>tkPending := True, tkDue := tkDue tk + ((t - tkDue tk) div tkPeriod tk + 1) * tkPeriod tk\<rparr>)"

section \<open>The worker\<close>

record cronJob =
  cjHandlerName :: string
  cjInterval :: string
  cjHandler :: workerHandler
  cjParams :: string
  cjWorkerIndex :: nat
  cjTicker :: nat
  cjSchedule :: "expression option"
  cjNextDuration :: "int option"

datatype selectCase = ShutdownChan | RefreshChan | TickerChan nat

record run =
  runJob :: nat
  runName :: string
  runLocked :: bool

record cronWorker =
  cwService :: string
  cwMax :: nat
  cwLocker :: locker
  cwJobs :: "cronJob list"
  cwWorkers :: "selectCase list"
  cwTickers :: "ticker list"
  cwSemaphore :: "nat list"
  cwRuns :: "run list"
  cwRefresh :: nat
  cwServing :: bool
  cwStopping :: bool
  cwCancelled :: bool

definition lockPattern :: "string \<Rightarrow> string \<Rightarrow> string" where
  "lockPattern service handlerName = service @ '':cron-worker-lock:'' @ handlerName"

definition cron_getLockKey :: "cronWorker \<Rightarrow> string \<Rightarrow> string" where
  "cron_getLockKey c handlerName = lockPattern (cwService c) handlerName"

text \<open>The first duration of a job, the duration after it, and its schedule.\<close>

definition jobTiming :: "gotime \<Rightarrow> string \<Rightarrow> (cronFault + int \<times> int \<times> expression option) option" where
  "jobTiming now interval =
     (case ParseDurationExpression now interval of
        Inr (duration, nextDuration) \<Rightarrow> Some (Inr (duration, nextDuration, None))
      | Inl _ \<Rightarrow>
          (case Parse interval of
             Inl e \<Rightarrow> Some (Inl (ECronExpr e))
           | Inr schedule \<Rightarrow>
               (case NextInterval schedule now of
                  None \<Rightarrow> None
                | Some (Inl p) \<Rightarrow> Some (Inl (PNext p))
                | Some (Inr (duration, schedule')) \<Rightarrow> Some (Inr (duration, 0, Some schedule')))))"

definition addJob :: "gotime \<Rightarrow> cronJob \<Rightarrow> cronWorker \<Rightarrow> (cronFault + cronWorker) option" where
  "addJob now j c =
     (if length (whHandlerFuncs (cjHandler j)) = 0 then Some (Inl EHandlerFuncs)
      else if cjHandlerName j = [] then Some (Inl EHandlerName)
      else case jobTiming now (cjInterval j) of
        None \<Rightarrow> None
      | Some (Inl f) \<Rightarrow> Some (Inl f)
      | Some (Inr (duration, nextDuration, schedule)) \<Rightarrow>
          (case NewTicker now duration of
             Inl f \<Rightarrow> Some (Inl f)
           | Inr tk \<Rightarrow>
               let job = j\<lparr>cjSchedule := schedule, cjNextDuration := (if nextDuration > 0 then Some nextDuration else None),
                           cjTicker := length (cwTickers c), cjWorkerIndex := length (cwWorkers c)\<rparr>
               in Some (Inr (c\<lparr>cwTickers := cwTickers c @ [tk], cwJobs := cwJobs c @ [job],
                    cwWorkers := cwWorkers c @ [TickerChan (length (cwTickers c))]\<rparr>))))"

text \<open>\<open>NewWorker\<close>: the locks of the service are reset, the handlers of all modules added in order.\<close>

type_synonym cronHandler = "string \<times> string \<times> string \<times> workerHandler"

fun addHandlers :: "gotime \<Rightarrow> cronHandler list \<Rightarrow> cronWorker \<Rightarrow> (cronFault + cronWorker) option" where
  "addHandlers now [] c = Some (Inr c)"
| "addHandlers now ((funcName, args, interval, handler) # hs) c =
     (case addJob now \<lparr>cjHandlerName = funcName, cjInterval = interval, cjHandler = handler, cjParams = args, cjWorkerIndex = 0,
             cjTicker = 0, cjSchedule = None, cjNextDuration = None\<rparr> c of
        None \<Rightarrow> None
      | Some (Inl f) \<Rightarrow> Some (Inl f)
      | Some (Inr c') \<Rightarrow> addHandlers now hs (c'\<lparr>cwSemaphore := cwSemaphore c' @ [0]\<rparr>))"

definition newCronWorker :: "string \<Rightarrow> nat \<Rightarrow> locker \<Rightarrow> gotime \<Rightarrow> cronHandler list \<Rightarrow> lockServer \<Rightarrow>
    (cronFault + cronWorker) option \<times> lockServer" where
  "newCronWorker service maxGoroutines l now handlers srv =
     (addHandlers now handlers
        \<lparr>cwService = service, cwMax = maxGoroutines, cwLocker = l, cwJobs = [], cwWorkers = [ShutdownChan, RefreshChan], cwTickers = [],
         cwSemaphore = [], cwRuns = [], cwRefresh = 0, cwServing = False, cwStopping = False, cwCancelled = False\<rparr>,
      Reset l (lockPattern service ''*'') srv)"

definition stopTicker :: "nat \<Rightarrow> cronWorker \<Rightarrow> cronWorker" where
  "stopTicker i c = c\<lparr>cwTickers := (cwTickers c)[i := (cwTickers c ! i)\<lparr>tkStopped := True\<rparr>]\<rparr>"

text \<open>A new ticker for a job, which the select case of the job listens to.\<close>

definition replaceTicker :: "gotime \<Rightarrow> int \<Rightarrow> (cronJob \<Rightarrow> cronJob) \<Rightarrow> nat \<Rightarrow> cronWorker \<Rightarrow> cronFault + cronWorker" where
  "replaceTicker now d upd i c =
     (case NewTicker now d of
        Inl f \<Rightarrow> Inl f
      | Inr tk \<Rightarrow>
          let j = cwJobs c ! i; n = length (cwTickers c); c = stopTicker (cjTicker j) c
          in Inr (c\<lparr>cwTickers := cwTickers c @ [tk], cwJobs := (cwJobs c)[i := upd (j\<lparr>cjTicker := n\<rparr>)],
                    cwWorkers := (cwWorkers c)[cjWorkerIndex j := TickerChan n]\<rparr>))"

definition refreshWorker :: "cronWorker \<Rightarrow> cronWorker" where
  "refreshWorker c = c\<lparr>cwRefresh := cwRefresh c + 1\<rparr>"

definition registerNextInterval :: "gotime \<Rightarrow> nat \<Rightarrow> cronWorker \<Rightarrow> (cronFault + cronWorker) option" where
  "registerNextInterval now i c =
     (let j = cwJobs c ! i
      in map_option (map_sum id refreshWorker)
        (case cjSchedule j of
           Some schedule \<Rightarrow>
             (case NextInterval schedule now of
                None \<Rightarrow> None
              | Some (Inl p) \<Rightarrow> Some (Inl (PNext p))
              | Some (Inr (d, schedule')) \<Rightarrow> Some (replaceTicker now d (\<lambda>j. j\<lparr>cjSchedule := Some schedule'\<rparr>) i c))
         | None \<Rightarrow>
             (case cjNextDuration j of
                Some d \<Rightarrow> Some (replaceTicker now d (\<lambda>j. j\<lparr>cjNextDuration := None\<rparr>) i c)
              | None \<Rightarrow> Some (Inr c))))"

text \<open>\<open>Serve\<close>: the start, and what it does with the case that \<open>reflect.Select\<close> chose.\<close>

definition serveStart :: "cronWorker \<Rightarrow> cronWorker" where
  "serveStart c = c\<lparr>cwServing := True, cwWorkers := foldl (\<lambda>ws j. ws[cjWorkerIndex j := TickerChan (cjTicker j)]) (cwWorkers c) (cwJobs c)\<rparr>"

definition takeTick :: "nat \<Rightarrow> cronWorker \<Rightarrow> cronWorker" where
  "takeTick i c = c\<lparr>cwTickers := (cwTickers c)[i := (cwTickers c ! i)\<lparr>tkPending := False\<rparr>]\<rparr>"

definition startRun :: "nat \<Rightarrow> cronWorker \<Rightarrow> cronWorker" where
  "startRun i c =
     (let j = cwJobs c ! i; s = cjWorkerIndex j - 2
      in if cwSemaphore c ! s \<ge> cwMax c then c
         else c\<lparr>cwSemaphore := (cwSemaphore c)[s := cwSemaphore c ! s + 1],
                cwRuns := cwRuns c @ [\<lparr>runJob = s, runName = cjHandlerName j, runLocked = False\<rparr>]\<rparr>)"

definition serveChosen :: "gotime \<Rightarrow> nat \<Rightarrow> cronWorker \<Rightarrow> (cronFault + cronWorker) option" where
  "serveChosen now chosen c =
     (if chosen = 0 then Some (Inr (c\<lparr>cwServing := False\<rparr>))
      else if chosen = 1 then Some (Inr (c\<lparr>cwRefresh := cwRefresh c - 1\<rparr>))
      else map_option (map_sum id (startRun (chosen - 2))) (registerNextInterval now (chosen - 2) c))"

text \<open>A goroutine: the check of the context and of the lock, and the end of the job.  The event
  context that the functions of the handler get is \<open>cronContext\<close>.\<close>

definition cronContext :: "cronJob \<Rightarrow> eventContext" where
  "cronContext j =
     WriteContext (cjParams j) (SetHeader [''interval'' \<mapsto> cjInterval j] (SetHandlerRoute (cjHandlerName j)
       (SetWorkerType ''scheduler'' (SetContext (Some []) (NewEventContext (replicate 256 (CHR 0x00)))))))"

definition endGoroutine :: "nat \<Rightarrow> cronWorker \<Rightarrow> cronWorker" where
  "endGoroutine k c =
     (let r = cwRuns c ! k
      in c\<lparr>cwSemaphore := (cwSemaphore c)[runJob r := cwSemaphore c ! runJob r - 1], cwRuns := take k (cwRuns c) @ drop (Suc k) (cwRuns c)\<rparr>)"

definition beginProcess :: "nat \<Rightarrow> cronWorker \<Rightarrow> lockServer \<Rightarrow> cronWorker \<times> lockServer" where
  "beginProcess k c srv =
     (let r = cwRuns c ! k
      in if cwCancelled c then (endGoroutine k c, srv)
         else case IsLocked (cwLocker c) (cron_getLockKey c (runName r)) srv of
           (True, srv') \<Rightarrow> (endGoroutine k c, srv')
         | (False, srv') \<Rightarrow> (c\<lparr>cwRuns := (cwRuns c)[k := r\<lparr>runLocked := True\<rparr>]\<rparr>, srv'))"

definition processJob :: "nat \<Rightarrow> cronWorker \<Rightarrow> string option \<times> eventContext" where
  "processJob k c = (let j = cwJobs c ! runJob (cwRuns c ! k) in runHandlerFuncs (whHandlerFuncs (cjHandler j)) (cronContext j) None)"

definition endProcess :: "nat \<Rightarrow> cronWorker \<Rightarrow> lockServer \<Rightarrow> cronWorker \<times> lockServer" where
  "endProcess k c srv = (endGoroutine k c, Unlock (cwLocker c) (cron_getLockKey c (runName (cwRuns c ! k))) srv)"

definition cron_stopAllJob :: "cronWorker \<Rightarrow> cronWorker" where
  "cron_stopAllJob c = foldl (\<lambda>c j. stopTicker (cjTicker j) c) c (cwJobs c)"

text \<open>The beginning of \<open>Shutdown\<close>: without jobs it returns at once.\<close>

definition shutdownBegin :: "cronWorker \<Rightarrow> cronWorker" where
  "shutdownBegin c = (if length (cwJobs c) = 0 then c else (cron_stopAllJob c)\<lparr>cwStopping := True\<rparr>)"

text \<open>The end of \<open>Shutdown\<close>, after \<open>Serve\<close> has returned and all goroutines have ended.\<close>

definition shutdownEnd :: "cronWorker \<Rightarrow> lockServer \<Rightarrow> cronWorker \<times> lockServer" where
  "shutdownEnd c srv = (c\<lparr>cwCancelled := True\<rparr>, Reset (cwLocker c) (lockPattern (cwService c) ''*'') srv)"

section \<open>Steps\<close>

definition ready :: "cronWorker \<Rightarrow> nat \<Rightarrow> bool" where
  "ready c i \<longleftrightarrow> i < length (cwJobs c) \<and>
     (case cwWorkers c ! (i + 2) of TickerChan k \<Rightarrow> k < length (cwTickers c) \<and> tkPending (cwTickers c ! k) | _ \<Rightarrow> False)"

definition tickerOf :: "cronWorker \<Rightarrow> nat \<Rightarrow> nat" where
  "tickerOf c i = (case cwWorkers c ! (i + 2) of TickerChan k \<Rightarrow> k | _ \<Rightarrow> 0)"

text \<open>One worker and the server of its locks.  A panic in \<open>Serve\<close> ends the process and has no next state.\<close>

inductive cronStep :: "cronWorker \<times> lockServer \<Rightarrow> cronWorker \<times> lockServer \<Rightarrow> bool" where
  serve: "cronStep (c, srv) (serveStart c, srv)"
| tick: "cronStep (c, srv) (c\<lparr>cwTickers := map (tickAt t) (cwTickers c)\<rparr>, srv)"
| run: "cwServing c \<Longrightarrow> ready c i \<Longrightarrow> serveChosen now (i + 2) (takeTick (tickerOf c i) c) = Some (Inr c') \<Longrightarrow> cronStep (c, srv) (c', srv)"
| refresh: "cwServing c \<Longrightarrow> cwRefresh c > 0 \<Longrightarrow> serveChosen now 1 c = Some (Inr c') \<Longrightarrow> cronStep (c, srv) (c', srv)"
| beginJob: "k < length (cwRuns c) \<Longrightarrow> \<not> runLocked (cwRuns c ! k) \<Longrightarrow> beginProcess k c srv = s' \<Longrightarrow> cronStep (c, srv) s'"
| endJob: "k < length (cwRuns c) \<Longrightarrow> runLocked (cwRuns c ! k) \<Longrightarrow> endProcess k c srv = s' \<Longrightarrow> cronStep (c, srv) s'"
| stop: "cronStep (c, srv) (shutdownBegin c, srv)"
| served: "cwServing c \<Longrightarrow> cwStopping c \<Longrightarrow> serveChosen now 0 c = Some (Inr c') \<Longrightarrow> cronStep (c, srv) (c', srv)"
| shut: "\<not> cwServing c \<Longrightarrow> cwStopping c \<Longrightarrow> cwRuns c = [] \<Longrightarrow> shutdownEnd c srv = s' \<Longrightarrow> cronStep (c, srv) s'"

inductive_cases cronStepE: "cronStep (c, srv) s'"

section \<open>Tickers and select cases\<close>

text \<open>Every job has its select case and listens to its own ticker, the semaphores are those of the jobs.\<close>

definition cronInv :: "cronWorker \<Rightarrow> bool" where
  "cronInv c \<longleftrightarrow> length (cwSemaphore c) = length (cwJobs c) \<and> length (cwWorkers c) = length (cwJobs c) + 2 \<and>
     (\<forall>i < length (cwJobs c). cjWorkerIndex (cwJobs c ! i) = i + 2 \<and> cwWorkers c ! (i + 2) = TickerChan (cjTicker (cwJobs c ! i)) \<and>
        cjTicker (cwJobs c ! i) < length (cwTickers c)) \<and>
     (\<forall>r \<in> set (cwRuns c). runJob r < length (cwJobs c))"

lemma same_updates: "\<forall>j \<in> set js. ws ! ix j = v j \<Longrightarrow> foldl (\<lambda>ws j. ws[ix j := v j]) ws js = ws"
  by (induction js) (auto, metis list_update_id)

lemma serveStart_eq: "cronInv c \<Longrightarrow> serveStart c = c\<lparr>cwServing := True\<rparr>"
proof -
  assume a: "cronInv c"
  have "\<forall>j \<in> set (cwJobs c). cwWorkers c ! cjWorkerIndex j = TickerChan (cjTicker j)"
    using a by (auto simp: cronInv_def in_set_conv_nth)
  then show ?thesis by (simp add: serveStart_def same_updates)
qed

lemma stopTickers_eq: "\<exists>ts. length ts = length (cwTickers c) \<and> foldl (\<lambda>c j. stopTicker (cjTicker j) c) c js = c\<lparr>cwTickers := ts\<rparr>"
proof (induction js arbitrary: c)
  case (Cons j js)
  obtain ts where "length ts = length (cwTickers (stopTicker (cjTicker j) c))"
    "foldl (\<lambda>c j. stopTicker (cjTicker j) c) (stopTicker (cjTicker j) c) js = (stopTicker (cjTicker j) c)\<lparr>cwTickers := ts\<rparr>"
    using Cons by blast
  then show ?case by (intro exI [of _ ts]) (simp add: stopTicker_def)
next
  case Nil
  show ?case by (rule exI [of _ "cwTickers c"]) simp
qed

lemma cronInv_tickers: "cronInv c \<Longrightarrow> length ts = length (cwTickers c) \<Longrightarrow> cronInv (c\<lparr>cwTickers := ts\<rparr>)"
  by (simp add: cronInv_def)

lemma shutdownBegin_eq: "\<exists>ts b. length ts = length (cwTickers c) \<and> shutdownBegin c = c\<lparr>cwTickers := ts, cwStopping := b\<rparr>"
proof -
  obtain ts where "length ts = length (cwTickers c)" "cron_stopAllJob c = c\<lparr>cwTickers := ts\<rparr>"
    using stopTickers_eq [of c "cwJobs c"] by (auto simp: cron_stopAllJob_def)
  then show ?thesis
  proof (cases "cwJobs c = []")
    case True
    then show ?thesis by (intro exI [of _ "cwTickers c"] exI [of _ "cwStopping c"]) (simp add: shutdownBegin_def)
  next
    case False
    then show ?thesis using \<open>length ts = length (cwTickers c)\<close> \<open>cron_stopAllJob c = c\<lparr>cwTickers := ts\<rparr>\<close>
      by (intro exI [of _ ts] exI [of _ True]) (simp add: shutdownBegin_def)
  qed
qed

text \<open>What a replaced ticker changes.\<close>

lemma replaceTicker_props:
  assumes "replaceTicker now d upd i c = Inr c'" "cronInv c" "i < length (cwJobs c)"
    and "\<And>j. cjTicker (upd j) = cjTicker j" "\<And>j. cjWorkerIndex (upd j) = cjWorkerIndex j"
  shows "cronInv c'" "cwSemaphore c' = cwSemaphore c" "cwRuns c' = cwRuns c" "cwMax c' = cwMax c" "cwLocker c' = cwLocker c"
    "cwService c' = cwService c" "cwCancelled c' = cwCancelled c" "length (cwJobs c') = length (cwJobs c)"
    "cwJobs c' ! i = upd ((cwJobs c ! i)\<lparr>cjTicker := length (cwTickers c)\<rparr>)" "0 < d"
    "cwTickers c' ! length (cwTickers c) = \<lparr>tkDue = instant now + d, tkPeriod = d, tkStopped = False, tkPending = False\<rparr>"
  using assms by (auto simp: replaceTicker_def NewTicker_def Let_def stopTicker_def cronInv_def nth_list_update nth_append split: if_splits)

lemma map_sum_Inr: "map_sum f g z = Inr y \<longleftrightarrow> (\<exists>x. z = Inr x \<and> y = g x)"
  by (cases z) auto

lemma refreshWorker_props [simp]:
  "cronInv (refreshWorker c) = cronInv c" "cwSemaphore (refreshWorker c) = cwSemaphore c" "cwRuns (refreshWorker c) = cwRuns c"
  "cwMax (refreshWorker c) = cwMax c" "cwLocker (refreshWorker c) = cwLocker c" "cwService (refreshWorker c) = cwService c"
  "cwCancelled (refreshWorker c) = cwCancelled c" "cwJobs (refreshWorker c) = cwJobs c" "cwTickers (refreshWorker c) = cwTickers c"
  "cwWorkers (refreshWorker c) = cwWorkers c"
  by (simp_all add: refreshWorker_def cronInv_def)

text \<open>The next interval touches neither the semaphores nor the goroutines.\<close>

lemma registerNextInterval_props:
  assumes "registerNextInterval now i c = Some (Inr c')" "cronInv c" "i < length (cwJobs c)"
  shows "cronInv c' \<and> cwSemaphore c' = cwSemaphore c \<and> cwRuns c' = cwRuns c \<and> cwMax c' = cwMax c \<and> cwLocker c' = cwLocker c \<and>
    cwService c' = cwService c \<and> cwCancelled c' = cwCancelled c \<and> length (cwJobs c') = length (cwJobs c)"
proof -
  consider (cron) d schedule' c1 where "c' = refreshWorker c1" "replaceTicker now d (\<lambda>j. j\<lparr>cjSchedule := Some schedule'\<rparr>) i c = Inr c1"
    | (repeat) d c1 where "c' = refreshWorker c1" "replaceTicker now d (\<lambda>j. j\<lparr>cjNextDuration := None\<rparr>) i c = Inr c1"
    | (same) "c' = refreshWorker c"
    using assms(1) by (auto simp: registerNextInterval_def Let_def map_sum_Inr split: option.splits sum.splits)
  then show ?thesis
  proof cases
    case cron
    then show ?thesis using replaceTicker_props(1-8) [OF cron(2) assms(2,3)] by simp
  next
    case repeat
    then show ?thesis using replaceTicker_props(1-8) [OF repeat(2) assms(2,3)] by simp
  qed (use assms(2) in simp)
qed

lemma startRun_inv: "cronInv c \<Longrightarrow> i < length (cwJobs c) \<Longrightarrow> cronInv (startRun i c)"
  by (auto simp: startRun_def Let_def cronInv_def)

lemma endGoroutine_inv: "cronInv c \<Longrightarrow> cronInv (endGoroutine k c)"
  by (auto simp: endGoroutine_def Let_def cronInv_def dest: in_set_takeD in_set_dropD)

text \<open>The states after a step, in terms of the semaphores and the goroutines.\<close>

lemma serveChosen_run:
  assumes "serveChosen now (i + 2) (takeTick k c) = Some (Inr c')" "cronInv c" "i < length (cwJobs c)"
  obtains c1 where "cronInv c1" "cwSemaphore c1 = cwSemaphore c" "cwRuns c1 = cwRuns c" "cwMax c1 = cwMax c" "cwLocker c1 = cwLocker c"
    "cwService c1 = cwService c" "cwCancelled c1 = cwCancelled c" "length (cwJobs c1) = length (cwJobs c)" "c' = startRun i c1"
proof -
  obtain c1 where c1: "registerNextInterval now i (takeTick k c) = Some (Inr c1)" "c' = startRun i c1"
    using assms(1) by (auto simp: serveChosen_def map_sum_Inr)
  have "cronInv (takeTick k c)" using assms(2) by (auto simp: takeTick_def cronInv_def)
  from registerNextInterval_props [OF c1(1) this] assms(3) have "cronInv c1 \<and> cwSemaphore c1 = cwSemaphore c \<and> cwRuns c1 = cwRuns c \<and>
      cwMax c1 = cwMax c \<and> cwLocker c1 = cwLocker c \<and> cwService c1 = cwService c \<and> cwCancelled c1 = cwCancelled c \<and>
      length (cwJobs c1) = length (cwJobs c)"
    by (simp add: takeTick_def)
  then show thesis using that c1(2) by blast
qed

lemma beginProcess_inv: "cronInv c \<Longrightarrow> k < length (cwRuns c) \<Longrightarrow> cronInv (fst (beginProcess k c srv))"
  by (auto simp: beginProcess_def Let_def endGoroutine_inv split: prod.split bool.split) (auto simp: cronInv_def set_conv_nth nth_list_update)

lemma cronStep_inv:
  assumes "cronStep s s'" "cronInv (fst s)"
  shows "cronInv (fst s')"
  using assms
proof cases
  case (run c i now c' srv)
  then have i: "i < length (cwJobs c)" by (simp add: ready_def)
  from serveChosen_run [OF run(5) _ i] assms(2) run startRun_inv i show ?thesis by (metis fst_conv)
next
  case (stop c srv)
  then show ?thesis using assms(2) shutdownBegin_eq [of c] by (auto simp: cronInv_def)
next
  case (beginJob k c srv)
  then show ?thesis using assms(2) beginProcess_inv by auto
next
  case (endJob k c srv)
  then show ?thesis using assms(2) endGoroutine_inv by (auto simp: endProcess_def)
next
  case (serve c srv)
  then show ?thesis using assms(2) serveStart_eq by (auto simp: cronInv_def)
qed (use assms(2) in \<open>auto simp: cronInv_def serveChosen_def shutdownEnd_def\<close>)

text \<open>A new worker.\<close>

lemma addJob_shape:
  assumes "addJob now j c = Some (Inr c')"
  obtains d nd sch tk where "jobTiming now (cjInterval j) = Some (Inr (d, nd, sch))" "NewTicker now d = Inr tk"
    "c' = c\<lparr>cwTickers := cwTickers c @ [tk],
       cwJobs := cwJobs c @ [j\<lparr>cjSchedule := sch, cjNextDuration := (if nd > 0 then Some nd else None),
         cjTicker := length (cwTickers c), cjWorkerIndex := length (cwWorkers c)\<rparr>],
       cwWorkers := cwWorkers c @ [TickerChan (length (cwTickers c))]\<rparr>"
  using assms unfolding addJob_def Let_def by (auto split: if_split_asm sum.splits option.splits prod.splits)

lemma addHandlers_inv:
  assumes "addHandlers now hs c = Some (Inr c')" "cronInv c" "cwRuns c = []" "set (cwSemaphore c) \<subseteq> {0}"
  shows "cronInv c' \<and> cwRuns c' = [] \<and> set (cwSemaphore c') \<subseteq> {0} \<and> cwService c' = cwService c \<and> cwLocker c' = cwLocker c \<and> cwMax c' = cwMax c"
  using assms
proof (induction now hs c rule: addHandlers.induct)
  case (2 now funcName args interval handler hs c)
  let ?j = "\<lparr>cjHandlerName = funcName, cjInterval = interval, cjHandler = handler, cjParams = args, cjWorkerIndex = 0,
             cjTicker = 0, cjSchedule = None, cjNextDuration = None\<rparr>"
  obtain c1 where c1: "addJob now ?j c = Some (Inr c1)" "addHandlers now hs (c1\<lparr>cwSemaphore := cwSemaphore c1 @ [0]\<rparr>) = Some (Inr c')"
    using "2.prems"(1) by (auto split: option.splits sum.splits)
  obtain sch nd tk where c1': "c1 = c\<lparr>cwTickers := cwTickers c @ [tk],
      cwJobs := cwJobs c @ [?j\<lparr>cjSchedule := sch, cjNextDuration := nd, cjTicker := length (cwTickers c), cjWorkerIndex := length (cwWorkers c)\<rparr>],
      cwWorkers := cwWorkers c @ [TickerChan (length (cwTickers c))]\<rparr>"
    using c1(1) by (rule addJob_shape) blast
  have "cronInv (c1\<lparr>cwSemaphore := cwSemaphore c1 @ [0]\<rparr>)" using "2.prems"(2,3) c1' by (auto simp: cronInv_def nth_append less_Suc_eq)
  then show ?case using "2.IH" [OF c1(1) refl c1(2)] "2.prems"(3,4) c1' by simp
qed simp

definition cronStart :: "cronWorker \<times> lockServer \<Rightarrow> bool" where
  "cronStart s \<longleftrightarrow> (\<exists>service mx l now hs srv. newCronWorker service mx l now hs srv = (Some (Inr (fst s)), snd s))"

lemma cronStart_inv: "cronStart s \<Longrightarrow> cronInv (fst s) \<and> cwRuns (fst s) = [] \<and> set (cwSemaphore (fst s)) \<subseteq> {0}"
  unfolding cronStart_def newCronWorker_def by (force dest!: addHandlers_inv simp: cronInv_def)

section \<open>Goroutines\<close>

definition cronSem :: "cronWorker \<Rightarrow> nat \<Rightarrow> nat" where
  "cronSem c k = (if k < length (cwSemaphore c) then cwSemaphore c ! k else 0)"

lemma cronSem_cong: "cwSemaphore c = cwSemaphore c' \<Longrightarrow> cronSem c = cronSem c'"
  by (simp add: cronSem_def fun_eq_iff)

abbreviation cronRuns :: "cronWorker \<Rightarrow> nat multiset" where
  "cronRuns c \<equiv> mset (map runJob (cwRuns c))"

lemma endGoroutine_runs: "k < length xs \<Longrightarrow> mset (take k xs @ drop (Suc k) xs) = mset xs - {#xs ! k#}"
  by (subst (3) id_take_nth_drop [of k xs]) auto

lemma endGoroutine_move:
  assumes "cronInv c" "k < length (cwRuns c)"
  shows "poolMoves (\<lambda>_. cwMax c) (Finish (runJob (cwRuns c ! k))) (cronSem c, cronRuns c) (cronSem (endGoroutine k c), cronRuns (endGoroutine k c))"
proof -
  have "runJob (cwRuns c ! k) < length (cwSemaphore c)" using assms by (auto simp: cronInv_def)
  moreover have "cronRuns (endGoroutine k c) = cronRuns c - {#runJob (cwRuns c ! k)#}"
    using endGoroutine_runs [of k "map runJob (cwRuns c)"] assms(2) by (simp add: endGoroutine_def Let_def take_map drop_map)
  ultimately show ?thesis using assms(2) by (auto simp: cronSem_def endGoroutine_def Let_def fun_eq_iff nth_list_update)
qed

lemma startRun_move:
  assumes "cronInv c" "i < length (cwJobs c)"
  shows "\<exists>m. poolMoves (\<lambda>_. cwMax c) m (cronSem c, cronRuns c) (cronSem (startRun i c), cronRuns (startRun i c))"
proof (cases "cwSemaphore c ! i \<ge> cwMax c")
  case True
  then show ?thesis using assms by (intro exI [of _ Keep]) (auto simp: cronSem_def startRun_def Let_def cronInv_def)
next
  case False
  then show ?thesis using assms by (intro exI [of _ "Start i"]) (auto simp: cronSem_def startRun_def Let_def cronInv_def fun_eq_iff nth_list_update)
qed

lemma beginProcess_move:
  assumes "cronInv c" "k < length (cwRuns c)"
  shows "\<exists>m. poolMoves (\<lambda>_. cwMax c) m (cronSem c, cronRuns c) (cronSem (fst (beginProcess k c srv)), cronRuns (fst (beginProcess k c srv)))"
proof -
  consider "fst (beginProcess k c srv) = endGoroutine k c" | "fst (beginProcess k c srv) = c\<lparr>cwRuns := (cwRuns c)[k := (cwRuns c ! k)\<lparr>runLocked := True\<rparr>]\<rparr>"
    by (fastforce simp: beginProcess_def Let_def split: if_splits prod.splits bool.splits)
  then show ?thesis
  proof cases
    case 1
    then show ?thesis using endGoroutine_move [OF assms] by metis
  next
    case 2
    have "map runJob ((cwRuns c)[k := (cwRuns c ! k)\<lparr>runLocked := True\<rparr>]) = map runJob (cwRuns c)"
      by (rule nth_equalityI) (use assms(2) in \<open>auto simp: nth_list_update\<close>)
    then show ?thesis using 2 by (intro exI [of _ Keep]) (simp add: cronSem_def fun_eq_iff)
  qed
qed

lemma cronStep_max:
  assumes "cronStep s s'" "cronInv (fst s)"
  shows "cwMax (fst s') = cwMax (fst s) \<and> cwService (fst s') = cwService (fst s) \<and> cwLocker (fst s') = cwLocker (fst s)"
  using assms
proof cases
  case (run c i now c' srv)
  then have i: "i < length (cwJobs c)" by (simp add: ready_def)
  from serveChosen_run [OF run(5) _ i] assms(2) run obtain c1 where
    "cwMax c1 = cwMax c" "cwService c1 = cwService c" "cwLocker c1 = cwLocker c" "c' = startRun i c1" by (metis fst_conv)
  then show ?thesis using run by (simp add: startRun_def Let_def)
next
  case (stop c srv)
  then show ?thesis using shutdownBegin_eq [of c] by auto
qed (auto simp: beginProcess_def endProcess_def endGoroutine_def serveStart_def serveChosen_def shutdownEnd_def Let_def split: prod.split bool.split)

lemma cronStep_move:
  assumes "cronStep s s'" "cronInv (fst s)"
  shows "\<exists>m. poolMoves (\<lambda>_. cwMax (fst s)) m (cronSem (fst s), cronRuns (fst s)) (cronSem (fst s'), cronRuns (fst s'))"
  using assms
proof cases
  case (run c i now c' srv)
  then have i: "i < length (cwJobs c)" by (simp add: ready_def)
  from serveChosen_run [OF run(5) _ i] assms(2) run obtain c1 where
    "cronInv c1" "cwSemaphore c1 = cwSemaphore c" "cwRuns c1 = cwRuns c" "cwMax c1 = cwMax c" "length (cwJobs c1) = length (cwJobs c)"
    "c' = startRun i c1" by (metis fst_conv)
  then show ?thesis using startRun_move [of c1 i] i run cronSem_cong [of c1 c] by simp
next
  case (beginJob k c srv)
  then show ?thesis using beginProcess_move assms(2) by auto
next
  case (endJob k c srv)
  then have "fst s = c" "fst s' = endGoroutine k c" by (auto simp: endProcess_def)
  then show ?thesis using endGoroutine_move [of c k] assms(2) endJob(2) by metis
next
  case (stop c srv)
  then show ?thesis using shutdownBegin_eq [of c] by (intro exI [of _ Keep]) (auto simp: cronSem_def fun_eq_iff)
next
  case (serve c srv)
  then show ?thesis by (intro exI [of _ Keep]) (simp add: cronSem_def fun_eq_iff serveStart_def)
next
  case (tick c srv t)
  then show ?thesis by (intro exI [of _ Keep]) (simp add: cronSem_def fun_eq_iff)
next
  case (refresh c now c' srv)
  then show ?thesis by (intro exI [of _ Keep]) (auto simp: cronSem_def fun_eq_iff serveChosen_def)
next
  case (served c now c' srv)
  then show ?thesis by (intro exI [of _ Keep]) (auto simp: cronSem_def fun_eq_iff serveChosen_def)
next
  case (shut c srv)
  then show ?thesis by (intro exI [of _ Keep]) (auto simp: cronSem_def fun_eq_iff shutdownEnd_def)
qed

interpretation cronPool: goroutine_pool "\<lambda>s _. cwMax (fst s)" "\<lambda>s. cronSem (fst s)" "\<lambda>s. cronRuns (fst s)" "\<lambda>s. cronInv (fst s)" cronStart cronStep
proof
  show "(\<lambda>_. cwMax (fst s')) = (\<lambda>_. cwMax (fst s))" if "cronStep s s'" "cronInv (fst s)" for s s'
    using cronStep_max [OF that] by simp
  show "cronSem (fst s) = (\<lambda>_. 0) \<and> cronRuns (fst s) = {#}" if "cronStart s" for s
    using cronStart_inv [OF that] nth_mem [of _ "cwSemaphore (fst s)"] by (fastforce simp: cronSem_def fun_eq_iff)
qed (use cronStart_inv cronStep_inv cronStep_move in auto)

section \<open>Several instances\<close>

text \<open>The goroutines of a worker that run a job of this name, and the counter of its lock.\<close>

definition held :: "string \<Rightarrow> cronWorker \<Rightarrow> nat" where
  "held n c = length (filter (\<lambda>r. runLocked r \<and> runName r = n) (cwRuns c))"

definition lockCount :: "string \<Rightarrow> string \<Rightarrow> string \<Rightarrow> lockServer \<Rightarrow> int" where
  "lockCount p service n srv = lsVals srv (lockKeyOf p (lockPattern service n))"

lemma lockKey_inj: "lockKeyOf p (lockPattern service n) = lockKeyOf p (lockPattern service n') \<longleftrightarrow> n = n'"
  by (simp add: lockKeyOf_def lockPattern_def)

lemma held_drop:
  assumes "k < length (cwRuns c)"
  shows "held n (endGoroutine k c) + (if runLocked (cwRuns c ! k) \<and> runName (cwRuns c ! k) = n then 1 else 0) = held n c"
proof -
  have "held n c = length (filter (\<lambda>r. runLocked r \<and> runName r = n) (take k (cwRuns c) @ cwRuns c ! k # drop (Suc k) (cwRuns c)))"
    using id_take_nth_drop [OF assms] by (simp add: held_def)
  then show ?thesis by (simp add: held_def endGoroutine_def Let_def)
qed

lemma held_lock:
  assumes "k < length (cwRuns c)" "\<not> runLocked (cwRuns c ! k)"
  shows "held n (c\<lparr>cwRuns := (cwRuns c)[k := (cwRuns c ! k)\<lparr>runLocked := True\<rparr>]\<rparr>) = held n c + (if runName (cwRuns c ! k) = n then 1 else 0)"
proof -
  have "held n c = length (filter (\<lambda>r. runLocked r \<and> runName r = n) (take k (cwRuns c) @ cwRuns c ! k # drop (Suc k) (cwRuns c)))"
    using id_take_nth_drop [OF assms(1)] by (simp add: held_def)
  then show ?thesis using assms by (simp add: held_def upd_conv_take_nth_drop)
qed

text \<open>What a step does to the jobs of one name and their lock.\<close>

lemma cronStep_lock:
  assumes "cronStep (c, srv) (c', srv')" "cronInv c" "cwLocker c = RedisLocker p" "cwService c = service" "\<not> lsDown srv" "\<not> cwCancelled c'"
  shows "\<not> lsDown srv' \<and>
    (held n c' = held n c \<and> lockCount p service n srv' = lockCount p service n srv \<or>
     held n c' = held n c \<and> lockCount p service n srv' = lockCount p service n srv + 1 \<and> 0 < lockCount p service n srv \<or>
     held n c' = held n c + 1 \<and> lockCount p service n srv' = lockCount p service n srv + 1 \<and> lockCount p service n srv \<le> 0 \<or>
     held n c' + 1 = held n c \<and> lockCount p service n srv' = 0)"
  using assms(1)
proof cases
  case (run i now)
  then have i: "i < length (cwJobs c)" by (simp add: ready_def)
  from serveChosen_run [OF run(4) assms(2) i] obtain c1 where "cwRuns c1 = cwRuns c" "c' = startRun i c1" by metis
  then show ?thesis using run(1) assms(5) by (simp add: held_def startRun_def Let_def)
next
  case (stop)
  then show ?thesis using shutdownBegin_eq [of c] assms(5) by (auto simp: held_def)
next
  case (beginJob k)
  let ?m = "runName (cwRuns c ! k)" and ?srv = "srv\<lparr>lsVals := (lsVals srv)(lockKeyOf p (lockPattern service (runName (cwRuns c ! k))) :=
    lockCount p service (runName (cwRuns c ! k)) srv + 1)\<rparr>"
  have active: "\<not> cwCancelled c" using beginJob(3) assms(6) by (auto simp: beginProcess_def endGoroutine_def Let_def)
  have lock: "IsLocked (cwLocker c) (cron_getLockKey c ?m) srv = (0 < lockCount p service ?m srv, ?srv)"
    using assms(3,4,5) by (simp add: IsLocked_def Let_def lockCount_def cron_getLockKey_def)
  have count: "lockCount p service n ?srv = lockCount p service n srv + (if ?m = n then 1 else 0)"
    by (auto simp: lockCount_def lockKey_inj)
  show ?thesis
  proof (cases "0 < lockCount p service ?m srv")
    case True
    then have "c' = endGoroutine k c" "srv' = ?srv" using beginJob(3) active lock by (simp_all add: beginProcess_def Let_def)
    then show ?thesis using True count held_drop [OF beginJob(1), of n] beginJob(2) assms(5) by auto
  next
    case False
    then have "c' = c\<lparr>cwRuns := (cwRuns c)[k := (cwRuns c ! k)\<lparr>runLocked := True\<rparr>]\<rparr>" "srv' = ?srv"
      using beginJob(3) active lock by (simp_all add: beginProcess_def Let_def)
    then show ?thesis using False count held_lock [OF beginJob(1,2), of n] assms(5) by auto
  qed
next
  case (endJob k)
  then show ?thesis using held_drop [OF endJob(1), of n] assms(3,4,5)
    by (cases "runName (cwRuns c ! k) = n") (auto simp: endProcess_def Unlock_def lockCount_def cron_getLockKey_def lockKey_inj)
next
  case (shut)
  then show ?thesis using assms(6) by (auto simp: shutdownEnd_def)
qed (use assms(5) in \<open>auto simp: held_def serveStart_def serveChosen_def\<close>)

text \<open>Instances of one service over one server, none of which ends its shutdown.\<close>

inductive clusterStep :: "cronWorker list \<times> lockServer \<Rightarrow> cronWorker list \<times> lockServer \<Rightarrow> bool" where
  work: "i < length ws \<Longrightarrow> cronStep (ws ! i, srv) (c', srv') \<Longrightarrow> \<not> cwCancelled c' \<Longrightarrow> clusterStep (ws, srv) (ws[i := c'], srv')"

definition total :: "string \<Rightarrow> cronWorker list \<Rightarrow> nat" where
  "total n ws = sum_list (map (held n) ws)"

definition clusterInv :: "string \<Rightarrow> string \<Rightarrow> string \<Rightarrow> cronWorker list \<times> lockServer \<Rightarrow> bool" where
  "clusterInv p service n s \<longleftrightarrow> (\<forall>c \<in> set (fst s). cronInv c \<and> cwService c = service \<and> cwLocker c = RedisLocker p) \<and> \<not> lsDown (snd s) \<and>
     0 \<le> lockCount p service n (snd s) \<and> (lockCount p service n (snd s) = 0 \<longrightarrow> total n (fst s) = 0) \<and> total n (fst s) \<le> 1"

lemma total_update: "i < length ws \<Longrightarrow> total n (ws[i := c']) + held n (ws ! i) = total n ws + held n c'"
  unfolding total_def
  by (subst (2) id_take_nth_drop [of i ws]) (simp_all add: upd_conv_take_nth_drop)

lemma clusterStep_inv:
  assumes "clusterStep s s'" "clusterInv p service n s"
  shows "clusterInv p service n s'"
  using assms(1)
proof cases
  case (work i ws srv c' srv')
  then have c: "cronInv (ws ! i)" "cwLocker (ws ! i) = RedisLocker p" "cwService (ws ! i) = service" "\<not> lsDown srv"
    using assms(2) nth_mem by (auto simp: clusterInv_def)
  have held: "held n (ws ! i) \<le> total n ws"
    using total_update [OF work(3), of n "(ws ! i)\<lparr>cwRuns := []\<rparr>"] by (simp add: held_def)
  have c': "cronInv c'" "cwService c' = service" "cwLocker c' = RedisLocker p"
    using cronStep_inv [OF work(4)] cronStep_max [OF work(4)] c by simp_all
  then have "\<forall>x \<in> set (ws[i := c']). cronInv x \<and> cwService x = service \<and> cwLocker x = RedisLocker p"
    using assms(2) work(1) set_update_subset_insert [of ws i c'] by (auto simp: clusterInv_def)
  then show ?thesis
    using cronStep_lock [OF work(4) c(1,2,3,4) work(5), of n] total_update [OF work(3), of n c'] held assms(2) work(1,2)
    by (auto simp: clusterInv_def)
qed

section \<open>The times at which jobs run\<close>

lemma NextInterval_least:
  assumes "schedulable e" "valid_time t" "\<not> IsZero t" "matchesTime e u" "tLoc u = tLoc t" "After u t"
  shows "\<exists>d ds. NextInterval e t = Some (Inr (d, e\<lparr>actualDaysOfMonthList := ds\<rparr>)) \<and> 0 < d \<and>
    (d = maxInt64 \<or> (\<exists>r. matchesTime e r \<and> tLoc r = tLoc t \<and> instant r = instant t + d \<and>
       (\<forall>u. matchesTime e u \<and> tLoc u = tLoc t \<and> After u t \<longrightarrow> \<not> Before u r)))"
proof -
  from Next_least [OF assms(1-3)] assms(4-6) obtain r ds where
    N: "Next e t = Some (Inr (r, e\<lparr>actualDaysOfMonthList := ds\<rparr>))" and
    r: "matchesTime e r" "tLoc r = tLoc t" "After r t" "\<forall>u. matchesTime e u \<and> tLoc u = tLoc t \<and> After u t \<longrightarrow> \<not> Before u r" by metis
  have i: "NextInterval e t = Some (Inr (Sub r t, e\<lparr>actualDaysOfMonthList := ds\<rparr>))" by (simp add: NextInterval_def N)
  have p: "0 < instant r - instant t" using r(3) by (simp add: After_def)
  then have "0 < Sub r t" "Sub r t = maxInt64 \<or> instant r = instant t + Sub r t"
    by (auto simp: Sub_def clamp64_def minInt64_def maxInt64_def)
  with i r show ?thesis by blast
qed

lemma NextInterval_exhausted:
  assumes "schedulable e" "valid_time t" "\<not> IsZero t" "After t zeroTime" "\<forall>u. matchesTime e u \<and> tLoc u = tLoc t \<longrightarrow> \<not> After u t"
  shows "\<exists>d e'. NextInterval e t = Some (Inr (d, e')) \<and> d \<le> 0"
proof -
  from Next_least [OF assms(1-3)] assms(5) obtain e' where "Next e t = Some (Inr (zeroTime, e'))" by metis
  then show ?thesis using assms(4) by (auto simp: NextInterval_def After_def Sub_def clamp64_def minInt64_def)
qed

lemma registerNextInterval_schedule:
  assumes "cronInv c" "i < length (cwJobs c)" "cjSchedule (cwJobs c ! i) = Some e" "NextInterval e now = Some (Inr (d, e'))" "0 < d"
  shows "\<exists>c'. registerNextInterval now i c = Some (Inr c') \<and> cjSchedule (cwJobs c' ! i) = Some e' \<and>
    cwWorkers c' ! (i + 2) = TickerChan (cjTicker (cwJobs c' ! i)) \<and> tkStopped (cwTickers c' ! cjTicker (cwJobs c ! i)) \<and>
    cwTickers c' ! cjTicker (cwJobs c' ! i) = \<lparr>tkDue = instant now + d, tkPeriod = d, tkStopped = False, tkPending = False\<rparr>"
  using assms by (auto simp: registerNextInterval_def replaceTicker_def NewTicker_def Let_def stopTicker_def cronInv_def nth_append)

section \<open>Properties\<close>

text \<open>C19: whatever happens, a worker never has more than \<open>maxGoroutines\<close> goroutines of one job, each of
  them belongs to a job, and every job keeps its own select case, which listens to its current ticker.\<close>

theorem cron_goroutines_bounded:
  assumes "cronStart s" "cronStep\<^sup>*\<^sup>* s s'"
  shows "length (filter (\<lambda>r. runJob r = i) (cwRuns (fst s'))) \<le> cwMax (fst s') \<and> cronInv (fst s')"
proof -
  have "count (mset (map runJob rs)) i = length (filter (\<lambda>r. runJob r = i) rs)" for rs by (induction rs) auto
  then show ?thesis using cronPool.bounded [OF assms, of i] cronPool.reach_inv [OF assms] by metis
qed

text \<open>A worker with one job, and its first run.\<close>

definition exNow :: gotime where
  "exNow = Date 2024 3 1 20 0 0 0 0"

definition exHandler :: workerHandler where
  "exHandler = \<lparr>whPattern = ''clean'', whHandlerFuncs = [\<lambda>e. (HOk, e)], whDisableTrace = False, whAutoACK = True, whConfigs = Map.empty\<rparr>"

definition exNew :: "cronWorker option" where
  "exNew = (case newCronWorker ''svc'' 2 (RedisLocker ''L'') exNow [(''clean'', ''x'', ''10s'', exHandler)] freshServer of
     (Some (Inr c), srv) \<Rightarrow> Some c | _ \<Rightarrow> None)"

definition exCron :: cronWorker where
  "exCron = the exNew"

definition exTicked :: cronWorker where
  "exTicked = (serveStart exCron)\<lparr>cwTickers := map (tickAt (instant exNow + 10 * Second)) (cwTickers (serveStart exCron))\<rparr>"

definition exRan :: cronWorker where
  "exRan = (case serveChosen (Add exNow (10 * Second)) 2 (takeTick (tickerOf exTicked 0) exTicked) of Some (Inr c) \<Rightarrow> c | _ \<Rightarrow> exTicked)"

lemma exNew_some: "exNew \<noteq> None \<and> cwService exCron = ''svc'' \<and> cwLocker exCron = RedisLocker ''L''"
  by code_simp

lemma exCron_start: "\<exists>srv. cronStart (exCron, srv)"
proof -
  have "\<exists>srv. newCronWorker ''svc'' 2 (RedisLocker ''L'') exNow [(''clean'', ''x'', ''10s'', exHandler)] freshServer = (Some (Inr exCron), srv)"
    using exNew_some unfolding exCron_def exNew_def by (auto split: prod.splits option.splits sum.splits)
  then show ?thesis unfolding cronStart_def fst_conv snd_conv by blast
qed

lemma exRan_steps: "cronStep (exCron, srv) (serveStart exCron, srv)" "cronStep (serveStart exCron, srv) (exTicked, srv)" "cronStep (exTicked, srv) (exRan, srv)"
proof -
  show "cronStep (exCron, srv) (serveStart exCron, srv)" by (rule cronStep.serve)
  show "cronStep (serveStart exCron, srv) (exTicked, srv)" unfolding exTicked_def by (rule cronStep.tick)
  have "cwServing exTicked" "ready exTicked 0" by code_simp+
  moreover have "serveChosen (Add exNow (10 * Second)) (0 + 2) (takeTick (tickerOf exTicked 0) exTicked) = Some (Inr exRan)"
  proof -
    have "case serveChosen (Add exNow (10 * Second)) 2 (takeTick (tickerOf exTicked 0) exTicked) of Some (Inr _) \<Rightarrow> True | _ \<Rightarrow> False" by code_simp
    then show ?thesis unfolding exRan_def by (auto simp: numeral_2_eq_2 split: option.splits sum.splits)
  qed
  ultimately show "cronStep (exTicked, srv) (exRan, srv)" by (rule cronStep.run)
qed

theorem cron_goroutines_bounded_witness:
  "map runJob (cwRuns exRan) = [0] \<and> length (filter (\<lambda>r. runJob r = 0) (cwRuns exRan)) \<le> cwMax exRan"
proof -
  obtain srv where "cronStart (exCron, srv)" using exCron_start by blast
  moreover have "cronStep\<^sup>*\<^sup>* (exCron, srv) (exRan, srv)" using exRan_steps [of srv] by (meson r_into_rtranclp rtranclp.rtrancl_into_rtrancl)
  ultimately have "length (filter (\<lambda>r. runJob r = 0) (cwRuns exRan)) \<le> cwMax exRan" using cron_goroutines_bounded [of "(exCron, srv)" "(exRan, srv)" 0] by simp
  moreover have "map runJob (cwRuns exRan) = [0]" by code_simp
  ultimately show ?thesis by blast
qed

text \<open>C18: over one Redis server that answers, no two instances of a service run jobs of one handler name
  at the same time, from free locks and as long as no instance starts or ends.\<close>

theorem cron_exclusive:
  assumes "\<forall>c \<in> set ws. (\<exists>srv0. cronStart (c, srv0)) \<and> cwService c = service \<and> cwLocker c = RedisLocker p"
    and "\<not> lsDown srv" "lsVals srv = (\<lambda>_. 0)" "clusterStep\<^sup>*\<^sup>* (ws, srv) (ws', srv')"
  shows "total n ws' \<le> 1"
proof -
  have "total n ws = 0" using assms(1) cronStart_inv by (fastforce simp: total_def held_def)
  then have "clusterInv p service n (ws, srv)"
    using assms(1-3) cronStart_inv by (fastforce simp: clusterInv_def lockCount_def)
  from assms(4) this have "clusterInv p service n (ws', srv')"
    by (induction rule: rtranclp_induct) (auto intro: clusterStep_inv)
  then show ?thesis by (simp add: clusterInv_def)
qed

lemma glob_star: "globMatch ps s \<Longrightarrow> globMatch (CHR ''*'' # ps) s"
  by (cases s) auto

lemma glob_prefix: "globMatch ps s \<Longrightarrow> globMatch (xs @ ps) (xs @ s)"
proof (induction xs)
  case (Cons x xs)
  then show ?case using glob_star [of "xs @ ps" "xs @ s"] by simp
qed simp

lemma glob_any: "globMatch ''*'' s"
  by (induction s) auto

lemma glob_locks: "globMatch (lockKeyOf p (lockPattern service ''*'')) (lockKeyOf p (lockPattern service n))"
  using glob_prefix [OF glob_any, of "p @ '':'' @ service @ '':cron-worker-lock:''" n] by (simp add: lockKeyOf_def lockPattern_def)

definition exLocked :: "cronWorker \<times> lockServer" where
  "exLocked = beginProcess 0 exRan freshServer"

theorem cron_exclusive_witness: "total ''clean'' [fst exLocked, exCron] = 1 \<and> total ''clean'' [fst exLocked, exCron] \<le> 1"
proof -
  have "length (cwRuns exRan) = 1 \<and> \<not> runLocked (cwRuns exRan ! 0)" by code_simp
  then have "cronStep (exRan, freshServer) exLocked" using cronStep.beginJob [of 0 exRan freshServer exLocked] by (simp add: exLocked_def)
  moreover have "\<not> cwCancelled (serveStart exCron)" "\<not> cwCancelled exTicked" "\<not> cwCancelled exRan" "\<not> cwCancelled (fst exLocked)" by code_simp+
  ultimately have "clusterStep ([exCron, exCron], freshServer) ([serveStart exCron, exCron], freshServer)"
    "clusterStep ([serveStart exCron, exCron], freshServer) ([exTicked, exCron], freshServer)"
    "clusterStep ([exTicked, exCron], freshServer) ([exRan, exCron], freshServer)"
    "clusterStep ([exRan, exCron], freshServer) ([fst exLocked, exCron], snd exLocked)"
    using clusterStep.work [of 0 "[_, exCron]"] exRan_steps [of freshServer] by auto
  then have "clusterStep\<^sup>*\<^sup>* ([exCron, exCron], freshServer) ([fst exLocked, exCron], snd exLocked)"
    by (meson converse_rtranclp_into_rtranclp rtranclp.rtrancl_refl)
  moreover have "\<forall>c \<in> set [exCron, exCron]. (\<exists>srv0. cronStart (c, srv0)) \<and> cwService c = ''svc'' \<and> cwLocker c = RedisLocker ''L''"
    using exNew_some exCron_start by auto
  ultimately have "total ''clean'' [fst exLocked, exCron] \<le> 1"
    using cron_exclusive [of "[exCron, exCron]" "''svc''" "''L''" freshServer] by (simp add: freshServer_def)
  moreover have "total ''clean'' [fst exLocked, exCron] = 1" by code_simp
  ultimately show ?thesis by blast
qed

text \<open>The start of an instance resets the locks of the whole service, also those of jobs that run in
  other instances, after which the same job can be run a second time.\<close>

theorem cron_start_frees_locks:
  assumes "\<not> lsDown srv" "newCronWorker service mx (RedisLocker p) now hs srv = (c, srv')"
  shows "fst (IsLocked (RedisLocker p) (lockPattern service n) srv') = False"
  using assms glob_locks [of p service n] by (auto simp: newCronWorker_def Reset_def IsLocked_def Let_def)

theorem cron_start_frees_locks_witness:
  "fst (IsLocked (RedisLocker ''L'') (lockPattern ''svc'' ''clean'') (snd exLocked)) \<and>
   \<not> fst (IsLocked (RedisLocker ''L'') (lockPattern ''svc'' ''clean'')
        (snd (newCronWorker ''svc'' 2 (RedisLocker ''L'') exNow [(''clean'', ''x'', ''10s'', exHandler)] (snd exLocked))))"
proof -
  have "fst (IsLocked (RedisLocker ''L'') (lockPattern ''svc'' ''clean'') (snd exLocked))" "\<not> lsDown (snd exLocked)" by code_simp+
  then show ?thesis using cron_start_frees_locks [OF _ prod.collapse [symmetric]] by blast
qed

text \<open>C13: when a job with a cron expression is received, it is registered again for the least matching
  time after now: its old ticker is stopped, and its select case listens to a new ticker that is due at
  that time (unless the wait saturates the 64 bits of a duration).\<close>

theorem cron_follows_schedule:
  assumes "cronInv c" "i < length (cwJobs c)" "cjSchedule (cwJobs c ! i) = Some e" "schedulable e" "valid_time now" "\<not> IsZero now"
    and "matchesTime e u" "tLoc u = tLoc now" "After u now"
  shows "\<exists>c' tk. registerNextInterval now i c = Some (Inr c') \<and> tkStopped (cwTickers c' ! cjTicker (cwJobs c ! i)) \<and>
    cwWorkers c' ! (i + 2) = TickerChan (cjTicker (cwJobs c' ! i)) \<and> cwTickers c' ! cjTicker (cwJobs c' ! i) = tk \<and> \<not> tkStopped tk \<and>
    (tkPeriod tk = maxInt64 \<or>
     (\<exists>r. matchesTime e r \<and> tLoc r = tLoc now \<and> tkDue tk = instant r \<and>
        (\<forall>u. matchesTime e u \<and> tLoc u = tLoc now \<and> After u now \<longrightarrow> \<not> Before u r)))"
proof -
  from NextInterval_least [OF assms(4-9)] obtain d e' where d: "NextInterval e now = Some (Inr (d, e'))" "0 < d"
    "d = maxInt64 \<or> (\<exists>r. matchesTime e r \<and> tLoc r = tLoc now \<and> instant r = instant now + d \<and>
       (\<forall>u. matchesTime e u \<and> tLoc u = tLoc now \<and> After u now \<longrightarrow> \<not> Before u r))" by blast
  from registerNextInterval_schedule [OF assms(1-3) d(1,2)] d(3) show ?thesis by force
qed

text \<open>Noon of every leap day.\<close>

definition exLeap :: cronWorker where
  "exLeap = (case newCronWorker ''svc'' 2 NoopLocker exNow [(''clean'', [], ''0 12 29 2 *'', exHandler)] freshServer of (Some (Inr c), _) \<Rightarrow> c | _ \<Rightarrow> exCron)"

lemma exLeap_inv: "cronInv exLeap"
  by code_simp

theorem cron_follows_schedule_witness:
  "\<exists>c' tk. registerNextInterval exNow 0 exLeap = Some (Inr c') \<and> tkStopped (cwTickers c' ! cjTicker (cwJobs exLeap ! 0)) \<and>
    cwWorkers c' ! (0 + 2) = TickerChan (cjTicker (cwJobs c' ! 0)) \<and> cwTickers c' ! cjTicker (cwJobs c' ! 0) = tk \<and> \<not> tkStopped tk \<and>
    (tkPeriod tk = maxInt64 \<or>
     (\<exists>r. matchesTime (the (cjSchedule (cwJobs exLeap ! 0))) r \<and> tLoc r = tLoc exNow \<and> tkDue tk = instant r \<and>
        (\<forall>u. matchesTime (the (cjSchedule (cwJobs exLeap ! 0))) u \<and> tLoc u = tLoc exNow \<and> After u exNow \<longrightarrow> \<not> Before u r)))"
proof (rule cron_follows_schedule [OF exLeap_inv])
  show "0 < length (cwJobs exLeap)" "cjSchedule (cwJobs exLeap ! 0) = Some (the (cjSchedule (cwJobs exLeap ! 0)))"
    "valid_time exNow" "\<not> IsZero exNow" "tLoc (Date 2028 2 29 12 0 0 0 0) = tLoc exNow" "After (Date 2028 2 29 12 0 0 0 0) exNow"
    "matchesTime (the (cjSchedule (cwJobs exLeap ! 0))) (Date 2028 2 29 12 0 0 0 0)" by code_simp+
  show "schedulable (the (cjSchedule (cwJobs exLeap ! 0)))" by code_simp
qed

text \<open>A job with a clock time first runs at that time; at its first run it gets a new ticker with the
  period that was asked for, and keeps that ticker from then on.\<close>

theorem clock_job_repeats:
  assumes "cronInv c" "addJob now j c = Some (Inr c1)" "ParseDurationExpression now (cjInterval j) = Inr (d, rep)" "0 < rep"
  shows "tkDue (cwTickers c1 ! cjTicker (cwJobs c1 ! length (cwJobs c))) = instant now + d \<and>
    (\<exists>c2. registerNextInterval now' (length (cwJobs c)) c1 = Some (Inr c2) \<and>
       cwTickers c2 ! cjTicker (cwJobs c2 ! length (cwJobs c)) = \<lparr>tkDue = instant now' + rep, tkPeriod = rep, tkStopped = False, tkPending = False\<rparr> \<and>
       registerNextInterval now'' (length (cwJobs c)) c2 = Some (Inr (refreshWorker c2)))"
proof -
  have t: "jobTiming now (cjInterval j) = Some (Inr (d, rep, None))" by (simp add: jobTiming_def assms(3))
  obtain tk where tk: "NewTicker now d = Inr tk" and
    c1: "c1 = c\<lparr>cwTickers := cwTickers c @ [tk], cwJobs := cwJobs c @ [j\<lparr>cjSchedule := None, cjNextDuration := Some rep,
         cjTicker := length (cwTickers c), cjWorkerIndex := length (cwWorkers c)\<rparr>], cwWorkers := cwWorkers c @ [TickerChan (length (cwTickers c))]\<rparr>"
    using addJob_shape [OF assms(2)] t assms(4) by auto
  have "tkDue tk = instant now + d" using tk by (auto simp: NewTicker_def split: if_splits)
  then show ?thesis using c1 assms(1,4)
    by (auto simp: registerNextInterval_def replaceTicker_def NewTicker_def Let_def stopTicker_def refreshWorker_def nth_append)
qed

definition exDaily :: cronJob where
  "exDaily = \<lparr>cjHandlerName = ''report'', cjInterval = ''07:30@weekly'', cjHandler = exHandler, cjParams = [], cjWorkerIndex = 0, cjTicker = 0,
     cjSchedule = None, cjNextDuration = None\<rparr>"

definition exDailyAdded :: cronWorker where
  "exDailyAdded = (case addJob exNow exDaily exCron of Some (Inr c) \<Rightarrow> c | _ \<Rightarrow> exCron)"

theorem clock_job_repeats_witness:
  "tkDue (cwTickers exDailyAdded ! cjTicker (cwJobs exDailyAdded ! 1)) = instant (Date 2024 3 2 7 30 0 0 0) \<and>
   (\<exists>c2. registerNextInterval (Date 2024 3 2 7 30 0 0 0) 1 exDailyAdded = Some (Inr c2) \<and>
      tkPeriod (cwTickers c2 ! cjTicker (cwJobs c2 ! 1)) = OneWeek)"
proof -
  have "case addJob exNow exDaily exCron of Some (Inr _) \<Rightarrow> True | _ \<Rightarrow> False" by code_simp
  then have "addJob exNow exDaily exCron = Some (Inr exDailyAdded)" unfolding exDailyAdded_def by (auto split: option.splits sum.splits)
  moreover have "cronInv exCron" "ParseDurationExpression exNow (cjInterval exDaily) = Inr (41400000000000, OneWeek)" "0 < OneWeek" "length (cwJobs exCron) = 1"
    "instant (Date 2024 3 2 7 30 0 0 0) = instant exNow + 41400000000000" by code_simp+
  ultimately show ?thesis using clock_job_repeats [of exCron exNow exDaily exDailyAdded] by fastforce
qed

text \<open>Once a schedule has no more times, the next registration of its job panics with a non-positive
  interval, in the goroutine of \<open>Serve\<close>.\<close>

theorem cron_exhausted_panics:
  assumes "cjSchedule (cwJobs c ! i) = Some e" "schedulable e" "valid_time now" "\<not> IsZero now" "After now zeroTime"
    and "\<forall>u. matchesTime e u \<and> tLoc u = tLoc now \<longrightarrow> \<not> After u now"
  shows "registerNextInterval now i c = Some (Inl PNonPositive)"
  using NextInterval_exhausted [OF assms(2-6)] assms(1) by (auto simp: registerNextInterval_def replaceTicker_def NewTicker_def Let_def)

text \<open>A job that runs once in 2024.\<close>

definition exOnce :: cronWorker where
  "exOnce = (case newCronWorker ''svc'' 2 NoopLocker exNow [(''clean'', [], ''0 0 1 6 * 2024'', exHandler)] freshServer of (Some (Inr c), _) \<Rightarrow> c | _ \<Rightarrow> exCron)"

theorem cron_exhausted_panics_witness: "registerNextInterval (Date 2025 1 1 0 0 0 0 0) 0 exOnce = Some (Inl PNonPositive)"
proof (rule cron_exhausted_panics)
  show "cjSchedule (cwJobs exOnce ! 0) = Some (the (cjSchedule (cwJobs exOnce ! 0)))" "valid_time (Date 2025 1 1 0 0 0 0 0)"
    "\<not> IsZero (Date 2025 1 1 0 0 0 0 0)" "After (Date 2025 1 1 0 0 0 0 0) zeroTime" by code_simp+
  show "schedulable (the (cjSchedule (cwJobs exOnce ! 0)))" by code_simp
  have years: "yearList (the (cjSchedule (cwJobs exOnce ! 0))) = [2024]" by code_simp
  have t: "tYear (Date 2025 1 1 0 0 0 0 0) = 2025" "valid_time (Date 2025 1 1 0 0 0 0 0)" "tNano (Date 2025 1 1 0 0 0 0 0) = 0" by code_simp+
  have "\<not> After u (Date 2025 1 1 0 0 0 0 0)" if "matchesTime (the (cjSchedule (cwJobs exOnce ! 0))) u" "tLoc u = tLoc (Date 2025 1 1 0 0 0 0 0)" for u
    using fieldsLess_of_instant [of "Date 2025 1 1 0 0 0 0 0" u] that t years by (auto simp: matchesTime_def After_def fieldsLess_def)
  then show "\<forall>u. matchesTime (the (cjSchedule (cwJobs exOnce ! 0))) u \<and> tLoc u = tLoc (Date 2025 1 1 0 0 0 0 0) \<longrightarrow> \<not> After u (Date 2025 1 1 0 0 0 0 0)"
    by blast
qed

end
