(* ===== verification/Candi_Broker.thy ===== *)
theory Candi_Broker
  imports Worker_Base Go_RFC3339
begin

text \<open>
  The brokers (\<open>src/broker\<close>): the registry of \<open>broker.go\<close> and the publishers of \<open>kafka.go\<close>,
  \<open>rabbitmq.go\<close> and \<open>redis.go\<close>, with the publisher argument (\<open>src/candishared/publisher_argument.go\<close>).
  Connections, options and traces are left out; the header that a trace injects is an argument, and so
  is what the client of the broker answers to a message.  The Redis publisher works on the keys that
  will expire and on one hash; a key is the JSON text of a message and is kept as the message itself.
\<close>

section \<open>Publisher arguments\<close>

record publisherArgument =
  paTopic :: string
  paKey :: string
  paHeader :: "(string \<times> gval) list"
  paContentType :: string
  paMessage :: string
  paDelay :: int
  paIsDeleteMessage :: bool
  paTimestamp :: gotime
  paData :: gval

definition PublisherArgument_Validate :: "publisherArgument \<Rightarrow> string option" where
  "PublisherArgument_Validate p =
     (if paTopic p = [] then Some ''topic cannot empty''
      else if length (paMessage p) = 0 then Some ''message cannot empty'' else None)"

text \<open>\<open>candihelper.ToBytes\<close>: a text as it is, any other value as JSON.\<close>

definition ToBytes :: "gval \<Rightarrow> string" where
  "ToBytes v =
     (case v of
        VStr s \<Rightarrow> s
      | VNil \<Rightarrow> ''null''
      | VInt i \<Rightarrow> Itoa i
      | VBool b \<Rightarrow> FormatBool b
      | VTime t \<Rightarrow> if 0 \<le> tYear t \<and> tYear t \<le> 9999 then [CHR 0x22] @ FormatRFC3339 True t @ [CHR 0x22] else [])"

section \<open>The registry\<close>

text \<open>A panic is \<open>Inl\<close>.\<close>

definition RegisterBroker :: "string \<Rightarrow> 'b \<Rightarrow> (string \<times> 'b) list \<Rightarrow> string + (string \<times> 'b) list" where
  "RegisterBroker brokerName bk brokers =
     (if map_of brokers brokerName \<noteq> None then Inl (''Register broker: '' @ brokerName @ '' has been registered'')
      else Inr (brokers @ [(brokerName, bk)]))"

fun InitBrokers :: "(string \<times> 'b) list \<Rightarrow> (string \<times> 'b) list \<Rightarrow> string + (string \<times> 'b) list" where
  "InitBrokers [] brokers = Inr brokers"
| "InitBrokers ((name, bk) # bks) brokers =
     (case RegisterBroker name bk brokers of Inl e \<Rightarrow> Inl e | Inr brokers' \<Rightarrow> InitBrokers bks brokers')"

definition DisconnectBrokers :: "('b \<Rightarrow> string option) \<Rightarrow> (string \<times> 'b) list \<Rightarrow> string option" where
  "DisconnectBrokers disconnect brokers =
     (let mErr = foldl (\<lambda>m (name, bk). multiAppend m name (disconnect bk)) NewMultiError brokers
      in if HasError mErr then Some (multiErrorText mErr) else None)"

section \<open>Kafka\<close>

record kafkaRecord =
  krTopic :: string
  krKey :: string
  krValue :: string
  krTimestamp :: gotime
  krHeaders :: "(string \<times> string) list"

definition kafkaRecordOf :: "(string \<times> string) list \<Rightarrow> gotime \<Rightarrow> publisherArgument \<Rightarrow> kafkaRecord" where
  "kafkaRecordOf traceHeader now args =
     (let payload = (if length (paMessage args) > 0 then paMessage args else ToBytes (paData args))
      in \<lparr>krTopic = paTopic args, krKey = paKey args, krValue = payload,
          krTimestamp = (if \<not> IsZero (paTimestamp args) then paTimestamp args else now),
          krHeaders = traceHeader @ map (\<lambda>(k, v). (k, ToBytes v)) (paHeader args)\<rparr>)"

text \<open>With the synchronous producer the error of the client is returned, with the asynchronous one none.\<close>

definition kafka_PublishMessage :: "(kafkaRecord \<Rightarrow> string option) option \<Rightarrow> (string \<times> string) list \<Rightarrow> gotime \<Rightarrow> publisherArgument \<Rightarrow>
    string option \<times> kafkaRecord" where
  "kafka_PublishMessage producerSync traceHeader now args =
     (let msg = kafkaRecordOf traceHeader now args
      in ((case producerSync of Some send \<Rightarrow> send msg | None \<Rightarrow> None), msg))"

section \<open>RabbitMQ\<close>

record publishing =
  pbRoutingKey :: string
  pbExchange :: string
  pbTimestamp :: gotime
  pbContentType :: string
  pbHeaders :: "(string \<times> gval) list"
  pbBody :: string

definition publishingOf :: "string \<Rightarrow> (string \<times> string) list \<Rightarrow> gotime \<Rightarrow> publisherArgument \<Rightarrow> publishing" where
  "publishingOf exchange traceHeader now args =
     (let header = foldl (\<lambda>h (k, v). AList.update k (VStr v) h) (paHeader args) traceHeader;
          header = (if paDelay args > 0 then AList.update ''x-delay'' (VInt (paDelay args div Millisecond)) header else header)
      in \<lparr>pbRoutingKey = paTopic args, pbExchange = exchange,
          pbTimestamp = (if \<not> IsZero (paTimestamp args) then paTimestamp args else now),
          pbContentType = (if paContentType args = [] then ''application/json'' else paContentType args),
          pbHeaders = header,
          pbBody = (if length (paMessage args) > 0 then paMessage args else ToBytes (paData args))\<rparr>)"

definition rabbit_PublishMessage :: "(unit \<Rightarrow> string option) \<Rightarrow> (publishing \<Rightarrow> string option) \<Rightarrow> string \<Rightarrow> (string \<times> string) list \<Rightarrow>
    gotime \<Rightarrow> publisherArgument \<Rightarrow> string option" where
  "rabbit_PublishMessage openChannel publish exchange traceHeader now args =
     (case openChannel () of Some e \<Rightarrow> Some e | None \<Rightarrow> publish (publishingOf exchange traceHeader now args))"

section \<open>Redis\<close>

record redisMessage =
  rmHandlerName :: string
  rmKey :: string
  rmMessage :: string
  rmEventID :: string

text \<open>The keys that wait for their expiry with the seconds left, and the hash \<open>RedisBrokerKey\<close>.\<close>

record redisStore =
  rsKeys :: "(redisMessage \<times> int) list"
  rsHash :: "string \<rightharpoonup> string"
  rsDown :: "string option"

text \<open>\<open>SET\<close> followed by \<open>EXPIRE\<close>, which deletes the key when the time is not positive.\<close>

definition expireKey :: "redisMessage \<Rightarrow> int \<Rightarrow> (redisMessage \<times> int) list \<Rightarrow> (redisMessage \<times> int) list" where
  "expireKey k seconds keys = (if seconds \<le> 0 then AList.delete k keys else AList.update k seconds keys)"

text \<open>\<open>KEYS\<close> finds the keys of the topic and the key; none of their characters is special in a pattern.\<close>

definition deleteMessage :: "publisherArgument \<Rightarrow> redisStore \<Rightarrow> string option \<times> redisStore" where
  "deleteMessage args r =
     (case rsDown r of
        Some e \<Rightarrow> (Some e, r)
      | None \<Rightarrow>
          (None, r\<lparr>rsHash := (rsHash r)(paKey args := None),
             rsKeys := filter (\<lambda>(k, s). \<not> (rmHandlerName k = paTopic args \<and> rmKey k = paKey args)) (rsKeys r)\<rparr>))"

definition redis_PublishMessage :: "string \<Rightarrow> publisherArgument \<Rightarrow> redisStore \<Rightarrow> string option \<times> redisStore" where
  "redis_PublishMessage eventID args r =
     (if paIsDeleteMessage args then deleteMessage args r
      else if paKey args = [] then (Some ''key cannot empty'', r)
      else case PublisherArgument_Validate args of
        Some e \<Rightarrow> (Some e, r)
      | None \<Rightarrow>
          if paDelay args \<le> 0 then (Some ''delay cannot empty'', r)
          else case rsDown r of
            Some e \<Rightarrow> (Some e, r)
          | None \<Rightarrow>
              let msg = \<lparr>rmHandlerName = paTopic args, rmKey = paKey args, rmMessage = [], rmEventID = eventID\<rparr>
              in (None, r\<lparr>rsKeys := expireKey msg (paDelay args div Second) (rsKeys r),
                     rsHash := (rsHash r)(paKey args \<mapsto> paMessage args)\<rparr>))"

end
