(* ===== verification/Message_Workers.thy ===== *)
theory Message_Workers
  imports Candi_Broker Candi_Locker
begin

text \<open>
  The workers that consume messages: \<open>src/codebase/app/redis_worker\<close>, \<open>kafka_worker\<close>, \<open>rabbitmq_worker\<close>
  and \<open>postgres_worker\<close>.  Each has the processing of one message as a function on the state it touches
  (the pool of event contexts, the lock server, the Redis store), and the loop of \<open>Serve\<close> with its
  semaphores as steps.  A processing returns what the functions of the handler left, when they ran.
  Clients of the brokers, JSON texts and traces are not modelled; where a JSON text is read or written
  its function is an argument.
\<close>

section \<open>Handling\<close>

text \<open>The error that the loop over the functions leaves and the event context they left.\<close>

type_synonym handled = "(string option \<times> eventContext) option"

text \<open>The pooled context of a message: set, handled and released.\<close>

definition withPooled :: "bool \<Rightarrow> (eventContext \<Rightarrow> eventContext) \<Rightarrow> workerHandler \<Rightarrow> eventContext list \<Rightarrow> handled \<times> eventContext list" where
  "withPooled keep fill h pool =
     (let (e, pool) = poolGet keep pool;
          (err, e') = runHandlerFuncs (whHandlerFuncs h) (fill e) None
      in (Some (err, e'), releaseMessagePool e' pool))"

section \<open>Redis\<close>

record redisWorker =
  rwService :: string
  rwWorkerType :: string
  rwMax :: nat
  rwLocker :: locker
  rwHandlers :: "string \<rightharpoonup> workerHandler"
  rwSemaphore :: "string \<Rightarrow> nat"
  rwRuns :: "redisMessage list"
  rwIsHaveJob :: bool
  rwCancelled :: bool

definition redis_lockPattern :: "string \<Rightarrow> string \<Rightarrow> string" where
  "redis_lockPattern service key = service @ '':redis-worker-lock:'' @ key"

definition redis_NewWorker :: "string \<Rightarrow> string \<Rightarrow> nat \<Rightarrow> locker \<Rightarrow> workerHandler list \<Rightarrow> lockServer \<Rightarrow> redisWorker \<times> lockServer" where
  "redis_NewWorker service workerType maxGoroutines l handlers srv =
     (\<lparr>rwService = service, rwWorkerType = workerType, rwMax = maxGoroutines, rwLocker = l,
       rwHandlers = foldl (\<lambda>m h. m(whPattern h \<mapsto> h)) Map.empty handlers, rwSemaphore = (\<lambda>_. 0), rwRuns = [],
       rwIsHaveJob = (handlers \<noteq> []), rwCancelled = False\<rparr>,
      Reset l (redis_lockPattern service ''*'') srv)"

definition redis_getLockKey :: "redisWorker \<Rightarrow> redisMessage \<Rightarrow> string" where
  "redis_getLockKey w m = redis_lockPattern (rwService w) (rmHandlerName m @ ''-'' @ rmEventID m)"

definition redisContext :: "redisWorker \<Rightarrow> redisMessage \<Rightarrow> string \<Rightarrow> eventContext \<Rightarrow> eventContext" where
  "redisContext w m message e =
     WriteContext message (SetHeader [''event_id'' \<mapsto> rmEventID m] (SetKey (rmKey m) (SetHandlerRoute (rmHandlerName m)
       (SetWorkerType (rwWorkerType w) (SetContext (Some []) e)))))"

text \<open>\<open>HGET\<close> and \<open>HDEL\<close> of a message whose text is not in the key itself; \<open>None\<close> is an error.\<close>

definition fetchMessage :: "redisMessage \<Rightarrow> redisStore \<Rightarrow> string option \<times> redisStore" where
  "fetchMessage m r =
     (if length (rmMessage m) \<noteq> 0 then (Some (rmMessage m), r)
      else if rsDown r \<noteq> None then (None, r)
      else case rsHash r (rmKey m) of
        None \<Rightarrow> (None, r)
      | Some message \<Rightarrow> (Some message, r\<lparr>rsHash := (rsHash r)(rmKey m := None)\<rparr>))"

text \<open>\<open>processMessage\<close> when nothing else happens on the server meanwhile; \<open>Redis_Cluster\<close> has its steps between
  those of other goroutines.\<close>

definition redis_processMessage :: "bool \<Rightarrow> redisWorker \<Rightarrow> redisMessage \<Rightarrow> lockServer \<times> redisStore \<times> eventContext list \<Rightarrow>
    handled \<times> lockServer \<times> redisStore \<times> eventContext list" where
  "redis_processMessage keep w m s =
     (case s of (srv, store, pool) \<Rightarrow>
        let lockKey = redis_getLockKey w m
        in case IsLocked (rwLocker w) lockKey srv of
             (True, srv) \<Rightarrow> (None, srv, store, pool)
           | (False, srv) \<Rightarrow>
               (case fetchMessage m store of
                  (None, store) \<Rightarrow> (None, Unlock (rwLocker w) lockKey srv, store, pool)
                | (Some message, store) \<Rightarrow>
                    (let (result, pool) = withPooled keep (redisContext w m message)
                           (case rwHandlers w (rmHandlerName m) of Some h \<Rightarrow> h
                            | None \<Rightarrow> \<lparr>whPattern = [], whHandlerFuncs = [], whDisableTrace = False, whAutoACK = False, whConfigs = Map.empty\<rparr>) pool
                     in (result, Unlock (rwLocker w) lockKey srv, store, pool))))"

text \<open>\<open>Serve\<close>: a message without handler is dropped; one with a handler waits for a place.\<close>

definition redis_receive :: "redisMessage \<Rightarrow> redisWorker \<Rightarrow> redisWorker option" where
  "redis_receive m w =
     (let k = rmHandlerName m
      in if rwHandlers w k = None then Some w
         else if rwSemaphore w k \<ge> rwMax w then None
         else Some (w\<lparr>rwSemaphore := (rwSemaphore w)(k := rwSemaphore w k + 1), rwRuns := rwRuns w @ [m]\<rparr>))"

definition redis_finish :: "redisMessage \<Rightarrow> redisWorker \<Rightarrow> redisWorker" where
  "redis_finish m w =
     w\<lparr>rwSemaphore := (rwSemaphore w)(rmHandlerName m := rwSemaphore w (rmHandlerName m) - 1), rwRuns := remove1 m (rwRuns w)\<rparr>"

definition redis_Shutdown :: "redisWorker \<Rightarrow> lockServer \<Rightarrow> redisWorker \<times> lockServer" where
  "redis_Shutdown w srv =
     (if \<not> rwIsHaveJob w then (w, srv)
      else (w\<lparr>rwCancelled := True\<rparr>, Reset (rwLocker w) (redis_lockPattern (rwService w) ''*'') srv))"

section \<open>Kafka\<close>

record kafkaMessage =
  kmRecord :: kafkaRecord
  kmOffset :: int
  kmPartition :: int

record consumerHandler =
  chWorkerType :: string
  chTopics :: "string list"
  chHandlerFuncs :: "string \<rightharpoonup> workerHandler"

definition kafka_NewWorker :: "string \<Rightarrow> workerHandler list \<Rightarrow> consumerHandler" where
  "kafka_NewWorker workerType handlers =
     \<lparr>chWorkerType = workerType, chTopics = map whPattern handlers, chHandlerFuncs = foldl (\<lambda>m h. m(whPattern h \<mapsto> h)) Map.empty handlers\<rparr>"

definition kafkaHeader :: "kafkaMessage \<Rightarrow> (string \<rightharpoonup> string)" where
  "kafkaHeader m =
     foldl (\<lambda>h (k, v). h(k \<mapsto> v))
       [''offset'' \<mapsto> Itoa (kmOffset m), ''partition'' \<mapsto> Itoa (kmPartition m), ''timestamp'' \<mapsto> FormatRFC3339 False (krTimestamp (kmRecord m))]
       (krHeaders (kmRecord m))"

definition kafkaContext :: "consumerHandler \<Rightarrow> kafkaMessage \<Rightarrow> eventContext \<Rightarrow> eventContext" where
  "kafkaContext c m e =
     WriteContext (krValue (kmRecord m)) (SetKey (krKey (kmRecord m)) (SetHeader (kafkaHeader m) (SetHandlerRoute (krTopic (kmRecord m))
       (SetWorkerType (chWorkerType c) (SetContext (Some []) e)))))"

text \<open>\<open>True\<close> is \<open>MarkMessage\<close>.  The deferred functions run also after a panic of the handler.\<close>

definition kafka_processMessage :: "bool \<Rightarrow> consumerHandler \<Rightarrow> kafkaMessage option \<Rightarrow> eventContext list \<Rightarrow> (handled \<times> bool) \<times> eventContext list" where
  "kafka_processMessage keep c message pool =
     (case message of
        None \<Rightarrow> ((None, False), pool)
      | Some m \<Rightarrow>
          (case chHandlerFuncs c (krTopic (kmRecord m)) of
             None \<Rightarrow> ((None, False), pool)
           | Some handler \<Rightarrow>
               let (result, pool) = withPooled keep (kafkaContext c m) handler pool
               in ((result, whAutoACK handler), pool)))"

text \<open>\<open>ConsumeClaim\<close>: the messages of a claim in order, until the session is done.  The marks are the
  messages for which \<open>MarkMessage\<close> was called.\<close>

datatype claimEvent = Message "kafkaMessage option" | SessionDone

fun ConsumeClaim :: "bool \<Rightarrow> consumerHandler \<Rightarrow> claimEvent list \<Rightarrow> eventContext list \<Rightarrow> kafkaMessage list \<times> eventContext list" where
  "ConsumeClaim keep c [] pool = ([], pool)"
| "ConsumeClaim keep c (SessionDone # es) pool = ([], pool)"
| "ConsumeClaim keep c (Message m # es) pool =
     (case kafka_processMessage keep c m pool of
        ((result, marked), pool') \<Rightarrow>
          (case ConsumeClaim keep c es pool' of
             (marks, pool'') \<Rightarrow> (case m of Some km \<Rightarrow> if marked then km # marks else marks | None \<Rightarrow> marks, pool'')))"

section \<open>RabbitMQ\<close>

record rabbitWorker =
  rbWorkerType :: string
  rbQueues :: "string list"
  rbHandlers :: "string \<rightharpoonup> workerHandler"
  rbSemaphore :: "nat list"
  rbRuns :: "nat list"
  rbShutdown :: bool
  rbServing :: bool
  rbCancelled :: bool

text \<open>\<open>setup\<close> is the answer of the broker to the declaration of a queue; an error is a panic.\<close>

definition rabbit_NewWorker :: "(string \<Rightarrow> string option) \<Rightarrow> string \<Rightarrow> workerHandler list \<Rightarrow> string + rabbitWorker" where
  "rabbit_NewWorker setup workerType handlers =
     (case find (\<lambda>h. setup (whPattern h) \<noteq> None) handlers of
        Some h \<Rightarrow> Inl (the (setup (whPattern h)))
      | None \<Rightarrow>
          Inr \<lparr>rbWorkerType = workerType, rbQueues = map whPattern handlers, rbHandlers = foldl (\<lambda>m h. m(whPattern h \<mapsto> h)) Map.empty handlers,
               rbSemaphore = map (\<lambda>_. 0) handlers, rbRuns = [], rbShutdown = False, rbServing = True, rbCancelled = False\<rparr>)"

definition rabbitHeader :: "publishing \<Rightarrow> (string \<rightharpoonup> string)" where
  "rabbitHeader m = map_of (map (\<lambda>(k, v). (k, ToBytes v)) (pbHeaders m))"

definition rabbitContext :: "rabbitWorker \<Rightarrow> publishing \<Rightarrow> eventContext" where
  "rabbitContext w m =
     WriteContext (pbBody m) (SetKey (pbExchange m) (SetHeader (rabbitHeader m) (SetHandlerRoute (pbRoutingKey m)
       (SetWorkerType (rbWorkerType w) (SetContext (Some []) (NewEventContext (replicate 256 (CHR 0x00))))))))"

text \<open>\<open>True\<close> is \<open>Ack\<close>; without handler the zero handler runs no function and does not acknowledge.\<close>

definition rabbit_processMessage :: "rabbitWorker \<Rightarrow> publishing \<Rightarrow> handled \<times> bool" where
  "rabbit_processMessage w m =
     (if rbCancelled w then (None, False)
      else case rbHandlers w (pbRoutingKey m) of
        None \<Rightarrow> (Some (None, rabbitContext w m), False)
      | Some h \<Rightarrow> (Some (runHandlerFuncs (whHandlerFuncs h) (rabbitContext w m) None), whAutoACK h))"

text \<open>\<open>Serve\<close>: a delivery of queue \<open>chosen\<close> waits for the one place of its queue; after \<open>Shutdown\<close> the
  place stays taken and the loop ends.\<close>

definition rabbit_receive :: "nat \<Rightarrow> rabbitWorker \<Rightarrow> rabbitWorker option" where
  "rabbit_receive chosen w =
     (if \<not> rbServing w \<or> chosen \<ge> length (rbSemaphore w) \<or> rbSemaphore w ! chosen \<ge> 1 then None
      else if rbShutdown w then Some (w\<lparr>rbSemaphore := (rbSemaphore w)[chosen := rbSemaphore w ! chosen + 1], rbServing := False\<rparr>)
      else Some (w\<lparr>rbSemaphore := (rbSemaphore w)[chosen := rbSemaphore w ! chosen + 1], rbRuns := rbRuns w @ [chosen]\<rparr>))"

definition rabbit_finish :: "nat \<Rightarrow> rabbitWorker \<Rightarrow> rabbitWorker" where
  "rabbit_finish i w = w\<lparr>rbSemaphore := (rbSemaphore w)[i := rbSemaphore w ! i - 1], rbRuns := remove1 i (rbRuns w)\<rparr>"

definition rabbit_ShutdownBegin :: "rabbitWorker \<Rightarrow> rabbitWorker" where
  "rabbit_ShutdownBegin w = w\<lparr>rbShutdown := True\<rparr>"

text \<open>The end of \<open>Shutdown\<close>, once all goroutines have ended.\<close>

definition rabbit_ShutdownEnd :: "rabbitWorker \<Rightarrow> rabbitWorker option" where
  "rabbit_ShutdownEnd w = (if rbRuns w = [] then Some (w\<lparr>rbCancelled := True\<rparr>) else None)"

section \<open>Postgres\<close>

record eventPayload =
  epEventID :: string
  epTable :: string
  epAction :: string
  epIsTooLong :: bool
  epOldID :: string
  epNewID :: string
  epOld :: gval
  epNew :: gval

definition GetID :: "eventPayload \<Rightarrow> string" where
  "GetID e = (if epIsTooLong e then (if epNewID e \<noteq> [] then epNewID e else epOldID e) else [])"

text \<open>The rows of a long payload are read from the table.\<close>

definition completePayload :: "(string \<Rightarrow> string \<Rightarrow> gval) \<Rightarrow> eventPayload \<Rightarrow> eventPayload" where
  "completePayload findDetailData d =
     (if epIsTooLong d then
        let detailData = findDetailData (epTable d) (GetID d)
        in if epAction d = ''INSERT'' then d\<lparr>epNew := detailData\<rparr>
           else if epAction d = ''UPDATE'' then d\<lparr>epNew := detailData, epOld := detailData\<rparr>
           else if epAction d = ''DELETE'' then d\<lparr>epOld := detailData\<rparr> else d
      else d)"

record postgresSource =
  psName :: string
  psHandlers :: "string \<rightharpoonup> workerHandler"
  psDetail :: "string \<Rightarrow> string \<Rightarrow> gval"

record postgresWorker =
  pwService :: string
  pwWorkerType :: string
  pwMax :: nat
  pwLocker :: locker
  pwSources :: "string \<rightharpoonup> postgresSource"
  pwSourceIndex :: "string list"
  pwSemaphores :: "string \<rightharpoonup> nat"
  pwRuns :: "string list"
  pwCancelled :: bool

text \<open>\<open>NewWorker\<close>: a handler of an unknown source is a panic; \<open>parseRoute\<close> reads the JSON of a pattern.\<close>

fun postgres_addHandlers :: "(string \<Rightarrow> string \<times> string) \<Rightarrow> workerHandler list \<Rightarrow> postgresWorker \<Rightarrow> string + postgresWorker" where
  "postgres_addHandlers parseRoute [] w = Inr w"
| "postgres_addHandlers parseRoute (h # hs) w =
     (let (sourceName, tableName) = parseRoute (whPattern h)
      in case pwSources w sourceName of
           None \<Rightarrow> Inl sourceName
         | Some src \<Rightarrow>
             postgres_addHandlers parseRoute hs
               (w\<lparr>pwSources := (pwSources w)(sourceName \<mapsto> src\<lparr>psHandlers := (psHandlers src)(tableName \<mapsto> h)\<rparr>),
                  pwSemaphores := (pwSemaphores w)(tableName \<mapsto> 0)\<rparr>))"

definition postgres_lockPattern :: "string \<Rightarrow> string \<Rightarrow> string" where
  "postgres_lockPattern service key = service @ '':postgres-worker-lock:'' @ key"

definition postgres_NewWorker :: "(string \<Rightarrow> string \<times> string) \<Rightarrow> string \<Rightarrow> string \<Rightarrow> nat \<Rightarrow> locker \<Rightarrow> postgresSource list \<Rightarrow> workerHandler list \<Rightarrow>
    lockServer \<Rightarrow> (string + postgresWorker) \<times> lockServer" where
  "postgres_NewWorker parseRoute service workerType maxGoroutines l sources handlers srv =
     (postgres_addHandlers parseRoute handlers
        \<lparr>pwService = service, pwWorkerType = workerType, pwMax = maxGoroutines, pwLocker = l,
         pwSources = map_of (map (\<lambda>s. (psName s, s\<lparr>psHandlers := Map.empty\<rparr>)) sources), pwSourceIndex = map psName sources,
         pwSemaphores = Map.empty, pwRuns = [], pwCancelled = False\<rparr>,
      Reset l (postgres_lockPattern service ''*'') srv)"

definition postgres_getLockKey :: "postgresWorker \<Rightarrow> eventPayload \<Rightarrow> string" where
  "postgres_getLockKey w d = postgres_lockPattern (pwService w) (epTable d @ ''-'' @ epAction d @ ''-'' @ epEventID d)"

definition postgresContext :: "(eventPayload \<Rightarrow> string) \<Rightarrow> postgresWorker \<Rightarrow> string \<Rightarrow> eventPayload \<Rightarrow> eventContext \<Rightarrow> eventContext" where
  "postgresContext marshal w sourceName d e =
     (let e = WriteContext (marshal d) (SetKey (epEventID d) (SetHandlerRoute (epTable d) (SetWorkerType (pwWorkerType w) (SetContext (Some []) e))))
      in if sourceName \<noteq> [] then SetHeader [''source_name'' \<mapsto> sourceName] e else e)"

definition execEvent :: "(eventPayload \<Rightarrow> string) \<Rightarrow> bool \<Rightarrow> postgresWorker \<Rightarrow> nat \<Rightarrow> eventPayload \<Rightarrow> lockServer \<times> eventContext list \<Rightarrow>
    handled \<times> lockServer \<times> eventContext list" where
  "execEvent marshal keep w workerIndex d s =
     (case s of (srv, pool) \<Rightarrow>
        case pwSources w (pwSourceIndex w ! workerIndex) of
          None \<Rightarrow> (None, srv, pool)
        | Some source \<Rightarrow>
            let lockKey = postgres_getLockKey w d
            in case IsLocked (pwLocker w) lockKey srv of
                 (True, srv) \<Rightarrow> (None, srv, pool)
               | (False, srv) \<Rightarrow>
                   (case psHandlers source (epTable d) of
                      None \<Rightarrow> (None, Unlock (pwLocker w) lockKey srv, pool)
                    | Some handler \<Rightarrow>
                        (let d' = completePayload (psDetail source) d;
                             (result, pool) = withPooled keep (postgresContext marshal w (psName source) d') handler pool
                         in (result, Unlock (pwLocker w) lockKey srv, pool))))"

text \<open>\<open>Serve\<close>: the send on the semaphore of the table.  A table without semaphore has the nil channel,
  on which a send blocks for ever: \<open>None\<close>, like a full semaphore, but no step can change it.\<close>

definition postgres_receive :: "eventPayload \<Rightarrow> postgresWorker \<Rightarrow> postgresWorker option" where
  "postgres_receive d w =
     (case pwSemaphores w (epTable d) of
        None \<Rightarrow> None
      | Some n \<Rightarrow>
          if n \<ge> pwMax w then None
          else Some (w\<lparr>pwSemaphores := (pwSemaphores w)(epTable d \<mapsto> n + 1), pwRuns := pwRuns w @ [epTable d]\<rparr>))"

definition postgres_finish :: "string \<Rightarrow> postgresWorker \<Rightarrow> postgresWorker" where
  "postgres_finish t w =
     w\<lparr>pwSemaphores := (pwSemaphores w)(t := map_option (\<lambda>n. n - 1) (pwSemaphores w t)), pwRuns := remove1 t (pwRuns w)\<rparr>"

definition postgres_ShutdownEnd :: "postgresWorker \<Rightarrow> lockServer \<Rightarrow> (postgresWorker \<times> lockServer) option" where
  "postgres_ShutdownEnd w srv =
     (if pwRuns w = [] then Some (w\<lparr>pwCancelled := True\<rparr>, Reset (pwLocker w) (postgres_lockPattern (pwService w) ''*'') srv) else None)"

section \<open>Goroutines\<close>

inductive redisStep :: "redisWorker \<Rightarrow> redisWorker \<Rightarrow> bool" where
  "redis_receive m w = Some w' \<Longrightarrow> redisStep w w'"
| "m \<in> set (rwRuns w) \<Longrightarrow> redisStep w (redis_finish m w)"
| "rwRuns w = [] \<Longrightarrow> redis_Shutdown w srv = (w', srv') \<Longrightarrow> redisStep w w'"

inductive rabbitStep :: "rabbitWorker \<Rightarrow> rabbitWorker \<Rightarrow> bool" where
  "rabbit_receive i w = Some w' \<Longrightarrow> rabbitStep w w'"
| "i \<in> set (rbRuns w) \<Longrightarrow> rabbitStep w (rabbit_finish i w)"
| "rabbitStep w (rabbit_ShutdownBegin w)"
| "rabbit_ShutdownEnd w = Some w' \<Longrightarrow> rabbitStep w w'"

inductive postgresStep :: "postgresWorker \<Rightarrow> postgresWorker \<Rightarrow> bool" where
  "postgres_receive d w = Some w' \<Longrightarrow> postgresStep w w'"
| "t \<in> set (pwRuns w) \<Longrightarrow> postgresStep w (postgres_finish t w)"
| "postgres_ShutdownEnd w srv = Some (w', srv') \<Longrightarrow> postgresStep w w'"

definition redisStart :: "redisWorker \<Rightarrow> bool" where
  "redisStart w \<longleftrightarrow> (\<exists>service t mx l hs srv. w = fst (redis_NewWorker service t mx l hs srv))"

definition rabbitStart :: "rabbitWorker \<Rightarrow> bool" where
  "rabbitStart w \<longleftrightarrow> (\<exists>setup t hs. rabbit_NewWorker setup t hs = Inr w)"

definition postgresStart :: "postgresWorker \<Rightarrow> bool" where
  "postgresStart w \<longleftrightarrow> (\<exists>parseRoute service t mx l srcs hs srv. fst (postgres_NewWorker parseRoute service t mx l srcs hs srv) = Inr w)"

lemma mset_remove1_map: "x \<in> set xs \<Longrightarrow> mset (map f (remove1 x xs)) = mset (map f xs) - {#f x#}"
  by (simp add: image_mset_Diff)

interpretation redisPool: goroutine_pool "\<lambda>w _. rwMax w" rwSemaphore "\<lambda>w. mset (map rmHandlerName (rwRuns w))" "\<lambda>_. True" redisStart redisStep
proof
  show "\<exists>mv. poolMoves (\<lambda>_. rwMax w) mv (rwSemaphore w, mset (map rmHandlerName (rwRuns w))) (rwSemaphore w', mset (map rmHandlerName (rwRuns w')))"
    if "redisStep w w'" for w w'
    using that
  proof cases
    case (1 m)
    then show ?thesis
      by (auto simp: redis_receive_def Let_def split: if_splits intro: exI [of _ Keep] exI [of _ "Start (rmHandlerName m)"])
  next
    case (2 m)
    then show ?thesis using mset_remove1_map [OF 2(2), of rmHandlerName]
      by (intro exI [of _ "Finish (rmHandlerName m)"]) (auto simp: redis_finish_def)
  next
    case (3 srv srv')
    then show ?thesis by (intro exI [of _ Keep]) (auto simp: redis_Shutdown_def split: if_splits)
  qed
  show "(\<lambda>_. rwMax w') = (\<lambda>_. rwMax w)" if "redisStep w w'" for w w'
    using that by cases (auto simp: redis_receive_def redis_finish_def redis_Shutdown_def Let_def split: if_splits)
qed (auto simp: redisStart_def redis_NewWorker_def)

definition rabbitSem :: "rabbitWorker \<Rightarrow> nat \<Rightarrow> nat" where
  "rabbitSem w i = (if i < length (rbSemaphore w) then rbSemaphore w ! i else 0)"

interpretation rabbitPool: goroutine_pool "\<lambda>_ _. 1" rabbitSem "\<lambda>w. mset (rbRuns w)" "\<lambda>w. \<forall>i \<in> set (rbRuns w). i < length (rbSemaphore w)" rabbitStart rabbitStep
proof
  show "\<exists>mv. poolMoves (\<lambda>_. 1) mv (rabbitSem w, mset (rbRuns w)) (rabbitSem w', mset (rbRuns w'))"
    if "rabbitStep w w'" "\<forall>i \<in> set (rbRuns w). i < length (rbSemaphore w)" for w w'
    using that(1)
  proof cases
    case (1 i)
    show ?thesis
    proof (cases "rbShutdown w")
      case True
      then show ?thesis using 1 by (intro exI [of _ "Leak i"])
        (auto simp: rabbit_receive_def rabbitSem_def fun_eq_iff nth_list_update split: if_splits)
    next
      case False
      then show ?thesis using 1 by (intro exI [of _ "Start i"])
        (auto simp: rabbit_receive_def rabbitSem_def fun_eq_iff nth_list_update split: if_splits)
    qed
  next
    case (2 i)
    then show ?thesis using that(2) by (intro exI [of _ "Finish i"]) (auto simp: rabbit_finish_def rabbitSem_def fun_eq_iff nth_list_update)
  next
    case 3
    then show ?thesis by (intro exI [of _ Keep]) (auto simp: rabbit_ShutdownBegin_def rabbitSem_def fun_eq_iff)
  next
    case 4
    then show ?thesis by (intro exI [of _ Keep]) (auto simp: rabbit_ShutdownEnd_def rabbitSem_def fun_eq_iff split: if_splits)
  qed
  show "\<forall>i \<in> set (rbRuns w'). i < length (rbSemaphore w')" if "rabbitStep w w'" "\<forall>i \<in> set (rbRuns w). i < length (rbSemaphore w)" for w w'
    using that
    by cases (auto simp: rabbit_receive_def rabbit_finish_def rabbit_ShutdownBegin_def rabbit_ShutdownEnd_def
        split: if_splits dest: notin_set_remove1 [THEN contrapos_pp, rotated] in_set_remove1 [THEN iffD1])
  show "rabbitSem w = (\<lambda>_. 0) \<and> mset (rbRuns w) = {#}" if "rabbitStart w" for w
    using that by (auto simp: rabbitStart_def rabbit_NewWorker_def rabbitSem_def fun_eq_iff split: option.splits)
qed (auto simp: rabbitStart_def rabbit_NewWorker_def split: option.splits)

definition postgresSem :: "postgresWorker \<Rightarrow> string \<Rightarrow> nat" where
  "postgresSem w t = (case pwSemaphores w t of None \<Rightarrow> 0 | Some n \<Rightarrow> n)"

lemma postgres_addHandlers_fresh:
  assumes "postgres_addHandlers parseRoute hs w = Inr w'" "\<forall>t. pwSemaphores w t = None \<or> pwSemaphores w t = Some 0" "pwRuns w = []"
  shows "(\<forall>t. pwSemaphores w' t = None \<or> pwSemaphores w' t = Some 0) \<and> pwRuns w' = []"
  using assms
proof (induction hs arbitrary: w)
  case (Cons h hs)
  obtain src t where r: "parseRoute (whPattern h) = (src, t)" by (cases "parseRoute (whPattern h)")
  from Cons.prems(1) r obtain ps where
    "postgres_addHandlers parseRoute hs (w\<lparr>pwSources := (pwSources w)(src \<mapsto> ps\<lparr>psHandlers := (psHandlers ps)(t \<mapsto> h)\<rparr>),
       pwSemaphores := (pwSemaphores w)(t \<mapsto> 0)\<rparr>) = Inr w'" by (auto split: option.splits)
  then show ?case by (rule Cons.IH) (use Cons.prems(2,3) in auto)
qed simp

lemma postgresStart_fresh: "postgresStart w \<Longrightarrow> postgresSem w = (\<lambda>_. 0) \<and> pwRuns w = []"
proof -
  assume "postgresStart w"
  then obtain parseRoute hs w0 where "postgres_addHandlers parseRoute hs w0 = Inr w" "pwSemaphores w0 = Map.empty" "pwRuns w0 = []"
    unfolding postgresStart_def postgres_NewWorker_def by auto
  from postgres_addHandlers_fresh [OF this(1)] this(2,3) have "\<forall>t. pwSemaphores w t = None \<or> pwSemaphores w t = Some 0" "pwRuns w = []" by simp_all
  moreover from this(1) have "postgresSem w t = 0" for t unfolding postgresSem_def by (metis option.simps(4,5))
  ultimately show ?thesis by blast
qed

interpretation postgresPool: goroutine_pool "\<lambda>w _. pwMax w" postgresSem "\<lambda>w. mset (pwRuns w)" "\<lambda>w. \<forall>t \<in> set (pwRuns w). pwSemaphores w t \<noteq> None"
  postgresStart postgresStep
proof
  show "\<exists>mv. poolMoves (\<lambda>_. pwMax w) mv (postgresSem w, mset (pwRuns w)) (postgresSem w', mset (pwRuns w'))"
    if "postgresStep w w'" "\<forall>t \<in> set (pwRuns w). pwSemaphores w t \<noteq> None" for w w'
    using that(1)
  proof cases
    case (1 d)
    then show ?thesis by (intro exI [of _ "Start (epTable d)"])
      (auto simp: postgres_receive_def postgresSem_def fun_eq_iff split: option.splits if_splits)
  next
    case (2 t)
    then show ?thesis by (intro exI [of _ "Finish t"]) (auto simp: postgres_finish_def postgresSem_def fun_eq_iff split: option.split)
  next
    case (3 srv srv')
    then show ?thesis by (intro exI [of _ Keep]) (auto simp: postgres_ShutdownEnd_def postgresSem_def fun_eq_iff split: if_splits)
  qed
  show "\<forall>t \<in> set (pwRuns w'). pwSemaphores w' t \<noteq> None" if "postgresStep w w'" "\<forall>t \<in> set (pwRuns w). pwSemaphores w t \<noteq> None" for w w'
    using that set_remove1_subset [of _ "pwRuns w"]
    by cases (auto simp: postgres_receive_def postgres_finish_def postgres_ShutdownEnd_def split: option.splits if_splits)
  show "(\<lambda>_. pwMax w') = (\<lambda>_. pwMax w)" if "postgresStep w w'" for w w'
    using that by cases (auto simp: postgres_receive_def postgres_finish_def postgres_ShutdownEnd_def split: option.splits if_splits)
qed (use postgresStart_fresh in auto)

section \<open>Lemmas\<close>

lemma withPooled_result:
  "withPooled keep fill h pool = (Some (runHandlerFuncs (whHandlerFuncs h) (fill (fst (poolGet keep pool))) None),
     releaseMessagePool (snd (runHandlerFuncs (whHandlerFuncs h) (fill (fst (poolGet keep pool))) None)) (snd (poolGet keep pool)))"
  by (simp add: withPooled_def Let_def split: prod.split)

lemma foldl_upd_map_of: "foldl (\<lambda>h (k, v). h(k \<mapsto> v)) m kvs k = (case map_of (rev kvs) k of None \<Rightarrow> m k | Some v \<Rightarrow> Some v)"
proof (induction kvs rule: rev_induct)
  case (snoc kv kvs)
  then show ?case by (cases kv) simp
qed simp

lemma last_header:
  assumes "distinct (map fst kvs)" "(k, v) \<in> set kvs"
  shows "foldl (\<lambda>h (k, v). h(k \<mapsto> v)) m (xs @ kvs) k = Some v"
proof -
  have "map_of (rev kvs) k = Some v" using assms map_of_is_SomeI [of "rev kvs" k v] by (simp add: rev_map [symmetric])
  then show ?thesis by (simp add: foldl_upd_map_of)
qed

section \<open>Properties\<close>

text \<open>In the Redis, the RabbitMQ and the Postgres worker the goroutines of one handler never exceed its
  semaphore: \<open>maxGoroutines\<close>, or one for each queue of RabbitMQ.\<close>

theorem message_goroutines_bounded:
  assumes "redisStart r" "redisStep\<^sup>*\<^sup>* r r'" "rabbitStart b" "rabbitStep\<^sup>*\<^sup>* b b'" "postgresStart p" "postgresStep\<^sup>*\<^sup>* p p'"
  shows "length (filter (\<lambda>m. rmHandlerName m = k) (rwRuns r')) \<le> rwMax r' \<and> length (filter (\<lambda>i. i = q) (rbRuns b')) \<le> 1 \<and>
    length (filter (\<lambda>t. t = k) (pwRuns p')) \<le> pwMax p'"
proof -
  have c: "count (mset (map f xs)) y = length (filter (\<lambda>x. f x = y) xs)" for f :: "'a \<Rightarrow> 'b" and xs y by (induction xs) auto
  show ?thesis
    using redisPool.bounded [OF assms(1,2), of k] rabbitPool.bounded [OF assms(3,4), of q] postgresPool.bounded [OF assms(5,6), of k]
      c [of rmHandlerName "rwRuns r'" k] c [of id "rbRuns b'" q] c [of id "pwRuns p'" k] by (simp only: list.map_id id_apply)
qed

text \<open>C29: what is published to Kafka reaches the functions of the handler of its topic: they get the
  topic, the key, the message (or the data as text) and every header that was published, in a context
  without an error, whatever was handled before with the pooled context.\<close>

theorem kafka_roundtrip:
  assumes "kafka_PublishMessage producerSync traceHeader now args = (err, msg)" "chHandlerFuncs c (paTopic args) = Some h"
    and "list_all blankContext pool" "distinct (map fst (paHeader args))"
  shows "\<exists>e. fst (fst (kafka_processMessage keep c (Some \<lparr>kmRecord = msg, kmOffset = off, kmPartition = part\<rparr>) pool)) =
      Some (runHandlerFuncs (whHandlerFuncs h) e None) \<and>
    ecHandlerRoute e = paTopic args \<and> ecKey e = paKey args \<and> ecErr e = None \<and>
    ecMessageBuff e = (if length (paMessage args) > 0 then paMessage args else ToBytes (paData args)) \<and>
    (\<forall>(k, v) \<in> set (paHeader args). ecHeader e k = Some (ToBytes v))"
proof -
  let ?m = "\<lparr>kmRecord = msg, kmOffset = off, kmPartition = part\<rparr>" and ?e = "kafkaContext c \<lparr>kmRecord = msg, kmOffset = off, kmPartition = part\<rparr> (fst (poolGet keep pool))"
  have msg: "msg = kafkaRecordOf traceHeader now args" using assms(1) by (simp add: kafka_PublishMessage_def Let_def)
  have blank: "blankContext (fst (poolGet keep pool))" using poolGet_blank [OF assms(3)] by simp
  then have b: "ecMessageBuff (fst (poolGet keep pool)) = []" "ecErr (fst (poolGet keep pool)) = None"
    unfolding blankContext_def NewEventContext_def by (metis eventContext.select_convs(6,8) eventContext.update_convs(7,9))+
  have "ecHeader ?e k = Some (ToBytes v)" if "(k, v) \<in> set (paHeader args)" for k v
  proof -
    have "distinct (map fst (map (\<lambda>(k, v). (k, ToBytes v)) (paHeader args)))" using assms(4) by (simp add: comp_def case_prod_beta)
    then show ?thesis using that last_header [of "map (\<lambda>(k, v). (k, ToBytes v)) (paHeader args)" k "ToBytes v"]
      by (force simp: kafkaContext_def setters kafkaHeader_def msg kafkaRecordOf_def Let_def)
  qed
  then show ?thesis using assms(2) b
    by (intro exI [of _ ?e]) (auto simp: kafka_processMessage_def withPooled_result Let_def kafkaContext_def setters msg kafkaRecordOf_def)
qed

text \<open>Two messages published under one key, even for different topics, share one field of the hash:
  the second overwrites the text of the first, and the first event to be handled leaves nothing for the
  other.  A delay below one second makes the key vanish at once, so that no event ever comes.\<close>

theorem redis_publish_loses:
  assumes "redis_PublishMessage id1 a r = (None, r1)" "redis_PublishMessage id2 b r1 = (None, r2)" "paKey a = paKey b"
    and "\<not> paIsDeleteMessage a" "\<not> paIsDeleteMessage b"
  shows "rsHash r2 (paKey a) = Some (paMessage b) \<and>
    (let m1 = \<lparr>rmHandlerName = paTopic a, rmKey = paKey a, rmMessage = [], rmEventID = id1\<rparr>;
         m2 = \<lparr>rmHandlerName = paTopic b, rmKey = paKey b, rmMessage = [], rmEventID = id2\<rparr>
     in fst (fetchMessage m1 r2) = Some (paMessage b) \<and> fst (fetchMessage m2 (snd (fetchMessage m1 r2))) = None \<and>
        (paDelay b < Second \<longrightarrow> m2 \<notin> fst ` set (rsKeys r2)))"
proof -
  have b: "rsDown r1 = None" "r2 = r1\<lparr>rsKeys := expireKey \<lparr>rmHandlerName = paTopic b, rmKey = paKey b, rmMessage = [], rmEventID = id2\<rparr>
      (paDelay b div Second) (rsKeys r1), rsHash := (rsHash r1)(paKey b \<mapsto> paMessage b)\<rparr>" "0 < paDelay b"
    using assms(2,5) by (auto simp: redis_PublishMessage_def Let_def split: if_splits option.splits)
  have "paDelay b div Second \<le> 0" if "paDelay b < Second" using that b(3) by (simp add: div_pos_pos_trivial)
  then show ?thesis using b assms(3) by (auto simp: Let_def fetchMessage_def expireKey_def dom_map_of_conv_image_fst [symmetric] delete_conv)
qed

text \<open>The value that a handler puts into its context is not cleared by \<open>Reset\<close>: the handler of the next
  message that gets the pooled context sees the value of the message before.\<close>

theorem pooled_value_leaks:
  "withPooled keep fill h pool = (Some (err, e'), pool') \<Longrightarrow> ecValue (fst (poolGet True pool')) = ecValue e'"
  by (auto simp: withPooled_result releaseMessagePool_def poolGet_def ResetContext_def)

lemma postgresStep_dom: "postgresStep w w' \<Longrightarrow> dom (pwSemaphores w') = dom (pwSemaphores w)"
  by (cases rule: postgresStep.cases)
    (auto simp: postgres_receive_def postgres_finish_def postgres_ShutdownEnd_def dom_def split: option.splits if_splits)

text \<open>An event of a table without a handler stops the Postgres worker: the send on the missing semaphore
  can never happen, in whatever state the worker gets to.\<close>

theorem postgres_unknown_table_blocks:
  assumes "pwSemaphores w (epTable d) = None" "postgresStep\<^sup>*\<^sup>* w w'"
  shows "postgres_receive d w' = None"
proof -
  from assms(2) have "dom (pwSemaphores w') = dom (pwSemaphores w)" by (induction rule: rtranclp_induct) (simp_all add: postgresStep_dom)
  then have "pwSemaphores w' (epTable d) = None" using assms(1) by (metis domIff)
  then show ?thesis by (simp add: postgres_receive_def)
qed

text \<open>The lock does not keep two instances from handling one Postgres event: an instance that comes to
  the event after the first has finished, runs the functions of its handler again.\<close>

theorem postgres_event_twice:
  assumes "pwSources w (pwSourceIndex w ! i) = Some src" "psHandlers src (epTable d) = Some h" "pwLocker w = RedisLocker p"
    and "\<not> lsDown srv" "lsVals srv (lockKeyOf p (postgres_getLockKey w d)) = 0"
  shows "\<exists>r1 srv1 pool1. execEvent marshal keep w i d (srv, pool) = (Some r1, srv1, pool1) \<and>
    (\<exists>r2 srv2 pool2. execEvent marshal keep' w i d (srv1, pool') = (Some r2, srv2, pool2))"
proof -
  have run: "\<exists>r1 srv1 pool1. execEvent marshal keep w i d (srv, pool) = (Some r1, srv1, pool1) \<and> \<not> lsDown srv1 \<and>
      lsVals srv1 (lockKeyOf p (postgres_getLockKey w d)) = 0"
    if "\<not> lsDown srv" "lsVals srv (lockKeyOf p (postgres_getLockKey w d)) = 0" for srv keep pool
    using that assms(1-3) by (simp add: execEvent_def Let_def IsLocked_def Unlock_def withPooled_result)
  from run [OF assms(4,5)] obtain r1 srv1 pool1 where "execEvent marshal keep w i d (srv, pool) = (Some r1, srv1, pool1)"
    and "\<not> lsDown srv1" "lsVals srv1 (lockKeyOf p (postgres_getLockKey w d)) = 0" by blast
  with run [of srv1 keep' pool'] show ?thesis by blast
qed

section \<open>Witnesses\<close>

definition okHandler :: "string \<Rightarrow> workerHandler" where
  "okHandler p = \<lparr>whPattern = p, whHandlerFuncs = [\<lambda>e. (HOk, SetContextValue (VStr p) e)], whDisableTrace = False, whAutoACK = True, whConfigs = Map.empty\<rparr>"

definition exRedis :: redisWorker where
  "exRedis = fst (redis_NewWorker ''svc'' ''redis_subscriber'' 2 (RedisLocker ''L'') [okHandler ''mail''] freshServer)"

definition exMsg :: redisMessage where
  "exMsg = \<lparr>rmHandlerName = ''mail'', rmKey = ''k'', rmMessage = [], rmEventID = ''1''\<rparr>"

definition exStore :: redisStore where
  "exStore = \<lparr>rsKeys = [], rsHash = [''k'' \<mapsto> ''hello''], rsDown = None\<rparr>"

definition exRabbit :: rabbitWorker where
  "exRabbit = \<lparr>rbWorkerType = ''rabbit_mq'', rbQueues = [''mail''], rbHandlers = [''mail'' \<mapsto> okHandler ''mail''], rbSemaphore = [0], rbRuns = [],
     rbShutdown = False, rbServing = True, rbCancelled = False\<rparr>"

definition exPostgres :: postgresWorker where
  "exPostgres = \<lparr>pwService = ''svc'', pwWorkerType = ''postgres_listener'', pwMax = 1, pwLocker = RedisLocker ''L'',
     pwSources = [[] \<mapsto> \<lparr>psName = [], psHandlers = [''users'' \<mapsto> okHandler ''users''], psDetail = (\<lambda>_ _. VNil)\<rparr>], pwSourceIndex = [[]],
     pwSemaphores = [''users'' \<mapsto> 0], pwRuns = [], pwCancelled = False\<rparr>"

definition exEvent :: "string \<Rightarrow> eventPayload" where
  "exEvent t = \<lparr>epEventID = ''e1'', epTable = t, epAction = ''INSERT'', epIsTooLong = False, epOldID = [], epNewID = [], epOld = VNil, epNew = VNil\<rparr>"

theorem message_goroutines_bounded_witness:
  "length (rwRuns (the (redis_receive exMsg exRedis))) = 1 \<and>
   length (filter (\<lambda>m. rmHandlerName m = ''mail'') (rwRuns (the (redis_receive exMsg exRedis)))) \<le> rwMax (the (redis_receive exMsg exRedis))"
proof -
  have r: "redisStart exRedis" unfolding redisStart_def exRedis_def by blast
  have b: "rabbitStart exRabbit" unfolding rabbitStart_def
    by (rule exI [of _ "\<lambda>_. None"], rule exI [of _ "''rabbit_mq''"], rule exI [of _ "[okHandler ''mail'']"])
      (simp add: rabbit_NewWorker_def exRabbit_def okHandler_def find_None_iff)
  have "fst (postgres_NewWorker (\<lambda>p. ([], p)) ''svc'' ''postgres_listener'' 1 (RedisLocker ''L'')
      [\<lparr>psName = [], psHandlers = Map.empty, psDetail = (\<lambda>_ _. VNil)\<rparr>] [okHandler ''users''] freshServer) = Inr exPostgres"
    by (simp add: postgres_NewWorker_def exPostgres_def okHandler_def)
  then have p: "postgresStart exPostgres" unfolding postgresStart_def by blast
  have "redis_receive exMsg exRedis \<noteq> None" "length (rwRuns (the (redis_receive exMsg exRedis))) = 1" by code_simp+
  moreover from this(1) have "redisStep\<^sup>*\<^sup>* exRedis (the (redis_receive exMsg exRedis))" by (metis option.collapse r_into_rtranclp redisStep.intros(1))
  ultimately show ?thesis
    using message_goroutines_bounded [OF r _ b rtranclp.rtrancl_refl p rtranclp.rtrancl_refl, of "the (redis_receive exMsg exRedis)" "''mail''"] by blast
qed

theorem kafka_roundtrip_witness:
  "\<exists>e. fst (fst (kafka_processMessage True (kafka_NewWorker ''kafka'' [okHandler ''mail''])
      (Some \<lparr>kmRecord = kafkaRecordOf [(''trace'', ''t'')] zeroTime \<lparr>paTopic = ''mail'', paKey = ''k'', paHeader = [(''n'', VInt 7)], paContentType = [],
         paMessage = ''hello'', paDelay = 0, paIsDeleteMessage = False, paTimestamp = zeroTime, paData = VNil\<rparr>, kmOffset = 3, kmPartition = 0\<rparr>) [])) =
      Some (runHandlerFuncs (whHandlerFuncs (okHandler ''mail'')) e None) \<and> ecKey e = ''k'' \<and> ecMessageBuff e = ''hello'' \<and> ecHeader e ''n'' = Some ''7''"
proof -
  let ?a = "\<lparr>paTopic = ''mail'', paKey = ''k'', paHeader = [(''n'', VInt 7)], paContentType = [],
         paMessage = ''hello'', paDelay = 0, paIsDeleteMessage = False, paTimestamp = zeroTime, paData = VNil\<rparr>"
  have p: "kafka_PublishMessage None [(''trace'', ''t'')] zeroTime ?a = (None, kafkaRecordOf [(''trace'', ''t'')] zeroTime ?a)"
    by (simp add: kafka_PublishMessage_def Let_def)
  have c: "chHandlerFuncs (kafka_NewWorker ''kafka'' [okHandler ''mail'']) (paTopic ?a) = Some (okHandler ''mail'')"
    by (simp add: kafka_NewWorker_def okHandler_def)
  have "ToBytes (VInt 7) = ''7''" by code_simp
  then show ?thesis using kafka_roundtrip [OF p c, of "[]" True 3 0] by fastforce
qed

definition exArg :: "string \<Rightarrow> string \<Rightarrow> publisherArgument" where
  "exArg topic message = \<lparr>paTopic = topic, paKey = ''user-1'', paHeader = [], paContentType = [], paMessage = message, paDelay = Second div 2,
     paIsDeleteMessage = False, paTimestamp = zeroTime, paData = VNil\<rparr>"

definition exBoth :: redisStore where
  "exBoth = snd (redis_PublishMessage ''2'' (exArg ''sms'' ''second'') (snd (redis_PublishMessage ''1'' (exArg ''mail'' ''first'') exStore)))"

theorem redis_publish_loses_witness: "rsHash exBoth ''user-1'' = Some ''second'' \<and> rsKeys exBoth = []"
proof -
  have "fst (redis_PublishMessage ''1'' (exArg ''mail'' ''first'') exStore) = None"
    "fst (redis_PublishMessage ''2'' (exArg ''sms'' ''second'') (snd (redis_PublishMessage ''1'' (exArg ''mail'' ''first'') exStore))) = None" by code_simp+
  then have "rsHash exBoth (paKey (exArg ''mail'' ''first'')) = Some (paMessage (exArg ''sms'' ''second''))"
    using redis_publish_loses [of "''1''" "exArg ''mail'' ''first''" exStore _ "''2''" "exArg ''sms'' ''second''" exBoth]
    unfolding exBoth_def by (simp add: prod_eq_iff exArg_def)
  moreover have "rsKeys exBoth = []" by code_simp
  ultimately show ?thesis by (simp add: exArg_def)
qed

theorem pooled_value_leaks_witness:
  "ecValue (fst (poolGet True (snd (withPooled True id (okHandler ''secret'') [])))) = Some (VStr ''secret'')"
proof -
  obtain err e' pool' where w: "withPooled True id (okHandler ''secret'') [] = (Some (err, e'), pool')"
    by (cases "runHandlerFuncs (whHandlerFuncs (okHandler ''secret'')) (id (fst (poolGet True []))) None") (simp add: withPooled_result)
  moreover have "ecValue e' = Some (VStr ''secret'')" using w by (auto simp: withPooled_result okHandler_def SetContextValue_def)
  ultimately show ?thesis using pooled_value_leaks [OF w] by simp
qed

theorem postgres_unknown_table_blocks_witness:
  "postgres_receive (exEvent ''orders'') (the (postgres_receive (exEvent ''users'') exPostgres)) = None"
proof (rule postgres_unknown_table_blocks [of exPostgres])
  show "pwSemaphores exPostgres (epTable (exEvent ''orders'')) = None" by (simp add: exPostgres_def exEvent_def)
  have "postgres_receive (exEvent ''users'') exPostgres \<noteq> None" by (simp add: postgres_receive_def exPostgres_def exEvent_def)
  then show "postgresStep\<^sup>*\<^sup>* exPostgres (the (postgres_receive (exEvent ''users'') exPostgres))"
    by (metis option.collapse r_into_rtranclp postgresStep.intros(1))
qed

theorem postgres_event_twice_witness:
  "\<exists>r1 srv1 pool1. execEvent (\<lambda>_. ''{}'') True exPostgres 0 (exEvent ''users'') (freshServer, []) = (Some r1, srv1, pool1) \<and>
     (\<exists>r2 srv2 pool2. execEvent (\<lambda>_. ''{}'') True exPostgres 0 (exEvent ''users'') (srv1, []) = (Some r2, srv2, pool2))"
  by (rule postgres_event_twice [where p = "''L''" and h = "okHandler ''users''" and src = "\<lparr>psName = [], psHandlers = [''users'' \<mapsto> okHandler ''users''], psDetail = (\<lambda>_ _. VNil)\<rparr>"]) (simp_all add: exPostgres_def exEvent_def freshServer_def)

end
