(* ===== verification/Redis_Cluster.thy ===== *)
theory Redis_Cluster
  imports Message_Workers
begin

text \<open>
  Several instances of the Redis worker (\<open>src/codebase/app/redis_worker/redis_worker.go\<close>) over one Redis
  server.  Each instance gets every event, in a goroutine of its own; \<open>processMessage\<close> is cut at its
  commands to the server (\<open>IsLocked\<close>, \<open>HGET\<close>, \<open>HDEL\<close>, \<open>Unlock\<close>) and at the functions of the handler, and the
  goroutines of all instances interleave at these cuts.  Publishers, instances that start and instances
  that end act in between.
\<close>

section \<open>One goroutine\<close>

text \<open>Where a goroutine stands: the command it does next.\<close>

datatype redisPC = AtLock | AtGet | AtDel | AtHandle | AtUnlock | AtEnd

text \<open>The local variables of \<open>processMessage\<close>: \<open>message\<close>, and what the functions of the handler left.\<close>

record redisRun =
  rrInstance :: nat
  rrMsg :: redisMessage
  rrPC :: redisPC
  rrText :: string
  rrResult :: handled

definition redisHandler :: "redisWorker \<Rightarrow> redisMessage \<Rightarrow> workerHandler" where
  "redisHandler w m = (case rwHandlers w (rmHandlerName m) of Some h \<Rightarrow> h
     | None \<Rightarrow> \<lparr>whPattern = [], whHandlerFuncs = [], whDisableTrace = False, whAutoACK = False, whConfigs = Map.empty\<rparr>)"

text \<open>One step of a goroutine of the worker \<open>w\<close>, on the locks, the store and the pool of its instance.  The
  first step also has the check of the context that the goroutine does before \<open>processMessage\<close>.\<close>

definition redis_advance :: "bool \<Rightarrow> redisWorker \<Rightarrow> redisRun \<Rightarrow> lockServer \<times> redisStore \<times> eventContext list \<Rightarrow>
    redisRun \<times> lockServer \<times> redisStore \<times> eventContext list" where
  "redis_advance keep w r s =
     (case s of (srv, store, pool) \<Rightarrow>
        let m = rrMsg r; lockKey = redis_getLockKey w m
        in case rrPC r of
             AtLock \<Rightarrow>
               if rwCancelled w then (r\<lparr>rrPC := AtEnd\<rparr>, srv, store, pool)
               else (case IsLocked (rwLocker w) lockKey srv of
                 (True, srv) \<Rightarrow> (r\<lparr>rrPC := AtEnd\<rparr>, srv, store, pool)
               | (False, srv) \<Rightarrow> (r\<lparr>rrPC := if length (rmMessage m) = 0 then AtGet else AtHandle, rrText := rmMessage m\<rparr>, srv, store, pool))
           | AtGet \<Rightarrow>
               (case if rsDown store \<noteq> None then None else rsHash store (rmKey m) of
                  None \<Rightarrow> (r\<lparr>rrPC := AtUnlock\<rparr>, srv, store, pool)
                | Some message \<Rightarrow> (r\<lparr>rrPC := AtDel, rrText := message\<rparr>, srv, store, pool))
           | AtDel \<Rightarrow>
               (r\<lparr>rrPC := AtHandle\<rparr>, srv, if rsDown store \<noteq> None then store else store\<lparr>rsHash := (rsHash store)(rmKey m := None)\<rparr>, pool)
           | AtHandle \<Rightarrow>
               (let (result, pool) = withPooled keep (redisContext w m (rrText r)) (redisHandler w m) pool
                in (r\<lparr>rrPC := AtUnlock, rrResult := result\<rparr>, srv, store, pool))
           | AtUnlock \<Rightarrow> (r\<lparr>rrPC := AtEnd\<rparr>, Unlock (rwLocker w) lockKey srv, store, pool)
           | AtEnd \<Rightarrow> (r, srv, store, pool))"

definition newRun :: "nat \<Rightarrow> redisMessage \<Rightarrow> redisRun" where
  "newRun i m = \<lparr>rrInstance = i, rrMsg = m, rrPC = AtLock, rrText = [], rrResult = None\<rparr>"

fun redis_alone :: "nat \<Rightarrow> bool \<Rightarrow> redisWorker \<Rightarrow> redisRun \<Rightarrow> lockServer \<times> redisStore \<times> eventContext list \<Rightarrow>
    redisRun \<times> lockServer \<times> redisStore \<times> eventContext list" where
  "redis_alone 0 keep w r s = (r, s)"
| "redis_alone (Suc n) keep w r s = (case redis_advance keep w r s of (r', s') \<Rightarrow> redis_alone n keep w r' s')"

section \<open>The cluster\<close>

record redisCluster =
  rcWorkers :: "redisWorker list"
  rcLocks :: lockServer
  rcStore :: redisStore
  rcPools :: "nat \<Rightarrow> eventContext list"
  rcRuns :: "redisRun list"

datatype redisAct =
    ActReceive nat redisMessage
  | ActAdvance nat bool
  | ActPublish string publisherArgument
  | ActStart string string nat locker "workerHandler list"
  | ActShutdown nat

text \<open>\<open>None\<close> is an act that is not possible yet: a message that waits for a place of the semaphore, a
  goroutine that has ended, the end of an instance that still waits for its goroutines.\<close>

fun redis_act :: "redisAct \<Rightarrow> redisCluster \<Rightarrow> redisCluster option" where
  "redis_act (ActReceive i m) c =
     (if i < length (rcWorkers c) then
        (case redis_receive m (rcWorkers c ! i) of
           None \<Rightarrow> None
         | Some w \<Rightarrow> Some (c\<lparr>rcWorkers := (rcWorkers c)[i := w],
             rcRuns := rcRuns c @ (if rwHandlers (rcWorkers c ! i) (rmHandlerName m) = None then [] else [newRun i m])\<rparr>))
      else None)"
| "redis_act (ActAdvance n keep) c =
     (if n < length (rcRuns c) \<and> rrPC (rcRuns c ! n) \<noteq> AtEnd then
        (let r = rcRuns c ! n; i = rrInstance r; w = rcWorkers c ! i
         in case redis_advance keep w r (rcLocks c, rcStore c, rcPools c i) of
              (r', srv, store, pool) \<Rightarrow>
                Some (c\<lparr>rcWorkers := (if rrPC r' = AtEnd then (rcWorkers c)[i := redis_finish (rrMsg r) w] else rcWorkers c),
                  rcLocks := srv, rcStore := store, rcPools := (rcPools c)(i := pool), rcRuns := (rcRuns c)[n := r']\<rparr>))
      else None)"
| "redis_act (ActPublish eventID args) c = Some (c\<lparr>rcStore := snd (redis_PublishMessage eventID args (rcStore c))\<rparr>)"
| "redis_act (ActStart service workerType mx l handlers) c =
     (case redis_NewWorker service workerType mx l handlers (rcLocks c) of
        (w, srv) \<Rightarrow> Some (c\<lparr>rcWorkers := rcWorkers c @ [w], rcLocks := srv\<rparr>))"
| "redis_act (ActShutdown i) c =
     (if i < length (rcWorkers c) \<and> rwRuns (rcWorkers c ! i) = [] then
        (case redis_Shutdown (rcWorkers c ! i) (rcLocks c) of
           (w, srv) \<Rightarrow> Some (c\<lparr>rcWorkers := (rcWorkers c)[i := w], rcLocks := srv\<rparr>))
      else None)"

fun redis_acts :: "redisAct list \<Rightarrow> redisCluster \<Rightarrow> redisCluster option" where
  "redis_acts [] c = Some c"
| "redis_acts (a # as) c = Option.bind (redis_act a c) (redis_acts as)"

text \<open>The goroutines that took the text of the event out of the hash, and of these the ones that have
  deleted it there.\<close>

definition deleted :: "redisMessage \<Rightarrow> redisRun \<Rightarrow> bool" where
  "deleted m r \<longleftrightarrow> rrMsg r = m \<and> (rrPC r = AtHandle \<or> rrResult r \<noteq> None)"

definition took :: "redisMessage \<Rightarrow> redisRun \<Rightarrow> bool" where
  "took m r \<longleftrightarrow> rrMsg r = m \<and> (rrPC r = AtDel \<or> rrPC r = AtHandle \<or> rrResult r \<noteq> None)"

text \<open>The acts during which the lock can do its work for the event \<open>m\<close>: no instance starts or ends, nothing
  is published or deleted under the key of the event, and no other event with that key comes.\<close>

fun onlyEvent :: "redisMessage \<Rightarrow> redisAct \<Rightarrow> bool" where
  "onlyEvent m (ActReceive _ m') = (rmKey m' = rmKey m \<longrightarrow> m' = m)"
| "onlyEvent m (ActAdvance _ _) = True"
| "onlyEvent m (ActPublish _ args) = (paKey args \<noteq> rmKey m)"
| "onlyEvent m (ActStart _ _ _ _ _) = False"
| "onlyEvent m (ActShutdown _) = False"

section \<open>Without interference\<close>

text \<open>A goroutine that nobody disturbs does what \<open>redis_processMessage\<close> says.\<close>

lemma advance_lock:
  "\<not> rwCancelled w \<Longrightarrow> rrPC r = AtLock \<Longrightarrow> IsLocked (rwLocker w) (redis_getLockKey w (rrMsg r)) srv = (b, srv') \<Longrightarrow>
     redis_advance keep w r (srv, store, pool) =
       (if b then (r\<lparr>rrPC := AtEnd\<rparr>, srv', store, pool)
        else (r\<lparr>rrPC := if length (rmMessage (rrMsg r)) = 0 then AtGet else AtHandle, rrText := rmMessage (rrMsg r)\<rparr>, srv', store, pool))"
  by (simp add: redis_advance_def split: bool.split)

lemma advance_rest:
  "rrPC r = AtGet \<Longrightarrow> redis_advance keep w r (srv, store, pool) =
     (case if rsDown store \<noteq> None then None else rsHash store (rmKey (rrMsg r)) of
        None \<Rightarrow> (r\<lparr>rrPC := AtUnlock\<rparr>, srv, store, pool) | Some message \<Rightarrow> (r\<lparr>rrPC := AtDel, rrText := message\<rparr>, srv, store, pool))"
  "rrPC r = AtDel \<Longrightarrow> redis_advance keep w r (srv, store, pool) =
     (r\<lparr>rrPC := AtHandle\<rparr>, srv, if rsDown store \<noteq> None then store else store\<lparr>rsHash := (rsHash store)(rmKey (rrMsg r) := None)\<rparr>, pool)"
  "rrPC r = AtHandle \<Longrightarrow> redis_advance keep w r (srv, store, pool) =
     (case withPooled keep (redisContext w (rrMsg r) (rrText r)) (redisHandler w (rrMsg r)) pool of
        (result, pool) \<Rightarrow> (r\<lparr>rrPC := AtUnlock, rrResult := result\<rparr>, srv, store, pool))"
  "rrPC r = AtUnlock \<Longrightarrow> redis_advance keep w r (srv, store, pool) =
     (r\<lparr>rrPC := AtEnd\<rparr>, Unlock (rwLocker w) (redis_getLockKey w (rrMsg r)) srv, store, pool)"
  "rrPC r = AtEnd \<Longrightarrow> redis_advance keep w r (srv, store, pool) = (r, srv, store, pool)"
  by (simp_all add: redis_advance_def Let_def)

lemma redis_alone_processMessage:
  assumes "\<not> rwCancelled w"
  shows "\<exists>r s'. redis_alone 5 keep w (newRun i m) s = (r, s') \<and> rrPC r = AtEnd \<and> redis_processMessage keep w m s = (rrResult r, s')"
proof -
  obtain srv store pool where s: "s = (srv, store, pool)" by (cases s)
  obtain b srv' where lk: "IsLocked (rwLocker w) (redis_getLockKey w m) srv = (b, srv')" by force
  obtain result pool' where p: "withPooled keep (redisContext w m t) (redisHandler w m) pool = (result, pool')" if "t = rmMessage m" for t by force
  have start: "redis_advance keep w (newRun i m) (srv, store, pool) =
      (if b then ((newRun i m)\<lparr>rrPC := AtEnd\<rparr>, srv', store, pool)
       else ((newRun i m)\<lparr>rrPC := if length (rmMessage m) = 0 then AtGet else AtHandle, rrText := rmMessage m\<rparr>, srv', store, pool))"
    using advance_lock [OF assms, of "newRun i m" srv b srv'] lk by (simp add: newRun_def)
  have run: "rrMsg (newRun i m) = m" "rrResult (newRun i m) = None" by (simp_all add: newRun_def)
  note step = start run lk advance_rest
  show ?thesis
  proof (cases b)
    case True
    then show ?thesis using lk by (simp add: s numeral_eq_Suc step redis_processMessage_def)
  next
    case False
    show ?thesis
    proof (cases "rmMessage m = []")
      case True
      show ?thesis
      proof (cases "if rsDown store \<noteq> None then None else rsHash store (rmKey m)")
        case None
        then show ?thesis using False True
          by (auto simp: s numeral_eq_Suc step redis_processMessage_def fetchMessage_def split: if_splits)
      next
        case (Some t)
        obtain result pool' where p: "withPooled keep (redisContext w m t) (redisHandler w m) pool = (result, pool')" by force
        have d: "rsDown store = None" "rsHash store (rmKey m) = Some t" using Some by (auto split: if_splits)
        show ?thesis using False True d p
          by (simp add: s numeral_eq_Suc step redis_processMessage_def fetchMessage_def redisHandler_def)
      qed
    next
      case nonempty: False
      show ?thesis using False nonempty p [OF refl]
        by (simp add: s numeral_eq_Suc step redis_processMessage_def fetchMessage_def redisHandler_def)
    qed
  qed
qed

section \<open>The lock of an event\<close>

text \<open>The goroutines between \<open>IsLocked\<close> and \<open>Unlock\<close> of the lock of the event \<open>m\<close>.\<close>

definition holds :: "redisMessage \<Rightarrow> redisRun \<Rightarrow> bool" where
  "holds m r \<longleftrightarrow> rrPC r \<in> {AtGet, AtDel, AtHandle, AtUnlock} \<and>
     rmHandlerName (rrMsg r) @ ''-'' @ rmEventID (rrMsg r) = rmHandlerName m @ ''-'' @ rmEventID m"

definition atMostOne :: "('a \<Rightarrow> bool) \<Rightarrow> 'a list \<Rightarrow> bool" where
  "atMostOne P xs \<longleftrightarrow> (\<forall>i j. i < length xs \<longrightarrow> j < length xs \<longrightarrow> P (xs ! i) \<longrightarrow> P (xs ! j) \<longrightarrow> i = j)"

text \<open>What every goroutine keeps, and what the cluster keeps; \<open>t0\<close> is the text in the hash at the start.\<close>

definition runInv :: "redisMessage \<Rightarrow> string option \<Rightarrow> nat \<Rightarrow> redisRun \<Rightarrow> bool" where
  "runInv m t0 n r \<longleftrightarrow> rrInstance r < n \<and> (rmKey (rrMsg r) = rmKey m \<longrightarrow> rrMsg r = m) \<and>
     (rrPC r \<in> {AtLock, AtGet, AtDel, AtHandle} \<longrightarrow> rrResult r = None) \<and> (took m r \<longrightarrow> Some (rrText r) = t0)"

definition redisInv :: "redisMessage \<Rightarrow> string \<Rightarrow> string \<Rightarrow> string option \<Rightarrow> redisCluster \<Rightarrow> bool" where
  "redisInv m service p t0 c \<longleftrightarrow>
     (\<forall>w\<in>set (rcWorkers c). rwService w = service \<and> rwLocker w = RedisLocker p) \<and>
     (\<forall>r\<in>set (rcRuns c). runInv m t0 (length (rcWorkers c)) r) \<and>
     \<not> lsDown (rcLocks c) \<and> rsDown (rcStore c) = None \<and>
     (let k = lockKeyOf p (redis_lockPattern service (rmHandlerName m @ ''-'' @ rmEventID m))
      in 0 \<le> lsVals (rcLocks c) k \<and> (lsVals (rcLocks c) k = 0 \<longrightarrow> (\<forall>r\<in>set (rcRuns c). \<not> holds m r))) \<and>
     atMostOne (holds m) (rcRuns c) \<and> atMostOne (took m) (rcRuns c) \<and>
     rsHash (rcStore c) (rmKey m) = (if \<exists>r\<in>set (rcRuns c). deleted m r then None else t0)"

lemma atMostOne_update:
  assumes "atMostOne P xs" "n < length xs" "P y \<Longrightarrow> \<not> P (xs ! n) \<Longrightarrow> \<forall>x\<in>set xs. \<not> P x"
  shows "atMostOne P (xs[n := y])"
  unfolding atMostOne_def
proof (intro allI impI)
  fix i j assume ij: "i < length (xs[n := y])" "j < length (xs[n := y])" "P (xs[n := y] ! i)" "P (xs[n := y] ! j)"
  have "P (xs ! n) \<or> (\<forall>x\<in>set xs. \<not> P x)" if "P y" using assms(3) that by blast
  then show "i = j" using assms(1,2) ij unfolding atMostOne_def by (simp add: nth_list_update split: if_splits) (metis nth_mem)+
qed

lemma atMostOne_append: "atMostOne P xs \<Longrightarrow> \<not> P y \<Longrightarrow> atMostOne P (xs @ [y])"
  unfolding atMostOne_def by (auto simp: nth_append less_Suc_eq split: if_splits)

lemma ex_update: "n < length xs \<Longrightarrow> P y = P (xs ! n) \<Longrightarrow> (\<exists>x\<in>set (xs[n := y]). P x) = (\<exists>x\<in>set xs. P x)"
  by (metis in_set_conv_nth length_list_update nth_list_update)

lemma redisLockKey_inj [simp]: "lockKeyOf p (redis_lockPattern service x) = lockKeyOf p (redis_lockPattern service y) \<longleftrightarrow> x = y"
  by (simp add: lockKeyOf_def redis_lockPattern_def)

text \<open>The invariant after one goroutine has moved.\<close>

lemma redisInv_moved:
  assumes inv: "redisInv m service p t0 c" and n: "n < length (rcRuns c)"
    and ws: "\<forall>w\<in>set ws. rwService w = service \<and> rwLocker w = RedisLocker p" "length ws = length (rcWorkers c)"
    and r': "runInv m t0 (length (rcWorkers c)) r'" and up: "\<not> lsDown srv" "rsDown store = None"
    and lock: "0 \<le> lsVals srv (lockKeyOf p (redis_lockPattern service (rmHandlerName m @ ''-'' @ rmEventID m)))"
      "lsVals srv (lockKeyOf p (redis_lockPattern service (rmHandlerName m @ ''-'' @ rmEventID m))) = 0 \<Longrightarrow>
         \<forall>x\<in>set ((rcRuns c)[n := r']). \<not> holds m x"
    and h: "holds m r' \<Longrightarrow> \<not> holds m (rcRuns c ! n) \<Longrightarrow> \<forall>x\<in>set (rcRuns c). \<not> holds m x"
    and t: "took m r' \<Longrightarrow> \<not> took m (rcRuns c ! n) \<Longrightarrow> \<forall>x\<in>set (rcRuns c). \<not> took m x"
    and hash: "rsHash store (rmKey m) = (if \<exists>x\<in>set ((rcRuns c)[n := r']). deleted m x then None else t0)"
  shows "redisInv m service p t0 (c\<lparr>rcWorkers := ws, rcLocks := srv, rcStore := store, rcPools := pools, rcRuns := (rcRuns c)[n := r']\<rparr>)"
proof -
  have "atMostOne (holds m) ((rcRuns c)[n := r'])" "atMostOne (took m) ((rcRuns c)[n := r'])"
    using inv n h t by (auto simp: redisInv_def Let_def intro!: atMostOne_update)
  moreover have "\<forall>r\<in>set ((rcRuns c)[n := r']). runInv m t0 (length ws) r"
    using inv r' ws(2) by (auto simp: redisInv_def dest!: set_update_subset_insert [THEN subsetD])
  ultimately show ?thesis using ws up lock hash by (simp add: redisInv_def Let_def)
qed

lemma redisInv_facts:
  assumes "redisInv m service p t0 c" "n < length (rcRuns c)"
  shows "runInv m t0 (length (rcWorkers c)) (rcRuns c ! n)" "rrInstance (rcRuns c ! n) < length (rcWorkers c)"
    "rwLocker (rcWorkers c ! rrInstance (rcRuns c ! n)) = RedisLocker p"
    "redis_getLockKey (rcWorkers c ! rrInstance (rcRuns c ! n)) (rrMsg (rcRuns c ! n)) =
       redis_lockPattern service (rmHandlerName (rrMsg (rcRuns c ! n)) @ ''-'' @ rmEventID (rrMsg (rcRuns c ! n)))"
    "holds m (rcRuns c ! n) \<Longrightarrow> j < length (rcRuns c) \<Longrightarrow> holds m (rcRuns c ! j) \<Longrightarrow> j = n"
proof -
  show r: "runInv m t0 (length (rcWorkers c)) (rcRuns c ! n)" using assms by (auto simp: redisInv_def)
  then show i: "rrInstance (rcRuns c ! n) < length (rcWorkers c)" by (simp add: runInv_def)
  then have "rwService (rcWorkers c ! rrInstance (rcRuns c ! n)) = service \<and> rwLocker (rcWorkers c ! rrInstance (rcRuns c ! n)) = RedisLocker p"
    using assms(1) by (auto simp: redisInv_def)
  then show "rwLocker (rcWorkers c ! rrInstance (rcRuns c ! n)) = RedisLocker p"
    "redis_getLockKey (rcWorkers c ! rrInstance (rcRuns c ! n)) (rrMsg (rcRuns c ! n)) =
       redis_lockPattern service (rmHandlerName (rrMsg (rcRuns c ! n)) @ ''-'' @ rmEventID (rrMsg (rcRuns c ! n)))"
    by (simp_all add: redis_getLockKey_def)
  show "holds m (rcRuns c ! n) \<Longrightarrow> j < length (rcRuns c) \<Longrightarrow> holds m (rcRuns c ! j) \<Longrightarrow> j = n"
    using assms by (simp add: redisInv_def atMostOne_def)
qed

text \<open>A goroutine moves and neither takes a lock nor gives one back.\<close>

lemma redisInv_local:
  assumes inv: "redisInv m service p t0 c" and n: "n < length (rcRuns c)"
    and ws: "\<forall>w\<in>set ws. rwService w = service \<and> rwLocker w = RedisLocker p" "length ws = length (rcWorkers c)"
    and r': "runInv m t0 (length (rcWorkers c)) r'" and h: "holds m r' = holds m (rcRuns c ! n)"
    and t: "took m r' \<Longrightarrow> \<not> took m (rcRuns c ! n) \<Longrightarrow> \<forall>x\<in>set (rcRuns c). \<not> took m x" and up: "rsDown store = None"
    and hash: "rsHash store (rmKey m) = (if \<exists>x\<in>set ((rcRuns c)[n := r']). deleted m x then None else t0)"
  shows "redisInv m service p t0 (c\<lparr>rcWorkers := ws, rcLocks := rcLocks c, rcStore := store, rcPools := pools, rcRuns := (rcRuns c)[n := r']\<rparr>)"
proof (rule redisInv_moved [OF inv n ws r' _ up _ _ _ t hash])
  let ?K = "lockKeyOf p (redis_lockPattern service (rmHandlerName m @ ''-'' @ rmEventID m))"
  show "\<not> lsDown (rcLocks c)" "0 \<le> lsVals (rcLocks c) ?K" using inv by (simp_all add: redisInv_def Let_def)
  show "\<forall>x\<in>set ((rcRuns c)[n := r']). \<not> holds m x" if "lsVals (rcLocks c) ?K = 0"
    using that inv n ex_update [of n "rcRuns c" "holds m" r'] h by (auto simp: redisInv_def Let_def)
qed (use h in auto)

lemma finish_keeps:
  assumes "\<forall>w\<in>set ws. rwService w = service \<and> rwLocker w = RedisLocker p" "i < length ws"
  shows "\<forall>w\<in>set (if b then ws[i := redis_finish k (ws ! i)] else ws). rwService w = service \<and> rwLocker w = RedisLocker p"
proof -
  have "ws ! i \<in> set ws" using assms(2) by simp
  then have "rwService (redis_finish k (ws ! i)) = service \<and> rwLocker (redis_finish k (ws ! i)) = RedisLocker p"
    using assms(1) by (simp add: redis_finish_def)
  then show ?thesis using assms(1) by (auto dest!: set_update_subset_insert [THEN subsetD])
qed

text \<open>The step that tries the lock: the goroutine ends, or it goes on with the lock.\<close>

lemma redisInv_locks:
  assumes "redisInv m service p t0 c"
  defines "k \<equiv> lockKeyOf p (redis_lockPattern service (rmHandlerName m @ ''-'' @ rmEventID m))"
  shows "\<not> lsDown (rcLocks c)" "rsDown (rcStore c) = None" "0 \<le> lsVals (rcLocks c) k"
    "lsVals (rcLocks c) k = 0 \<Longrightarrow> x \<in> set (rcRuns c) \<Longrightarrow> \<not> holds m x"
    "rsHash (rcStore c) (rmKey m) = (if \<exists>x\<in>set (rcRuns c). deleted m x then None else t0)"
  using assms by (auto simp: redisInv_def Let_def)

lemma AtLock_facts:
  assumes "redisInv m service p t0 c" "n < length (rcRuns c)" "rrPC (rcRuns c ! n) = AtLock"
  shows "\<not> holds m (rcRuns c ! n)" "rrResult (rcRuns c ! n) = None" "\<not> deleted m (rcRuns c ! n)" "\<not> took m (rcRuns c ! n)"
  using redisInv_facts(1) [OF assms(1,2)] assms(3) by (auto simp: holds_def runInv_def deleted_def took_def)

lemma lock_refused_inv:
  assumes inv: "redisInv m service p t0 c" and n: "n < length (rcRuns c)" and pc: "rrPC (rcRuns c ! n) = AtLock"
    and ws: "\<forall>w\<in>set ws. rwService w = service \<and> rwLocker w = RedisLocker p" "length ws = length (rcWorkers c)"
    and srv: "srv = rcLocks c \<or> srv = (rcLocks c)\<lparr>lsVals := (lsVals (rcLocks c))(k := lsVals (rcLocks c) k + 1)\<rparr> \<and> lsVals (rcLocks c) k > 0"
  shows "redisInv m service p t0 (c\<lparr>rcWorkers := ws, rcLocks := srv, rcStore := rcStore c, rcPools := pools,
      rcRuns := (rcRuns c)[n := (rcRuns c ! n)\<lparr>rrPC := AtEnd\<rparr>]\<rparr>)"
proof (rule redisInv_moved [OF inv n ws])
  let ?K = "lockKeyOf p (redis_lockPattern service (rmHandlerName m @ ''-'' @ rmEventID m))"
  let ?r = "(rcRuns c ! n)\<lparr>rrPC := AtEnd\<rparr>"
  note old = AtLock_facts [OF inv n pc] and up = redisInv_locks [OF inv]
  show "runInv m t0 (length (rcWorkers c)) ?r" using redisInv_facts(1) [OF inv n] old by (simp add: runInv_def took_def)
  show "\<not> lsDown srv" "0 \<le> lsVals srv ?K" using srv up(1,3) by auto
  show "\<forall>x\<in>set ((rcRuns c)[n := ?r]). \<not> holds m x" if "lsVals srv ?K = 0"
  proof -
    have "lsVals (rcLocks c) ?K = 0" using that srv by (auto split: if_splits)
    then show ?thesis using up(4) ex_update [OF n, of "holds m" ?r] old by (auto simp: holds_def)
  qed
  show "rsHash (rcStore c) (rmKey m) = (if \<exists>x\<in>set ((rcRuns c)[n := ?r]). deleted m x then None else t0)"
    using up(5) ex_update [OF n, of "deleted m" ?r] old by (simp add: deleted_def)
qed (use AtLock_facts [OF inv n pc] redisInv_locks(2) [OF inv] in \<open>auto simp: holds_def took_def\<close>)

lemma lock_taken_inv:
  assumes inv: "redisInv m service p t0 c" and n: "n < length (rcRuns c)" and m: "rmMessage m = []" and pc: "rrPC (rcRuns c ! n) = AtLock"
    and ws: "\<forall>w\<in>set ws. rwService w = service \<and> rwLocker w = RedisLocker p" "length ws = length (rcWorkers c)"
  defines "r \<equiv> rcRuns c ! n"
  defines "k \<equiv> lockKeyOf p (redis_lockPattern service (rmHandlerName (rrMsg r) @ ''-'' @ rmEventID (rrMsg r)))"
    and "go \<equiv> r\<lparr>rrPC := if length (rmMessage (rrMsg r)) = 0 then AtGet else AtHandle, rrText := rmMessage (rrMsg r)\<rparr>"
  assumes free: "\<not> lsVals (rcLocks c) k > 0"
  shows "redisInv m service p t0 (c\<lparr>rcWorkers := ws, rcLocks := (rcLocks c)\<lparr>lsVals := (lsVals (rcLocks c))(k := lsVals (rcLocks c) k + 1)\<rparr>,
      rcStore := rcStore c, rcPools := pools, rcRuns := (rcRuns c)[n := go]\<rparr>)"
proof (rule redisInv_moved [OF inv n ws])
  let ?K = "lockKeyOf p (redis_lockPattern service (rmHandlerName m @ ''-'' @ rmEventID m))"
  let ?srv = "(rcLocks c)\<lparr>lsVals := (lsVals (rcLocks c))(k := lsVals (rcLocks c) k + 1)\<rparr>"
  note old = AtLock_facts [OF inv n pc, folded r_def] and up = redisInv_locks [OF inv]
  have kK: "k = ?K \<longleftrightarrow> rmHandlerName (rrMsg r) @ ''-'' @ rmEventID (rrMsg r) = rmHandlerName m @ ''-'' @ rmEventID m" by (simp add: k_def)
  have notook: "\<not> took m go" "\<not> deleted m go" using m old by (auto simp: go_def took_def deleted_def)
  show "runInv m t0 (length (rcWorkers c)) go"
    using redisInv_facts(1) [OF inv n, folded r_def] old notook by (simp add: runInv_def) (simp add: go_def)
  show "\<not> lsDown ?srv" "0 \<le> lsVals ?srv ?K" using up(1,3) by auto
  show "\<forall>x\<in>set ((rcRuns c)[n := go]). \<not> holds m x" if "lsVals ?srv ?K = 0"
  proof -
    have ne: "k \<noteq> ?K" using that up(3) by auto
    then have "lsVals (rcLocks c) ?K = 0" using that by simp
    moreover have "\<not> holds m go" using ne kK by (simp add: holds_def go_def)
    ultimately show ?thesis using up(4) ex_update [OF n, of "holds m" go] old by (auto simp: r_def)
  qed
  show "\<forall>x\<in>set (rcRuns c). \<not> holds m x" if "holds m go"
  proof -
    have "k = ?K" using that kK by (simp add: holds_def go_def)
    then have "lsVals (rcLocks c) ?K = 0" using free up(3) by simp
    then show ?thesis using up(4) by blast
  qed
  show "rsHash (rcStore c) (rmKey m) = (if \<exists>x\<in>set ((rcRuns c)[n := go]). deleted m x then None else t0)"
    using up(5) ex_update [OF n, of "deleted m" go] old notook by (simp add: r_def)
  show "\<forall>x\<in>set (rcRuns c). \<not> took m x" if "took m go" using that notook by simp
qed (rule redisInv_locks(2) [OF inv])

lemma advance_AtLock_inv:
  assumes inv: "redisInv m service p t0 c" and n: "n < length (rcRuns c)" and m: "rmMessage m = []" and pc: "rrPC (rcRuns c ! n) = AtLock"
    and run: "redis_advance keep (rcWorkers c ! rrInstance (rcRuns c ! n)) (rcRuns c ! n) (rcLocks c, rcStore c, pool) = (r', srv, store, pool')"
    and ws: "\<forall>w\<in>set ws. rwService w = service \<and> rwLocker w = RedisLocker p" "length ws = length (rcWorkers c)"
  shows "redisInv m service p t0 (c\<lparr>rcWorkers := ws, rcLocks := srv, rcStore := store, rcPools := pools, rcRuns := (rcRuns c)[n := r']\<rparr>)"
proof -
  define r where "r = rcRuns c ! n"
  define k where "k = lockKeyOf p (redis_lockPattern service (rmHandlerName (rrMsg r) @ ''-'' @ rmEventID (rrMsg r)))"
  define locked where "locked = (rcLocks c)\<lparr>lsVals := (lsVals (rcLocks c))(k := lsVals (rcLocks c) k + 1)\<rparr>"
  define go where "go = r\<lparr>rrPC := if length (rmMessage (rrMsg r)) = 0 then AtGet else AtHandle, rrText := rmMessage (rrMsg r)\<rparr>"
  have lk: "IsLocked (rwLocker (rcWorkers c ! rrInstance r)) (redis_getLockKey (rcWorkers c ! rrInstance r) (rrMsg r)) (rcLocks c) =
      (lsVals (rcLocks c) k > 0, locked)"
    using redisInv_facts(3,4) [OF inv n, folded r_def] redisInv_locks(1) [OF inv] by (simp add: IsLocked_def k_def locked_def Let_def)
  have "store = rcStore c \<and> (r' = r\<lparr>rrPC := AtEnd\<rparr> \<and> (srv = rcLocks c \<or> srv = locked \<and> lsVals (rcLocks c) k > 0) \<or>
      r' = go \<and> srv = locked \<and> \<not> lsVals (rcLocks c) k > 0)"
  proof (cases "rwCancelled (rcWorkers c ! rrInstance r)")
    case True
    then show ?thesis using run pc unfolding r_def [symmetric] by (simp add: redis_advance_def Let_def)
  next
    case False
    then show ?thesis using run pc advance_lock [OF False _ lk] unfolding r_def [symmetric] by (auto simp: go_def split: if_splits)
  qed
  then show ?thesis
    using lock_refused_inv [OF inv n pc ws, of srv k pools] lock_taken_inv [OF inv n m pc ws, of pools]
    unfolding r_def [symmetric] locked_def k_def [symmetric] go_def [symmetric] by blast
qed

text \<open>The steps between the lock and its release, and the release.\<close>

lemma advance_AtGet_inv:
  assumes inv: "redisInv m service p t0 c" and n: "n < length (rcRuns c)" and pc: "rrPC (rcRuns c ! n) = AtGet"
    and run: "redis_advance keep w (rcRuns c ! n) (rcLocks c, rcStore c, pool) = (r', srv, store, pool')"
    and ws: "\<forall>w\<in>set ws. rwService w = service \<and> rwLocker w = RedisLocker p" "length ws = length (rcWorkers c)"
  shows "redisInv m service p t0 (c\<lparr>rcWorkers := ws, rcLocks := srv, rcStore := store, rcPools := pools, rcRuns := (rcRuns c)[n := r']\<rparr>)"
proof -
  define r where "r = rcRuns c ! n"
  note f = redisInv_facts [OF inv n, folded r_def]
  have st: "rsDown (rcStore c) = None" "rsHash (rcStore c) (rmKey m) = (if \<exists>x\<in>set (rcRuns c). deleted m x then None else t0)"
    using inv by (simp_all add: redisInv_def)
  have pcr: "rrPC r = AtGet" "rrResult r = None" using pc f(1) by (simp_all add: r_def runInv_def)
  have none: "\<forall>x\<in>set (rcRuns c). \<not> took m x" if "rrMsg r = m" "rsHash (rcStore c) (rmKey m) = Some message" for message
  proof (intro ballI notI)
    fix x assume x: "x \<in> set (rcRuns c)" "took m x"
    then have "\<not> deleted m x" using that(2) st(2) by (auto split: if_splits)
    then have xpc: "rrPC x = AtDel" "rrMsg x = m" using x(2) by (auto simp: took_def deleted_def)
    obtain j where j: "j < length (rcRuns c)" "x = rcRuns c ! j" using x(1) by (auto simp: in_set_conv_nth)
    have "holds m r" "holds m x" using xpc that(1) pcr by (auto simp: holds_def)
    then have "j = n" using f(5) [of j] j by simp
    then show False using j(2) xpc pcr by (simp add: r_def)
  qed
  have ex: "(\<exists>x\<in>set ((rcRuns c)[n := y]). deleted m x) = (\<exists>x\<in>set (rcRuns c). deleted m x)" if "rrPC y \<in> {AtUnlock, AtDel}" "rrResult y = None" for y
    using ex_update [OF n, of "deleted m" y] that pcr by (auto simp: deleted_def r_def)
  show ?thesis
  proof (cases "rsHash (rcStore c) (rmKey (rrMsg r))")
    case None
    then have e: "r' = r\<lparr>rrPC := AtUnlock\<rparr>" "srv = rcLocks c" "store = rcStore c"
      using run st(1) advance_rest(1) [OF pcr(1)] by (auto simp: r_def)
    show ?thesis unfolding e
      by (rule redisInv_local [OF inv n ws _ _ _ st(1)]) (use f(1) pcr st(2) ex in \<open>auto simp: runInv_def holds_def took_def r_def\<close>)
  next
    case (Some message)
    then have e: "r' = r\<lparr>rrPC := AtDel, rrText := message\<rparr>" "srv = rcLocks c" "store = rcStore c"
      using run st(1) advance_rest(1) [OF pcr(1)] by (auto simp: r_def)
    have old: "t0 = Some message" if "rrMsg r = m" using that Some st(2) by (auto split: if_splits)
    show ?thesis unfolding e
      by (rule redisInv_local [OF inv n ws _ _ _ st(1)])
        (use f(1) pcr st(2) ex old none Some in \<open>auto simp: runInv_def holds_def took_def r_def\<close>)
  qed
qed

lemma advance_AtDel_inv:
  assumes inv: "redisInv m service p t0 c" and n: "n < length (rcRuns c)" and pc: "rrPC (rcRuns c ! n) = AtDel"
    and run: "redis_advance keep w (rcRuns c ! n) (rcLocks c, rcStore c, pool) = (r', srv, store, pool')"
    and ws: "\<forall>w\<in>set ws. rwService w = service \<and> rwLocker w = RedisLocker p" "length ws = length (rcWorkers c)"
  shows "redisInv m service p t0 (c\<lparr>rcWorkers := ws, rcLocks := srv, rcStore := store, rcPools := pools, rcRuns := (rcRuns c)[n := r']\<rparr>)"
proof -
  define r where "r = rcRuns c ! n"
  note f = redisInv_facts [OF inv n, folded r_def]
  have st: "rsDown (rcStore c) = None" "rsHash (rcStore c) (rmKey m) = (if \<exists>x\<in>set (rcRuns c). deleted m x then None else t0)"
    using inv by (simp_all add: redisInv_def)
  have pcr: "rrPC r = AtDel" "rrResult r = None" using pc f(1) by (simp_all add: r_def runInv_def)
  have e: "r' = r\<lparr>rrPC := AtHandle\<rparr>" "srv = rcLocks c" "store = (rcStore c)\<lparr>rsHash := (rsHash (rcStore c))(rmKey (rrMsg r) := None)\<rparr>"
    using run st(1) advance_rest(2) [OF pcr(1)] by (auto simp: r_def)
  have hash: "rsHash store (rmKey m) = (if \<exists>x\<in>set ((rcRuns c)[n := r\<lparr>rrPC := AtHandle\<rparr>]). deleted m x then None else t0)"
  proof (cases "rrMsg r = m")
    case True
    then have "deleted m (r\<lparr>rrPC := AtHandle\<rparr>)" by (simp add: deleted_def)
    then show ?thesis using True set_update_memI [OF n] by (auto simp: e(3))
  next
    case False
    then have "rmKey m \<noteq> rmKey (rrMsg r)" using f(1) by (auto simp: runInv_def)
    then show ?thesis using st(2) False ex_update [OF n, of "deleted m" "r\<lparr>rrPC := AtHandle\<rparr>"] by (simp add: e(3) deleted_def r_def)
  qed
  show ?thesis unfolding e(1,2)
    by (rule redisInv_local [OF inv n ws _ _ _ _ hash]) (use f(1) pcr st(1) in \<open>auto simp: runInv_def holds_def took_def r_def e(3)\<close>)
qed

lemma advance_AtHandle_inv:
  assumes inv: "redisInv m service p t0 c" and n: "n < length (rcRuns c)" and pc: "rrPC (rcRuns c ! n) = AtHandle"
    and run: "redis_advance keep w (rcRuns c ! n) (rcLocks c, rcStore c, pool) = (r', srv, store, pool')"
    and ws: "\<forall>w\<in>set ws. rwService w = service \<and> rwLocker w = RedisLocker p" "length ws = length (rcWorkers c)"
  shows "redisInv m service p t0 (c\<lparr>rcWorkers := ws, rcLocks := srv, rcStore := store, rcPools := pools, rcRuns := (rcRuns c)[n := r']\<rparr>)"
proof -
  define r where "r = rcRuns c ! n"
  note f = redisInv_facts [OF inv n, folded r_def]
  have st: "rsDown (rcStore c) = None" "rsHash (rcStore c) (rmKey m) = (if \<exists>x\<in>set (rcRuns c). deleted m x then None else t0)"
    using inv by (simp_all add: redisInv_def)
  have pcr: "rrPC r = AtHandle" "rrResult r = None" using pc f(1) by (simp_all add: r_def runInv_def)
  obtain x where e: "r' = r\<lparr>rrPC := AtUnlock, rrResult := Some x\<rparr>" "srv = rcLocks c" "store = rcStore c"
    using run advance_rest(3) [OF pcr(1)] by (auto simp: r_def withPooled_def split: prod.splits)
  show ?thesis unfolding e
    by (rule redisInv_local [OF inv n ws _ _ _ st(1)])
      (use f(1) pcr st(2) ex_update [OF n, of "deleted m" r', unfolded e] in \<open>auto simp: runInv_def holds_def took_def deleted_def r_def\<close>)
qed

lemma advance_AtUnlock_inv:
  assumes inv: "redisInv m service p t0 c" and n: "n < length (rcRuns c)" and pc: "rrPC (rcRuns c ! n) = AtUnlock"
    and run: "redis_advance keep (rcWorkers c ! rrInstance (rcRuns c ! n)) (rcRuns c ! n) (rcLocks c, rcStore c, pool) = (r', srv, store, pool')"
    and ws: "\<forall>w\<in>set ws. rwService w = service \<and> rwLocker w = RedisLocker p" "length ws = length (rcWorkers c)"
  shows "redisInv m service p t0 (c\<lparr>rcWorkers := ws, rcLocks := srv, rcStore := store, rcPools := pools, rcRuns := (rcRuns c)[n := r']\<rparr>)"
proof -
  let ?K = "lockKeyOf p (redis_lockPattern service (rmHandlerName m @ ''-'' @ rmEventID m))"
  define r where "r = rcRuns c ! n"
  note f = redisInv_facts [OF inv n, folded r_def]
  have up: "\<not> lsDown (rcLocks c)" "rsDown (rcStore c) = None" "0 \<le> lsVals (rcLocks c) ?K"
    "lsVals (rcLocks c) ?K = 0 \<Longrightarrow> \<forall>x\<in>set (rcRuns c). \<not> holds m x"
    "rsHash (rcStore c) (rmKey m) = (if \<exists>x\<in>set (rcRuns c). deleted m x then None else t0)"
    using inv by (auto simp: redisInv_def Let_def)
  have pcr: "rrPC r = AtUnlock" using pc by (simp add: r_def)
  define k where "k = lockKeyOf p (redis_lockPattern service (rmHandlerName (rrMsg r) @ ''-'' @ rmEventID (rrMsg r)))"
  have e: "r' = r\<lparr>rrPC := AtEnd\<rparr>" "srv = (rcLocks c)\<lparr>lsVals := (lsVals (rcLocks c))(k := 0)\<rparr>" "store = rcStore c"
    using run up(1) f(3,4) advance_rest(4) [OF pcr] by (auto simp: r_def Unlock_def k_def)
  have same: "k = ?K \<longleftrightarrow> holds m r" using pcr by (simp add: k_def holds_def)
  have others: "\<not> holds m x" if x: "x \<in> set ((rcRuns c)[n := r'])" and z: "lsVals srv ?K = 0" for x
  proof
    assume hx: "holds m x"
    obtain j where j: "j < length (rcRuns c)" "x = (rcRuns c)[n := r'] ! j" using x by (auto simp: in_set_conv_nth)
    have "j \<noteq> n" using j hx by (auto simp: e(1) holds_def)
    then have hj: "holds m (rcRuns c ! j)" using j hx by simp
    show False
    proof (cases "k = ?K")
      case True
      then show False using same f(5) [of j] j(1) hj \<open>j \<noteq> n\<close> by simp
    next
      case False
      then show False using z up(4) hj j(1) by (simp add: e(2))
    qed
  qed
  show ?thesis
  proof (rule redisInv_moved [OF inv n ws])
    show "runInv m t0 (length (rcWorkers c)) r'" using f(1) pcr by (auto simp: e(1) runInv_def took_def)
    show "rsHash store (rmKey m) = (if \<exists>x\<in>set ((rcRuns c)[n := r']). deleted m x then None else t0)"
      using up(5) ex_update [OF n, of "deleted m" r'] pcr by (simp add: e deleted_def r_def)
  qed (use up others pcr in \<open>auto simp: e holds_def took_def r_def\<close>)
qed


lemma redis_advance_inv:
  assumes inv: "redisInv m service p t0 c" and m: "rmMessage m = []" and act: "redis_act (ActAdvance n keep) c = Some c'"
  shows "redisInv m service p t0 c'"
proof -
  define r where "r = rcRuns c ! n"
  have n: "n < length (rcRuns c)" and pc: "rrPC r \<noteq> AtEnd" using act by (auto simp: r_def split: if_splits)
  define i where "i = rrInstance r"
  obtain r' srv store pool' where run: "redis_advance keep (rcWorkers c ! i) r (rcLocks c, rcStore c, rcPools c i) = (r', srv, store, pool')"
    by (metis prod_cases4)
  define ws where "ws = (if rrPC r' = AtEnd then (rcWorkers c)[i := redis_finish (rrMsg r) (rcWorkers c ! i)] else rcWorkers c)"
  have c': "c' = c\<lparr>rcWorkers := ws, rcLocks := srv, rcStore := store, rcPools := (rcPools c)(i := pool'), rcRuns := (rcRuns c)[n := r']\<rparr>"
    using act n pc run by (auto simp: Let_def r_def [symmetric] i_def ws_def)
  have "i < length (rcWorkers c)" using redisInv_facts(2) [OF inv n] by (simp add: i_def r_def)
  then have ws: "\<forall>w\<in>set ws. rwService w = service \<and> rwLocker w = RedisLocker p" "length ws = length (rcWorkers c)"
    using finish_keeps [of "rcWorkers c" service p i "rrPC r' = AtEnd" "rrMsg r"] redisInv_def [of m service p t0 c] inv by (simp_all add: ws_def)
  note run = run [unfolded i_def r_def]
  show ?thesis
  proof (cases "rrPC r")
    case AtLock
    then show ?thesis using advance_AtLock_inv [OF inv n m _ run ws] by (simp add: c' r_def)
  next
    case AtGet
    then show ?thesis using advance_AtGet_inv [OF inv n _ run ws] by (simp add: c' r_def)
  next
    case AtDel
    then show ?thesis using advance_AtDel_inv [OF inv n _ run ws] by (simp add: c' r_def)
  next
    case AtHandle
    then show ?thesis using advance_AtHandle_inv [OF inv n _ run ws] by (simp add: c' r_def)
  next
    case AtUnlock
    then show ?thesis using advance_AtUnlock_inv [OF inv n _ run ws] by (simp add: c' r_def)
  qed (use pc in simp)
qed

lemma redis_receive_inv:
  assumes inv: "redisInv m service p t0 c" and act: "redis_act (ActReceive i m') c = Some c'" and only: "rmKey m' = rmKey m \<longrightarrow> m' = m"
  shows "redisInv m service p t0 c'"
proof -
  have i: "i < length (rcWorkers c)" using act by (simp split: if_splits)
  obtain w where w: "redis_receive m' (rcWorkers c ! i) = Some w" using act i by (auto split: option.splits)
  define new where "new = (if rwHandlers (rcWorkers c ! i) (rmHandlerName m') = None then [] else [newRun i m'])"
  have c': "c' = c\<lparr>rcWorkers := (rcWorkers c)[i := w], rcRuns := rcRuns c @ new\<rparr>" using act i w by (simp add: new_def)
  have "rwService w = service \<and> rwLocker w = RedisLocker p"
    using inv i w nth_mem [OF i] by (auto simp: redisInv_def redis_receive_def Let_def split: if_splits)
  then have ws: "\<forall>v\<in>set ((rcWorkers c)[i := w]). rwService v = service \<and> rwLocker v = RedisLocker p"
    using inv by (auto simp: redisInv_def dest!: set_update_subset_insert [THEN subsetD])
  have run: "\<not> holds m (newRun i m')" "\<not> took m (newRun i m')" "\<not> deleted m (newRun i m')" "runInv m t0 (length (rcWorkers c)) (newRun i m')"
    using i only by (simp_all add: newRun_def holds_def took_def deleted_def runInv_def)
  show ?thesis
    using inv ws run by (cases "new = []") (auto simp: c' new_def redisInv_def Let_def intro: atMostOne_append)
qed

lemma redis_publish_inv:
  assumes "redisInv m service p t0 c" "paKey args \<noteq> rmKey m"
  shows "redisInv m service p t0 (c\<lparr>rcStore := snd (redis_PublishMessage eventID args (rcStore c))\<rparr>)"
proof -
  have "rsDown (snd (redis_PublishMessage eventID args s)) = rsDown s \<and> rsHash (snd (redis_PublishMessage eventID args s)) (rmKey m) = rsHash s (rmKey m)" for s
    using assms(2) by (auto simp: redis_PublishMessage_def deleteMessage_def Let_def split: option.split)
  then show ?thesis using assms(1) by (simp add: redisInv_def Let_def)
qed

lemma redis_acts_inv:
  assumes "redisInv m service p t0 c" "rmMessage m = []" "\<forall>a\<in>set as. onlyEvent m a" "redis_acts as c = Some c'"
  shows "redisInv m service p t0 c'"
  using assms
proof (induction as arbitrary: c)
  case (Cons a as)
  obtain c1 where c1: "redis_act a c = Some c1" "redis_acts as c1 = Some c'" using Cons.prems(4) by (auto simp: Option.bind_eq_Some_conv)
  have "redisInv m service p t0 c1"
  proof (cases a)
    case (ActReceive i m')
    then show ?thesis using redis_receive_inv [OF Cons.prems(1)] c1(1) Cons.prems(3) by simp
  next
    case (ActAdvance n keep)
    then show ?thesis using redis_advance_inv [OF Cons.prems(1,2)] c1(1) by blast
  next
    case (ActPublish eventID args)
    then show ?thesis using redis_publish_inv [OF Cons.prems(1)] c1(1) Cons.prems(3) by auto
  qed (use Cons.prems(3) in auto)
  then show ?case using Cons.IH Cons.prems(2,3) c1(2) by simp
qed simp

section \<open>Properties\<close>

text \<open>C24: Instances of one service share a Redis server that answers, with free locks and no goroutine
  yet.  They and the publishers act in any order, where a goroutine can be interrupted between any two of
  its commands, as long as no instance starts or ends, nothing is published or deleted under the key of
  the event \<open>m\<close>, and no other event has that key.  Then at most one goroutine ever takes the text of the
  event, however often and by however many instances the event is received; the text it hands to its
  handler is the one that was stored; and the text leaves the hash only with a goroutine that took it.\<close>

theorem redis_event_handled_once:
  assumes workers: "\<forall>w\<in>set (rcWorkers c). rwService w = service \<and> rwLocker w = RedisLocker p" and start: "rcRuns c = []"
    and server: "\<not> lsDown (rcLocks c)" "lsVals (rcLocks c) = (\<lambda>_. 0)" "rsDown (rcStore c) = None"
    and event: "rmMessage m = []" "\<forall>a\<in>set as. onlyEvent m a" and run: "redis_acts as c = Some c'"
  shows "(\<forall>i j. i < length (rcRuns c') \<longrightarrow> j < length (rcRuns c') \<longrightarrow> took m (rcRuns c' ! i) \<longrightarrow> took m (rcRuns c' ! j) \<longrightarrow> i = j) \<and>
    (\<forall>r\<in>set (rcRuns c'). took m r \<longrightarrow> Some (rrText r) = rsHash (rcStore c) (rmKey m)) \<and>
    (rsHash (rcStore c') (rmKey m) = rsHash (rcStore c) (rmKey m) \<or> (\<exists>r\<in>set (rcRuns c'). took m r))"
proof -
  have "redisInv m service p (rsHash (rcStore c) (rmKey m)) c"
    using workers start server by (simp add: redisInv_def atMostOne_def Let_def)
  from redis_acts_inv [OF this event run] show ?thesis
    by (auto simp: redisInv_def atMostOne_def runInv_def took_def deleted_def split: if_splits)
qed

text \<open>Two instances, \<open>a\<close> and \<open>b\<close>, receive the event; \<open>b\<close> is refused between the commands of \<open>a\<close>, receives it
  again when \<open>a\<close> is done, and finds nothing.\<close>

definition exCluster :: "locker \<Rightarrow> redisCluster" where
  "exCluster l = (let w = fst (redis_NewWorker ''svc'' ''redis_subscriber'' 2 l [okHandler ''mail''] freshServer)
     in \<lparr>rcWorkers = [w, w], rcLocks = freshServer, rcStore = exStore, rcPools = (\<lambda>_. []), rcRuns = []\<rparr>)"

definition exActs :: "redisAct list" where
  "exActs = [ActReceive 0 exMsg, ActReceive 1 exMsg, ActAdvance 0 True, ActAdvance 0 True, ActAdvance 1 True, ActAdvance 0 True,
     ActAdvance 0 True, ActAdvance 0 True, ActReceive 1 exMsg, ActAdvance 2 True, ActAdvance 2 True, ActAdvance 2 True]"

theorem redis_event_handled_once_witness:
  "\<exists>c'. redis_acts exActs (exCluster (RedisLocker ''L'')) = Some c' \<and> map (\<lambda>r. rrPC r = AtEnd \<and> took exMsg r) (rcRuns c') = [True, False, False] \<and>
     (\<forall>r\<in>set (rcRuns c'). took exMsg r \<longrightarrow> rrText r = ''hello'')"
proof -
  have "(case redis_acts exActs (exCluster (RedisLocker ''L'')) of None \<Rightarrow> False
      | Some c' \<Rightarrow> map (\<lambda>r. rrPC r = AtEnd \<and> took exMsg r) (rcRuns c') = [True, False, False])" by code_simp
  then obtain c' where c': "redis_acts exActs (exCluster (RedisLocker ''L'')) = Some c'"
    "map (\<lambda>r. rrPC r = AtEnd \<and> took exMsg r) (rcRuns c') = [True, False, False]" by (auto split: option.splits)
  have "(\<forall>r\<in>set (rcRuns c'). took exMsg r \<longrightarrow> Some (rrText r) = rsHash (rcStore (exCluster (RedisLocker ''L''))) (rmKey exMsg))"
    by (rule redis_event_handled_once [where service = "''svc''" and p = "''L''", OF _ _ _ _ _ _ _ c'(1), THEN conjunct2, THEN conjunct1])
      (simp_all add: exCluster_def redis_NewWorker_def freshServer_def exStore_def exMsg_def exActs_def Let_def)
  then show ?thesis using c' by (auto simp: exCluster_def exStore_def exMsg_def Let_def)
qed

section \<open>Where the lock does not help\<close>

text \<open>Both goroutines read the text before either deletes it, and both run the functions of the handler:
  with \<open>NoopLocker\<close>, after an instance has started in between (its start resets the locks of the service),
  and for two events with one key, which have different locks.\<close>

definition exTwice :: "redisAct list \<Rightarrow> redisMessage \<Rightarrow> redisAct list" where
  "exTwice between m = [ActReceive 0 exMsg, ActReceive 1 m, ActAdvance 0 True, ActAdvance 0 True] @ between @
     [ActAdvance 1 True, ActAdvance 1 True, ActAdvance 0 True, ActAdvance 0 True, ActAdvance 1 True, ActAdvance 1 True]"

definition handledTexts :: "redisCluster \<Rightarrow> string list" where
  "handledTexts c = map rrText (filter (\<lambda>r. rrResult r \<noteq> None) (rcRuns c))"

theorem redis_event_handled_twice:
  "map_option handledTexts (redis_acts (exTwice [] exMsg) (exCluster NoopLocker)) = Some [''hello'', ''hello'']"
  "map_option handledTexts (redis_acts (exTwice [ActStart ''svc'' ''redis_subscriber'' 2 (RedisLocker ''L'') []] exMsg)
     (exCluster (RedisLocker ''L''))) = Some [''hello'', ''hello'']"
  "map_option handledTexts (redis_acts (exTwice [] (exMsg\<lparr>rmEventID := ''2''\<rparr>)) (exCluster (RedisLocker ''L''))) = Some [''hello'', ''hello'']"
  by code_simp+

end
