(* ===== verification/Candi_Middleware.thy ===== *)
theory Candi_Middleware
  imports Candi_Helper
begin

text \<open>
  The middleware (\<open>src/middleware\<close>): basic and bearer authentication for HTTP, gRPC and GraphQL, the check
  of permissions, and the cache of responses.  The validators, the checker of permissions and the next
  handler are functions; the context is the token claim that it carries, if any.  A response is its
  status, its header and its body; the JSON body of an error is kept as its code and its message.
  Traces are left out.
\<close>

section \<open>Base64\<close>

text \<open>\<open>base64.StdEncoding\<close>: new lines are skipped, the padding must be right, and the unused bits of the last
  character are not looked at.\<close>

definition b64val :: "char \<Rightarrow> int option" where
  "b64val c =
     (let n = of_char c :: int
      in if 65 \<le> n \<and> n \<le> 90 then Some (n - 65) else if 97 \<le> n \<and> n \<le> 122 then Some (n - 71)
         else if 48 \<le> n \<and> n \<le> 57 then Some (n + 4) else if n = 43 then Some 62 else if n = 47 then Some 63 else None)"

fun decodeQuanta :: "string \<Rightarrow> string option" where
  "decodeQuanta [] = Some []"
| "decodeQuanta (a # b # c # d # rest) =
     (if c = CHR ''='' then
        (if d = CHR ''='' \<and> rest = [] then
           (case (b64val a, b64val b) of (Some x, Some y) \<Rightarrow> Some [char_of (x * 4 + y div 16)] | _ \<Rightarrow> None)
         else None)
      else if d = CHR ''='' then
        (if rest = [] then
           (case (b64val a, b64val b, b64val c) of
              (Some x, Some y, Some z) \<Rightarrow> Some [char_of (x * 4 + y div 16), char_of (y mod 16 * 16 + z div 4)] | _ \<Rightarrow> None)
         else None)
      else
        (case (b64val a, b64val b, b64val c, b64val d) of
           (Some x, Some y, Some z, Some w) \<Rightarrow>
             map_option (\<lambda>r. char_of (x * 4 + y div 16) # char_of (y mod 16 * 16 + z div 4) # char_of (z mod 4 * 64 + w) # r) (decodeQuanta rest)
         | _ \<Rightarrow> None))"
| "decodeQuanta _ = None"

definition DecodeString :: "string \<Rightarrow> string option" where
  "DecodeString s = decodeQuanta (filter (\<lambda>c. c \<noteq> CHR 0x0A \<and> c \<noteq> CHR 0x0D) s)"

text \<open>The encoding that a client uses.\<close>

definition b64char :: "int \<Rightarrow> char" where
  "b64char n = char_of (if n < 26 then n + 65 else if n < 52 then n + 71 else if n < 62 then n - 4 else if n = 62 then 43 else 47)"

fun EncodeToString :: "string \<Rightarrow> string" where
  "EncodeToString [] = []"
| "EncodeToString [a] =
     (let x = of_char a :: int in [b64char (x div 4), b64char (x mod 4 * 16), CHR ''='', CHR ''=''])"
| "EncodeToString [a, b] =
     (let x = of_char a :: int; y = of_char b in [b64char (x div 4), b64char (x mod 4 * 16 + y div 16), b64char (y mod 16 * 4), CHR ''=''])"
| "EncodeToString (a # b # c # r) =
     (let x = of_char a :: int; y = of_char b; z = of_char c
      in b64char (x div 4) # b64char (x mod 4 * 16 + y div 16) # b64char (y mod 16 * 4 + z div 64) # b64char (z mod 64) # EncodeToString r)"

section \<open>Configuration\<close>

record tokenClaim =
  tcSubject :: string
  tcRole :: string
  tcAdditional :: gval

text \<open>A validator answers with an error or with what it found.\<close>

record middleware =
  mwTokenValidator :: "(string \<Rightarrow> string + tokenClaim) option"
  mwACLPermissionChecker :: "(string \<Rightarrow> string \<Rightarrow> string + string) option"
  mwBasicAuthValidator :: "(string \<Rightarrow> string \<Rightarrow> string option) option"
  mwHasCache :: bool
  mwDefaultCacheAge :: int
  mwExtractUserIDFunc :: "(tokenClaim \<Rightarrow> string) option"

definition DefaultCacheAge :: int where "DefaultCacheAge = Minute"

definition default_ValidateToken :: "string \<Rightarrow> string + tokenClaim" where
  "default_ValidateToken token = Inr \<lparr>tcSubject = [], tcRole = [], tcAdditional = VNil\<rparr>"

definition default_CheckPermission :: "string \<Rightarrow> string \<Rightarrow> string + string" where
  "default_CheckPermission userID permissionCode = Inr []"

definition default_ValidateBasic :: "string \<Rightarrow> string \<Rightarrow> string \<Rightarrow> string \<Rightarrow> string option" where
  "default_ValidateBasic user pass username password =
     (if username \<noteq> user \<or> password \<noteq> pass then Some ''Invalid credentials'' else None)"

text \<open>The constructors, with the user and the password of the environment.\<close>

definition NewMiddleware :: "string \<Rightarrow> string \<Rightarrow> (string \<Rightarrow> string + tokenClaim) option \<Rightarrow> (string \<Rightarrow> string \<Rightarrow> string + string) option \<Rightarrow> middleware" where
  "NewMiddleware user pass tokenValidator aclPermissionChecker =
     \<lparr>mwTokenValidator = tokenValidator, mwACLPermissionChecker = aclPermissionChecker, mwBasicAuthValidator = Some (default_ValidateBasic user pass),
      mwHasCache = False, mwDefaultCacheAge = DefaultCacheAge, mwExtractUserIDFunc = Some tcSubject\<rparr>"

definition NewMiddlewareWithOption :: "string \<Rightarrow> string \<Rightarrow> (middleware \<Rightarrow> middleware) list \<Rightarrow> middleware" where
  "NewMiddlewareWithOption user pass opts =
     foldl (\<lambda>mw opt. opt mw) (NewMiddleware user pass (Some default_ValidateToken) (Some default_CheckPermission)) opts"

definition SetTokenValidator :: "(string \<Rightarrow> string + tokenClaim) option \<Rightarrow> middleware \<Rightarrow> middleware" where
  "SetTokenValidator v mw = mw\<lparr>mwTokenValidator := v\<rparr>"

definition SetACLPermissionChecker :: "(string \<Rightarrow> string \<Rightarrow> string + string) option \<Rightarrow> middleware \<Rightarrow> middleware" where
  "SetACLPermissionChecker v mw = mw\<lparr>mwACLPermissionChecker := v\<rparr>"

definition SetBasicAuthValidator :: "(string \<Rightarrow> string \<Rightarrow> string option) option \<Rightarrow> middleware \<Rightarrow> middleware" where
  "SetBasicAuthValidator v mw = mw\<lparr>mwBasicAuthValidator := v\<rparr>"

definition SetCache :: "bool \<Rightarrow> int \<Rightarrow> middleware \<Rightarrow> middleware" where
  "SetCache cache defaultCacheAge mw = mw\<lparr>mwHasCache := cache, mwDefaultCacheAge := defaultCacheAge\<rparr>"

definition SetUserIDExtractor :: "(tokenClaim \<Rightarrow> string) option \<Rightarrow> middleware \<Rightarrow> middleware" where
  "SetUserIDExtractor f mw = mw\<lparr>mwExtractUserIDFunc := f\<rparr>"

section \<open>Authentication\<close>

definition BEARER :: string where "BEARER = ''BEARER''"
definition BASIC :: string where "BASIC = ''BASIC''"
definition MULTIPLE :: string where "MULTIPLE = ''MULTIPLE''"

definition extractAuthType :: "string \<Rightarrow> string \<Rightarrow> string + string" where
  "extractAuthType prefix authorization =
     (let authValues = SplitByte (CHR '' '') authorization
      in if length authValues = 2 \<and> ToUpper (authValues ! 0) = prefix then Inr (authValues ! 1) else Inl ''Invalid authorization'')"

definition Basic :: "middleware \<Rightarrow> string \<Rightarrow> string option" where
  "Basic m key =
     (case mwBasicAuthValidator m of
        None \<Rightarrow> Some ''Missing basic auth implementor''
      | Some validate \<Rightarrow>
          (case DecodeString key of
             None \<Rightarrow> Some ''Unauthorized''
           | Some data \<Rightarrow>
               let decoded = SplitByte (CHR '':'') data
               in if length decoded < 2 then Some ''Unauthorized'' else validate (decoded ! 0) (decoded ! 1)))"

definition Bearer :: "middleware \<Rightarrow> string \<Rightarrow> string + tokenClaim" where
  "Bearer m tokenString = (case mwTokenValidator m of None \<Rightarrow> Inl ''Missing token validator'' | Some validate \<Rightarrow> validate tokenString)"

definition checkMultipleAuth :: "middleware \<Rightarrow> string \<Rightarrow> string \<Rightarrow> string + tokenClaim option" where
  "checkMultipleAuth m authType token =
     (if ToUpper authType = BEARER then map_sum id Some (Bearer m token)
      else if ToUpper authType = BASIC then (case Basic m token of Some e \<Rightarrow> Inl e | None \<Rightarrow> Inr None)
      else Inl ''Invalid authorization type, must BEARER or BASIC'')"

text \<open>\<open>strings.Cut\<close> at a character.\<close>

definition CutByte :: "char \<Rightarrow> string \<Rightarrow> string \<times> string \<times> bool" where
  "CutByte c s = (if c \<in> set s then (takeWhile (\<lambda>x. x \<noteq> c) s, tl (dropWhile (\<lambda>x. x \<noteq> c) s), True) else (s, [], False))"

subsection \<open>HTTP\<close>

type_synonym httpHeader = "string \<Rightarrow> string list"

definition headerGet :: "httpHeader \<Rightarrow> string \<Rightarrow> string" where
  "headerGet h k = (case h k of [] \<Rightarrow> [] | v # _ \<Rightarrow> v)"

datatype httpBody = Raw string | ErrorJSON int string

record httpRequest =
  rqMethod :: string
  rqURL :: string
  rqHeader :: httpHeader
  rqClaim :: "tokenClaim option"

record httpResponse =
  hrStatus :: int
  hrHeader :: httpHeader
  hrBody :: httpBody

text \<open>A handler answers with the header that is set so far and the request.\<close>

type_synonym httpHandler = "httpHeader \<Rightarrow> httpRequest \<Rightarrow> httpResponse"

definition httpError :: "int \<Rightarrow> string \<Rightarrow> httpHeader \<Rightarrow> httpResponse" where
  "httpError code message hdr =
     \<lparr>hrStatus = code, hrHeader = hdr(''Content-Type'' := [''application/json'']), hrBody = ErrorJSON code message\<rparr>"

definition extractHTTPBasic :: "middleware \<Rightarrow> httpRequest \<Rightarrow> string option" where
  "extractHTTPBasic m req =
     (case extractAuthType BASIC (headerGet (rqHeader req) ''Authorization'') of Inl e \<Rightarrow> Some e | Inr key \<Rightarrow> Basic m key)"

definition HTTPBasicAuth :: "middleware \<Rightarrow> httpHandler \<Rightarrow> httpHandler" where
  "HTTPBasicAuth m next hdr req =
     (let hdr = hdr(''WWW-Authenticate'' := [''Basic realm='' @ [CHR 0x22, CHR 0x22]])
      in case extractHTTPBasic m req of Some e \<Rightarrow> httpError 401 e hdr | None \<Rightarrow> next hdr req)"

definition extractHTTPBearer :: "middleware \<Rightarrow> httpRequest \<Rightarrow> string + tokenClaim" where
  "extractHTTPBearer m req =
     (case extractAuthType BEARER (headerGet (rqHeader req) ''Authorization'') of Inl e \<Rightarrow> Inl e | Inr tokenValue \<Rightarrow> Bearer m tokenValue)"

definition HTTPBearerAuth :: "middleware \<Rightarrow> httpHandler \<Rightarrow> httpHandler" where
  "HTTPBearerAuth m next hdr req =
     (case extractHTTPBearer m req of
        Inl e \<Rightarrow> httpError 401 e hdr
      | Inr tokenClaim \<Rightarrow> next hdr (req\<lparr>rqClaim := Some tokenClaim\<rparr>))"

definition HTTPMultipleAuth :: "middleware \<Rightarrow> httpHandler \<Rightarrow> httpHandler" where
  "HTTPMultipleAuth m next hdr req =
     (let authorization = headerGet (rqHeader req) ''Authorization''
      in if authorization = [] then httpError 401 ''Invalid authorization'' hdr
         else case CutByte (CHR '' '') authorization of
           (authType, authVal, ok) \<Rightarrow>
             if \<not> ok then httpError 401 ''Invalid authorization'' hdr
             else (case checkMultipleAuth m authType authVal of
                     Inl e \<Rightarrow> httpError 401 e hdr
                   | Inr None \<Rightarrow> next hdr req
                   | Inr (Some claimData) \<Rightarrow> next hdr (req\<lparr>rqClaim := Some claimData\<rparr>)))"

subsection \<open>gRPC\<close>

datatype rpcError = Unauthenticated string | PermissionDenied string | PlainError string

record grpcContext =
  gcMetadata :: "httpHeader option"
  gcClaim :: "tokenClaim option"

definition extractAuthorizationGRPCMetadata :: "grpcContext \<Rightarrow> rpcError + string" where
  "extractAuthorizationGRPCMetadata ctx =
     (case gcMetadata ctx of
        None \<Rightarrow> Inl (Unauthenticated ''Missing context metadata'')
      | Some meta \<Rightarrow>
          let authorizationMap = meta ''authorization''
          in if length authorizationMap \<noteq> 1 then Inl (Unauthenticated ''Invalid authorization'') else Inr (authorizationMap ! 0))"

definition GRPCBasicAuth :: "middleware \<Rightarrow> grpcContext \<Rightarrow> rpcError + grpcContext" where
  "GRPCBasicAuth m ctx =
     (case extractAuthorizationGRPCMetadata ctx of
        Inl e \<Rightarrow> Inl e
      | Inr auth \<Rightarrow>
          (case extractAuthType BASIC auth of
             Inl e \<Rightarrow> Inl (PlainError e)
           | Inr key \<Rightarrow> (case Basic m key of Some e \<Rightarrow> Inl (PlainError e) | None \<Rightarrow> Inr ctx)))"

definition GRPCBearerAuth :: "middleware \<Rightarrow> grpcContext \<Rightarrow> rpcError + grpcContext" where
  "GRPCBearerAuth m ctx =
     (case extractAuthorizationGRPCMetadata ctx of
        Inl e \<Rightarrow> Inl e
      | Inr auth \<Rightarrow>
          (case Bearer m auth of Inl e \<Rightarrow> Inl (PlainError e) | Inr tokenClaim \<Rightarrow> Inr (ctx\<lparr>gcClaim := Some tokenClaim\<rparr>)))"

definition GRPCMultipleAuth :: "middleware \<Rightarrow> grpcContext \<Rightarrow> rpcError + grpcContext" where
  "GRPCMultipleAuth m ctx =
     (case extractAuthorizationGRPCMetadata ctx of
        Inl e \<Rightarrow> Inl e
      | Inr auth \<Rightarrow>
          (case CutByte (CHR '' '') auth of
             (authType, authVal, ok) \<Rightarrow>
               if \<not> ok then Inl (Unauthenticated ''Invalid authorization'')
               else (case checkMultipleAuth m authType authVal of
                       Inl e \<Rightarrow> Inl (Unauthenticated (''Invalid authorization '' @ e))
                     | Inr None \<Rightarrow> Inr ctx
                     | Inr (Some claimData) \<Rightarrow> Inr (ctx\<lparr>gcClaim := Some claimData\<rparr>))))"

subsection \<open>GraphQL\<close>

text \<open>The context of a resolver; without the HTTP header in it the type assertion panics: \<open>None\<close>.\<close>

record gqlContext =
  gqHeader :: "httpHeader option"
  gqClaim :: "tokenClaim option"

record directive =
  dvName :: string
  dvArguments :: "string \<rightharpoonup> string"

datatype gqlError = GraphQLError int string

definition GraphQLAuth :: "middleware \<Rightarrow> directive \<Rightarrow> gqlContext \<Rightarrow> (gqlError + gqlContext) option" where
  "GraphQLAuth m d ctx =
     (case gqHeader ctx of
        None \<Rightarrow> None
      | Some headers \<Rightarrow> Some
          (case CutByte (CHR '' '') (headerGet headers ''Authorization'') of
             (headerAuthType, headerAuthVal, ok) \<Rightarrow>
               if \<not> ok then Inl (GraphQLError 401 ''Invalid authorization'')
               else case dvArguments d ''authType'' of
                 None \<Rightarrow> Inl (GraphQLError 401 (''Missing authType argument in directive @'' @ dvName d @ '' definition''))
               | Some authType \<Rightarrow>
                   if authType \<notin> {BEARER, BASIC, MULTIPLE}
                   then Inl (GraphQLError 401 ''Invalid authType direction name. Must BASIC, BEARER, or MULTIPLE'')
                   else if authType \<noteq> MULTIPLE \<and> authType \<noteq> ToUpper headerAuthType
                   then Inl (GraphQLError 401 (''Mismatch authType definition from directive @'' @ dvName d @ '' (required: '' @ authType @
                          '', given: '' @ ToUpper headerAuthType @ '')''))
                   else (case checkMultipleAuth m headerAuthType headerAuthVal of
                           Inl e \<Rightarrow> Inl (GraphQLError 401 e)
                         | Inr None \<Rightarrow> Inr ctx
                         | Inr (Some claimData) \<Rightarrow> Inr (ctx\<lparr>gqClaim := Some claimData\<rparr>))))"

section \<open>Permissions\<close>

text \<open>Without a claim in the context the type assertion panics, which is recovered into an error.\<close>

definition checkACLPermissionFromContext :: "middleware \<Rightarrow> tokenClaim option \<Rightarrow> string \<Rightarrow> string + tokenClaim" where
  "checkACLPermissionFromContext m claim permissionCode =
     (case claim of
        None \<Rightarrow> Inl ''Missing token claim in context''
      | Some tokenClaim \<Rightarrow>
          (case mwACLPermissionChecker m of
             None \<Rightarrow> Inl ''Missing acl permission checker''
           | Some check \<Rightarrow>
               let userID = (case mwExtractUserIDFunc m of None \<Rightarrow> tcSubject tokenClaim | Some f \<Rightarrow> f tokenClaim)
               in (case check userID permissionCode of Inl e \<Rightarrow> Inl e | Inr role \<Rightarrow> Inr (tokenClaim\<lparr>tcRole := role\<rparr>))))"

definition HTTPPermissionACL :: "middleware \<Rightarrow> string \<Rightarrow> httpHandler \<Rightarrow> httpHandler" where
  "HTTPPermissionACL m permissionCode next hdr req =
     (case checkACLPermissionFromContext m (rqClaim req) permissionCode of
        Inl e \<Rightarrow> httpError 403 e hdr
      | Inr tokenClaim \<Rightarrow> next hdr (req\<lparr>rqClaim := Some tokenClaim\<rparr>))"

definition GraphQLPermissionACL :: "middleware \<Rightarrow> directive \<Rightarrow> gqlContext \<Rightarrow> gqlError + gqlContext" where
  "GraphQLPermissionACL m d ctx =
     (case dvArguments d ''permissionCode'' of
        None \<Rightarrow> Inl (GraphQLError 403 (''Missing permissionCode argument in directive @'' @ dvName d @ '' definition''))
      | Some permissionCode \<Rightarrow>
          (case checkACLPermissionFromContext m (gqClaim ctx) permissionCode of
             Inl e \<Rightarrow> Inl (GraphQLError 403 e)
           | Inr tokenClaim \<Rightarrow> Inr (ctx\<lparr>gqClaim := Some tokenClaim\<rparr>)))"

definition GRPCPermissionACL :: "middleware \<Rightarrow> string \<Rightarrow> grpcContext \<Rightarrow> rpcError + grpcContext" where
  "GRPCPermissionACL m permissionCode ctx =
     (case checkACLPermissionFromContext m (gcClaim ctx) permissionCode of
        Inl e \<Rightarrow> Inl (PermissionDenied (''Permission denied: '' @ e))
      | Inr tokenClaim \<Rightarrow> Inr (ctx\<lparr>gcClaim := Some tokenClaim\<rparr>))"

section \<open>The cache of responses\<close>

definition wrap64 :: "int \<Rightarrow> int" where
  "wrap64 n = (n + 9223372036854775808) mod 18446744073709551616 - 9223372036854775808"

text \<open>One directive of the header \<open>Cache-Control\<close>.\<close>

definition cacheDirective :: "bool \<times> int \<Rightarrow> string \<Rightarrow> bool \<times> int" where
  "cacheDirective st part =
     (case st of (noCache, maxAge) \<Rightarrow>
        let (key, val, _) = CutByte (CHR ''='') part; key = TrimSpace key
        in if key = ''max-age'' \<or> key = ''s-maxage'' then
             (case Atoi val of (age, ok) \<Rightarrow> (False, if ok then wrap64 (age * Second) else maxAge))
           else if key = ''no-cache'' then (True, maxAge) else (noCache, maxAge))"

definition cachePolicy :: "middleware \<Rightarrow> string \<Rightarrow> bool \<times> int" where
  "cachePolicy m cacheControl = foldl cacheDirective (\<not> mwHasCache m, mwDefaultCacheAge m) (SplitByte (CHR '','') cacheControl)"

definition TrimSuffixSlash :: "string \<Rightarrow> string" where
  "TrimSuffixSlash s = (if s \<noteq> [] \<and> last s = CHR ''/'' then butlast s else s)"

definition cacheKey :: "httpRequest \<Rightarrow> string" where
  "cacheKey req = rqMethod req @ '':'' @ TrimSuffixSlash (rqURL req)"

text \<open>What the cache holds under a key: the data, or a text that is no JSON of it, and when it expires.\<close>

datatype cacheVal = CacheData httpBody httpHeader | CacheJunk

type_synonym cache = "string \<rightharpoonup> cacheVal \<times> int"

definition cacheGet :: "int \<Rightarrow> string \<Rightarrow> cache \<Rightarrow> cacheVal option" where
  "cacheGet now k c = (case c k of None \<Rightarrow> None | Some (v, expiry) \<Rightarrow> if now < expiry then Some v else None)"

definition HTTPCache :: "middleware \<Rightarrow> httpHandler \<Rightarrow> int \<Rightarrow> httpHeader \<Rightarrow> httpRequest \<Rightarrow> cache \<Rightarrow> httpResponse \<times> cache" where
  "HTTPCache m next now hdr req cache =
     (if \<not> mwHasCache m then (next hdr req, cache)
      else
        let (noCache, maxAge) = cachePolicy m (headerGet (rqHeader req) ''Cache-Control'')
        in if noCache \<or> maxAge \<le> 0 then (next hdr req, cache)
           else
             let key = cacheKey req
             in case cacheGet now key cache of
                  Some CacheJunk \<Rightarrow> (next hdr req, cache(key := None))
                | Some (CacheData body header) \<Rightarrow>
                    (\<lparr>hrStatus = 200, hrHeader = (\<lambda>k. if header k \<noteq> [] then [headerGet header k] else hdr k), hrBody = body\<rparr>, cache)
                | None \<Rightarrow>
                    let res = next hdr req
                    in (res, if hrStatus res < 400 then cache(key \<mapsto> (CacheData (hrBody res) (hrHeader res), now + maxAge)) else cache))"

section \<open>Lemmas\<close>

lemma of_char_bounds: "0 \<le> (of_char c :: int)" "(of_char c :: int) < 256"
  using nat_of_char_less_256 [of c] by (simp_all flip: of_nat_of_char [where 'a = int])

lemma b64_inverse:
  assumes "0 \<le> n" "n < 64"
  shows "b64val (b64char n) = Some n" "b64char n \<noteq> CHR ''=''" "b64char n \<notin> {CHR 0x0A, CHR 0x0D, CHR '' ''}"
proof -
  have "list_all (\<lambda>n. b64val (b64char n) = Some n \<and> b64char n \<noteq> CHR ''='' \<and> b64char n \<notin> {CHR 0x0A, CHR 0x0D, CHR '' ''}) [0..63]"
    by code_simp
  moreover have "n \<in> set [0..63]" using assms by simp
  ultimately show "b64val (b64char n) = Some n" "b64char n \<noteq> CHR ''=''" "b64char n \<notin> {CHR 0x0A, CHR 0x0D, CHR '' ''}"
    unfolding list_all_iff by blast+
qed

lemma digit_join: "0 \<le> b \<Longrightarrow> b < k \<Longrightarrow> (a * k + b) div k = a \<and> (a * k + b) mod k = (b :: int)"
  by (simp add: div_pos_pos_trivial)

lemma b64_joins:
  fixes x y z :: int
  assumes "0 \<le> x \<and> x < 256" "0 \<le> y \<and> y < 256" "0 \<le> z \<and> z < 256"
  shows "x div 4 * 4 + (x mod 4 * 16 + y div 16) div 16 = x" "(x mod 4 * 16 + y div 16) mod 16 * 16 + (y mod 16 * 4 + z div 64) div 4 = y"
    "(y mod 16 * 4 + z div 64) mod 4 * 64 + z mod 64 = z"
    "0 \<le> x div 4 \<and> x div 4 < 64" "0 \<le> x mod 4 * 16 + y div 16 \<and> x mod 4 * 16 + y div 16 < 64"
    "0 \<le> y mod 16 * 4 + z div 64 \<and> y mod 16 * 4 + z div 64 < 64" "0 \<le> z mod 64 \<and> z mod 64 < 64"
proof -
  have d: "0 \<le> y div 16" "y div 16 < 16" "0 \<le> z div 64" "z div 64 < 4" using assms by auto
  show "x div 4 * 4 + (x mod 4 * 16 + y div 16) div 16 = x" "(x mod 4 * 16 + y div 16) mod 16 * 16 + (y mod 16 * 4 + z div 64) div 4 = y"
    "(y mod 16 * 4 + z div 64) mod 4 * 64 + z mod 64 = z"
    using digit_join [OF d(1,2)] digit_join [OF d(3,4)] by simp_all
  have m: "0 \<le> x mod 4" "x mod 4 < 4" "0 \<le> y mod 16" "y mod 16 < 16" by simp_all
  show "0 \<le> x mod 4 * 16 + y div 16 \<and> x mod 4 * 16 + y div 16 < 64" "0 \<le> y mod 16 * 4 + z div 64 \<and> y mod 16 * 4 + z div 64 < 64"
    using m d by linarith+
qed (use assms in auto)

lemma of_char_byte: "0 \<le> (of_char c :: int) \<and> (of_char c :: int) < 256"
  using of_char_bounds by blast

lemmas b64_bytes = b64_joins [OF of_char_byte of_char_byte of_char_byte]
  b64_joins(1,5) [OF of_char_byte, where y = 0 and z = 0, simplified] b64_joins(2,6) [OF of_char_byte of_char_byte, where z = 0, simplified]

lemma b64_rests: "(of_char b :: int) div 16 div 16 = 0" "(of_char b :: int) div 16 mod 16 = of_char b div 16"
  "(of_char b :: int) div 64 div 4 = 0" "(of_char b :: int) div 64 mod 4 = of_char b div 64"
proof -
  have "0 \<le> (of_char b :: int) div 16" "(of_char b :: int) div 16 < 16" "0 \<le> (of_char b :: int) div 64" "(of_char b :: int) div 64 < 4"
    using of_char_byte [of b] by auto
  then show "(of_char b :: int) div 16 div 16 = 0" "(of_char b :: int) div 16 mod 16 = of_char b div 16"
    "(of_char b :: int) div 64 div 4 = 0" "(of_char b :: int) div 64 mod 4 = of_char b div 64"
    by (simp_all add: div_pos_pos_trivial mod_pos_pos_trivial)
qed

lemma decode_encode: "decodeQuanta (EncodeToString s) = Some s"
  by (induction s rule: EncodeToString.induct) (simp_all add: Let_def b64_inverse b64_bytes b64_rests)

lemma b64char_plain: "0 \<le> n \<and> n < 64 \<Longrightarrow> b64char n \<noteq> CHR 0x0A \<and> b64char n \<noteq> CHR 0x0D \<and> b64char n \<noteq> CHR '' ''"
  using b64_inverse(3) [of n] by simp

lemma encode_plain: "list_all (\<lambda>c. c \<noteq> CHR 0x0A \<and> c \<noteq> CHR 0x0D \<and> c \<noteq> CHR '' '') (EncodeToString s)"
  by (induction s rule: EncodeToString.induct) (simp_all add: Let_def b64char_plain b64_bytes)

lemma encode_noNewline: "c \<in> set (EncodeToString s) \<Longrightarrow> c \<notin> {CHR 0x0A, CHR 0x0D, CHR '' ''}"
  using encode_plain [of s] by (auto simp: list_all_iff)

lemma Decode_Encode: "DecodeString (EncodeToString s) = Some s"
proof -
  have "filter (\<lambda>c. c \<noteq> CHR 0x0A \<and> c \<noteq> CHR 0x0D) (EncodeToString s) = EncodeToString s" using encode_noNewline by (simp add: filter_id_conv)
  then show ?thesis by (simp add: DecodeString_def decode_encode)
qed

lemma SplitByte_cut: "sep \<notin> set u \<Longrightarrow> SplitByte sep (u @ sep # p) = u # SplitByte sep p"
  by (induction u) auto

lemma SplitByte_hd: "SplitByte sep p ! 0 = takeWhile (\<lambda>c. c \<noteq> sep) p"
  by (induction p) (auto split: list.split)

section \<open>Properties\<close>

text \<open>C23: a request reaches the handler behind an authentication or a check of permissions only after the
  validator has accepted what its header or its claim says; then the handler gets the claim that the
  validator gave.  In every other case the answer does not depend on the handler.\<close>

theorem http_auth_safe:
  "(HTTPBasicAuth m next hdr req \<noteq> HTTPBasicAuth m next' hdr req \<longrightarrow>
     (\<exists>v key data. mwBasicAuthValidator m = Some v \<and> extractAuthType BASIC (headerGet (rqHeader req) ''Authorization'') = Inr key \<and>
        DecodeString key = Some data \<and> v (SplitByte (CHR '':'') data ! 0) (SplitByte (CHR '':'') data ! 1) = None)) \<and>
   (HTTPBearerAuth m next hdr req \<noteq> HTTPBearerAuth m next' hdr req \<longrightarrow>
     (\<exists>v token claim. mwTokenValidator m = Some v \<and> extractAuthType BEARER (headerGet (rqHeader req) ''Authorization'') = Inr token \<and>
        v token = Inr claim \<and> HTTPBearerAuth m next hdr req = next hdr (req\<lparr>rqClaim := Some claim\<rparr>))) \<and>
   (HTTPPermissionACL m code next hdr req \<noteq> HTTPPermissionACL m code next' hdr req \<longrightarrow>
     (\<exists>check claim role. mwACLPermissionChecker m = Some check \<and> rqClaim req = Some claim \<and>
        check (case mwExtractUserIDFunc m of None \<Rightarrow> tcSubject claim | Some f \<Rightarrow> f claim) code = Inr role \<and>
        HTTPPermissionACL m code next hdr req = next hdr (req\<lparr>rqClaim := Some (claim\<lparr>tcRole := role\<rparr>)\<rparr>)))"
proof (intro conjI impI)
  assume "HTTPBasicAuth m next hdr req \<noteq> HTTPBasicAuth m next' hdr req"
  then have "extractHTTPBasic m req = None" by (auto simp: HTTPBasicAuth_def Let_def split: option.splits)
  then show "\<exists>v key data. mwBasicAuthValidator m = Some v \<and> extractAuthType BASIC (headerGet (rqHeader req) ''Authorization'') = Inr key \<and>
        DecodeString key = Some data \<and> v (SplitByte (CHR '':'') data ! 0) (SplitByte (CHR '':'') data ! 1) = None"
    by (auto simp: extractHTTPBasic_def Basic_def Let_def split: sum.splits option.splits if_splits)
next
  assume "HTTPBearerAuth m next hdr req \<noteq> HTTPBearerAuth m next' hdr req"
  then show "\<exists>v token claim. mwTokenValidator m = Some v \<and> extractAuthType BEARER (headerGet (rqHeader req) ''Authorization'') = Inr token \<and>
        v token = Inr claim \<and> HTTPBearerAuth m next hdr req = next hdr (req\<lparr>rqClaim := Some claim\<rparr>)"
    by (auto simp: HTTPBearerAuth_def extractHTTPBearer_def Bearer_def split: sum.splits option.splits)
next
  assume "HTTPPermissionACL m code next hdr req \<noteq> HTTPPermissionACL m code next' hdr req"
  then show "\<exists>check claim role. mwACLPermissionChecker m = Some check \<and> rqClaim req = Some claim \<and>
        check (case mwExtractUserIDFunc m of None \<Rightarrow> tcSubject claim | Some f \<Rightarrow> f claim) code = Inr role \<and>
        HTTPPermissionACL m code next hdr req = next hdr (req\<lparr>rqClaim := Some (claim\<lparr>tcRole := role\<rparr>)\<rparr>)"
    by (auto simp: HTTPPermissionACL_def checkACLPermissionFromContext_def Let_def split: sum.splits option.splits)
qed

definition exAuth :: middleware where
  "exAuth = NewMiddlewareWithOption ''user'' ''pass'' []"

definition exHTTP :: "string \<Rightarrow> httpRequest" where
  "exHTTP authorization = \<lparr>rqMethod = ''GET'', rqURL = ''/users/'', rqHeader = (\<lambda>k. if k = ''Authorization'' then [authorization] else []), rqClaim = None\<rparr>"

definition exAnswer :: "int \<Rightarrow> httpHandler" where
  "exAnswer status hdr req = \<lparr>hrStatus = status, hrHeader = hdr, hrBody = Raw (rqURL req)\<rparr>"

theorem http_auth_safe_witness:
  "\<exists>v key data. mwBasicAuthValidator exAuth = Some v \<and>
     extractAuthType BASIC (headerGet (rqHeader (exHTTP (''Basic '' @ EncodeToString ''user:pass''))) ''Authorization'') = Inr key \<and>
     DecodeString key = Some data \<and> v (SplitByte (CHR '':'') data ! 0) (SplitByte (CHR '':'') data ! 1) = None"
proof -
  let ?req = "exHTTP (''Basic '' @ EncodeToString ''user:pass'')"
  have "extractHTTPBasic exAuth ?req = None" by code_simp
  then have "HTTPBasicAuth exAuth (exAnswer 200) (\<lambda>_. []) ?req \<noteq> HTTPBasicAuth exAuth (exAnswer 204) (\<lambda>_. []) ?req"
    by (simp add: HTTPBasicAuth_def Let_def exAnswer_def)
  then show ?thesis using http_auth_safe [of exAuth "exAnswer 200" "\<lambda>_. []" ?req "exAnswer 204"] by blast
qed

text \<open>What a client encodes reaches the validator: the user name as it is, but of the password only the
  part before its first colon, although a colon is allowed in a password.\<close>

theorem basic_credentials:
  assumes "mwBasicAuthValidator m = Some v" "CHR '':'' \<notin> set user"
  shows "Basic m (EncodeToString (user @ '':'' @ password)) = v user (takeWhile (\<lambda>c. c \<noteq> CHR '':'') password)"
proof -
  have "SplitByte (CHR '':'') (user @ '':'' @ password) = user # SplitByte (CHR '':'') password" using SplitByte_cut [OF assms(2)] by simp
  then show ?thesis using assms(1) SplitByte_hd [of "CHR '':''" password]
    by (simp add: Basic_def Decode_Encode Let_def Suc_le_eq)
qed

theorem basic_credentials_witness:
  "Basic exAuth (EncodeToString (''user'' @ '':'' @ ''pass:word'')) = None \<and> default_ValidateBasic ''user'' ''pass'' ''user'' ''pass:word'' \<noteq> None"
proof -
  have m: "mwBasicAuthValidator exAuth = Some (default_ValidateBasic ''user'' ''pass'')" by (simp add: exAuth_def NewMiddlewareWithOption_def NewMiddleware_def)
  show ?thesis using basic_credentials [OF m, of "''user''" "''pass:word''"] by (simp add: default_ValidateBasic_def)
qed

text \<open>For a header of two words the mixed authentication answers as the authentication that the first
  word names, whatever its case.\<close>

theorem multiple_auth_equivalent:
  assumes "headerGet (rqHeader req) ''Authorization'' = ty @ '' '' @ token" "CHR '' '' \<notin> set ty" "CHR '' '' \<notin> set token"
  shows "(ToUpper ty = BEARER \<longrightarrow> HTTPMultipleAuth m next hdr req = HTTPBearerAuth m next hdr req) \<and>
    (ToUpper ty = BASIC \<longrightarrow> HTTPMultipleAuth m next (hdr(''WWW-Authenticate'' := [''Basic realm='' @ [CHR 0x22, CHR 0x22]])) req = HTTPBasicAuth m next hdr req)"
proof -
  have single: "SplitByte (CHR '' '') token = [token]" using assms(3) by (induction token) auto
  have split: "SplitByte (CHR '' '') (ty @ '' '' @ token) = [ty, token]" using SplitByte_cut [OF assms(2), of token] single by simp
  have cut: "CutByte (CHR '' '') (ty @ '' '' @ token) = (ty, token, True)"
    using assms(2) by (auto simp: CutByte_def takeWhile_append dropWhile_append)
  show ?thesis
    by (auto simp: HTTPMultipleAuth_def HTTPBearerAuth_def HTTPBasicAuth_def extractHTTPBearer_def extractHTTPBasic_def extractAuthType_def
        checkMultipleAuth_def assms(1) [simplified] split [simplified] cut [simplified] Let_def BEARER_def BASIC_def
        split: sum.split option.split)
qed

theorem multiple_auth_equivalent_witness:
  "HTTPMultipleAuth exAuth (exAnswer 200) (\<lambda>_. []) (exHTTP ''bearer abc'') = HTTPBearerAuth exAuth (exAnswer 200) (\<lambda>_. []) (exHTTP ''bearer abc'')"
proof -
  have "ToUpper ''bearer'' = BEARER" by code_simp
  moreover have "headerGet (rqHeader (exHTTP ''bearer abc'')) ''Authorization'' = ''bearer'' @ '' '' @ ''abc''" by (simp add: exHTTP_def headerGet_def)
  ultimately show ?thesis using multiple_auth_equivalent [of "exHTTP ''bearer abc''" "''bearer''" "''abc''"] by simp
qed

text \<open>A response that was cached answers every later request for the same method and URL until it
  expires, whoever makes it: with the same body and the first value of each header field, but always with
  the status 200.\<close>

theorem cache_replays:
  assumes "HTTPCache m next now hdr req c = (res, c')" "cacheGet now (cacheKey req) c = None" "hrStatus res < 400"
    and "mwHasCache m" "cachePolicy m (headerGet (rqHeader req) ''Cache-Control'') = (False, age)" "0 < age"
    and "cacheKey req' = cacheKey req" "now \<le> now'" "now' < now + age" "cachePolicy m (headerGet (rqHeader req') ''Cache-Control'') = (False, age')" "0 < age'"
  shows "\<exists>h. HTTPCache m next' now' hdr' req' c' = (\<lparr>hrStatus = 200, hrHeader = h, hrBody = hrBody res\<rparr>, c') \<and>
    (\<forall>k. hrHeader res k \<noteq> [] \<longrightarrow> h k = [hd (hrHeader res k)])"
proof -
  have "res = next hdr req" "c' = c(cacheKey req \<mapsto> (CacheData (hrBody res) (hrHeader res), now + age))"
    using assms(1-6) by (auto simp: HTTPCache_def Let_def)
  then show ?thesis using assms(4,7-11)
    by (auto simp: HTTPCache_def Let_def cacheGet_def headerGet_def split: list.split)
qed

definition exCached :: middleware where
  "exCached = NewMiddlewareWithOption ''user'' ''pass'' [SetCache True Minute]"

theorem cache_replays_witness:
  "\<exists>h. HTTPCache exCached (exAnswer 500) 5 (\<lambda>_. []) (exHTTP ''Bearer mallory'')
        (snd (HTTPCache exCached (exAnswer 201) 0 (\<lambda>_. []) (exHTTP ''Bearer alice'') Map.empty)) =
      (\<lparr>hrStatus = 200, hrHeader = h, hrBody = Raw ''/users/''\<rparr>,
       snd (HTTPCache exCached (exAnswer 201) 0 (\<lambda>_. []) (exHTTP ''Bearer alice'') Map.empty))"
proof -
  let ?a = "exHTTP ''Bearer alice''" and ?b = "exHTTP ''Bearer mallory''"
  have p: "mwHasCache exCached" "cachePolicy exCached (headerGet (rqHeader ?a) ''Cache-Control'') = (False, 60000000000)"
    "cachePolicy exCached (headerGet (rqHeader ?b) ''Cache-Control'') = (False, 60000000000)" "cacheKey ?b = cacheKey ?a" by code_simp+
  have "HTTPCache exCached (exAnswer 201) 0 (\<lambda>_. []) ?a Map.empty =
      (exAnswer 201 (\<lambda>_. []) ?a, snd (HTTPCache exCached (exAnswer 201) 0 (\<lambda>_. []) ?a Map.empty))"
    using p(1,2) by (simp add: HTTPCache_def cacheGet_def Let_def)
  from cache_replays [OF this, of 60000000000 ?b 5 60000000000 "exAnswer 500" "\<lambda>_. []"] p show ?thesis
    by (auto simp: exAnswer_def cacheGet_def exHTTP_def)
qed

text \<open>The gRPC bearer authentication hands the whole header to the validator, scheme included, where the
  HTTP one hands over the token alone.\<close>

theorem grpc_bearer_whole_header:
  assumes "mwTokenValidator m = Some v" "gcMetadata ctx = Some meta" "meta ''authorization'' = [''Bearer '' @ token]"
    and "headerGet (rqHeader req) ''Authorization'' = ''Bearer '' @ token" "CHR '' '' \<notin> set token"
  shows "GRPCBearerAuth m ctx = (case v (''Bearer '' @ token) of Inl e \<Rightarrow> Inl (PlainError e) | Inr claim \<Rightarrow> Inr (ctx\<lparr>gcClaim := Some claim\<rparr>)) \<and>
    extractHTTPBearer m req = v token"
proof -
  have single: "SplitByte (CHR '' '') token = [token]" using assms(5) by (induction token) auto
  have "SplitByte (CHR '' '') (''Bearer '' @ token) = [''Bearer'', token]" using single by simp
  moreover have "ToUpper ''Bearer'' = BEARER" by code_simp
  ultimately have "extractAuthType BEARER (''Bearer '' @ token) = Inr token" by (simp add: extractAuthType_def)
  then show ?thesis using assms(1-4)
    by (simp add: GRPCBearerAuth_def extractAuthorizationGRPCMetadata_def extractHTTPBearer_def Bearer_def)
qed

end
