(* ===== verification/Graphql_WS.thy ===== *)
theory Graphql_WS
  imports Go_Base
begin

text \<open>
  GraphQL over websockets (\<open>src/codebase/app/graphql_server/ws\<close>): the upgrade of a request
  (\<open>http.go\<close>) and the connection (\<open>conn.go\<close>) with its reader, its writer and one goroutine for each
  running operation.  A step handles one message of the client, one event of an operation or the end
  of the writer.  The decoding of JSON payloads and the service that is subscribed to are
  arguments, and so is \<open>wr\<close>, which says whether the \<open>n\<close>-th write to the socket succeeds.
\<close>

section \<open>Messages\<close>

definition typeComplete :: string where "typeComplete = ''complete''"
definition typeConnectionAck :: string where "typeConnectionAck = ''connection_ack''"
definition typeConnectionError :: string where "typeConnectionError = ''connection_error''"
definition typeConnectionInit :: string where "typeConnectionInit = ''connection_init''"
definition typeConnectionKeepAlive :: string where "typeConnectionKeepAlive = ''ka''"
definition typeConnectionTerminate :: string where "typeConnectionTerminate = ''connection_terminate''"
definition typeData :: string where "typeData = ''data''"
definition typeError :: string where "typeError = ''error''"
definition typeStart :: string where "typeStart = ''start''"
definition typeStop :: string where "typeStop = ''stop''"

lemmas type_defs = typeComplete_def typeConnectionAck_def typeConnectionError_def typeConnectionInit_def
  typeConnectionKeepAlive_def typeConnectionTerminate_def typeData_def typeError_def typeStart_def typeStop_def

text \<open>A payload that the server sends is missing, the text of an error or JSON.\<close>

datatype wsPayload = PNone | PError string | PJSON string

record operationMessage =
  omID :: string
  omType :: string
  omPayload :: wsPayload

record clientMessage =
  cmID :: string
  cmType :: string
  cmPayload :: string

section \<open>The connection\<close>

text \<open>A running operation has the number of its context, and whether that is canceled.\<close>

record operation =
  opNr :: nat
  opID :: string
  opCanceled :: bool

record connection =
  cnClosed :: bool
  cnReading :: bool
  cnWriting :: bool
  cnOpDone :: "string \<rightharpoonup> nat"
  cnOps :: "operation list"
  cnNext :: nat
  cnWrites :: nat
  cnOut :: "operationMessage list"

text \<open>\<open>parseInit\<close> and \<open>parseStart\<close> decode payloads; \<open>subscribe\<close> answers with an error or starts the
  operation.\<close>

record wsService =
  parseInit :: "string \<Rightarrow> bool"
  parseStart :: "string \<Rightarrow> (string \<times> string \<times> string) option"
  subscribe :: "string \<times> string \<times> string \<Rightarrow> string option"

definition Connect :: connection where
  "Connect = \<lparr>cnClosed = False, cnReading = True, cnWriting = True, cnOpDone = (\<lambda>_. None), cnOps = [], cnNext = 0, cnWrites = 0, cnOut = []\<rparr>"

text \<open>\<open>close\<close> cancels the context, and with it the contexts of the operations, and closes the socket.\<close>

definition closeConn :: "connection \<Rightarrow> connection" where
  "closeConn c = c\<lparr>cnClosed := True, cnOps := map (\<lambda>o'. o'\<lparr>opCanceled := True\<rparr>) (cnOps c)\<rparr>"

text \<open>The writer takes a message: it drops it and ends when the context is done, and it ends the
  connection when the write fails.  Without the writer the message is dropped.\<close>

definition send :: "(nat \<Rightarrow> bool) \<Rightarrow> operationMessage \<Rightarrow> connection \<Rightarrow> connection" where
  "send wr m c =
     (if \<not> cnWriting c then c
      else if cnClosed c then c\<lparr>cnWriting := False\<rparr>
      else let c = c\<lparr>cnWrites := Suc (cnWrites c)\<rparr>
           in if wr (cnWrites c - 1) then c\<lparr>cnOut := cnOut c @ [m]\<rparr> else closeConn (c\<lparr>cnWriting := False\<rparr>))"

definition msg :: "string \<Rightarrow> string \<Rightarrow> wsPayload \<Rightarrow> operationMessage" where
  "msg i t p = \<lparr>omID = i, omType = t, omPayload = p\<rparr>"

definition startOperation :: "string \<Rightarrow> connection \<Rightarrow> connection" where
  "startOperation i c = c\<lparr>cnOpDone := (cnOpDone c)(i \<mapsto> cnNext c),
     cnOps := \<lparr>opNr = cnNext c, opID = i, opCanceled = cnClosed c\<rparr> # cnOps c, cnNext := Suc (cnNext c)\<rparr>"

definition cancelOperation :: "nat \<Rightarrow> connection \<Rightarrow> connection" where
  "cancelOperation n c = c\<lparr>cnOps := map (\<lambda>o'. if opNr o' = n then o'\<lparr>opCanceled := True\<rparr> else o') (cnOps c)\<rparr>"

definition handleMessage :: "(nat \<Rightarrow> bool) \<Rightarrow> wsService \<Rightarrow> clientMessage \<Rightarrow> connection \<Rightarrow> connection" where
  "handleMessage wr sv m c =
     (if cmType m = typeConnectionInit then
        (if \<not> parseInit sv (cmPayload m)
         then send wr (msg [] typeConnectionError (PError (''invalid payload for type: '' @ cmType m))) c
         else send wr (msg [] typeConnectionAck PNone) c)
      else if cmType m = typeStart then
        (if cmID m = [] then send wr (msg [] typeConnectionError (PError ''missing ID for start operation'')) c
         else case parseStart sv (cmPayload m) of
           None \<Rightarrow> send wr (msg (cmID m) typeConnectionError (PError (''invalid payload for type: '' @ cmType m))) c
         | Some osp \<Rightarrow> (case subscribe sv osp of
             Some err \<Rightarrow> send wr (msg (cmID m) typeComplete PNone) (send wr (msg (cmID m) typeError (PError err)) c)
           | None \<Rightarrow> startOperation (cmID m) c))
      else if cmType m = typeStop then
        send wr (msg (cmID m) typeComplete PNone)
          (case cnOpDone c (cmID m) of
             None \<Rightarrow> c
           | Some n \<Rightarrow> cancelOperation n (c\<lparr>cnOpDone := (cnOpDone c)(cmID m := None)\<rparr>))
      else if cmType m = typeConnectionTerminate then closeConn (c\<lparr>cnReading := False\<rparr>)
      else if cmType m = typeConnectionKeepAlive then send wr (msg [] typeConnectionKeepAlive PNone) c
      else send wr (msg (cmID m) typeError (PError (''unknown operation message of type: '' @ cmType m))) c)"

section \<open>Steps\<close>

text \<open>The client sends a message or hangs up, an operation gets a payload (on the left the error
  when it cannot be encoded), finds its channel closed or its context done, or the writer sees the context done.\<close>

datatype wsEvent =
    Read clientMessage
  | Hangup
  | Payload nat "string + string"
  | ChannelClosed nat
  | ContextDone nat
  | WriterStops

definition findOp :: "nat \<Rightarrow> connection \<Rightarrow> operation option" where
  "findOp n c = find (\<lambda>o'. opNr o' = n) (cnOps c)"

definition endOp :: "nat \<Rightarrow> connection \<Rightarrow> connection" where
  "endOp n c = c\<lparr>cnOps := filter (\<lambda>o'. opNr o' \<noteq> n) (cnOps c)\<rparr>"

text \<open>An event that cannot happen leaves no next state.  A reader whose socket is closed only hangs up.\<close>

definition wsStep :: "(nat \<Rightarrow> bool) \<Rightarrow> wsService \<Rightarrow> wsEvent \<Rightarrow> connection \<Rightarrow> connection option" where
  "wsStep wr sv e c =
     (case e of
        Read m \<Rightarrow> if cnReading c \<and> \<not> cnClosed c then Some (handleMessage wr sv m c) else None
      | Hangup \<Rightarrow> if cnReading c then Some (closeConn (c\<lparr>cnReading := False\<rparr>)) else None
      | Payload n p \<Rightarrow> (case findOp n c of
          None \<Rightarrow> None
        | Some o' \<Rightarrow> Some (send wr (case p of Inl err \<Rightarrow> msg (opID o') typeError (PError err) | Inr j \<Rightarrow> msg (opID o') typeData (PJSON j)) c))
      | ChannelClosed n \<Rightarrow> (case findOp n c of
          None \<Rightarrow> None
        | Some o' \<Rightarrow> Some (endOp n (send wr (msg (opID o') typeComplete PNone) c)))
      | ContextDone n \<Rightarrow> (case findOp n c of
          None \<Rightarrow> None
        | Some o' \<Rightarrow> if opCanceled o' then Some (endOp n c) else None)
      | WriterStops \<Rightarrow> if cnWriting c \<and> cnClosed c then Some (c\<lparr>cnWriting := False\<rparr>) else None)"

fun wsRun :: "(nat \<Rightarrow> bool) \<Rightarrow> wsService \<Rightarrow> wsEvent list \<Rightarrow> connection \<Rightarrow> connection option" where
  "wsRun wr sv [] c = Some c"
| "wsRun wr sv (e # es) c = Option.bind (wsStep wr sv e c) (wsRun wr sv es)"

section \<open>The upgrade\<close>

datatype wsAnswer = Preflight | Upgrades | UpgradeFails | PlainHTTP

text \<open>\<open>upgrade\<close> is the answer of the websocket library: nothing, or the subprotocol it agreed on.\<close>

definition protocolGraphQLWS :: string where "protocolGraphQLWS = ''graphql-ws''"

definition NewHandlerFunc :: "string option \<Rightarrow> string \<Rightarrow> string list \<Rightarrow> wsAnswer" where
  "NewHandlerFunc upgrade httpMethod subprotocols =
     (if httpMethod = ''OPTIONS'' then Preflight
      else if protocolGraphQLWS \<in> set subprotocols then
        (case upgrade of
           None \<Rightarrow> UpgradeFails
         | Some p \<Rightarrow> if p \<noteq> protocolGraphQLWS then UpgradeFails else Upgrades)
      else PlainHTTP)"

section \<open>What every state satisfies\<close>

text \<open>The numbers of contexts are fresh and distinct, a closed connection has only canceled operations, and
  \<open>ids\<close> are the identifiers under which operations were started: they are the only ones that running
  operations and data messages have.\<close>

definition wsOk :: "string set \<Rightarrow> connection \<Rightarrow> bool" where
  "wsOk ids c \<longleftrightarrow> distinct (map opNr (cnOps c)) \<and> (\<forall>o'\<in>set (cnOps c). opNr o' < cnNext c \<and> opID o' \<in> ids) \<and>
     (\<forall>i n. cnOpDone c i = Some n \<longrightarrow> n < cnNext c) \<and>
     (cnClosed c \<longrightarrow> (\<forall>o'\<in>set (cnOps c). opCanceled o')) \<and>
     (\<forall>m\<in>set (cnOut c). omType m = typeData \<longrightarrow> omID m \<in> ids)"

fun starts :: "wsEvent list \<Rightarrow> string list" where
  "starts [] = []"
| "starts (e # es) = (case e of Read m \<Rightarrow> if cmType m = typeStart then cmID m # starts es else starts es | _ \<Rightarrow> starts es)"

text \<open>An operation that is not canceled can be stopped.\<close>

definition stoppable :: "connection \<Rightarrow> bool" where
  "stoppable c \<longleftrightarrow> (\<forall>o'\<in>set (cnOps c). \<not> opCanceled o' \<longrightarrow> cnOpDone c (opID o') = Some (opNr o'))"

lemma wsOk_mono: "wsOk ids c \<Longrightarrow> ids \<subseteq> ids' \<Longrightarrow> wsOk ids' c"
  unfolding wsOk_def by blast

lemma close_ok: "wsOk ids c \<Longrightarrow> wsOk ids (closeConn c)"
  unfolding wsOk_def closeConn_def by (auto simp: comp_def)

lemma flags_ok [simp]:
  "wsOk ids (c\<lparr>cnWriting := w\<rparr>) = wsOk ids c" "wsOk ids (c\<lparr>cnReading := w\<rparr>) = wsOk ids c" "wsOk ids (c\<lparr>cnWrites := n\<rparr>) = wsOk ids c"
  by (simp_all add: wsOk_def)

lemma send_ok: "wsOk ids c \<Longrightarrow> (omType m = typeData \<Longrightarrow> omID m \<in> ids) \<Longrightarrow> wsOk ids (send wr m c)"
  by (auto simp: send_def Let_def intro!: close_ok) (auto simp: wsOk_def)

lemma start_ok: "wsOk ids c \<Longrightarrow> wsOk (insert i ids) (startOperation i c)"
  by (auto simp: wsOk_def startOperation_def less_Suc_eq)

lemma opNr_cancel [simp]: "opNr (if b then o'\<lparr>opCanceled := True\<rparr> else o') = opNr o'" by simp

lemma cancel_ok: "wsOk ids c \<Longrightarrow> wsOk ids (cancelOperation n (c\<lparr>cnOpDone := (cnOpDone c)(i := None)\<rparr>))"
  by (auto simp: wsOk_def cancelOperation_def comp_def simp del: if_split)

lemma endOp_ok: "wsOk ids c \<Longrightarrow> wsOk ids (endOp n c)"
  by (auto simp: wsOk_def endOp_def distinct_map_filter)

text \<open>Sending leaves the operations as they are or cancels them all.\<close>

lemma send_ops:
  "cnOpDone (send wr m c) = cnOpDone c \<and> cnNext (send wr m c) = cnNext c \<and>
   (cnOps (send wr m c) = cnOps c \<or> cnOps (send wr m c) = map (\<lambda>o'. o'\<lparr>opCanceled := True\<rparr>) (cnOps c))"
  by (simp add: send_def Let_def closeConn_def)

lemma send_stoppable: "stoppable c \<Longrightarrow> stoppable (send wr m c)"
  using send_ops [of wr m c] by (auto simp: stoppable_def)

lemma send_ids: "opID ` set (cnOps (send wr m c)) = opID ` set (cnOps c)"
  using send_ops [of wr m c] by (elim conjE disjE) (simp_all add: image_image)

lemma handleMessage_ok:
  assumes "wsOk ids c"
  shows "wsOk (ids \<union> set (starts [Read m])) (handleMessage wr sv m c)"
proof -
  have [simp]: "typeConnectionAck \<noteq> typeData" "typeComplete \<noteq> typeData" "typeConnectionError \<noteq> typeData" "typeError \<noteq> typeData"
    "typeConnectionKeepAlive \<noteq> typeData" "typeConnectionInit \<noteq> typeStart" "typeStop \<noteq> typeStart"
    by (simp_all add: type_defs)
  define I where "I = ids \<union> set (starts [Read m])"
  have ok: "wsOk I c" using wsOk_mono [OF assms] by (simp add: I_def)
  have snd: "wsOk I (send wr (msg i t p) c')" if "wsOk I c'" "t \<noteq> typeData" for i t p c'
    using that by (auto simp: msg_def intro: send_ok)
  have strt: "wsOk I (startOperation (cmID m) c)" if "cmType m = typeStart"
    using start_ok [OF assms, of "cmID m"] that by (simp add: I_def)
  show ?thesis
    unfolding I_def [symmetric] by (simp add: handleMessage_def ok snd strt cancel_ok close_ok split: option.split)
qed

lemma findOp_in: "findOp n c = Some o' \<Longrightarrow> o' \<in> set (cnOps c) \<and> opNr o' = n"
  by (auto simp: findOp_def find_Some_iff)

lemma wsStep_ok:
  assumes "wsStep wr sv e c = Some c'" "wsOk ids c"
  shows "wsOk (ids \<union> set (starts [e])) c'"
proof (cases e)
  case (Read m)
  with assms handleMessage_ok show ?thesis by (auto simp: wsStep_def simp del: starts.simps split: if_splits)
next
  case (Payload n p)
  then obtain o' where o': "findOp n c = Some o'" using assms(1) by (auto simp: wsStep_def split: option.splits)
  have "opID o' \<in> ids" using findOp_in [OF o'] assms(2) by (auto simp: wsOk_def)
  with o' Payload assms show ?thesis by (auto simp: wsStep_def msg_def intro!: send_ok split: sum.splits)
next
  case (ChannelClosed n)
  then show ?thesis
    using assms by (auto simp: wsStep_def msg_def type_defs intro!: endOp_ok send_ok split: option.splits)
qed (use assms in \<open>auto simp: wsStep_def intro!: close_ok endOp_ok split: if_splits option.splits\<close>)

lemma starts_Cons: "set (starts (e # es)) = set (starts [e]) \<union> set (starts es)"
  by (cases e) auto

lemma wsRun_ok:
  assumes "wsRun wr sv es c = Some c'" "wsOk ids c"
  shows "wsOk (ids \<union> set (starts es)) c'"
  using assms
proof (induction es arbitrary: c ids)
  case (Cons e es)
  then obtain c1 where c1: "wsStep wr sv e c = Some c1" "wsRun wr sv es c1 = Some c'" by (auto simp: bind_eq_Some_conv)
  from Cons.IH [OF c1(2) wsStep_ok [OF c1(1) Cons.prems(2)]] show ?case
    by (simp only: starts_Cons [of e es] Un_assoc)
qed simp

lemma Connect_ok: "wsOk {} Connect"
  by (simp add: wsOk_def Connect_def)

section \<open>What a client can rely on\<close>

text \<open>C20: whatever the client sends and whatever the operations do, the server sends data only under an
  identifier of a \<open>start\<close> message it has read before, and as soon as the connection is closed
  every running operation is canceled, nothing more is written, and the operations can all end.\<close>

theorem ws_data_only_for_started:
  assumes "wsRun wr sv es Connect = Some c"
  shows "(\<forall>m\<in>set (cnOut c). omType m = typeData \<longrightarrow> omID m \<in> set (starts es)) \<and>
    (cnClosed c \<longrightarrow> (\<forall>e c'. wsStep wr sv e c = Some c' \<longrightarrow> cnClosed c' \<and> cnOut c' = cnOut c) \<and>
      (\<exists>c'. wsRun wr sv (map (ContextDone \<circ> opNr) (cnOps c)) c = Some c' \<and> cnOps c' = []))"
proof (intro conjI impI allI)
  have ok: "wsOk (set (starts es)) c" using wsRun_ok [OF assms Connect_ok] by simp
  then show "\<forall>m\<in>set (cnOut c). omType m = typeData \<longrightarrow> omID m \<in> set (starts es)" by (simp add: wsOk_def)
  fix e c' assume closed: "cnClosed c"
  {
    assume "wsStep wr sv e c = Some c'"
    with closed show "cnClosed c'" "cnOut c' = cnOut c"
      by (auto simp: wsStep_def send_def endOp_def closeConn_def split: wsEvent.splits if_splits option.splits)
  }
  have "\<exists>c'. wsRun wr sv (map (ContextDone \<circ> opNr) (cnOps c)) c = Some c' \<and> cnOps c' = []"
    if "distinct (map opNr (cnOps c))" "\<forall>o'\<in>set (cnOps c). opCanceled o'" for c
    using that
  proof (induction "cnOps c" arbitrary: c)
    case (Cons o' os)
    have "filter (\<lambda>x. opNr x \<noteq> opNr o') os = os" using Cons.prems(1) Cons.hyps(2) [symmetric] by (simp add: filter_id_conv) (metis image_eqI)
    then have ops: "cnOps (endOp (opNr o') c) = os" using Cons.hyps(2) [symmetric] by (simp add: endOp_def)
    have "findOp (opNr o') c = Some o'" using Cons.hyps(2) [symmetric] by (simp add: findOp_def)
    then have step: "wsStep wr sv (ContextDone (opNr o')) c = Some (endOp (opNr o') c)"
      using Cons.prems(2) Cons.hyps(2) [symmetric] by (simp add: wsStep_def)
    have "\<exists>c'. wsRun wr sv (map (ContextDone \<circ> opNr) (cnOps (endOp (opNr o') c))) (endOp (opNr o') c) = Some c' \<and> cnOps c' = []"
      by (rule Cons.hyps(1)) (use Cons.prems Cons.hyps(2) [symmetric] ops in auto)
    with step ops Cons.hyps(2) [symmetric] show ?case by simp
  qed simp
  then show "\<exists>c'. wsRun wr sv (map (ContextDone \<circ> opNr) (cnOps c)) c = Some c' \<and> cnOps c' = []"
    using ok closed by (simp add: wsOk_def)
qed

definition exService :: wsService where
  "exService = \<lparr>parseInit = (\<lambda>p. p = ''{}''), parseStart = (\<lambda>p. if p = [] then None else Some (p, [], [])), subscribe = (\<lambda>_. None)\<rparr>"

definition exStart :: "string \<Rightarrow> wsEvent" where
  "exStart i = Read \<lparr>cmID = i, cmType = typeStart, cmPayload = ''subscription { jobs }''\<rparr>"

definition exEvents :: "wsEvent list" where
  "exEvents = [exStart ''1'', Payload 0 (Inr ''{}''), Hangup]"

definition connAfter :: "connection option \<Rightarrow> connection" where
  "connAfter r = (case r of None \<Rightarrow> Connect | Some c \<Rightarrow> c)"

theorem ws_data_only_for_started_witness:
  "map omID (cnOut (connAfter (wsRun (\<lambda>_. True) exService exEvents Connect))) = [''1''] \<and>
   (\<exists>c'. wsRun (\<lambda>_. True) exService (map (ContextDone \<circ> opNr) (cnOps (connAfter (wsRun (\<lambda>_. True) exService exEvents Connect))))
      (connAfter (wsRun (\<lambda>_. True) exService exEvents Connect)) = Some c' \<and> cnOps c' = [])"
proof -
  have "wsRun (\<lambda>_. True) exService exEvents Connect \<noteq> None"
    by (simp add: exEvents_def exStart_def exService_def wsStep_def handleMessage_def Connect_def startOperation_def findOp_def type_defs send_def)
  then have "wsRun (\<lambda>_. True) exService exEvents Connect = Some (connAfter (wsRun (\<lambda>_. True) exService exEvents Connect))"
    by (auto simp: connAfter_def)
  note w = ws_data_only_for_started [OF this]
  have "cnClosed (connAfter (wsRun (\<lambda>_. True) exService exEvents Connect))"
    "map omID (cnOut (connAfter (wsRun (\<lambda>_. True) exService exEvents Connect))) = [''1'']"
    by code_simp+
  with w show ?thesis by blast
qed

text \<open>With identifiers that are not started twice, a stop cancels the operation.\<close>

lemma handleMessage_stoppable:
  assumes "wsOk ids c" "stoppable c" "cmType m = typeStart \<Longrightarrow> cmID m \<notin> ids"
  shows "stoppable (handleMessage wr sv m c)"
proof -
  have strt: "stoppable (startOperation (cmID m) c)" if "cmType m = typeStart"
    using assms that by (auto simp: stoppable_def startOperation_def wsOk_def)
  have canc: "stoppable (cancelOperation n (c\<lparr>cnOpDone := (cnOpDone c)(cmID m := None)\<rparr>))" if "cnOpDone c (cmID m) = Some n" for n
    using assms(1,2) that by (fastforce simp: stoppable_def cancelOperation_def wsOk_def split: if_splits)
  have clos: "stoppable (closeConn (c\<lparr>cnReading := False\<rparr>))" by (auto simp: stoppable_def closeConn_def)
  show ?thesis
    using assms(2) by (auto simp: handleMessage_def send_stoppable strt canc clos split: option.split)
qed

lemma wsStep_stoppable:
  assumes "wsStep wr sv e c = Some c'" "wsOk ids c" "stoppable c" "set (starts [e]) \<inter> ids = {}"
  shows "stoppable c'"
proof (cases e)
  case (Read m)
  then show ?thesis
    using assms handleMessage_stoppable [OF assms(2,3), of m wr sv] by (auto simp: wsStep_def split: if_splits)
next
  case Hangup
  then show ?thesis using assms by (auto simp: wsStep_def stoppable_def closeConn_def split: if_splits)
next
  case (ChannelClosed n)
  then show ?thesis
    using assms send_stoppable [OF assms(3)] by (auto simp: wsStep_def stoppable_def endOp_def split: option.splits)
next
  case (Payload n p)
  then show ?thesis using assms by (auto simp: wsStep_def send_stoppable split: option.splits)
qed (use assms in \<open>auto simp: wsStep_def stoppable_def endOp_def split: if_splits option.splits\<close>)

lemma wsRun_stoppable:
  assumes "wsRun wr sv es c = Some c'" "wsOk ids c" "stoppable c" "distinct (starts es)" "set (starts es) \<inter> ids = {}"
  shows "stoppable c'"
  using assms
proof (induction es arbitrary: c ids)
  case (Cons e es)
  then obtain c1 where c1: "wsStep wr sv e c = Some c1" "wsRun wr sv es c1 = Some c'" by (auto simp: bind_eq_Some_conv)
  have d: "distinct (starts es)" "set (starts [e]) \<inter> set (starts es) = {}" using Cons.prems(4) by (cases e; auto split: if_splits)+
  have i: "set (starts [e]) \<inter> ids = {}" "set (starts es) \<inter> ids = {}" using Cons.prems(5) by (simp_all only: starts_Cons [of e es]) blast+
  show ?case
    by (rule Cons.IH [OF c1(2) wsStep_ok [OF c1(1) Cons.prems(2)] wsStep_stoppable [OF c1(1) Cons.prems(2,3) i(1)] d(1)])
      (use d(2) i(2) in blast)
qed simp

text \<open>When no identifier is started twice, the message \<open>stop\<close> cancels the operation of its identifier
  and is answered with \<open>complete\<close>, unless the write fails.\<close>

theorem ws_stop_cancels:
  assumes "wsRun wr sv es Connect = Some c" "distinct (starts es)" "cmType m = typeStop" "wsStep wr sv (Read m) c = Some c'"
  shows "(\<forall>o'\<in>set (cnOps c'). opID o' = cmID m \<longrightarrow> opCanceled o') \<and>
    (cnClosed c' \<or> \<not> cnWriting c' \<or> cnOut c' = cnOut c @ [msg (cmID m) typeComplete PNone])"
proof -
  have st: "stoppable c" using wsRun_stoppable [OF assms(1) Connect_ok _ assms(2)] by (simp add: stoppable_def Connect_def)
  define c1 where "c1 = (case cnOpDone c (cmID m) of None \<Rightarrow> c
      | Some n \<Rightarrow> cancelOperation n (c\<lparr>cnOpDone := (cnOpDone c)(cmID m := None)\<rparr>))"
  have c': "c' = send wr (msg (cmID m) typeComplete PNone) c1"
    using assms(3,4) by (auto simp: wsStep_def handleMessage_def c1_def type_defs split: if_splits)
  have "\<forall>o'\<in>set (cnOps c1). opID o' = cmID m \<longrightarrow> opCanceled o'"
    using st by (auto simp: c1_def stoppable_def cancelOperation_def split: option.splits if_splits)
  then have "\<forall>o'\<in>set (cnOps c'). opID o' = cmID m \<longrightarrow> opCanceled o'"
    using send_ops [of wr "msg (cmID m) typeComplete PNone" c1] unfolding c' by auto
  moreover have "cnOut c1 = cnOut c" by (simp add: c1_def cancelOperation_def split: option.split)
  ultimately show ?thesis by (auto simp: c' send_def Let_def closeConn_def)
qed

theorem ws_stop_cancels_witness:
  "\<forall>o'\<in>set (cnOps (connAfter (wsStep (\<lambda>_. True) exService (Read \<lparr>cmID = ''1'', cmType = typeStop, cmPayload = []\<rparr>)
      (connAfter (wsRun (\<lambda>_. True) exService [exStart ''1'', exStart ''2''] Connect))))). opID o' = ''1'' \<longrightarrow> opCanceled o'"
proof -
  let ?c = "connAfter (wsRun (\<lambda>_. True) exService [exStart ''1'', exStart ''2''] Connect)"
  let ?m = "\<lparr>cmID = ''1'', cmType = typeStop, cmPayload = []\<rparr>"
  have "wsRun (\<lambda>_. True) exService [exStart ''1'', exStart ''2''] Connect = Some ?c"
    by (simp add: connAfter_def exStart_def exService_def wsStep_def handleMessage_def Connect_def startOperation_def type_defs)
  moreover have "distinct (starts [exStart ''1'', exStart ''2''])" by code_simp
  moreover have "wsStep (\<lambda>_. True) exService (Read ?m) ?c = Some (connAfter (wsStep (\<lambda>_. True) exService (Read ?m) ?c))"
    by (simp add: connAfter_def exStart_def exService_def wsStep_def handleMessage_def Connect_def startOperation_def type_defs)
  ultimately show ?thesis using ws_stop_cancels [of "\<lambda>_. True" exService "[exStart ''1'', exStart ''2'']" ?c ?m] by simp
qed

text \<open>An identifier that is started twice: the stop cancels the second operation, the first goes on sending.\<close>

lemma duplicate_start_goes_on:
  "map opCanceled (cnOps (connAfter (wsRun (\<lambda>_. True) exService
      [exStart ''1'', exStart ''1'', Read \<lparr>cmID = ''1'', cmType = typeStop, cmPayload = []\<rparr>] Connect))) = [True, False]"
  by code_simp

end
