(* ===== verification/Go_Utf8.thy ===== *)
theory Go_Utf8
  imports Go_Base
begin

text \<open>
  The runes of a Go string.  Ranging over a string decodes UTF-8: each step gives the index of the
  first byte of a rune and its code point; a byte that starts no valid encoding is the rune
  \<open>0xFFFD\<close> of width one.
\<close>

definition byteIn :: "int \<Rightarrow> int \<Rightarrow> char \<Rightarrow> bool" where
  "byteIn lo hi c \<longleftrightarrow> lo \<le> of_char c \<and> of_char c \<le> hi"

definition lowBits :: "char \<Rightarrow> int" where
  "lowBits c = of_char c mod 64"

definition isCont :: "char \<Rightarrow> bool" where
  "isCont = byteIn 128 191"

definition RuneError :: int where "RuneError = 65533"

text \<open>\<open>utf8.DecodeRuneInString\<close>: the code point and the number of bytes.\<close>

definition second :: "char \<Rightarrow> char \<Rightarrow> bool" where
  "second a b \<longleftrightarrow>
     (let n = of_char a :: int
      in if n = 224 then byteIn 160 191 b else if n = 237 then byteIn 128 159 b
         else if n = 240 then byteIn 144 191 b else if n = 244 then byteIn 128 143 b else isCont b)"

definition DecodeRune :: "string \<Rightarrow> int \<times> nat" where
  "DecodeRune s =
     (case s of
        [] \<Rightarrow> (RuneError, 0)
      | a # r \<Rightarrow>
          let n = of_char a :: int
          in if n < 128 then (n, 1)
             else if 194 \<le> n \<and> n \<le> 223 then
               (case r of b # _ \<Rightarrow> if isCont b then ((n mod 32) * 64 + lowBits b, 2) else (RuneError, 1) | _ \<Rightarrow> (RuneError, 1))
             else if 224 \<le> n \<and> n \<le> 239 then
               (case r of b # c # _ \<Rightarrow> if second a b \<and> isCont c then (((n mod 16) * 64 + lowBits b) * 64 + lowBits c, 3) else (RuneError, 1)
                | _ \<Rightarrow> (RuneError, 1))
             else if 240 \<le> n \<and> n \<le> 244 then
               (case r of b # c # d # _ \<Rightarrow>
                    if second a b \<and> isCont c \<and> isCont d
                    then ((((n mod 8) * 64 + lowBits b) * 64 + lowBits c) * 64 + lowBits d, 4) else (RuneError, 1)
                | _ \<Rightarrow> (RuneError, 1))
             else (RuneError, 1))"

lemma DecodeRune_width: "s \<noteq> [] \<Longrightarrow> 1 \<le> snd (DecodeRune s)"
  by (auto simp: DecodeRune_def Let_def split: list.split)

text \<open>The pairs that \<open>for i, c := range s\<close> visits, with the bytes of the rune; \<open>i\<close> is the index of the
  first byte.\<close>

function runesFrom :: "nat \<Rightarrow> string \<Rightarrow> (nat \<times> int \<times> string) list" where
  "runesFrom i s =
     (if s = [] then []
      else case DecodeRune s of (r, w) \<Rightarrow> (i, r, take (max 1 w) s) # runesFrom (i + max 1 w) (drop (max 1 w) s))"
  by pat_completeness auto
termination by (relation "measure (\<lambda>(i, s). length s)") auto

declare runesFrom.simps [simp del]

lemma runesFrom_Nil [simp]: "runesFrom i [] = []"
  by (simp add: runesFrom.simps)

definition ascii :: "char \<Rightarrow> bool" where
  "ascii c \<longleftrightarrow> (of_char c :: int) < 128"

lemma runesFrom_ascii: "ascii a \<Longrightarrow> runesFrom i (a # s) = (i, of_char a, [a]) # runesFrom (Suc i) s"
  by (simp add: runesFrom.simps [of i "a # s"] DecodeRune_def ascii_def)

text \<open>\<open>unicode.IsSpace\<close>.\<close>

definition IsSpace :: "int \<Rightarrow> bool" where
  "IsSpace r \<longleftrightarrow> 9 \<le> r \<and> r \<le> 13 \<or> r \<in> set [32, 133, 160, 5760, 8232, 8233, 8239, 8287, 12288] \<or> 8192 \<le> r \<and> r \<le> 8202"

text \<open>\<open>Builder.WriteRune\<close> of a decoded rune writes its bytes; an invalid byte becomes the encoding of
  \<open>RuneError\<close>.\<close>

definition writeRune :: "int \<Rightarrow> string \<Rightarrow> string" where
  "writeRune r bytes = (if r = RuneError then [char_of (239 :: int), char_of (191 :: int), char_of (189 :: int)] else bytes)"

text \<open>\<open>strings.Index\<close>.\<close>

fun indexFrom :: "nat \<Rightarrow> string \<Rightarrow> string \<Rightarrow> nat option" where
  "indexFrom i s pat =
     (if HasPrefix s pat then Some i else case s of [] \<Rightarrow> None | _ # r \<Rightarrow> indexFrom (Suc i) r pat)"

declare indexFrom.simps [simp del]

definition Index :: "string \<Rightarrow> string \<Rightarrow> nat option" where
  "Index s pat = indexFrom 0 s pat"

lemma HasPrefix_self: "HasPrefix (p @ s) p"
  by (induction p) auto

lemma indexFrom_first:
  assumes "\<And>k. k < length pre \<Longrightarrow> \<not> HasPrefix (drop k (pre @ pat @ post)) pat"
  shows "indexFrom i (pre @ pat @ post) pat = Some (i + length pre)"
  using assms
proof (induction pre arbitrary: i)
  case Nil
  then show ?case by (simp add: indexFrom.simps [of i] HasPrefix_self)
next
  case (Cons c pre)
  have "\<not> HasPrefix (c # pre @ pat @ post) pat" using Cons.prems [of 0] by simp
  moreover have "indexFrom (Suc i) (pre @ pat @ post) pat = Some (Suc i + length pre)"
  proof (rule Cons.IH)
    show "\<not> HasPrefix (drop k (pre @ pat @ post)) pat" if "k < length pre" for k
      using Cons.prems [of "Suc k"] that by simp
  qed
  ultimately show ?case by (simp add: indexFrom.simps [of i])
qed

end
