(* ===== verification/Rest_Server.thy ===== *)
theory Rest_Server
  imports Go_Utf8
begin

text \<open>
  The REST server (\<open>src/codebase/app/rest_server\<close>): the chaining of middlewares and the patterns of
  routes (\<open>middleware.go\<close>, \<open>route_wrapper.go\<close>), the CORS middleware, and the tracer middleware, which keeps
  copies of request and response bodies in pooled buffers (\<open>src/wrapper/http_response_writer.go\<close>,
  \<open>SyncPool\<close> of \<open>src/candiutils/worker_pool.go\<close>).  The memory of the buffers is explicit, because the
  body that a handler reads shares it.  What is only logged is left out.
\<close>

section \<open>Routes and chains\<close>

text \<open>A handler is a function; a middleware maps handlers to handlers.\<close>

fun chainFrom :: "nat \<Rightarrow> ('h \<Rightarrow> 'h) list \<Rightarrow> 'h \<Rightarrow> 'h" where
  "chainFrom 0 middlewares wrapped = wrapped"
| "chainFrom (Suc i) middlewares wrapped = chainFrom i middlewares ((middlewares ! i) wrapped)"

definition WithChainingMiddlewares :: "'h \<Rightarrow> ('h \<Rightarrow> 'h) list \<Rightarrow> 'h" where
  "WithChainingMiddlewares handlerFunc middlewares =
     (if middlewares = [] then handlerFunc else chainFrom (length middlewares) middlewares handlerFunc)"

text \<open>The loop of \<open>transformURLParam\<close> over the runes of a pattern of \<open>n\<close> bytes.\<close>

fun transformRunes :: "nat \<Rightarrow> bool \<Rightarrow> (nat \<times> int \<times> string) list \<Rightarrow> string" where
  "transformRunes n found [] = []"
| "transformRunes n found ((i, c, bytes) # rs) =
     (let colon = (c = 58);
          found = (found \<or> colon);
          close1 = (found \<and> \<not> colon \<and> c = 47);
          found' = (found \<and> \<not> close1)
      in (if close1 then ''}'' else []) @ (if colon then ''{'' else writeRune c bytes) @
         (if found' \<and> i = n - 1 then ''}'' else []) @ transformRunes n found' rs)"

definition transformURLParam :: "string \<Rightarrow> string" where
  "transformURLParam pattern =
     (if pattern = [] then ''/''
      else if CHR ''{'' \<in> set pattern then pattern
      else if CHR '':'' \<in> set pattern then transformRunes (length pattern) False (runesFrom 0 pattern)
      else pattern)"

section \<open>CORS\<close>

record corsConfig =
  coAllowMethods :: "string list"
  coAllowHeaders :: "string list"
  coAllowOrigins :: "string list"
  coExposeHeaders :: "string list"
  coAllowCredential :: bool

type_synonym headerMap = "string \<rightharpoonup> string list"

definition headerValueOf :: "headerMap \<Rightarrow> string \<Rightarrow> string" where
  "headerValueOf h k = (case h k of Some (v # _) \<Rightarrow> v | _ \<Rightarrow> [])"

definition headerSet :: "string \<Rightarrow> string \<Rightarrow> headerMap \<Rightarrow> headerMap" where
  "headerSet k v h = h(k \<mapsto> [v])"

definition headerAdd :: "string \<Rightarrow> string \<Rightarrow> headerMap \<Rightarrow> headerMap" where
  "headerAdd k v h = h(k \<mapsto> (case h k of None \<Rightarrow> [v] | Some vs \<Rightarrow> vs @ [v]))"

definition corsDefaults :: "corsConfig \<Rightarrow> corsConfig" where
  "corsDefaults r = r\<lparr>coAllowOrigins := (if coAllowOrigins r = [] then [''*''] else coAllowOrigins r),
     coAllowMethods := (if coAllowMethods r = [] then [''GET'', ''HEAD'', ''PUT'', ''PATCH'', ''POST'', ''DELETE''] else coAllowMethods r)\<rparr>"

fun allowOrigin :: "bool \<Rightarrow> string \<Rightarrow> string list \<Rightarrow> string" where
  "allowOrigin credential origin [] = []"
| "allowOrigin credential origin (o' # os) =
     (if o' = ''*'' \<and> credential then origin
      else if o' = ''*'' \<or> o' = origin then o'
      else allowOrigin credential origin os)"

definition CORS :: "corsConfig \<Rightarrow> (headerMap \<Rightarrow> int \<times> headerMap) \<Rightarrow> string \<Rightarrow> headerMap \<Rightarrow> headerMap \<Rightarrow> int \<times> headerMap" where
  "CORS cfg next httpMethod req res =
     (let r = corsDefaults cfg; exposeHeader = JoinStr '','' (coExposeHeaders r);
          allowed = allowOrigin (coAllowCredential r) (headerValueOf req ''Origin'') (coAllowOrigins r);
          res = (if coAllowCredential r then headerSet ''Access-Control-Allow-Credentials'' ''true'' res else res);
          res = headerAdd ''Vary'' ''Origin'' res
      in if httpMethod \<noteq> ''OPTIONS'' then
           let res = headerSet ''Access-Control-Allow-Origin'' allowed res;
               res = (if exposeHeader \<noteq> [] then headerSet ''Access-Control-Expose-Headers'' exposeHeader res else res)
           in next res
         else
           let res = headerAdd ''Vary'' ''Access-Control-Request-Method'' res;
               res = headerAdd ''Vary'' ''Access-Control-Request-Headers'' res;
               res = headerSet ''Access-Control-Allow-Origin'' allowed res;
               res = headerSet ''Access-Control-Allow-Methods'' (JoinStr '','' (coAllowMethods r)) res;
               h = headerValueOf req ''Access-Control-Request-Headers'';
               res = (if coAllowHeaders r \<noteq> [] then headerSet ''Access-Control-Allow-Headers'' (JoinStr '','' (coAllowHeaders r)) res
                      else if h \<noteq> [] then headerSet ''Access-Control-Allow-Headers'' h res else res)
           in (204, res))"

section \<open>Buffers\<close>

text \<open>\<open>bytes.Buffer\<close> without a read offset: the address of its array and the number of bytes in use.  The
  length of an array is its capacity; \<open>roundUp\<close> is the rounding of the allocator.\<close>

record bufHeap =
  bhArray :: "nat \<Rightarrow> string"
  bhNext :: nat

record goBuffer =
  bfAddr :: nat
  bfLen :: nat

definition allocArray :: "string \<Rightarrow> bufHeap \<Rightarrow> nat \<times> bufHeap" where
  "allocArray a h = (bhNext h, h\<lparr>bhArray := (bhArray h)(bhNext h := a), bhNext := Suc (bhNext h)\<rparr>)"

definition newBuffer :: "bufHeap \<Rightarrow> goBuffer \<times> bufHeap" where
  "newBuffer h = (case allocArray (replicate 256 CHR 0x00) h of (a, h) \<Rightarrow> (\<lparr>bfAddr = a, bfLen = 0\<rparr>, h))"

text \<open>Room for \<open>n\<close> more bytes.\<close>

definition growBuffer :: "(nat \<Rightarrow> nat) \<Rightarrow> nat \<Rightarrow> goBuffer \<Rightarrow> bufHeap \<Rightarrow> goBuffer \<times> bufHeap" where
  "growBuffer roundUp n b h =
     (let a = bhArray h (bfAddr b)
      in if bfLen b + n \<le> length a then (b, h)
         else let c = roundUp (max (bfLen b + n) (2 * length a))
              in case allocArray (take (bfLen b) a @ replicate (c - bfLen b) CHR 0x00) h of (addr, h) \<Rightarrow> (b\<lparr>bfAddr := addr\<rparr>, h))"

definition storeBytes :: "string \<Rightarrow> goBuffer \<Rightarrow> bufHeap \<Rightarrow> goBuffer \<times> bufHeap" where
  "storeBytes d b h =
     (let a = bhArray h (bfAddr b)
      in (b\<lparr>bfLen := bfLen b + length d\<rparr>,
          h\<lparr>bhArray := (bhArray h)(bfAddr b := take (bfLen b) a @ d @ drop (bfLen b + length d) a)\<rparr>))"

definition bufWrite :: "(nat \<Rightarrow> nat) \<Rightarrow> string \<Rightarrow> goBuffer \<Rightarrow> bufHeap \<Rightarrow> goBuffer \<times> bufHeap" where
  "bufWrite roundUp d b h = (case growBuffer roundUp (length d) b h of (b, h) \<Rightarrow> storeBytes d b h)"

text \<open>\<open>ReadFrom\<close>: every read has room for at least 512 bytes; the chunks are what the reads return, and
  the last read returns the end of the stream.\<close>

fun bufReadFrom :: "(nat \<Rightarrow> nat) \<Rightarrow> string list \<Rightarrow> goBuffer \<Rightarrow> bufHeap \<Rightarrow> goBuffer \<times> bufHeap" where
  "bufReadFrom roundUp [] b h = growBuffer roundUp 512 b h"
| "bufReadFrom roundUp (d # ds) b h =
     (case growBuffer roundUp 512 b h of (b, h) \<Rightarrow> (case storeBytes d b h of (b, h) \<Rightarrow> bufReadFrom roundUp ds b h))"

definition bufString :: "bufHeap \<Rightarrow> goBuffer \<Rightarrow> string" where
  "bufString h b = take (bfLen b) (bhArray h (bfAddr b))"

section \<open>The pool\<close>

record tracerMemory =
  tmHeap :: bufHeap
  tmPool :: "goBuffer list"

text \<open>\<open>Get\<close> takes some pooled buffer or a new one; \<open>Put\<close> resets the buffer first.\<close>

definition syncPoolGet :: "nat option \<Rightarrow> tracerMemory \<Rightarrow> goBuffer \<times> tracerMemory" where
  "syncPoolGet choice m =
     (case choice of
        Some i \<Rightarrow> if i < length (tmPool m) then (tmPool m ! i, m\<lparr>tmPool := take i (tmPool m) @ drop (Suc i) (tmPool m)\<rparr>)
                  else (case newBuffer (tmHeap m) of (b, h) \<Rightarrow> (b, m\<lparr>tmHeap := h\<rparr>))
      | None \<Rightarrow> (case newBuffer (tmHeap m) of (b, h) \<Rightarrow> (b, m\<lparr>tmHeap := h\<rparr>)))"

definition syncPoolPut :: "goBuffer \<Rightarrow> tracerMemory \<Rightarrow> tracerMemory" where
  "syncPoolPut b m = m\<lparr>tmPool := b\<lparr>bfLen := 0\<rparr> # tmPool m\<rparr>"

section \<open>The tracer\<close>

text \<open>The body of a request is the stream of the client or a slice of a buffer.\<close>

datatype requestBody = Stream "string list" | Slice nat nat

definition readBody :: "bufHeap \<Rightarrow> requestBody \<Rightarrow> string" where
  "readBody h b = (case b of Stream ds \<Rightarrow> concat ds | Slice a n \<Rightarrow> take n (bhArray h a))"

definition captureBody :: "(nat \<Rightarrow> nat) \<Rightarrow> nat option \<Rightarrow> string list \<Rightarrow> tracerMemory \<Rightarrow> requestBody \<times> tracerMemory" where
  "captureBody roundUp choice ds m =
     (case syncPoolGet choice m of
        (b, m) \<Rightarrow> (case bufReadFrom roundUp ds b (tmHeap m) of
          (b, h) \<Rightarrow> (Slice (bfAddr b) (bfLen b), syncPoolPut b (m\<lparr>tmHeap := h\<rparr>))))"

record tracerConfig =
  tcExclude :: "string list"
  tcDisableTrace :: bool
  tcMaxLogSize :: int

definition ParseBool :: "string \<Rightarrow> bool" where
  "ParseBool s \<longleftrightarrow> s \<in> set [''1'', ''t'', ''T'', ''TRUE'', ''true'', ''True'']"

text \<open>The body that the next handler is given.\<close>

definition tracedBody :: "(nat \<Rightarrow> nat) \<Rightarrow> tracerConfig \<Rightarrow> nat option \<Rightarrow> string \<Rightarrow> string \<Rightarrow> string \<Rightarrow> string list \<Rightarrow> tracerMemory \<Rightarrow>
    requestBody \<times> tracerMemory" where
  "tracedBody roundUp cfg choice path disableHeader contentLength ds m =
     (if path \<in> set (tcExclude cfg) \<or> ParseBool disableHeader \<or> tcDisableTrace cfg then (Stream ds, m)
      else case Atoi contentLength of
        (n, ok) \<Rightarrow> if ok \<and> n < tcMaxLogSize cfg then captureBody roundUp choice ds m else (Stream ds, m))"

text \<open>The writer of the response: what the client got, and the copy.\<close>

record responseWriter =
  rwStatusCode :: int
  rwBuff :: goBuffer
  rwMaxWriteSize :: int
  rwLimitWriteSize :: bool
  rwContentLength :: int
  rwSent :: string

definition NewWrapHTTPResponseWriter :: "goBuffer \<Rightarrow> responseWriter" where
  "NewWrapHTTPResponseWriter b = \<lparr>rwStatusCode = 200, rwBuff = b, rwMaxWriteSize = 0, rwLimitWriteSize = False, rwContentLength = 0, rwSent = []\<rparr>"

definition SetMaxWriteSize :: "int \<Rightarrow> responseWriter \<Rightarrow> responseWriter" where
  "SetMaxWriteSize n w = w\<lparr>rwMaxWriteSize := n, rwLimitWriteSize := True\<rparr>"

definition WriteHeader :: "int \<Rightarrow> responseWriter \<Rightarrow> responseWriter" where
  "WriteHeader statusCode w = w\<lparr>rwStatusCode := statusCode\<rparr>"

text \<open>\<open>n\<close> is the number of bytes that the client takes of the data.\<close>

definition responseWrite :: "(nat \<Rightarrow> nat) \<Rightarrow> nat \<Rightarrow> string \<Rightarrow> responseWriter \<times> bufHeap \<Rightarrow> responseWriter \<times> bufHeap" where
  "responseWrite roundUp n d wh =
     (case wh of (w, h) \<Rightarrow>
        let w = w\<lparr>rwSent := rwSent w @ take n d, rwContentLength := rwContentLength w + int (min n (length d))\<rparr>
        in if \<not> rwLimitWriteSize w \<or> rwContentLength w < rwMaxWriteSize w
           then (case bufWrite roundUp d (rwBuff w) h of (b, h) \<Rightarrow> (w\<lparr>rwBuff := b\<rparr>, h))
           else (w, h))"

section \<open>Chains and patterns\<close>

lemma chainFrom_foldr: "i \<le> length ms \<Longrightarrow> chainFrom i ms h = foldr (\<lambda>m x. m x) (take i ms) h"
  by (induction i arbitrary: h) (simp_all add: take_Suc_conv_app_nth)

text \<open>The first middleware is the outermost.\<close>

lemma WithChainingMiddlewares_foldr: "WithChainingMiddlewares h ms = foldr (\<lambda>m x. m x) ms h"
  by (simp add: WithChainingMiddlewares_def chainFrom_foldr)

text \<open>A route as a list of segments: fixed texts and parameters.\<close>

datatype routeSegment = Fixed string | Param string

fun colonForm :: "routeSegment \<Rightarrow> string" where
  "colonForm (Fixed t) = t"
| "colonForm (Param t) = CHR '':'' # t"

fun braceForm :: "routeSegment \<Rightarrow> string" where
  "braceForm (Fixed t) = t"
| "braceForm (Param t) = CHR ''{'' # t @ ''}''"

definition plainText :: "string \<Rightarrow> bool" where
  "plainText t \<longleftrightarrow> (\<forall>c\<in>set t. ascii c \<and> c \<noteq> CHR ''/'' \<and> c \<noteq> CHR '':'' \<and> c \<noteq> CHR ''{'')"

fun segmentText :: "routeSegment \<Rightarrow> string" where
  "segmentText (Fixed t) = t"
| "segmentText (Param t) = t"

lemma set_JoinStr: "set (JoinStr sep ws) \<subseteq> set sep \<union> (\<Union>w\<in>set ws. set w)"
  by (induction sep ws rule: JoinStr.induct) auto

lemma word_JoinStr: "w \<in> set ws \<Longrightarrow> set w \<subseteq> set (JoinStr sep ws)"
  by (induction sep ws rule: JoinStr.induct) auto

lemma ascii_rune [simp]: "ascii c \<Longrightarrow> writeRune (of_char c) [c] = [c]"
  by (simp add: writeRune_def ascii_def RuneError_def)

lemma rune_special [simp]: "(of_char c :: int) = 58 \<longleftrightarrow> c = CHR '':''" "(of_char c :: int) = 47 \<longleftrightarrow> c = CHR ''/''"
  using of_char_eq_iff [of c "CHR '':''", where 'a = int] of_char_eq_iff [of c "CHR ''/''", where 'a = int] by simp_all

lemma transformRunes_fixed:
  "plainText t \<Longrightarrow> transformRunes n False (runesFrom i (t @ r)) = t @ transformRunes n False (runesFrom (i + length t) r)"
  by (induction t arbitrary: i) (auto simp: plainText_def runesFrom_ascii Let_def)

lemma transformRunes_slash: "transformRunes n False (runesFrom i (CHR ''/'' # r)) = CHR ''/'' # transformRunes n False (runesFrom (Suc i) r)"
  by (simp add: runesFrom_ascii ascii_def Let_def writeRune_def RuneError_def)

lemma transformRunes_name:
  "plainText t \<Longrightarrow> i + length t < n \<Longrightarrow>
   transformRunes n True (runesFrom i (t @ CHR ''/'' # r)) = t @ ''}/'' @ transformRunes n False (runesFrom (Suc (i + length t)) r)"
proof (induction t arbitrary: i)
  case (Cons c t)
  then show ?case by (auto simp: plainText_def runesFrom_ascii Let_def)
qed (simp add: runesFrom_ascii ascii_def Let_def writeRune_def RuneError_def)

lemma transformRunes_last: "plainText t \<Longrightarrow> t \<noteq> [] \<Longrightarrow> i + length t = n \<Longrightarrow> transformRunes n True (runesFrom i t) = t @ ''}''"
proof (induction t arbitrary: i)
  case (Cons c t)
  then show ?case by (cases t) (auto simp: plainText_def runesFrom_ascii Let_def)
qed simp

lemma transformRunes_colon:
  "transformRunes n False (runesFrom i (CHR '':'' # r)) = (if i = n - 1 then ''{}'' else ''{'') @ transformRunes n True (runesFrom (Suc i) r)"
  by (simp add: runesFrom_ascii ascii_def Let_def)

lemma transformRunes_route:
  "\<forall>s\<in>set segs. plainText (segmentText s) \<Longrightarrow> i + length (JoinStr ''/'' (map colonForm segs)) = n \<Longrightarrow>
   transformRunes n False (runesFrom i (JoinStr ''/'' (map colonForm segs))) = JoinStr ''/'' (map braceForm segs)"
proof (induction segs arbitrary: i)
  case (Cons s segs)
  have p: "plainText (segmentText s)" using Cons.prems(1) by simp
  show ?case
  proof (cases segs)
    case Nil
    show ?thesis
    proof (cases s)
      case (Fixed t)
      then show ?thesis using p Nil transformRunes_fixed [of t n i "[]"] by simp
    next
      case (Param t)
      have "t \<noteq> [] \<Longrightarrow> i \<noteq> n - 1" using Cons.prems(2) Nil Param by (cases t) auto
      with Param show ?thesis
        using p Nil Cons.prems(2) transformRunes_last [of t "Suc i" n] by (cases "t = []") (auto simp: transformRunes_colon)
    qed
  next
    case (Cons s2 segs2)
    let ?r = "JoinStr ''/'' (map colonForm segs)"
    have j: "JoinStr ''/'' (map colonForm (s # segs)) = colonForm s @ CHR ''/'' # ?r"
      "JoinStr ''/'' (map braceForm (s # segs)) = braceForm s @ CHR ''/'' # JoinStr ''/'' (map braceForm segs)"
      by (simp_all add: Cons)
    have IH: "transformRunes n False (runesFrom (Suc (i + length (colonForm s))) ?r) = JoinStr ''/'' (map braceForm segs)"
      by (rule Cons.IH) (use Cons.prems j(1) in auto)
    show ?thesis
    proof (cases s)
      case (Fixed t)
      then show ?thesis unfolding j using p IH by (simp add: transformRunes_fixed transformRunes_slash)
    next
      case (Param t)
      have "Suc i + length t < n" "i \<noteq> n - 1" using Cons.prems(2) j(1) Param by auto
      then show ?thesis unfolding j using p IH Param by (simp add: transformRunes_colon transformRunes_name)
    qed
  qed
qed simp

text \<open>A route written with \<open>:name\<close> segments is registered with \<open>{name}\<close> segments at the same places, all
  fixed segments unchanged; the empty route is registered as \<open>/\<close>.\<close>

theorem route_params_translated:
  assumes "\<forall>s\<in>set segs. plainText (segmentText s)"
  shows "transformURLParam (JoinStr ''/'' (map colonForm segs)) =
    (if JoinStr ''/'' (map colonForm segs) = [] then ''/'' else JoinStr ''/'' (map braceForm segs))"
proof (cases "CHR '':'' \<in> set (JoinStr ''/'' (map colonForm segs))")
  case True
  have "CHR ''{'' \<notin> set (colonForm s)" if "s \<in> set segs" for s
  proof -
    have "plainText (segmentText s)" using assms that by blast
    then have "CHR ''{'' \<notin> set (segmentText s)" unfolding plainText_def by blast
    then show ?thesis by (cases s) simp_all
  qed
  then have "CHR ''{'' \<notin> set (JoinStr ''/'' (map colonForm segs))"
    using set_JoinStr [of "''/''" "map colonForm segs"] by fastforce
  with True show ?thesis using transformRunes_route [OF assms, of 0] by (auto simp: transformURLParam_def)
next
  case False
  have "colonForm s = braceForm s" if "s \<in> set segs" for s
  proof -
    have "colonForm s \<in> set (map colonForm segs)" using that by simp
    from word_JoinStr [OF this, of "''/''"] False show ?thesis by (cases s) auto
  qed
  then have eq: "map colonForm segs = map braceForm segs" by simp
  show ?thesis using False unfolding eq transformURLParam_def by presburger
qed

theorem route_params_translated_witness: "transformURLParam ''/user/:id/jobs'' = ''/user/{id}/jobs''"
  using route_params_translated [of "[Fixed [], Fixed ''user'', Param ''id'', Fixed ''jobs'']"]
  by (simp add: plainText_def ascii_def)

section \<open>Allowed origins\<close>

lemma allowOrigin_sound:
  "allowOrigin cr origin os = v \<Longrightarrow>
   v = [] \<or> v = ''*'' \<and> ''*'' \<in> set os \<and> \<not> cr \<or> v = origin \<and> (origin \<in> set os \<or> ''*'' \<in> set os \<and> cr)"
  by (induction os) (auto split: if_splits)

text \<open>The origin that the CORS middleware allows is the wildcard of the configuration without
  credentials, or the origin of the request when the configuration lists it or, with credentials,
  has the wildcard, and otherwise empty; a preflight request is answered with 204 without
  reaching the handler.\<close>

theorem cors_origin_allowed:
  fixes cfg req res httpMethod
  defines "os \<equiv> coAllowOrigins (corsDefaults cfg)"
    and "v \<equiv> headerValueOf (snd (CORS cfg (\<lambda>h. (200, h)) httpMethod req res)) ''Access-Control-Allow-Origin''"
  shows "(v = [] \<or> v = ''*'' \<and> ''*'' \<in> set os \<and> \<not> coAllowCredential cfg \<or>
      v = headerValueOf req ''Origin'' \<and> (headerValueOf req ''Origin'' \<in> set os \<or> ''*'' \<in> set os \<and> coAllowCredential cfg)) \<and>
    (httpMethod = ''OPTIONS'' \<longrightarrow> fst (CORS cfg next httpMethod req res) = 204 \<and> CORS cfg next httpMethod req res = CORS cfg next' httpMethod req res)"
proof (intro conjI impI)
  have "v = allowOrigin (coAllowCredential cfg) (headerValueOf req ''Origin'') os"
    by (simp add: v_def os_def CORS_def Let_def corsDefaults_def headerSet_def headerAdd_def headerValueOf_def split: option.split list.split)
  then show "v = [] \<or> v = ''*'' \<and> ''*'' \<in> set os \<and> \<not> coAllowCredential cfg \<or>
      v = headerValueOf req ''Origin'' \<and> (headerValueOf req ''Origin'' \<in> set os \<or> ''*'' \<in> set os \<and> coAllowCredential cfg)"
    using allowOrigin_sound by metis
qed (simp_all add: CORS_def Let_def)

section \<open>Bodies\<close>

lemma allocArray_simps [simp]:
  "fst (allocArray a h) = bhNext h" "bhArray (snd (allocArray a h)) = (bhArray h)(bhNext h := a)" "bhNext (snd (allocArray a h)) = Suc (bhNext h)"
  by (simp_all add: allocArray_def)

text \<open>A buffer in memory: its array is allocated and holds its bytes.\<close>

definition bufOk :: "bufHeap \<Rightarrow> goBuffer \<Rightarrow> bool" where
  "bufOk h b \<longleftrightarrow> bfAddr b < bhNext h \<and> bfLen b \<le> length (bhArray h (bfAddr b))"

text \<open>Arrays that exist already, other than \<open>a\<close>, are untouched.\<close>

definition keepsArrays :: "nat \<Rightarrow> bufHeap \<Rightarrow> bufHeap \<Rightarrow> bool" where
  "keepsArrays a h h' \<longleftrightarrow> bhNext h \<le> bhNext h' \<and> (\<forall>x < bhNext h. x \<noteq> a \<longrightarrow> bhArray h' x = bhArray h x)"

lemma growBuffer_spec:
  assumes "bufOk h b" "\<And>c. c \<le> roundUp c" "growBuffer roundUp n b h = (b', h')"
  shows "bufOk h' b' \<and> bufString h' b' = bufString h b \<and> bfLen b' = bfLen b \<and> bfLen b + n \<le> length (bhArray h' (bfAddr b')) \<and>
    (\<forall>x < bhNext h. bhArray h' x = bhArray h x) \<and> bhNext h \<le> bhNext h' \<and> (bfAddr b' = bfAddr b \<or> bhNext h \<le> bfAddr b')"
proof -
  let ?c = "max (bfLen b + n) (2 * length (bhArray h (bfAddr b)))"
  have "?c \<le> roundUp ?c" by (rule assms(2))
  then have "bfLen b + n \<le> roundUp ?c" by simp
  then show ?thesis
    using assms(1,3) by (auto simp: growBuffer_def Let_def bufOk_def bufString_def allocArray_def min_def split: if_splits)
qed

lemma storeBytes_spec:
  assumes "bufOk h b" "bfLen b + length d \<le> length (bhArray h (bfAddr b))" "storeBytes d b h = (b', h')"
  shows "bufOk h' b' \<and> bufString h' b' = bufString h b @ d \<and> bfLen b' = bfLen b + length d \<and> bfAddr b' = bfAddr b \<and>
    keepsArrays (bfAddr b) h h' \<and> bhNext h' = bhNext h \<and> length (bhArray h' (bfAddr b)) = length (bhArray h (bfAddr b))"
  using assms by (auto simp: storeBytes_def Let_def bufOk_def bufString_def keepsArrays_def)

lemma keepsArrays_trans:
  "keepsArrays a h h1 \<Longrightarrow> keepsArrays b h1 h2 \<Longrightarrow> b = a \<or> bhNext h \<le> b \<Longrightarrow> keepsArrays a h h2"
  by (force simp: keepsArrays_def)

lemma bufReadFrom_spec:
  assumes "bufOk h b" "\<And>c. c \<le> roundUp c" "\<forall>d\<in>set ds. length d \<le> 512" "bufReadFrom roundUp ds b h = (b', h')"
  shows "bufOk h' b' \<and> bufString h' b' = bufString h b @ concat ds \<and> bfLen b' = bfLen b + length (concat ds) \<and>
    keepsArrays (bfAddr b) h h' \<and> bfLen b' + 512 \<le> length (bhArray h' (bfAddr b')) \<and> (bfAddr b' = bfAddr b \<or> bhNext h \<le> bfAddr b')"
  using assms(1,3,4)
proof (induction ds arbitrary: b h)
  case Nil
  then show ?case using growBuffer_spec [OF Nil.prems(1) assms(2), of 512 b' h'] by (auto simp: keepsArrays_def)
next
  case (Cons d ds)
  obtain b1 h1 where g: "growBuffer roundUp 512 b h = (b1, h1)" by force
  note g' = growBuffer_spec [OF Cons.prems(1) assms(2) g]
  obtain b2 h2 where st: "storeBytes d b1 h1 = (b2, h2)" by force
  have "length d \<le> 512" using Cons.prems(2) by simp
  with g' have fits: "bfLen b1 + length d \<le> length (bhArray h1 (bfAddr b1))" by linarith
  note s' = storeBytes_spec [OF _ fits st]
  have r: "bufReadFrom roundUp ds b2 h2 = (b', h')" using Cons.prems(3) g st by simp
  have s'': "bufOk h2 b2" "bufString h2 b2 = bufString h1 b1 @ d" "bfLen b2 = bfLen b1 + length d" "bfAddr b2 = bfAddr b1"
    "keepsArrays (bfAddr b1) h1 h2" "bhNext h2 = bhNext h1" using s' g' by auto
  note IH = Cons.IH [OF s''(1) _ r]
  have IH': "bufOk h' b'" "bufString h' b' = bufString h2 b2 @ concat ds" "bfLen b' = bfLen b2 + length (concat ds)"
    "keepsArrays (bfAddr b2) h2 h'" "bfLen b' + 512 \<le> length (bhArray h' (bfAddr b'))" "bfAddr b' = bfAddr b2 \<or> bhNext h2 \<le> bfAddr b'"
    using IH Cons.prems(2) by auto
  have "keepsArrays (bfAddr b) h h1" using g' by (auto simp: keepsArrays_def)
  from keepsArrays_trans [OF keepsArrays_trans [OF this s''(5)], of "bfAddr b2" h'] IH'(4)
  have "keepsArrays (bfAddr b) h h'" using g' s''(4) by auto
  then show ?case using IH' s'' g' by auto
qed

text \<open>The buffers of a pool are empty, and no two share their memory.\<close>

definition poolOk :: "tracerMemory \<Rightarrow> bool" where
  "poolOk m \<longleftrightarrow> distinct (map bfAddr (tmPool m)) \<and> (\<forall>b\<in>set (tmPool m). bufOk (tmHeap m) b \<and> bfLen b = 0)"

lemma syncPoolGet_spec:
  assumes "poolOk m" "syncPoolGet choice m = (b, m')"
  shows "bufOk (tmHeap m') b \<and> bfLen b = 0 \<and> (\<forall>x < bhNext (tmHeap m). bhArray (tmHeap m') x = bhArray (tmHeap m) x) \<and>
    bhNext (tmHeap m) \<le> bhNext (tmHeap m') \<and> (bfAddr b \<in> bfAddr ` set (tmPool m) \<or> bhNext (tmHeap m) \<le> bfAddr b)"
proof -
  have new: "newBuffer h = (b, h') \<Longrightarrow> bufOk h' b \<and> bfLen b = 0 \<and> (\<forall>x < bhNext h. bhArray h' x = bhArray h x) \<and>
      bhNext h \<le> bhNext h' \<and> bhNext h \<le> bfAddr b" for h h'
    by (auto simp: newBuffer_def allocArray_def bufOk_def)
  have old: "bufOk (tmHeap m) b \<and> bfLen b = 0 \<and> bfAddr b \<in> bfAddr ` set (tmPool m)" if "b \<in> set (tmPool m)"
    using assms(1) that by (auto simp: poolOk_def)
  show ?thesis
    using assms(2) new old by (auto simp: syncPoolGet_def split: option.splits if_splits prod.splits)
qed

text \<open>The body right after it was captured, and the buffer it shares its memory with.\<close>

lemma captureBody_spec:
  assumes "poolOk m" "\<And>c. c \<le> roundUp c" "\<forall>d\<in>set ds. length d \<le> 512" "captureBody roundUp choice ds m = (body, m')"
  shows "\<exists>a. body = Slice a (length (concat ds)) \<and> readBody (tmHeap m') body = concat ds \<and> a < bhNext (tmHeap m') \<and>
    length (concat ds) + 512 \<le> length (bhArray (tmHeap m') a) \<and> tmPool m' \<noteq> [] \<and> hd (tmPool m') = \<lparr>bfAddr = a, bfLen = 0\<rparr>"
proof -
  obtain b m1 where g: "syncPoolGet choice m = (b, m1)" by force
  obtain b' h' where r: "bufReadFrom roundUp ds b (tmHeap m1) = (b', h')" by force
  note gs = syncPoolGet_spec [OF assms(1) g]
  note rs = bufReadFrom_spec [OF _ assms(2,3) r]
  have 1: "bufOk h' b'" "bufString h' b' = concat ds" "bfLen b' = length (concat ds)" "bfLen b' + 512 \<le> length (bhArray h' (bfAddr b'))"
    using rs gs by (auto simp: bufString_def)
  have c: "body = Slice (bfAddr b') (bfLen b')" "m' = syncPoolPut b' (m1\<lparr>tmHeap := h'\<rparr>)"
    using assms(4) g r by (simp_all add: captureBody_def)
  show ?thesis using 1 by (simp add: c readBody_def bufString_def syncPoolPut_def bufOk_def)
qed

text \<open>C39: a body that the tracer has captured reads as the client sent it.  The buffer behind it is
  back in the pool at once: when the next request takes it, before the first handler has read its
  body, the handler reads the bytes of the other request instead.\<close>

theorem traced_body_shared:
  assumes "poolOk m" "\<And>c. c \<le> roundUp c" "\<forall>d\<in>set ds. length d \<le> 512" "length (concat ds) \<le> length other" "length other \<le> 512"
    and "captureBody roundUp choice ds m = (body, mem)" "captureBody roundUp (Some 0) [other] mem = (body_b, mem_b)"
  shows "readBody (tmHeap mem) body = concat ds \<and> readBody (tmHeap mem_b) body = take (length (concat ds)) other"
proof -
  obtain a where a: "body = Slice a (length (concat ds))" "readBody (tmHeap mem) body = concat ds" "a < bhNext (tmHeap mem)"
    "length (concat ds) + 512 \<le> length (bhArray (tmHeap mem) a)" "tmPool mem \<noteq> []" "hd (tmPool mem) = \<lparr>bfAddr = a, bfLen = 0\<rparr>"
    using captureBody_spec [OF assms(1-3,6)] by blast
  define b where "b = \<lparr>bfAddr = a, bfLen = 0\<rparr>"
  have g: "syncPoolGet (Some 0) mem = (b, mem\<lparr>tmPool := tl (tmPool mem)\<rparr>)"
    using a(5,6) by (cases "tmPool mem") (simp_all add: syncPoolGet_def b_def)
  have grow: "growBuffer roundUp 512 b (tmHeap mem) = (b, tmHeap mem)" using a(4) by (simp add: growBuffer_def Let_def b_def)
  obtain b1 h1 where st: "storeBytes other b (tmHeap mem) = (b1, h1)" by force
  have ok: "bufOk (tmHeap mem) b" using a(3) by (simp add: bufOk_def b_def)
  have fits: "bfLen b + length other \<le> length (bhArray (tmHeap mem) (bfAddr b))" using a(4) assms(5) by (simp add: b_def)
  note s = storeBytes_spec [OF ok fits st]
  obtain b2 h2 where gr2: "growBuffer roundUp 512 b1 h1 = (b2, h2)" by force
  note g2 = growBuffer_spec [OF _ assms(2) gr2]
  have "bufReadFrom roundUp [other] b (tmHeap mem) = (b2, h2)" by (simp add: grow st gr2)
  then have "mem_b = syncPoolPut b2 (mem\<lparr>tmPool := tl (tmPool mem), tmHeap := h2\<rparr>)" using assms(7) by (auto simp: captureBody_def g)
  then have mem_b: "tmHeap mem_b = h2" by (simp add: syncPoolPut_def)
  have "bhArray h2 a = bhArray h1 a" using g2 s a(3) by (simp add: b_def)
  moreover have "take (length other) (bhArray h1 a) = other" using s by (auto simp: bufString_def b_def)
  ultimately have "take (length (concat ds)) (bhArray h2 a) = take (length (concat ds)) other"
    using assms(4) by (metis min_def take_take)
  then show ?thesis using a(1,2) by (simp add: readBody_def mem_b)
qed

definition exMemory :: tracerMemory where
  "exMemory = \<lparr>tmHeap = \<lparr>bhArray = (\<lambda>_. []), bhNext = 0\<rparr>, tmPool = []\<rparr>"

theorem traced_body_shared_witness:
  "readBody (tmHeap (snd (captureBody id None [''amount=10''] exMemory))) (fst (captureBody id None [''amount=10''] exMemory)) = ''amount=10'' \<and>
   readBody (tmHeap (snd (captureBody id (Some 0) [''amount=9999''] (snd (captureBody id None [''amount=10''] exMemory)))))
     (fst (captureBody id None [''amount=10''] exMemory)) = ''amount=99''"
  using traced_body_shared [where m = exMemory and roundUp = id and ds = "[''amount=10'']" and other = "''amount=9999''" and choice = None
      and body = "fst (captureBody id None [''amount=10''] exMemory)" and mem = "snd (captureBody id None [''amount=10''] exMemory)"
      and body_b = "fst (captureBody id (Some 0) [''amount=9999''] (snd (captureBody id None [''amount=10''] exMemory)))"
      and mem_b = "snd (captureBody id (Some 0) [''amount=9999''] (snd (captureBody id None [''amount=10''] exMemory)))"]
  by (simp add: poolOk_def exMemory_def)

section \<open>The copy of a response\<close>

text \<open>Writing a response that the client takes whole.\<close>

definition writeAll :: "(nat \<Rightarrow> nat) \<Rightarrow> string list \<Rightarrow> responseWriter \<times> bufHeap \<Rightarrow> responseWriter \<times> bufHeap" where
  "writeAll roundUp ds wh = foldl (\<lambda>wh d. responseWrite roundUp (length d) d wh) wh ds"

lemma bufWrite_spec:
  assumes "bufOk h b" "\<And>c. c \<le> roundUp c" "bufWrite roundUp d b h = (b', h')"
  shows "bufOk h' b' \<and> bufString h' b' = bufString h b @ d"
proof -
  obtain b1 h1 where g: "growBuffer roundUp (length d) b h = (b1, h1)" by force
  note g' = growBuffer_spec [OF assms(1,2) g]
  have "storeBytes d b1 h1 = (b', h')" using assms(3) g by (simp add: bufWrite_def)
  from storeBytes_spec [OF _ _ this] g' show ?thesis by auto
qed

text \<open>The client gets the whole response, and as long as it is shorter than the limit the copy that
  the tracer logs is the response.\<close>

theorem response_copied:
  assumes "bufOk h b" "\<And>c. c \<le> roundUp c" "bfLen b = 0"
    and "writeAll roundUp ds (SetMaxWriteSize limit (NewWrapHTTPResponseWriter b), h) = (w, h')"
  shows "rwSent w = concat ds \<and> rwContentLength w = int (length (concat ds)) \<and>
    (rwContentLength w < limit \<longrightarrow> bufString h' (rwBuff w) = concat ds)"
proof -
  define P where "P = (\<lambda>(wh :: responseWriter \<times> bufHeap) t. case wh of (w, h) \<Rightarrow> bufOk h (rwBuff w) \<and> rwSent w = t \<and> rwContentLength w = int (length t) \<and>
    rwLimitWriteSize w \<and> rwMaxWriteSize w = limit \<and> (int (length t) < limit \<longrightarrow> bufString h (rwBuff w) = t))"
  have step: "P (responseWrite roundUp (length d) d wh) (t @ d)" if "P wh t" for wh t d
  proof -
    obtain w h where wh: "wh = (w, h)" by force
    obtain b' h' where bw: "bufWrite roundUp d (rwBuff w) h = (b', h')" by force
    have "bufOk h' b' \<and> bufString h' b' = bufString h (rwBuff w) @ d"
      using bufWrite_spec [OF _ assms(2) bw] that by (simp add: P_def wh)
    with that bw show ?thesis by (auto simp: P_def wh responseWrite_def Let_def)
  qed
  have "P (writeAll roundUp ds wh) (t @ concat ds)" if "P wh t" for wh t
    using that
  proof (induction ds arbitrary: wh t)
    case (Cons d ds)
    from Cons.IH [OF step [OF Cons.prems]] show ?case by (simp add: writeAll_def)
  qed (simp add: writeAll_def)
  moreover have "P (SetMaxWriteSize limit (NewWrapHTTPResponseWriter b), h) []"
    using assms(1,3) by (simp add: P_def SetMaxWriteSize_def NewWrapHTTPResponseWriter_def bufString_def)
  ultimately have "P (w, h') (concat ds)" using assms(4) by (metis append_Nil)
  then show ?thesis by (simp add: P_def)
qed

theorem response_copied_witness:
  "rwSent (fst (writeAll id [''ab'', ''c''] (SetMaxWriteSize 100 (NewWrapHTTPResponseWriter (fst (newBuffer (tmHeap exMemory)))), snd (newBuffer (tmHeap exMemory))))) = ''abc''"
  using response_copied [where b = "fst (newBuffer (tmHeap exMemory))" and h = "snd (newBuffer (tmHeap exMemory))" and roundUp = id and ds = "[''ab'', ''c'']" and limit = 100
      and w = "fst (writeAll id [''ab'', ''c''] (SetMaxWriteSize 100 (NewWrapHTTPResponseWriter (fst (newBuffer (tmHeap exMemory)))), snd (newBuffer (tmHeap exMemory))))"
      and h' = "snd (writeAll id [''ab'', ''c''] (SetMaxWriteSize 100 (NewWrapHTTPResponseWriter (fst (newBuffer (tmHeap exMemory)))), snd (newBuffer (tmHeap exMemory))))"]
  by (simp add: bufOk_def newBuffer_def allocArray_def)

end
