(* ===== verification/Logger_Masker.thy ===== *)
theory Logger_Masker
  imports Go_Utf8
begin

text \<open>
  The masker of the logger (\<open>src/logger/masker.go\<close>), which replaces the value of a keyword in a text
  by \<open>"xxxxx"\<close>.  \<open>json.Valid\<close> is the argument \<open>valid\<close>.
\<close>

section \<open>Patterns\<close>

text \<open>The start rune is \<open>0\<close> when a value follows the pattern at once.\<close>

record patternType =
  ptPattern :: string
  ptStart :: int
  ptEnds :: "int list"

definition ContainsInEnds :: "patternType \<Rightarrow> int \<Rightarrow> bool" where
  "ContainsInEnds p c \<longleftrightarrow> c \<in> set (ptEnds p)"

definition GeneratePatternType :: "string \<Rightarrow> patternType list" where
  "GeneratePatternType keyword =
     [\<lparr>ptPattern = CHR 0x22 # keyword @ [CHR 0x22], ptStart = 58, ptEnds = [44, 125]\<rparr>,
      \<lparr>ptPattern = ''<'' @ keyword @ ''>'', ptStart = 0, ptEnds = [60]\<rparr>,
      \<lparr>ptPattern = keyword, ptStart = 58, ptEnds = [32, 44]\<rparr>,
      \<lparr>ptPattern = keyword, ptStart = 61, ptEnds = [38]\<rparr>]"

definition NewMasker :: "string list \<Rightarrow> string list" where
  "NewMasker keywords = (if keywords = [] then [''password''] else keywords)"

section \<open>Masking\<close>

record scanState =
  ssStart :: bool
  ssValueStart :: bool
  ssMask :: bool
  ssMaskStart :: nat
  ssMaskEnd :: nat

text \<open>One turn of the loop over the runes after the pattern; the second result says that the loop is
  left.  \<open>n\<close> is the length of the text.\<close>

definition scanRune :: "bool \<Rightarrow> patternType \<Rightarrow> nat \<Rightarrow> nat \<Rightarrow> int \<Rightarrow> scanState \<Rightarrow> scanState \<times> bool" where
  "scanRune isJSON pat n i c st =
     (let isSpace = IsSpace c;
          st = (if ssStart st \<and> \<not> isSpace then st\<lparr>ssValueStart := True\<rparr> else st);
          st = (if c = ptStart pat then st\<lparr>ssStart := True\<rparr> else st)
      in if ssStart st then
           (if ssValueStart st then
              let st = st\<lparr>ssMask := True, ssMaskStart := (if ssMaskStart st = 0 then i else ssMaskStart st)\<rparr>
              in if \<not> isJSON \<and> isSpace \<or> ContainsInEnds pat c \<or> i = n - 1
                 then (st\<lparr>ssValueStart := False, ssMaskEnd := i\<rparr>, True) else (st, False)
            else (st, False))
         else (st, \<not> isSpace))"

fun scanRunes :: "bool \<Rightarrow> patternType \<Rightarrow> nat \<Rightarrow> (nat \<times> int \<times> string) list \<Rightarrow> scanState \<Rightarrow> scanState" where
  "scanRunes isJSON pat n [] st = st"
| "scanRunes isJSON pat n ((i, c, _) # rs) st =
     (case scanRune isJSON pat n i c st of (st, left) \<Rightarrow> if left then st else scanRunes isJSON pat n rs st)"

text \<open>What a pattern does to a text, \<open>None\<close> when it masks nothing.\<close>

definition maskPattern :: "bool \<Rightarrow> patternType \<Rightarrow> string \<Rightarrow> string option" where
  "maskPattern isJSON pat txt =
     (case Index txt (ptPattern pat) of
        None \<Rightarrow> None
      | Some idx \<Rightarrow>
          let start = idx + length (ptPattern pat); n = length txt;
              st = scanRunes isJSON pat n (runesFrom start (drop start txt))
                     \<lparr>ssStart = (ptStart pat = 0), ssValueStart = False, ssMask = False, ssMaskStart = 0, ssMaskEnd = 0\<rparr>;
              ms = ssMaskStart st; me = ssMaskEnd st
          in if ssMask st \<and> ms > 0 \<and> me > ms \<and> ms < n \<and> me < n then
               let me = (if me = n - 1 \<and> \<not> ContainsInEnds pat (of_char (txt ! me)) then n else me)
               in Some (take ms txt @ CHR 0x22 # ''xxxxx'' @ CHR 0x22 # drop me txt)
             else None)"

fun maskPatterns :: "bool \<Rightarrow> patternType list \<Rightarrow> string \<Rightarrow> string" where
  "maskPatterns isJSON [] txt = txt"
| "maskPatterns isJSON (p # ps) txt =
     (case maskPattern isJSON p txt of Some t \<Rightarrow> t | None \<Rightarrow> maskPatterns isJSON ps txt)"

definition Mask :: "(string \<Rightarrow> bool) \<Rightarrow> string list \<Rightarrow> string \<Rightarrow> string" where
  "Mask valid keywords txt =
     foldl (\<lambda>t keyword. maskPatterns (valid txt) (GeneratePatternType keyword) t) txt keywords"

section \<open>Values in JSON\<close>

text \<open>A value is passed over up to its end.\<close>

lemma scanRunes_value:
  assumes "\<forall>c\<in>set val. ascii c \<and> of_char c \<notin> set (ptEnds pat)" "ascii e" "of_char e \<in> set (ptEnds pat)" "\<not> IsSpace (of_char e)"
    and "ssStart st" "ssMask st" "ssValueStart st" "ssMaskStart st \<noteq> 0" "i + length val + length post < n"
  shows "scanRunes True pat n (runesFrom i (val @ e # post)) st = st\<lparr>ssValueStart := False, ssMaskEnd := i + length val\<rparr>"
  using assms(1,5-)
proof (induction val arbitrary: i st)
  case Nil
  then show ?case
    using assms(2-4) by (simp add: runesFrom_ascii scanRune_def Let_def ContainsInEnds_def)
next
  case (Cons c val)
  have "i \<noteq> n - 1" using Cons.prems(6) by simp
  then have "scanRune True pat n i (of_char c) st = (st, False)"
    using Cons.prems by (simp add: scanRune_def Let_def ContainsInEnds_def)
  moreover have "runesFrom i ((c # val) @ e # post) = (i, of_char c, [c]) # runesFrom (Suc i) (val @ e # post)"
    using Cons.prems(1) by (simp add: runesFrom_ascii)
  ultimately show ?case using Cons.IH [of st "Suc i"] Cons.prems by simp
qed

lemma maskPattern_json:
  fixes keyword pre v val e post
  defines "pat \<equiv> hd (GeneratePatternType keyword)"
  assumes first: "\<And>k. k < length pre \<Longrightarrow> \<not> HasPrefix (drop k (pre @ ptPattern pat @ '':'' @ v # val @ e # post)) (ptPattern pat)"
    and val: "\<forall>c\<in>set (v # val). ascii c \<and> c \<noteq> CHR '','' \<and> c \<noteq> CHR ''}''" "\<not> IsSpace (of_char v)"
    and e: "e = CHR '','' \<or> e = CHR ''}''"
  shows "maskPattern True pat (pre @ ptPattern pat @ '':'' @ v # val @ e # post) =
    Some (pre @ ptPattern pat @ '':'' @ CHR 0x22 # ''xxxxx'' @ CHR 0x22 # e # post)"
proof -
  define tx where "tx = pre @ ptPattern pat @ '':'' @ v # val @ e # post"
  define s where "s = length pre + length (ptPattern pat)"
  define st where "st = \<lparr>ssStart = True, ssValueStart = True, ssMask = True, ssMaskStart = Suc s, ssMaskEnd = 0\<rparr>"
  have idx: "Index tx (ptPattern pat) = Some (length pre)"
    using indexFrom_first [of pre "ptPattern pat" "'':'' @ v # val @ e # post" 0] first by (simp add: Index_def tx_def)
  have p: "ptStart pat = 58" "ptEnds pat = [44, 125]" by (simp_all add: pat_def GeneratePatternType_def)
  have ends: "of_char c \<in> set (ptEnds pat) \<longleftrightarrow> c = CHR '','' \<or> c = CHR ''}''" for c :: char
  proof -
    have "(44 :: int) = of_char (CHR '','')" "(125 :: int) = of_char (CHR ''}'')" by simp_all
    then show ?thesis unfolding p(2) by (simp only: list.set insert_iff empty_iff of_char_eq_iff simp_thms)
  qed
  have n: "length tx = s + 3 + length val + length post" by (simp add: tx_def s_def)
  have d: "drop s tx = CHR '':'' # v # val @ e # post" by (simp add: tx_def s_def)
  have ev: "ascii e" "\<not> IsSpace (of_char e)" using e by (auto simp: ascii_def IsSpace_def)
  have r: "runesFrom s (drop s tx) = (s, 58, '':'') # (Suc s, of_char v, [v]) # runesFrom (Suc (Suc s)) (val @ e # post)"
    using val(1) by (simp add: d runesFrom_ascii ascii_def)
  have 1: "scanRune True pat (length tx) s 58 \<lparr>ssStart = False, ssValueStart = False, ssMask = False, ssMaskStart = 0, ssMaskEnd = 0\<rparr> =
      (\<lparr>ssStart = True, ssValueStart = False, ssMask = False, ssMaskStart = 0, ssMaskEnd = 0\<rparr>, False)"
    by (simp add: scanRune_def Let_def p IsSpace_def)
  have "of_char v \<notin> set (ptEnds pat)" using val(1) by (simp add: ends)
  then have 2: "scanRune True pat (length tx) (Suc s) (of_char v)
        \<lparr>ssStart = True, ssValueStart = False, ssMask = False, ssMaskStart = 0, ssMaskEnd = 0\<rparr> = (st, False)"
    using val(2) n by (auto simp: scanRune_def Let_def ContainsInEnds_def st_def)
  have 3: "scanRunes True pat (length tx) (runesFrom (Suc (Suc s)) (val @ e # post)) st =
      st\<lparr>ssValueStart := False, ssMaskEnd := Suc (Suc s) + length val\<rparr>"
  proof (rule scanRunes_value)
    show "\<forall>c\<in>set val. ascii c \<and> of_char c \<notin> set (ptEnds pat)" using val(1) by (simp only: ends list.set) blast
    show "of_char e \<in> set (ptEnds pat)" using e by (simp only: ends)
    show "Suc (Suc s) + length val + length post < length tx" using n by simp
  qed (use ev in \<open>simp_all add: st_def\<close>)
  have scan: "scanRunes True pat (length tx) (runesFrom s (drop s tx)) \<lparr>ssStart = (ptStart pat = 0), ssValueStart = False, ssMask = False,
        ssMaskStart = 0, ssMaskEnd = 0\<rparr> = st\<lparr>ssValueStart := False, ssMaskEnd := Suc (Suc s) + length val\<rparr>"
    unfolding r by (simp add: 1 2 3 p(1))
  have me: "tx ! (Suc (Suc s) + length val) = e" "drop (Suc (Suc s) + length val) tx = e # post"
    by (simp_all add: tx_def s_def nth_append)
  have ms: "take (Suc s) tx = pre @ ptPattern pat @ '':''" by (simp add: tx_def s_def)
  have "ContainsInEnds pat (of_char e)" using e by (simp add: ContainsInEnds_def ends)
  with me ms n show ?thesis
    unfolding maskPattern_def tx_def [symmetric] idx option.case Let_def s_def [symmetric] scan by (simp add: st_def)
qed

text \<open>In a valid JSON text the value of the keyword, when it is the first occurrence and has no comma
  or brace inside, is replaced by \<open>"xxxxx"\<close>; everything before it and after it is kept.\<close>

theorem mask_hides_json_value:
  assumes "valid (pre @ (CHR 0x22 # keyword @ [CHR 0x22]) @ '':'' @ v # val @ e # post)"
    and "\<And>k. k < length pre \<Longrightarrow>
      \<not> HasPrefix (drop k (pre @ (CHR 0x22 # keyword @ [CHR 0x22]) @ '':'' @ v # val @ e # post)) (CHR 0x22 # keyword @ [CHR 0x22])"
    and "\<forall>c\<in>set (v # val). ascii c \<and> c \<noteq> CHR '','' \<and> c \<noteq> CHR ''}''" "\<not> IsSpace (of_char v)" "e = CHR '','' \<or> e = CHR ''}''"
  shows "Mask valid [keyword] (pre @ (CHR 0x22 # keyword @ [CHR 0x22]) @ '':'' @ v # val @ e # post) =
    pre @ (CHR 0x22 # keyword @ [CHR 0x22]) @ '':'' @ (CHR 0x22 # ''xxxxx'' @ [CHR 0x22]) @ e # post"
proof -
  have p: "ptPattern (hd (GeneratePatternType keyword)) = CHR 0x22 # keyword @ [CHR 0x22]" by (simp add: GeneratePatternType_def)
  obtain ps where ps: "GeneratePatternType keyword = hd (GeneratePatternType keyword) # ps" by (simp add: GeneratePatternType_def)
  have "maskPatterns True (GeneratePatternType keyword) (pre @ (CHR 0x22 # keyword @ [CHR 0x22]) @ '':'' @ v # val @ e # post) =
      pre @ (CHR 0x22 # keyword @ [CHR 0x22]) @ '':'' @ (CHR 0x22 # ''xxxxx'' @ [CHR 0x22]) @ e # post"
    using maskPattern_json [of pre keyword v val e post] assms(2-) unfolding p by (subst ps) simp
  with assms(1) show ?thesis by (simp add: Mask_def)
qed

theorem mask_hides_json_value_witness:
  "Mask (\<lambda>_. True) [''password''] (''{'' @ (CHR 0x22 # ''password'' @ [CHR 0x22]) @ '':'' @ CHR 0x22 # (''a'' @ [CHR 0x22]) @ CHR ''}'' # []) =
     ''{'' @ (CHR 0x22 # ''password'' @ [CHR 0x22]) @ '':'' @ (CHR 0x22 # ''xxxxx'' @ [CHR 0x22]) @ CHR ''}'' # []"
proof (rule mask_hides_json_value)
  show "\<not> HasPrefix (drop k (''{'' @ (CHR 0x22 # ''password'' @ [CHR 0x22]) @ '':'' @ CHR 0x22 # (''a'' @ [CHR 0x22]) @ CHR ''}'' # []))
      (CHR 0x22 # ''password'' @ [CHR 0x22])" if "k < length ''{''" for k
    using that by simp
qed (auto simp: ascii_def IsSpace_def)

text \<open>A password with a comma is masked up to the comma only, and a one-letter value at the end of a
  text is not masked.\<close>

lemma mask_leaks:
  "Mask (\<lambda>_. True) [''password''] (''{'' @ (CHR 0x22 # ''password'' @ [CHR 0x22]) @ '':'' @ (CHR 0x22 # ''a,bc'' @ [CHR 0x22]) @ ''}'') =
     ''{'' @ (CHR 0x22 # ''password'' @ [CHR 0x22]) @ '':'' @ (CHR 0x22 # ''xxxxx'' @ [CHR 0x22]) @ '',bc'' @ [CHR 0x22] @ ''}''"
  "Mask (\<lambda>_. False) [''pin''] ''pin=7'' = ''pin=7''"
  by code_simp+

end
