(* ===== verification/Candi_Shared.thy ===== *)
theory Candi_Shared
  imports Candi_Helper "HOL-Library.Multiset"
begin

text \<open>
  Shared types of the library: collected errors (\<open>src/candishared/errors.go\<close>), filters and page data
  (\<open>filter.go\<close>, \<open>result.go\<close>), HTTP responses (\<open>src/wrapper/http_response.go\<close>), the HTTP client
  (\<open>src/candiutils/http_request.go\<close>), the pool of workers (\<open>src/candiutils/worker_pool.go\<close>), and the
  start and the end of an application (\<open>src/codebase/app/app.go\<close>, \<open>src/codebase/factory/appfactory\<close>).
\<close>

section \<open>Collected errors\<close>

text \<open>The map of errors, in the order in which it is iterated; an error is its text.\<close>

type_synonym sharedError = "(string \<times> string) list"

definition NewSharedError :: sharedError where "NewSharedError = []"

definition sharedAppend :: "sharedError \<Rightarrow> string \<Rightarrow> string option \<Rightarrow> sharedError" where
  "sharedAppend m key err = (case err of None \<Rightarrow> m | Some e \<Rightarrow> AList.update key e m)"

definition sharedHasError :: "sharedError \<Rightarrow> bool" where "sharedHasError m \<longleftrightarrow> length m \<noteq> 0"
definition sharedIsNil :: "sharedError \<Rightarrow> bool" where "sharedIsNil m \<longleftrightarrow> length m = 0"
definition sharedClear :: "sharedError \<Rightarrow> sharedError" where "sharedClear m = []"
definition sharedToMap :: "sharedError \<Rightarrow> (string \<times> string) list" where "sharedToMap m = m"

definition sharedMerge :: "sharedError \<Rightarrow> sharedError \<Rightarrow> sharedError" where
  "sharedMerge m e = foldl (\<lambda>m (k, v). sharedAppend m k (Some v)) m (sharedToMap e)"

definition sharedError_Error :: "sharedError \<Rightarrow> string" where
  "sharedError_Error m = JoinStr [CHR 0x0A] (map (\<lambda>(i, s). i @ '': '' @ s) m)"

record resolveError =
  reMessage :: string
  reExtensions :: "(string \<times> string) list"

definition ToGraphQLExtension :: "sharedError \<Rightarrow> string \<Rightarrow> resolveError" where
  "ToGraphQLExtension m mainErr = \<lparr>reMessage = mainErr, reExtensions = foldl (\<lambda>x (k, v). AList.update k v x) [] m\<rparr>"

section \<open>Filters and pages\<close>

record sharedFilter =
  sfLimit :: int
  sfPage :: int
  sfOffset :: int
  sfSearch :: string
  sfOrderBy :: string
  sfSort :: string
  sfShowAll :: bool
  sfAllowEmptyFilter :: bool

definition Filter_CalculateOffset :: "sharedFilter \<Rightarrow> int \<times> sharedFilter" where
  "Filter_CalculateOffset f = (let o' = (sfPage f - 1) * sfLimit f in (o', f\<lparr>sfOffset := o'\<rparr>))"

definition IncrPage :: "sharedFilter \<Rightarrow> sharedFilter" where
  "IncrPage f = f\<lparr>sfPage := sfPage f + 1\<rparr>"

record nullableFilter =
  nfLimit :: "int option"
  nfPage :: "int option"
  nfSearch :: "string option"
  nfSort :: "string option"
  nfShowAll :: "bool option"
  nfOrderBy :: "string option"

definition Nullable_ToFilter :: "nullableFilter \<Rightarrow> sharedFilter" where
  "Nullable_ToFilter n =
     \<lparr>sfLimit = UnwrapPtr 10 (nfLimit n), sfPage = UnwrapPtr 1 (nfPage n), sfOffset = 0, sfSearch = UnwrapPtr [] (nfSearch n),
      sfOrderBy = UnwrapPtr [] (nfOrderBy n), sfSort = UnwrapPtr [] (nfSort n), sfShowAll = UnwrapPtr False (nfShowAll n),
      sfAllowEmptyFilter = False\<rparr>"

record pageMeta =
  pmPage :: int
  pmLimit :: int
  pmTotalRecords :: int
  pmTotalPages :: "int option"

definition CalculatePages :: "pageMeta \<Rightarrow> pageMeta" where
  "CalculatePages m = m\<lparr>pmTotalPages := pagesOf (pmTotalRecords m) (pmLimit m)\<rparr>"

definition NewMeta :: "int \<Rightarrow> int \<Rightarrow> int \<Rightarrow> pageMeta" where
  "NewMeta pg limit totalRecords =
     CalculatePages \<lparr>pmPage = pg, pmLimit = limit, pmTotalRecords = totalRecords, pmTotalPages = Some 0\<rparr>"

section \<open>HTTP responses\<close>

text \<open>The parameters of a response, by their dynamic types.\<close>

datatype responseParam = RPMeta pageMeta | RPMultiError sharedError | RPError string | RPData gval

record candiResponse =
  hrSuccess :: bool
  hrCode :: int
  hrMessage :: string
  hrMeta :: "pageMeta option"
  hrData :: gval
  hrErrors :: "(string \<times> string) list option"

definition addParam :: "candiResponse \<Rightarrow> responseParam \<Rightarrow> candiResponse" where
  "addParam r p =
     (case p of
        RPMeta m \<Rightarrow> r\<lparr>hrMeta := Some m\<rparr>
      | RPMultiError e \<Rightarrow> r\<lparr>hrErrors := Some (sharedToMap e)\<rparr>
      | RPError e \<Rightarrow> r\<lparr>hrErrors := Some (sharedToMap (sharedAppend NewSharedError ''detail'' (Some e)))\<rparr>
      | RPData d \<Rightarrow> r\<lparr>hrData := d\<rparr>)"

definition NewHTTPResponse :: "int \<Rightarrow> string \<Rightarrow> responseParam list \<Rightarrow> candiResponse" where
  "NewHTTPResponse code message params =
     (foldl addParam \<lparr>hrSuccess = False, hrCode = 0, hrMessage = [], hrMeta = None, hrData = VNil, hrErrors = None\<rparr> params)
       \<lparr>hrSuccess := code < 400, hrCode := code, hrMessage := message\<rparr>"

definition NewHTTPResponseWithMeta :: "int \<Rightarrow> string \<Rightarrow> pageMeta \<Rightarrow> responseParam list \<Rightarrow> candiResponse" where
  "NewHTTPResponseWithMeta code message meta params = (NewHTTPResponse code message params)\<lparr>hrMeta := Some meta\<rparr>"

section \<open>The HTTP client\<close>

record httpRequestImpl =
  hqRetries :: int
  hqSleepBetweenRetry :: int
  hqTimeout :: int
  hqBreakerName :: string
  hqMinHTTPErrorCodeThreshold :: int

definition NewHTTPRequest :: "(httpRequestImpl \<Rightarrow> httpRequestImpl) list \<Rightarrow> httpRequestImpl" where
  "NewHTTPRequest opts =
     foldl (\<lambda>h opt. opt h) \<lparr>hqRetries = 5, hqSleepBetweenRetry = 500 * Millisecond, hqTimeout = 10 * Second, hqBreakerName = ''default'',
       hqMinHTTPErrorCodeThreshold = 400\<rparr> opts"

definition HTTPRequestSetRetries :: "int \<Rightarrow> httpRequestImpl \<Rightarrow> httpRequestImpl" where
  "HTTPRequestSetRetries retries h = h\<lparr>hqRetries := retries\<rparr>"

definition HTTPRequestSetHTTPErrorCodeThreshold :: "int \<Rightarrow> httpRequestImpl \<Rightarrow> httpRequestImpl" where
  "HTTPRequestSetHTTPErrorCodeThreshold n h = h\<lparr>hqMinHTTPErrorCodeThreshold := n\<rparr>"

text \<open>\<open>client\<close> is the transport: the response, if any (code, status text and body), and the error, if any.
  It is called once; the result is the response with its body and the error.\<close>

record clientResponse =
  crStatusCode :: int
  crStatus :: string
  crBody :: string

definition DoRequest :: "(unit \<Rightarrow> clientResponse option \<times> string option) \<Rightarrow> string option \<Rightarrow> httpRequestImpl \<Rightarrow>
    (int \<times> string) option \<times> string option" where
  "DoRequest client invalid h =
     (case invalid of
        Some e \<Rightarrow> (None, Some e)
      | None \<Rightarrow> (case client () of
          (None, err) \<Rightarrow> (None, err)
        | (Some r, err) \<Rightarrow>
            (Some (crStatusCode r, crBody r),
             if hqMinHTTPErrorCodeThreshold h \<noteq> 0 \<and> crStatusCode r \<ge> hqMinHTTPErrorCodeThreshold h then Some (crStatus r) else err)))"

definition HTTPRequest_Do :: "(unit \<Rightarrow> clientResponse option \<times> string option) \<Rightarrow> string option \<Rightarrow> httpRequestImpl \<Rightarrow>
    string \<times> int \<times> string option" where
  "HTTPRequest_Do client invalid h =
     (case DoRequest client invalid h of
        (None, err) \<Rightarrow> ([], 0, err)
      | (Some (code, body), err) \<Rightarrow> (body, code, err))"

section \<open>Applications\<close>

definition REST :: string where "REST = ''rest''"
definition GRPC :: string where "GRPC = ''grpc''"
definition GraphQL :: string where "GraphQL = ''graphql''"
definition Kafka :: string where "Kafka = ''kafka''"
definition RedisSubscriber :: string where "RedisSubscriber = ''redis_subscriber''"
definition RabbitMQ :: string where "RabbitMQ = ''rabbit_mq''"
definition Scheduler :: string where "Scheduler = ''scheduler''"
definition TaskQueue :: string where "TaskQueue = ''task_queue''"
definition PostgresListener :: string where "PostgresListener = ''postgres_listener''"

lemmas app_names = REST_def GRPC_def GraphQL_def Kafka_def RedisSubscriber_def RabbitMQ_def Scheduler_def TaskQueue_def PostgresListener_def

record appFlags =
  useKafkaConsumer :: bool
  useCronScheduler :: bool
  useTaskQueueWorker :: bool
  useRedisSubscriber :: bool
  usePostgresListenerWorker :: bool
  useRabbitMQWorker :: bool
  useREST :: bool
  useGRPC :: bool
  useGraphQL :: bool

definition NewAppFromEnvironmentConfig :: "appFlags \<Rightarrow> string list" where
  "NewAppFromEnvironmentConfig e =
     (if useKafkaConsumer e then [Kafka] else []) @ (if useCronScheduler e then [Scheduler] else []) @
     (if useTaskQueueWorker e then [TaskQueue] else []) @ (if useRedisSubscriber e then [RedisSubscriber] else []) @
     (if usePostgresListenerWorker e then [PostgresListener] else []) @ (if useRabbitMQWorker e then [RabbitMQ] else []) @
     (if useREST e then [REST] else []) @ (if useGRPC e then [GRPC] else []) @
     (if \<not> useREST e \<and> useGraphQL e then [GraphQL] else [])"

datatype appStart = StartPanics string | Started "string list"

fun startApplications :: "string list \<Rightarrow> string list \<Rightarrow> appStart" where
  "startApplications started [] = Started started"
| "startApplications started (a # as) =
     (if a \<in> set started then StartPanics (''Register application: '' @ a @ '' has been registered'')
      else startApplications (started @ [a]) as)"

definition App_Run :: "string list \<Rightarrow> appStart" where
  "App_Run apps = (if length apps = 0 then StartPanics ''No server/worker running'' else startApplications [] apps)"

text \<open>The end: the applications are shut down one after the other; \<open>n\<close> of them are before a second signal or
  the timeout, which end the process at once, without the deferred calls.\<close>

datatype appEnd = Graceful "string list" bool | Forced "string list"

definition App_shutdown :: "string list \<Rightarrow> nat \<Rightarrow> bool \<Rightarrow> appEnd" where
  "App_shutdown apps n hasAfterShutdown =
     (if n \<ge> length apps then Graceful apps hasAfterShutdown else Forced (take n apps))"

lemma startApplications_distinct:
  "distinct (st @ apps) \<Longrightarrow> startApplications st apps = Started (st @ apps)"
  by (induction apps arbitrary: st) auto

lemma startApplications_Started:
  "startApplications st apps = Started r \<Longrightarrow> r = st @ apps \<and> distinct apps \<and> set st \<inter> set apps = {}"
proof (induction apps arbitrary: st)
  case (Cons a apps)
  then have "a \<notin> set st" "startApplications (st @ [a]) apps = Started r" by (auto split: if_splits)
  with Cons.IH [OF this(2)] show ?case by auto
qed simp

text \<open>An application starts every server and worker it is given, in order, exactly when there is at
  least one and no name occurs twice; the applications chosen by the environment never have a name twice.\<close>

theorem app_starts_all:
  "(App_Run apps = Started apps \<longleftrightarrow> apps \<noteq> [] \<and> distinct apps) \<and> distinct (NewAppFromEnvironmentConfig e)"
proof (intro conjI)
  show "App_Run apps = Started apps \<longleftrightarrow> apps \<noteq> [] \<and> distinct apps"
    using startApplications_distinct [of "[]" apps] startApplications_Started [of "[]" apps] by (auto simp: App_Run_def)
  show "distinct (NewAppFromEnvironmentConfig e)"
    by (simp add: NewAppFromEnvironmentConfig_def app_names)
qed

section \<open>The pool of workers\<close>

text \<open>\<open>wpWg\<close> is the counter of the wait group, \<open>wpIdle\<close> the number of workers that wait for a job; a job is
  with the caller of \<open>AddJob\<close> who waits to hand it over, with a worker, or executed.\<close>

record 'j workerPool =
  wpMaxWorker :: int
  wpWg :: nat
  wpClosed :: bool
  wpIdle :: nat
  wpWaiting :: "'j list"
  wpRunning :: "'j list"
  wpExecuted :: "'j list"

definition NewWorkerPool :: "int \<Rightarrow> 'j workerPool" where
  "NewWorkerPool maxWorker =
     \<lparr>wpMaxWorker = maxWorker, wpWg = 0, wpClosed = False, wpIdle = 0, wpWaiting = [], wpRunning = [], wpExecuted = []\<rparr>"

definition Dispatch :: "'j workerPool \<Rightarrow> 'j workerPool" where
  "Dispatch p = p\<lparr>wpIdle := wpIdle p + nat (wpMaxWorker p)\<rparr>"

text \<open>\<open>AddJob\<close> counts the job and waits until a worker takes it.\<close>

definition wpAddJob :: "'j \<Rightarrow> 'j workerPool \<Rightarrow> 'j workerPool" where
  "wpAddJob j p = p\<lparr>wpWg := wpWg p + 1, wpWaiting := wpWaiting p @ [j]\<rparr>"

definition handOver :: "nat \<Rightarrow> 'j workerPool \<Rightarrow> 'j workerPool option" where
  "handOver i p =
     (if i < length (wpWaiting p) \<and> 0 < wpIdle p \<and> \<not> wpClosed p
      then Some (p\<lparr>wpIdle := wpIdle p - 1, wpRunning := (wpWaiting p ! i) # wpRunning p,
             wpWaiting := take i (wpWaiting p) @ drop (Suc i) (wpWaiting p)\<rparr>)
      else None)"

definition endJob :: "nat \<Rightarrow> 'j workerPool \<Rightarrow> 'j workerPool option" where
  "endJob i p =
     (if i < length (wpRunning p)
      then Some (p\<lparr>wpIdle := wpIdle p + 1, wpExecuted := (wpRunning p ! i) # wpExecuted p, wpWg := wpWg p - 1,
             wpRunning := take i (wpRunning p) @ drop (Suc i) (wpRunning p)\<rparr>)
      else None)"

text \<open>\<open>Finish\<close> closes the channel and returns when the counter is zero.  A caller of \<open>AddJob\<close> who waits then,
  or who comes later, panics: such a step has no next state.\<close>

definition closePool :: "'j workerPool \<Rightarrow> 'j workerPool option" where
  "closePool p = (if wpClosed p \<or> wpWaiting p \<noteq> [] then None else Some (p\<lparr>wpClosed := True\<rparr>))"

definition finishReturns :: "'j workerPool \<Rightarrow> bool" where
  "finishReturns p \<longleftrightarrow> wpClosed p \<and> wpWg p = 0"

datatype 'j poolCall = CallAdd 'j | CallDispatch | HandOver nat | EndJob nat | CallClose

definition poolStep :: "'j poolCall \<Rightarrow> 'j workerPool \<Rightarrow> 'j workerPool option" where
  "poolStep c p =
     (case c of
        CallAdd j \<Rightarrow> if wpClosed p then None else Some (wpAddJob j p)
      | CallDispatch \<Rightarrow> Some (Dispatch p)
      | HandOver i \<Rightarrow> handOver i p
      | EndJob i \<Rightarrow> endJob i p
      | CallClose \<Rightarrow> closePool p)"

fun poolRun :: "'j poolCall list \<Rightarrow> 'j workerPool \<Rightarrow> 'j workerPool option" where
  "poolRun [] p = Some p"
| "poolRun (c # cs) p = Option.bind (poolStep c p) (poolRun cs)"

fun addedJobs :: "'j poolCall list \<Rightarrow> 'j list" where
  "addedJobs [] = []"
| "addedJobs (c # cs) = (case c of CallAdd j \<Rightarrow> j # addedJobs cs | _ \<Rightarrow> addedJobs cs)"

fun dispatches :: "'j poolCall list \<Rightarrow> nat" where
  "dispatches [] = 0"
| "dispatches (c # cs) = (case c of CallDispatch \<Rightarrow> Suc (dispatches cs) | _ \<Rightarrow> dispatches cs)"

text \<open>No job is lost or doubled, the counter is the number of jobs not executed yet, and a worker has at
  most one job.\<close>

definition poolInv :: "'j list \<Rightarrow> nat \<Rightarrow> 'j workerPool \<Rightarrow> bool" where
  "poolInv js d p \<longleftrightarrow> mset js = mset (wpWaiting p) + mset (wpRunning p) + mset (wpExecuted p) \<and>
     wpWg p = length (wpWaiting p) + length (wpRunning p) \<and> wpIdle p + length (wpRunning p) = d * nat (wpMaxWorker p) \<and>
     (wpClosed p \<longrightarrow> wpWaiting p = [])"

lemma mset_remove_nth: "i < length xs \<Longrightarrow> mset xs = add_mset (xs ! i) (mset (take i xs @ drop (Suc i) xs))"
  by (subst id_take_nth_drop [of i xs]) simp_all

lemma poolStep_inv:
  assumes "poolStep c p = Some p'" "poolInv js d p"
  shows "poolInv (js @ addedJobs [c]) (d + dispatches [c]) p' \<and> wpMaxWorker p' = wpMaxWorker p"
proof (cases c)
  case (HandOver i)
  then show ?thesis
    using assms mset_remove_nth [of i "wpWaiting p"] by (auto simp: poolStep_def handOver_def poolInv_def split: if_splits)
next
  case (EndJob i)
  then show ?thesis
    using assms mset_remove_nth [of i "wpRunning p"] by (auto simp: poolStep_def endJob_def poolInv_def split: if_splits)
qed (use assms in \<open>auto simp: poolStep_def wpAddJob_def Dispatch_def closePool_def poolInv_def algebra_simps split: if_splits\<close>)

lemma poolRun_inv:
  assumes "poolRun cs p = Some p'" "poolInv js d p"
  shows "poolInv (js @ addedJobs cs) (d + dispatches cs) p' \<and> wpMaxWorker p' = wpMaxWorker p"
  using assms
proof (induction cs arbitrary: p js d)
  case (Cons c cs)
  obtain p1 where p1: "poolStep c p = Some p1" "poolRun cs p1 = Some p'" using Cons.prems(1) by (auto simp: bind_eq_Some_conv)
  have "addedJobs (c # cs) = addedJobs [c] @ addedJobs cs" "dispatches (c # cs) = dispatches [c] + dispatches cs" by (cases c; simp)+
  with Cons.IH [OF p1(2) conjunct1 [OF poolStep_inv [OF p1(1) Cons.prems(2)]]] poolStep_inv [OF p1(1) Cons.prems(2)]
  show ?case by (simp add: add.assoc)
qed simp

text \<open>C30: whatever the interleaving of callers and workers, at most \<open>maxWorker\<close> jobs of a dispatched pool
  run at a time, a job that waits while no worker is free is only held up by running jobs, and when
  \<open>Finish\<close>, called after the calls of \<open>AddJob\<close>, returns, every added job has been executed exactly once.\<close>

theorem worker_pool_runs_all_once:
  assumes "poolRun cs (NewWorkerPool n) = Some p" "dispatches cs = 1"
  shows "length (wpRunning p) \<le> nat n \<and>
    (wpWaiting p \<noteq> [] \<and> 0 < n \<longrightarrow> poolStep (HandOver 0) p \<noteq> None \<or> poolStep (EndJob 0) p \<noteq> None) \<and>
    (finishReturns p \<longrightarrow> mset (wpExecuted p) = mset (addedJobs cs))"
proof -
  have "poolInv [] 0 (NewWorkerPool n)" by (simp add: poolInv_def NewWorkerPool_def)
  from poolRun_inv [OF assms(1) this] assms(2) have inv: "poolInv (addedJobs cs) 1 p" and m: "wpMaxWorker p = n"
    by (simp_all add: NewWorkerPool_def)
  have "wpIdle p = 0 \<Longrightarrow> 0 < n \<Longrightarrow> wpRunning p \<noteq> []" using inv m by (auto simp: poolInv_def)
  moreover have "wpWaiting p \<noteq> [] \<Longrightarrow> \<not> wpClosed p" using inv by (auto simp: poolInv_def)
  ultimately have "wpWaiting p \<noteq> [] \<and> 0 < n \<longrightarrow> poolStep (HandOver 0) p \<noteq> None \<or> poolStep (EndJob 0) p \<noteq> None"
    by (auto simp: poolStep_def handOver_def endJob_def)
  moreover have "length (wpRunning p) \<le> nat n" using inv m by (simp add: poolInv_def)
  moreover have "finishReturns p \<longrightarrow> mset (wpExecuted p) = mset (addedJobs cs)" using inv by (auto simp: poolInv_def finishReturns_def)
  ultimately show ?thesis by blast
qed

definition exCalls :: "nat poolCall list" where
  "exCalls = [CallDispatch, CallAdd 7, HandOver 0, CallAdd 8, HandOver 0, EndJob 1, EndJob 0, CallClose]"

definition exPool :: "nat workerPool" where
  "exPool = (case poolRun exCalls (NewWorkerPool 2) of Some p \<Rightarrow> p | None \<Rightarrow> NewWorkerPool 2)"

theorem worker_pool_runs_all_once_witness: "mset (wpExecuted exPool) = mset [7, 8] \<and> length (wpRunning exPool) \<le> 2"
proof -
  have "poolRun exCalls (NewWorkerPool 2) \<noteq> None" "dispatches exCalls = 1" "finishReturns exPool" "addedJobs exCalls = [7, 8]" by code_simp+
  moreover from this(1) have "poolRun exCalls (NewWorkerPool 2) = Some exPool" by (auto simp: exPool_def)
  ultimately show ?thesis using worker_pool_runs_all_once [of exCalls 2 exPool] by simp
qed

end
