(* ===== verification/Grpc_Server.thy ===== *)
theory Grpc_Server
  imports Candi_Middleware Rest_Server
begin

text \<open>
  The interceptors of the gRPC server (\<open>src/codebase/app/grpc_server\<close>), the middleware groups of
  \<open>src/codebase/factory/types\<close> and the entry points of \<open>src/tracer/tracer.go\<close> that they use.  A handler
  takes the context, the request and the world and returns or panics; the world is the state that
  handlers and middlewares change, the events on open spans and the lines written to the output.  The
  tracing platform and the encoding of a message for the log are arguments.
\<close>

section \<open>Contexts, worlds and handlers\<close>

record rpcCtx =
  rcGrpc :: grpcContext
  rcSkipTracer :: bool
  rcDisableTrace :: bool
  rcSpan :: "string option"

datatype grpcError = Status rpcError | Aborted string

text \<open>A call returns or panics.\<close>

datatype 'a callOutcome = Ret 'a | Panics string

datatype spanEvent = SetTag string string | LogKey string string | LogSize string nat | Finish "grpcError option"

record 's rpcWorld =
  rwState :: 's
  rwTrace :: "(string \<times> spanEvent) list"
  rwStdout :: "(string \<times> string \<times> string) list"

type_synonym 'r reply = "'r option \<times> grpcError option"
type_synonym ('q, 'r, 's) unaryHandler = "rpcCtx \<Rightarrow> 'q \<Rightarrow> 's rpcWorld \<Rightarrow> 'r reply callOutcome \<times> 's rpcWorld"
type_synonym ('q, 'r, 's) unaryInterceptor = "rpcCtx \<Rightarrow> 'q \<Rightarrow> string \<Rightarrow> ('q, 'r, 's) unaryHandler \<Rightarrow> 's rpcWorld \<Rightarrow> 'r reply callOutcome \<times> 's rpcWorld"

text \<open>A stream is its context and the end that the messages go to.\<close>

record serverStream =
  ssContext :: rpcCtx
  ssPeer :: nat

type_synonym ('v, 's) streamHandler = "'v \<Rightarrow> serverStream \<Rightarrow> 's rpcWorld \<Rightarrow> grpcError option callOutcome \<times> 's rpcWorld"
type_synonym ('v, 's) streamInterceptor = "'v \<Rightarrow> serverStream \<Rightarrow> string \<Rightarrow> ('v, 's) streamHandler \<Rightarrow> 's rpcWorld \<Rightarrow> grpcError option callOutcome \<times> 's rpcWorld"

definition wrappedServerStream :: "serverStream \<Rightarrow> rpcCtx \<Rightarrow> serverStream" where
  "wrappedServerStream stream ctx = stream\<lparr>ssContext := ctx\<rparr>"

section \<open>The tracer\<close>

text \<open>The platform starts the spans; candi's own \<open>NoopTracer\<close> is active until a platform is set, and only the
  first one that is set counts.\<close>

record tracerPlatform =
  tpStartSpan :: "string \<Rightarrow> rpcCtx \<Rightarrow> rpcCtx"
  tpStartRootSpan :: "string \<Rightarrow> (string \<rightharpoonup> string) \<Rightarrow> rpcCtx \<Rightarrow> rpcCtx"

type_synonym activeTracer = "tracerPlatform option"

definition SetTracerPlatformType :: "tracerPlatform \<Rightarrow> activeTracer \<Rightarrow> activeTracer" where
  "SetTracerPlatformType t active = (case active of None \<Rightarrow> Some t | Some _ \<Rightarrow> active)"

definition IsTracerActive :: "activeTracer \<Rightarrow> bool" where
  "IsTracerActive active \<longleftrightarrow> active \<noteq> None"

definition SkipTraceContext :: "rpcCtx \<Rightarrow> rpcCtx" where
  "SkipTraceContext ctx = ctx\<lparr>rcSkipTracer := True\<rparr>"

text \<open>The span that a call got: none from the \<open>NoopTracer\<close>.\<close>

definition StartTrace :: "activeTracer \<Rightarrow> rpcCtx \<Rightarrow> string \<Rightarrow> string option \<times> rpcCtx" where
  "StartTrace active ctx operationName =
     (if rcSkipTracer ctx then (None, ctx)
      else case active of None \<Rightarrow> (None, ctx) | Some t \<Rightarrow> (Some operationName, tpStartSpan t operationName ctx))"

definition StartTraceFromHeader :: "activeTracer \<Rightarrow> rpcCtx \<Rightarrow> string \<Rightarrow> (string \<rightharpoonup> string) \<Rightarrow> string option \<times> rpcCtx" where
  "StartTraceFromHeader active ctx operationName header =
     (if rcSkipTracer ctx then (None, ctx)
      else case active of None \<Rightarrow> (None, ctx) | Some t \<Rightarrow> (Some operationName, tpStartRootSpan t operationName header ctx))"

definition onSpan :: "string option \<Rightarrow> spanEvent \<Rightarrow> 's rpcWorld \<Rightarrow> 's rpcWorld" where
  "onSpan trace e w = (case trace of None \<Rightarrow> w | Some op \<Rightarrow> w\<lparr>rwTrace := rwTrace w @ [(op, e)]\<rparr>)"

section \<open>Middleware groups\<close>

type_synonym middlewareFunc = "rpcCtx \<Rightarrow> (rpcCtx \<times> rpcError option) callOutcome"
type_synonym middlewareGroup = "string \<rightharpoonup> middlewareFunc list"

definition MiddlewareGroup_Add :: "string \<Rightarrow> middlewareFunc list \<Rightarrow> middlewareGroup \<Rightarrow> middlewareGroup" where
  "MiddlewareGroup_Add fullMethod middlewareFunc mw = mw(fullMethod \<mapsto> middlewareFunc)"

text \<open>The service name is the full name of the first service of the descriptor; the handler is a method name
  or a function, whose name \<open>candihelper.GetFuncName\<close> reads.\<close>

datatype protoHandler = HandlerName string | HandlerFunc string

definition AddProto :: "string \<Rightarrow> protoHandler \<Rightarrow> middlewareFunc list \<Rightarrow> middlewareGroup \<Rightarrow> middlewareGroup" where
  "AddProto serviceFullName handler middlewareFunc mw =
     (let serviceName = ''/'' @ serviceFullName @ ''/'';
          fullMethodName = serviceName @ (case handler of HandlerName h \<Rightarrow> h | HandlerFunc f \<Rightarrow> f)
      in mw(fullMethodName \<mapsto> middlewareFunc))"

text \<open>The middlewares of \<^theory_text>\<open>Candi_Middleware\<close> as middleware functions.\<close>

definition asMiddlewareFunc :: "(grpcContext \<Rightarrow> rpcError + grpcContext) \<Rightarrow> middlewareFunc" where
  "asMiddlewareFunc f ctx =
     Ret (case f (rcGrpc ctx) of Inl e \<Rightarrow> (ctx, Some e) | Inr g \<Rightarrow> (ctx\<lparr>rcGrpc := g\<rparr>, None))"

section \<open>Interceptors\<close>

record grpcOption =
  goTcpPort :: string
  goDebugMode :: bool
  goMaxLogSize :: nat

definition getDefaultOption :: grpcOption where
  "getDefaultOption = \<lparr>goTcpPort = '':8002'', goDebugMode = True, goMaxLogSize = 0\<rparr>"

definition HeaderDisableTrace :: string where "HeaderDisableTrace = ''X-Disable-Trace''"

text \<open>The loop of the chain: from the last interceptor to the first.\<close>

fun chainLoop :: "('i \<Rightarrow> 'h \<Rightarrow> 'h) \<Rightarrow> 'i list \<Rightarrow> nat \<Rightarrow> 'h \<Rightarrow> 'h" where
  "chainLoop chainer interceptors 0 chainedHandler = chainedHandler"
| "chainLoop chainer interceptors (Suc i) chainedHandler =
     chainLoop chainer interceptors i (chainer (interceptors ! i) chainedHandler)"

definition chainUnaryServer :: "('q, 'r, 's) unaryInterceptor list \<Rightarrow> ('q, 'r, 's) unaryInterceptor" where
  "chainUnaryServer interceptors ctx req info handler =
     (let chainer = (\<lambda>currentInter currentHandler currentCtx currentReq. currentInter currentCtx currentReq info currentHandler)
      in chainLoop chainer interceptors (length interceptors) handler ctx req)"

definition chainStreamServer :: "('v, 's) streamInterceptor list \<Rightarrow> ('v, 's) streamInterceptor" where
  "chainStreamServer interceptors srv ss info handler =
     (let chainer = (\<lambda>currentInter currentHandler currentSrv currentStream. currentInter currentSrv currentStream info currentHandler)
      in chainLoop chainer interceptors (length interceptors) handler srv ss)"

text \<open>A middleware is a function of the context, which may panic, refuse the call or hand on another context;
  what it does beside, to a database or a counter of its own, is not modelled.\<close>

fun runMiddlewares :: "middlewareFunc list \<Rightarrow> rpcCtx \<Rightarrow> (rpcCtx \<times> rpcError option) callOutcome" where
  "runMiddlewares [] ctx = Ret (ctx, None)"
| "runMiddlewares (mw # mws) ctx =
     (case mw ctx of
        Panics v \<Rightarrow> Panics v
      | Ret (ctx', Some e) \<Rightarrow> Ret (ctx', Some e)
      | Ret (ctx', None) \<Rightarrow> runMiddlewares mws ctx')"

definition middlewareInterceptor :: "middlewareGroup \<Rightarrow> rpcCtx \<Rightarrow> string \<Rightarrow> (rpcCtx \<times> rpcError option) callOutcome" where
  "middlewareInterceptor mwg ctx fullMethod =
     (case mwg fullMethod of Some middFunc \<Rightarrow> runMiddlewares middFunc ctx | None \<Rightarrow> Ret (ctx, None))"

definition unaryMiddlewareInterceptor :: "middlewareGroup \<Rightarrow> ('q, 'r, 's) unaryInterceptor" where
  "unaryMiddlewareInterceptor mwg ctx req info handler w =
     (case middlewareInterceptor mwg ctx info of
        Panics v \<Rightarrow> (Panics v, w)
      | Ret (ctx', Some e) \<Rightarrow> (Ret (None, Some (Status e)), w)
      | Ret (ctx', None) \<Rightarrow> handler ctx' req w)"

definition streamMiddlewareInterceptor :: "middlewareGroup \<Rightarrow> ('v, 's) streamInterceptor" where
  "streamMiddlewareInterceptor mwg srv stream info handler w =
     (case middlewareInterceptor mwg (ssContext stream) info of
        Panics v \<Rightarrow> (Panics v, w)
      | Ret (ctx', Some e) \<Rightarrow> (Ret (Some (Status e)), w)
      | Ret (ctx', None) \<Rightarrow> handler srv (wrappedServerStream stream ctx') w)"

definition logInterceptor :: "grpcOption \<Rightarrow> grpcError option \<Rightarrow> string \<Rightarrow> string \<Rightarrow> 's rpcWorld \<Rightarrow> 's rpcWorld" where
  "logInterceptor opt err fullMethod reqType w =
     (if \<not> goDebugMode opt then w
      else let status = (if err \<noteq> None then ''ERROR'' else ''OK'')
           in w\<lparr>rwStdout := rwStdout w @ [(reqType, status, fullMethod)]\<rparr>)"

text \<open>The first value of \<open>X-Disable-Trace\<close>; the metadata of gRPC has lower case keys.\<close>

definition isDisableTrace :: "httpHeader \<Rightarrow> bool" where
  "isDisableTrace meta =
     (case meta (ToLower HeaderDisableTrace) of [] \<Rightarrow> False | v # _ \<Rightarrow> ParseBool v)"

text \<open>The loop over the values keeps the last one of each key.\<close>

definition metadataHeader :: "httpHeader \<Rightarrow> (string \<rightharpoonup> string)" where
  "metadataHeader meta key = fold (\<lambda>value _. Some value) (meta key) None"

definition logBody :: "grpcOption \<Rightarrow> string option \<Rightarrow> string \<Rightarrow> string \<Rightarrow> 's rpcWorld \<Rightarrow> 's rpcWorld" where
  "logBody opt trace name body =
     (if length body < goMaxLogSize opt then onSpan trace (LogKey (name @ ''.body'') body)
      else onSpan trace (LogSize (name @ ''.body.size'') (length body)))"

text \<open>The deferred function of both tracing interceptors: a panic becomes the error \<open>Aborted\<close>.\<close>

definition tracerDefer :: "grpcOption \<Rightarrow> string option \<Rightarrow> string \<Rightarrow> string \<Rightarrow> string option \<Rightarrow> grpcError option \<Rightarrow> 's rpcWorld \<Rightarrow> grpcError option \<times> 's rpcWorld" where
  "tracerDefer opt trace fullMethod reqType rec err w =
     (let (err', w') = (case rec of None \<Rightarrow> (err, w) | Some v \<Rightarrow> (Some (Aborted v), onSpan trace (SetTag ''panic'' ''true'') w))
      in (err', onSpan trace (Finish err') (logInterceptor opt err' fullMethod reqType w')))"

definition unaryTracerInterceptor ::
  "activeTracer \<Rightarrow> grpcOption \<Rightarrow> (httpHeader \<Rightarrow> string) \<Rightarrow> ('q \<Rightarrow> string) \<Rightarrow> ('r option \<Rightarrow> string) \<Rightarrow> ('q, 'r, 's) unaryInterceptor" where
  "unaryTracerInterceptor active opt metaText reqBytes respBytes ctx req info handler w =
     (case gcMetadata (rcGrpc ctx) of
        None \<Rightarrow> handler ctx req w
      | Some meta \<Rightarrow>
          if isDisableTrace meta then handler ((SkipTraceContext ctx)\<lparr>rcDisableTrace := True\<rparr>) req w
          else
            (let (trace, ctx') = StartTraceFromHeader active ctx ''GRPC:Server'' (metadataHeader meta);
                 w1 = onSpan trace (SetTag ''method'' info) w;
                 w2 = onSpan trace (LogKey ''metadata'' (metaText meta)) w1;
                 w3 = logBody opt trace ''request'' (reqBytes req) w2
             in case handler ctx' req w3 of
                  (Ret (resp, err), w4) \<Rightarrow>
                    (let (err', w5) = tracerDefer opt trace info ''GRPC'' None err (logBody opt trace ''response'' (respBytes resp) w4)
                     in (Ret (resp, err'), w5))
                | (Panics v, w4) \<Rightarrow>
                    (let (err', w5) = tracerDefer opt trace info ''GRPC'' (Some v) None w4
                     in (Ret (None, err'), w5))))"

definition streamTracerInterceptor ::
  "activeTracer \<Rightarrow> grpcOption \<Rightarrow> (httpHeader \<Rightarrow> string) \<Rightarrow> ('v, 's) streamInterceptor" where
  "streamTracerInterceptor active opt metaText srv stream info handler w =
     (let ctx = ssContext stream
      in case gcMetadata (rcGrpc ctx) of
           None \<Rightarrow> handler srv stream w
         | Some meta \<Rightarrow>
             if isDisableTrace meta then handler srv (wrappedServerStream stream (SkipTraceContext ctx)) w
             else
               (let (trace, ctx') = StartTraceFromHeader active ctx ''GRPC:STREAM'' (metadataHeader meta);
                    w1 = onSpan trace (SetTag ''method'' info) w;
                    w2 = onSpan trace (LogKey ''metadata'' (metaText meta)) w1
                in case handler srv (wrappedServerStream stream ctx') w2 of
                     (Ret err, w3) \<Rightarrow>
                       (let (err', w4) = tracerDefer opt trace info ''GRPC:STREAM'' None err w3 in (Ret err', w4))
                   | (Panics v, w3) \<Rightarrow>
                       (let (err', w4) = tracerDefer opt trace info ''GRPC:STREAM'' (Some v) None w3 in (Ret err', w4))))"

text \<open>\<open>NewServer\<close> chains the two interceptors of each kind.\<close>

definition serveUnary ::
  "activeTracer \<Rightarrow> grpcOption \<Rightarrow> (httpHeader \<Rightarrow> string) \<Rightarrow> ('q \<Rightarrow> string) \<Rightarrow> ('r option \<Rightarrow> string) \<Rightarrow> middlewareGroup \<Rightarrow> ('q, 'r, 's) unaryInterceptor" where
  "serveUnary active opt metaText reqBytes respBytes mwg =
     chainUnaryServer [unaryTracerInterceptor active opt metaText reqBytes respBytes, unaryMiddlewareInterceptor mwg]"

definition serveStream ::
  "activeTracer \<Rightarrow> grpcOption \<Rightarrow> (httpHeader \<Rightarrow> string) \<Rightarrow> middlewareGroup \<Rightarrow> ('v, 's) streamInterceptor" where
  "serveStream active opt metaText mwg =
     chainStreamServer [streamTracerInterceptor active opt metaText, streamMiddlewareInterceptor mwg]"


section \<open>The contract of a chain\<close>

text \<open>What both kinds of calls rely on: the tracing interceptor runs the handler once, in a context that
  depends on the call alone, and hides no refusal; the guard either hands on a context or answers itself
  and leaves the state alone.\<close>

locale interceptor_chain =
  fixes enter :: "'c \<Rightarrow> 'c"
    and traced :: "('c \<Rightarrow> 'w \<Rightarrow> 'r \<times> 'w) \<Rightarrow> 'c \<Rightarrow> 'w \<Rightarrow> 'r \<times> 'w"
    and guard :: "('c \<Rightarrow> 'w \<Rightarrow> 'r \<times> 'w) \<Rightarrow> 'c \<Rightarrow> 'w \<Rightarrow> 'r \<times> 'w"
    and admits :: "'c \<Rightarrow> 'c option"
    and refused :: "'r \<Rightarrow> bool"
    and view :: "'w \<Rightarrow> 's"
  assumes traced_runs: "\<exists>v. view v = view w \<and> view (snd (traced h c w)) = view (snd (h (enter c) v))
      \<and> (refused (fst (h (enter c) v)) \<longrightarrow> refused (fst (traced h c w)))"
    and guard_admits: "admits c = Some d \<Longrightarrow> guard h c w = h d w"
    and guard_refuses: "admits c = None \<Longrightarrow> view (snd (guard h c w)) = view w \<and> refused (fst (guard h c w))"
begin

lemma handler_runs:
  assumes "admits (enter c) = Some d"
  shows "\<exists>v. view v = view w \<and> view (snd (traced (guard h) c w)) = view (snd (h d v))"
  using traced_runs [of w "guard h" c] guard_admits [OF assms] by auto

lemma handler_kept_out:
  assumes "admits (enter c) = None"
  shows "view (snd (traced (guard h) c w)) = view w \<and> refused (fst (traced (guard h) c w))"
proof -
  obtain v where v: "view v = view w" "view (snd (traced (guard h) c w)) = view (snd (guard h (enter c) v))"
      "refused (fst (guard h (enter c) v)) \<longrightarrow> refused (fst (traced (guard h) c w))"
    using traced_runs [of w "guard h" c] by blast
  then show ?thesis using guard_refuses [OF assms, of h v] by simp
qed

end

section \<open>Both kinds of calls\<close>

text \<open>A list of middlewares lets a context through as another one.\<close>

inductive passes :: "middlewareFunc list \<Rightarrow> rpcCtx \<Rightarrow> rpcCtx \<Rightarrow> bool" where
  pass_none: "passes [] ctx ctx"
| pass_next: "mw ctx = Ret (ctx1, None) \<Longrightarrow> passes mws ctx1 ctx2 \<Longrightarrow> passes (mw # mws) ctx ctx2"

inductive_simps passes_Nil [simp]: "passes [] ctx ctx'"
inductive_simps passes_Cons: "passes (mw # mws) ctx ctx'"

lemma runMiddlewares_passes: "runMiddlewares mws ctx = Ret (ctx', None) \<longleftrightarrow> passes mws ctx ctx'"
  by (induction mws ctx rule: runMiddlewares.induct)
    (auto simp: passes_Cons split: callOutcome.splits option.splits prod.splits)

text \<open>The context behind the middlewares of a method, if they let the call through.\<close>

definition admitted :: "middlewareGroup \<Rightarrow> string \<Rightarrow> rpcCtx \<Rightarrow> rpcCtx option" where
  "admitted mwg info ctx = (case middlewareInterceptor mwg ctx info of Ret (ctx', None) \<Rightarrow> Some ctx' | _ \<Rightarrow> None)"

lemma admitted_iff:
  "mwg info = Some mws \<Longrightarrow> admitted mwg info ctx = Some ctx' \<longleftrightarrow> passes mws ctx ctx'"
  by (auto simp: admitted_def middlewareInterceptor_def runMiddlewares_passes [symmetric]
      split: callOutcome.splits option.splits prod.splits)

lemma admitted_None_iff:
  "mwg info = Some mws \<Longrightarrow> admitted mwg info ctx = None \<longleftrightarrow> (\<forall>c. \<not> passes mws ctx c)"
  by (metis admitted_iff not_None_eq)

text \<open>The context that the tracing interceptor hands on.\<close>

definition traceContext :: "activeTracer \<Rightarrow> string \<Rightarrow> bool \<Rightarrow> rpcCtx \<Rightarrow> rpcCtx" where
  "traceContext active operationName markDisabled ctx =
     (case gcMetadata (rcGrpc ctx) of
        None \<Rightarrow> ctx
      | Some meta \<Rightarrow>
          if isDisableTrace meta then (SkipTraceContext ctx)\<lparr>rcDisableTrace := markDisabled \<or> rcDisableTrace ctx\<rparr>
          else snd (StartTraceFromHeader active ctx operationName (metadataHeader meta)))"

lemma chainLoop_foldr: "n \<le> length is \<Longrightarrow> chainLoop chainer is n h = foldr chainer (take n is) h"
proof (induction n arbitrary: h)
  case 0
  then show ?case by simp
next
  case (Suc n)
  then have "take (Suc n) is = take n is @ [is ! n]" by (simp add: take_Suc_conv_app_nth)
  with Suc show ?case by simp
qed

lemma onSpan_state [simp]: "rwState (onSpan trace e w) = rwState w"
  by (simp add: onSpan_def split: option.splits)

lemma logBody_state [simp]: "rwState (logBody opt trace name body w) = rwState w"
  by (simp add: logBody_def)

lemma logInterceptor_state [simp]: "rwState (logInterceptor opt err info kind w) = rwState w"
  by (simp add: logInterceptor_def Let_def)

lemma tracerDefer_state [simp]: "rwState (snd (tracerDefer opt trace info kind rec err w)) = rwState w"
  by (simp add: tracerDefer_def Let_def split: option.splits)

lemma tracerDefer_error [simp]:
  "fst (tracerDefer opt trace info kind rec err w) = (case rec of None \<Rightarrow> err | Some v \<Rightarrow> Some (Aborted v))"
  by (simp add: tracerDefer_def Let_def split: option.splits)

definition unaryRefused :: "'r reply callOutcome \<Rightarrow> bool" where
  "unaryRefused r \<longleftrightarrow> (case r of Ret (resp, err) \<Rightarrow> resp = None \<and> err \<noteq> None | Panics _ \<Rightarrow> True)"

definition streamRefused :: "grpcError option callOutcome \<Rightarrow> bool" where
  "streamRefused r \<longleftrightarrow> r \<noteq> Ret None"

lemma unary_traced_runs:
  "\<exists>v. rwState v = rwState w
     \<and> rwState (snd (unaryTracerInterceptor active opt mt qb rb c req info (\<lambda>c' q. h c') w))
       = rwState (snd (h (traceContext active ''GRPC:Server'' True c) v))
     \<and> (unaryRefused (fst (h (traceContext active ''GRPC:Server'' True c) v))
        \<longrightarrow> unaryRefused (fst (unaryTracerInterceptor active opt mt qb rb c req info (\<lambda>c' q. h c') w)))"
proof (cases "gcMetadata (rcGrpc c)")
  case None
  then show ?thesis by (auto simp: unaryTracerInterceptor_def traceContext_def)
next
  case (Some meta)
  show ?thesis
  proof (cases "isDisableTrace meta")
    case True
    with Some show ?thesis by (auto simp: unaryTracerInterceptor_def traceContext_def)
  next
    case False
    obtain trace c' where t: "StartTraceFromHeader active c ''GRPC:Server'' (metadataHeader meta) = (trace, c')" by fastforce
    define v where "v = logBody opt trace ''request'' (qb req) (onSpan trace (LogKey ''metadata'' (mt meta)) (onSpan trace (SetTag ''method'' info) w))"
    have "rwState v = rwState w" by (simp add: v_def)
    then show ?thesis using Some False t
      by (intro exI [of _ v]) (auto simp: unaryTracerInterceptor_def traceContext_def v_def [symmetric] unaryRefused_def
          split_beta split: prod.splits callOutcome.splits)
  qed
qed

lemma wrapped_simps [simp]:
  "wrappedServerStream s (ssContext s) = s"
  "ssContext (wrappedServerStream s c) = c"
  "wrappedServerStream (wrappedServerStream s c) c' = wrappedServerStream s c'"
  by (simp_all add: wrappedServerStream_def)

definition streamEnter :: "activeTracer \<Rightarrow> serverStream \<Rightarrow> serverStream" where
  "streamEnter active s = wrappedServerStream s (traceContext active ''GRPC:STREAM'' False (ssContext s))"

lemma stream_traced_runs:
  "\<exists>v. rwState v = rwState w
     \<and> rwState (snd (streamTracerInterceptor active opt mt srv s info (\<lambda>_ s'. h s') w)) = rwState (snd (h (streamEnter active s) v))
     \<and> (streamRefused (fst (h (streamEnter active s) v))
        \<longrightarrow> streamRefused (fst (streamTracerInterceptor active opt mt srv s info (\<lambda>_ s'. h s') w)))"
proof (cases "gcMetadata (rcGrpc (ssContext s))")
  case None
  then show ?thesis by (auto simp: streamTracerInterceptor_def streamEnter_def traceContext_def)
next
  case (Some meta)
  show ?thesis
  proof (cases "isDisableTrace meta")
    case True
    have "(SkipTraceContext (ssContext s))\<lparr>rcDisableTrace := rcDisableTrace (ssContext s)\<rparr> = SkipTraceContext (ssContext s)"
      by (simp add: SkipTraceContext_def)
    with Some True show ?thesis by (auto simp: streamTracerInterceptor_def streamEnter_def traceContext_def)
  next
    case False
    obtain trace c' where t: "StartTraceFromHeader active (ssContext s) ''GRPC:STREAM'' (metadataHeader meta) = (trace, c')" by fastforce
    define v where "v = onSpan trace (LogKey ''metadata'' (mt meta)) (onSpan trace (SetTag ''method'' info) w)"
    have "rwState v = rwState w" by (simp add: v_def)
    then show ?thesis using Some False t
      by (intro exI [of _ v]) (auto simp: streamTracerInterceptor_def streamEnter_def traceContext_def v_def [symmetric] streamRefused_def
          split_beta split: prod.splits callOutcome.splits)
  qed
qed

interpretation unary: interceptor_chain "traceContext active ''GRPC:Server'' True"
    "\<lambda>h c. unaryTracerInterceptor active opt metaText reqBytes respBytes c req info (\<lambda>c' _. h c')"
    "\<lambda>h c. unaryMiddlewareInterceptor mwg c req info (\<lambda>c' _. h c')" "admitted mwg info" unaryRefused rwState
  for active opt metaText reqBytes respBytes req info mwg
  by (unfold_locales, rule unary_traced_runs)
    (auto simp: admitted_def unaryMiddlewareInterceptor_def unaryRefused_def split: callOutcome.splits option.splits prod.splits)

interpretation stream: interceptor_chain "streamEnter active"
    "\<lambda>h s. streamTracerInterceptor active opt metaText srv s info (\<lambda>_ s'. h s')"
    "\<lambda>h s. streamMiddlewareInterceptor mwg srv s info (\<lambda>_ s'. h s')"
    "\<lambda>s. map_option (wrappedServerStream s) (admitted mwg info (ssContext s))" streamRefused rwState
  for active opt metaText srv info mwg
  by (unfold_locales, rule stream_traced_runs)
    (auto simp: admitted_def streamMiddlewareInterceptor_def streamRefused_def split: callOutcome.splits option.splits prod.splits)

lemma serveUnary_chain:
  "serveUnary active opt mt qb rb mwg ctx req info handler
   = unaryTracerInterceptor active opt mt qb rb ctx req info
       (\<lambda>c _. unaryMiddlewareInterceptor mwg c req info (\<lambda>c' _. handler c' req))"
  by (rule ext) (simp add: serveUnary_def chainUnaryServer_def chainLoop_foldr numeral_2_eq_2 unaryTracerInterceptor_def
      unaryMiddlewareInterceptor_def Let_def split: option.splits)

lemma serveStream_chain:
  "serveStream active opt mt mwg srv s info handler
   = streamTracerInterceptor active opt mt srv s info
       (\<lambda>_ s'. streamMiddlewareInterceptor mwg srv s' info (\<lambda>_ s''. handler srv s''))"
  by (rule ext) (simp add: serveStream_def chainStreamServer_def chainLoop_foldr numeral_2_eq_2 streamTracerInterceptor_def
      streamMiddlewareInterceptor_def Let_def split: option.splits)

section \<open>Properties\<close>

lemma unary_behind_middlewares:
  assumes "mwg info = Some mws"
  shows "(\<forall>c. passes mws (traceContext active ''GRPC:Server'' True ctx) c \<longrightarrow>
        (\<exists>v. rwState v = rwState w \<and>
          rwState (snd (serveUnary active opt mt qb rb mwg ctx req info handler w)) = rwState (snd (handler c req v))))
      \<and> ((\<nexists>c. passes mws (traceContext active ''GRPC:Server'' True ctx) c) \<longrightarrow>
        rwState (snd (serveUnary active opt mt qb rb mwg ctx req info handler w)) = rwState w
        \<and> unaryRefused (fst (serveUnary active opt mt qb rb mwg ctx req info handler w)))"
  unfolding serveUnary_chain
  using admitted_iff [of mwg info, OF assms] admitted_None_iff [of mwg info, OF assms]
  by (intro conjI allI impI unary.handler_runs [where h = "\<lambda>c. handler c req"]
      unary.handler_kept_out [where h = "\<lambda>c. handler c req", THEN conjunct1]
      unary.handler_kept_out [where h = "\<lambda>c. handler c req", THEN conjunct2]) auto

lemma stream_behind_middlewares:
  assumes "mwg info = Some mws"
  shows "(\<forall>c. passes mws (traceContext active ''GRPC:STREAM'' False (ssContext s)) c \<longrightarrow>
        (\<exists>v. rwState v = rwState w \<and>
          rwState (snd (serveStream active opt mt mwg srv s info handler w)) = rwState (snd (handler srv (wrappedServerStream s c) v))))
      \<and> ((\<nexists>c. passes mws (traceContext active ''GRPC:STREAM'' False (ssContext s)) c) \<longrightarrow>
        rwState (snd (serveStream active opt mt mwg srv s info handler w)) = rwState w
        \<and> streamRefused (fst (serveStream active opt mt mwg srv s info handler w)))"
  unfolding serveStream_chain
  using admitted_iff [of mwg info, OF assms] admitted_None_iff [of mwg info, OF assms]
  by (intro conjI allI impI stream.handler_runs [where h = "handler srv"]
      stream.handler_kept_out [where h = "handler srv", THEN conjunct1]
      stream.handler_kept_out [where h = "handler srv", THEN conjunct2]) (auto simp: streamEnter_def)

text \<open>C21: A gRPC handler, unary or streaming, runs only behind the middlewares registered for its method: when
  they all let the context through, one after the other, the state afterwards is that of one run of the
  handler in the context they made; otherwise the handler does not run, the state is as before and the
  answer is a refusal.\<close>

theorem grpc_handler_behind_middlewares:
  assumes "mwg info = Some mws"
  shows "(\<forall>c. passes mws (traceContext active ''GRPC:Server'' True ctx) c \<longrightarrow>
        (\<exists>v. rwState v = rwState w \<and>
          rwState (snd (serveUnary active opt mt qb rb mwg ctx req info handler w)) = rwState (snd (handler c req v))))
      \<and> ((\<nexists>c. passes mws (traceContext active ''GRPC:Server'' True ctx) c) \<longrightarrow>
        rwState (snd (serveUnary active opt mt qb rb mwg ctx req info handler w)) = rwState w
        \<and> unaryRefused (fst (serveUnary active opt mt qb rb mwg ctx req info handler w)))
      \<and> (\<forall>c. passes mws (traceContext active ''GRPC:STREAM'' False (ssContext s)) c \<longrightarrow>
        (\<exists>v. rwState v = rwState w \<and>
          rwState (snd (serveStream active opt mt mwg srv s info shandler w)) = rwState (snd (shandler srv (wrappedServerStream s c) v))))
      \<and> ((\<nexists>c. passes mws (traceContext active ''GRPC:STREAM'' False (ssContext s)) c) \<longrightarrow>
        rwState (snd (serveStream active opt mt mwg srv s info shandler w)) = rwState w
        \<and> streamRefused (fst (serveStream active opt mt mwg srv s info shandler w)))"
  using unary_behind_middlewares [of mwg info mws, OF assms, of active ctx w opt mt qb rb req handler]
    stream_behind_middlewares [of mwg info mws, OF assms, of active s w opt mt srv shandler]
  by blast

definition exRpc :: "string list \<Rightarrow> string list \<Rightarrow> rpcCtx" where
  "exRpc auth disable = \<lparr>rcGrpc = \<lparr>gcMetadata = Some ((\<lambda>_. [])(''authorization'' := auth, ''x-disable-trace'' := disable)), gcClaim = None\<rparr>,
     rcSkipTracer = False, rcDisableTrace = False, rcSpan = None\<rparr>"

definition exGuard :: middlewareFunc where
  "exGuard = asMiddlewareFunc (GRPCBasicAuth exAuth)"

definition exCount :: "(nat, nat, nat) unaryHandler" where
  "exCount c q w = (Ret (Some q, None), w\<lparr>rwState := rwState w + q\<rparr>)"

definition exStreamCount :: "(unit, nat) streamHandler" where
  "exStreamCount srv s w = (Ret None, w\<lparr>rwState := rwState w + 1\<rparr>)"

abbreviation exRpcWorld :: "nat rpcWorld" where
  "exRpcWorld \<equiv> \<lparr>rwState = 3, rwTrace = [], rwStdout = []\<rparr>"

lemma disableTrace_key: "ToLower HeaderDisableTrace = ''x-disable-trace''"
  by code_simp

lemma exRpc_context: "traceContext None op md (exRpc auth []) = exRpc auth []"
proof -
  have "\<not> isDisableTrace ((\<lambda>_. [])(''authorization'' := auth, ''x-disable-trace'' := []))"
    by (simp add: isDisableTrace_def disableTrace_key)
  then show ?thesis by (simp add: traceContext_def exRpc_def StartTraceFromHeader_def)
qed

lemma exGuard_accepts: "exGuard (exRpc [''Basic '' @ EncodeToString ''user:pass''] []) = Ret (exRpc [''Basic '' @ EncodeToString ''user:pass''] [], None)"
proof -
  let ?g = "rcGrpc (exRpc [''Basic '' @ EncodeToString ''user:pass''] [])"
  have a: "extractAuthorizationGRPCMetadata ?g = Inr (''Basic '' @ EncodeToString ''user:pass'')"
    by (simp add: extractAuthorizationGRPCMetadata_def exRpc_def)
  have b: "extractAuthType BASIC (''Basic '' @ EncodeToString ''user:pass'') = Inr (EncodeToString ''user:pass'')" by code_simp
  have c: "Basic exAuth (EncodeToString ''user:pass'') = None" by code_simp
  show ?thesis by (simp add: exGuard_def asMiddlewareFunc_def GRPCBasicAuth_def a b c del: EncodeToString.simps append.simps)
qed

lemma exGuard_refuses: "exGuard (exRpc [] []) = Ret (exRpc [] [], Some (Unauthenticated ''Invalid authorization''))"
  by (simp add: exGuard_def asMiddlewareFunc_def GRPCBasicAuth_def extractAuthorizationGRPCMetadata_def exRpc_def)

theorem grpc_handler_behind_middlewares_witness:
  "rwState (snd (serveUnary None getDefaultOption (\<lambda>_. []) (\<lambda>_. []) (\<lambda>_. []) [''/svc/Get'' \<mapsto> [exGuard]]
      (exRpc [''Basic '' @ EncodeToString ''user:pass''] []) 4 ''/svc/Get'' exCount exRpcWorld)) = 7
   \<and> rwState (snd (serveStream None getDefaultOption (\<lambda>_. []) [''/svc/Get'' \<mapsto> [exGuard]]
      () \<lparr>ssContext = exRpc [] [], ssPeer = 0\<rparr> ''/svc/Get'' exStreamCount exRpcWorld)) = 3"
proof -
  let ?mwg = "[''/svc/Get'' \<mapsto> [exGuard]]" and ?ok = "exRpc [''Basic '' @ EncodeToString ''user:pass''] []"
  let ?s = "\<lparr>ssContext = exRpc [] [], ssPeer = 0\<rparr>"
  have m: "?mwg ''/svc/Get'' = Some [exGuard]" by simp
  have ok: "passes [exGuard] (traceContext None ''GRPC:Server'' True ?ok) ?ok"
    unfolding exRpc_context by (simp only: passes_Cons passes_Nil exGuard_accepts) simp
  have no: "\<nexists>c. passes [exGuard] (traceContext None ''GRPC:STREAM'' False (ssContext ?s)) c"
    by (simp add: exRpc_context passes_Cons exGuard_refuses)
  note guarded = grpc_handler_behind_middlewares [of ?mwg "''/svc/Get''", OF m, where active = None and opt = getDefaultOption
      and mt = "\<lambda>_. []" and qb = "\<lambda>_. []" and rb = "\<lambda>_. []" and ctx = ?ok and w = exRpcWorld and req = 4 and handler = exCount
      and s = ?s and srv = "()" and shandler = exStreamCount]
  from guarded ok obtain v where "rwState v = rwState exRpcWorld"
    "rwState (snd (serveUnary None getDefaultOption (\<lambda>_. []) (\<lambda>_. []) (\<lambda>_. []) ?mwg ?ok 4 ''/svc/Get'' exCount exRpcWorld)) = rwState (snd (exCount ?ok 4 v))"
    by blast
  then show ?thesis using guarded no by (simp add: exCount_def)
qed

text \<open>C36: A panic below the tracing interceptor, in a middleware or in the handler, reaches the client as the
  error \<open>Aborted\<close> and not the server, unary or streaming, exactly when the call is traced: without metadata,
  or with a true \<open>X-Disable-Trace\<close> in it, which the client decides, the same panic leaves the interceptors,
  and nothing above recovers it.\<close>

theorem grpc_panic_recovered_unless_untraced:
  assumes "ssContext s = ctx"
    and "\<And>c q v. fst (unaryMiddlewareInterceptor mwg c q info handler v) = Panics p"
    and "\<And>v' c u. fst (streamMiddlewareInterceptor mwg v' c info shandler u) = Panics p"
  shows "fst (serveUnary active opt mt qb rb mwg ctx req info handler w)
           = (case gcMetadata (rcGrpc ctx) of None \<Rightarrow> Panics p
              | Some meta \<Rightarrow> if isDisableTrace meta then Panics p else Ret (None, Some (Aborted p)))
       \<and> fst (serveStream active opt mt mwg srv s info shandler w)
           = (case gcMetadata (rcGrpc ctx) of None \<Rightarrow> Panics p
              | Some meta \<Rightarrow> if isDisableTrace meta then Panics p else Ret (Some (Aborted p)))"
proof
  show "fst (serveUnary active opt mt qb rb mwg ctx req info handler w)
           = (case gcMetadata (rcGrpc ctx) of None \<Rightarrow> Panics p
              | Some meta \<Rightarrow> if isDisableTrace meta then Panics p else Ret (None, Some (Aborted p)))"
    by (cases "gcMetadata (rcGrpc ctx)") (simp_all add: serveUnary_def chainUnaryServer_def chainLoop_foldr numeral_2_eq_2
        unaryTracerInterceptor_def assms(2) split_beta Let_def)
  show "fst (serveStream active opt mt mwg srv s info shandler w)
           = (case gcMetadata (rcGrpc ctx) of None \<Rightarrow> Panics p
              | Some meta \<Rightarrow> if isDisableTrace meta then Panics p else Ret (Some (Aborted p)))"
    using assms(1) by (cases "gcMetadata (rcGrpc ctx)") (simp_all add: serveStream_def chainStreamServer_def chainLoop_foldr numeral_2_eq_2
        streamTracerInterceptor_def assms(3) split_beta Let_def)
qed

definition exPanic :: "(nat, nat, nat) unaryHandler" where
  "exPanic c q w = (Panics ''nil pointer'', w)"

definition exStreamPanic :: "(unit, nat) streamHandler" where
  "exStreamPanic srv s w = (Panics ''nil pointer'', w)"

definition exNoMetadata :: rpcCtx where
  "exNoMetadata = (exRpc [] [])\<lparr>rcGrpc := \<lparr>gcMetadata = None, gcClaim = None\<rparr>\<rparr>"

theorem grpc_panic_recovered_unless_untraced_witness:
  "fst (serveUnary None getDefaultOption (\<lambda>_. []) (\<lambda>_. []) (\<lambda>_. []) Map.empty (exRpc [] []) 4 ''/svc/Get'' exPanic exRpcWorld)
      = Ret (None, Some (Aborted ''nil pointer''))
   \<and> fst (serveUnary None getDefaultOption (\<lambda>_. []) (\<lambda>_. []) (\<lambda>_. []) Map.empty (exRpc [] [''true'']) 4 ''/svc/Get'' exPanic exRpcWorld)
      = Panics ''nil pointer''
   \<and> fst (serveUnary None getDefaultOption (\<lambda>_. []) (\<lambda>_. []) (\<lambda>_. []) Map.empty exNoMetadata 4 ''/svc/Get'' exPanic exRpcWorld)
      = Panics ''nil pointer''"
proof -
  have u: "fst (unaryMiddlewareInterceptor Map.empty c q ''/svc/Get'' exPanic v) = Panics ''nil pointer''" for c q v
    by (simp add: unaryMiddlewareInterceptor_def middlewareInterceptor_def exPanic_def)
  have s: "fst (streamMiddlewareInterceptor Map.empty v c ''/svc/Get'' exStreamPanic u) = Panics ''nil pointer''" for v c u
    by (simp add: streamMiddlewareInterceptor_def middlewareInterceptor_def exStreamPanic_def)
  let ?meta = "\<lambda>d. (\<lambda>_. [])(''authorization'' := [], ''x-disable-trace'' := d)"
  have d: "\<not> isDisableTrace (?meta [])" "isDisableTrace (?meta [''true''])"
    by (simp_all add: isDisableTrace_def disableTrace_key ParseBool_def)
  have g: "gcMetadata (rcGrpc (exRpc [] x)) = Some (?meta x)" "gcMetadata (rcGrpc exNoMetadata) = None" for x
    by (simp_all add: exRpc_def exNoMetadata_def)
  note panic = grpc_panic_recovered_unless_untraced [OF _ u s]
  show ?thesis
    using panic [of "\<lparr>ssContext = exRpc [] [], ssPeer = 0\<rparr>" "exRpc [] []"]
      panic [of "\<lparr>ssContext = exRpc [] [''true''], ssPeer = 0\<rparr>" "exRpc [] [''true'']"]
      panic [of "\<lparr>ssContext = exNoMetadata, ssPeer = 0\<rparr>" exNoMetadata] d g
    by simp
qed

end
