(* ===== verification/Go_Strings.thy ===== *)
theory Go_Strings
  imports Go_Base
begin

text \<open>
  More of Go's package \<open>strings\<close>: prefixes, suffixes, trimming, searching and replacing.  The searched
  string of \<open>ReplaceAll\<close> is not empty wherever the source calls it.
\<close>

definition HasSuffix :: "string \<Rightarrow> string \<Rightarrow> bool" where
  "HasSuffix s suf = HasPrefix (rev s) (rev suf)"

definition TrimPrefix :: "string \<Rightarrow> string \<Rightarrow> string" where
  "TrimPrefix s pre = (if HasPrefix s pre then drop (length pre) s else s)"

definition TrimSuffix :: "string \<Rightarrow> string \<Rightarrow> string" where
  "TrimSuffix s suf = (if HasSuffix s suf then take (length s - length suf) s else s)"

text \<open>\<open>strings.Trim\<close> with a cut set of bytes.\<close>

definition TrimCut :: "char list \<Rightarrow> string \<Rightarrow> string" where
  "TrimCut cutset s = rev (dropWhile (\<lambda>c. c \<in> set cutset) (rev (dropWhile (\<lambda>c. c \<in> set cutset) s)))"

fun Contains :: "string \<Rightarrow> string \<Rightarrow> bool" where
  "Contains [] sub \<longleftrightarrow> sub = []"
| "Contains (c # cs) sub \<longleftrightarrow> HasPrefix (c # cs) sub \<or> Contains cs sub"

fun ReplaceAll :: "string \<Rightarrow> string \<Rightarrow> string \<Rightarrow> string" where
  "ReplaceAll old new [] = []"
| "ReplaceAll old new (c # cs) =
     (if old \<noteq> [] \<and> HasPrefix (c # cs) old then new @ ReplaceAll old new (drop (length old - 1) cs)
      else c # ReplaceAll old new cs)"

lemma HasPrefix_iff: "HasPrefix s pre \<longleftrightarrow> (\<exists>r. s = pre @ r)"
  by (induction s pre rule: HasPrefix.induct) auto

lemma HasPrefix_of_append [simp]: "HasPrefix (pre @ r) pre"
  by (auto simp: HasPrefix_iff)

lemma HasSuffix_iff: "HasSuffix s suf \<longleftrightarrow> (\<exists>r. s = r @ suf)"
proof
  assume "HasSuffix s suf"
  then obtain r where "rev s = rev suf @ r" by (auto simp: HasSuffix_def HasPrefix_iff)
  then have "s = rev r @ suf" by (metis rev_append rev_rev_ident)
  then show "\<exists>r. s = r @ suf" ..
qed (auto simp: HasSuffix_def)

lemma TrimPrefix_append [simp]: "TrimPrefix (pre @ s) pre = s"
  by (simp add: TrimPrefix_def)

lemma TrimSuffix_append [simp]: "TrimSuffix (s @ suf) suf = s"
  by (auto simp: TrimSuffix_def HasSuffix_iff)

lemma Contains_iff: "Contains s sub \<longleftrightarrow> (\<exists>a b. s = a @ sub @ b)"
proof (induction s)
  case Nil
  then show ?case by auto
next
  case (Cons c cs)
  show ?case
  proof
    assume "Contains (c # cs) sub"
    then consider "HasPrefix (c # cs) sub" | "Contains cs sub" by auto
    then show "\<exists>a b. c # cs = a @ sub @ b"
    proof cases
      case 1
      then show ?thesis by (metis HasPrefix_iff append_Nil)
    next
      case 2
      then show ?thesis using Cons by (metis append_Cons)
    qed
  next
    assume "\<exists>a b. c # cs = a @ sub @ b"
    then obtain a b where e: "c # cs = a @ sub @ b" by blast
    show "Contains (c # cs) sub"
    proof (cases a)
      case Nil
      then have "HasPrefix (c # cs) sub" using e by (auto simp: HasPrefix_iff)
      then show ?thesis by simp
    next
      case (Cons x a')
      then have "cs = a' @ sub @ b" using e by simp
      then show ?thesis using Cons.IH by auto
    qed
  qed
qed

lemma ReplaceAll_absent: "old \<noteq> [] \<Longrightarrow> \<not> Contains s old \<Longrightarrow> ReplaceAll old new s = s"
  by (induction s) auto

text \<open>A text without the searched string before it and after it, so that no occurrence straddles: the first
  occurrence is the one that is replaced.\<close>

lemma ReplaceAll_first:
  assumes "old \<noteq> []" "\<And>i. i < length a \<Longrightarrow> \<not> HasPrefix (drop i (a @ old @ b)) old"
  shows "ReplaceAll old new (a @ old @ b) = a @ new @ ReplaceAll old new b"
  using assms
proof (induction a)
  case Nil
  then obtain o1 os where "old = o1 # os" by (cases old) auto
  moreover have "HasPrefix (old @ b) old" by simp
  ultimately show ?case by simp
next
  case (Cons x a)
  have "\<not> HasPrefix (x # a @ old @ b) old" using Cons.prems(2) [of 0] by simp
  moreover have "ReplaceAll old new (a @ old @ b) = a @ new @ ReplaceAll old new b"
    using Cons.IH [OF Cons.prems(1)] Cons.prems(2) [of "Suc _"] by auto
  ultimately show ?case by simp
qed

end
