(* ===== verification/Candi_Validator.thy ===== *)
theory Candi_Validator
  imports Go_Strings Candi_Shared
begin

text \<open>
  The JSON schema validator (\<open>src/validator\<close>): the storages of schemas with the walk that fills them, and the
  validation of a document against a stored schema.  A directory is the list of entries in the order of
  the walk.  The JSON decoder, the schema library and the contents of files at a later time are
  arguments.
\<close>

section \<open>The walk over a directory\<close>

text \<open>What the walk reports: an entry that cannot be read, a directory, or a file with its path, its name and
  what reading it gives.\<close>

datatype walkEntry =
    WalkError string
  | WalkDir string
  | WalkFile string string "string + string"

text \<open>\<open>filepath.Walk\<close> calls the function on one entry after the other and stops at the first error, which it
  returns.\<close>

fun Walk :: "(walkEntry \<Rightarrow> 's \<Rightarrow> string option \<times> 's) \<Rightarrow> walkEntry list \<Rightarrow> 's \<Rightarrow> string option \<times> 's" where
  "Walk f [] s = (None, s)"
| "Walk f (e # es) s =
     (case f e s of
        (Some err, s') \<Rightarrow> (Some err, s')
      | (None, s') \<Rightarrow> Walk f es s')"

text \<open>What decoding a schema gives: an error, or the member \<open>$id\<close> if it is a string.\<close>

type_synonym schemaDecoder = "string \<Rightarrow> string + string option"

definition schemaID :: "string \<Rightarrow> string \<Rightarrow> string option \<Rightarrow> string" where
  "schemaID root p dataID =
     (case dataID of
        Some sid \<Rightarrow> sid
      | None \<Rightarrow> TrimCut ''/'' (TrimSuffix (TrimPrefix p root) ''.json''))"

text \<open>The function of the walk, the same in the three constructors but for what it does with an entry that
  cannot be read and with an id, its path and its text.\<close>

definition onSchemaFile :: "schemaDecoder \<Rightarrow> string \<Rightarrow> (string \<Rightarrow> string \<Rightarrow> string \<Rightarrow> 's \<Rightarrow> 's) \<Rightarrow> walkEntry \<Rightarrow> 's \<Rightarrow> string option \<times> 's" where
  "onSchemaFile decode root keep e s =
     (case e of
        WalkError err \<Rightarrow> (Some err, s)
      | WalkDir _ \<Rightarrow> (None, s)
      | WalkFile p fileName content \<Rightarrow>
          if \<not> HasSuffix fileName ''.json'' then (None, s)
          else (case content of
                  Inl err \<Rightarrow> (Some (fileName @ '': '' @ err), s)
                | Inr text \<Rightarrow>
                    (case decode text of
                       Inl err \<Rightarrow> (Some (fileName @ '': '' @ err), s)
                     | Inr dataID \<Rightarrow> (None, keep (schemaID root p dataID) p text s))))"

section \<open>The storages\<close>

text \<open>The file storage keeps the path of every schema and reads the file when it is asked.\<close>

type_synonym kvStorage = "string \<rightharpoonup> string"

definition notFound :: "string \<Rightarrow> string" where
  "notFound sid = ''schema '' @ [CHR 0x27] @ sid @ [CHR 0x27] @ '' not found''"

definition fileLocal_Store :: "string \<Rightarrow> string \<Rightarrow> kvStorage \<Rightarrow> kvStorage" where
  "fileLocal_Store sid schema kv = kv(sid \<mapsto> schema)"

definition fileLocal_Get :: "(string \<rightharpoonup> string) \<Rightarrow> string \<Rightarrow> kvStorage \<Rightarrow> string + string" where
  "fileLocal_Get readFile sid kv =
     (case kv sid of
        None \<Rightarrow> Inl (notFound sid)
      | Some path \<Rightarrow> (case readFile path of None \<Rightarrow> Inl (notFound sid) | Some schema \<Rightarrow> Inr schema))"

definition NewFileLocalStorage :: "schemaDecoder \<Rightarrow> string \<Rightarrow> walkEntry list \<Rightarrow> kvStorage" where
  "NewFileLocalStorage decode dir es = snd (Walk (onSchemaFile decode dir (\<lambda>sid p text. fileLocal_Store sid p)) es Map.empty)"

definition inMem_Store :: "string \<Rightarrow> string \<Rightarrow> kvStorage \<Rightarrow> kvStorage" where
  "inMem_Store sid schema kv = kv(sid \<mapsto> schema)"

definition inMem_Get :: "string \<Rightarrow> kvStorage \<Rightarrow> string + string" where
  "inMem_Get sid kv = (case kv sid of None \<Rightarrow> Inl (notFound sid) | Some schema \<Rightarrow> Inr schema)"

definition NewInMemStorage :: "schemaDecoder \<Rightarrow> string \<Rightarrow> walkEntry list \<Rightarrow> kvStorage" where
  "NewInMemStorage decode dir es = snd (Walk (onSchemaFile decode dir (\<lambda>sid p text. inMem_Store sid text)) es Map.empty)"

definition fs_keep :: "string \<Rightarrow> string \<Rightarrow> string \<Rightarrow> kvStorage option \<Rightarrow> kvStorage option" where
  "fs_keep sid path text = map_option (\<lambda>sourceMap. sourceMap(sid \<mapsto> path))"

text \<open>The storage over a file system panics when an entry cannot be read (\<open>None\<close>), and storing does nothing.\<close>

definition fs_onEntry :: "schemaDecoder \<Rightarrow> string \<Rightarrow> walkEntry \<Rightarrow> kvStorage option \<Rightarrow> string option \<times> kvStorage option" where
  "fs_onEntry decode root e s =
     (case e of
        WalkError err \<Rightarrow> (Some (''json schema: '' @ err), None)
      | _ \<Rightarrow> onSchemaFile decode root fs_keep e s)"

definition NewFileSystemStorage :: "schemaDecoder \<Rightarrow> string \<Rightarrow> walkEntry list \<Rightarrow> kvStorage option" where
  "NewFileSystemStorage decode root es = snd (Walk (fs_onEntry decode root) es (Some Map.empty))"

definition fs_Get :: "(string \<Rightarrow> string + string) \<Rightarrow> string \<Rightarrow> kvStorage \<Rightarrow> string + string" where
  "fs_Get readFile sid sourceMap =
     (case sourceMap sid of None \<Rightarrow> Inl (notFound sid) | Some schemaPath \<Rightarrow> readFile schemaPath)"

definition fs_Store :: "string \<Rightarrow> string \<Rightarrow> kvStorage \<Rightarrow> kvStorage" where
  "fs_Store sid schema sourceMap = sourceMap"

section \<open>Validation\<close>

record jsonSchemaValidator =
  jvSchemaStorage :: "string \<Rightarrow> string + string"
  jvNotShowErrorListType :: "string list"

definition NewJSONSchemaValidator :: "(string \<Rightarrow> string + string) \<Rightarrow> (jsonSchemaValidator \<Rightarrow> jsonSchemaValidator) list \<Rightarrow> jsonSchemaValidator" where
  "NewJSONSchemaValidator defaultStorage opts =
     foldl (\<lambda>v opt. opt v) \<lparr>jvSchemaStorage = defaultStorage, jvNotShowErrorListType = [''condition_else'', ''condition_then'']\<rparr> opts"

definition SetSchemaStorageJSONSchemaValidatorOption :: "(string \<Rightarrow> string + string) \<Rightarrow> jsonSchemaValidator \<Rightarrow> jsonSchemaValidator" where
  "SetSchemaStorageJSONSchemaValidatorOption s v = v\<lparr>jvSchemaStorage := s\<rparr>"

definition AddHideErrorListTypeJSONSchemaValidatorOption :: "string list \<Rightarrow> jsonSchemaValidator \<Rightarrow> jsonSchemaValidator" where
  "AddHideErrorListTypeJSONSchemaValidatorOption descType v =
     foldl (\<lambda>v e. v\<lparr>jvNotShowErrorListType := List.insert e (jvNotShowErrorListType v)\<rparr>) v descType"

text \<open>One error of the schema library: its type, its field, the property of its details and its
  description.\<close>

record resultError =
  rsType :: string
  rsField :: string
  rsProperty :: string
  rsDescription :: string

datatype validateError = PlainErr string | FieldErrors sharedError

definition errorField :: "resultError \<Rightarrow> string" where
  "errorField desc =
     (let field = rsField desc
      in if rsType desc = ''required'' \<or> rsType desc = ''additional_property_not_allowed''
         then TrimPrefix (field @ ''.'' @ rsProperty desc) ''(root).''
         else field)"

definition collectErrors :: "string list \<Rightarrow> resultError list \<Rightarrow> sharedError" where
  "collectErrors hidden descs =
     foldl (\<lambda>m desc. if rsType desc \<in> set hidden then m else sharedAppend m (errorField desc) (Some (rsDescription desc))) NewSharedError descs"

text \<open>The library compiles a schema and gives the errors of a document; a document is valid when there are
  none.\<close>

definition ValidateDocument ::
  "(string \<Rightarrow> string + 'sch) \<Rightarrow> ('sch \<Rightarrow> string \<Rightarrow> string + resultError list) \<Rightarrow> string \<Rightarrow> jsonSchemaValidator \<Rightarrow> string \<Rightarrow> string \<Rightarrow> validateError option" where
  "ValidateDocument newSchema validate workdir v schemaSource document =
     (case jvSchemaStorage v schemaSource of
        Inl err \<Rightarrow> Some (PlainErr err)
      | Inr s \<Rightarrow>
          (case newSchema (ReplaceAll ''{{WORKDIR}}'' workdir s) of
             Inl err \<Rightarrow> Some (PlainErr err)
           | Inr schema \<Rightarrow>
               (case validate schema document of
                  Inl err \<Rightarrow> Some (PlainErr err)
                | Inr descs \<Rightarrow>
                    if descs \<noteq> [] then
                      (let multiError = collectErrors (jvNotShowErrorListType v) descs
                       in if sharedHasError multiError then Some (FieldErrors multiError) else None)
                    else None)))"

section \<open>The contract of a storage\<close>

text \<open>What a client of a storage expects: what was stored under an id is what the id gives, and other ids keep
  their schema.  What a stored value stands for differs between the storages.\<close>

locale schema_storage =
  fixes store :: "string \<Rightarrow> 'v \<Rightarrow> 's \<Rightarrow> 's"
    and get :: "string \<Rightarrow> 's \<Rightarrow> string + string"
    and meaning :: "'v \<Rightarrow> string option"
    and blank :: 's
  assumes get_store: "get i (store j v s) =
      (if i = j then case meaning v of None \<Rightarrow> Inl (notFound i) | Some t \<Rightarrow> Inr t else get i s)"
    and get_blank: "get i blank = Inl (notFound i)"
begin

lemma get_stores:
  "get i (foldl (\<lambda>s (j, v). store j v s) s xs) =
     (case map_of (rev xs) i of
        None \<Rightarrow> get i s
      | Some v \<Rightarrow> (case meaning v of None \<Rightarrow> Inl (notFound i) | Some t \<Rightarrow> Inr t))"
proof (induction xs rule: rev_induct)
  case Nil
  then show ?case by simp
next
  case (snoc x xs)
  obtain j v where "x = (j, v)" by fastforce
  with snoc show ?case by (auto simp: get_store)
qed

end

interpretation inMem: schema_storage inMem_Store inMem_Get Some Map.empty
  by unfold_locales (simp_all add: inMem_Store_def inMem_Get_def)

interpretation fileLocal: schema_storage fileLocal_Store "fileLocal_Get readFile" readFile Map.empty for readFile
  by unfold_locales (simp_all add: fileLocal_Store_def fileLocal_Get_def)

text \<open>The schemas that the walk reaches: those before the first entry that fails.\<close>

fun schemasBeforeError :: "schemaDecoder \<Rightarrow> string \<Rightarrow> walkEntry list \<Rightarrow> (string \<times> string \<times> string) list" where
  "schemasBeforeError decode root [] = []"
| "schemasBeforeError decode root (WalkError err # es) = []"
| "schemasBeforeError decode root (WalkDir d # es) = schemasBeforeError decode root es"
| "schemasBeforeError decode root (WalkFile p n c # es) =
     (if \<not> HasSuffix n ''.json'' then schemasBeforeError decode root es
      else case c of
             Inl _ \<Rightarrow> []
           | Inr t \<Rightarrow> (case decode t of
                        Inl _ \<Rightarrow> []
                      | Inr d \<Rightarrow> (schemaID root p d, p, t) # schemasBeforeError decode root es))"

lemma Walk_schemas:
  "snd (Walk (onSchemaFile decode root keep) es s)
   = foldl (\<lambda>s (i, p, t). keep i p t s) s (schemasBeforeError decode root es)"
  by (induction decode root es arbitrary: s rule: schemasBeforeError.induct)
    (auto simp: onSchemaFile_def split: sum.splits)

lemma Walk_fs:
  assumes "\<forall>err. WalkError err \<notin> set es"
  shows "Walk (fs_onEntry decode root) es s
    = Walk (onSchemaFile decode root fs_keep) es s"
  using assms
proof (induction es arbitrary: s)
  case Nil
  then show ?case by simp
next
  case (Cons e es)
  then have "fs_onEntry decode root e s = onSchemaFile decode root fs_keep e s" for s
    by (auto simp: fs_onEntry_def split: walkEntry.splits)
  with Cons show ?case by (simp split: prod.splits option.splits)
qed

lemma NewFileSystemStorage_eq:
  assumes "\<forall>err. WalkError err \<notin> set es"
  shows "NewFileSystemStorage decode root es = Some (NewFileLocalStorage decode root es)"
proof -
  have "foldl (\<lambda>s (i, p, t). fs_keep i p t s) (Some m) xs
      = Some (foldl (\<lambda>s (i, p, t). s(i \<mapsto> p)) m xs)" for m :: kvStorage and xs :: "(string \<times> string \<times> string) list"
    by (induction xs arbitrary: m) (auto simp: fs_keep_def)
  then show ?thesis
    by (simp add: NewFileSystemStorage_def NewFileLocalStorage_def Walk_fs [OF assms] Walk_schemas fileLocal_Store_def)
qed

lemma schemas_read:
  "(i, p, t) \<in> set (schemasBeforeError decode root es) \<Longrightarrow> \<exists>n. WalkFile p n (Inr t) \<in> set es"
proof (induction es)
  case (Cons e es)
  show ?case
  proof (cases e)
    case (WalkFile q n c)
    with Cons show ?thesis by (cases c; cases "decode (projr c)") (auto split: if_splits sum.splits)
  qed (use Cons in auto)
qed simp

lemma foldl_pairs: "foldl (\<lambda>s (i, p, t). f i (g p t) s) s xs = foldl (\<lambda>s (i, v). f i v s) s (map (\<lambda>(i, p, t). (i, g p t)) xs)"
  by (induction xs arbitrary: s) auto

lemma inMem_answer:
  "inMem_Get i (NewInMemStorage decode root es) =
     (case map_of (rev (map (\<lambda>(i, p, t). (i, t)) (schemasBeforeError decode root es))) i of
        None \<Rightarrow> Inl (notFound i) | Some t \<Rightarrow> Inr t)"
  unfolding NewInMemStorage_def Walk_schemas
  using foldl_pairs [of inMem_Store "\<lambda>p t. t" Map.empty "schemasBeforeError decode root es"]
  by (simp add: inMem.get_stores inMem.get_blank split: option.splits)

lemma fileLocal_answer:
  "fileLocal_Get readFile i (NewFileLocalStorage decode root es) =
     (case map_of (rev (map (\<lambda>(i, p, t). (i, p)) (schemasBeforeError decode root es))) i of
        None \<Rightarrow> Inl (notFound i)
      | Some p \<Rightarrow> (case readFile p of None \<Rightarrow> Inl (notFound i) | Some t \<Rightarrow> Inr t))"
  unfolding NewFileLocalStorage_def Walk_schemas
  using foldl_pairs [of fileLocal_Store "\<lambda>p t. p" Map.empty "schemasBeforeError decode root es"]
  by (simp add: fileLocal.get_stores fileLocal.get_blank split: option.splits)

lemma map_of_read:
  assumes "\<And>i p t. (i, p, t) \<in> set xs \<Longrightarrow> readFile p = Some t"
  shows "map_of (map (\<lambda>(i, p, t). (i, t)) xs) i = Option.bind (map_of (map (\<lambda>(i, p, t). (i, p)) xs) i) readFile"
  using assms
proof (induction xs)
  case (Cons x xs)
  obtain j p t where x: "x = (j, p, t)" by (cases x)
  then have "readFile p = Some t" using Cons.prems [of j p t] by simp
  with Cons x show ?case by auto
qed simp

lemma NewFileLocalStorage_lookup:
  "NewFileLocalStorage decode root es i = map_of (rev (map (\<lambda>(i, p, t). (i, p)) (schemasBeforeError decode root es))) i"
proof -
  have "foldl (\<lambda>s (i, p, t). s(i \<mapsto> p)) m xs = m ++ map_of (rev (map (\<lambda>(i, p, t). (i, p)) xs))"
    for m :: kvStorage and xs :: "(string \<times> string \<times> string) list"
    by (induction xs arbitrary: m) (auto simp: map_add_def fun_eq_iff split: option.splits)
  then show ?thesis by (simp add: NewFileLocalStorage_def Walk_schemas fileLocal_Store_def)
qed

lemma Walk_stops:
  assumes "\<And>s. f e s = (Some err, s)"
  shows "snd (Walk f (es @ e # later) s) = snd (Walk f es s)"
  using assms by (induction es arbitrary: s) (auto split: prod.splits option.splits)

lemma collectErrors_snoc:
  "collectErrors hidden (ds @ [d]) =
     (if rsType d \<in> set hidden then collectErrors hidden ds
      else AList.update (errorField d) (rsDescription d) (collectErrors hidden ds))"
  by (simp add: collectErrors_def sharedAppend_def)

lemma collectErrors_lookup:
  "map_of (collectErrors hidden ds) f =
     map_of (rev (map (\<lambda>d. (errorField d, rsDescription d)) (filter (\<lambda>d. rsType d \<notin> set hidden) ds))) f"
proof (induction ds rule: rev_induct)
  case Nil
  then show ?case by (simp add: collectErrors_def NewSharedError_def)
next
  case (snoc d ds)
  then show ?case by (simp add: collectErrors_snoc update_conv')
qed

lemma collectErrors_empty_iff: "collectErrors hidden ds = [] \<longleftrightarrow> (\<forall>d \<in> set ds. rsType d \<in> set hidden)"
proof (induction ds rule: rev_induct)
  case Nil
  then show ?case by (simp add: collectErrors_def NewSharedError_def)
next
  case (snoc d ds)
  have "AList.update k v m \<noteq> []" for k v and m :: sharedError by (cases m) auto
  with snoc show ?case by (simp add: collectErrors_snoc)
qed

section \<open>Properties\<close>

text \<open>C33: The three storages answer alike: over one directory that does not change, the storage that keeps
  paths, the one that keeps texts and the one over a file system give the same schema for every id, namely
  that of the last file with this id before the first entry that fails.\<close>

theorem storages_answer_alike:
  assumes unchanged: "\<And>p n t. WalkFile p n (Inr t) \<in> set es \<Longrightarrow> readFile p = Some t"
    and readable: "\<forall>err. WalkError err \<notin> set es"
  shows "inMem_Get sid (NewInMemStorage decode root es) =
      (case map_of (rev (map (\<lambda>(i, p, t). (i, t)) (schemasBeforeError decode root es))) sid of
         None \<Rightarrow> Inl (notFound sid) | Some t \<Rightarrow> Inr t)
    \<and> fileLocal_Get readFile sid (NewFileLocalStorage decode root es) = inMem_Get sid (NewInMemStorage decode root es)
    \<and> (\<exists>m. NewFileSystemStorage decode root es = Some m \<and>
      fs_Get (\<lambda>p. case readFile p of None \<Rightarrow> Inl [] | Some t \<Rightarrow> Inr t) sid m = inMem_Get sid (NewInMemStorage decode root es))"
proof -
  let ?xs = "schemasBeforeError decode root es"
  have "readFile p = Some t" if "(i, p, t) \<in> set (rev ?xs)" for i p t
    using schemas_read [of i p t decode root es] that unchanged by auto
  then have texts: "map_of (rev (map (\<lambda>(i, p, t). (i, t)) ?xs)) sid
      = Option.bind (map_of (rev (map (\<lambda>(i, p, t). (i, p)) ?xs)) sid) readFile"
    using map_of_read [of "rev ?xs" readFile sid] by (simp add: rev_map)
  have "readFile p \<noteq> None" if "map_of (rev (map (\<lambda>(i, p, t). (i, p)) ?xs)) sid = Some p" for p
    using map_of_SomeD [OF that] schemas_read [of sid p _ decode root es] unchanged by fastforce
  then show ?thesis
    by (auto simp: inMem_answer fileLocal_answer texts NewFileSystemStorage_eq [OF readable] fs_Get_def
        NewFileLocalStorage_lookup split: option.splits)
qed

definition exDecode :: schemaDecoder where
  "exDecode t = (if t = ''{}'' then Inr None else if t = ''{a}'' then Inr (Some ''a'') else Inl ''invalid character'')"

definition exEntries :: "walkEntry list" where
  "exEntries = [WalkDir ''api'', WalkFile ''api/a.json'' ''a.json'' (Inr ''{}''), WalkFile ''api/b.json'' ''b.json'' (Inr ''{a}''),
     WalkFile ''api/c.json'' ''c.json'' (Inr ''{{''), WalkFile ''api/d.json'' ''d.json'' (Inr ''{}'')]"

definition exFiles :: "string \<rightharpoonup> string" where
  "exFiles = [''api/a.json'' \<mapsto> ''{}'', ''api/b.json'' \<mapsto> ''{a}'', ''api/c.json'' \<mapsto> ''{{'', ''api/d.json'' \<mapsto> ''{}'']"

theorem storages_answer_alike_witness:
  "inMem_Get ''a'' (NewInMemStorage exDecode ''api'' exEntries) = Inr ''{a}''
   \<and> fileLocal_Get exFiles ''a'' (NewFileLocalStorage exDecode ''api'' exEntries) = Inr ''{a}''"
proof -
  have "schemasBeforeError exDecode ''api'' exEntries = [(''a'', ''api/a.json'', ''{}''), (''a'', ''api/b.json'', ''{a}'')]" by code_simp
  moreover have "exFiles p = Some t" if "WalkFile p n (Inr t) \<in> set exEntries" for p n t
    using that by (auto simp: exEntries_def exFiles_def)
  moreover have "\<forall>err. WalkError err \<notin> set exEntries" by (simp add: exEntries_def)
  ultimately show ?thesis using storages_answer_alike [of exEntries exFiles "''a''" exDecode "''api''"] by simp
qed

text \<open>One schema file that cannot be decoded hides every schema that the walk would reach after it: the
  error ends the walk and the constructor drops it, so that all storages are as if the later files did not
  exist.\<close>

theorem malformed_schema_hides_later:
  assumes "HasSuffix n ''.json''" and "decode t = Inl err"
  shows "NewInMemStorage decode root (es @ WalkFile p n (Inr t) # later) = NewInMemStorage decode root es
    \<and> NewFileLocalStorage decode root (es @ WalkFile p n (Inr t) # later) = NewFileLocalStorage decode root es
    \<and> NewFileSystemStorage decode root (es @ WalkFile p n (Inr t) # later) = NewFileSystemStorage decode root es"
  using assms
  by (simp add: NewInMemStorage_def NewFileLocalStorage_def NewFileSystemStorage_def Walk_stops onSchemaFile_def fs_onEntry_def)

theorem malformed_schema_hides_later_witness:
  "inMem_Get ''d'' (NewInMemStorage exDecode ''api'' exEntries) = Inl (notFound ''d'')"
proof -
  have "exEntries = take 3 exEntries @ WalkFile ''api/c.json'' ''c.json'' (Inr ''{{'') # drop 4 exEntries" by (simp add: exEntries_def)
  moreover have "inMem_Get ''d'' (NewInMemStorage exDecode ''api'' (take 3 exEntries)) = Inl (notFound ''d'')" by code_simp
  moreover have "HasSuffix ''c.json'' ''.json''" "exDecode ''{{'' = Inl ''invalid character''" by code_simp+
  ultimately show ?thesis
    using malformed_schema_hides_later [of "''c.json''" exDecode "''{{''" "''invalid character''" "''api''" "take 3 exEntries" "''api/c.json''" "drop 4 exEntries"]
    by simp
qed

text \<open>The validator reports what the library found: a document passes exactly when every error is of a
  hidden type; otherwise the answer gives for each field the description of its last shown error, and
  an error about a missing or surplus property is filed under that property.\<close>

theorem validator_reports:
  assumes "jvSchemaStorage v src = Inr s" and "newSchema (ReplaceAll ''{{WORKDIR}}'' workdir s) = Inr schema"
    and "validate schema doc = Inr descs"
  shows "(ValidateDocument newSchema validate workdir v src doc = None \<longleftrightarrow> (\<forall>d \<in> set descs. rsType d \<in> set (jvNotShowErrorListType v)))
    \<and> (\<forall>m. ValidateDocument newSchema validate workdir v src doc = Some m \<longrightarrow>
         (\<exists>es. m = FieldErrors es \<and> map_of es =
            map_of (rev (map (\<lambda>d. (errorField d, rsDescription d)) (filter (\<lambda>d. rsType d \<notin> set (jvNotShowErrorListType v)) descs)))))"
  using assms collectErrors_lookup [of "jvNotShowErrorListType v" descs] collectErrors_empty_iff [of "jvNotShowErrorListType v" descs]
  by (auto simp: ValidateDocument_def sharedHasError_def Let_def)

definition exDescs :: "resultError list" where
  "exDescs = [\<lparr>rsType = ''required'', rsField = ''(root)'', rsProperty = ''name'', rsDescription = ''name is required''\<rparr>,
     \<lparr>rsType = ''condition_then'', rsField = ''(root)'', rsProperty = [], rsDescription = ''Must validate then''\<rparr>]"

theorem validator_reports_witness:
  "ValidateDocument Inr (\<lambda>_ _. Inr exDescs) ''/srv/'' (NewJSONSchemaValidator (\<lambda>_. Inr ''{}'') []) ''a'' ''{}'' \<noteq> None"
proof -
  let ?v = "NewJSONSchemaValidator (\<lambda>_. Inr ''{}'') []"
  have v: "jvSchemaStorage ?v ''a'' = Inr ''{}''" "jvNotShowErrorListType ?v = [''condition_else'', ''condition_then'']"
    by (simp_all add: NewJSONSchemaValidator_def)
  show ?thesis
    using validator_reports [of ?v "''a''" "''{}''" Inr "''/srv/''" "ReplaceAll ''{{WORKDIR}}'' ''/srv/'' ''{}''" "\<lambda>_ _. Inr exDescs" "''{}''" exDescs] v
    by (simp add: exDescs_def)
qed

end
