(* ===== verification/Candi_Cache.thy ===== *)
theory Candi_Cache
  imports Go_Strings Go_Duration "HOL-Library.AList"
begin

text \<open>
  The cache over Redis (\<open>src/cache/cache.go\<close>).  The client of Redis is an argument: one function for each
  command that the code sends, on the state of the database, with the conversion of the reply that the code
  asks for.  What Redis documents of these commands is the hypothesis \<open>redisLaws\<close>.  Traces are left out.
\<close>

section \<open>The client\<close>

record 'db redisClient =
  rdGet :: "string \<Rightarrow> 'db \<Rightarrow> string + string"
  rdKeys :: "string \<Rightarrow> 'db \<Rightarrow> string + string list"
  rdTTL :: "string \<Rightarrow> 'db \<Rightarrow> string + int option"
  rdExists :: "string \<Rightarrow> 'db \<Rightarrow> string + bool"
  rdSet :: "string \<Rightarrow> string \<Rightarrow> 'db \<Rightarrow> string option \<times> 'db"
  rdExpire :: "string \<Rightarrow> int \<Rightarrow> 'db \<Rightarrow> string option \<times> 'db"
  rdDel :: "string \<Rightarrow> 'db \<Rightarrow> string option \<times> 'db"
  rdDo :: "string \<Rightarrow> string list \<Rightarrow> 'db \<Rightarrow> (string + string) \<times> 'db"

record 'db redisCache =
  cacheRead :: "'db redisClient"
  cacheWrite :: "'db redisClient"

definition NewRedisCache :: "'db redisClient \<Rightarrow> 'db redisClient \<Rightarrow> 'db redisCache" where
  "NewRedisCache read write = \<lparr>cacheRead = read, cacheWrite = write\<rparr>"

section \<open>Operations\<close>

definition Cache_Get :: "'db redisCache \<Rightarrow> string \<Rightarrow> 'db \<Rightarrow> string + string" where
  "Cache_Get r key db = rdGet (cacheRead r) key db"

definition GetKeys :: "'db redisCache \<Rightarrow> string \<Rightarrow> 'db \<Rightarrow> string + string list" where
  "GetKeys r pattern db = rdKeys (cacheRead r) (pattern @ ''*'') db"

text \<open>A reply that is no integer counts as zero.\<close>

definition GetTTL :: "'db redisCache \<Rightarrow> string \<Rightarrow> 'db \<Rightarrow> string + int" where
  "GetTTL r key db =
     (case rdTTL (cacheRead r) key db of
        Inl err \<Rightarrow> Inl err
      | Inr reply \<Rightarrow> let sec = (case reply of None \<Rightarrow> 0 | Some n \<Rightarrow> n) in Inr (sec * Second))"

text \<open>\<open>int(expire.Seconds())\<close>: the seconds as a floating point number, truncated.  The number is exact enough for
  durations below \<open>2\<^sup>2\<^sup>3\<close> seconds.\<close>

definition expireSeconds :: "int \<Rightarrow> int" where
  "expireSeconds expire = expire div Second"

definition Cache_Set :: "'db redisCache \<Rightarrow> string \<Rightarrow> string \<Rightarrow> int \<Rightarrow> 'db \<Rightarrow> string option \<times> 'db" where
  "Cache_Set r key value expire db =
     (case rdSet (cacheWrite r) key value db of
        (Some err, db1) \<Rightarrow> (Some err, db1)
      | (None, db1) \<Rightarrow>
          if expire \<ge> 0 then rdExpire (cacheWrite r) key (expireSeconds expire) db1 else (None, db1))"

definition Cache_Exists :: "'db redisCache \<Rightarrow> string \<Rightarrow> 'db \<Rightarrow> string + bool" where
  "Cache_Exists r key db = rdExists (cacheRead r) key db"

fun delKeys :: "'db redisClient \<Rightarrow> string list \<Rightarrow> 'db \<Rightarrow> string option \<times> 'db" where
  "delKeys cl [] db = (None, db)"
| "delKeys cl (k # ks) db =
     (case rdDel cl k db of
        (Some err, db') \<Rightarrow> (Some err, db')
      | (None, db') \<Rightarrow> delKeys cl ks db')"

definition Cache_Delete :: "'db redisCache \<Rightarrow> string \<Rightarrow> 'db \<Rightarrow> string option \<times> 'db" where
  "Cache_Delete r key db =
     (let cl = cacheWrite r;
          keys = (if HasSuffix key ''*'' then (case rdKeys cl key db of Inl _ \<Rightarrow> [] | Inr ks \<Rightarrow> ks) else []);
          keys' = (if length keys = 0 then [key] else keys)
      in delKeys cl keys' db)"

definition DoCommand :: "'db redisCache \<Rightarrow> bool \<Rightarrow> string \<Rightarrow> string list \<Rightarrow> 'db \<Rightarrow> (string + string) \<times> 'db" where
  "DoCommand r isWrite command args db =
     (let cl = (if isWrite then cacheWrite r else cacheRead r) in rdDo cl command args db)"

section \<open>What Redis documents\<close>

text \<open>The keys with their value and, if they expire, the seconds that are left.  \<open>SET\<close> drops an earlier expiry;
  \<open>EXPIRE\<close> with a time that is not positive deletes the key; \<open>TTL\<close> answers \<open>-2\<close> without the key and \<open>-1\<close>
  without an expiry.\<close>

type_synonym keyspace = "string \<rightharpoonup> string \<times> int option"

definition redisLaws :: "'db redisClient \<Rightarrow> ('db \<Rightarrow> keyspace) \<Rightarrow> (string \<Rightarrow> string \<Rightarrow> bool) \<Rightarrow> bool" where
  "redisLaws c view matches \<longleftrightarrow>
     (\<forall>k db. rdGet c k db = (case view db k of None \<Rightarrow> Inl ''redigo: nil returned'' | Some (v, _) \<Rightarrow> Inr v)) \<and>
     (\<forall>p db. \<exists>ks. rdKeys c p db = Inr ks \<and> set ks = {k \<in> dom (view db). matches p k}) \<and>
     (\<forall>k db. rdTTL c k db = Inr (Some (case view db k of None \<Rightarrow> -2 | Some (_, None) \<Rightarrow> -1 | Some (_, Some n) \<Rightarrow> n))) \<and>
     (\<forall>k db. rdExists c k db = Inr (view db k \<noteq> None)) \<and>
     (\<forall>k v db. fst (rdSet c k v db) = None \<and> view (snd (rdSet c k v db)) = (view db)(k \<mapsto> (v, None))) \<and>
     (\<forall>k n db. fst (rdExpire c k n db) = None \<and>
        view (snd (rdExpire c k n db)) =
          (case view db k of
             None \<Rightarrow> view db
           | Some (v, _) \<Rightarrow> if n \<le> 0 then (view db)(k := None) else (view db)(k \<mapsto> (v, Some n)))) \<and>
     (\<forall>k db. fst (rdDel c k db) = None \<and> view (snd (rdDel c k db)) = (view db)(k := None))"

lemma redisD:
  assumes "redisLaws c view matches"
  shows "rdGet c k db = (case view db k of None \<Rightarrow> Inl ''redigo: nil returned'' | Some (v, _) \<Rightarrow> Inr v)"
    and "\<exists>ks. rdKeys c p db = Inr ks \<and> set ks = {k \<in> dom (view db). matches p k}"
    and "rdTTL c k db = Inr (Some (case view db k of None \<Rightarrow> -2 | Some (_, None) \<Rightarrow> -1 | Some (_, Some n) \<Rightarrow> n))"
    and "rdExists c k db = Inr (view db k \<noteq> None)"
    and "fst (rdSet c k v db) = None" and "view (snd (rdSet c k v db)) = (view db)(k \<mapsto> (v, None))"
    and "fst (rdExpire c k n db) = None"
    and "view (snd (rdExpire c k n db)) =
      (case view db k of None \<Rightarrow> view db | Some (v, _) \<Rightarrow> if n \<le> 0 then (view db)(k := None) else (view db)(k \<mapsto> (v, Some n)))"
    and "fst (rdDel c k db) = None" and "view (snd (rdDel c k db)) = (view db)(k := None)"
  using assms unfolding redisLaws_def by blast+

lemma delKeys_view:
  assumes "redisLaws c view matches"
  shows "fst (delKeys c ks db) = None \<and> view (snd (delKeys c ks db)) = (view db) |` (- set ks)"
proof (induction ks arbitrary: db)
  case Nil
  then show ?case by (simp add: restrict_map_def)
next
  case (Cons k ks)
  obtain db' where d: "rdDel c k db = (None, db')" using redisD(9) [OF assms] by (metis prod.collapse)
  then have "view db' = (view db)(k := None)" using redisD(10) [OF assms, of k db] by simp
  with d Cons show ?case by (auto simp: restrict_map_def)
qed

section \<open>Properties\<close>

text \<open>C34: A cached value is read back until it expires: after \<open>Set\<close> with a lifetime of at least a second, or a
  negative one for none, the value is there, it exists, and its remaining lifetime is the whole seconds of
  what was asked; with a lifetime of zero or less than a second the key is deleted at once and nothing is
  cached.\<close>

theorem cache_set_get:
  assumes "redisLaws c view matches" and "r = NewRedisCache c c" and "Cache_Set r key value expire db = (err, db')"
  shows "err = None
    \<and> (0 \<le> expire \<and> expire < Second \<longrightarrow> Cache_Exists r key db' = Inr False \<and> Cache_Get r key db' = Inl ''redigo: nil returned'')
    \<and> (expire < 0 \<or> Second \<le> expire \<longrightarrow> Cache_Exists r key db' = Inr True \<and> Cache_Get r key db' = Inr value
         \<and> GetTTL r key db' = Inr (if expire < 0 then - Second else expire div Second * Second))
    \<and> (\<forall>k. k \<noteq> key \<longrightarrow> Cache_Get r k db' = Cache_Get r k db)"
proof -
  obtain db1 where s: "rdSet c key value db = (None, db1)" using redisD(5) [OF assms(1)] by (metis prod.collapse)
  then have v1: "view db1 = (view db)(key \<mapsto> (value, None))" using redisD(6) [OF assms(1), of key "value" db] by simp
  note reads = redisD(1,3,4) [OF assms(1)] NewRedisCache_def Cache_Get_def Cache_Exists_def GetTTL_def
  show ?thesis
  proof (cases "expire < 0")
    case True
    then have "err = None" "db' = db1" using assms(2,3) s by (auto simp: reads Cache_Set_def)
    then show ?thesis using True v1 assms(2) by (simp add: reads Second_def)
  next
    case False
    then have e: "rdExpire c key (expire div Second) db1 = (err, db')"
      using assms(2,3) s by (simp add: reads Cache_Set_def expireSeconds_def)
    then have "err = None" using redisD(7) [OF assms(1), of key "expire div Second" db1] by simp
    moreover have v: "view db' = (if expire div Second \<le> 0 then (view db)(key := None) else (view db)(key \<mapsto> (value, Some (expire div Second))))"
      using redisD(8) [OF assms(1), of key "expire div Second" db1] e v1 by simp
    moreover have "expire div Second \<le> 0 \<longleftrightarrow> expire < Second" using False by (auto simp: Second_def)
    ultimately show ?thesis using False assms(2) by (auto simp: reads)
  qed
qed

text \<open>\<open>Delete\<close> with a pattern that ends in a star removes the keys that match and no other; when none
  matches, or without a star, it removes the key of that very name.\<close>

theorem cache_delete_pattern:
  assumes "redisLaws c view matches" and "r = NewRedisCache c c"
  shows "fst (Cache_Delete r key db) = None
    \<and> view (snd (Cache_Delete r key db)) =
        (if HasSuffix key ''*'' \<and> (\<exists>k \<in> dom (view db). matches key k)
         then view db |` {k. \<not> matches key k} else (view db)(key := None))"
proof -
  obtain ks where ks: "rdKeys c key db = Inr ks" "set ks = {k \<in> dom (view db). matches key k}"
    using redisD(2) [OF assms(1)] by blast
  then have "length ks = 0 \<longleftrightarrow> \<not> (\<exists>k \<in> dom (view db). matches key k)" by (metis (mono_tags, lifting) empty_Collect_eq length_0_conv set_empty)
  moreover have "view db |` (- set ks) = view db |` {k. \<not> matches key k}" using ks(2) by (auto simp: restrict_map_def fun_eq_iff)
  moreover have "view db |` (- {key}) = (view db)(key := None)" by (auto simp: restrict_map_def fun_eq_iff)
  moreover have "Cache_Delete r key db = delKeys c (if HasSuffix key ''*'' \<and> length ks \<noteq> 0 then ks else [key]) db"
    using ks(1) assms(2) by (simp add: Cache_Delete_def NewRedisCache_def)
  ultimately show ?thesis using delKeys_view [OF assms(1), of ks db] delKeys_view [OF assms(1), of "[key]" db] by auto
qed

text \<open>A server for examples: an association list, and patterns with a star at the end.\<close>

type_synonym exKeys = "(string \<times> string \<times> int option) list"

definition exMatches :: "string \<Rightarrow> string \<Rightarrow> bool" where
  "exMatches p k \<longleftrightarrow> k = p \<or> (HasSuffix p ''*'' \<and> HasPrefix k (TrimSuffix p ''*''))"

definition exCacheRedis :: "exKeys redisClient" where
  "exCacheRedis = \<lparr>
     rdGet = (\<lambda>k db. case map_of db k of None \<Rightarrow> Inl ''redigo: nil returned'' | Some (v, _) \<Rightarrow> Inr v),
     rdKeys = (\<lambda>p db. Inr (filter (exMatches p) (map fst db))),
     rdTTL = (\<lambda>k db. Inr (Some (case map_of db k of None \<Rightarrow> -2 | Some (_, None) \<Rightarrow> -1 | Some (_, Some n) \<Rightarrow> n))),
     rdExists = (\<lambda>k db. Inr (map_of db k \<noteq> None)),
     rdSet = (\<lambda>k v db. (None, AList.update k (v, None) db)),
     rdExpire = (\<lambda>k n db. (None, case map_of db k of None \<Rightarrow> db | Some (v, _) \<Rightarrow> if n \<le> 0 then AList.delete k db else AList.update k (v, Some n) db)),
     rdDel = (\<lambda>k db. (None, AList.delete k db)),
     rdDo = (\<lambda>command args db. (Inl ''ERR unknown command'', db))\<rparr>"

lemma exRedis_laws: "redisLaws exCacheRedis map_of exMatches"
  unfolding redisLaws_def
  by (intro conjI allI)
    (auto simp: exCacheRedis_def update_conv' delete_conv' dom_map_of_conv_image_fst split: option.splits)

theorem cache_set_get_witness:
  "Cache_Get (NewRedisCache exCacheRedis exCacheRedis) ''k'' (snd (Cache_Set (NewRedisCache exCacheRedis exCacheRedis) ''k'' ''v'' (90 * Second) [])) = Inr ''v''
   \<and> Cache_Exists (NewRedisCache exCacheRedis exCacheRedis) ''k'' (snd (Cache_Set (NewRedisCache exCacheRedis exCacheRedis) ''k'' ''v'' 0 [])) = Inr False"
  using cache_set_get [OF exRedis_laws refl prod.collapse [symmetric], of "''k''" "''v''" "90 * Second" "[]"]
    cache_set_get [OF exRedis_laws refl prod.collapse [symmetric], of "''k''" "''v''" 0 "[]"]
  by (simp add: Second_def)

theorem cache_delete_pattern_witness:
  "map_of (snd (Cache_Delete (NewRedisCache exCacheRedis exCacheRedis) ''a*'' [(''a1'', ''x'', None), (''b'', ''y'', None), (''a2'', ''z'', Some 5)])) = [''b'' \<mapsto> (''y'', None)]"
proof -
  let ?db = "[(''a1'', ''x'', None), (''b'', ''y'', None), (''a2'', ''z'', Some 5)] :: exKeys"
  have m: "exMatches ''a*'' ''a1''" "exMatches ''a*'' ''a2''" "\<not> exMatches ''a*'' ''b''" "HasSuffix ''a*'' ''*''" by code_simp+
  then have "map_of ?db |` {k. \<not> exMatches ''a*'' k} = [''b'' \<mapsto> (''y'', None)]" by (auto simp: restrict_map_def fun_eq_iff)
  moreover have "\<exists>k \<in> dom (map_of ?db). exMatches ''a*'' k" using m by auto
  ultimately show ?thesis using cache_delete_pattern [OF exRedis_laws refl, of "''a*''" ?db] m(4) by simp
qed

end
