(* ===== verification/Candi_Update.thy ===== *)
theory Candi_Update
  imports Go_Strings Candi_Helper Rest_Server
begin

text \<open>
  Update maps (\<open>src/candishared/database_update_tools.go\<close>): which columns of a model an update writes.  A
  model is the list of its fields, as reflection shows them: name, tags, kind of the type behind pointers,
  whether it is exported, whether the value is zero, and the dynamic value by the first case of the type
  switch that it meets.  The methods of a value (\<open>Value\<close>, \<open>String\<close>, \<open>MarshalJSON\<close>) are the model's own code:
  what a call returns is part of the value, \<open>None\<close> when the call panics, as a value method does on a nil
  pointer.  A panic of \<open>ToMap\<close> is \<open>None\<close>.
\<close>

section \<open>Models\<close>

datatype dynValue =
    NamedArg string gval
  | Valuer "gval option"
  | TimeOrBytes gval
  | Stringer "string option"
  | Marshaler "string option"
  | OtherValue gval

record structField =
  sfName :: string
  sfTags :: "(string \<times> string) list"
  sfKind :: nat
  sfExported :: bool
  sfIsZero :: bool
  sfValue :: dynValue

text \<open>An embedded field: whether it is exported, and the fields of the struct behind it; \<open>None\<close> when there is
  no struct, but a nil pointer, a nil interface or a value of another kind.\<close>

datatype goField = Field structField | Embedded bool "goField list option"

definition TagGet :: "structField \<Rightarrow> string \<Rightarrow> string" where
  "TagGet f key = (case map_of (sfTags f) key of None \<Rightarrow> [] | Some v \<Rightarrow> v)"

text \<open>The numbers of \<open>reflect.Kind\<close>.\<close>

definition kindArray :: nat where "kindArray = 17"
definition kindSlice :: nat where "kindSlice = 23"
definition kindStruct :: nat where "kindStruct = 25"

section \<open>Options and key extractors\<close>

record partialUpdateOption =
  updateFields :: "string list"
  ignoreFields :: "string list"

definition DBUpdateSetUpdatedFields :: "string list \<Rightarrow> partialUpdateOption \<Rightarrow> partialUpdateOption" where
  "DBUpdateSetUpdatedFields names o' = o'\<lparr>updateFields := remdups names\<rparr>"

definition DBUpdateSetIgnoredFields :: "string list \<Rightarrow> partialUpdateOption \<Rightarrow> partialUpdateOption" where
  "DBUpdateSetIgnoredFields names o' = o'\<lparr>ignoreFields := remdups names\<rparr>"

record keyExtractorResult =
  kxKey :: string
  kxIsDefaultNull :: bool
  kxMustSet :: bool
  kxTagName :: string

definition columnOf :: "string \<Rightarrow> string \<Rightarrow> string" where
  "columnOf tag dflt = (if HasPrefix tag ''column:'' then SplitByte (CHR '';'') (TrimPrefix tag ''column:'') ! 0 else dflt)"

definition DBUpdateGORMExtractorKey :: "structField \<Rightarrow> keyExtractorResult" where
  "DBUpdateGORMExtractorKey f =
     (let gormTag = TagGet f ''gorm''
      in \<lparr>kxKey = columnOf gormTag (ToDelimited (sfName f) (CHR ''_'')),
          kxIsDefaultNull = Contains (ToLower gormTag) ''default:null'', kxMustSet = False, kxTagName = ''gorm''\<rparr>)"

definition DBUpdateMongoExtractorKey :: "structField \<Rightarrow> keyExtractorResult" where
  "DBUpdateMongoExtractorKey f =
     (let bsonTag = TrimSuffix (TagGet f ''bson'') '',omitempty''
      in if bsonTag \<noteq> [] then \<lparr>kxKey = bsonTag, kxIsDefaultNull = False, kxMustSet = True, kxTagName = ''bson''\<rparr>
         else \<lparr>kxKey = ToDelimited (sfName f) (CHR ''_''), kxIsDefaultNull = False, kxMustSet = False, kxTagName = ''bson''\<rparr>)"

definition DBUpdateSqlExtractorKey :: "structField \<Rightarrow> keyExtractorResult" where
  "DBUpdateSqlExtractorKey f =
     \<lparr>kxKey = columnOf (TagGet f ''sql'') (ToDelimited (sfName f) (CHR ''_'')),
      kxIsDefaultNull = False, kxMustSet = False, kxTagName = ''sql''\<rparr>"

record dbUpdateTools =
  KeyExtractorFunc :: "(structField \<Rightarrow> keyExtractorResult) option"
  FieldValueExtractor :: "(structField \<Rightarrow> gval \<times> bool) option"
  IgnoredFields :: "string list"

definition parseOption :: "(partialUpdateOption \<Rightarrow> partialUpdateOption) list \<Rightarrow> partialUpdateOption" where
  "parseOption opts = foldl (\<lambda>o' opt. opt o') \<lparr>updateFields = [], ignoreFields = []\<rparr> opts"

definition GetFields :: "(partialUpdateOption \<Rightarrow> partialUpdateOption) list \<Rightarrow> string list \<times> string list" where
  "GetFields opts = (let opt = parseOption opts in (updateFields opt, ignoreFields opt))"

section \<open>\<open>ToMap\<close>\<close>

text \<open>Key, default, must-set and omit-empty of a field.\<close>

definition fieldKey :: "dbUpdateTools \<Rightarrow> structField \<Rightarrow> string \<times> bool \<times> bool \<times> bool" where
  "fieldKey d f =
     (case KeyExtractorFunc d of
        None \<Rightarrow> (TrimSuffix (TagGet f ''json'') '',omitempty'', False, False, HasSuffix (TagGet f ''json'') '',omitempty'')
      | Some extract \<Rightarrow>
          let keyExtractor = extract f
          in (kxKey keyExtractor, kxIsDefaultNull keyExtractor, kxMustSet keyExtractor, HasSuffix (TagGet f (kxTagName keyExtractor)) '',omitempty''))"

definition isPartial :: "partialUpdateOption \<Rightarrow> bool" where
  "isPartial opt \<longleftrightarrow> length (updateFields opt) > 0 \<or> length (ignoreFields opt) > 0"

text \<open>The type switch: value, key and whether the field is skipped.\<close>

definition switchValue :: "structField \<Rightarrow> string \<Rightarrow> (gval \<times> string \<times> bool) option" where
  "switchValue f key =
     (case sfValue f of
        NamedArg name v \<Rightarrow> Some (v, if name \<noteq> [] then name else key, False)
      | Valuer r \<Rightarrow> map_option (\<lambda>v. (v, key, False)) r
      | TimeOrBytes v \<Rightarrow> Some (v, key, False)
      | Stringer r \<Rightarrow> map_option (\<lambda>s. (VStr s, key, False)) r
      | Marshaler r \<Rightarrow> map_option (\<lambda>s. (VStr s, key, False)) r
      | OtherValue v \<Rightarrow> Some (v, key, sfKind f = kindStruct \<or> (sfKind f \<ge> kindArray \<and> sfKind f \<le> kindSlice)))"

text \<open>What a field does: \<open>Interface\<close> panics on an unexported field, a method may panic, the field is left out,
  or it sets a column.\<close>

datatype fieldOutcome = FPanic | FSkip | FSet string gval

definition fieldColumn :: "dbUpdateTools \<Rightarrow> structField \<Rightarrow> fieldOutcome" where
  "fieldColumn d f =
     (let (key, isDefaultNull, mustSet, isOmitempty) = fieldKey d f;
          isIgnore = ParseBool (TagGet f ''ignoreUpdate'') \<or> (isOmitempty \<and> sfIsZero f)
      in if key = [] \<or> key = ''-'' \<or> isIgnore then FSkip
         else if \<not> sfExported f then FPanic
         else
           (case (case FieldValueExtractor d of
                    Some extract \<Rightarrow> (let (v, skip) = extract f in Some (v, key, skip))
                  | None \<Rightarrow> switchValue f key) of
              None \<Rightarrow> FPanic
            | Some (val, key', skipSet) \<Rightarrow>
                if skipSet \<and> \<not> mustSet then FSkip
                else FSet key' (if sfIsZero f \<and> isDefaultNull then VNil else val)))"

definition isSelected :: "partialUpdateOption \<Rightarrow> structField \<Rightarrow> bool" where
  "isSelected opt f \<longleftrightarrow>
     \<not> isPartial opt
     \<or> (sfName f \<in> set (updateFields opt) \<and> length (updateFields opt) > 0)
     \<or> (sfName f \<notin> set (ignoreFields opt) \<and> length (ignoreFields opt) > 0)"

definition fieldEntry :: "dbUpdateTools \<Rightarrow> partialUpdateOption \<Rightarrow> structField \<Rightarrow> fieldOutcome" where
  "fieldEntry d opt f = (case fieldColumn d f of FSet key val \<Rightarrow> if isSelected opt f then FSet key val else FSkip | r \<Rightarrow> r)"

definition deleteIgnored :: "dbUpdateTools \<Rightarrow> (string \<rightharpoonup> gval) \<Rightarrow> (string \<rightharpoonup> gval)" where
  "deleteIgnored d m = foldl (\<lambda>m ignored. m(ignored := None)) m (IgnoredFields d)"

text \<open>The loop over the fields.  \<open>Interface\<close> panics on an embedded field that is not exported, and \<open>NumField\<close> in
  the call for an embedded field without a struct.\<close>

fun toMapLoop :: "dbUpdateTools \<Rightarrow> partialUpdateOption \<Rightarrow> goField list \<Rightarrow> (string \<rightharpoonup> gval) \<Rightarrow> (string \<rightharpoonup> gval) option" where
  "toMapLoop d opt [] m = Some m"
| "toMapLoop d opt (Embedded exported None # fs) m = None"
| "toMapLoop d opt (Embedded exported (Some gs) # fs) m =
     (if \<not> exported then None
      else case toMapLoop d opt gs Map.empty of
        None \<Rightarrow> None
      | Some sub \<Rightarrow> toMapLoop d opt fs (m ++ deleteIgnored d sub))"
| "toMapLoop d opt (Field f # fs) m =
     (case fieldEntry d opt f of
        FPanic \<Rightarrow> None
      | FSkip \<Rightarrow> toMapLoop d opt fs m
      | FSet key val \<Rightarrow> toMapLoop d opt fs (m(key \<mapsto> val)))"

text \<open>\<open>data\<close> is \<open>None\<close> when there is no struct behind it.\<close>

definition DBUpdate_ToMap :: "dbUpdateTools \<Rightarrow> (partialUpdateOption \<Rightarrow> partialUpdateOption) list \<Rightarrow> goField list option \<Rightarrow>
    (string \<rightharpoonup> gval) option" where
  "DBUpdate_ToMap d opts data =
     (case data of None \<Rightarrow> None | Some fs \<Rightarrow> map_option (deleteIgnored d) (toMapLoop d (parseOption opts) fs Map.empty))"

section \<open>The columns of a model\<close>

text \<open>Reference: the fields of a model with those of its embedded structs in place, and the pairs they
  give.\<close>

fun flatten :: "goField list \<Rightarrow> structField list" where
  "flatten [] = []"
| "flatten (Embedded _ None # fs) = flatten fs"
| "flatten (Embedded _ (Some gs) # fs) = flatten gs @ flatten fs"
| "flatten (Field f # fs) = f # flatten fs"

definition columnOfField :: "dbUpdateTools \<Rightarrow> partialUpdateOption \<Rightarrow> structField \<Rightarrow> (string \<times> gval) option" where
  "columnOfField d opt f = (case fieldEntry d opt f of FSet key val \<Rightarrow> Some (key, val) | _ \<Rightarrow> None)"

text \<open>Reference: a field is left out by its key or its tags.\<close>

definition leftOut :: "dbUpdateTools \<Rightarrow> structField \<Rightarrow> bool" where
  "leftOut d f \<longleftrightarrow> (case fieldKey d f of (key, _, _, isOmitempty) \<Rightarrow>
     key \<in> {[], ''-''} \<or> ParseBool (TagGet f ''ignoreUpdate'') \<or> isOmitempty \<and> sfIsZero f)"

text \<open>Reference: the models that can be read.  Every embedded field is exported and has a struct; every field
  that is not left out is exported, and the method that the type switch calls returns.\<close>

definition readable :: "dbUpdateTools \<Rightarrow> structField \<Rightarrow> bool" where
  "readable d f \<longleftrightarrow> leftOut d f \<or>
     sfExported f \<and> (FieldValueExtractor d \<noteq> None \<or> sfValue f \<notin> {Valuer None, Stringer None, Marshaler None})"

fun readableModel :: "dbUpdateTools \<Rightarrow> goField list \<Rightarrow> bool" where
  "readableModel d [] = True"
| "readableModel d (Embedded exported None # fs) = False"
| "readableModel d (Embedded exported (Some gs) # fs) = (exported \<and> readableModel d gs \<and> readableModel d fs)"
| "readableModel d (Field f # fs) = (readable d f \<and> readableModel d fs)"

abbreviation columns :: "dbUpdateTools \<Rightarrow> partialUpdateOption \<Rightarrow> goField list \<Rightarrow> (string \<times> gval) list" where
  "columns d opt fs \<equiv> List.map_filter (columnOfField d opt) (flatten fs)"

lemma fieldEntry_panics: "fieldEntry d opt f = FPanic \<longleftrightarrow> \<not> readable d f"
proof -
  obtain key isDefaultNull mustSet isOmitempty where k: "fieldKey d f = (key, isDefaultNull, mustSet, isOmitempty)" by (metis prod_cases4)
  have sw: "switchValue f key = None \<longleftrightarrow> sfValue f \<in> {Valuer None, Stringer None, Marshaler None}"
    by (auto simp: switchValue_def split: dynValue.splits)
  have "fieldColumn d f = FPanic \<longleftrightarrow> \<not> readable d f"
    using sw by (auto simp: fieldColumn_def readable_def leftOut_def k split: option.splits prod.splits if_splits)
  then show ?thesis by (auto simp: fieldEntry_def split: fieldOutcome.splits)
qed

lemma deleteIgnored_lookup: "deleteIgnored d m k = (if k \<in> set (IgnoredFields d) then None else m k)"
proof -
  have "foldl (\<lambda>m i. m(i := None)) m xs k = (if k \<in> set xs then None else m k)" for xs and m :: "string \<rightharpoonup> gval"
    by (induction xs arbitrary: m) auto
  then show ?thesis by (simp add: deleteIgnored_def)
qed

lemma deleteIgnored_absorb: "deleteIgnored d (m ++ deleteIgnored d n) = deleteIgnored d (m ++ n)"
  by (rule ext) (simp add: deleteIgnored_lookup map_add_def split: option.splits)

lemma deleteIgnored_cong: "deleteIgnored d m = deleteIgnored d n \<Longrightarrow> deleteIgnored d (m ++ x) = deleteIgnored d (n ++ x)"
  by (auto simp: deleteIgnored_lookup map_add_def fun_eq_iff split: option.splits if_splits)

lemma map_filter_append: "List.map_filter f (xs @ ys) = List.map_filter f xs @ List.map_filter f ys"
  by (simp add: List.map_filter_def)

text \<open>The loop agrees with the pairs of the flattened model up to the ignored columns.\<close>

lemma toMapLoop_columns:
  "if readableModel d fs
   then \<exists>r. toMapLoop d opt fs m = Some r \<and> deleteIgnored d r = deleteIgnored d (m ++ map_of (rev (columns d opt fs)))
   else toMapLoop d opt fs m = None"
proof (induction d opt fs m rule: toMapLoop.induct)
  case (3 d opt exported gs fs m)
  show ?case
  proof (cases "exported \<and> readableModel d gs")
    case True
    then obtain sub where sub: "toMapLoop d opt gs Map.empty = Some sub"
        "deleteIgnored d sub = deleteIgnored d (map_of (rev (columns d opt gs)))"
      using "3.IH"(1) by auto
    have "deleteIgnored d (m ++ deleteIgnored d sub) = deleteIgnored d (m ++ map_of (rev (columns d opt gs)))"
      by (simp add: sub(2) deleteIgnored_absorb)
    then have "deleteIgnored d ((m ++ deleteIgnored d sub) ++ map_of (rev (columns d opt fs)))
        = deleteIgnored d (m ++ map_of (rev (columns d opt (Embedded exported (Some gs) # fs))))"
      using deleteIgnored_cong [of d "m ++ deleteIgnored d sub" _ "map_of (rev (columns d opt fs))"]
      by (simp add: map_filter_append map_of_append map_add_assoc)
    then show ?thesis using "3.IH"(2) [OF _ sub(1)] True sub(1) by (auto split: if_splits)
  next
    case False
    then show ?thesis using "3.IH"(1) by (auto split: if_splits)
  qed
next
  case (4 d opt f fs m)
  show ?case
  proof (cases "fieldEntry d opt f")
    case FPanic
    then show ?thesis using fieldEntry_panics [of d opt f] by simp
  next
    case FSkip
    then have "columnOfField d opt f = None" by (simp add: columnOfField_def)
    then show ?thesis using "4.IH"(1) [OF FSkip] FSkip fieldEntry_panics [of d opt f] by (simp add: List.map_filter_simps)
  next
    case (FSet key val)
    then have "columnOfField d opt f = Some (key, val)" by (simp add: columnOfField_def)
    then show ?thesis using "4.IH"(2) [OF FSet] FSet fieldEntry_panics [of d opt f] by (simp add: List.map_filter_simps)
  qed
qed (simp_all add: List.map_filter_simps)

section \<open>Properties\<close>

text \<open>C35: \<open>ToMap\<close> panics exactly when there is no struct to read, when an embedded field is not exported or has
  no struct behind it (a nil pointer), or when a field that its key and tags do not leave out is not exported
  or is a value whose method panics, as a value method does on a nil pointer.  Otherwise it gives the
  columns of the model with the fields of embedded structs in their place: of the fields with one column the
  last one decides, and the ignored columns are left out, at every depth.\<close>

theorem ToMap_flattens:
  "DBUpdate_ToMap d opts data =
     (case data of None \<Rightarrow> None
      | Some fs \<Rightarrow>
          if readableModel d fs
          then Some (\<lambda>k. if k \<in> set (IgnoredFields d) then None
                         else map_of (rev (List.map_filter (columnOfField d (parseOption opts)) (flatten fs))) k)
          else None)"
proof (cases data)
  case (Some fs)
  then show ?thesis using toMapLoop_columns [of d fs "parseOption opts" Map.empty]
    by (auto simp: DBUpdate_ToMap_def deleteIgnored_lookup fun_eq_iff split: if_splits)
qed (simp add: DBUpdate_ToMap_def)

text \<open>A model with a nil pointer to a type with a value method \<open>Value\<close>, as \<open>sql.NullTime\<close> has: it panics, unless
  the field is left out when it is empty.\<close>

definition exNilValuer :: "string \<Rightarrow> goField list" where
  "exNilValuer tag = [Field \<lparr>sfName = ''DeletedAt'', sfTags = [(''json'', tag)], sfKind = kindStruct, sfExported = True, sfIsZero = True,
     sfValue = Valuer None\<rparr>]"

lemma nil_valuer_panics:
  "DBUpdate_ToMap \<lparr>KeyExtractorFunc = None, FieldValueExtractor = None, IgnoredFields = []\<rparr> [] (Some (exNilValuer ''deleted_at'')) = None"
  "map_option dom (DBUpdate_ToMap \<lparr>KeyExtractorFunc = None, FieldValueExtractor = None, IgnoredFields = []\<rparr> []
     (Some (exNilValuer ''deleted_at,omitempty''))) = Some {}"
proof -
  have "\<not> readableModel \<lparr>KeyExtractorFunc = None, FieldValueExtractor = None, IgnoredFields = []\<rparr> (exNilValuer ''deleted_at'')"
    "fieldEntry \<lparr>KeyExtractorFunc = None, FieldValueExtractor = None, IgnoredFields = []\<rparr> (parseOption []) \<lparr>sfName = ''DeletedAt'',
       sfTags = [(''json'', ''deleted_at,omitempty'')], sfKind = kindStruct, sfExported = True, sfIsZero = True, sfValue = Valuer None\<rparr> = FSkip"
    "fieldEntry \<lparr>KeyExtractorFunc = None, FieldValueExtractor = None, IgnoredFields = []\<rparr> (parseOption []) \<lparr>sfName = ''DeletedAt'',
       sfTags = [(''json'', ''deleted_at'')], sfKind = kindStruct, sfExported = True, sfIsZero = True, sfValue = Valuer None\<rparr> = FPanic"
    by code_simp+
  then show "DBUpdate_ToMap \<lparr>KeyExtractorFunc = None, FieldValueExtractor = None, IgnoredFields = []\<rparr> [] (Some (exNilValuer ''deleted_at'')) = None"
    "map_option dom (DBUpdate_ToMap \<lparr>KeyExtractorFunc = None, FieldValueExtractor = None, IgnoredFields = []\<rparr> []
       (Some (exNilValuer ''deleted_at,omitempty''))) = Some {}"
    by (simp_all add: DBUpdate_ToMap_def exNilValuer_def deleteIgnored_def)
qed

text \<open>Which fields a partial update writes.  With names to update alone, only fields of these names; with
  names to ignore alone, no field of these names; but with both, every field that is not ignored, whether
  it was named for the update or not.\<close>

theorem partial_update_fields:
  assumes "fieldEntry d (parseOption []) f = FSet key val" and "us \<noteq> []" and "is \<noteq> []"
  shows "(fieldEntry d (parseOption [DBUpdateSetUpdatedFields us]) f = FSet key val \<longleftrightarrow> sfName f \<in> set us)
    \<and> (fieldEntry d (parseOption [DBUpdateSetIgnoredFields is]) f = FSet key val \<longleftrightarrow> sfName f \<notin> set is)
    \<and> (fieldEntry d (parseOption [DBUpdateSetUpdatedFields us, DBUpdateSetIgnoredFields is]) f = FSet key val
        \<longleftrightarrow> sfName f \<in> set us \<or> sfName f \<notin> set is)"
proof -
  have entry: "fieldEntry d opt f = FSet key val \<longleftrightarrow> isSelected opt f" for opt
    using assms(1) by (auto simp: fieldEntry_def split: fieldOutcome.splits if_splits)
  have "remdups us \<noteq> []" "remdups is \<noteq> []" using assms(2,3) by auto
  then show ?thesis unfolding entry
    by (auto simp: parseOption_def isSelected_def isPartial_def DBUpdateSetUpdatedFields_def DBUpdateSetIgnoredFields_def)
qed

definition exGorm :: dbUpdateTools where
  "exGorm = \<lparr>KeyExtractorFunc = Some DBUpdateGORMExtractorKey, FieldValueExtractor = None, IgnoredFields = []\<rparr>"

definition exField :: "string \<Rightarrow> string \<Rightarrow> structField" where
  "exField name v = \<lparr>sfName = name, sfTags = [], sfKind = 24, sfExported = True, sfIsZero = False, sfValue = OtherValue (VStr v)\<rparr>"

theorem partial_update_fields_witness:
  "fieldEntry exGorm (parseOption [DBUpdateSetUpdatedFields [''Name'']]) (exField ''City'' ''x'') \<noteq> FSet ''city'' (VStr ''x'')
   \<and> fieldEntry exGorm (parseOption [DBUpdateSetUpdatedFields [''Name''], DBUpdateSetIgnoredFields [''ID'']]) (exField ''City'' ''x'') =
     FSet ''city'' (VStr ''x'')"
proof -
  have e: "fieldEntry exGorm (parseOption []) (exField ''City'' ''x'') = FSet ''city'' (VStr ''x'')" by code_simp
  have "sfName (exField ''City'' ''x'') = ''City''" by (simp add: exField_def)
  then show ?thesis using partial_update_fields [OF e, of "[''Name'']" "[''ID'']"] by simp
qed

end
