(* ===== verification/Gen_Base.thy ===== *)
theory Gen_Base
  imports Go_Strings Candi_Helper
begin

text \<open>
  The project generator (\<open>src/cmd/candi\<close>), its base: the configuration of a service (\<open>types.go\<close>,
  \<open>constant.go\<close>, \<open>plugin.go\<close>), the disk, the walk that writes a tree of files (\<open>execGenerator\<close>), the edits of
  existing files, the comparison of versions and the menus of handlers (\<open>project_generator_utils.go\<close>).  The
  rendering of a template, the JSON texts and the clock are arguments; what is printed is left out.  A
  path is resolved to the list of its components; \<open>..\<close> is not interpreted.
\<close>

section \<open>Names\<close>

definition InitService :: string where "InitService = ''initservice''"
definition AddModule :: string where "AddModule = ''addmodule''"
definition InitMonorepo :: string where "InitMonorepo = ''initMonorepo''"
definition RunServiceMonorepo :: string where "RunServiceMonorepo = ''runServiceMonorepo''"
definition AddHandler :: string where "AddHandler = ''addHandler''"
definition AddUsecase :: string where "AddUsecase = ''addUsecase''"
definition ApplyUsecase :: string where "ApplyUsecase = ''applyUsecase''"

definition RestHandler :: string where "RestHandler = ''restHandler''"
definition GrpcHandler :: string where "GrpcHandler = ''grpcHandler''"
definition GraphqlHandler :: string where "GraphqlHandler = ''graphqlHandler''"
definition KafkaHandler :: string where "KafkaHandler = ''kafkaHandler''"
definition SchedulerHandler :: string where "SchedulerHandler = ''schedulerHandler''"
definition RedissubsHandler :: string where "RedissubsHandler = ''redissubsHandler''"
definition TaskqueueHandler :: string where "TaskqueueHandler = ''taskqueueHandler''"
definition PostgresListenerHandler :: string where "PostgresListenerHandler = ''postgresListenerHandler''"
definition RabbitmqHandler :: string where "RabbitmqHandler = ''rabbitmqHandler''"
definition pluginGCPPubSubWorker :: string where "pluginGCPPubSubWorker = ''GCPPubSubWorker''"
definition pluginSTOMPWorker :: string where "pluginSTOMPWorker = ''STOMPWorker''"
definition pluginMQTTWorker :: string where "pluginMQTTWorker = ''MQTTWorker''"

lemmas handler_names = RestHandler_def GrpcHandler_def GraphqlHandler_def KafkaHandler_def SchedulerHandler_def
  RedissubsHandler_def TaskqueueHandler_def PostgresListenerHandler_def RabbitmqHandler_def
  pluginGCPPubSubWorker_def pluginSTOMPWorker_def pluginMQTTWorker_def

lemmas scope_names = InitService_def AddModule_def InitMonorepo_def RunServiceMonorepo_def AddHandler_def AddUsecase_def ApplyUsecase_def

definition RedisDeps :: string where "RedisDeps = ''redisDeps''"
definition SqldbDeps :: string where "SqldbDeps = ''sqldbDeps''"
definition MongodbDeps :: string where "MongodbDeps = ''mongodbDeps''"
definition ArangodbDeps :: string where "ArangodbDeps = ''arangodbDeps''"
definition FiberRestDeps :: string where "FiberRestDeps = ''fiberRestDeps''"
definition MitLicense :: string where "MitLicense = ''MIT License''"
definition ApacheLicense :: string where "ApacheLicense = ''Apache License''"
definition PrivateLicense :: string where "PrivateLicense = ''Private License''"
definition DefaultPackageName :: string where "DefaultPackageName = ''github.com/golangid/candi''"

definition scopeMap :: "string \<rightharpoonup> string" where
  "scopeMap = [''1'' \<mapsto> InitMonorepo, ''2'' \<mapsto> InitService, ''3'' \<mapsto> AddModule, ''4'' \<mapsto> AddHandler, ''5'' \<mapsto> AddUsecase, ''6'' \<mapsto> ApplyUsecase]"

definition dependencyMap :: "string \<rightharpoonup> string" where
  "dependencyMap = [''1'' \<mapsto> RedisDeps, ''2'' \<mapsto> SqldbDeps, ''3'' \<mapsto> MongodbDeps, ''4'' \<mapsto> ArangodbDeps]"

definition sqlDrivers :: "string \<rightharpoonup> string" where
  "sqlDrivers = [''1'' \<mapsto> ''postgres'', ''2'' \<mapsto> ''mysql'', ''3'' \<mapsto> ''sqlite3'']"

definition optionYesNo :: "string \<rightharpoonup> bool" where
  "optionYesNo = [''y'' \<mapsto> True, ''n'' \<mapsto> False]"

definition licenseMap :: "string \<rightharpoonup> string" where
  "licenseMap = [''1'' \<mapsto> MitLicense, ''2'' \<mapsto> ApacheLicense, ''3'' \<mapsto> PrivateLicense]"

definition restPluginHandler :: "string \<rightharpoonup> string" where
  "restPluginHandler = [''1'' \<mapsto> FiberRestDeps]"

text \<open>The replacer deletes the bytes \<open>*\<close>, \<open>/\<close>, \<open>:\<close> and \<open>-\<close>.\<close>

definition cleanSpecialChar :: "string \<Rightarrow> string" where
  "cleanSpecialChar = filter (\<lambda>c. c \<notin> {CHR ''*'', CHR ''/'', CHR '':'', CHR ''-''})"

section \<open>Configuration\<close>

record flagParameter =
  scopeFlag :: string
  packagePrefixFlag :: string
  protoOutputPkgFlag :: string
  outputFlag :: string
  libraryNameFlag :: string
  withGoModFlag :: bool
  runFlag :: bool
  allFlag :: bool
  initService :: bool
  addModule :: bool
  addHandler :: bool
  initMonorepo :: bool
  versionFlag :: bool
  isMonorepo :: bool
  serviceName :: string
  moduleName :: string
  monorepoProjectName :: string
  flagModules :: "string list"

record configHeader =
  GoVersion :: string
  Version :: string
  Header :: string
  ServiceName :: string
  PackagePrefix :: string
  ProtoSource :: string
  OutputDir :: string
  Owner :: string
  License :: string
  Year :: int

record genConfig =
  cfIsMonorepo :: bool
  cfRestHandler :: bool
  cfGRPCHandler :: bool
  cfGraphQLHandler :: bool
  cfFiberRestHandler :: bool
  cfKafkaHandler :: bool
  cfSchedulerHandler :: bool
  cfRedisSubsHandler :: bool
  cfTaskQueueHandler :: bool
  cfPostgresListenerHandler :: bool
  cfRabbitMQHandler :: bool
  cfIsWorkerActive :: bool
  cfRedisDeps :: bool
  cfSQLDeps :: bool
  cfMongoDeps :: bool
  cfSQLUseGORM :: bool
  cfArangoDeps :: bool
  cfSQLDriver :: string
  cfWorkerPlugins :: "string list"

record moduleConfig =
  mdHeader :: configHeader
  mdConfig :: genConfig
  ModuleName :: string
  mdSkip :: bool

text \<open>The maps of a plugin are lists in the order in which they are ranged over.\<close>

record plugin =
  plName :: string
  plPackageName :: string
  plEditConfig :: "(string \<times> string) list"
  plEditAppFactory :: "(string \<times> string) list"
  plEditModule :: "(string \<times> string) list"

record serviceConfig =
  svHeader :: configHeader
  svConfig :: genConfig
  svModules :: "moduleConfig list"
  svWorkerPlugins :: "(string \<times> plugin) list"

definition parseMonorepoFlag :: "flagParameter \<Rightarrow> string option \<times> flagParameter" where
  "parseMonorepoFlag f =
     (let f' = f\<lparr>packagePrefixFlag := ''monorepo/services'', withGoModFlag := False, protoOutputPkgFlag := ''monorepo/sdk'', outputFlag := ''services/''\<rparr>
      in if (scopeFlag f' = ''2'' \<or> scopeFlag f' = ''3'') \<and> serviceName f' = []
         then (Some ''missing service name, make sure to include '-service' flag'', f') else (None, f'))"

definition getFullModuleChildDir :: "flagParameter \<Rightarrow> string list \<Rightarrow> string" where
  "getFullModuleChildDir f paths =
     TrimPrefix (outputFlag f @ serviceName f @ ''/internal/modules/'' @ JoinStr ''/'' (moduleName f # paths)) ''/''"

definition getRootDir :: "flagParameter \<Rightarrow> serviceConfig \<Rightarrow> string" where
  "getRootDir flag s =
     (if cfIsMonorepo (svConfig s) \<or> initService flag then outputFlag flag @ ServiceName (svHeader s) @ ''/'' else [])"

definition checkWorkerActive :: "genConfig \<Rightarrow> genConfig" where
  "checkWorkerActive s = s\<lparr>cfIsWorkerActive :=
     cfKafkaHandler s \<or> cfSchedulerHandler s \<or> cfRedisSubsHandler s \<or> cfPostgresListenerHandler s
     \<or> cfTaskQueueHandler s \<or> cfRabbitMQHandler s \<or> length (cfWorkerPlugins s) > 0\<rparr>"

definition disableAllHandler :: "serviceConfig \<Rightarrow> serviceConfig" where
  "disableAllHandler s = s\<lparr>svConfig := (svConfig s)\<lparr>cfRestHandler := False, cfGRPCHandler := False, cfGraphQLHandler := False,
     cfKafkaHandler := False, cfSchedulerHandler := False, cfRedisSubsHandler := False, cfTaskQueueHandler := False,
     cfPostgresListenerHandler := False, cfRabbitMQHandler := False\<rparr>\<rparr>"

definition constructModuleWorkerActivation :: "moduleConfig \<Rightarrow> string list" where
  "constructModuleWorkerActivation m =
     (if cfKafkaHandler (mdConfig m) then [''types.Kafka''] else []) @
     (if cfSchedulerHandler (mdConfig m) then [''types.Scheduler''] else []) @
     (if cfRedisSubsHandler (mdConfig m) then [''types.RedisSubscriber''] else []) @
     (if cfTaskQueueHandler (mdConfig m) then [''types.TaskQueue''] else []) @
     (if cfPostgresListenerHandler (mdConfig m) then [''types.PostgresListener''] else []) @
     (if cfRabbitMQHandler (mdConfig m) then [''types.RabbitMQ''] else [])"

section \<open>The disk\<close>

type_synonym path = "string list"
datatype node = Dir | File string
type_synonym disk = "path \<rightharpoonup> node"

definition pathOf :: "string \<Rightarrow> path" where
  "pathOf s = filter (\<lambda>c. c \<noteq> [] \<and> c \<noteq> ''.'') (SplitByte (CHR ''/'') s)"

text \<open>The working directory, the empty path, is there.\<close>

definition statPath :: "disk \<Rightarrow> path \<Rightarrow> node option" where
  "statPath d p = (if p = [] then Some Dir else d p)"

definition isDirAt :: "disk \<Rightarrow> path \<Rightarrow> bool" where
  "isDirAt d p \<longleftrightarrow> statPath d p = Some Dir"

definition Mkdir :: "string \<Rightarrow> disk \<Rightarrow> disk option" where
  "Mkdir s d =
     (let p = pathOf s
      in if statPath d p \<noteq> None \<or> \<not> isDirAt d (butlast p) then None else Some (d(p \<mapsto> Dir)))"

definition WriteFile :: "string \<Rightarrow> string \<Rightarrow> disk \<Rightarrow> disk option" where
  "WriteFile s content d =
     (let p = pathOf s
      in if isDirAt d p \<or> \<not> isDirAt d (butlast p) then None else Some (d(p \<mapsto> File content)))"

definition ReadFile :: "disk \<Rightarrow> string \<Rightarrow> string option" where
  "ReadFile d s = (case statPath d (pathOf s) of Some (File c) \<Rightarrow> Some c | _ \<Rightarrow> None)"

text \<open>\<open>os.IsNotExist\<close> holds of the error of \<open>os.Stat\<close> for a path that is not there, but not of the error for a
  path below a file.\<close>

definition belowFile :: "disk \<Rightarrow> path \<Rightarrow> bool" where
  "belowFile d p \<longleftrightarrow> list_ex (\<lambda>k. case statPath d (take k p) of Some (File _) \<Rightarrow> True | _ \<Rightarrow> False) [0..<length p]"

definition notExist :: "disk \<Rightarrow> string \<Rightarrow> bool" where
  "notExist d s \<longleftrightarrow> s = [] \<or> statPath d (pathOf s) = None \<and> \<not> belowFile d (pathOf s)"

text \<open>No error.\<close>

definition validateDir :: "disk \<Rightarrow> string \<Rightarrow> bool" where
  "validateDir d s \<longleftrightarrow> \<not> notExist d s"

text \<open>\<open>os.IsExist\<close> is false of every error of \<open>os.Stat\<close>.\<close>

definition isDirExist :: "disk \<Rightarrow> string \<Rightarrow> bool" where
  "isDirExist d s \<longleftrightarrow> s \<noteq> [] \<and> statPath d (pathOf s) \<noteq> None"

definition isWorkdirMonorepo :: "disk \<Rightarrow> bool" where
  "isWorkdirMonorepo d \<longleftrightarrow> isDirAt d (pathOf ''sdk/'') \<and> isDirAt d (pathOf ''services/'')"

section \<open>Trees of files\<close>

datatype genData = DNone | DService serviceConfig | DModule moduleConfig | DMap "(string \<times> string) list"

datatype fileStructure = FS
  (TargetDir: string) (IsDir: bool) (FromTemplate: bool) (DataSource: genData) (Source: string) (FileName: string)
  (Skip: bool) (SkipAll: bool) (SkipIfExist: bool) (Childs: "fileStructure list")

text \<open>Literals of the source with the fields they set, and assignments to a field.\<close>

definition fsDir :: "string \<Rightarrow> fileStructure list \<Rightarrow> fileStructure" where
  "fsDir target childs = FS target True False DNone [] [] False False False childs"

definition fsTmpl :: "genData \<Rightarrow> string \<Rightarrow> string \<Rightarrow> fileStructure" where
  "fsTmpl dat src name = FS [] False True dat src name False False False []"

definition fsFile :: "string \<Rightarrow> string \<Rightarrow> fileStructure" where
  "fsFile src name = FS [] False False DNone src name False False False []"

fun setSkip :: "bool \<Rightarrow> fileStructure \<Rightarrow> fileStructure" where
  "setSkip b (FS t i f dt s n _ a e cs) = FS t i f dt s n b a e cs"

fun setSkipAll :: "bool \<Rightarrow> fileStructure \<Rightarrow> fileStructure" where
  "setSkipAll b (FS t i f dt s n k _ e cs) = FS t i f dt s n k b e cs"

fun setSkipIfExist :: "bool \<Rightarrow> fileStructure \<Rightarrow> fileStructure" where
  "setSkipIfExist b (FS t i f dt s n k a _ cs) = FS t i f dt s n k a b cs"

fun setTargetDir :: "string \<Rightarrow> fileStructure \<Rightarrow> fileStructure" where
  "setTargetDir b (FS _ i f dt s n k a e cs) = FS b i f dt s n k a e cs"

fun setChilds :: "fileStructure list \<Rightarrow> fileStructure \<Rightarrow> fileStructure" where
  "setChilds cs (FS t i f dt s n k a e _) = FS t i f dt s n k a e cs"

definition addChilds :: "fileStructure list \<Rightarrow> fileStructure \<Rightarrow> fileStructure" where
  "addChilds cs f = setChilds (Childs f @ cs) f"

text \<open>The texts of the template constants by their names, and the engine.\<close>

record templates =
  tmText :: "string \<Rightarrow> string"
  tmRender :: "string \<Rightarrow> genData \<Rightarrow> string"

definition defaultDataSource :: "templates \<Rightarrow> string \<Rightarrow> string" where
  "defaultDataSource T fileName = tmRender T (tmText T ''defaultFile'') (DMap [(''packageName'', fileName)])"

text \<open>The text of a file below the directory \<open>dir\<close>.\<close>

definition lastComponent :: "string \<Rightarrow> string" where
  "lastComponent dir = (let p = pathOf dir in if p = [] then ''.'' else last p)"

definition parseTemplate :: "templates \<Rightarrow> string \<Rightarrow> fileStructure \<Rightarrow> string" where
  "parseTemplate T dir f =
     (if FromTemplate f then
        (if Source f \<noteq> [] then tmRender T (Source f) (DataSource f) else defaultDataSource T (lastComponent dir))
      else Source f)"

text \<open>\<open>log.Fatal\<close> ends the process with the disk as it is.\<close>

datatype genResult = Fatal disk | Written disk

primrec diskOf :: "genResult \<Rightarrow> disk" where
  "diskOf (Fatal d) = d"
| "diskOf (Written d) = d"

text \<open>One node, without its children: stop the whole subtree (\<open>SkipAll\<close>), go on to the children, or die.\<close>

datatype nodeResult = Pruned | Descend disk | Died disk

definition writeNode :: "templates \<Rightarrow> string \<Rightarrow> fileStructure \<Rightarrow> disk \<Rightarrow> nodeResult" where
  "writeNode T dir fl d =
     (if FileName fl \<noteq> [] then
        (if statPath d (pathOf (dir @ FileName fl)) \<noteq> None \<and> SkipIfExist fl then Descend d
         else case WriteFile (dir @ FileName fl) (parseTemplate T dir fl) d of
                None \<Rightarrow> Died d
              | Some d' \<Rightarrow> Descend d')
      else Descend d)"

definition execNode :: "templates \<Rightarrow> string \<Rightarrow> fileStructure \<Rightarrow> disk \<Rightarrow> nodeResult" where
  "execNode T dir fl d =
     (if Skip fl then Descend d
      else if SkipAll fl then Pruned
      else if IsDir fl then
        (case Mkdir dir d of
           None \<Rightarrow> if SkipIfExist fl then Descend d else Died d
         | Some d' \<Rightarrow> writeNode T dir fl d')
      else writeNode T dir fl d)"

lemma Childs_size [termination_simp]: "size_list size (Childs fl) < size fl"
  by (cases fl) simp

fun execGenerator :: "templates \<Rightarrow> string \<Rightarrow> fileStructure \<Rightarrow> disk \<Rightarrow> genResult"
  and execChilds :: "templates \<Rightarrow> string \<Rightarrow> fileStructure list \<Rightarrow> disk \<Rightarrow> genResult" where
  "execGenerator T prefix fl d =
     (case execNode T (prefix @ TargetDir fl) fl d of
        Died d' \<Rightarrow> Fatal d'
      | Pruned \<Rightarrow> Written d
      | Descend d' \<Rightarrow> execChilds T (prefix @ TargetDir fl) (Childs fl) d')"
| "execChilds T dir [] d = Written d"
| "execChilds T dir (child # childs) d =
     (case execGenerator T dir child d of
        Fatal d' \<Rightarrow> Fatal d'
      | Written d' \<Rightarrow> execChilds T dir childs d')"

section \<open>The plan of a tree\<close>

text \<open>Reference: the operations of a tree as a list, in the order of the walk, and their execution.\<close>

datatype genOp = OpDir (opPath: path) (opIfAbsent: bool) | OpFile (opPath: path) (opText: string) (opIfAbsent: bool)

primrec runOp :: "genOp \<Rightarrow> disk \<Rightarrow> disk option" where
  "runOp (OpDir p e) d =
     (if statPath d p \<noteq> None \<or> \<not> isDirAt d (butlast p) then (if e then Some d else None) else Some (d(p \<mapsto> Dir)))"
| "runOp (OpFile p c e) d =
     (if statPath d p \<noteq> None \<and> e then Some d
      else if isDirAt d p \<or> \<not> isDirAt d (butlast p) then None else Some (d(p \<mapsto> File c)))"

fun runPlan :: "genOp list \<Rightarrow> disk \<Rightarrow> genResult" where
  "runPlan [] d = Written d"
| "runPlan (op # ops) d = (case runOp op d of None \<Rightarrow> Fatal d | Some d' \<Rightarrow> runPlan ops d')"

definition nodeOps :: "templates \<Rightarrow> string \<Rightarrow> fileStructure \<Rightarrow> genOp list" where
  "nodeOps T dir fl =
     (if Skip fl \<or> SkipAll fl then []
      else if IsDir fl then [OpDir (pathOf dir) (SkipIfExist fl)]
      else if FileName fl \<noteq> [] then [OpFile (pathOf (dir @ FileName fl)) (parseTemplate T dir fl) (SkipIfExist fl)]
      else [])"

fun plan :: "templates \<Rightarrow> string \<Rightarrow> fileStructure \<Rightarrow> genOp list"
  and planAll :: "templates \<Rightarrow> string \<Rightarrow> fileStructure list \<Rightarrow> genOp list" where
  "plan T prefix fl =
     (if \<not> Skip fl \<and> SkipAll fl then []
      else nodeOps T (prefix @ TargetDir fl) fl @ planAll T (prefix @ TargetDir fl) (Childs fl))"
| "planAll T dir [] = []"
| "planAll T dir (child # childs) = plan T dir child @ planAll T dir childs"

text \<open>No node is a directory and a file at once, as everywhere in the source.\<close>

fun pureTree :: "fileStructure \<Rightarrow> bool"
  and pureTrees :: "fileStructure list \<Rightarrow> bool" where
  "pureTree fl \<longleftrightarrow> \<not> (IsDir fl \<and> FileName fl \<noteq> []) \<and> pureTrees (Childs fl)"
| "pureTrees [] \<longleftrightarrow> True"
| "pureTrees (c # cs) \<longleftrightarrow> pureTree c \<and> pureTrees cs"

lemma runPlan_append:
  "runPlan (xs @ ys) d = (case runPlan xs d of Fatal d' \<Rightarrow> Fatal d' | Written d' \<Rightarrow> runPlan ys d')"
  by (induction xs arbitrary: d) (auto split: option.splits)

lemma execNode_ops:
  assumes "\<not> (IsDir fl \<and> FileName fl \<noteq> [])" "\<not> (\<not> Skip fl \<and> SkipAll fl)"
  shows "execNode T dir fl d = (case runPlan (nodeOps T dir fl) d of Fatal d' \<Rightarrow> Died d' | Written d' \<Rightarrow> Descend d')"
  using assms by (auto simp: execNode_def writeNode_def nodeOps_def Mkdir_def WriteFile_def Let_def split: option.splits)

lemma exec_plan:
  "pureTree fl \<Longrightarrow> execGenerator T prefix fl d = runPlan (plan T prefix fl) d"
  "pureTrees fls \<Longrightarrow> execChilds T prefix fls d = runPlan (planAll T prefix fls) d"
proof (induction T prefix fl d and T prefix fls d rule: execGenerator_execChilds.induct)
  case (1 T prefix fl d)
  show ?case
  proof (cases "\<not> Skip fl \<and> SkipAll fl")
    case True
    then show ?thesis by (simp add: execNode_def)
  next
    case False
    then show ?thesis using 1 execNode_ops [of fl T "prefix @ TargetDir fl" d]
      by (auto simp: runPlan_append split: genResult.splits)
  qed
next
  case (3 T dir child childs d)
  then show ?case by (simp add: runPlan_append split: genResult.splits)
qed simp

lemma runOp_frame: "runOp op d = Some d' \<Longrightarrow> p \<noteq> opPath op \<Longrightarrow> d' p = d p"
  by (cases op) (auto split: if_splits)

lemma runPlan_frame: "p \<notin> opPath ` set ops \<Longrightarrow> diskOf (runPlan ops d) p = d p"
proof (induction ops arbitrary: d)
  case (Cons op ops)
  then show ?case using runOp_frame [of op d] by (auto split: option.splits)
qed simp

text \<open>What is on the disk stays: a directory always, a file unless a node writes it again without
  \<open>SkipIfExist\<close>.\<close>

lemma runPlan_keeps:
  assumes "d p = Some x" and "\<And>c. OpFile p c False \<notin> set ops"
  shows "diskOf (runPlan ops d) p = Some x"
  using assms
proof (induction ops arbitrary: d)
  case (Cons op ops)
  show ?case
  proof (cases "runOp op d")
    case None
    then show ?thesis using Cons by simp
  next
    case (Some d')
    have "d' p = Some x" using Some Cons.prems by (cases op) (auto simp: statPath_def split: if_splits)
    then show ?thesis using Cons Some by auto
  qed
qed simp

text \<open>A plan fits a disk: every operation is new there and its directory is there or made before it.\<close>

fun fits :: "genOp list \<Rightarrow> disk \<Rightarrow> bool" where
  "fits [] d \<longleftrightarrow> True"
| "fits (op # ops) d \<longleftrightarrow> statPath d (opPath op) = None \<and> isDirAt d (butlast (opPath op)) \<and>
     fits ops (d(opPath op \<mapsto> (case op of OpDir _ _ \<Rightarrow> Dir | OpFile _ c _ \<Rightarrow> File c)))"

primrec opNode :: "genOp \<Rightarrow> path \<times> node" where
  "opNode (OpDir p e) = (p, Dir)"
| "opNode (OpFile p c e) = (p, File c)"

lemma runPlan_fits: "fits ops d \<Longrightarrow> runPlan ops d = Written (d ++ map_of (rev (map opNode ops)))"
proof (induction ops arbitrary: d)
  case (Cons op ops)
  define n where "n = (case op of OpDir _ _ \<Rightarrow> Dir | OpFile _ c _ \<Rightarrow> File c)"
  have o: "opNode op = (opPath op, n)" by (cases op) (simp_all add: n_def)
  have "runOp op d = Some (d(opPath op \<mapsto> n))" using Cons.prems by (cases op) (auto simp: n_def isDirAt_def)
  then have "runPlan (op # ops) d = runPlan ops (d(opPath op \<mapsto> n))" by simp
  also have "\<dots> = Written ((d(opPath op \<mapsto> n)) ++ map_of (rev (map opNode ops)))"
    by (rule Cons.IH) (use Cons.prems in \<open>simp only: fits.simps n_def\<close>)
  also have "(d(opPath op \<mapsto> n)) ++ map_of (rev (map opNode ops)) = d ++ map_of (rev (map opNode (op # ops)))"
    by (auto simp: o map_add_def fun_eq_iff split: option.splits)
  finally show ?case .
qed simp

end
