(* ===== verification/Gen_Update.thy ===== *)
theory Gen_Update
  imports Gen_Base
begin

text \<open>
  The generator (\<open>src/cmd/candi\<close>), continued: the comparison of versions, the menus of handlers and the edits of
  files that are there already (\<open>project_generator_utils.go\<close>).
\<close>

section \<open>Versions\<close>

definition getDefaultPackageName :: "string \<Rightarrow> string" where
  "getDefaultPackageName env =
     (let packageOptions = SplitByte (CHR '','') env
      in if length packageOptions = 1 \<and> packageOptions ! 0 \<noteq> [] then packageOptions ! 0 else DefaultPackageName)"

definition getGoVersion :: "string \<Rightarrow> string" where
  "getGoVersion runtimeVersion =
     (let version = TrimPrefix runtimeVersion ''go''; versionDetails = SplitByte (CHR ''.'') version
      in if length versionDetails > 2 then JoinStr ''.'' (butlast versionDetails) else version)"

fun versionLoop :: "string list \<Rightarrow> int list \<Rightarrow> bool" where
  "versionLoop (s # cliSplit) (p # projectSplit) =
     (let c = fst (Atoi s) in if c < p then True else if c > p then False else versionLoop cliSplit projectSplit)"
| "versionLoop _ _ = False"

definition checkVersion :: "string \<Rightarrow> string \<Rightarrow> string option" where
  "checkVersion cli0 project0 =
     (let cli = TrimCut ''v'' cli0; project = TrimCut ''v'' project0;
          cliSplit = SplitByte (CHR ''.'') cli;
          parts = SplitByte (CHR ''.'') project;
          projectSplit = map (\<lambda>i. if i < length parts then fst (Atoi (parts ! i)) else 0) [0..<length cliSplit]
      in if versionLoop cliSplit projectSplit
         then Some (''ERROR: Your cli version ('' @ cli @ '') must greater than candi version in service ('' @ project @ ''), please upgrade your CLI'')
         else None)"

section \<open>Menus\<close>

text \<open>A menu has an entry for every condition that holds, numbered from one; the number selects the
  handler.\<close>

definition menuStep :: "string list \<times> (string \<rightharpoonup> string) \<Rightarrow> bool \<times> string \<times> string \<Rightarrow> string list \<times> (string \<rightharpoonup> string)" where
  "menuStep m item =
     (case (m, item) of
        ((options, handlers), (cond, label, handler)) \<Rightarrow>
          if cond then
            (let options' = options @ [Itoa (int (length options) + 1) @ '') '' @ label]
             in (options', handlers(Itoa (int (length options')) \<mapsto> handler)))
          else (options, handlers))"

definition menuOf :: "(bool \<times> string \<times> string) list \<Rightarrow> string \<times> (string \<rightharpoonup> string)" where
  "menuOf items =
     (let (options, handlers) = foldl menuStep ([], Map.empty) items in (JoinStr [CHR 0x0A] options, handlers))"

text \<open>The conditions of a built-in handler and of a plugin.\<close>

definition handlerShown :: "disk \<Rightarrow> flagParameter \<Rightarrow> bool \<Rightarrow> string list \<Rightarrow> bool" where
  "handlerShown d flag active place \<longleftrightarrow>
     addModule flag \<or> (\<not> active \<or> (addHandler flag \<and> \<not> validateDir d (getFullModuleChildDir flag (''delivery'' # place))))"

definition pluginShown :: "disk \<Rightarrow> flagParameter \<Rightarrow> string \<Rightarrow> bool" where
  "pluginShown d flag name \<longleftrightarrow>
     addModule flag \<or> initService flag
     \<or> (addHandler flag \<and> \<not> validateDir d (getFullModuleChildDir flag [''delivery'', ''workerhandler'', ToLower name @ ''_handler.go'']))"

definition serverItems :: "disk \<Rightarrow> serviceConfig \<Rightarrow> flagParameter \<Rightarrow> (bool \<times> string \<times> string) list" where
  "serverItems d cfg flag =
     [(handlerShown d flag (cfRestHandler (svConfig cfg)) [''resthandler''], ''REST API'', RestHandler),
      (handlerShown d flag (cfGRPCHandler (svConfig cfg)) [''grpchandler''], ''GRPC'', GrpcHandler),
      (handlerShown d flag (cfGraphQLHandler (svConfig cfg)) [''graphqlhandler''], ''GraphQL'', GraphqlHandler)]"

definition filterServerHandler :: "disk \<Rightarrow> serviceConfig \<Rightarrow> flagParameter \<Rightarrow> string \<times> (string \<rightharpoonup> string)" where
  "filterServerHandler d cfg flag = menuOf (serverItems d cfg flag)"

definition workerItems :: "disk \<Rightarrow> serviceConfig \<Rightarrow> flagParameter \<Rightarrow> (bool \<times> string \<times> string) list" where
  "workerItems d cfg flag =
     [(handlerShown d flag (cfKafkaHandler (svConfig cfg)) [''workerhandler'', ''kafka_handler.go''], ''Kafka Consumer'', KafkaHandler),
      (handlerShown d flag (cfSchedulerHandler (svConfig cfg)) [''workerhandler'', ''cron_handler.go''], ''Cron Scheduler'', SchedulerHandler),
      (handlerShown d flag (cfRedisSubsHandler (svConfig cfg)) [''workerhandler'', ''redis_handler.go''], ''Redis Subscriber'', RedissubsHandler),
      (handlerShown d flag (cfTaskQueueHandler (svConfig cfg)) [''workerhandler'', ''taskqueue_handler.go''], ''Task Queue Worker'', TaskqueueHandler),
      (handlerShown d flag (cfPostgresListenerHandler (svConfig cfg)) [''workerhandler'', ''postgres_listener_handler.go''], ''Postgres Event Listener Worker'', PostgresListenerHandler),
      (handlerShown d flag (cfRabbitMQHandler (svConfig cfg)) [''workerhandler'', ''rabbitmq_handler.go''], ''RabbitMQ Consumer'', RabbitmqHandler),
      (pluginShown d flag pluginGCPPubSubWorker, ''GCP PubSub Subscriber (plugin)'', pluginGCPPubSubWorker),
      (pluginShown d flag pluginSTOMPWorker, ''AMQ (STOMP) Consumer (plugin)'', pluginSTOMPWorker),
      (pluginShown d flag pluginMQTTWorker, ''MQTT Subscriber (plugin)'', pluginMQTTWorker)]"

definition filterWorkerHandler :: "disk \<Rightarrow> serviceConfig \<Rightarrow> flagParameter \<Rightarrow> string \<times> (string \<rightharpoonup> string)" where
  "filterWorkerHandler d cfg flag = menuOf (workerItems d cfg flag)"

definition deliveryItems :: "disk \<Rightarrow> string \<Rightarrow> (bool \<times> string \<times> string) list" where
  "deliveryItems d path0 =
     (let path = path0 @ ''/delivery''
      in [(validateDir d (path @ ''/resthandler''), ''REST API'', RestHandler),
          (validateDir d (path @ ''/grpchandler''), ''GRPC'', GrpcHandler),
          (validateDir d (path @ ''/graphqlhandler''), ''GraphQL'', GraphqlHandler),
          (validateDir d (path @ ''/workerhandler/kafka_handler.go''), ''Kafka Consumer'', KafkaHandler),
          (validateDir d (path @ ''/workerhandler/cron_handler.go''), ''Cron Scheduler'', SchedulerHandler),
          (validateDir d (path @ ''/workerhandler/redis_handler.go''), ''Redis Subscriber'', RedissubsHandler),
          (validateDir d (path @ ''/workerhandler/taskqueue_handler.go''), ''Task Queue Worker'', TaskqueueHandler),
          (validateDir d (path @ ''/workerhandler/postgres_listener_handler.go''), ''Postgres Event Listener Worker'', PostgresListenerHandler),
          (validateDir d (path @ ''/workerhandler/rabbitmq_handler.go''), ''RabbitMQ Consumer'', RabbitmqHandler),
          (validateDir d (path @ ''/workerhandler/'' @ ToLower pluginGCPPubSubWorker @ ''_handler.go''), ''GCP PubSub Subscriber (plugin)'', pluginGCPPubSubWorker),
          (validateDir d (path @ ''/workerhandler/'' @ ToLower pluginSTOMPWorker @ ''_handler.go''), ''AMQ (STOMP) Consumer (plugin)'', pluginSTOMPWorker),
          (validateDir d (path @ ''/workerhandler/'' @ ToLower pluginMQTTWorker @ ''_handler.go''), ''MQTT Subscriber (plugin)'', pluginMQTTWorker)])"

definition getAllModuleHandler :: "disk \<Rightarrow> string \<Rightarrow> string \<times> (string \<rightharpoonup> string)" where
  "getAllModuleHandler d path = menuOf (deliveryItems d path)"

section \<open>Edits\<close>

record fileUpdate =
  fuPath :: string
  fuOld :: string
  fuNew :: string
  fuSkipContains :: string

definition replaceIn :: "string \<Rightarrow> string \<Rightarrow> string \<Rightarrow> fileUpdate" where
  "replaceIn path old new = \<lparr>fuPath = path, fuOld = old, fuNew = new, fuSkipContains = []\<rparr>"

text \<open>A file that cannot be read or written is left as it is; the errors are dropped.\<close>

definition overwrite :: "string \<Rightarrow> string \<Rightarrow> disk \<Rightarrow> disk" where
  "overwrite path content d = (case WriteFile path content d of None \<Rightarrow> d | Some d' \<Rightarrow> d')"

definition readFileAndApply :: "fileUpdate \<Rightarrow> disk \<Rightarrow> disk" where
  "readFileAndApply f d =
     (case ReadFile d (fuPath f) of
        None \<Rightarrow> d
      | Some b \<Rightarrow>
          if fuSkipContains f \<noteq> [] \<and> Contains b (fuSkipContains f) then d
          else overwrite (fuPath f) (ReplaceAll (fuOld f) (fuNew f) b) d)"

definition addContent :: "fileUpdate \<Rightarrow> disk \<Rightarrow> disk" where
  "addContent f d =
     (case ReadFile d (fuPath f) of
        None \<Rightarrow> d
      | Some b \<Rightarrow>
          if fuSkipContains f \<noteq> [] \<and> Contains b (fuSkipContains f) then d
          else overwrite (fuPath f) (b @ [CHR 0x0A] @ fuNew f) d)"

definition applyAll :: "fileUpdate list \<Rightarrow> disk \<Rightarrow> disk" where
  "applyAll fus d = foldl (\<lambda>d fu. readFileAndApply fu d) d fus"

text \<open>\<open>strings.Title\<close> on the names it is used for: a letter after a byte that is no letter, digit or underscore
  becomes a capital.\<close>

definition isTitleSeparator :: "char \<Rightarrow> bool" where
  "isTitleSeparator c \<longleftrightarrow> \<not> (isUpperByte c \<or> isLowerByte c \<or> is_digit c \<or> c = CHR ''_'' \<or> 128 \<le> (of_char c :: int))"

fun titleLoop :: "bool \<Rightarrow> string \<Rightarrow> string" where
  "titleLoop start [] = []"
| "titleLoop start (c # cs) = (if start then upper_char c else c) # titleLoop (isTitleSeparator c) cs"

definition Title :: "string \<Rightarrow> string" where
  "Title s = titleLoop True s"

abbreviation nl :: string where "nl \<equiv> [CHR 0x0A]"
abbreviation tab :: string where "tab \<equiv> [CHR 0x09]"
abbreviation quote :: string where "quote \<equiv> [CHR 0x22]"

text \<open>The two files with the environment of a service.\<close>

definition envUpdates :: "string \<Rightarrow> bool \<Rightarrow> string \<Rightarrow> fileUpdate list" where
  "envUpdates rootDir active var =
     (if active then
        [replaceIn (rootDir @ ''.env'') (var @ ''=false'') (var @ ''=true''),
         replaceIn (rootDir @ ''.env.sample'') (var @ ''=false'') (var @ ''=true'')]
      else [])"

definition uncomment :: "string \<Rightarrow> string \<Rightarrow> fileUpdate" where
  "uncomment path line = replaceIn path (''// '' @ line) line"

definition moduleFile :: "string \<Rightarrow> moduleConfig \<Rightarrow> string" where
  "moduleFile rootDir m = rootDir @ ''internal/modules/'' @ cleanSpecialChar (ModuleName m) @ ''/module.go''"

definition deliveryPackageDir :: "moduleConfig \<Rightarrow> string" where
  "deliveryPackageDir m = quote @ PackagePrefix (mdHeader m) @ ''/internal/modules/'' @ cleanSpecialChar (ModuleName m) @ ''/delivery''"

definition moduleUpdates :: "string \<Rightarrow> moduleConfig \<Rightarrow> fileUpdate list" where
  "moduleUpdates rootDir m =
     (let file = moduleFile rootDir m; pkg = deliveryPackageDir m; schema = rootDir @ ''api/graphql/_schema.graphql'';
          cleanMod = ToCamelCase (ModuleName m); cleanUpperMod = Title (ToCamelCase (ModuleName m));
          workerActivations = constructModuleWorkerActivation m
      in (if cfRestHandler (mdConfig m) then [uncomment file ''mod.restHandler'', uncomment file (pkg @ ''/resthandler'')] else []) @
         (if cfGRPCHandler (mdConfig m) then [uncomment file ''mod.grpcHandler'', uncomment file (pkg @ ''/grpchandler'')] else []) @
         (if cfGraphQLHandler (mdConfig m) then
            [replaceIn schema ''type Query {'' (''type Query {'' @ nl @ tab @ cleanMod @ '': '' @ cleanUpperMod @ ''QueryResolver @auth(authType: BEARER)''),
             replaceIn schema ''type Mutation {'' (''type Mutation {'' @ nl @ tab @ cleanMod @ '': '' @ cleanUpperMod @ ''MutationResolver @auth(authType: BEARER)''),
             replaceIn schema ''type Subscription {'' (''type Subscription {'' @ nl @ tab @ cleanMod @ '': '' @ cleanUpperMod @ ''SubscriptionResolver''),
             uncomment file ''mod.graphqlHandler'', uncomment file (pkg @ ''/graphqlhandler'')]
          else []) @
         (if length workerActivations > 0 then uncomment file (pkg @ ''/workerhandler'') # map (uncomment file) workerActivations else []))"

definition pluginUpdates :: "string \<Rightarrow> moduleConfig list \<Rightarrow> plugin \<Rightarrow> fileUpdate list" where
  "pluginUpdates rootDir modules pl =
     map (\<lambda>(before, after). replaceIn (rootDir @ ''configs/configs.go'') before after) (plEditConfig pl) @
     map (\<lambda>(before, after). replaceIn (rootDir @ ''configs/app_factory.go'') before after) (plEditAppFactory pl) @
     concat (map (\<lambda>m. uncomment (moduleFile rootDir m) (deliveryPackageDir m @ ''/workerhandler'') #
                        map (\<lambda>(before, after). replaceIn (moduleFile rootDir m) before after) (plEditModule pl)) modules)"

definition getNeedFileUpdates :: "flagParameter \<Rightarrow> serviceConfig \<Rightarrow> fileUpdate list" where
  "getNeedFileUpdates flag srv =
     (let rootDir = getRootDir flag srv; c = svConfig srv; configs = rootDir @ ''configs/configs.go'';
          modules = filter (\<lambda>m. \<not> (mdSkip m \<and> \<not> addHandler flag)) (svModules srv)
      in envUpdates rootDir (cfRestHandler c) ''USE_REST'' @
         envUpdates rootDir (cfGRPCHandler c) ''USE_GRPC'' @
         envUpdates rootDir (cfGraphQLHandler c) ''USE_GRAPHQL'' @
         (if cfGraphQLHandler c then [uncomment (rootDir @ ''api/api.go'') ''//go:embed all:graphql''] else []) @
         envUpdates rootDir (cfKafkaHandler c) ''USE_KAFKA_CONSUMER'' @
         (if cfKafkaHandler c then [uncomment configs ''broker.NewKafkaBroker(),''] else []) @
         envUpdates rootDir (cfSchedulerHandler c) ''USE_CRON_SCHEDULER'' @
         envUpdates rootDir (cfRedisSubsHandler c) ''USE_REDIS_SUBSCRIBER'' @
         (if cfRedisSubsHandler c then [uncomment configs ''broker.NewRedisBroker(redisDeps.WritePool()),''] else []) @
         envUpdates rootDir (cfTaskQueueHandler c) ''USE_TASK_QUEUE_WORKER'' @
         envUpdates rootDir (cfPostgresListenerHandler c) ''USE_POSTGRES_LISTENER_WORKER'' @
         envUpdates rootDir (cfRabbitMQHandler c) ''USE_RABBITMQ_CONSUMER'' @
         (if cfRabbitMQHandler c then [uncomment configs ''broker.NewRabbitMQBroker(),''] else []) @
         concat (map (moduleUpdates rootDir) modules) @
         concat (map (pluginUpdates rootDir modules \<circ> snd) (svWorkerPlugins srv)))"

section \<open>Paths and edits\<close>

lemma SplitByte_append: "SplitByte sep (x @ sep # y) = SplitByte sep x @ SplitByte sep y"
proof (induction x)
  case (Cons c x)
  obtain w ws where "SplitByte sep x = w # ws" by (cases "SplitByte sep x") auto
  with Cons show ?case by auto
qed simp

lemma SplitByte_single: "sep \<notin> set s \<Longrightarrow> SplitByte sep s = [s]"
  by (induction s) auto

lemma SplitByte_JoinStr:
  "ws \<noteq> [] \<Longrightarrow> \<forall>w \<in> set ws. sep \<notin> set w \<Longrightarrow> SplitByte sep (JoinStr [sep] ws) = ws"
  by (induction "[sep]" ws rule: JoinStr.induct) (simp_all add: SplitByte_single SplitByte_append)

lemma pathOf_slash: "pathOf (x @ CHR ''/'' # y) = pathOf x @ pathOf y"
  by (simp add: pathOf_def SplitByte_append)

lemma pathOf_Nil [simp]: "pathOf [] = []"
  by (simp add: pathOf_def)

lemma pathOf_component: "CHR ''/'' \<notin> set s \<Longrightarrow> pathOf s = (if s = [] \<or> s = ''.'' then [] else [s])"
  by (simp add: pathOf_def SplitByte_single)

text \<open>A root directory is empty or ends in a slash.\<close>

definition rootLike :: "string \<Rightarrow> bool" where
  "rootLike r \<longleftrightarrow> r = [] \<or> (\<exists>x. r = x @ ''/'')"

lemma getRootDir_rootLike: "rootLike (getRootDir flag srv)"
proof (cases "cfIsMonorepo (svConfig srv) \<or> initService flag")
  case True
  then have "getRootDir flag srv = (outputFlag flag @ ServiceName (svHeader srv)) @ ''/''" by (simp add: getRootDir_def)
  then show ?thesis unfolding rootLike_def by blast
qed (simp add: getRootDir_def rootLike_def)

lemma pathOf_root: "rootLike r \<Longrightarrow> pathOf (r @ s) = pathOf r @ pathOf s"
  by (auto simp: rootLike_def pathOf_slash)

lemma overwrite_frame: "q \<noteq> pathOf path \<Longrightarrow> overwrite path content d q = d q"
  by (auto simp: overwrite_def WriteFile_def Let_def split: option.splits if_splits)

lemma readFileAndApply_frame: "q \<noteq> pathOf (fuPath f) \<Longrightarrow> readFileAndApply f d q = d q"
  by (auto simp: readFileAndApply_def overwrite_frame split: option.splits)

lemma applyAll_frame: "\<forall>f \<in> set fus. q \<noteq> pathOf (fuPath f) \<Longrightarrow> applyAll fus d q = d q"
  by (induction fus arbitrary: d) (auto simp: applyAll_def readFileAndApply_frame)

lemma update_paths [simp]: "fuPath (replaceIn path old new) = path" "fuPath (uncomment path line) = path"
  by (simp_all add: replaceIn_def uncomment_def)

text \<open>The files that the edits of a service touch.\<close>

lemma moduleUpdates_path:
  "f \<in> set (moduleUpdates rootDir m) \<Longrightarrow> fuPath f \<in> {moduleFile rootDir m, rootDir @ ''api/graphql/_schema.graphql''}"
  by (auto simp: moduleUpdates_def Let_def split: if_splits)

lemma pluginUpdates_path:
  "f \<in> set (pluginUpdates rootDir ms pl) \<Longrightarrow>
     fuPath f \<in> {rootDir @ ''configs/configs.go'', rootDir @ ''configs/app_factory.go''} \<union> moduleFile rootDir ` set ms"
  by (auto simp: pluginUpdates_def)

lemma envUpdates_path: "f \<in> set (envUpdates rootDir a v) \<Longrightarrow> fuPath f \<in> {rootDir @ ''.env'', rootDir @ ''.env.sample''}"
  by (auto simp: envUpdates_def split: if_splits)

lemma needed_path:
  assumes "f \<in> set (getNeedFileUpdates flag srv)"
  shows "fuPath f \<in> moduleFile (getRootDir flag srv) ` set (svModules srv)
    \<or> (\<exists>s \<in> set [''.env'', ''.env.sample'', ''api/api.go'', ''configs/configs.go'', ''configs/app_factory.go'', ''api/graphql/_schema.graphql''].
         fuPath f = getRootDir flag srv @ s)"
proof -
  let ?ms = "filter (\<lambda>m. \<not> (mdSkip m \<and> \<not> addHandler flag)) (svModules srv)" and ?r = "getRootDir flag srv"
  consider (env) a v where "f \<in> set (envUpdates ?r a v)"
    | (line) s l where "f = uncomment (?r @ s) l" "s = ''api/api.go'' \<or> s = ''configs/configs.go''"
    | (md) m where "m \<in> set (svModules srv)" "f \<in> set (moduleUpdates ?r m)"
    | (pl) pl where "f \<in> set (pluginUpdates ?r ?ms pl)"
    using assms unfolding getNeedFileUpdates_def Let_def by (auto split: if_splits)
  then show ?thesis
  proof cases
    case env
    then show ?thesis using envUpdates_path by fastforce
  next
    case line
    then show ?thesis by auto
  next
    case md
    then show ?thesis using moduleUpdates_path [OF md(2)] by auto
  next
    case pl
    then show ?thesis using pluginUpdates_path [OF pl] by auto
  qed
qed

lemma moduleFile_path:
  assumes "rootLike r"
  shows "pathOf (r @ ''internal/modules/'' @ n @ ''/module.go'') = pathOf r @ [''internal'', ''modules''] @ pathOf n @ [''module.go'']"
proof -
  have "pathOf (''internal/modules/'' @ n @ ''/module.go'') = pathOf (''internal'' @ CHR ''/'' # (''modules'' @ CHR ''/'' # (n @ CHR ''/'' # ''module.go'')))" by simp
  also have "\<dots> = [''internal'', ''modules''] @ pathOf n @ [''module.go'']" by (simp only: pathOf_slash) (simp add: pathOf_component)
  finally show ?thesis by (simp add: pathOf_root [OF assms])
qed

lemma clean_no_dash: "CHR ''-'' \<notin> set (cleanSpecialChar s)" "CHR ''/'' \<notin> set (cleanSpecialChar s)"
  by (auto simp: cleanSpecialChar_def)

section \<open>Menus and versions\<close>

definition choices :: "(bool \<times> string \<times> string) list \<Rightarrow> string list" where
  "choices items = map (snd \<circ> snd) (filter fst items)"

lemma Itoa_inject: "Itoa (int i) = Itoa (int j) \<longleftrightarrow> i = j"
proof
  assume "Itoa (int i) = Itoa (int j)"
  then have "digits_val (Itoa_nat i) = digits_val (Itoa_nat j)" by (simp add: Itoa_def del: digits_val_Itoa_nat)
  then show "i = j" by simp
qed simp

abbreviation numbers :: "nat \<Rightarrow> string list" where
  "numbers n \<equiv> map (\<lambda>k. Itoa (int (Suc k))) [0..<n]"

lemma map_of_snoc: "map_of xs a = None \<Longrightarrow> map_of (xs @ [(a, b)]) = (map_of xs)(a \<mapsto> b)"
  by (auto simp: map_add_def fun_eq_iff split: option.splits)

lemma menu_numbers:
  "length (fst (foldl menuStep ([], Map.empty) items)) = length (choices items) \<and>
   snd (foldl menuStep ([], Map.empty) items) = map_of (zip (numbers (length (choices items))) (choices items))"
proof (induction items rule: rev_induct)
  case Nil
  then show ?case by (simp add: choices_def)
next
  case (snoc item items)
  obtain c l hdl where i: "item = (c, l, hdl)" by (cases item)
  obtain opts h where m: "foldl menuStep ([], Map.empty) items = (opts, h)" by fastforce
  let ?n = "length (choices items)"
  have IH: "length opts = ?n" "h = map_of (zip (numbers ?n) (choices items))" using snoc m by simp_all
  show ?case
  proof (cases c)
    case False
    then have "choices (items @ [item]) = choices items" by (simp add: i choices_def)
    then show ?thesis using snoc False by (simp add: i menuStep_def m)
  next
    case True
    have ch: "choices (items @ [item]) = choices items @ [hdl]" using True by (simp add: i choices_def)
    have new: "Itoa (int (Suc ?n)) \<notin> set (numbers ?n)"
    proof
      assume "Itoa (int (Suc ?n)) \<in> set (numbers ?n)"
      then obtain k where "k < ?n" "Itoa (int (Suc ?n)) = Itoa (int (Suc k))" by (auto simp del: of_nat_Suc)
      then show False unfolding Itoa_inject by simp
    qed
    have "map_of (zip (numbers ?n) (choices items)) (Itoa (int (Suc ?n))) = None"
      using new by (subst map_of_zip_is_None) simp_all
    then have "map_of (zip (numbers ?n) (choices items) @ [(Itoa (int (Suc ?n)), hdl)]) = h(Itoa (int (Suc ?n)) \<mapsto> hdl)"
      unfolding IH(2) by (rule map_of_snoc)
    moreover have "zip (numbers (length (choices (items @ [item])))) (choices (items @ [item]))
        = zip (numbers ?n) (choices items) @ [(Itoa (int (Suc ?n)), hdl)]"
      by (simp add: ch del: of_nat_Suc)
    moreover have "foldl menuStep ([], Map.empty) (items @ [item]) = (opts @ [Itoa (int (length opts) + 1) @ '') '' @ l], h(Itoa (int (Suc ?n)) \<mapsto> hdl))"
      using True IH(1) by (simp add: i menuStep_def m)
    ultimately show ?thesis using IH(1) ch by (simp del: of_nat_Suc)
  qed
qed

lemma menu_selects:
  "snd (menuOf items) key = Some hdl \<longleftrightarrow> (\<exists>k < length (choices items). key = Itoa (int (Suc k)) \<and> hdl = choices items ! k)"
proof -
  have "snd (menuOf items) = map_of (zip (numbers (length (choices items))) (choices items))"
    using menu_numbers [of items] by (simp add: menuOf_def split_beta)
  moreover have "distinct (numbers n)" for n by (auto simp: distinct_map inj_on_def Itoa_inject simp del: of_nat_Suc)
  ultimately have "snd (menuOf items) key = Some hdl \<longleftrightarrow> (key, hdl) \<in> set (zip (numbers (length (choices items))) (choices items))"
    by (simp add: map_of_eq_Some_iff)
  also have "\<dots> \<longleftrightarrow> (\<exists>k < length (choices items). key = numbers (length (choices items)) ! k \<and> hdl = choices items ! k)"
    by (auto simp: set_zip simp del: of_nat_Suc nth_map)
  finally show ?thesis by (auto simp del: of_nat_Suc)
qed

text \<open>A menu of handlers means what it says: the numbers that it accepts are one up to the number of the
  entries it shows, the number in front of an entry selects that entry's handler, and no handler is shown
  twice.\<close>

theorem menus_select:
  assumes "(menu, items) \<in> {(filterServerHandler d cfg flag, serverItems d cfg flag),
      (filterWorkerHandler d cfg flag, workerItems d cfg flag), (getAllModuleHandler d dir, deliveryItems d dir)}"
  shows "(\<forall>key hdl. snd menu key = Some hdl \<longleftrightarrow>
        (\<exists>k < length (choices items). key = Itoa (int (Suc k)) \<and> hdl = choices items ! k))
    \<and> distinct (choices items)"
proof
  show "\<forall>key hdl. snd menu key = Some hdl \<longleftrightarrow> (\<exists>k < length (choices items). key = Itoa (int (Suc k)) \<and> hdl = choices items ! k)"
    using assms menu_selects by (auto simp: filterServerHandler_def filterWorkerHandler_def getAllModuleHandler_def)
  have "distinct (map (snd \<circ> snd) items)"
    using assms by (auto simp: serverItems_def workerItems_def deliveryItems_def Let_def handler_names)
  then show "distinct (choices items)" by (simp add: choices_def distinct_map_filter)
qed

text \<open>Small configurations for the examples.\<close>

definition noHeader :: configHeader where
  "noHeader = \<lparr>GoVersion = [], Version = [], Header = [], ServiceName = ''svc'', PackagePrefix = ''svc'', ProtoSource = [], OutputDir = [], Owner = [], License = [], Year = 2024\<rparr>"

definition noConfig :: genConfig where
  "noConfig = \<lparr>cfIsMonorepo = False, cfRestHandler = False, cfGRPCHandler = False, cfGraphQLHandler = False, cfFiberRestHandler = False,
     cfKafkaHandler = False, cfSchedulerHandler = False, cfRedisSubsHandler = False, cfTaskQueueHandler = False, cfPostgresListenerHandler = False,
     cfRabbitMQHandler = False, cfIsWorkerActive = False, cfRedisDeps = False, cfSQLDeps = False, cfMongoDeps = False, cfSQLUseGORM = False,
     cfArangoDeps = False, cfSQLDriver = [], cfWorkerPlugins = []\<rparr>"

definition exFlag :: flagParameter where
  "exFlag = \<lparr>scopeFlag = [], packagePrefixFlag = [], protoOutputPkgFlag = [], outputFlag = [], libraryNameFlag = [], withGoModFlag = True, runFlag = False, allFlag = False,
     initService = False, addModule = False, addHandler = False, initMonorepo = False, versionFlag = False, isMonorepo = False, serviceName = [], moduleName = [], monorepoProjectName = ''monorepo'', flagModules = []\<rparr>"

definition exGenService :: "genConfig \<Rightarrow> string list \<Rightarrow> serviceConfig" where
  "exGenService c names = \<lparr>svHeader = noHeader, svConfig = c,
     svModules = map (\<lambda>n. \<lparr>mdHeader = noHeader, mdConfig = c, ModuleName = n, mdSkip = False\<rparr>) names, svWorkerPlugins = []\<rparr>"

theorem menus_select_witness:
  "snd (filterServerHandler Map.empty (exGenService (noConfig\<lparr>cfRestHandler := True\<rparr>) []) exFlag) ''1'' = Some GrpcHandler"
proof -
  let ?cfg = "exGenService (noConfig\<lparr>cfRestHandler := True\<rparr>) []"
  have "choices (serverItems Map.empty ?cfg exFlag) = [GrpcHandler, GraphqlHandler]"
    by (simp add: choices_def serverItems_def handlerShown_def exFlag_def exGenService_def noConfig_def)
  moreover have "Itoa (int (Suc 0)) = ''1''" by code_simp
  ultimately show ?thesis
    using menus_select [of "filterServerHandler Map.empty ?cfg exFlag" "serverItems Map.empty ?cfg exFlag" Map.empty ?cfg exFlag "[]"]
    by (metis insertI1 length_greater_0_conv list.distinct(1) nth_Cons_0)
qed

text \<open>The version that a release prints.\<close>

definition versionText :: "nat list \<Rightarrow> string" where
  "versionText ns = ''v'' @ JoinStr ''.'' (map Itoa_nat ns)"

text \<open>The later version: missing numbers count as zero, numbers beyond those of the first version do not
  count.\<close>

definition versionLess :: "nat list \<Rightarrow> nat list \<Rightarrow> bool" where
  "versionLess xs ys \<longleftrightarrow>
     (let ys' = map (\<lambda>i. if i < length ys then ys ! i else 0) [0..<length xs]
      in list_ex (\<lambda>i. take i xs = take i ys' \<and> xs ! i < ys' ! i) [0..<length xs])"

lemma versionLoop_lex:
  assumes "length ps = length ss"
  shows "versionLoop ss ps \<longleftrightarrow> (\<exists>i < length ss. map (\<lambda>s. fst (Atoi s)) (take i ss) = take i ps \<and> fst (Atoi (ss ! i)) < ps ! i)"
  using assms
proof (induction ss ps rule: versionLoop.induct)
  case (1 s ss p ps)
  let ?Q = "\<lambda>i. map (\<lambda>s. fst (Atoi s)) (take i (s # ss)) = take i (p # ps) \<and> fst (Atoi ((s # ss) ! i)) < (p # ps) ! i"
  have "(\<exists>i < length (s # ss). ?Q i) \<longleftrightarrow> ?Q 0 \<or> (\<exists>i < length ss. ?Q (Suc i))"
    by (simp only: length_Cons Ex_less_Suc2)
  with 1 show ?case by (cases "fst (Atoi s)" p rule: linorder_cases) (simp_all add: Let_def)
qed auto

lemma JoinStr_set: "set (JoinStr sep ws) \<subseteq> set sep \<union> (\<Union>w \<in> set ws. set w)"
  by (induction sep ws rule: JoinStr.induct) auto

lemma Itoa_nat_set: "c \<in> set (Itoa_nat n) \<Longrightarrow> is_digit c"
  using Itoa_nat_digits [of n] by (simp add: list_all_iff)

lemma versionText_trim: "TrimCut ''v'' (versionText ns) = JoinStr ''.'' (map Itoa_nat ns)"
proof -
  let ?s = "JoinStr ''.'' (map Itoa_nat ns)"
  have nov: "CHR ''v'' \<notin> set ?s"
  proof
    assume "CHR ''v'' \<in> set ?s"
    then obtain n where "CHR ''v'' \<in> set (Itoa_nat n)" using JoinStr_set [of "''.''" "map Itoa_nat ns"] by auto
    then have "is_digit (CHR ''v'')" by (rule Itoa_nat_set)
    then show False by (simp add: is_digit_def)
  qed
  then have "dropWhile (\<lambda>c. c = CHR ''v'') ?s = ?s" "dropWhile (\<lambda>c. c = CHR ''v'') (rev ?s) = rev ?s"
    by (metis (full_types) dropWhile_eq_self_iff hd_in_set set_rev)+
  then show ?thesis by (simp add: versionText_def TrimCut_def)
qed

lemma versionText_split: "ns \<noteq> [] \<Longrightarrow> SplitByte (CHR ''.'') (TrimCut ''v'' (versionText ns)) = map Itoa_nat ns"
proof -
  have "CHR ''.'' \<notin> set (Itoa_nat n)" for n using Itoa_nat_set [of "CHR ''.''" n] by (auto simp: is_digit_def)
  then show "ns \<noteq> [] \<Longrightarrow> ?thesis" by (simp add: versionText_trim SplitByte_JoinStr)
qed

lemma Atoi_Itoa_nat: "n < 2 ^ 63 \<Longrightarrow> fst (Atoi (Itoa_nat n)) = int n"
proof -
  assume "n < 2 ^ 63"
  then have "int n < 2 ^ 63" using of_nat_less_iff [of n "2 ^ 63", where 'a = int] by simp
  then have "int n \<le> maxInt64" "minInt64 \<le> int n" by (simp_all add: maxInt64_def minInt64_def)
  then show ?thesis using Atoi_Itoa [of "int n"] by (simp add: Itoa_def)
qed

text \<open>C32: The check of versions is the lexicographic order: for printed versions the command line is refused
  exactly when its version is smaller than that of the project, number by number from the left, where
  numbers that the project lacks count as zero and numbers that the command line lacks do not count.\<close>

theorem checkVersion_lexicographic:
  assumes "xs \<noteq> []" "ys \<noteq> []" "\<forall>n \<in> set xs \<union> set ys. n < 2 ^ 63"
  shows "checkVersion (versionText xs) (versionText ys) \<noteq> None \<longleftrightarrow> versionLess xs ys"
proof -
  define zs where "zs = map (\<lambda>i. if i < length ys then ys ! i else 0) [0..<length xs]"
  have l: "length zs = length xs" by (simp add: zs_def)
  have a: "fst (Atoi (Itoa_nat n)) = int n" if "n \<in> set xs \<union> set ys" for n using assms(3) that Atoi_Itoa_nat by blast
  have ps: "map (\<lambda>i. if i < length (map Itoa_nat ys) then fst (Atoi (map Itoa_nat ys ! i)) else 0) [0..<length (map Itoa_nat xs)] = map int zs"
    by (auto simp: a zs_def)
  have "map (\<lambda>s. fst (Atoi s)) (take i (map Itoa_nat xs)) = map int (take i xs)" for i
    using a by (auto simp: take_map dest: in_set_takeD)
  moreover have "map int (take i xs) = take i (map int zs) \<longleftrightarrow> take i xs = take i zs" for i
    by (metis (no_types, lifting) inj_map_eq_map inj_of_nat take_map)
  ultimately have "versionLoop (map Itoa_nat xs) (map int zs) \<longleftrightarrow> (\<exists>i < length xs. take i xs = take i zs \<and> xs ! i < zs ! i)"
    using versionLoop_lex [of "map int zs" "map Itoa_nat xs"] by (simp add: a l cong: conj_cong)
  then have "versionLoop (map Itoa_nat xs) (map int zs) \<longleftrightarrow> versionLess xs ys" by (auto simp: versionLess_def list_ex_iff zs_def [symmetric])
  then show ?thesis
    unfolding checkVersion_def Let_def versionText_split [OF assms(1)] versionText_split [OF assms(2)] ps by simp
qed

theorem checkVersion_lexicographic_witness:
  "checkVersion (versionText [1, 19, 1]) (versionText [1, 19, 2]) \<noteq> None \<and> checkVersion (versionText [1, 19, 1]) (versionText [1, 9, 12]) = None"
proof -
  have "versionLess [1, 19, 1] [1, 19, 2]" "\<not> versionLess [1, 19, 1] [1, 9, 12]" by code_simp+
  then show ?thesis using checkVersion_lexicographic [of "[1, 19, 1]" "[1, 19, 2]"] checkVersion_lexicographic [of "[1, 19, 1]" "[1, 9, 12]"] by simp
qed

text \<open>A module whose name has a dash is never edited: whatever handlers are added to it, its file
  \<open>module.go\<close>, in the directory that the generator made for it, stays as it was, because the edits look for
  the name without its dashes.\<close>

theorem dashed_module_not_edited:
  assumes "CHR ''-'' \<in> set name" and "CHR ''/'' \<notin> set name"
    and "q = pathOf (getRootDir flag srv @ ''internal/modules/'' @ name @ ''/module.go'')"
  shows "applyAll (getNeedFileUpdates flag srv) d q = d q"
proof (rule applyAll_frame, rule ballI)
  fix f assume f: "f \<in> set (getNeedFileUpdates flag srv)"
  let ?r = "getRootDir flag srv"
  have "name \<noteq> []" "name \<noteq> ''.''" using assms(1) by auto
  then have q: "q = pathOf ?r @ [''internal'', ''modules'', name, ''module.go'']"
    using assms(2,3) moduleFile_path [OF getRootDir_rootLike, of flag srv name] by (simp add: pathOf_component)
  show "q \<noteq> pathOf (fuPath f)" using needed_path [OF f]
  proof
    assume "fuPath f \<in> moduleFile ?r ` set (svModules srv)"
    then obtain m where "fuPath f = moduleFile ?r m" by blast
    then have "pathOf (fuPath f) = pathOf ?r @ [''internal'', ''modules''] @ pathOf (cleanSpecialChar (ModuleName m)) @ [''module.go'']"
      unfolding moduleFile_def by (simp only: moduleFile_path [OF getRootDir_rootLike])
    moreover have "name \<noteq> cleanSpecialChar (ModuleName m)" using assms(1) clean_no_dash(1) by metis
    ultimately show ?thesis by (auto simp: q pathOf_component [OF clean_no_dash(2)])
  next
    assume "\<exists>s \<in> set [''.env'', ''.env.sample'', ''api/api.go'', ''configs/configs.go'', ''configs/app_factory.go'', ''api/graphql/_schema.graphql''].
         fuPath f = ?r @ s"
    then obtain s where s: "s \<in> set [''.env'', ''.env.sample'', ''api/api.go'', ''configs/configs.go'', ''configs/app_factory.go'', ''api/graphql/_schema.graphql'']"
      "fuPath f = ?r @ s" by blast
    have "pathOf s \<noteq> [] \<and> last (pathOf s) \<noteq> ''module.go''" using s(1) by (auto simp: pathOf_def)
    then have "last (pathOf (fuPath f)) \<noteq> last q" by (simp add: s(2) pathOf_root [OF getRootDir_rootLike] q)
    then show ?thesis by metis
  qed
qed

theorem dashed_module_not_edited_witness:
  "applyAll (getNeedFileUpdates exFlag (exGenService (noConfig\<lparr>cfRestHandler := True\<rparr>) [''user-order'']))
     [[''internal'', ''modules'', ''user-order'', ''module.go''] \<mapsto> File ''// mod.restHandler'']
     [''internal'', ''modules'', ''user-order'', ''module.go''] = Some (File ''// mod.restHandler'')"
proof -
  let ?srv = "exGenService (noConfig\<lparr>cfRestHandler := True\<rparr>) [''user-order'']"
  have "getRootDir exFlag ?srv = []" by (simp add: getRootDir_def exFlag_def exGenService_def noConfig_def)
  then have "[''internal'', ''modules'', ''user-order'', ''module.go''] = pathOf (getRootDir exFlag ?srv @ ''internal/modules/'' @ ''user-order'' @ ''/module.go'')"
    by (simp add: pathOf_def)
  then show ?thesis
    using dashed_module_not_edited [of "''user-order''" "[''internal'', ''modules'', ''user-order'', ''module.go'']" exFlag ?srv] by simp
qed

end
