(* ===== verification/Gen_Project.thy ===== *)
theory Gen_Project
  imports Gen_Update
begin

text \<open>
  The generator (\<open>src/cmd/candi\<close>), its scopes: a new service and new modules (\<open>project_generator.go\<close>), a new
  monorepo, handlers added to a module and the shared files of a service (\<open>project_generator_add_handler.go\<close>),
  and a new use case (\<open>project_generator_add_usecase.go\<close>).  The texts of the templates, the plural of a word,
  the clock and the JSON text of a configuration are arguments.
\<close>

record genEnv =
  gvTemplates :: templates
  gvPlural :: "string \<Rightarrow> string"
  gvStamp :: int
  gvJSON :: "serviceConfig \<Rightarrow> string"
  gvCandiVersion :: string
  gvFuncText :: "string \<Rightarrow> string \<Rightarrow> string \<Rightarrow> string"

abbreviation tx :: "genEnv \<Rightarrow> string \<Rightarrow> string" where "tx E name \<equiv> tmText (gvTemplates E) name"

abbreviation underscored :: "string \<Rightarrow> string" where "underscored s \<equiv> ToDelimited s (CHR ''_'')"

definition thenDo :: "genResult \<Rightarrow> (disk \<Rightarrow> genResult) \<Rightarrow> genResult" where
  "thenDo r f = (case r of Fatal d \<Rightarrow> Fatal d | Written d \<Rightarrow> f d)"

section \<open>The tree of a module\<close>

definition withServiceConfig :: "serviceConfig \<Rightarrow> serviceConfig" where
  "withServiceConfig s = s\<lparr>svModules := map (\<lambda>m. m\<lparr>mdConfig := svConfig s\<rparr>) (svModules s)\<rparr>"

definition parseSharedRepository :: "genEnv \<Rightarrow> serviceConfig \<Rightarrow> fileStructure list" where
  "parseSharedRepository E s =
     (let dat = DService (withServiceConfig s); c = svConfig s
      in [fsTmpl dat (tx E ''templateRepository'') ''repository.go'',
          setSkip (\<not> cfSQLDeps c) (fsTmpl dat (tx E ''templateRepositoryUOWSQL'') ''repository_sql.go''),
          setSkip (\<not> cfMongoDeps c) (fsTmpl dat (tx E ''templateRepositoryUOWMongo'') ''repository_mongo.go''),
          setSkip (\<not> cfArangoDeps c) (fsTmpl dat (tx E ''templateRepositoryUOWArango'') ''repository_arango.go'')])"

definition parseRepositoryModule :: "genEnv \<Rightarrow> moduleConfig \<Rightarrow> fileStructure list" where
  "parseRepositoryModule E m =
     (let name = cleanSpecialChar (ToLower (ModuleName m)); c = mdConfig m
      in [setSkip (\<not> cfSQLDeps c) (fsTmpl (DModule m) (tx E ''templateRepositorySQLImpl'') (''repository_'' @ name @ ''_sql.go'')),
          setSkip (\<not> cfMongoDeps c) (fsTmpl (DModule m) (tx E ''templateRepositoryMongoImpl'') (''repository_'' @ name @ ''_mongo.go'')),
          setSkip (\<not> cfArangoDeps c) (fsTmpl (DModule m) (tx E ''templateRepositoryArangoImpl'') (''repository_'' @ name @ ''_arango.go''))])"

definition pluginHandlerFile :: "genEnv \<Rightarrow> moduleConfig \<Rightarrow> plugin \<Rightarrow> fileStructure" where
  "pluginHandlerFile E m pl =
     fsTmpl (DMap [(''PackagePrefix'', PackagePrefix (mdHeader m)), (''WorkerPluginName'', plName pl), (''ModuleName'', ModuleName m)])
       (tx E ''deliveryWorkerPluginTemplate'') (ToLower (plName pl) @ ''_handler.go'')"

definition workerHandlerFiles :: "genEnv \<Rightarrow> serviceConfig \<Rightarrow> moduleConfig \<Rightarrow> fileStructure list" where
  "workerHandlerFiles E s m =
     (let c = mdConfig m; dat = DModule m
      in [setSkipAll (\<not> cfKafkaHandler c) (fsTmpl dat (tx E ''deliveryKafkaTemplate'') ''kafka_handler.go''),
          setSkipAll (\<not> cfRedisSubsHandler c) (fsTmpl dat (tx E ''deliveryRedisTemplate'') ''redis_handler.go''),
          setSkipAll (\<not> cfSchedulerHandler c) (fsTmpl dat (tx E ''deliveryCronTemplate'') ''cron_handler.go''),
          setSkipAll (\<not> cfTaskQueueHandler c) (fsTmpl dat (tx E ''deliveryTaskQueueTemplate'') ''taskqueue_handler.go''),
          setSkipAll (\<not> cfPostgresListenerHandler c) (fsTmpl dat (tx E ''deliveryPostgresListenerTemplate'') ''postgres_listener_handler.go''),
          setSkipAll (\<not> cfRabbitMQHandler c) (fsTmpl dat (tx E ''deliveryRabbitMQTemplate'') ''rabbitmq_handler.go'')]
         @ map (pluginHandlerFile E m \<circ> snd) (svWorkerPlugins s))"

definition graphqlHandlerFiles :: "genEnv \<Rightarrow> moduleConfig \<Rightarrow> fileStructure list" where
  "graphqlHandlerFiles E m =
     [fsTmpl (DModule m) (tx E ''deliveryGraphqlRootTemplate'') ''root_resolver.go'',
      fsTmpl (DModule m) (tx E ''deliveryGraphqlQueryTemplate'') ''query_resolver.go'',
      fsTmpl (DModule m) (tx E ''deliveryGraphqlMutationTemplate'') ''mutation_resolver.go'',
      fsTmpl (DModule m) (tx E ''deliveryGraphqlSubscriptionTemplate'') ''subscription_resolver.go'']"

definition deliveryTree :: "genEnv \<Rightarrow> serviceConfig \<Rightarrow> moduleConfig \<Rightarrow> fileStructure" where
  "deliveryTree E s m =
     (let c = mdConfig m; dat = DModule m
      in fsDir ''delivery/''
           [setSkipAll (\<not> cfGraphQLHandler c) (fsDir ''graphqlhandler/'' (graphqlHandlerFiles E m)),
            setSkipAll (\<not> cfGRPCHandler c) (fsDir ''grpchandler/'' [fsTmpl dat (tx E ''deliveryGRPCTemplate'') ''grpchandler.go'']),
            setSkipAll (\<not> cfRestHandler c) (fsDir ''resthandler/''
              [fsTmpl dat (tx E ''deliveryRestTemplate'') ''resthandler.go'',
               fsTmpl dat (tx E ''deliveryRestTestTemplate'') ''resthandler_test.go'']),
            setSkip (\<not> cfIsWorkerActive (svConfig s)) (fsDir ''workerhandler/'' (workerHandlerFiles E s m))])"

definition domainTree :: "genEnv \<Rightarrow> moduleConfig \<Rightarrow> fileStructure" where
  "domainTree E m =
     (let dat = DModule m
      in fsDir ''domain/''
           [fsTmpl dat (''package domain'' @ nl) ''const.go'',
            fsTmpl dat (''package domain'' @ nl) ''payload.go'',
            fsTmpl dat (tx E ''templateModuleDomain'') ''filter.go'',
            fsTmpl dat (tx E ''templateModuleRequestDomain'') ''request.go'',
            fsTmpl dat (tx E ''templateModuleResponseDomain'') ''response.go''])"

definition usecaseTree :: "genEnv \<Rightarrow> moduleConfig \<Rightarrow> fileStructure" where
  "usecaseTree E m =
     (let dat = DModule m; name = underscored (ModuleName m)
      in fsDir ''usecase/''
           [fsTmpl dat (tx E ''templateUsecaseAbstraction'') ''usecase.go'',
            fsTmpl dat (tx E ''templateUsecaseTest'') ''usecase_test.go'',
            fsTmpl dat (tx E ''templateUsecaseGetAll'') (''get_all_'' @ name @ ''.go''),
            fsTmpl dat (tx E ''templateUsecaseGetAllTest'') (''get_all_'' @ name @ ''_test.go''),
            fsTmpl dat (tx E ''templateUsecaseGetDetail'') (''get_detail_'' @ name @ ''.go''),
            fsTmpl dat (tx E ''templateUsecaseGetDetailTest'') (''get_detail_'' @ name @ ''_test.go''),
            fsTmpl dat (tx E ''templateUsecaseCreate'') (''create_'' @ name @ ''.go''),
            fsTmpl dat (tx E ''templateUsecaseCreateTest'') (''create_'' @ name @ ''_test.go''),
            fsTmpl dat (tx E ''templateUsecaseUpdate'') (''update_'' @ name @ ''.go''),
            fsTmpl dat (tx E ''templateUsecaseUpdateTest'') (''update_'' @ name @ ''_test.go''),
            fsTmpl dat (tx E ''templateUsecaseDelete'') (''delete_'' @ name @ ''.go''),
            fsTmpl dat (tx E ''templateUsecaseDeleteTest'') (''delete_'' @ name @ ''_test.go'')])"

definition moduleTree :: "genEnv \<Rightarrow> serviceConfig \<Rightarrow> moduleConfig \<Rightarrow> fileStructure" where
  "moduleTree E s m =
     fsDir (ModuleName m @ ''/'')
       [deliveryTree E s m, domainTree E m,
        fsDir ''repository/'' (fsTmpl (DModule m) (tx E ''templateRepositoryAbstraction'') ''repository.go'' # parseRepositoryModule E m),
        usecaseTree E m,
        fsTmpl (DModule m) (tx E ''moduleMainTemplate'') ''module.go'']"

section \<open>A service\<close>

fun strLess :: "string \<Rightarrow> string \<Rightarrow> bool" where
  "strLess [] [] = False"
| "strLess [] (b # bs) = True"
| "strLess (a # as) [] = False"
| "strLess (a # as) (b # bs) = ((of_char a :: int) < of_char b \<or> a = b \<and> strLess as bs)"

fun insertModule :: "moduleConfig \<Rightarrow> moduleConfig list \<Rightarrow> moduleConfig list" where
  "insertModule m [] = [m]"
| "insertModule m (x # xs) = (if strLess (ModuleName x) (ModuleName m) then x # insertModule m xs else m # x # xs)"

text \<open>\<open>sort.Slice\<close> by name; the order of modules of one name is not fixed by the library.\<close>

definition sortModules :: "moduleConfig list \<Rightarrow> moduleConfig list" where
  "sortModules ms = foldr insertModule ms []"

definition migrationName :: "genEnv \<Rightarrow> nat \<times> moduleConfig \<Rightarrow> string" where
  "migrationName E im =
     Itoa (gvStamp E + int (fst im)) @ ''_create_table_'' @ underscored (gvPlural E (ModuleName (snd im))) @ ''.sql''"

text \<open>The modules that are new, with their position and the header and configuration that they get.\<close>

definition newModulesOf :: "flagParameter \<Rightarrow> serviceConfig \<Rightarrow> (nat \<times> moduleConfig) list" where
  "newModulesOf flag s =
     map (\<lambda>(i, m). (i, let m' = m\<lparr>mdHeader := svHeader s\<rparr> in if initService flag then m'\<lparr>mdConfig := svConfig s\<rparr> else m'))
       (filter (\<lambda>(i, m). \<not> mdSkip m) (zip [0..<length (svModules s)] (svModules s)))"

definition protoTree :: "genEnv \<Rightarrow> serviceConfig \<Rightarrow> moduleConfig list \<Rightarrow> fileStructure" where
  "protoTree E s mods =
     fsDir ''proto/'' (map (\<lambda>m. setSkipAll (\<not> cfGRPCHandler (svConfig s)) (fsDir (ModuleName m @ ''/'')
        [fsTmpl (DModule m) (tx E ''defaultGRPCProto'') (ModuleName m @ ''.proto'')])) mods)"

definition jsonSchemaTree :: "genEnv \<Rightarrow> moduleConfig list \<Rightarrow> fileStructure" where
  "jsonSchemaTree E mods =
     fsDir ''jsonschema/'' (map (\<lambda>m. fsDir (ModuleName m @ ''/'')
        [fsTmpl (DModule m) (tx E ''jsonSchemaFilterGetTemplate'') ''get_all.json'',
         fsTmpl (DModule m) (tx E ''jsonSchemaSaveTemplate'') ''save.json'']) mods)"

definition graphqlTree :: "genEnv \<Rightarrow> serviceConfig \<Rightarrow> moduleConfig list \<Rightarrow> bool \<Rightarrow> fileStructure" where
  "graphqlTree E s mods keepExisting =
     (let off = \<not> cfGraphQLHandler (svConfig s)
      in setSkipAll off (fsDir ''graphql/''
           (map (\<lambda>m. setSkipAll off (fsTmpl (DModule m) (tx E ''defaultGraphqlSchema'') (ModuleName m @ ''.graphql''))) mods @
            [setSkipIfExist keepExisting (setSkipAll off (fsTmpl (DService s) (tx E ''defaultGraphqlRootSchema'') ''_schema.graphql'')),
             setSkipIfExist keepExisting (setSkipAll off (fsTmpl (DService s) (tx E ''templateGraphqlCommon'') ''_common.graphql''))])))"

definition sharedDomainFiles :: "genEnv \<Rightarrow> moduleConfig list \<Rightarrow> fileStructure list" where
  "sharedDomainFiles E mods = map (\<lambda>m. fsTmpl (DModule m) (tx E ''templateSharedDomain'') (underscored (ModuleName m) @ ''.go'')) mods"

definition migrationFiles :: "genEnv \<Rightarrow> serviceConfig \<Rightarrow> (nat \<times> moduleConfig) list \<Rightarrow> fileStructure list" where
  "migrationFiles E s mods =
     map (\<lambda>im. setSkipAll (\<not> cfSQLDeps (svConfig s)) (fsTmpl (DModule (snd im)) (tx E ''templateCmdMigrationInitModule'') (migrationName E im))) mods"

definition licenseMapTemplate :: "genEnv \<Rightarrow> string \<Rightarrow> string" where
  "licenseMapTemplate E l =
     (if l = MitLicense then tx E ''mitLicenseTemplate'' else if l = ApacheLicense then tx E ''apacheLicenseTemplate''
      else if l = PrivateLicense then tx E ''privateLicenseTemplate'' else [])"

text \<open>The trees below a new service.  The shared repository is built first and gives every module the
  configuration of the service, in the slice that all data share.\<close>

definition cmdTree :: "genEnv \<Rightarrow> serviceConfig \<Rightarrow> (nat \<times> moduleConfig) list \<Rightarrow> fileStructure" where
  "cmdTree E s new =
     (let dat = DService s; off = \<not> cfSQLDeps (svConfig s)
      in fsDir ''cmd/''
           [fsDir (ServiceName (svHeader s) @ ''/'') [],
            fsDir ''migration/''
              [fsFile [] ''.gitkeep'',
               setSkipAll off (fsTmpl dat (tx E ''templateCmdMigration'') ''migration.go''),
               setSkipAll off (fsDir ''migrations/'' (migrationFiles E s new @
                 [fsTmpl dat (tx E ''templateCmdMigrationInitTable'') ''00000000000000_init_tables.go'']))]])"

definition pkgTree :: "genEnv \<Rightarrow> flagParameter \<Rightarrow> serviceConfig \<Rightarrow> moduleConfig list \<Rightarrow> fileStructure" where
  "pkgTree E flag s mods =
     (let dat = DService s
      in fsDir ''pkg/''
           [fsDir ''helper/'' [fsTmpl DNone [] ''helper.go''],
            fsDir ''shared/''
              [fsDir ''domain/'' (sharedDomainFiles E mods),
               fsDir ''repository/'' (parseSharedRepository E s),
               fsDir ''usecase/''
                 [fsTmpl dat (tx E ''templateUsecaseUOW'') ''usecase.go'',
                  fsDir ''common/'' [fsTmpl dat (tx E ''templateUsecaseCommon'') ''common.go'']],
               fsTmpl dat (tx E ''templateSharedMiddlewareImpl'') ''middleware_impl_example.go'',
               fsTmpl dat (tx E ''additionalEnvTemplate'') ''environment.go'',
               setSkip (\<not> (\<not> isMonorepo flag \<and> cfSQLUseGORM (svConfig s))) (fsTmpl dat (tx E ''templateGORMTracer'') ''gorm_tracer.go'')]])"

definition apiTree :: "genEnv \<Rightarrow> serviceConfig \<Rightarrow> moduleConfig list \<Rightarrow> fileStructure" where
  "apiTree E s mods =
     fsDir ''api/'' [graphqlTree E s mods False, protoTree E s mods, jsonSchemaTree E mods, fsTmpl DNone (tx E ''apiEmbedTemplate'') ''api.go'']"

definition initServiceTree :: "genEnv \<Rightarrow> bool \<Rightarrow> flagParameter \<Rightarrow> serviceConfig \<Rightarrow> (nat \<times> moduleConfig) list \<Rightarrow> fileStructure" where
  "initServiceTree E inMonorepo flag s new =
     (let dat = DService s; mods = map snd new; name = ServiceName (svHeader s)
      in fsDir (outputFlag flag @ name @ ''/'')
           ([apiTree E s mods, cmdTree E s new,
             fsDir ''configs/'' [fsTmpl dat (tx E ''appFactoryTemplate'') ''app_factory.go'', fsTmpl dat (tx E ''configsTemplate'') ''configs.go''],
             fsDir ''internal/'' [fsTmpl dat (tx E ''serviceMainTemplate'') ''service.go'', fsDir ''modules/'' (map (moduleTree E s) mods)],
             pkgTree E flag s mods,
             fsDir ''deployments/'' [fsDir ''k8s/'' [fsFile [] (name @ ''.yaml'')]],
             fsDir ''docs/'' [fsFile [] ''.gitkeep''],
             fsTmpl dat (tx E ''gitignoreTemplate'') ''.gitignore'',
             fsTmpl dat (tx E ''makefileTemplate'') ''Makefile'',
             setSkipAll inMonorepo (fsTmpl dat (tx E ''dockerfileTemplate'') ''Dockerfile''),
             fsTmpl dat (tx E ''cmdMainTemplate'') ''main.go'',
             fsTmpl dat (tx E ''envTemplate'') ''.env'',
             fsTmpl dat (tx E ''envTemplate'') ''.env.sample'',
             fsFile (gvJSON E s) ''candi.json'',
             fsTmpl dat (tx E ''readmeTemplate'') ''README.md'',
             setSkip (License (svHeader s) = []) (fsTmpl dat (licenseMapTemplate E (License (svHeader s))) ''LICENSE'')]
            @ (if withGoModFlag flag then [fsTmpl dat (tx E ''gomodTemplate'') ''go.mod''] else [])))"

definition addModuleTree :: "genEnv \<Rightarrow> flagParameter \<Rightarrow> serviceConfig \<Rightarrow> (nat \<times> moduleConfig) list \<Rightarrow> fileStructure" where
  "addModuleTree E flag s new =
     (let mods = map snd new
      in setTargetDir (if serviceName flag \<noteq> [] \<and> cfIsMonorepo (svConfig s) then outputFlag flag @ serviceName flag @ ''/'' else [])
          (setSkip True (fsDir []
           [setSkip True (fsDir ''api/''
              [setSkipIfExist True (protoTree E s mods), setSkipIfExist True (graphqlTree E s mods True), setSkipIfExist True (jsonSchemaTree E mods)]),
            setSkip True (fsDir ''cmd/''
              [setSkipAll (\<not> cfSQLDeps (svConfig s)) (setSkip True (fsDir ''migration/'' [setSkip True (fsDir ''migrations/'' (migrationFiles E s new))]))]),
            setSkip True (fsDir ''internal/'' [setSkip True (fsDir ''modules/'' (map (moduleTree E s) mods))]),
            setSkip True (fsDir ''pkg/'' [setSkip True (fsDir ''shared/'' [setSkip True (fsDir ''domain/'' (sharedDomainFiles E mods))])]),
            fsFile (gvJSON E s) ''candi.json''])))"

definition serviceUpdates :: "string \<Rightarrow> serviceConfig \<Rightarrow> string list \<Rightarrow> fileUpdate list" where
  "serviceUpdates dir s newModules =
     (let imports = map (\<lambda>n. quote @ PackagePrefix (svHeader s) @ ''/internal/modules/'' @ cleanSpecialChar n @ quote) newModules;
          inits = map (\<lambda>n. cleanSpecialChar n @ ''.NewModule(deps),'') newModules
      in [replaceIn (dir @ ''internal/service.go'') ''import ('' (''import ('' @ nl @ tab @ JoinStr (nl @ tab) imports),
          replaceIn (dir @ ''internal/service.go'') ''modules := []factory.ModuleFactory{''
            (''modules := []factory.ModuleFactory{'' @ nl @ tab @ tab @ JoinStr (nl @ tab) inits)])"

section \<open>Shared files\<close>

text \<open>A marker stays where it is and the text goes behind it.\<close>

definition afterMarker :: "string \<Rightarrow> string \<Rightarrow> string \<Rightarrow> string" where
  "afterMarker marker new b = ReplaceAll marker (marker @ new) b"

definition serviceFile :: "flagParameter \<Rightarrow> string \<Rightarrow> string" where
  "serviceFile flag path = (if serviceName flag \<noteq> [] then outputFlag flag @ serviceName flag @ ''/'' @ path else path)"

definition usecaseEdits :: "serviceConfig \<Rightarrow> string \<Rightarrow> string \<Rightarrow> string" where
  "usecaseEdits cfg name b =
     (let cleanMod = ToLower (ToCamelCase name); cleanPathMod = ToLower (ToDelimited name (CHR ''-'')); cleanUpperMod = Title (ToCamelCase name);
          b1 = afterMarker ''@candi:usecaseImport''
                 (nl @ tab @ cleanMod @ ''usecase '' @ quote @ PackagePrefix (svHeader cfg) @ ''/internal/modules/'' @ cleanPathMod @ ''/usecase'' @ quote) b;
          b2 = afterMarker ''@candi:usecaseMethod'' (nl @ tab @ tab @ cleanUpperMod @ ''() '' @ cleanMod @ ''usecase.'' @ cleanUpperMod @ ''Usecase'') b1;
          b3 = afterMarker ''@candi:usecaseField'' (nl @ tab @ tab @ cleanMod @ ''usecase.'' @ cleanUpperMod @ ''Usecase'') b2;
          b4 = afterMarker ''@candi:usecaseCommon''
                 (nl @ tab @ tab @ ''usecaseInst.'' @ cleanUpperMod @ ''Usecase, setSharedUsecaseFunc = '' @ cleanMod @ ''usecase.New'' @ cleanUpperMod @ ''Usecase(deps)'' @ nl @
                  tab @ tab @ ''setSharedUsecaseFuncs = append(setSharedUsecaseFuncs, setSharedUsecaseFunc)'') b3
      in afterMarker ''@candi:usecaseImplementation''
           (nl @ ''func (uc *usecaseUow) '' @ cleanUpperMod @ ''() '' @ cleanMod @ ''usecase.'' @ cleanUpperMod @ ''Usecase {'' @ nl @
            tab @ ''return uc.'' @ cleanUpperMod @ ''Usecase'' @ nl @ ''}'' @ nl) b4)"

definition updateSharedUsecase :: "flagParameter \<Rightarrow> serviceConfig \<Rightarrow> disk \<Rightarrow> genResult" where
  "updateSharedUsecase flag cfg d =
     (let path = serviceFile flag ''pkg/shared/usecase/usecase.go''
      in case ReadFile d path of
           None \<Rightarrow> Fatal d
         | Some b \<Rightarrow> Written (overwrite path (foldl (\<lambda>b name. usecaseEdits cfg name b) b (flagModules flag)) d))"

definition repositoryEdits :: "serviceConfig \<Rightarrow> string \<Rightarrow> string \<Rightarrow> string \<Rightarrow> string" where
  "repositoryEdits cfg repoType name b =
     (let cleanMod = ToLower (ToCamelCase name); cleanPathMod = ToLower (ToDelimited name (CHR ''-'')); cleanUpperMod = Title (ToCamelCase name);
          c = svConfig cfg;
          b1 = afterMarker ''@candi:repositoryImport''
                 (nl @ tab @ cleanMod @ ''repo '' @ quote @ PackagePrefix (svHeader cfg) @ ''/internal/modules/'' @ cleanPathMod @ ''/repository'' @ quote) b;
          b2 = afterMarker ''@candi:repositoryMethod'' (nl @ tab @ tab @ cleanUpperMod @ ''Repo() '' @ cleanMod @ ''repo.'' @ cleanUpperMod @ ''Repository'') b1;
          b3 = afterMarker ''@candi:repositoryField'' (nl @ tab @ tab @ cleanMod @ ''Repo '' @ cleanMod @ ''repo.'' @ cleanUpperMod @ ''Repository'') b2;
          construct = (\<lambda>kind. afterMarker ''@candi:repositoryConstructor''
                         (nl @ tab @ tab @ cleanMod @ ''Repo: '' @ cleanMod @ ''repo.New'' @ cleanUpperMod @ ''Repo'' @ kind @ ''(readDB, writeDB),''));
          b4 = (if repoType = ''SQL'' \<and> cfSQLDeps c
                then afterMarker ''@candi:repositoryDestructor'' (nl @ tab @ ''r.'' @ cleanMod @ ''Repo = nil'') (construct ''SQL'' b3)
                else if repoType = ''Mongo'' \<and> cfMongoDeps c then construct ''Mongo'' b3
                else if repoType = ''Arango'' \<and> cfArangoDeps c then construct ''Arango'' b3 else b3)
      in afterMarker ''@candi:repositoryImplementation''
           (nl @ ''func (r *repo'' @ repoType @ ''Impl) '' @ cleanUpperMod @ ''Repo() '' @ cleanMod @ ''repo.'' @ cleanUpperMod @ ''Repository {'' @ nl @
            tab @ ''return r.'' @ cleanMod @ ''Repo'' @ nl @ ''}'' @ nl) b4)"

definition updateSharedRepository :: "flagParameter \<Rightarrow> serviceConfig \<Rightarrow> disk \<Rightarrow> disk" where
  "updateSharedRepository flag cfg d =
     foldl (\<lambda>d (repoType, repo).
        let path = serviceFile flag (''pkg/shared/repository/'' @ repo)
        in case ReadFile d path of
             None \<Rightarrow> d
           | Some b \<Rightarrow> overwrite path (foldl (\<lambda>b name. repositoryEdits cfg repoType name b) b (flagModules flag)) d)
       d [(''SQL'', ''repository_sql.go''), (''Mongo'', ''repository_mongo.go''), (''Arango'', ''repository_arango.go'')]"

text \<open>The texts that are rendered for the development kit, with the names of the service in place.\<close>

definition generateServiceSDK :: "genEnv \<Rightarrow> serviceConfig \<Rightarrow> disk \<Rightarrow> genResult" where
  "generateServiceSDK E s d =
     (case ReadFile d ''sdk/sdk.go'' of
        None \<Rightarrow> Written d
      | Some b \<Rightarrow>
          (let name = ServiceName (svHeader s); up = Title (cleanSpecialChar name); lo = ToLower (cleanSpecialChar name);
               b1 = afterMarker ''@candi:serviceImport'' (nl @ tab @ quote @ ''monorepo/sdk/'' @ name @ quote) b;
               b2 = afterMarker ''@candi:construct''
                      (nl @ nl @ ''// Set'' @ up @ '' option func'' @ nl @ ''func Set'' @ up @ ''('' @ lo @ '' '' @ lo @ ''.'' @ up @ '') Option {'' @ nl @
                       tab @ ''return func(s *sdkInstance) {'' @ nl @ tab @ tab @ ''s.'' @ lo @ '' = '' @ lo @ nl @ tab @ ''}'' @ nl @ ''}'') b1;
               b3 = afterMarker ''@candi:serviceMethod'' (nl @ tab @ up @ ''() '' @ lo @ ''.'' @ up) b2;
               b4 = afterMarker ''@candi:serviceField'' (nl @ tab @ lo @ tab @ lo @ ''.'' @ up) b3;
               b5 = afterMarker ''@candi:instanceMethod''
                      (nl @ ''func (s *sdkInstance) '' @ up @ ''() '' @ lo @ ''.'' @ up @ '' {'' @ nl @ tab @ ''return s.'' @ lo @ nl @ ''}'') b4;
               d1 = overwrite ''sdk/sdk.go'' b5 d;
               dat = DService s;
               sdk = setSkip True (setTargetDir ''sdk/'' (FS [] False False DNone [] [] False False False
                       [setSkipIfExist True (fsDir (name @ ''/'')
                          [fsTmpl dat (tx E ''templateSDKServiceAbstraction'') (name @ ''.go''),
                           fsTmpl dat (tx E ''templateSDKServiceGRPC'') (name @ ''_grpc.go''),
                           fsTmpl dat (tx E ''templateSDKServiceREST'') (name @ ''_rest.go'')])]))
           in thenDo (execGenerator (gvTemplates E) [] sdk d1)
                (\<lambda>d2. if ReadFile d2 ''globalshared/gorm_tracer.go'' = None \<and> cfSQLUseGORM (svConfig s)
                      then execGenerator (gvTemplates E) [] (setSkipIfExist True (fsDir ''globalshared/''
                             [fsTmpl dat (tx E ''templateGORMTracer'') ''gorm_tracer.go''])) d2
                      else Written d2)))"

section \<open>The generator\<close>

definition projectGenerator :: "genEnv \<Rightarrow> flagParameter \<Rightarrow> string \<Rightarrow> serviceConfig \<Rightarrow> disk \<Rightarrow> genResult" where
  "projectGenerator E flag scope srv d =
     (if addHandler flag \<or> scope = AddUsecase \<or> scope = ApplyUsecase then Written d
      else
        (let sorted = srv\<lparr>svModules := sortModules (svModules srv)\<rparr>;
             new = newModulesOf flag sorted;
             s = (if scope = InitService then withServiceConfig sorted else sorted);
             tree = (if scope = InitService then initServiceTree E (isWorkdirMonorepo d) flag s new
                     else if scope = AddModule then addModuleTree E flag s new
                     else fsDir (outputFlag flag @ ServiceName (svHeader s) @ ''/'') []);
             updates = (if scope = AddModule then serviceUpdates (TargetDir tree) s (map (ModuleName \<circ> snd) new) else [])
         in thenDo (if scope = InitService \<and> isMonorepo flag then generateServiceSDK E s d else Written d)
              (\<lambda>d1. thenDo (execGenerator (gvTemplates E) [] tree d1)
                (\<lambda>d2. thenDo (updateSharedUsecase flag s d2)
                  (\<lambda>d3. Written (applyAll (updates @ getNeedFileUpdates flag s) (updateSharedRepository flag s d3)))))))"

definition monorepoTree :: "genEnv \<Rightarrow> flagParameter \<Rightarrow> serviceConfig \<Rightarrow> fileStructure" where
  "monorepoTree E flag s =
     fsDir (monorepoProjectName flag @ ''/'')
       [fsDir ''globalshared/'' [fsFile [] ''.gitkeep''],
        fsDir ''sdk/'' [fsFile [] ''.gitkeep'', fsTmpl (DService s) (tx E ''templateSDK'') ''sdk.go''],
        fsDir ''services/'' [fsFile [] ''.gitkeep''],
        fsFile (''module monorepo'' @ nl @ nl @ ''go 1.16'' @ nl @ nl @ ''require github.com/golangid/candi '' @ gvCandiVersion E) ''go.mod'',
        fsFile (tx E ''gitignoreMonorepoTemplate'') ''.gitignore'',
        fsFile (tx E ''makefileMonorepoTemplate'') ''Makefile'',
        fsFile (tx E ''readmeMonorepoTemplate'') ''README.md'',
        fsFile (tx E ''dockerfileMonorepoTemplate'') ''Dockerfile'']"

text \<open>The configuration is that of a new \<open>serviceConfig\<close> with its header and the flag of a monorepo.\<close>

definition monorepoGenerator :: "genEnv \<Rightarrow> flagParameter \<Rightarrow> serviceConfig \<Rightarrow> disk \<Rightarrow> genResult" where
  "monorepoGenerator E flag zero d =
     (let s = zero\<lparr>svHeader := (svHeader zero)\<lparr>Header := ''Code generated by candi '' @ gvCandiVersion E @ ''.''\<rparr>,
                    svConfig := (svConfig zero)\<lparr>cfIsMonorepo := True\<rparr>\<rparr>
      in execGenerator (gvTemplates E) [] (monorepoTree E flag s) d)"

section \<open>Handlers for a module\<close>

text \<open>The trees that the loop over the chosen server handlers fills: the definitions of the protocol, the schema
  and the delivery of the module.  The keys of the map of handlers, which \<open>parseInput\<close> passes for
  both arguments, are a list in the order of the loop.\<close>

definition serverHandlerStep ::
  "genEnv \<Rightarrow> moduleConfig \<Rightarrow> fileStructure list \<times> fileStructure list \<times> fileStructure list \<Rightarrow> string \<Rightarrow> fileStructure list \<times> fileStructure list \<times> fileStructure list" where
  "serverHandlerStep E m acc handler =
     (case acc of (proto, gql, delivery) \<Rightarrow>
        if handler = RestHandler then
          (proto, gql, delivery @ [fsDir ''resthandler/'' [fsTmpl (DModule m) (tx E ''deliveryRestTemplate'') ''resthandler.go'']])
        else if handler = GrpcHandler then
          (proto @ [fsDir (ModuleName m @ ''/'') [fsTmpl (DModule m) (tx E ''defaultGRPCProto'') (ModuleName m @ ''.proto'')]], gql,
           delivery @ [fsDir ''grpchandler/'' [fsTmpl (DModule m) (tx E ''deliveryGRPCTemplate'') ''grpchandler.go'']])
        else if handler = GraphqlHandler then
          (proto, gql @ [fsTmpl (DModule m) (tx E ''defaultGraphqlSchema'') (ModuleName m @ ''.graphql'')],
           delivery @ [fsDir ''graphqlhandler/'' (graphqlHandlerFiles E m)])
        else (proto, gql, delivery))"

text \<open>The loop over the chosen worker handlers switches them on in the module one by one.\<close>

definition workerHandlerStep :: "genEnv \<Rightarrow> moduleConfig \<times> fileStructure list \<Rightarrow> string \<Rightarrow> moduleConfig \<times> fileStructure list" where
  "workerHandlerStep E acc handler =
     (case acc of (m, files) \<Rightarrow>
        let c = mdConfig m;
            add = (\<lambda>c' template file. let m' = m\<lparr>mdConfig := c'\<rparr> in (m', files @ [fsTmpl (DModule m') (tx E template) file]))
        in if handler = KafkaHandler then add (c\<lparr>cfKafkaHandler := True\<rparr>) ''deliveryKafkaTemplate'' ''kafka_handler.go''
           else if handler = SchedulerHandler then add (c\<lparr>cfSchedulerHandler := True\<rparr>) ''deliveryCronTemplate'' ''cron_handler.go''
           else if handler = RedissubsHandler then add (c\<lparr>cfRedisSubsHandler := True\<rparr>) ''deliveryRedisTemplate'' ''redis_handler.go''
           else if handler = TaskqueueHandler then add (c\<lparr>cfTaskQueueHandler := True\<rparr>) ''deliveryTaskQueueTemplate'' ''taskqueue_handler.go''
           else if handler = PostgresListenerHandler then add (c\<lparr>cfPostgresListenerHandler := True\<rparr>) ''deliveryPostgresListenerTemplate'' ''postgres_listener_handler.go''
           else if handler = RabbitmqHandler then add (c\<lparr>cfRabbitMQHandler := True\<rparr>) ''deliveryRabbitMQTemplate'' ''rabbitmq_handler.go''
           else (m, files))"

definition moduleDelivery :: "flagParameter \<Rightarrow> string \<Rightarrow> string \<Rightarrow> string" where
  "moduleDelivery flag name place = TrimPrefix (outputFlag flag @ serviceName flag @ ''/internal/modules/'' @ name @ ''/delivery/'' @ place) ''/''"

text \<open>The worker handlers that the module has on the disk.\<close>

definition existingWorkers :: "disk \<Rightarrow> flagParameter \<Rightarrow> moduleConfig \<Rightarrow> moduleConfig" where
  "existingWorkers d flag m =
     (let has = (\<lambda>file. isDirExist d (moduleDelivery flag (ModuleName m) (''workerhandler/'' @ file)))
      in m\<lparr>mdConfig := (mdConfig m)\<lparr>
           cfKafkaHandler := has ''kafka_handler.go'', cfSchedulerHandler := has ''cron_handler.go'',
           cfRedisSubsHandler := has ''redis_handler.go'', cfTaskQueueHandler := has ''taskqueue_handler.go'',
           cfPostgresListenerHandler := has ''postgres_listener_handler.go'', cfRabbitMQHandler := has ''rabbitmq_handler.go''\<rparr>\<rparr>)"

definition addHandlerTree ::
  "genEnv \<Rightarrow> disk \<Rightarrow> flagParameter \<Rightarrow> serviceConfig \<Rightarrow> serviceConfig \<Rightarrow> moduleConfig \<Rightarrow> string list \<Rightarrow> moduleConfig \<times> fileStructure" where
  "addHandlerTree E d flag cfg modCfg m handlers =
     (let (proto, gqlNew, delivery) = foldl (serverHandlerStep E m) ([], [], []) handlers;
          schemas = map (setSkip (gqlNew = [])) [
            setSkipIfExist True (fsTmpl (DService modCfg) (tx E ''defaultGraphqlRootSchema'') ''_schema.graphql''),
            setSkipIfExist True (fsTmpl (DService modCfg) (tx E ''templateGraphqlCommon'') ''_common.graphql'')];
          apiProto = setSkip (proto = []) (setSkipIfExist True (fsDir ''proto/'' proto));
          apiGraphQL = setSkipIfExist True (fsDir ''graphql/'' (schemas @ gqlNew));
          plugins = map (pluginHandlerFile E m \<circ> snd) (svWorkerPlugins cfg);
          (m', workers) = foldl (workerHandlerStep E) (existingWorkers d flag m, plugins) handlers;
          deliveryWorker = setSkip (\<not> cfIsWorkerActive (svConfig cfg)) (setSkipIfExist True (fsDir ''workerhandler/'' workers));
          deliveryStructure = setSkipIfExist True (fsDir ''delivery/'' (delivery @ [deliveryWorker]));
          root = setSkip True (FS [] False False DNone [] [] False False False
            [setSkip True (fsDir ''api/'' [apiProto, apiGraphQL]),
             setSkip True (fsDir ''internal/'' [setSkip True (fsDir ''modules/'' [setSkip True (fsDir (ModuleName m @ ''/'') [deliveryStructure])])]),
             fsFile (gvJSON E cfg) ''candi.json''])
      in (m', if isWorkdirMonorepo d then setTargetDir (outputFlag flag @ ServiceName (svHeader cfg) @ ''/'') root else root))"

text \<open>The module that is meant is the last one of its name; the others count only if they have a GraphQL
  handler.\<close>

definition scopeAddHandler :: "genEnv \<Rightarrow> flagParameter \<Rightarrow> serviceConfig \<Rightarrow> string list \<Rightarrow> disk \<Rightarrow> genResult" where
  "scopeAddHandler E flag cfg handlers d =
     (let chosen = filter (\<lambda>m. moduleName flag = ModuleName m) (svModules cfg);
          shown = filter (\<lambda>m. moduleName flag = ModuleName m \<or> isDirExist d (moduleDelivery flag (ModuleName m) ''graphqlhandler'')) (svModules cfg);
          modCfg = cfg\<lparr>svModules := shown\<rparr>
      in if chosen = [] \<or> ModuleName (last chosen) = [] then Fatal d
         else
           (let m = (last chosen)\<lparr>mdHeader := svHeader cfg\<rparr>;
                (m', root) = addHandlerTree E d flag cfg modCfg m handlers
            in thenDo (execGenerator (gvTemplates E) [] root d)
                 (\<lambda>d'. Written (applyAll (getNeedFileUpdates flag (modCfg\<lparr>svModules := [m']\<rparr>)) d'))))"

section \<open>Use cases\<close>

text \<open>\<open>filepath.Join\<close>, on paths without \<open>..\<close>.\<close>

definition joinPath :: "string list \<Rightarrow> string" where
  "joinPath ps =
     (let s = JoinStr ''/'' (filter (\<lambda>p. p \<noteq> []) ps); root = (if HasPrefix s ''/'' then ''/'' else []); rel = JoinStr ''/'' (pathOf s)
      in if s = [] then [] else if root @ rel = [] then ''.'' else root @ rel)"

definition deliveryHandlerLocation :: "string \<rightharpoonup> string" where
  "deliveryHandlerLocation =
     [RestHandler \<mapsto> ''resthandler/resthandler.go'', GrpcHandler \<mapsto> ''grpchandler/grpchandler.go'',
      GraphqlHandler \<mapsto> ''graphqlhandler/query_resolver.go'', KafkaHandler \<mapsto> ''workerhandler/kafka_handler.go'',
      SchedulerHandler \<mapsto> ''workerhandler/cron_handler.go'', RedissubsHandler \<mapsto> ''workerhandler/redis_handler.go'',
      TaskqueueHandler \<mapsto> ''workerhandler/taskqueue_handler.go'', PostgresListenerHandler \<mapsto> ''workerhandler/postgres_listener_handler.go'',
      RabbitmqHandler \<mapsto> ''workerhandler/rabbitmq_handler.go'',
      pluginGCPPubSubWorker \<mapsto> ''workerhandler/'' @ ToLower pluginGCPPubSubWorker @ ''_handler.go'',
      pluginSTOMPWorker \<mapsto> ''workerhandler/'' @ ToLower pluginSTOMPWorker @ ''_handler.go'']"

definition mapWorkerDelivery :: "string \<rightharpoonup> string" where
  "mapWorkerDelivery =
     [KafkaHandler \<mapsto> ''Kafka'', SchedulerHandler \<mapsto> ''Cron'', RedissubsHandler \<mapsto> ''Redis'', TaskqueueHandler \<mapsto> ''TaskQueue'',
      PostgresListenerHandler \<mapsto> ''PostgresListener'', RabbitmqHandler \<mapsto> ''RabbitMQ'',
      pluginGCPPubSubWorker \<mapsto> pluginGCPPubSubWorker, pluginSTOMPWorker \<mapsto> pluginSTOMPWorker]"

definition guarded :: "string \<Rightarrow> string \<Rightarrow> string \<Rightarrow> string \<Rightarrow> fileUpdate" where
  "guarded path old new skip = \<lparr>fuPath = path, fuOld = old, fuNew = new, fuSkipContains = skip\<rparr>"

definition usecaseTarget :: "disk \<Rightarrow> flagParameter \<Rightarrow> string \<times> string" where
  "usecaseTarget d flag =
     (if isWorkdirMonorepo d then (joinPath [outputFlag flag, serviceName flag], joinPath [packagePrefixFlag flag, serviceName flag])
      else ([], serviceName flag))"

text \<open>The edits for one delivery handler: replacements, then appended texts.\<close>

definition deliveryUpdate :: "genEnv \<Rightarrow> disk \<Rightarrow> flagParameter \<Rightarrow> string \<Rightarrow> string \<Rightarrow> fileUpdate list \<times> fileUpdate list" where
  "deliveryUpdate E d flag usecaseName delivery =
     (let (targetDir, packagePrefix) = usecaseTarget d flag;
          moduleDir = joinPath [targetDir, ''internal'', ''modules'', moduleName flag];
          modName = Title (ToCamelCase (moduleName flag)); ucName = Title (ToCamelCase usecaseName);
          dashed = ToDelimited usecaseName (CHR ''-'');
          file = moduleDir @ ''/delivery/'' @ (case deliveryHandlerLocation delivery of Some l \<Rightarrow> l | None \<Rightarrow> [])
      in if delivery = RestHandler then
           (let route = ''root.GET(candihelper.V1+'' @ quote @ ''/'' @ ToLower modName @ ''/'' @ dashed @ quote @ '', h.'' @ ToCamelCase usecaseName @ '')''
            in ([guarded file ''Mount(root interfaces.RESTRouter) {'' (''Mount(root interfaces.RESTRouter) {'' @ nl @ tab @ route) route],
                [guarded file [] (gvFuncText E ''rest'' modName ucName) (''func (h *RestHandler) '' @ ToCamelCase ucName)]))
         else if delivery = GrpcHandler then
           (let protoSource = joinPath [targetDir, ''api'', ''proto'', moduleName flag, moduleName flag @ ''.proto''];
                rpc = ''rpc '' @ ucName @ ''(Request'' @ ucName @ '') returns (Response'' @ ucName @ '');''
            in ([guarded protoSource (''service '' @ modName @ ''Handler {'') (''service '' @ modName @ ''Handler {'' @ nl @ tab @ rpc) rpc],
                [guarded protoSource [] (''message Request'' @ ucName @ '' {'' @ nl @ ''}'' @ nl @ nl @ ''message Response'' @ ucName @ '' {'' @ nl @ ''}'' @ nl) rpc,
                 guarded file [] (gvFuncText E ''grpc'' modName ucName) (''func (h *GRPCHandler) '' @ ucName)]))
         else if delivery = GraphqlHandler then
           (let gqlSchemaSource = joinPath [targetDir, ''api'', ''graphql'', moduleName flag @ ''.graphql''];
                field = ToCamelCase ucName @ ''(data: '' @ ucName @ ''InputResolver!): '' @ ucName @ ''Resolver!''
            in ([guarded gqlSchemaSource (''type '' @ modName @ ''QueryResolver {'') (''type '' @ modName @ ''QueryResolver {'' @ nl @ tab @ field) field],
                [guarded gqlSchemaSource [] (''input '' @ ucName @ ''InputResolver {'' @ nl @ ''}'' @ nl @ nl @ ''type '' @ ucName @ ''Resolver {'' @ nl @ ''}'' @ nl) field,
                 guarded file [] (gvFuncText E ''graphql'' modName ucName) (''func (m *GraphQLHandler) '' @ ucName)]))
         else
           (case mapWorkerDelivery delivery of
              None \<Rightarrow> ([], [])
            | Some workerName \<Rightarrow>
                (let pattern0 = quote @ dashed @ quote;
                     handlerRoutePattern = (if delivery = SchedulerHandler
                       then ''cronworker.CreateCronJobKey('' @ pattern0 @ '', '' @ quote @ ''message'' @ quote @ '', '' @ quote @ ''* * * * *'' @ quote @ '')'' else pattern0);
                     domainImport = nl @ tab @ quote @ packagePrefix @ ''/internal/modules/'' @ moduleName flag @ ''/domain'' @ quote;
                     jsonImport = nl @ tab @ quote @ ''encoding/json'' @ quote;
                     route = ''group.Add('' @ handlerRoutePattern @ '', h.'' @ ToCamelCase usecaseName @ '')'';
                     mount = ''MountHandlers(group *types.WorkerHandlerGroup) {''
                 in ([replaceIn file jsonImport [], replaceIn file ''import ('' (''import ('' @ jsonImport),
                      replaceIn file domainImport [], replaceIn file ''import ('' (''import ('' @ domainImport),
                      guarded file mount (mount @ nl @ tab @ route) route],
                     [guarded file [] (gvFuncText E workerName modName ucName) (''func (h *'' @ workerName @ ''Handler) '' @ ToCamelCase ucName)]))))"

definition getUpdateFileInExistingDelivery :: "genEnv \<Rightarrow> disk \<Rightarrow> flagParameter \<Rightarrow> string \<Rightarrow> string list \<Rightarrow> fileUpdate list \<times> fileUpdate list" where
  "getUpdateFileInExistingDelivery E d flag usecaseName deliveryHandlers =
     (let us = map (deliveryUpdate E d flag usecaseName) deliveryHandlers in (concat (map fst us), concat (map snd us)))"

definition appendAll :: "fileUpdate list \<Rightarrow> disk \<Rightarrow> disk" where
  "appendAll fus d = foldl (\<lambda>d fu. addContent fu d) d fus"

definition applyUsecaseToDelivery :: "genEnv \<Rightarrow> flagParameter \<Rightarrow> string \<Rightarrow> string list \<Rightarrow> disk \<Rightarrow> disk" where
  "applyUsecaseToDelivery E flag usecaseName deliveryHandlers d =
     (let (replaced, updated) = getUpdateFileInExistingDelivery E d flag usecaseName deliveryHandlers
      in applyAll replaced (appendAll updated d))"

definition addUsecase :: "genEnv \<Rightarrow> flagParameter \<Rightarrow> string \<Rightarrow> string list \<Rightarrow> disk \<Rightarrow> genResult" where
  "addUsecase E flag usecaseName deliveryHandlers d =
     (let (targetDir, packagePrefix) = usecaseTarget d flag;
          moduleDir = joinPath [targetDir, ''internal'', ''modules'', moduleName flag];
          modName = Title (ToCamelCase (moduleName flag)); ucName = Title (ToCamelCase usecaseName);
          newUsecase = tmRender (gvTemplates E) (tx E ''templateNewUsecase'')
            (DMap [(''ModuleName'', moduleName flag), (''UsecaseName'', usecaseName), (''PackagePrefix'', packagePrefix)])
      in case WriteFile (joinPath [moduleDir, ''usecase'', underscored usecaseName @ ''.go'']) newUsecase d of
           None \<Rightarrow> Fatal d
         | Some d1 \<Rightarrow>
             (let interface = ''type '' @ modName @ ''Usecase interface {'';
                  method = ucName @ ''(ctx context.Context, req *domain.Request'' @ ucName @ '') (resp domain.Response'' @ ucName @ '', err error)'';
                  models = map (\<lambda>dType. (joinPath [moduleDir, ''domain'', ToLower dType @ ''.go''],
                      ''// '' @ dType @ ucName @ '' model'' @ nl @ ''type '' @ dType @ ucName @ '' struct {'' @ nl @ ''}'' @ nl)) [''Request'', ''Response''];
                  d2 = foldl (\<lambda>d (loc, _). if validateDir d loc then d else overwrite loc (''package domain'' @ nl @ nl) d) d1 models;
                  (replaced, updated) = getUpdateFileInExistingDelivery E d2 flag usecaseName deliveryHandlers
              in Written (applyAll (replaceIn (joinPath [moduleDir, ''usecase'', ''usecase.go'']) interface (interface @ nl @ tab @ method) # replaced)
                   (appendAll (map (\<lambda>(loc, model). guarded loc [] model []) models @ updated) d2))))"

end
