(* ===== verification/Gen_Correct.thy ===== *)
theory Gen_Correct
  imports Gen_Project
begin

text \<open>
  What the generator guarantees: a well-formed tree is written whole where nothing is in its way, a new
  service or monorepo is such a tree, and what is on the disk beside it stays.
\<close>

section \<open>Well-formed trees\<close>

definition component :: "string \<Rightarrow> bool" where
  "component s \<longleftrightarrow> s \<noteq> [] \<and> s \<noteq> ''.'' \<and> CHR ''/'' \<notin> set s"

definition active :: "fileStructure \<Rightarrow> bool" where
  "active fl \<longleftrightarrow> \<not> Skip fl \<and> \<not> SkipAll fl"

definition nameOf :: "fileStructure \<Rightarrow> string" where
  "nameOf fl = (if IsDir fl then butlast (TargetDir fl) else FileName fl)"

text \<open>A skipped node has no children that are written; a directory is one component below its parent and its
  children have different names.\<close>

fun goodTree :: "fileStructure \<Rightarrow> bool"
  and goodTrees :: "fileStructure list \<Rightarrow> bool" where
  "goodTree fl \<longleftrightarrow>
     (if Skip fl then list_all (\<lambda>c. \<not> Skip c \<and> SkipAll c) (Childs fl)
      else if SkipAll fl then True
      else if IsDir fl then
        component (butlast (TargetDir fl)) \<and> TargetDir fl = butlast (TargetDir fl) @ ''/'' \<and> FileName fl = []
        \<and> distinct (map nameOf (filter active (Childs fl))) \<and> goodTrees (Childs fl)
      else TargetDir fl = [] \<and> component (FileName fl) \<and> Childs fl = [])"
| "goodTrees [] \<longleftrightarrow> True"
| "goodTrees (c # cs) \<longleftrightarrow> goodTree c \<and> goodTrees cs"

lemma goodTrees_iff: "goodTrees cs \<longleftrightarrow> list_all goodTree cs"
  by (induction cs) simp_all

lemma pathOf_single: "component s \<Longrightarrow> pathOf s = [s]"
  by (simp add: component_def pathOf_component)

lemma rootLike_slash [simp]: "rootLike (x @ ''/'')"
  by (auto simp: rootLike_def)

lemma pathOf_dir: "rootLike r \<Longrightarrow> component s \<Longrightarrow> pathOf (r @ s @ ''/'') = pathOf r @ [s]"
  by (simp add: pathOf_root pathOf_slash [of s "[]", simplified] pathOf_single)

lemma fits_append: "fits (xs @ ys) d \<longleftrightarrow> fits xs d \<and> fits ys (d ++ map_of (rev (map opNode xs)))"
proof (induction xs arbitrary: d)
  case (Cons op xs)
  define n where "n = (case op of OpDir _ _ \<Rightarrow> Dir | OpFile _ c _ \<Rightarrow> File c)"
  have "opNode op = (opPath op, n)" by (cases op) (simp_all add: n_def)
  then have "(d(opPath op \<mapsto> n)) ++ map_of (rev (map opNode xs)) = d ++ map_of (rev (map opNode (op # xs)))"
    by (auto simp: map_add_def fun_eq_iff split: option.splits)
  then show ?case using Cons [of "d(opPath op \<mapsto> n)"] by (simp only: append_Cons fits.simps n_def [symmetric]) blast
qed simp

lemma opNode_path: "fst (opNode op) = opPath op"
  by (cases op) simp_all

lemma plan_other: "\<forall>op \<in> set ops. opPath op \<noteq> q \<Longrightarrow> (d ++ map_of (rev (map opNode ops))) q = d q"
  by (auto simp: map_add_def opNode_path map_of_eq_None_iff split: option.splits dest!: map_of_SomeD) (metis fst_conv opNode_path)

lemma plan_dirs: "isDirAt d p \<Longrightarrow> \<forall>op \<in> set ops. opPath op \<noteq> p \<Longrightarrow> isDirAt (d ++ map_of (rev (map opNode ops))) p"
  by (simp add: isDirAt_def statPath_def plan_other split: if_splits)

lemma planAll_pruned: "list_all (\<lambda>c. \<not> Skip c \<and> SkipAll c) cs \<Longrightarrow> planAll T dir cs = []"
  by (induction cs) simp_all

lemma plan_inactive: "goodTree fl \<Longrightarrow> \<not> active fl \<Longrightarrow> plan T prefix fl = []"
  by (auto simp: active_def nodeOps_def planAll_pruned split: if_splits)

text \<open>Nothing is at or below a path.\<close>

definition freshAt :: "disk \<Rightarrow> path \<Rightarrow> bool" where
  "freshAt d p \<longleftrightarrow> (\<forall>q. d (p @ q) = None)"

lemma good_plan:
  "goodTree fl \<Longrightarrow> active fl \<Longrightarrow> rootLike prefix \<Longrightarrow> isDirAt d (pathOf prefix) \<Longrightarrow> freshAt d (pathOf prefix @ [nameOf fl]) \<Longrightarrow>
     fits (plan T prefix fl) d \<and> (\<forall>op \<in> set (plan T prefix fl). \<exists>q. opPath op = pathOf prefix @ nameOf fl # q)"
  "goodTrees cs \<Longrightarrow> distinct (map nameOf (filter active cs)) \<Longrightarrow> rootLike prefix \<Longrightarrow> isDirAt d (pathOf prefix) \<Longrightarrow>
     \<forall>c \<in> set (filter active cs). freshAt d (pathOf prefix @ [nameOf c]) \<Longrightarrow>
     fits (planAll T prefix cs) d \<and> (\<forall>op \<in> set (planAll T prefix cs). \<exists>c \<in> set (filter active cs). \<exists>q. opPath op = pathOf prefix @ nameOf c # q)"
proof (induction T prefix fl and T prefix cs arbitrary: d and d rule: plan_planAll.induct)
  case (1 T prefix fl)
  let ?P = "pathOf prefix" and ?n = "nameOf fl"
  have fresh: "d (?P @ ?n # q) = None" for q using "1.prems"(5) unfolding freshAt_def by (metis append.assoc append_Cons append_Nil)
  show ?case
  proof (cases "IsDir fl")
    case False
    then have g: "TargetDir fl = []" "component (FileName fl)" "Childs fl = []" "?n = FileName fl"
      using "1.prems"(1,2) by (auto simp: active_def nameOf_def)
    then have "pathOf (prefix @ FileName fl) = ?P @ [?n]" using "1.prems"(3) by (simp add: pathOf_root pathOf_single)
    then have "plan T prefix fl = [OpFile (?P @ [?n]) (parseTemplate T prefix fl) (SkipIfExist fl)]"
      using False g "1.prems"(2) by (auto simp: active_def nodeOps_def component_def)
    then show ?thesis using "1.prems"(4) fresh [of "[]"] by (simp add: statPath_def)
  next
    case True
    then have g: "component ?n" "TargetDir fl = ?n @ ''/''" "FileName fl = []"
        "distinct (map nameOf (filter active (Childs fl)))" "goodTrees (Childs fl)"
      using "1.prems"(1,2) by (auto simp: active_def nameOf_def)
    have dir: "pathOf (prefix @ TargetDir fl) = ?P @ [?n]" using pathOf_dir [OF "1.prems"(3) g(1)] by (simp add: g(2))
    let ?op = "OpDir (?P @ [?n]) (SkipIfExist fl)" and ?d = "d(?P @ [?n] \<mapsto> Dir)"
    have p: "plan T prefix fl = ?op # planAll T (prefix @ TargetDir fl) (Childs fl)"
      using True "1.prems"(2) by (simp add: active_def nodeOps_def dir)
    have kids: "\<forall>c \<in> set (filter active (Childs fl)). freshAt ?d (pathOf (prefix @ TargetDir fl) @ [nameOf c])"
      unfolding freshAt_def dir by (simp add: fresh)
    have "rootLike (prefix @ TargetDir fl)" unfolding g(2) using rootLike_slash [of "prefix @ ?n"] by simp
    then have root: "rootLike (prefix @ TargetDir fl)" .
    have act: "\<not> (\<not> Skip fl \<and> SkipAll fl)" using "1.prems"(2) by (simp add: active_def)
    have made: "isDirAt ?d (pathOf (prefix @ TargetDir fl))" unfolding dir isDirAt_def statPath_def by simp
    note IH = "1.IH" [OF act g(5,4) root made kids]
    have "fits (planAll T (prefix @ TargetDir fl) (Childs fl)) ?d" by (rule IH [THEN conjunct1])
    moreover have "statPath d (?P @ [?n]) = None" "isDirAt d (butlast (?P @ [?n]))"
      using "1.prems"(4) fresh [of "[]"] by (simp_all add: statPath_def)
    ultimately have "fits (plan T prefix fl) d" unfolding p fits.simps genOp.sel genOp.case by blast
    moreover have "\<forall>op \<in> set (plan T prefix fl). \<exists>q. opPath op = ?P @ ?n # q" unfolding p using IH [THEN conjunct2] by (auto simp: dir)
    ultimately show ?thesis by blast
  qed
next
  case (2 T dir)
  then show ?case by simp
next
  case (3 T dir c cs)
  have tail: "goodTrees cs" "distinct (map nameOf (filter active cs))" using "3.prems"(1,2) by (auto split: if_splits)
  show ?case
  proof (cases "active c")
    case False
    then have "plan T dir c = []" using "3.prems"(1) by (simp add: plan_inactive del: plan.simps)
    then show ?thesis using "3.IH"(2) [OF tail "3.prems"(3,4)] "3.prems"(5) False by simp
  next
    case True
    have first: "fits (plan T dir c) d" "\<forall>op \<in> set (plan T dir c). \<exists>q. opPath op = pathOf dir @ nameOf c # q"
      using "3.IH"(1) [OF _ True "3.prems"(3,4)] "3.prems"(1,5) True by simp_all
    let ?d = "d ++ map_of (rev (map opNode (plan T dir c)))"
    have dirs: "isDirAt ?d (pathOf dir)" using first(2) by (intro plan_dirs "3.prems"(4)) (metis append_self_conv list.distinct(1))
    have other: "\<forall>e \<in> set (filter active cs). freshAt ?d (pathOf dir @ [nameOf e])"
    proof
      fix e assume e: "e \<in> set (filter active cs)"
      then have "nameOf e \<in> nameOf ` set (filter active cs)" by blast
      then have "nameOf e \<noteq> nameOf c" using "3.prems"(2) True by (auto simp del: set_filter)
      then have "?d (pathOf dir @ [nameOf e] @ q) = d (pathOf dir @ [nameOf e] @ q)" for q
        using first(2) by (intro plan_other) (metis append_Cons append_Nil list.inject same_append_eq)
      then show "freshAt ?d (pathOf dir @ [nameOf e])" using "3.prems"(5) e by (simp add: freshAt_def)
    qed
    have "fits (planAll T dir cs) ?d \<and> (\<forall>op \<in> set (planAll T dir cs). \<exists>c \<in> set (filter active cs). \<exists>q. opPath op = pathOf dir @ nameOf c # q)"
      by (rule "3.IH"(2) [OF tail "3.prems"(3) dirs other])
    then show ?thesis using first True by (auto simp: fits_append simp del: plan.simps)
  qed
qed

declare goodTree.simps [simp del] pureTree.simps [simp del] plan.simps [simp del] execGenerator.simps [simp del]

section \<open>Trees from literals\<close>

lemma set_selectors [simp]:
  "Skip (setSkip b f) = b" "SkipAll (setSkip b f) = SkipAll f" "IsDir (setSkip b f) = IsDir f" "FileName (setSkip b f) = FileName f"
  "TargetDir (setSkip b f) = TargetDir f" "Childs (setSkip b f) = Childs f"
  "Skip (setSkipAll b f) = Skip f" "SkipAll (setSkipAll b f) = b" "IsDir (setSkipAll b f) = IsDir f" "FileName (setSkipAll b f) = FileName f"
  "TargetDir (setSkipAll b f) = TargetDir f" "Childs (setSkipAll b f) = Childs f"
  "Skip (setSkipIfExist b f) = Skip f" "SkipAll (setSkipIfExist b f) = SkipAll f" "IsDir (setSkipIfExist b f) = IsDir f"
  "FileName (setSkipIfExist b f) = FileName f" "TargetDir (setSkipIfExist b f) = TargetDir f" "Childs (setSkipIfExist b f) = Childs f"
  by (cases f; simp)+

lemma literal_selectors [simp]:
  "Skip (fsDir t cs) = False" "SkipAll (fsDir t cs) = False" "IsDir (fsDir t cs) = True" "FileName (fsDir t cs) = []"
  "TargetDir (fsDir t cs) = t" "Childs (fsDir t cs) = cs"
  "Skip (fsTmpl dt s n) = False" "SkipAll (fsTmpl dt s n) = False" "IsDir (fsTmpl dt s n) = False" "FileName (fsTmpl dt s n) = n"
  "TargetDir (fsTmpl dt s n) = []" "Childs (fsTmpl dt s n) = []"
  "Skip (fsFile s n) = False" "SkipAll (fsFile s n) = False" "IsDir (fsFile s n) = False" "FileName (fsFile s n) = n"
  "TargetDir (fsFile s n) = []" "Childs (fsFile s n) = []"
  by (simp_all add: fsDir_def fsTmpl_def fsFile_def)

lemma nameOf_literals [simp]:
  "nameOf (fsDir t cs) = butlast t" "nameOf (fsTmpl dt s n) = n" "nameOf (fsFile s n) = n"
  "nameOf (setSkip b f) = nameOf f" "nameOf (setSkipAll b f) = nameOf f" "nameOf (setSkipIfExist b f) = nameOf f"
  by (simp_all add: nameOf_def)

text \<open>A node of the tree, together with the absence of mixed nodes.\<close>

definition sound :: "fileStructure \<Rightarrow> bool" where
  "sound f \<longleftrightarrow> goodTree f \<and> pureTree f"

lemma pureTrees_iff: "pureTrees cs \<longleftrightarrow> list_all pureTree cs"
  by (induction cs) simp_all

lemma sound_dir:
  assumes "component n" "distinct (map nameOf cs)" "list_all sound cs"
  shows "sound (fsDir (n @ ''/'') cs)"
proof -
  have "list_all goodTree cs" "list_all pureTree cs" using assms(3) by (auto simp: list_all_iff sound_def)
  then show ?thesis using assms(1,2)
    by (simp add: sound_def goodTree.simps [of "fsDir _ _"] pureTree.simps [of "fsDir _ _"] goodTrees_iff pureTrees_iff distinct_map_filter)
qed

lemma sound_file: "component n \<Longrightarrow> sound (fsTmpl dt s n)" "component n \<Longrightarrow> sound (fsFile s n)"
  by (simp_all add: sound_def goodTree.simps [of "fsTmpl _ _ _"] pureTree.simps [of "fsTmpl _ _ _"]
      goodTree.simps [of "fsFile _ _"] pureTree.simps [of "fsFile _ _"])

lemma sound_setSkipAll: "sound f \<Longrightarrow> active f \<Longrightarrow> sound (setSkipAll b f)"
  unfolding sound_def goodTree.simps [of f] pureTree.simps [of f] goodTree.simps [of "setSkipAll b f"] pureTree.simps [of "setSkipAll b f"]
  by (simp add: active_def)

lemma sound_setSkipIfExist: "sound f \<Longrightarrow> sound (setSkipIfExist b f)"
  unfolding sound_def goodTree.simps [of f] pureTree.simps [of f] goodTree.simps [of "setSkipIfExist b f"] pureTree.simps [of "setSkipIfExist b f"]
  by simp

lemma sound_setSkip: "sound f \<Longrightarrow> active f \<Longrightarrow> list_all (\<lambda>c. b \<longrightarrow> \<not> Skip c \<and> SkipAll c) (Childs f) \<Longrightarrow> sound (setSkip b f)"
  unfolding sound_def goodTree.simps [of f] pureTree.simps [of f] goodTree.simps [of "setSkip b f"] pureTree.simps [of "setSkip b f"]
  by (auto simp: active_def list_all_iff)

lemma active_literals [simp]:
  "active (fsDir t cs)" "active (fsTmpl dt s n)" "active (fsFile s n)" "active (setSkipIfExist b f) = active f"
  by (simp_all add: active_def)

text \<open>A sound tree is written whole where its root is new.\<close>

lemma sound_written:
  assumes "sound fl" "active fl" "rootLike prefix" "isDirAt d (pathOf prefix)" "freshAt d (pathOf prefix @ [nameOf fl])"
  shows "execGenerator T prefix fl d = Written (d ++ map_of (rev (map opNode (plan T prefix fl))))"
    and "\<forall>op \<in> set (plan T prefix fl). \<exists>q. opPath op = pathOf prefix @ nameOf fl # q"
    and "fits (plan T prefix fl) d"
  using good_plan(1) [of fl prefix d T] assms exec_plan(1) [of fl T prefix d] runPlan_fits [of "plan T prefix fl" d]
  by (auto simp: sound_def)

section \<open>The tree of a new service\<close>

lemma lower_no_slash: "isUpperByte c \<Longrightarrow> lower_char c \<noteq> CHR ''/''"
proof
  assume up: "isUpperByte c" and eq: "lower_char c = CHR ''/''"
  have "(of_char (lower_char c) :: int) = (of_char c + 32) mod 256" using up by (simp add: isUpperByte_def lower_char_def)
  moreover have "(of_char c + 32) mod 256 = (of_char c + 32 :: int)" using up by (simp add: isUpperByte_def)
  ultimately show False using up eq by (simp add: isUpperByte_def)
qed

lemma delimited_no_slash: "CHR ''/'' \<notin> set s \<Longrightarrow> delim \<noteq> CHR ''/'' \<Longrightarrow> CHR ''/'' \<notin> set (delimitedLoop delim prev s)"
proof (induction delim prev s rule: delimitedLoop.induct)
  case (2 delim prev v0 vs)
  have "isUpperByte v0 \<Longrightarrow> lower_char v0 \<noteq> CHR ''/''" by (rule lower_no_slash)
  with 2 show ?case by (auto simp: Let_def split: list.splits if_splits)
qed simp

lemma underscored_no_slash: "CHR ''/'' \<notin> set s \<Longrightarrow> CHR ''/'' \<notin> set (underscored s)"
proof -
  assume "CHR ''/'' \<notin> set s"
  then have "CHR ''/'' \<notin> set (TrimSpace s)" unfolding TrimSpace_def set_rev using set_dropWhileD set_rev by metis
  then show ?thesis unfolding ToDelimited_def by (rule delimited_no_slash) simp
qed

lemmas component_simps = component_def sound_file Let_def

text \<open>The modules of a service can live side by side.\<close>

definition modulesApart :: "moduleConfig list \<Rightarrow> bool" where
  "modulesApart mods \<longleftrightarrow>
     (\<forall>m \<in> set mods. component (ModuleName m) \<and> ModuleName m \<notin> {''_schema'', ''_common''}) \<and>
     distinct (map ModuleName mods) \<and> distinct (map (underscored \<circ> ModuleName) mods)"

text \<open>The plugins are those of \<open>plugin.go\<close>, each once, and the worker directory is wanted when there is a
  worker.\<close>

definition pluginsKnown :: "serviceConfig \<Rightarrow> bool" where
  "pluginsKnown s \<longleftrightarrow> distinct (map (plName \<circ> snd) (svWorkerPlugins s)) \<and>
     set (map (plName \<circ> snd) (svWorkerPlugins s)) \<subseteq> {pluginGCPPubSubWorker, pluginSTOMPWorker, pluginMQTTWorker}"

definition workersAgree :: "serviceConfig \<Rightarrow> genConfig \<Rightarrow> bool" where
  "workersAgree s c \<longleftrightarrow> cfIsWorkerActive (svConfig s) \<or>
     (\<not> cfKafkaHandler c \<and> \<not> cfSchedulerHandler c \<and> \<not> cfRedisSubsHandler c \<and> \<not> cfTaskQueueHandler c
      \<and> \<not> cfPostgresListenerHandler c \<and> \<not> cfRabbitMQHandler c \<and> svWorkerPlugins s = [])"

lemma plugin_files:
  assumes "pluginsKnown s"
  shows "distinct (map nameOf (workerHandlerFiles E s m))" "list_all sound (workerHandlerFiles E s m)"
proof -
  let ?lower = "\<lambda>n. ToLower n @ ''_handler.go''" and ?known = "{pluginGCPPubSubWorker, pluginSTOMPWorker, pluginMQTTWorker}"
  have names: "map nameOf (map (pluginHandlerFile E m \<circ> snd) (svWorkerPlugins s)) = map ?lower (map (plName \<circ> snd) (svWorkerPlugins s))"
    by (simp add: pluginHandlerFile_def)
  have low: "ToLower pluginGCPPubSubWorker = ''gcppubsubworker''" "ToLower pluginSTOMPWorker = ''stompworker''" "ToLower pluginMQTTWorker = ''mqttworker''"
    by code_simp+
  have inj: "inj_on ?lower ?known" using low by (auto simp: inj_on_def)
  have sub: "set (map (plName \<circ> snd) (svWorkerPlugins s)) \<subseteq> ?known" using assms by (simp add: pluginsKnown_def)
  have own: "n \<in> {''gcppubsubworker_handler.go'', ''stompworker_handler.go'', ''mqttworker_handler.go''}"
    if "n \<in> set (map ?lower (map (plName \<circ> snd) (svWorkerPlugins s)))" for n using that sub low by auto
  have "distinct (map ?lower (map (plName \<circ> snd) (svWorkerPlugins s)))"
    using assms inj_on_subset [OF inj sub] unfolding pluginsKnown_def by (subst distinct_map) blast
  then have "distinct (map nameOf (map (pluginHandlerFile E m \<circ> snd) (svWorkerPlugins s)))" unfolding names .
  moreover have "set (map nameOf (map (pluginHandlerFile E m \<circ> snd) (svWorkerPlugins s))) \<subseteq> {''gcppubsubworker_handler.go'', ''stompworker_handler.go'', ''mqttworker_handler.go''}"
    unfolding names using own by blast
  ultimately show "distinct (map nameOf (workerHandlerFiles E s m))"
    unfolding workerHandlerFiles_def Let_def map_append distinct_append by auto
  have "component (?lower n)" if "n \<in> ?known" for n using that low by (auto simp: component_def)
  then have "sound (pluginHandlerFile E m (snd pl))" if "pl \<in> set (svWorkerPlugins s)" for pl
    using that sub unfolding pluginHandlerFile_def by (intro sound_file) auto
  then show "list_all sound (workerHandlerFiles E s m)"
    by (simp add: workerHandlerFiles_def list_all_iff component_simps sound_setSkipAll)
qed

lemma delivery_sound:
  assumes "pluginsKnown s" "workersAgree s (mdConfig m)"
  shows "sound (deliveryTree E s m)"
proof -
  have w: "sound (fsDir ''workerhandler/'' (workerHandlerFiles E s m))"
    using sound_dir [of "''workerhandler''"] plugin_files [OF assms(1)] by (simp add: component_def)
  have "sound (setSkip (\<not> cfIsWorkerActive (svConfig s)) (fsDir ''workerhandler/'' (workerHandlerFiles E s m)))"
    using assms(2) by (intro sound_setSkip w) (auto simp: workersAgree_def workerHandlerFiles_def list_all_iff Let_def)
  moreover have "sound (fsDir ''graphqlhandler/'' (graphqlHandlerFiles E m))"
    using sound_dir [of "''graphqlhandler''"] by (simp add: graphqlHandlerFiles_def component_simps)
  moreover have "sound (fsDir ''grpchandler/'' [fsTmpl (DModule m) (tx E ''deliveryGRPCTemplate'') ''grpchandler.go''])"
    using sound_dir [of "''grpchandler''"] by (simp add: component_simps)
  moreover have "sound (fsDir ''resthandler/'' [fsTmpl (DModule m) (tx E ''deliveryRestTemplate'') ''resthandler.go'',
      fsTmpl (DModule m) (tx E ''deliveryRestTestTemplate'') ''resthandler_test.go''])"
    using sound_dir [of "''resthandler''"] by (simp add: component_simps)
  ultimately show ?thesis unfolding deliveryTree_def Let_def
    using sound_dir [of "''delivery''"] by (simp add: component_def sound_setSkipAll)
qed

lemma module_sound:
  assumes "component (ModuleName m)" "pluginsKnown s" "workersAgree s (mdConfig m)"
  shows "sound (moduleTree E s m)"
proof -
  have noslash: "CHR ''/'' \<notin> set (underscored (ModuleName m))" using assms(1) underscored_no_slash by (simp add: component_def)
  have "sound (domainTree E m)" using sound_dir [of "''domain''"] by (simp add: domainTree_def component_simps)
  moreover have "sound (usecaseTree E m)"
    using sound_dir [of "''usecase''"] noslash by (simp add: usecaseTree_def component_simps)
  moreover have "sound (fsDir ''repository/'' (fsTmpl (DModule m) (tx E ''templateRepositoryAbstraction'') ''repository.go'' # parseRepositoryModule E m))"
    using sound_dir [of "''repository''"] clean_no_dash(2) [of "ToLower (ModuleName m)"]
    by (simp add: parseRepositoryModule_def component_simps sound_setSkip)
  ultimately show ?thesis
    using sound_dir [OF assms(1)] delivery_sound [OF assms(2,3), of E]
    by (simp add: moduleTree_def deliveryTree_def domainTree_def usecaseTree_def component_simps)
qed

lemma Itoa_no: "0 \<le> i \<Longrightarrow> c \<in> set (Itoa i) \<Longrightarrow> is_digit c"
  using Itoa_nat_set by (simp add: Itoa_def)

lemma migration_names:
  assumes "distinct (map fst new)" "0 \<le> gvStamp E"
  shows "distinct (map (migrationName E) new @ [''00000000000000_init_tables.go''])"
proof -
  have cut: "takeWhile (\<lambda>c. c \<noteq> CHR ''_'') (migrationName E im) = Itoa (gvStamp E + int (fst im))" for im
  proof -
    have "c \<noteq> CHR ''_''" if "c \<in> set (Itoa (gvStamp E + int (fst im)))" for c
      using Itoa_no [OF _ that] assms(2) by (auto simp: is_digit_def)
    then show ?thesis unfolding migrationName_def by (subst takeWhile_append2) auto
  qed
  have "inj_on (migrationName E) (set new)"
  proof (rule inj_onI)
    fix x y assume xy: "x \<in> set new" "y \<in> set new" "migrationName E x = migrationName E y"
    then have "Itoa (int (nat (gvStamp E + int (fst x)))) = Itoa (int (nat (gvStamp E + int (fst y))))"
      using cut [of x] cut [of y] assms(2) by simp
    then have "fst x = fst y" unfolding Itoa_inject using assms(2) by simp
    then show "x = y" using xy assms(1) by (auto simp: distinct_map inj_on_def)
  qed
  moreover have "distinct new" using assms(1) by (simp add: distinct_map)
  ultimately have d: "distinct (map (migrationName E) new)" by (simp add: distinct_map)
  have "last (migrationName E im) = CHR ''l''" for im by (simp add: migrationName_def)
  then have ends: "last n = CHR ''l''" if "n \<in> set (map (migrationName E) new)" for n using that by auto
  have "''00000000000000_init_tables.go'' \<notin> set (map (migrationName E) new)"
  proof
    assume "''00000000000000_init_tables.go'' \<in> set (map (migrationName E) new)"
    from ends [OF this] show False by simp
  qed
  with d show ?thesis by (simp del: set_map)
qed

definition namesPlain :: "genEnv \<Rightarrow> moduleConfig list \<Rightarrow> bool" where
  "namesPlain E mods \<longleftrightarrow> 0 \<le> gvStamp E \<and> (\<forall>m \<in> set mods. CHR ''/'' \<notin> set (gvPlural E (ModuleName m)))"

lemma cmd_sound:
  assumes "component (ServiceName (svHeader s))" "ServiceName (svHeader s) \<noteq> ''migration''" "distinct (map fst new)" "namesPlain E (map snd new)"
  shows "sound (cmdTree E s new)"
proof -
  let ?table = "fsTmpl (DService s) (tx E ''templateCmdMigrationInitTable'') ''00000000000000_init_tables.go''"
  have "component (migrationName E im)" if "im \<in> set new" for im
  proof -
    have "CHR ''/'' \<notin> set (Itoa (gvStamp E + int (fst im)))"
      using Itoa_no [of "gvStamp E + int (fst im)" "CHR ''/''"] assms(4) by (auto simp: is_digit_def namesPlain_def)
    then show ?thesis using that assms(4) underscored_no_slash by (auto simp: component_def migrationName_def namesPlain_def)
  qed
  then have "list_all sound (migrationFiles E s new @ [?table])"
    by (auto simp: migrationFiles_def list_all_iff sound_setSkipAll sound_file component_def)
  moreover have "map nameOf (migrationFiles E s new @ [?table]) = map (migrationName E) new @ [''00000000000000_init_tables.go'']"
    by (simp add: migrationFiles_def)
  ultimately have "sound (fsDir (''migrations'' @ ''/'') (migrationFiles E s new @ [?table]))"
    using migration_names [OF assms(3), of E] assms(4) by (intro sound_dir) (simp_all add: component_def namesPlain_def)
  then have m: "sound (fsDir ''migrations/'' (migrationFiles E s new @ [?table]))" by simp
  have mig: "sound (fsDir (''migration'' @ ''/'')
      [fsFile [] ''.gitkeep'', setSkipAll (\<not> cfSQLDeps (svConfig s)) (fsTmpl (DService s) (tx E ''templateCmdMigration'') ''migration.go''),
       setSkipAll (\<not> cfSQLDeps (svConfig s)) (fsDir ''migrations/'' (migrationFiles E s new @ [?table]))])"
    by (rule sound_dir) (simp_all add: component_simps sound_setSkipAll m)
  have "sound (fsDir (ServiceName (svHeader s) @ ''/'') [])" by (rule sound_dir) (simp_all add: assms(1))
  then show ?thesis using mig assms(2) sound_dir [of "''cmd''"] unfolding cmdTree_def Let_def by (simp add: component_simps)
qed

lemma api_sound:
  assumes "modulesApart mods"
  shows "sound (apiTree E s mods)"
proof -
  have c: "component (ModuleName m)" "ModuleName m \<noteq> ''_schema''" "ModuleName m \<noteq> ''_common''" if "m \<in> set mods" for m
    using assms that by (auto simp: modulesApart_def)
  have d: "distinct (map ModuleName mods)" using assms by (simp add: modulesApart_def)
  have dx: "distinct (map (\<lambda>m. ModuleName m @ ext) mods)" for ext using d by (auto simp: distinct_map inj_on_def)
  have cx: "component (ModuleName m @ ext)" if "m \<in> set mods" "CHR ''/'' \<notin> set ext" "ext = CHR ''.'' # e # es" for m ext e es
    using c(1) [OF that(1)] that(2,3) by (auto simp: component_def)
  have mdir: "sound (fsDir (ModuleName m @ ''/'') fs)" if "m \<in> set mods" "distinct (map nameOf fs)" "list_all sound fs" for m fs
    using sound_dir [OF c(1) [OF that(1)]] that by simp
  have "sound (fsDir (''proto'' @ ''/'') (map (\<lambda>m. setSkipAll (\<not> cfGRPCHandler (svConfig s)) (fsDir (ModuleName m @ ''/'')
        [fsTmpl (DModule m) (tx E ''defaultGRPCProto'') (ModuleName m @ ''.proto'')])) mods))"
    using d by (intro sound_dir) (auto simp: component_def list_all_iff o_def intro!: sound_setSkipAll mdir sound_file cx)
  then have p: "sound (protoTree E s mods)" by (simp add: protoTree_def)
  have "sound (fsDir (''jsonschema'' @ ''/'') (map (\<lambda>m. fsDir (ModuleName m @ ''/'')
        [fsTmpl (DModule m) (tx E ''jsonSchemaFilterGetTemplate'') ''get_all.json'',
         fsTmpl (DModule m) (tx E ''jsonSchemaSaveTemplate'') ''save.json'']) mods))"
    using d by (intro sound_dir) (auto simp: component_def list_all_iff o_def intro!: mdir sound_file)
  then have j: "sound (jsonSchemaTree E mods)" by (simp add: jsonSchemaTree_def)
  let ?off = "\<not> cfGraphQLHandler (svConfig s)"
  let ?files = "map (\<lambda>m. setSkipAll ?off (fsTmpl (DModule m) (tx E ''defaultGraphqlSchema'') (ModuleName m @ ''.graphql''))) mods @
            [setSkipIfExist False (setSkipAll ?off (fsTmpl (DService s) (tx E ''defaultGraphqlRootSchema'') ''_schema.graphql'')),
             setSkipIfExist False (setSkipAll ?off (fsTmpl (DService s) (tx E ''templateGraphqlCommon'') ''_common.graphql''))]"
  have "ModuleName m @ ''.graphql'' \<noteq> n @ ''.graphql''" if "m \<in> set mods" "n \<in> {''_schema'', ''_common''}" for m n
    using c(2,3) [OF that(1)] that(2) by auto
  then have "distinct (map nameOf ?files)" using dx [of "''.graphql''"] by (fastforce simp: o_def)
  moreover have "list_all sound ?files"
    by (auto simp: list_all_iff component_def intro!: sound_setSkipAll sound_setSkipIfExist sound_file cx)
  ultimately have "sound (fsDir (''graphql'' @ ''/'') ?files)" by (intro sound_dir) (simp_all add: component_def)
  then have g: "sound (graphqlTree E s mods False)" unfolding graphqlTree_def Let_def by (intro sound_setSkipAll) simp_all
  have names: "nameOf (protoTree E s mods) = ''proto''" "nameOf (jsonSchemaTree E mods) = ''jsonschema''" "nameOf (graphqlTree E s mods False) = ''graphql''"
    by (simp_all add: protoTree_def jsonSchemaTree_def graphqlTree_def Let_def)
  have "sound (fsDir (''api'' @ ''/'') [graphqlTree E s mods False, protoTree E s mods, jsonSchemaTree E mods, fsTmpl DNone (tx E ''apiEmbedTemplate'') ''api.go''])"
    by (rule sound_dir) (simp_all add: component_simps names p j g)
  then show ?thesis by (simp add: apiTree_def)
qed

lemma pkg_sound:
  assumes "modulesApart mods"
  shows "sound (pkgTree E flag s mods)"
proof -
  let ?dat = "DService s"
  have "component (underscored (ModuleName m) @ ''.go'')" if "m \<in> set mods" for m
    using assms that underscored_no_slash [of "ModuleName m"] by (auto simp: modulesApart_def component_def)
  moreover have "distinct (map (\<lambda>m. underscored (ModuleName m) @ ''.go'') mods)" using assms by (auto simp: modulesApart_def distinct_map inj_on_def)
  ultimately have "sound (fsDir (''domain'' @ ''/'') (sharedDomainFiles E mods))"
    by (intro sound_dir) (auto simp: component_def sharedDomainFiles_def list_all_iff o_def intro!: sound_file)
  then have dom: "sound (fsDir ''domain/'' (sharedDomainFiles E mods))" by simp
  have "sound (fsDir (''repository'' @ ''/'') (parseSharedRepository E s))"
    by (rule sound_dir) (simp_all add: parseSharedRepository_def component_simps sound_setSkip)
  then have repo: "sound (fsDir ''repository/'' (parseSharedRepository E s))" by simp
  have "sound (fsDir (''common'' @ ''/'') [fsTmpl ?dat (tx E ''templateUsecaseCommon'') ''common.go''])"
    by (rule sound_dir) (simp_all add: component_simps)
  then have "sound (fsDir (''usecase'' @ ''/'') [fsTmpl ?dat (tx E ''templateUsecaseUOW'') ''usecase.go'',
      fsDir ''common/'' [fsTmpl ?dat (tx E ''templateUsecaseCommon'') ''common.go'']])"
    by (intro sound_dir) (simp_all add: component_simps)
  then have uc: "sound (fsDir ''usecase/'' [fsTmpl ?dat (tx E ''templateUsecaseUOW'') ''usecase.go'',
      fsDir ''common/'' [fsTmpl ?dat (tx E ''templateUsecaseCommon'') ''common.go'']])" by simp
  have "sound (fsDir (''shared'' @ ''/'')
              [fsDir ''domain/'' (sharedDomainFiles E mods), fsDir ''repository/'' (parseSharedRepository E s),
               fsDir ''usecase/'' [fsTmpl ?dat (tx E ''templateUsecaseUOW'') ''usecase.go'',
                  fsDir ''common/'' [fsTmpl ?dat (tx E ''templateUsecaseCommon'') ''common.go'']],
               fsTmpl ?dat (tx E ''templateSharedMiddlewareImpl'') ''middleware_impl_example.go'',
               fsTmpl ?dat (tx E ''additionalEnvTemplate'') ''environment.go'',
               setSkip (\<not> (\<not> isMonorepo flag \<and> cfSQLUseGORM (svConfig s))) (fsTmpl ?dat (tx E ''templateGORMTracer'') ''gorm_tracer.go'')])"
    by (rule sound_dir) (simp_all add: component_simps dom repo uc sound_setSkip)
  moreover have "sound (fsDir (''helper'' @ ''/'') [fsTmpl DNone [] ''helper.go''])" by (rule sound_dir) (simp_all add: component_simps)
  ultimately show ?thesis using sound_dir [of "''pkg''"] unfolding pkgTree_def Let_def by (simp add: component_simps)
qed

text \<open>The tree of a new service without the directory it goes to.\<close>

definition serviceTree :: "genEnv \<Rightarrow> bool \<Rightarrow> flagParameter \<Rightarrow> serviceConfig \<Rightarrow> (nat \<times> moduleConfig) list \<Rightarrow> fileStructure" where
  "serviceTree E inMonorepo flag s new = initServiceTree E inMonorepo (flag\<lparr>outputFlag := []\<rparr>) s new"

lemma dir_prefix: "execGenerator T p (fsDir (q @ r) cs) d = execGenerator T (p @ q) (fsDir r cs) d"
  by (simp add: execGenerator.simps [of T p] execGenerator.simps [of T "p @ q"] execNode_def writeNode_def fsDir_def split: option.splits)

lemma service_prefix:
  "execGenerator T [] (initServiceTree E inMonorepo flag s new) d = execGenerator T (outputFlag flag) (serviceTree E inMonorepo flag s new) d"
proof -
  have "pkgTree E (flag\<lparr>outputFlag := []\<rparr>) s mods = pkgTree E flag s mods" for mods by (simp add: pkgTree_def)
  then show ?thesis unfolding serviceTree_def initServiceTree_def Let_def by (simp add: dir_prefix)
qed

lemma service_sound:
  assumes "component (ServiceName (svHeader s))" "ServiceName (svHeader s) \<noteq> ''migration''" "distinct (map fst new)"
    and "modulesApart (map snd new)" "namesPlain E (map snd new)" "pluginsKnown s" "\<forall>m \<in> set (map snd new). workersAgree s (mdConfig m)"
  shows "sound (serviceTree E inMonorepo flag s new)"
proof -
  let ?dat = "DService s" and ?mods = "map snd new" and ?name = "ServiceName (svHeader s)"
  have "distinct (map (\<lambda>m. nameOf (moduleTree E s m)) ?mods)" using assms(4) by (simp add: moduleTree_def modulesApart_def)
  moreover have "sound (moduleTree E s m)" if "m \<in> set ?mods" for m using that assms(4,6,7) by (intro module_sound) (auto simp: modulesApart_def)
  ultimately have "sound (fsDir (''modules'' @ ''/'') (map (moduleTree E s) ?mods))"
    by (intro sound_dir) (auto simp: component_def list_all_iff o_def)
  then have "sound (fsDir (''internal'' @ ''/'') [fsTmpl ?dat (tx E ''serviceMainTemplate'') ''service.go'', fsDir ''modules/'' (map (moduleTree E s) ?mods)])"
    by (intro sound_dir) (simp_all add: component_simps)
  then have internal: "sound (fsDir ''internal/'' [fsTmpl ?dat (tx E ''serviceMainTemplate'') ''service.go'', fsDir ''modules/'' (map (moduleTree E s) ?mods)])" by simp
  have configs: "sound (fsDir (''configs'' @ ''/'') [fsTmpl ?dat (tx E ''appFactoryTemplate'') ''app_factory.go'', fsTmpl ?dat (tx E ''configsTemplate'') ''configs.go''])"
    by (rule sound_dir) (simp_all add: component_simps)
  have "component (?name @ ''.yaml'')" using assms(1) by (simp add: component_def)
  then have "sound (fsDir (''k8s'' @ ''/'') [fsFile [] (?name @ ''.yaml'')])" by (intro sound_dir) (simp_all add: sound_file component_def)
  then have deploy: "sound (fsDir (''deployments'' @ ''/'') [fsDir ''k8s/'' [fsFile [] (?name @ ''.yaml'')]])"
    by (intro sound_dir) (simp_all add: component_def)
  have docs: "sound (fsDir (''docs'' @ ''/'') [fsFile [] ''.gitkeep''])" by (rule sound_dir) (simp_all add: component_simps)
  have names: "nameOf (apiTree E s ?mods) = ''api''" "nameOf (cmdTree E s new) = ''cmd''" "nameOf (pkgTree E flag s ?mods) = ''pkg''"
    by (simp_all add: apiTree_def cmdTree_def pkgTree_def Let_def)
  have pkg: "pkgTree E (flag\<lparr>outputFlag := []\<rparr>) s ?mods = pkgTree E flag s ?mods" by (simp add: pkgTree_def)
  note parts = api_sound [OF assms(4), of E s] cmd_sound [OF assms(1-3,5)] pkg_sound [OF assms(4), of E flag s]
  show ?thesis unfolding serviceTree_def initServiceTree_def Let_def pkg
    using internal configs deploy docs parts names assms(1) sound_dir [OF assms(1)]
    by (simp add: component_simps sound_setSkip sound_setSkipAll)
qed

section \<open>A new service is written whole\<close>

text \<open>What a plan leaves on a disk that it fits.\<close>

lemma fits_fresh: "fits ops d \<Longrightarrow> d p \<noteq> None \<Longrightarrow> p \<notin> opPath ` set ops"
proof (induction ops arbitrary: d)
  case (Cons op ops)
  let ?d = "d(opPath op \<mapsto> (case op of OpDir _ _ \<Rightarrow> Dir | OpFile _ c _ \<Rightarrow> File c))"
  have "fits ops ?d" "p \<noteq> opPath op" "?d p \<noteq> None" using Cons.prems by (auto simp: statPath_def split: if_splits)
  then show ?case using Cons.IH [OF \<open>fits ops ?d\<close> \<open>?d p \<noteq> None\<close>] by simp
qed simp

lemma fits_distinct: "fits ops d \<Longrightarrow> distinct (map opPath ops)"
proof (induction ops arbitrary: d)
  case (Cons op ops)
  let ?d = "d(opPath op \<mapsto> (case op of OpDir _ _ \<Rightarrow> Dir | OpFile _ c _ \<Rightarrow> File c))"
  have "fits ops ?d" using Cons.prems by simp
  then show ?case using Cons.IH fits_fresh [of ops ?d "opPath op"] by simp
qed simp

lemma plan_result:
  assumes "fits ops d" "op \<in> set ops"
  shows "(d ++ map_of (rev (map opNode ops))) (opPath op) = Some (snd (opNode op))"
proof -
  have "distinct (map fst (rev (map opNode ops)))" using fits_distinct [OF assms(1)] by (simp add: rev_map [symmetric] o_def opNode_path)
  moreover have "(opPath op, snd (opNode op)) \<in> set (rev (map opNode ops))"
    using assms(2) by (force simp: opNode_path [symmetric])
  ultimately show ?thesis using map_of_is_SomeI map_add_find_right by metis
qed

lemma planAll_mem: "c \<in> set cs \<Longrightarrow> op \<in> set (plan T dir c) \<Longrightarrow> op \<in> set (planAll T dir cs)"
  by (induction cs) auto

lemma plan_dir_mem: "c \<in> set cs \<Longrightarrow> op \<in> set (plan T (p @ t) c) \<Longrightarrow> op \<in> set (plan T p (fsDir t cs))"
  using planAll_mem by (simp add: plan.simps [of T p "fsDir t cs"])

lemma dir_plan_prefix: "plan T p (fsDir (q @ r) cs) = plan T (p @ q) (fsDir r cs)"
  by (simp add: plan.simps [of T p] plan.simps [of T "p @ q"] nodeOps_def fsDir_def)

lemma service_plan_prefix:
  "plan T [] (initServiceTree E inMonorepo flag s new) = plan T (outputFlag flag) (serviceTree E inMonorepo flag s new)"
proof -
  have "pkgTree E (flag\<lparr>outputFlag := []\<rparr>) s mods = pkgTree E flag s mods" for mods by (simp add: pkgTree_def)
  then show ?thesis unfolding serviceTree_def initServiceTree_def Let_def by (simp add: dir_plan_prefix)
qed

text \<open>Edits: files stay files, directories stay directories, and what is outside stays as it is.\<close>

definition edited :: "path set \<Rightarrow> disk \<Rightarrow> disk \<Rightarrow> bool" where
  "edited P d e \<longleftrightarrow> (\<forall>q. map_option (\<lambda>n. n = Dir) (e q) = map_option (\<lambda>n. n = Dir) (d q)) \<and> (\<forall>q. q \<notin> P \<longrightarrow> e q = d q)"

lemma edited_refl [simp]: "edited P d d"
  by (simp add: edited_def)

lemma edited_trans: "edited P d e \<Longrightarrow> edited P e f \<Longrightarrow> edited P d f"
  by (simp add: edited_def)

lemma overwrite_edited: "ReadFile d path \<noteq> None \<Longrightarrow> pathOf path \<in> P \<Longrightarrow> edited P d (overwrite path c d)"
  by (auto simp: edited_def overwrite_def WriteFile_def Let_def ReadFile_def statPath_def split: option.splits node.splits if_splits)

lemma applyAll_edited: "\<forall>f \<in> set fus. pathOf (fuPath f) \<in> P \<Longrightarrow> edited P d (applyAll fus d)"
proof (induction fus arbitrary: d)
  case (Cons f fus)
  have "edited P d (readFileAndApply f d)"
    using Cons.prems by (auto simp: readFileAndApply_def intro: overwrite_edited split: option.splits)
  moreover have "edited P (readFileAndApply f d) (applyAll fus (readFileAndApply f d))" using Cons by simp
  ultimately show ?case using edited_trans by (auto simp: applyAll_def)
qed (simp add: applyAll_def)

definition below :: "path \<Rightarrow> path set" where
  "below R = {p. \<exists>r. p = R @ r}"

lemma needed_below: "f \<in> set (getNeedFileUpdates flag srv) \<Longrightarrow> pathOf (fuPath f) \<in> below (pathOf (getRootDir flag srv))"
  using needed_path [of f flag srv] pathOf_root [OF getRootDir_rootLike, of flag srv]
  by (auto simp: below_def moduleFile_def)

lemma shared_below:
  assumes "serviceName flag \<noteq> []" "rootLike (outputFlag flag)" "component (serviceName flag)"
  shows "pathOf (serviceFile flag s) = pathOf (outputFlag flag) @ serviceName flag # pathOf s"
proof -
  have "pathOf (serviceName flag @ CHR ''/'' # s) = serviceName flag # pathOf s"
    using assms(3) by (simp add: pathOf_slash pathOf_single)
  then show ?thesis using assms(1,2) by (simp add: serviceFile_def pathOf_root)
qed

lemma repository_edited:
  assumes "serviceName flag \<noteq> []" "rootLike (outputFlag flag)" "component (serviceName flag)"
  shows "edited (below (pathOf (outputFlag flag) @ [serviceName flag])) d (updateSharedRepository flag cfg d)"
proof -
  let ?P = "below (pathOf (outputFlag flag) @ [serviceName flag])"
  let ?step = "\<lambda>d (repoType, repo). let path = serviceFile flag (''pkg/shared/repository/'' @ repo)
        in case ReadFile d path of None \<Rightarrow> d
           | Some b \<Rightarrow> overwrite path (foldl (\<lambda>b name. repositoryEdits cfg repoType name b) b (flagModules flag)) d"
  have "pathOf (serviceFile flag s) \<in> ?P" for s using shared_below [OF assms] by (simp add: below_def)
  then have step: "edited ?P d (?step d tr)" for d tr
    by (cases tr) (auto simp: Let_def intro: overwrite_edited split: option.splits)
  have "edited ?P d (foldl ?step d trs)" for trs
  proof (induction trs arbitrary: d)
    case (Cons tr trs)
    then show ?case using edited_trans [OF step Cons] by simp
  qed simp
  then show ?thesis unfolding updateSharedRepository_def .
qed

text \<open>The modules of the service after sorting, and the new ones among them.\<close>

lemma insertModule_names:
  "set (insertModule m xs) = insert m (set xs)" "distinct (map f (insertModule m xs)) = distinct (map f (m # xs))"
proof -
  show s: "set (insertModule m xs) = insert m (set xs)" for xs by (induction xs) auto
  show "distinct (map f (insertModule m xs)) = distinct (map f (m # xs))" by (induction xs) (auto simp: s)
qed

lemma sortModules_names:
  "set (sortModules ms) = set ms" "distinct (map f (sortModules ms)) = distinct (map f ms)"
proof -
  show s: "set (sortModules ms) = set ms" for ms by (induction ms) (simp_all add: sortModules_def insertModule_names)
  show "distinct (map f (sortModules ms)) = distinct (map f ms)"
    using s by (induction ms) (simp_all add: sortModules_def insertModule_names)
qed

lemma filter_zip_snd: "length is = length xs \<Longrightarrow> map snd (filter (\<lambda>(i, m). P m) (zip is xs)) = filter P xs"
  by (induction "is" xs rule: list_induct2) auto

lemma newModules_names:
  "map ModuleName (map snd (newModulesOf flag s)) = map ModuleName (filter (\<lambda>m. \<not> mdSkip m) (svModules s))"
  "distinct (map fst (newModulesOf flag s))"
proof -
  let ?fs = "filter (\<lambda>(i, m). \<not> mdSkip m) (zip [0..<length (svModules s)] (svModules s))"
  have "map ModuleName (map snd (newModulesOf flag s)) = map (ModuleName \<circ> snd) ?fs"
    by (auto simp: newModulesOf_def Let_def split: prod.splits)
  also have "\<dots> = map ModuleName (map snd ?fs)" by simp
  finally show "map ModuleName (map snd (newModulesOf flag s)) = map ModuleName (filter (\<lambda>m. \<not> mdSkip m) (svModules s))"
    by (simp add: filter_zip_snd)
  have "map fst (newModulesOf flag s) = map fst ?fs" by (auto simp: newModulesOf_def split: prod.splits)
  then show "distinct (map fst (newModulesOf flag s))" using distinct_map_filter [of fst "zip [0..<length (svModules s)] (svModules s)"] by simp
qed

lemma newModules_config: "initService flag \<Longrightarrow> m \<in> set (map snd (newModulesOf flag s)) \<Longrightarrow> mdConfig m = svConfig s"
  by (auto simp: newModulesOf_def Let_def)

lemma modulesApart_new:
  assumes "modulesApart (svModules srv)"
  shows "modulesApart (map snd (newModulesOf flag (srv\<lparr>svModules := sortModules (svModules srv)\<rparr>)))"
proof -
  let ?ms = "sortModules (svModules srv)" and ?new = "map snd (newModulesOf flag (srv\<lparr>svModules := sortModules (svModules srv)\<rparr>))"
  have names: "map ModuleName ?new = map ModuleName (filter (\<lambda>m. \<not> mdSkip m) ?ms)" using newModules_names(1) by simp
  have "set (map ModuleName ?new) \<subseteq> ModuleName ` set (svModules srv)" unfolding names using sortModules_names(1) by auto
  moreover have "\<forall>n \<in> ModuleName ` set (svModules srv). component n \<and> n \<notin> {''_schema'', ''_common''}" using assms by (simp add: modulesApart_def)
  ultimately have "\<forall>n \<in> set (map ModuleName ?new). component n \<and> n \<notin> {''_schema'', ''_common''}" by (meson subsetD)
  moreover have "distinct (map f (filter (\<lambda>m. \<not> mdSkip m) ?ms))" if "f \<in> {ModuleName, underscored \<circ> ModuleName}" for f :: "moduleConfig \<Rightarrow> string"
    using that assms by (intro distinct_map_filter) (auto simp: modulesApart_def sortModules_names)
  then have "distinct (map ModuleName ?new)" "distinct (map underscored (map ModuleName ?new))"
    unfolding names by (simp_all only: map_map insert_iff HOL.simp_thms)
  ultimately show ?thesis by (simp add: modulesApart_def o_assoc)
qed

lemma namesPlain_new:
  assumes "namesPlain E (svModules srv)"
  shows "namesPlain E (map snd (newModulesOf flag (srv\<lparr>svModules := sortModules (svModules srv)\<rparr>)))"
proof -
  let ?new = "map snd (newModulesOf flag (srv\<lparr>svModules := sortModules (svModules srv)\<rparr>))"
  have "set (map ModuleName ?new) \<subseteq> ModuleName ` set (svModules srv)"
    unfolding newModules_names(1) using sortModules_names(1) by auto
  then have "\<forall>n \<in> set (map ModuleName ?new). CHR ''/'' \<notin> set (gvPlural E n)" using assms unfolding namesPlain_def by blast
  then show ?thesis using assms by (simp add: namesPlain_def)
qed

lemma usecase_planned:
  "\<exists>c. OpFile (pathOf (outputFlag flag @ ServiceName (svHeader s) @ ''/'' @ ''pkg/shared/usecase/usecase.go'')) c False
     \<in> set (plan T [] (initServiceTree E inMonorepo flag s new))"
proof -
  let ?root = "outputFlag flag @ ServiceName (svHeader s) @ ''/''"
  let ?file = "fsTmpl (DService s) (tx E ''templateUsecaseUOW'') ''usecase.go''"
  let ?dir = "((?root @ ''pkg/'') @ ''shared/'') @ ''usecase/''"
  let ?op = "OpFile (pathOf (?dir @ ''usecase.go'')) (parseTemplate T ?dir ?file) False"
  have "?op \<in> set (plan T ?dir ?file)" by (simp add: plan.simps [of _ _ "fsTmpl _ _ _"] nodeOps_def) (simp add: fsTmpl_def)
  then have op: "?op \<in> set (plan T ((?root @ ''pkg/'') @ ''shared/'') (fsDir ''usecase/''
      [?file, fsDir ''common/'' [fsTmpl (DService s) (tx E ''templateUsecaseCommon'') ''common.go'']]))"
    by (intro plan_dir_mem [of ?file]) simp_all
  have "?op \<in> set (plan T ?root (pkgTree E flag s (map snd new)))"
    unfolding pkgTree_def Let_def by (rule plan_dir_mem, rule list.set_intros(2), rule list.set_intros(1), rule plan_dir_mem [OF _ op]) simp
  then have "?op \<in> set (plan T [] (initServiceTree E inMonorepo flag s new))"
    unfolding initServiceTree_def Let_def by (intro plan_dir_mem [of "pkgTree E flag s (map snd new)"]) simp_all
  then show ?thesis by auto
qed

text \<open>The node that an operation asks for is there.\<close>

definition madeBy :: "genOp \<Rightarrow> disk \<Rightarrow> bool" where
  "madeBy op d \<longleftrightarrow> map_option (\<lambda>n. n = Dir) (d (opPath op)) = Some (snd (opNode op) = Dir)"

lemma edited_made: "edited P d e \<Longrightarrow> madeBy op d \<Longrightarrow> madeBy op e"
  by (simp add: edited_def madeBy_def)

text \<open>The configuration that a new service is generated from.\<close>

definition sortedService :: "serviceConfig \<Rightarrow> serviceConfig" where
  "sortedService srv = srv\<lparr>svModules := sortModules (svModules srv)\<rparr>"

lemma shared_edits:
  assumes "initService flag" "\<not> addHandler flag" "\<not> isMonorepo flag" "component (serviceName flag)"
    and "serviceName flag = ServiceName (svHeader srv)" "rootLike (outputFlag flag)"
    and "execGenerator (gvTemplates E) [] (initServiceTree E (isWorkdirMonorepo d) flag (withServiceConfig (sortedService srv)) (newModulesOf flag (sortedService srv))) d = Written d2"
    and "ReadFile d2 (serviceFile flag ''pkg/shared/usecase/usecase.go'') \<noteq> None"
  shows "\<exists>d'. projectGenerator E flag InitService srv d = Written d' \<and> edited (below (pathOf (outputFlag flag) @ [serviceName flag])) d2 d'"
proof -
  let ?P = "below (pathOf (outputFlag flag) @ [serviceName flag])" and ?s = "withServiceConfig (sortedService srv)"
  have ne: "serviceName flag \<noteq> []" using assms(4) by (simp add: component_def)
  note in_root = shared_below [OF ne assms(6,4)]
  obtain d3 where d3: "updateSharedUsecase flag ?s d2 = Written d3" "edited ?P d2 d3"
    using assms(8) overwrite_edited [OF assms(8), of ?P] by (auto simp: updateSharedUsecase_def Let_def in_root below_def)
  let ?d4 = "updateSharedRepository flag ?s d3"
  have d4: "edited ?P d3 ?d4" by (rule repository_edited [OF ne assms(6,4)])
  have "getRootDir flag ?s = outputFlag flag @ serviceName flag @ ''/''"
    using assms(1,5) by (simp add: getRootDir_def withServiceConfig_def sortedService_def)
  then have "pathOf (getRootDir flag ?s) = pathOf (outputFlag flag) @ [serviceName flag]" using pathOf_dir [OF assms(6,4)] by simp
  then have d5: "edited ?P ?d4 (applyAll (getNeedFileUpdates flag ?s) ?d4)"
    using needed_below [of _ flag ?s] by (intro applyAll_edited) simp
  have "projectGenerator E flag InitService srv d = Written (applyAll (getNeedFileUpdates flag ?s) ?d4)"
    using assms(2,3,7) d3(1) by (simp add: projectGenerator_def Let_def thenDo_def sortedService_def scope_names)
  then show ?thesis using edited_trans [OF edited_trans [OF d3(2) d4] d5] by blast
qed

text \<open>A new service is generated whole.  Where the directory of the service is not there yet and its parent is,
  with distinct module names, known plugins and worker flags that agree, \<open>projectGenerator\<close> ends without
  \<open>log.Fatal\<close>: every directory and file of the tree is on the disk, also after the edits of the shared files, and
  nothing outside the directory of the service has changed.  A service named \<open>migration\<close> is excluded, since its
  \<open>cmd/migration\<close> collides with that of the migrations.\<close>

theorem init_service_written:
  assumes "initService flag" "\<not> addHandler flag" "\<not> isMonorepo flag"
    and "serviceName flag = ServiceName (svHeader srv)" "component (serviceName flag)" "serviceName flag \<noteq> ''migration''"
    and "rootLike (outputFlag flag)" "isDirAt d (pathOf (outputFlag flag))" "freshAt d (pathOf (outputFlag flag) @ [serviceName flag])"
    and "modulesApart (svModules srv)" "namesPlain E (svModules srv)" "pluginsKnown srv" "workersAgree srv (svConfig srv)"
  shows "\<exists>d'. projectGenerator E flag InitService srv d = Written d' \<and>
     (\<forall>op \<in> set (plan (gvTemplates E) [] (initServiceTree E (isWorkdirMonorepo d) flag (withServiceConfig (sortedService srv)) (newModulesOf flag (sortedService srv)))).
        madeBy op d') \<and>
     (\<forall>q. q \<notin> below (pathOf (outputFlag flag) @ [serviceName flag]) \<longrightarrow> d' q = d q)"
proof -
  let ?s = "withServiceConfig (sortedService srv)" and ?new = "newModulesOf flag (sortedService srv)" and ?P = "below (pathOf (outputFlag flag) @ [serviceName flag])"
  let ?tree = "serviceTree E (isWorkdirMonorepo d) flag ?s ?new" and ?ops = "plan (gvTemplates E) [] (initServiceTree E (isWorkdirMonorepo d) flag ?s ?new)"
  have same: "svHeader ?s = svHeader srv" "svConfig ?s = svConfig srv" "svWorkerPlugins ?s = svWorkerPlugins srv"
    by (simp_all add: withServiceConfig_def sortedService_def)
  have name: "ServiceName (svHeader ?s) = serviceName flag" using assms(4) same(1) by simp
  have cfg: "mdConfig m = svConfig srv" if "m \<in> set (map snd ?new)" for m
    using newModules_config [OF assms(1) that] by (simp add: sortedService_def)
  have "sound ?tree"
    using assms(5,6,10-13) modulesApart_new [of srv flag] namesPlain_new [of E srv flag] cfg unfolding sortedService_def [symmetric]
    by (intro service_sound) (simp_all add: newModules_names(2) pluginsKnown_def workersAgree_def same assms(4) [symmetric])
  moreover have tree: "active ?tree" "nameOf ?tree = serviceName flag" by (simp_all add: serviceTree_def initServiceTree_def Let_def same(1) assms(4))
  ultimately have written: "execGenerator (gvTemplates E) [] (initServiceTree E (isWorkdirMonorepo d) flag ?s ?new) d = Written (d ++ map_of (rev (map opNode ?ops)))"
      (is "_ = Written ?d2")
    and inside: "\<forall>op \<in> set ?ops. \<exists>q. opPath op = pathOf (outputFlag flag) @ serviceName flag # q" and fits: "fits ?ops d"
    using sound_written [OF _ _ assms(7,8), of ?tree "gvTemplates E"] assms(9) by (simp_all add: service_prefix service_plan_prefix)
  have made: "madeBy op ?d2" if "op \<in> set ?ops" for op using plan_result [OF fits that] by (simp add: madeBy_def)
  have frame: "?d2 q = d q" if "q \<notin> ?P" for q using inside that by (intro plan_other) (auto simp: below_def)
  obtain c where c: "OpFile (pathOf (serviceFile flag ''pkg/shared/usecase/usecase.go'')) c False \<in> set ?ops"
    using usecase_planned [of flag ?s "gvTemplates E" E "isWorkdirMonorepo d" ?new] assms(5) unfolding name by (auto simp: serviceFile_def component_def)
  then have "ReadFile ?d2 (serviceFile flag ''pkg/shared/usecase/usecase.go'') \<noteq> None"
    using plan_result [OF fits c] inside [rule_format, OF c] by (auto simp: ReadFile_def statPath_def)
  then obtain d' where d': "projectGenerator E flag InitService srv d = Written d'" "edited ?P ?d2 d'"
    using shared_edits [OF assms(1-3,5,4,7) written] by blast
  have "\<forall>op \<in> set ?ops. madeBy op d'" using edited_made [OF d'(2)] made by blast
  moreover have "d' q = d q" if "q \<notin> ?P" for q using d'(2) frame [OF that] that unfolding edited_def by metis
  ultimately show ?thesis using d'(1) by blast
qed

text \<open>An example: a service with one module and a REST handler, in an empty working directory.\<close>

definition exGenEnv :: genEnv where
  "exGenEnv = \<lparr>gvTemplates = \<lparr>tmText = (\<lambda>_. ''text''), tmRender = (\<lambda>src _. src)\<rparr>, gvPlural = (\<lambda>n. n @ ''s''),
     gvStamp = 20240101000000, gvJSON = (\<lambda>_. ''{}''), gvCandiVersion = ''v1'', gvFuncText = (\<lambda>name _ _. name)\<rparr>"

definition exShop :: serviceConfig where
  "exShop = (let s = exGenService (noConfig\<lparr>cfRestHandler := True\<rparr>) [''user''] in s\<lparr>svHeader := (svHeader s)\<lparr>ServiceName := ''shop''\<rparr>\<rparr>)"

definition exInitFlag :: flagParameter where
  "exInitFlag = exFlag\<lparr>initService := True, serviceName := ''shop'', flagModules := [''user'']\<rparr>"

theorem init_service_written_witness:
  "\<exists>d'. projectGenerator exGenEnv exInitFlag InitService exShop Map.empty = Written d' \<and> d' [''sdk''] = None"
proof -
  have flags: "initService exInitFlag" "\<not> addHandler exInitFlag" "\<not> isMonorepo exInitFlag" "serviceName exInitFlag = ''shop''"
      "ServiceName (svHeader exShop) = ''shop''" "outputFlag exInitFlag = []" "svWorkerPlugins exShop = []"
    by code_simp+
  have mods: "modulesApart (svModules exShop)" "namesPlain exGenEnv (svModules exShop)" "workersAgree exShop (svConfig exShop)" by code_simp+
  have "pluginsKnown exShop" by (simp add: pluginsKnown_def flags)
  then have "\<exists>d'. projectGenerator exGenEnv exInitFlag InitService exShop Map.empty = Written d' \<and> (\<forall>q. q \<notin> below [''shop''] \<longrightarrow> d' q = None)"
    using init_service_written [of exInitFlag exShop Map.empty exGenEnv] mods
    by (auto simp: flags component_def rootLike_def isDirAt_def statPath_def freshAt_def)
  then show ?thesis by (auto simp: below_def)
qed

end
