(* ===== verification/Gen_Cli.thy ===== *)
theory Gen_Cli
  imports Gen_Correct "HOL-Library.Monad_Syntax"
begin

text \<open>
  The dialogue of the project generator (\<open>src/cmd/candi/cli_parser.go\<close>, \<open>cli_stage.go\<close>, \<open>main.go\<close>) with the
  plugins of \<open>plugin.go\<close> and the saved configuration.  The terminal is the list of lines still to be read;
  after the last line every read gives the empty string.  A label with its \<open>goto\<close> is \<open>repeatUntil\<close>; a
  dialogue that never ends is \<open>None\<close>.  Output is left out.
\<close>

section \<open>Plugins and saved configurations\<close>

definition gcpPlugin :: plugin where
  "gcpPlugin =
  \<lparr>plName = pluginGCPPubSubWorker, plPackageName = ''github.com/golangid/candi-plugin/gcppubsub'',
     plEditConfig = [(''import ('',
        ''import ('' @ nl @ tab @ quote @ ''github.com/golangid/candi-plugin/gcppubsub'' @ quote),
       (''brokerDeps := broker.InitBrokers('',
        ''brokerDeps := broker.InitBrokers('' @ nl @ tab @ tab @ tab @ ''gcppubsub.NewGCPPubSubBroker('' @ nl @ tab @ tab @ tab @ tab @ ''gcppubsub.BrokerSetClient(gcppubsub.InitDefaultClient('' @ quote @ ''[gcp-project-id]'' @ quote @ '', '' @ quote @ ''credentials-file.json'' @ quote @ '')),'' @ nl @ tab @ tab @ tab @ ''),'')],
     plEditAppFactory = [(''import ('',
        ''import ('' @ nl @ tab @ quote @ ''github.com/golangid/candi-plugin/gcppubsub'' @ quote),
       (''return'' @ nl @ ''}'',
        ''apps = append(apps, gcppubsub.NewPubSubWorker('' @ nl @ tab @ tab @ ''service,'' @ nl @ tab @ tab @ ''service.GetDependency().GetBroker(gcppubsub.GoogleCloudPubSub),'' @ nl @ tab @ tab @ quote @ ''candi-example'' @ quote @ '','' @ nl @ tab @ ''))'' @ nl @ tab @ ''return'' @ nl @ ''}'')],
     plEditModule = [(''import ('',
        ''import ('' @ nl @ tab @ quote @ ''github.com/golangid/candi-plugin/gcppubsub'' @ quote @ nl),
       (''mod.workerHandlers = map[types.Worker]interfaces.WorkerHandler{'',
        ''mod.workerHandlers = map[types.Worker]interfaces.WorkerHandler{'' @ nl @ tab @ tab @ ''gcppubsub.GoogleCloudPubSub: workerhandler.NewGCPPubSubWorkerHandler(usecase.GetSharedUsecase(), deps),'')]\<rparr>"

definition stompPlugin :: plugin where
  "stompPlugin =
  \<lparr>plName = pluginSTOMPWorker, plPackageName = ''github.com/golangid/candi-plugin/stomp-broker'',
     plEditConfig = [(''import ('',
        ''import ('' @ nl @ tab @ ''stompbroker '' @ quote @ ''github.com/golangid/candi-plugin/stomp-broker'' @ quote),
       (''brokerDeps := broker.InitBrokers('',
        ''brokerDeps := broker.InitBrokers('' @ nl @ tab @ tab @ tab @ ''stompbroker.NewSTOMPBroker(stompbroker.InitDefaultConnection('' @ quote @ ''127.0.0.1:61613'' @ quote @ '', '' @ quote @ ''[username]'' @ quote @ '', '' @ quote @ ''[password]'' @ quote @ '')),'')],
     plEditAppFactory = [(''import ('',
        ''import ('' @ nl @ tab @ ''stompbroker '' @ quote @ ''github.com/golangid/candi-plugin/stomp-broker'' @ quote),
       (''return'' @ nl @ ''}'',
        ''apps = append(apps, stompbroker.NewSTOMPWorker('' @ nl @ tab @ tab @ ''service,'' @ nl @ tab @ tab @ ''service.GetDependency().GetBroker(stompbroker.STOMPBroker),'' @ nl @ tab @ ''))'' @ nl @ tab @ ''return'' @ nl @ ''}'')],
     plEditModule = [(''import ('',
        ''import ('' @ nl @ tab @ ''stompbroker '' @ quote @ ''github.com/golangid/candi-plugin/stomp-broker'' @ quote @ nl),
       (''mod.workerHandlers = map[types.Worker]interfaces.WorkerHandler{'',
        ''mod.workerHandlers = map[types.Worker]interfaces.WorkerHandler{'' @ nl @ tab @ tab @ ''stompbroker.STOMPBroker: workerhandler.NewSTOMPWorkerHandler(usecase.GetSharedUsecase(), deps),'')]\<rparr>"

definition mqttPlugin :: plugin where
  "mqttPlugin =
  \<lparr>plName = pluginMQTTWorker, plPackageName = ''github.com/golangid/candi-plugin/mqtt-broker'',
     plEditConfig = [(''import ('',
        ''import ('' @ nl @ tab @ ''mqtt '' @ quote @ ''github.com/eclipse/paho.mqtt.golang'' @ quote @ nl @ tab @ ''mqttbroker '' @ quote @ ''github.com/golangid/candi-plugin/mqtt-broker'' @ quote),
       (''brokerDeps := broker.InitBrokers('',
        ''brokerDeps := broker.InitBrokers('' @ nl @ tab @ tab @ tab @ ''mqttbroker.NewMQTTBroker(mqtt.NewClientOptions().'' @ nl @ tab @ tab @ tab @ tab @ ''AddBroker('' @ quote @ ''tcp://127.0.0.1:1883'' @ quote @ '').'' @ nl @ tab @ tab @ tab @ tab @ ''SetClientID('' @ quote @ ''MQTTClientID'' @ quote @ '').'' @ nl @ tab @ tab @ tab @ tab @ ''SetUsername('' @ quote @ ''MQTTUsername'' @ quote @ '').'' @ nl @ tab @ tab @ tab @ tab @ ''SetPassword('' @ quote @ ''MQTTPassword'' @ quote @ '').'' @ nl @ tab @ tab @ tab @ tab @ ''SetCleanSession(false).'' @ nl @ tab @ tab @ tab @ tab @ ''SetAutoReconnect(true).'' @ nl @ tab @ tab @ tab @ tab @ ''SetConnectRetry(true),'' @ nl @ tab @ tab @ tab @ ''),'')],
     plEditAppFactory = [(''import ('',
        ''import ('' @ nl @ tab @ ''mqttbroker '' @ quote @ ''github.com/golangid/candi-plugin/mqtt-broker'' @ quote),
       (''return'' @ nl @ ''}'',
        ''apps = append(apps, mqttbroker.NewMQTTSubscriber('' @ nl @ tab @ tab @ ''service,'' @ nl @ tab @ tab @ ''service.GetDependency().GetBroker(mqttbroker.MQTTBroker),'' @ nl @ tab @ ''))'' @ nl @ tab @ ''return'' @ nl @ ''}'')],
     plEditModule = [(''import ('',
        ''import ('' @ nl @ tab @ ''mqttbroker '' @ quote @ ''github.com/golangid/candi-plugin/mqtt-broker'' @ quote @ nl),
       (''mod.workerHandlers = map[types.Worker]interfaces.WorkerHandler{'',
        ''mod.workerHandlers = map[types.Worker]interfaces.WorkerHandler{'' @ nl @ tab @ tab @ ''mqttbroker.MQTTBroker: workerhandler.NewMQTTWorkerHandler(usecase.GetSharedUsecase(), deps),'')]\<rparr>"

definition plugins :: "string \<Rightarrow> plugin" where
  "plugins k =
     (if k = pluginGCPPubSubWorker then gcpPlugin else if k = pluginSTOMPWorker then stompPlugin else if k = pluginMQTTWorker then mqttPlugin
      else \<lparr>plName = [], plPackageName = [], plEditConfig = [], plEditAppFactory = [], plEditModule = []\<rparr>)"

text \<open>What the tool takes from outside: the year of the clock, the version of the Go runtime, and the decoder of
  \<open>candi.json\<close>, whose error the code drops.\<close>

record cliEnv =
  ceGen :: genEnv
  ceYear :: int
  ceRuntime :: string
  ceUnmarshal :: "string \<Rightarrow> serviceConfig"

definition zeroHeader :: configHeader where
  "zeroHeader = \<lparr>GoVersion = [], Version = [], Header = [], ServiceName = [], PackagePrefix = [], ProtoSource = [], OutputDir = [], Owner = [], License = [], Year = 0\<rparr>"

definition zeroService :: serviceConfig where
  "zeroService = \<lparr>svHeader = zeroHeader, svConfig = noConfig, svModules = [], svWorkerPlugins = []\<rparr>"

definition parseDefaultHeader :: "cliEnv \<Rightarrow> serviceConfig \<Rightarrow> serviceConfig" where
  "parseDefaultHeader E s = s\<lparr>svHeader := (svHeader s)\<lparr>Header := ''Code generated by candi '' @ gvCandiVersion (ceGen E) @ ''.'',
     Version := gvCandiVersion (ceGen E), Year := ceYear E, GoVersion := getGoVersion (ceRuntime E)\<rparr>\<rparr>"

text \<open>A configuration of a newer version ends the process: \<open>Inl\<close> with the message.\<close>

definition loadSavedConfig :: "cliEnv \<Rightarrow> flagParameter \<Rightarrow> disk \<Rightarrow> string + serviceConfig" where
  "loadSavedConfig E flag d =
     (let baseDir = (if isMonorepo flag then outputFlag flag @ serviceName flag @ ''/'' else [])
      in case ReadFile d (baseDir @ ''candi.json'') of
           None \<Rightarrow> Inr zeroService
         | Some b \<Rightarrow>
             (let saved = ceUnmarshal E b;
                  mods = map (\<lambda>m. m\<lparr>mdSkip := True, mdConfig := svConfig saved, mdHeader := svHeader saved\<rparr>) (svModules saved)
              in case checkVersion (gvCandiVersion (ceGen E)) (Version (svHeader saved)) of
                   Some err \<Rightarrow> Inl err
                 | None \<Rightarrow> Inr (saved\<lparr>svModules := mods,
                     svHeader := (svHeader saved)\<lparr>Version := gvCandiVersion (ceGen E), OutputDir := outputFlag flag\<rparr>,
                     svConfig := (svConfig saved)\<lparr>cfIsMonorepo := isMonorepo flag\<rparr>\<rparr>)))"

section \<open>The terminal\<close>

definition readInput :: "string list \<Rightarrow> string \<times> string list" where
  "readInput ls = (case ls of [] \<Rightarrow> ([], []) | l # ls' \<Rightarrow> (TrimSpace l, ls'))"

partial_function (option) repeatUntil ::
  "('s \<Rightarrow> string list \<Rightarrow> (('s + 'a) \<times> string list) option) \<Rightarrow> 's \<Rightarrow> string list \<Rightarrow> ('a \<times> string list) option" where
  "repeatUntil step s ls =
     (case step s ls of
        None \<Rightarrow> None
      | Some (r, ls') \<Rightarrow> (case r of Inl s' \<Rightarrow> repeatUntil step s' ls' | Inr a \<Rightarrow> Some (a, ls')))"

declare repeatUntil.simps [code]

text \<open>Read until the line is accepted.\<close>

definition askStep :: "(string \<Rightarrow> 'a option) \<Rightarrow> unit \<Rightarrow> string list \<Rightarrow> ((unit + 'a) \<times> string list) option" where
  "askStep accept s ls = (let (l, ls') = readInput ls in Some (case accept l of None \<Rightarrow> Inl () | Some a \<Rightarrow> Inr a, ls'))"

definition askUntil :: "(string \<Rightarrow> 'a option) \<Rightarrow> string list \<Rightarrow> ('a \<times> string list) option" where
  "askUntil accept = repeatUntil (askStep accept) ()"

text \<open>A line of choices, separated by commas.\<close>

definition choiceItems :: "string \<Rightarrow> string list" where
  "choiceItems cmdInput = SplitByte (CHR '','') (TrimCut '','' cmdInput)"

section \<open>Single questions\<close>

definition cliStageInputServiceName :: "disk \<Rightarrow> string list \<Rightarrow> (string \<times> string list) option" where
  "cliStageInputServiceName d =
     askUntil (\<lambda>l. let serviceName = ToDelimited l (CHR ''-'')
                   in if TrimSpace serviceName = [] \<or> \<not> notExist d serviceName then None else Some serviceName)"

definition inputOwnerName :: "string list \<Rightarrow> (string \<times> string list) option" where
  "inputOwnerName = askUntil (\<lambda>l. if TrimSpace l = [] then None else Some l)"

definition cliStageInputExistingServiceName :: "disk \<Rightarrow> string \<Rightarrow> string list \<Rightarrow> (string \<times> string list) option" where
  "cliStageInputExistingServiceName d prefixPath =
     askUntil (\<lambda>l. let serviceName = ToDelimited l (CHR ''-'')
                   in if TrimSpace serviceName = [] \<or> notExist d (joinPath [prefixPath, serviceName]) then None else Some serviceName)"

definition cliStageInputModule :: "disk \<Rightarrow> string \<Rightarrow> string list \<Rightarrow> (string \<times> string list) option" where
  "cliStageInputModule d prefixPath =
     askUntil (\<lambda>l. let moduleName = ToDelimited l (CHR ''-'')
                   in if validateDir d (joinPath [prefixPath, moduleName]) then Some moduleName else None)"

definition usecaseFile :: "string \<Rightarrow> string \<Rightarrow> string" where
  "usecaseFile prefixPath ucName = joinPath [prefixPath, ''usecase'', underscored ucName @ ''.go'']"

definition cliStageInputUsecaseName :: "disk \<Rightarrow> string \<Rightarrow> string list \<Rightarrow> (string \<times> string list) option" where
  "cliStageInputUsecaseName d prefixPath = askUntil (\<lambda>l. if validateDir d (usecaseFile prefixPath l) then None else Some l)"

definition cliStageInputExistingUsecaseName :: "disk \<Rightarrow> string \<Rightarrow> string list \<Rightarrow> (string \<times> string list) option" where
  "cliStageInputExistingUsecaseName d prefixPath = askUntil (\<lambda>l. if validateDir d (usecaseFile prefixPath l) then Some l else None)"

text \<open>The chosen handlers of a line, or none when an item is no choice.\<close>

fun pickDeliveries :: "(string \<rightharpoonup> string) \<Rightarrow> string list \<Rightarrow> string list option" where
  "pickDeliveries menu [] = Some []"
| "pickDeliveries menu (str # strs) =
     (case menu (TrimSpace str) of
        Some delName \<Rightarrow> map_option (\<lambda>ds. delName # ds) (pickDeliveries menu strs)
      | None \<Rightarrow> if str \<noteq> [] then None else pickDeliveries menu strs)"

definition cliStageInputExistingDelivery :: "disk \<Rightarrow> string \<Rightarrow> string list \<Rightarrow> (string list \<times> string list) option" where
  "cliStageInputExistingDelivery d prefixPath =
     (let (wording, deliveryHandlerMap) = getAllModuleHandler d prefixPath
      in askUntil (\<lambda>l. pickDeliveries deliveryHandlerMap (choiceItems l)))"

section \<open>Modules\<close>

text \<open>The loop over the names of a line: the new modules, the names for the flags, and whether it went through.
  What a line added before a name that exists stays.\<close>

fun addModules :: "disk \<Rightarrow> string \<Rightarrow> flagParameter \<Rightarrow> string list \<Rightarrow> moduleConfig list \<times> string list \<Rightarrow> bool \<times> moduleConfig list \<times> string list" where
  "addModules d scope flag [] (new, mods) = (True, new, mods)"
| "addModules d scope flag (name # names) (new, mods) =
     (if scope \<noteq> InitService \<and> validateDir d (serviceFile flag (''internal/modules/'' @ name)) then (False, new, mods)
      else addModules d scope flag names
             (new @ [\<lparr>mdHeader = zeroHeader, mdConfig = noConfig, ModuleName = TrimSpace (ToDelimited name (CHR ''-'')), mdSkip = False\<rparr>],
              mods @ [TrimSpace name]))"

definition modulesStep :: "disk \<Rightarrow> string \<Rightarrow> flagParameter \<Rightarrow> moduleConfig list \<times> string list \<Rightarrow> string list \<Rightarrow>
    (((moduleConfig list \<times> string list) + (moduleConfig list \<times> string list)) \<times> string list) option" where
  "modulesStep d scope flag acc ls =
     (let (cmdInput, ls') = readInput ls; (ok, new, mods) = addModules d scope flag (SplitByte (CHR '','') cmdInput) acc
      in Some (if \<not> ok \<or> new = [] then Inl (new, mods) else Inr (new, mods), ls'))"

text \<open>\<open>sort.Strings\<close>.\<close>

fun insertString :: "string \<Rightarrow> string list \<Rightarrow> string list" where
  "insertString x [] = [x]"
| "insertString x (y # ys) = (if strLess y x then y # insertString x ys else x # y # ys)"

definition sortStrings :: "string list \<Rightarrow> string list" where
  "sortStrings xs = foldr insertString xs []"

definition stageInputModules :: "disk \<Rightarrow> string \<Rightarrow> flagParameter \<Rightarrow> serviceConfig \<Rightarrow> string list \<Rightarrow> ((flagParameter \<times> serviceConfig) \<times> string list) option" where
  "stageInputModules d scope flag srv ls =
     do {
       ((new, mods), ls') \<leftarrow> repeatUntil (modulesStep d scope flag) ([], flagModules flag) ls;
       Some ((flag\<lparr>flagModules := sortStrings mods\<rparr>, srv\<lparr>svModules := svModules srv @ new\<rparr>), ls')
     }"

section \<open>Handlers\<close>

definition stageSelectRESTFramework :: "serviceConfig \<Rightarrow> string list \<Rightarrow> (serviceConfig \<times> string list) option" where
  "stageSelectRESTFramework srv =
     askUntil (\<lambda>l. case restPluginHandler l of
        Some selected \<Rightarrow> Some (srv\<lparr>svConfig := (svConfig srv)\<lparr>cfFiberRestHandler := selected = FiberRestDeps\<rparr>\<rparr>)
      | None \<Rightarrow> if l \<noteq> [] then None else Some srv)"

text \<open>The keys of the map of handlers are a list without repetitions.\<close>

fun pickServers :: "(string \<rightharpoonup> string) \<Rightarrow> string \<Rightarrow> string list \<Rightarrow> string list \<times> serviceConfig \<Rightarrow> string list \<Rightarrow>
    ((bool \<times> string list \<times> serviceConfig) \<times> string list) option" where
  "pickServers menu scope [] (handlers, srv) ls = Some ((True, handlers, srv), ls)"
| "pickServers menu scope (str # strs) (handlers, srv) ls =
     (case menu (TrimSpace str) of
        Some serverName \<Rightarrow>
          if serverName \<in> set handlers then Some ((False, handlers, srv), ls)
          else if serverName = RestHandler \<and> scope = InitService then
            do {
              (srv', ls') \<leftarrow> stageSelectRESTFramework srv ls;
              pickServers menu scope strs (handlers @ [serverName], srv') ls'
            }
          else pickServers menu scope strs (handlers @ [serverName], srv) ls
      | None \<Rightarrow> if str \<noteq> [] then Some ((False, handlers, srv), ls) else pickServers menu scope strs (handlers, srv) ls)"

fun pickWorkers :: "(string \<rightharpoonup> string) \<Rightarrow> string list \<Rightarrow> string list \<Rightarrow> bool \<times> string list" where
  "pickWorkers menu [] handlers = (True, handlers)"
| "pickWorkers menu (str # strs) handlers =
     (case menu (TrimSpace str) of
        Some workerName \<Rightarrow> pickWorkers menu strs (if workerName \<in> set handlers then handlers else handlers @ [workerName])
      | None \<Rightarrow> if str \<noteq> [] then (False, handlers) else pickWorkers menu strs handlers)"

text \<open>The labels \<open>stageSelectServerHandler\<close> (\<open>atServer\<close>) and \<open>stageSelectWorkerHandlers\<close>; the menu of servers is empty
  when no item of it is shown.\<close>

definition handlersStep :: "disk \<Rightarrow> string \<Rightarrow> flagParameter \<Rightarrow> bool \<times> string list \<times> serviceConfig \<Rightarrow> string list \<Rightarrow>
    (((bool \<times> string list \<times> serviceConfig) + (string list \<times> serviceConfig)) \<times> string list) option" where
  "handlersStep d scope flag st ls =
     (case st of (atServer, handlers, srv) \<Rightarrow>
        let (cmdInput, ls1) = readInput ls
        in if atServer \<and> list_ex fst (serverItems d srv flag) then
             do {
               ((ok, handlers', srv'), ls2) \<leftarrow> pickServers (snd (filterServerHandler d srv flag)) scope (choiceItems cmdInput) (handlers, srv) ls1;
               Some (Inl (\<not> ok, handlers', srv'), ls2)
             }
           else
             (let (ok, handlers') = pickWorkers (snd (filterWorkerHandler d srv flag)) (choiceItems cmdInput) handlers
              in Some (if \<not> ok then Inl (False, handlers', srv)
                       else if handlers' = [] then Inl (True, handlers', srv) else Inr (handlers', srv), ls1)))"

definition handlerSwitch :: "serviceConfig \<Rightarrow> string \<Rightarrow> serviceConfig" where
  "handlerSwitch srv k =
     (let c = svConfig srv
      in if k = RestHandler then srv\<lparr>svConfig := c\<lparr>cfRestHandler := True\<rparr>\<rparr>
         else if k = GrpcHandler then srv\<lparr>svConfig := c\<lparr>cfGRPCHandler := True\<rparr>\<rparr>
         else if k = GraphqlHandler then srv\<lparr>svConfig := c\<lparr>cfGraphQLHandler := True\<rparr>\<rparr>
         else if k = KafkaHandler then srv\<lparr>svConfig := c\<lparr>cfKafkaHandler := True\<rparr>\<rparr>
         else if k = SchedulerHandler then srv\<lparr>svConfig := c\<lparr>cfSchedulerHandler := True\<rparr>\<rparr>
         else if k = RedissubsHandler then srv\<lparr>svConfig := c\<lparr>cfRedisSubsHandler := True\<rparr>\<rparr>
         else if k = TaskqueueHandler then srv\<lparr>svConfig := c\<lparr>cfTaskQueueHandler := True\<rparr>\<rparr>
         else if k = PostgresListenerHandler then srv\<lparr>svConfig := c\<lparr>cfPostgresListenerHandler := True\<rparr>\<rparr>
         else if k = RabbitmqHandler then srv\<lparr>svConfig := c\<lparr>cfRabbitMQHandler := True\<rparr>\<rparr>
         else if k \<notin> set (cfWorkerPlugins c) then
           srv\<lparr>svConfig := c\<lparr>cfWorkerPlugins := cfWorkerPlugins c @ [k]\<rparr>, svWorkerPlugins := svWorkerPlugins srv @ [(k, plugins k)]\<rparr>
         else srv\<lparr>svWorkerPlugins := svWorkerPlugins srv @ [(k, (plugins k)\<lparr>plEditAppFactory := [], plEditConfig := []\<rparr>)]\<rparr>)"

definition moduleSwitches :: "string list \<Rightarrow> serviceConfig \<Rightarrow> moduleConfig \<Rightarrow> moduleConfig" where
  "moduleSwitches handlers srv m =
     m\<lparr>mdHeader := svHeader srv, mdConfig := checkWorkerActive ((svConfig srv)\<lparr>
        cfRestHandler := RestHandler \<in> set handlers, cfGRPCHandler := GrpcHandler \<in> set handlers,
        cfGraphQLHandler := GraphqlHandler \<in> set handlers, cfKafkaHandler := KafkaHandler \<in> set handlers,
        cfSchedulerHandler := SchedulerHandler \<in> set handlers, cfRedisSubsHandler := RedissubsHandler \<in> set handlers,
        cfTaskQueueHandler := TaskqueueHandler \<in> set handlers, cfPostgresListenerHandler := PostgresListenerHandler \<in> set handlers,
        cfRabbitMQHandler := RabbitmqHandler \<in> set handlers\<rparr>)\<rparr>"

definition applyHandlers :: "string list \<Rightarrow> serviceConfig \<Rightarrow> serviceConfig" where
  "applyHandlers handlers srv =
     (let s1 = foldl handlerSwitch (srv\<lparr>svWorkerPlugins := []\<rparr>) handlers;
          s2 = s1\<lparr>svConfig := checkWorkerActive (svConfig s1)\<rparr>
      in s2\<lparr>svModules := map (moduleSwitches handlers s2) (svModules s2)\<rparr>)"

section \<open>Dependencies and licence\<close>

fun pickDependencies :: "string list \<Rightarrow> string list \<Rightarrow> bool \<times> string list" where
  "pickDependencies [] deps = (True, deps)"
| "pickDependencies (str # strs) deps =
     (case dependencyMap (TrimSpace str) of
        Some depsName \<Rightarrow> pickDependencies strs (if depsName \<in> set deps then deps else deps @ [depsName])
      | None \<Rightarrow> if TrimSpace str \<noteq> [] then (False, deps) else pickDependencies strs deps)"

definition selectSQL :: "serviceConfig \<Rightarrow> string list \<Rightarrow> (serviceConfig \<times> string list) option" where
  "selectSQL srv ls =
     do {
       (driver, ls1) \<leftarrow> askUntil sqlDrivers ls;
       (useGORM, ls2) \<leftarrow> askUntil optionYesNo ls1;
       Some (srv\<lparr>svConfig := (svConfig srv)\<lparr>cfSQLDriver := driver, cfSQLUseGORM := useGORM\<rparr>\<rparr>, ls2)
     }"

definition dependenciesStep :: "string list \<Rightarrow> string list \<times> serviceConfig \<Rightarrow> string list \<Rightarrow>
    (((string list \<times> serviceConfig) + (string list \<times> serviceConfig)) \<times> string list) option" where
  "dependenciesStep handlers st ls =
     (case st of (deps, srv) \<Rightarrow>
        let (cmdInput, ls1) = readInput ls; (ok, deps') = pickDependencies (choiceItems cmdInput) deps
        in if \<not> ok \<or> RedissubsHandler \<in> set handlers \<and> RedisDeps \<notin> set deps' then Some (Inl (deps', srv), ls1)
           else
             do {
               (srv', ls2) \<leftarrow> (if SqldbDeps \<in> set deps' then selectSQL srv ls1 else Some (srv, ls1));
               Some (if PostgresListenerHandler \<in> set handlers \<and> (SqldbDeps \<notin> set deps' \<or> cfSQLDriver (svConfig srv') \<noteq> ''postgres'')
                     then Inl (deps', srv') else Inr (deps', srv'), ls2)
             })"

definition stageUseLicense :: "serviceConfig \<Rightarrow> string list \<Rightarrow> (serviceConfig \<times> string list) option" where
  "stageUseLicense srv ls =
     do {
       (isUsingLicense, ls1) \<leftarrow> askUntil optionYesNo ls;
       if isUsingLicense then
         do {
           (owner, ls2) \<leftarrow> inputOwnerName ls1;
           (license, ls3) \<leftarrow> askUntil licenseMap ls2;
           Some (srv\<lparr>svHeader := (svHeader srv)\<lparr>Owner := owner, License := license\<rparr>\<rparr>, ls3)
         }
       else Some (srv, ls1)
     }"

text \<open>What follows the last question: the package names and the flags of the dependencies.\<close>

definition finishConfig :: "flagParameter \<Rightarrow> serviceConfig \<Rightarrow> string list \<Rightarrow> flagParameter \<times> serviceConfig" where
  "finishConfig flag srv deps =
     (let name = ServiceName (svHeader srv);
          flag' = (if packagePrefixFlag flag \<noteq> [] then flag\<lparr>packagePrefixFlag := TrimSuffix (packagePrefixFlag flag) ''/'' @ ''/''\<rparr> else flag);
          prefix = (if packagePrefixFlag flag \<noteq> [] then packagePrefixFlag flag' @ name else name);
          proto = (if protoOutputPkgFlag flag \<noteq> [] then protoOutputPkgFlag flag @ ''/'' @ name @ ''/proto'' else prefix @ ''/api/proto'')
      in (flag', srv\<lparr>svHeader := (svHeader srv)\<lparr>PackagePrefix := prefix, ProtoSource := proto\<rparr>,
           svConfig := checkWorkerActive ((svConfig srv)\<lparr>cfIsMonorepo := isMonorepo flag, cfRedisDeps := RedisDeps \<in> set deps,
             cfSQLDeps := SqldbDeps \<in> set deps, cfMongoDeps := MongodbDeps \<in> set deps, cfArangoDeps := ArangodbDeps \<in> set deps\<rparr>)\<rparr>))"

section \<open>The dialogue\<close>

text \<open>The process ends, or the dialogue returns the configuration, the flags it has changed and the disk.\<close>

datatype parseResult = Exits disk | Parsed serviceConfig flagParameter disk

text \<open>From \<open>stageSelectServerHandler\<close> to the end; the header is completed by the deferred call.\<close>

definition parseHandlers :: "cliEnv \<Rightarrow> string \<Rightarrow> flagParameter \<Rightarrow> serviceConfig \<Rightarrow> disk \<Rightarrow> string list \<Rightarrow> (parseResult \<times> string list) option" where
  "parseHandlers E scope flag srv d ls =
     do {
       ((handlers, srv0), ls1) \<leftarrow> repeatUntil (handlersStep d scope flag) (True, [], srv) ls;
       let srv1 = applyHandlers handlers srv0;
       if scope = AddModule \<or> scope = AddHandler then
         (let srv2 = parseDefaultHeader E (srv1\<lparr>svHeader := (svHeader srv1)\<lparr>OutputDir := []\<rparr>\<rparr>)
          in Some (if scope = AddHandler
                   then (case scopeAddHandler (ceGen E) flag srv2 handlers d of Fatal d' \<Rightarrow> Exits d' | Written d' \<Rightarrow> Parsed srv2 flag d')
                   else Parsed srv2 flag d, ls1))
       else
         do {
           ((deps, srv2), ls2) \<leftarrow> repeatUntil (dependenciesStep handlers) ([], srv1) ls1;
           (srv3, ls3) \<leftarrow> stageUseLicense srv2 ls2;
           let (flag', srv4) = finishConfig flag srv3 deps;
           Some (Parsed (parseDefaultHeader E srv4) flag' d, ls3)
         }
     }"

definition parseModules :: "cliEnv \<Rightarrow> string \<Rightarrow> flagParameter \<Rightarrow> serviceConfig \<Rightarrow> disk \<Rightarrow> string list \<Rightarrow> (parseResult \<times> string list) option" where
  "parseModules E scope flag srv d ls =
     do {
       ((flag', srv'), ls') \<leftarrow> stageInputModules d scope flag srv ls;
       parseHandlers E scope flag' srv' d ls'
     }"

text \<open>The service of a monorepo is asked for.\<close>

definition existingService :: "flagParameter \<Rightarrow> disk \<Rightarrow> string list \<Rightarrow> (flagParameter \<times> string list) option" where
  "existingService flag d ls =
     (if isMonorepo flag then
        do {
          (name, ls') \<leftarrow> cliStageInputExistingServiceName d (outputFlag flag) ls;
          Some (flag\<lparr>serviceName := name\<rparr>, ls')
        }
      else Some (flag, ls))"

definition existingModule :: "flagParameter \<Rightarrow> disk \<Rightarrow> string list \<Rightarrow> (flagParameter \<times> string list) option" where
  "existingModule flag d ls =
     do {
       (name, ls') \<leftarrow> cliStageInputModule d (joinPath [outputFlag flag, serviceName flag, ''internal/modules'']) ls;
       Some (flag\<lparr>moduleName := name\<rparr>, ls')
     }"

text \<open>The two scopes for use cases, with the question for the name and the operation.\<close>

definition parseUsecase :: "cliEnv \<Rightarrow> (disk \<Rightarrow> string \<Rightarrow> string list \<Rightarrow> (string \<times> string list) option) \<Rightarrow>
    (flagParameter \<Rightarrow> string \<Rightarrow> string list \<Rightarrow> disk \<Rightarrow> genResult) \<Rightarrow>
    flagParameter \<Rightarrow> serviceConfig \<Rightarrow> disk \<Rightarrow> string list \<Rightarrow> (parseResult \<times> string list) option" where
  "parseUsecase E askName operation flag srv d ls =
     do {
       (flag1, ls1) \<leftarrow> existingService flag d ls;
       (flag2, ls2) \<leftarrow> existingModule flag1 d ls1;
       (ucName, ls3) \<leftarrow> askName d (getFullModuleChildDir flag2 []) ls2;
       (deliveryHandlers, ls4) \<leftarrow> cliStageInputExistingDelivery d (getFullModuleChildDir flag2 []) ls3;
       let flag3 = (if serviceName flag2 = [] then flag2\<lparr>serviceName := ServiceName (svHeader srv)\<rparr> else flag2);
       Some (case operation flag3 ucName deliveryHandlers d of
               Fatal d' \<Rightarrow> Exits d'
             | Written d' \<Rightarrow> Parsed (parseDefaultHeader E srv) flag3 d', ls4)
     }"

text \<open>A saved configuration is read again once the service is known.\<close>

definition withSaved :: "cliEnv \<Rightarrow> flagParameter \<Rightarrow> disk \<Rightarrow> string list \<Rightarrow> (serviceConfig \<Rightarrow> (parseResult \<times> string list) option) \<Rightarrow> (parseResult \<times> string list) option" where
  "withSaved E flag d ls k = (case loadSavedConfig E flag d of Inl _ \<Rightarrow> Some (Exits d, ls) | Inr srv \<Rightarrow> k srv)"

definition parseInput :: "cliEnv \<Rightarrow> flagParameter \<Rightarrow> disk \<Rightarrow> string list \<Rightarrow> (parseResult \<times> string list) option" where
  "parseInput E flag d ls =
     withSaved E flag d ls (\<lambda>srv.
       let scope = (case scopeMap (scopeFlag flag) of None \<Rightarrow> [] | Some sc \<Rightarrow> sc)
       in if scope = InitService then
            do {
              (name, ls1) \<leftarrow> cliStageInputServiceName d ls;
              parseModules E scope (flag\<lparr>serviceName := name\<rparr>) (srv\<lparr>svHeader := (svHeader srv)\<lparr>ServiceName := name\<rparr>\<rparr>) d ls1
            }
          else if scope = AddModule then
            do {
              (flag1, ls1) \<leftarrow> existingService (flag\<lparr>addModule := True\<rparr>) d ls;
              if isMonorepo flag then withSaved E flag1 d ls1 (\<lambda>srv'. parseModules E scope flag1 srv' d ls1)
              else parseModules E scope flag1 srv d ls1
            }
          else if scope = AddHandler then
            do {
              (flag1, ls1) \<leftarrow> existingService (flag\<lparr>addHandler := True\<rparr>) d ls;
              (if isMonorepo flag then withSaved E flag1 d ls1
                 (\<lambda>srv'. do { (flag2, ls2) \<leftarrow> existingModule flag1 d ls1;
                               parseHandlers E scope flag2 (srv'\<lparr>svHeader := (svHeader srv')\<lparr>ServiceName := serviceName flag1\<rparr>\<rparr>) d ls2 })
               else do { (flag2, ls2) \<leftarrow> existingModule flag1 d ls1; parseHandlers E scope flag2 srv d ls2 })
            }
          else if scope = AddUsecase then parseUsecase E cliStageInputUsecaseName (addUsecase (ceGen E)) flag srv d ls
          else if scope = ApplyUsecase then
            parseUsecase E cliStageInputExistingUsecaseName (\<lambda>f uc hs d. Written (applyUsecaseToDelivery (ceGen E) f uc hs d)) flag srv d ls
          else parseModules E scope flag srv d ls)"

section \<open>The program\<close>

definition generateParsed :: "cliEnv \<Rightarrow> string \<Rightarrow> parseResult \<times> string list \<Rightarrow> genResult" where
  "generateParsed E scope res =
     (case fst res of Exits d \<Rightarrow> Fatal d | Parsed srv flag d \<Rightarrow> projectGenerator (ceGen E) flag scope srv d)"

definition selectScope :: "cliEnv \<Rightarrow> flagParameter \<Rightarrow> string \<Rightarrow> disk \<Rightarrow> string list \<Rightarrow> genResult option" where
  "selectScope E flag scope d ls =
     (if scope = InitMonorepo then
        (let name = ToDelimited (fst (readInput ls)) (CHR ''-'')
         in Some (monorepoGenerator (ceGen E) (if name \<noteq> [] then flag\<lparr>monorepoProjectName := name\<rparr> else flag) zeroService d))
      else if scope = RunServiceMonorepo then Some (Written d)
      else
        (let flag1 = (if scope = InitService then flag\<lparr>initService := True\<rparr> else flag);
             flag2 = (if isMonorepo flag1 then snd (parseMonorepoFlag flag1) else flag1)
         in map_option (generateParsed E scope) (parseInput E flag2 d ls)))"

text \<open>The scope is asked for until it is one of the map.\<close>

definition scopeStep :: "string \<Rightarrow> string list \<Rightarrow> ((string + string \<times> string) \<times> string list) option" where
  "scopeStep sc ls =
     (let (sc', ls') = (if sc = [] then readInput ls else (sc, ls))
      in Some (case scopeMap sc' of None \<Rightarrow> Inl [] | Some scope \<Rightarrow> Inr (sc', scope), ls'))"

text \<open>A monorepo without the name of the service ends the two flags that need it.  Printing the version and running
  services write nothing here.  The flags that \<open>parseInput\<close> has changed are those the generator gets.\<close>

definition mainRun :: "cliEnv \<Rightarrow> flagParameter \<Rightarrow> disk \<Rightarrow> string list \<Rightarrow> genResult option" where
  "mainRun E flag0 d ls =
     (let flag = flag0\<lparr>isMonorepo := isWorkdirMonorepo d\<rparr>;
          monorepoFlag = (\<lambda>f. if isMonorepo f then parseMonorepoFlag f else (None, f));
          generate = (\<lambda>scope f. map_option (generateParsed E scope) (parseInput E f d ls))
      in if versionFlag flag \<or> runFlag flag then Some (Written d)
         else if initMonorepo flag then Some (monorepoGenerator (ceGen E) flag zeroService d)
         else if initService flag then generate InitService (snd (monorepoFlag (flag\<lparr>scopeFlag := ''2''\<rparr>)))
         else if addModule flag then
           (case monorepoFlag (flag\<lparr>scopeFlag := ''3''\<rparr>) of (Some err, f) \<Rightarrow> Some (Written d) | (None, f) \<Rightarrow> generate AddModule f)
         else if addHandler flag then
           (case monorepoFlag (flag\<lparr>scopeFlag := ''4''\<rparr>) of (Some err, f) \<Rightarrow> Some (Written d) | (None, f) \<Rightarrow> generate AddModule f)
         else
           do {
             ((sc, scope), ls') \<leftarrow> repeatUntil scopeStep (scopeFlag flag) ls;
             selectScope E (flag\<lparr>scopeFlag := sc\<rparr>) scope d ls'
           })"

section \<open>Loops that read\<close>

text \<open>The rule for a label: an invariant of the rounds holds at the end.\<close>

lemma repeatUntil_inv:
  assumes "repeatUntil step s ls = Some (a, ls')" "I s"
    and round: "\<And>s ls s' ls'. I s \<Longrightarrow> step s ls = Some (Inl s', ls') \<Longrightarrow> I s'"
    and last: "\<And>s ls a ls'. I s \<Longrightarrow> step s ls = Some (Inr a, ls') \<Longrightarrow> Q a"
  shows "Q a"
proof -
  have "step = step \<longrightarrow> I s \<longrightarrow> Q (fst (a, ls'))"
  proof (rule repeatUntil.raw_induct [where P = "\<lambda>st s ls y. st = step \<longrightarrow> I s \<longrightarrow> Q (fst y)", OF _ assms(1)], intro impI)
    fix f st s ls y
    assume IH: "\<And>st s ls y. f st s ls = Some y \<Longrightarrow> st = step \<longrightarrow> I s \<longrightarrow> Q (fst y)"
      and body: "(case st s ls of None \<Rightarrow> None | Some (r, ls') \<Rightarrow> (case r of Inl s' \<Rightarrow> f st s' ls' | Inr a \<Rightarrow> Some (a, ls'))) = Some y"
      and st: "st = step" and I: "I s"
    then obtain r ls1 where r: "step s ls = Some (r, ls1)" by (auto split: option.splits)
    show "Q (fst y)"
    proof (cases r)
      case (Inl s')
      then have "f st s' ls1 = Some y" "I s'" using body r st round [OF I] by auto
      then show ?thesis using IH st by blast
    next
      case (Inr a)
      then have "y = (a, ls1)" using body r st by auto
      then show ?thesis using last [OF I] r Inr by simp
    qed
  qed
  then show ?thesis using assms(2) by simp
qed

text \<open>A label that keeps asking at the end of the input is never left.\<close>

lemma repeatUntil_stuck:
  assumes "J s" and "\<And>s. J s \<Longrightarrow> \<exists>s'. step s [] = Some (Inl s', []) \<and> J s'"
  shows "repeatUntil step s [] = None"
proof (rule ccontr)
  assume "repeatUntil step s [] \<noteq> None"
  then obtain y where y: "repeatUntil step s [] = Some y" by blast
  have "step = step \<longrightarrow> [] = ([] :: string list) \<longrightarrow> \<not> J s"
  proof (rule repeatUntil.raw_induct [where P = "\<lambda>st s ls y. st = step \<longrightarrow> ls = [] \<longrightarrow> \<not> J s", OF _ y], intro impI notI)
    fix f st s and ls :: "string list" and y
    assume IH: "\<And>st s ls y. f st s ls = Some y \<Longrightarrow> st = step \<longrightarrow> ls = [] \<longrightarrow> \<not> J s"
      and body: "(case st s ls of None \<Rightarrow> None | Some (r, ls') \<Rightarrow> (case r of Inl s' \<Rightarrow> f st s' ls' | Inr a \<Rightarrow> Some (a, ls'))) = Some y"
      and st: "st = step" "ls = []" and J: "J s"
    obtain s' where s': "step s [] = Some (Inl s', [])" "J s'" using assms(2) [OF J] by blast
    then have "f st s' [] = Some y" using body st by simp
    then show False using IH st(1) s'(2) by blast
  qed
  then show False using assms(1) by simp
qed

lemma askUntil_accepts: "askUntil accept ls = Some (a, ls') \<Longrightarrow> \<exists>l. accept l = Some a"
  unfolding askUntil_def
  by (erule repeatUntil_inv [where I = "\<lambda>_. True"]) (auto simp: askStep_def Let_def split: prod.splits option.splits)

lemma askUntil_Cons: "askUntil accept (l # ls) = (case accept (TrimSpace l) of None \<Rightarrow> askUntil accept ls | Some a \<Rightarrow> Some (a, ls))"
  unfolding askUntil_def by (subst repeatUntil.simps) (simp add: askStep_def readInput_def split: option.splits)

lemma askUntil_Nil: "askUntil accept [] = map_option (\<lambda>a. (a, [])) (accept [])"
proof (cases "accept []")
  case None
  then have "repeatUntil (askStep accept) () [] = None"
    by (intro repeatUntil_stuck [where J = "\<lambda>_. True"]) (simp_all add: askStep_def readInput_def)
  then show ?thesis using None by (simp add: askUntil_def)
next
  case (Some a)
  then show ?thesis unfolding askUntil_def by (subst repeatUntil.simps) (simp add: askStep_def readInput_def)
qed

section \<open>What the stages give\<close>

lemma menuOf_range:
  assumes "snd (menuOf items) k = Some h"
  shows "h \<in> (snd \<circ> snd) ` set items"
proof -
  have "snd (foldl menuStep acc items) k = Some h \<Longrightarrow> h \<in> (snd \<circ> snd) ` set items \<or> snd acc k = Some h" for acc
  proof (induction items arbitrary: acc)
    case (Cons it items)
    then have "h \<in> (snd \<circ> snd) ` set items \<or> snd (menuStep acc it) k = Some h" by simp
    then show ?case by (auto simp: menuStep_def Let_def split: prod.splits if_splits)
  qed simp
  from this [of "([], Map.empty)"] show ?thesis using assms by (auto simp: menuOf_def split: prod.splits)
qed

definition builtinHandlers :: "string list" where
  "builtinHandlers = [RestHandler, GrpcHandler, GraphqlHandler, KafkaHandler, SchedulerHandler, RedissubsHandler, TaskqueueHandler,
     PostgresListenerHandler, RabbitmqHandler]"

definition pluginHandlers :: "string list" where
  "pluginHandlers = [pluginGCPPubSubWorker, pluginSTOMPWorker, pluginMQTTWorker]"

lemma server_menu: "snd (filterServerHandler d srv flag) k = Some h \<Longrightarrow> h \<in> set builtinHandlers"
  using menuOf_range [of "serverItems d srv flag" k h] by (auto simp: filterServerHandler_def serverItems_def builtinHandlers_def)

lemma worker_menu: "snd (filterWorkerHandler d srv flag) k = Some h \<Longrightarrow> h \<in> set builtinHandlers \<union> set pluginHandlers"
  using menuOf_range [of "workerItems d srv flag" k h] by (auto simp: filterWorkerHandler_def workerItems_def builtinHandlers_def pluginHandlers_def)

text \<open>Chosen handlers are known ones, each once; only the REST library of the configuration changes.\<close>

definition chosenWell :: "serviceConfig \<Rightarrow> string list \<times> serviceConfig \<Rightarrow> bool" where
  "chosenWell srv0 p \<longleftrightarrow> (case p of (hs, srv) \<Rightarrow> distinct hs \<and> set hs \<subseteq> set builtinHandlers \<union> set pluginHandlers \<and>
     (\<exists>x. srv = srv0\<lparr>svConfig := (svConfig srv0)\<lparr>cfFiberRestHandler := x\<rparr>\<rparr>))"

lemma same_rest: "\<exists>x. srv = srv\<lparr>svConfig := (svConfig srv)\<lparr>cfFiberRestHandler := x\<rparr>\<rparr>"
  by (rule exI [of _ "cfFiberRestHandler (svConfig srv)"]) simp

lemma rest_framework: "stageSelectRESTFramework srv ls = Some (srv', ls') \<Longrightarrow> \<exists>x. srv' = srv\<lparr>svConfig := (svConfig srv)\<lparr>cfFiberRestHandler := x\<rparr>\<rparr>"
proof -
  assume "stageSelectRESTFramework srv ls = Some (srv', ls')"
  then obtain l where "(case restPluginHandler l of
        Some selected \<Rightarrow> Some (srv\<lparr>svConfig := (svConfig srv)\<lparr>cfFiberRestHandler := selected = FiberRestDeps\<rparr>\<rparr>)
      | None \<Rightarrow> if l \<noteq> [] then None else Some srv) = Some srv'"
    unfolding stageSelectRESTFramework_def by (blast dest: askUntil_accepts)
  then show ?thesis using same_rest [of srv] by (auto split: option.splits if_splits)
qed

lemma chosenWell_rest: "chosenWell srv0 (hs, srv) \<Longrightarrow> srv' = srv\<lparr>svConfig := (svConfig srv)\<lparr>cfFiberRestHandler := x\<rparr>\<rparr> \<Longrightarrow> chosenWell srv0 (hs, srv')"
  by (auto simp: chosenWell_def)

lemma chosenWell_add:
  "chosenWell srv0 (hs, srv) \<Longrightarrow> h \<notin> set hs \<Longrightarrow> h \<in> set builtinHandlers \<union> set pluginHandlers \<Longrightarrow> chosenWell srv0 (hs @ [h], srv)"
  by (auto simp: chosenWell_def)

lemma pickServers_chosen:
  assumes "pickServers menu scope strs (hs, srv) ls = Some ((ok, hs', srv'), ls')" "chosenWell srv0 (hs, srv)"
    and menu: "\<And>k h. menu k = Some h \<Longrightarrow> h \<in> set builtinHandlers"
  shows "chosenWell srv0 (hs', srv')"
  using assms(1,2)
proof (induction strs arbitrary: hs srv ls)
  case (Cons str strs)
  show ?case
  proof (cases "menu (TrimSpace str)")
    case None
    then show ?thesis using Cons by (auto split: if_splits)
  next
    case (Some h)
    show ?thesis
    proof (cases "h \<in> set hs")
      case False
      then have added: "chosenWell srv0 (hs @ [h], srv)" using chosenWell_add [OF Cons.prems(2)] menu [OF Some] by blast
      show ?thesis
      proof (cases "h = RestHandler \<and> scope = InitService")
        case True
        then obtain srv1 ls1 where s1: "stageSelectRESTFramework srv ls = Some (srv1, ls1)"
            "pickServers menu scope strs (hs @ [h], srv1) ls1 = Some ((ok, hs', srv'), ls')"
          using Cons.prems(1) Some False by (auto split: Option.bind_splits)
        then show ?thesis using Cons.IH [OF s1(2)] chosenWell_rest [OF added] rest_framework [OF s1(1)] by blast
      next
        case no: False
        then have "pickServers menu scope strs (hs @ [h], srv) ls = Some ((ok, hs', srv'), ls')"
          using Cons.prems(1) Some False by (auto split: if_splits)
        then show ?thesis using Cons.IH added by blast
      qed
    qed (use Cons.prems Some in simp)
  qed
qed simp

lemma pickWorkers_chosen:
  assumes "pickWorkers menu strs hs = (ok, hs')" "chosenWell srv0 (hs, srv)"
    and menu: "\<And>k h. menu k = Some h \<Longrightarrow> h \<in> set builtinHandlers \<union> set pluginHandlers"
  shows "chosenWell srv0 (hs', srv)"
  using assms(1,2)
proof (induction strs arbitrary: hs)
  case (Cons str strs)
  show ?case
  proof (cases "menu (TrimSpace str)")
    case (Some h)
    then have "chosenWell srv0 (if h \<in> set hs then hs else hs @ [h], srv)" using chosenWell_add [OF Cons.prems(2)] menu [OF Some] Cons.prems(2) by simp
    then show ?thesis using Cons.IH Cons.prems(1) Some by auto
  qed (use Cons in \<open>auto split: if_splits\<close>)
qed simp

lemma handlers_chosen:
  assumes "repeatUntil (handlersStep d scope flag) (True, [], srv0) ls = Some ((hs, srv), ls')"
  shows "hs \<noteq> [] \<and> chosenWell srv0 (hs, srv)"
proof -
  have "fst (hs, srv) \<noteq> [] \<and> chosenWell srv0 (hs, srv)"
  proof (rule repeatUntil_inv [where I = "\<lambda>st. chosenWell srv0 (snd st)", OF assms])
    show "chosenWell srv0 (snd (True, [], srv0))" using same_rest [of srv0] unfolding chosenWell_def by simp
  next
    fix st ls st' ls' assume "chosenWell srv0 (snd st)" "handlersStep d scope flag st ls = Some (Inl st', ls')"
    then show "chosenWell srv0 (snd st')"
      by (cases st) (auto simp: handlersStep_def Let_def split: prod.splits if_splits Option.bind_splits
          dest: pickServers_chosen pickWorkers_chosen server_menu worker_menu)
  next
    fix st ls and a :: "string list \<times> serviceConfig" and ls' assume "chosenWell srv0 (snd st)" "handlersStep d scope flag st ls = Some (Inr a, ls')"
    then show "fst a \<noteq> [] \<and> chosenWell srv0 a"
      by (cases st) (auto simp: handlersStep_def Let_def split: prod.splits if_splits Option.bind_splits
          dest: pickWorkers_chosen worker_menu)
  qed
  then show ?thesis by simp
qed

text \<open>The switches of the configuration are those of the chosen handlers.\<close>

lemmas handler_names = RestHandler_def GrpcHandler_def GraphqlHandler_def KafkaHandler_def SchedulerHandler_def RedissubsHandler_def
  TaskqueueHandler_def PostgresListenerHandler_def RabbitmqHandler_def pluginGCPPubSubWorker_def pluginSTOMPWorker_def pluginMQTTWorker_def

lemma names_differ:
  "distinct builtinHandlers" "distinct pluginHandlers" "set builtinHandlers \<inter> set pluginHandlers = {}"
  by (simp_all add: builtinHandlers_def pluginHandlers_def handler_names)

definition serverOn :: "genConfig \<Rightarrow> bool list" where
  "serverOn c = [cfRestHandler c, cfGRPCHandler c, cfGraphQLHandler c]"

definition workerOn :: "genConfig \<Rightarrow> bool list" where
  "workerOn c = [cfKafkaHandler c, cfSchedulerHandler c, cfRedisSubsHandler c, cfTaskQueueHandler c, cfPostgresListenerHandler c, cfRabbitMQHandler c]"

lemma handler_name_cases:
  assumes "k \<in> set builtinHandlers"
  obtains "k = RestHandler" | "k = GrpcHandler" | "k = GraphqlHandler" | "k = KafkaHandler" | "k = SchedulerHandler" | "k = RedissubsHandler"
    | "k = TaskqueueHandler" | "k = PostgresListenerHandler" | "k = RabbitmqHandler"
  using assms by (auto simp: builtinHandlers_def)

lemma handlerSwitch_builtin:
  "handlerSwitch s RestHandler = s\<lparr>svConfig := (svConfig s)\<lparr>cfRestHandler := True\<rparr>\<rparr>"
  "handlerSwitch s GrpcHandler = s\<lparr>svConfig := (svConfig s)\<lparr>cfGRPCHandler := True\<rparr>\<rparr>"
  "handlerSwitch s GraphqlHandler = s\<lparr>svConfig := (svConfig s)\<lparr>cfGraphQLHandler := True\<rparr>\<rparr>"
  "handlerSwitch s KafkaHandler = s\<lparr>svConfig := (svConfig s)\<lparr>cfKafkaHandler := True\<rparr>\<rparr>"
  "handlerSwitch s SchedulerHandler = s\<lparr>svConfig := (svConfig s)\<lparr>cfSchedulerHandler := True\<rparr>\<rparr>"
  "handlerSwitch s RedissubsHandler = s\<lparr>svConfig := (svConfig s)\<lparr>cfRedisSubsHandler := True\<rparr>\<rparr>"
  "handlerSwitch s TaskqueueHandler = s\<lparr>svConfig := (svConfig s)\<lparr>cfTaskQueueHandler := True\<rparr>\<rparr>"
  "handlerSwitch s PostgresListenerHandler = s\<lparr>svConfig := (svConfig s)\<lparr>cfPostgresListenerHandler := True\<rparr>\<rparr>"
  "handlerSwitch s RabbitmqHandler = s\<lparr>svConfig := (svConfig s)\<lparr>cfRabbitMQHandler := True\<rparr>\<rparr>"
  by (simp_all add: handlerSwitch_def Let_def handler_names)

lemma handlerSwitch_plugin:
  assumes "k \<notin> set builtinHandlers"
  shows "\<exists>p. plName p = plName (plugins k) \<and> handlerSwitch s k =
     s\<lparr>svConfig := (svConfig s)\<lparr>cfWorkerPlugins := cfWorkerPlugins (svConfig s) @ (if k \<in> set (cfWorkerPlugins (svConfig s)) then [] else [k])\<rparr>,
       svWorkerPlugins := svWorkerPlugins s @ [(k, p)]\<rparr>"
proof -
  have ne: "k \<noteq> h" if "h \<in> set builtinHandlers" for h using assms that by blast
  have "\<forall>h \<in> set builtinHandlers. k \<noteq> h" using ne by blast
  then show ?thesis
    by (intro exI [of _ "if k \<in> set (cfWorkerPlugins (svConfig s)) then (plugins k)\<lparr>plEditAppFactory := [], plEditConfig := []\<rparr> else plugins k"])
      (simp add: handlerSwitch_def Let_def builtinHandlers_def)
qed

lemma handlerSwitch_step:
  "svHeader (handlerSwitch s k) = svHeader s \<and> svModules (handlerSwitch s k) = svModules s \<and>
   serverOn (svConfig (handlerSwitch s k)) @ workerOn (svConfig (handlerSwitch s k)) =
     map2 (\<lambda>on h. on \<or> h = k) (serverOn (svConfig s) @ workerOn (svConfig s)) builtinHandlers \<and>
   map (plName \<circ> snd) (svWorkerPlugins (handlerSwitch s k)) =
     map (plName \<circ> snd) (svWorkerPlugins s) @ (if k \<in> set builtinHandlers then [] else [plName (plugins k)]) \<and>
   set (map fst (svWorkerPlugins (handlerSwitch s k))) = set (map fst (svWorkerPlugins s)) \<union> (if k \<in> set builtinHandlers then {} else {k}) \<and>
   set (cfWorkerPlugins (svConfig (handlerSwitch s k))) = set (cfWorkerPlugins (svConfig s)) \<union> (if k \<in> set builtinHandlers then {} else {k})"
proof (cases "k \<in> set builtinHandlers")
  case True
  from True show ?thesis
    by (cases rule: handler_name_cases)
      (simp_all add: handlerSwitch_builtin [unfolded handler_names] serverOn_def workerOn_def builtinHandlers_def handler_names)
next
  case False
  then have ne: "\<forall>h \<in> set builtinHandlers. h \<noteq> k" by blast
  obtain p where "plName p = plName (plugins k)" "handlerSwitch s k =
     s\<lparr>svConfig := (svConfig s)\<lparr>cfWorkerPlugins := cfWorkerPlugins (svConfig s) @ (if k \<in> set (cfWorkerPlugins (svConfig s)) then [] else [k])\<rparr>,
       svWorkerPlugins := svWorkerPlugins s @ [(k, p)]\<rparr>"
    using handlerSwitch_plugin [OF False] by blast
  then show ?thesis using False ne by (auto simp: serverOn_def workerOn_def builtinHandlers_def)
qed

definition pluginsOf :: "string list \<Rightarrow> string list" where
  "pluginsOf hs = filter (\<lambda>k. k \<notin> set builtinHandlers) hs"

lemma handlerSwitch_all:
  "svHeader (foldl handlerSwitch s hs) = svHeader s \<and> svModules (foldl handlerSwitch s hs) = svModules s \<and>
   serverOn (svConfig (foldl handlerSwitch s hs)) @ workerOn (svConfig (foldl handlerSwitch s hs)) =
     map2 (\<lambda>on h. on \<or> h \<in> set hs) (serverOn (svConfig s) @ workerOn (svConfig s)) builtinHandlers \<and>
   map (plName \<circ> snd) (svWorkerPlugins (foldl handlerSwitch s hs)) =
     map (plName \<circ> snd) (svWorkerPlugins s) @ map (plName \<circ> plugins) (pluginsOf hs) \<and>
   set (map fst (svWorkerPlugins (foldl handlerSwitch s hs))) = set (map fst (svWorkerPlugins s)) \<union> set (pluginsOf hs) \<and>
   set (cfWorkerPlugins (svConfig (foldl handlerSwitch s hs))) = set (cfWorkerPlugins (svConfig s)) \<union> set (pluginsOf hs)"
proof (induction hs rule: rev_induct)
  case Nil
  then show ?case by (simp add: pluginsOf_def serverOn_def workerOn_def builtinHandlers_def)
next
  case (snoc k hs)
  let ?s = "foldl handlerSwitch s hs"
  have "map2 (\<lambda>on h. on \<or> h = k) (map2 (\<lambda>on h. on \<or> h \<in> set hs) (serverOn (svConfig s) @ workerOn (svConfig s)) builtinHandlers) builtinHandlers =
      map2 (\<lambda>on h. on \<or> h \<in> set (hs @ [k])) (serverOn (svConfig s) @ workerOn (svConfig s)) builtinHandlers"
    by (auto simp: serverOn_def workerOn_def builtinHandlers_def)
  note on = this
  have po: "pluginsOf (hs @ [k]) = pluginsOf hs @ (if k \<in> set builtinHandlers then [] else [k])" by (simp add: pluginsOf_def)
  have fl: "foldl handlerSwitch s (hs @ [k]) = handlerSwitch ?s k" by simp
  note step = handlerSwitch_step [of ?s k]
  show ?case unfolding fl
  proof (intro conjI)
    show "svHeader (handlerSwitch ?s k) = svHeader s" "svModules (handlerSwitch ?s k) = svModules s" using snoc step by metis+
    show "serverOn (svConfig (handlerSwitch ?s k)) @ workerOn (svConfig (handlerSwitch ?s k)) =
        map2 (\<lambda>on h. on \<or> h \<in> set (hs @ [k])) (serverOn (svConfig s) @ workerOn (svConfig s)) builtinHandlers"
      unfolding on [symmetric] using snoc step by metis
    show "map (plName \<circ> snd) (svWorkerPlugins (handlerSwitch ?s k)) = map (plName \<circ> snd) (svWorkerPlugins s) @ map (plName \<circ> plugins) (pluginsOf (hs @ [k]))"
      unfolding po using snoc step by (cases "k \<in> set builtinHandlers") (simp_all add: comp_def)
    show "set (map fst (svWorkerPlugins (handlerSwitch ?s k))) = set (map fst (svWorkerPlugins s)) \<union> set (pluginsOf (hs @ [k]))"
      unfolding po using snoc step by (cases "k \<in> set builtinHandlers") simp_all
    show "set (cfWorkerPlugins (svConfig (handlerSwitch ?s k))) = set (cfWorkerPlugins (svConfig s)) \<union> set (pluginsOf (hs @ [k]))"
      unfolding po using snoc step by (cases "k \<in> set builtinHandlers") simp_all
  qed
qed

lemma plugin_names: "k \<in> set pluginHandlers \<Longrightarrow> plName (plugins k) = k"
  by (auto simp: pluginHandlers_def plugins_def gcpPlugin_def stompPlugin_def mqttPlugin_def handler_names)

lemma applyHandlers_result:
  assumes "chosenWell srv0 (hs, srv)" "hs \<noteq> []" "svConfig srv0 = noConfig"
  defines "s \<equiv> applyHandlers hs srv"
  shows "svHeader s = svHeader srv0" "map ModuleName (svModules s) = map ModuleName (svModules srv0)" "pluginsKnown s"
    and "svWorkerPlugins s \<noteq> [] \<longrightarrow> cfWorkerPlugins (svConfig s) \<noteq> []"
    and "cfRedisSubsHandler (svConfig s) = (RedissubsHandler \<in> set hs)"
    and "cfPostgresListenerHandler (svConfig s) = (PostgresListenerHandler \<in> set hs)"
    and "True \<in> set (serverOn (svConfig s)) \<or> True \<in> set (workerOn (svConfig s)) \<or> cfWorkerPlugins (svConfig s) \<noteq> []"
proof -
  let ?s0 = "srv\<lparr>svWorkerPlugins := []\<rparr>" and ?s1 = "foldl handlerSwitch (srv\<lparr>svWorkerPlugins := []\<rparr>) hs"
  obtain x where srv: "srv = srv0\<lparr>svConfig := noConfig\<lparr>cfFiberRestHandler := x\<rparr>\<rparr>"
    using assms(1,3) by (auto simp: chosenWell_def)
  have hs: "distinct hs" "set hs \<subseteq> set builtinHandlers \<union> set pluginHandlers" using assms(1) by (simp_all add: chosenWell_def)
  have po: "distinct (pluginsOf hs)" "set (pluginsOf hs) \<subseteq> set pluginHandlers" using hs by (auto simp: pluginsOf_def)
  note all = handlerSwitch_all [of ?s0 hs]
  have flags: "serverOn (svConfig ?s1) @ workerOn (svConfig ?s1) = map (\<lambda>h. h \<in> set hs) builtinHandlers"
    using all by (simp add: srv serverOn_def workerOn_def builtinHandlers_def noConfig_def)
  have s: "svHeader s = svHeader ?s1" "svWorkerPlugins s = svWorkerPlugins ?s1" "map ModuleName (svModules s) = map ModuleName (svModules ?s1)"
      "serverOn (svConfig s) @ workerOn (svConfig s) = serverOn (svConfig ?s1) @ workerOn (svConfig ?s1)"
      "cfWorkerPlugins (svConfig s) = cfWorkerPlugins (svConfig ?s1)"
    by (simp_all add: s_def applyHandlers_def Let_def moduleSwitches_def checkWorkerActive_def serverOn_def workerOn_def)
  show "svHeader s = svHeader srv0" using s(1) all srv by simp
  show "map ModuleName (svModules s) = map ModuleName (svModules srv0)" using s(3) all srv by simp
  have "map (plName \<circ> snd) (svWorkerPlugins s) = map (plName \<circ> plugins) (pluginsOf hs)" using s(2) all by simp
  also have "\<dots> = pluginsOf hs" using po(2) by (intro map_idI) (auto simp: plugin_names)
  finally show "pluginsKnown s" using po by (simp add: pluginsKnown_def pluginHandlers_def)
  have "set (cfWorkerPlugins (svConfig s)) = set (pluginsOf hs)" "set (map fst (svWorkerPlugins s)) = set (pluginsOf hs)"
    using s(2,5) all srv by (simp_all add: noConfig_def)
  then show pl: "svWorkerPlugins s \<noteq> [] \<longrightarrow> cfWorkerPlugins (svConfig s) \<noteq> []" by auto
  show "cfRedisSubsHandler (svConfig s) = (RedissubsHandler \<in> set hs)" "cfPostgresListenerHandler (svConfig s) = (PostgresListenerHandler \<in> set hs)"
    using flags unfolding s(4) [symmetric] by (simp_all add: serverOn_def workerOn_def builtinHandlers_def)
  obtain h where h: "h \<in> set hs" using assms(2) by (cases hs) auto
  show "True \<in> set (serverOn (svConfig s)) \<or> True \<in> set (workerOn (svConfig s)) \<or> cfWorkerPlugins (svConfig s) \<noteq> []"
  proof (cases "h \<in> set builtinHandlers")
    case True
    then have "True \<in> set (map (\<lambda>h. h \<in> set hs) builtinHandlers)" using h by force
    then show ?thesis unfolding flags [symmetric] s(4) [symmetric] by auto
  next
    case False
    then have "h \<in> set (pluginsOf hs)" using h by (simp add: pluginsOf_def)
    then show ?thesis using \<open>set (cfWorkerPlugins (svConfig s)) = set (pluginsOf hs)\<close> by auto
  qed
qed

lemma selectSQL_result:
  assumes "selectSQL srv ls = Some (srv', ls')"
  shows "\<exists>driver useGORM. driver \<in> {''postgres'', ''mysql'', ''sqlite3''} \<and>
     srv' = srv\<lparr>svConfig := (svConfig srv)\<lparr>cfSQLDriver := driver, cfSQLUseGORM := useGORM\<rparr>\<rparr>"
proof -
  obtain driver useGORM ls1 where *: "askUntil sqlDrivers ls = Some (driver, ls1)"
      "srv' = srv\<lparr>svConfig := (svConfig srv)\<lparr>cfSQLDriver := driver, cfSQLUseGORM := useGORM\<rparr>\<rparr>"
    using assms by (auto simp: selectSQL_def split: Option.bind_splits)
  obtain l where "sqlDrivers l = Some driver" using askUntil_accepts [OF *(1)] by blast
  then have "driver \<in> {''postgres'', ''mysql'', ''sqlite3''}" by (auto simp: sqlDrivers_def split: if_splits)
  then show ?thesis using *(2) by blast
qed

text \<open>The dependencies that the handlers need are there.\<close>

definition sqlOnly :: "serviceConfig \<Rightarrow> serviceConfig \<Rightarrow> bool" where
  "sqlOnly srv0 srv \<longleftrightarrow> (\<exists>driver useGORM. srv = srv0\<lparr>svConfig := (svConfig srv0)\<lparr>cfSQLDriver := driver, cfSQLUseGORM := useGORM\<rparr>\<rparr>)"

lemma sqlOnly_refl: "sqlOnly srv srv"
  unfolding sqlOnly_def by (rule exI [of _ "cfSQLDriver (svConfig srv)"], rule exI [of _ "cfSQLUseGORM (svConfig srv)"]) simp

lemma dependenciesStep_round:
  assumes "dependenciesStep hs (deps, srv) ls = Some (r, ls')"
  obtains (again) deps' where "r = Inl (deps', srv)"
    | (asked) deps' srv' where "RedissubsHandler \<in> set hs \<longrightarrow> RedisDeps \<in> set deps'" "sqlOnly srv srv'"
        "SqldbDeps \<in> set deps' \<longrightarrow> cfSQLDriver (svConfig srv') \<in> {''postgres'', ''mysql'', ''sqlite3''}"
        "r = (if PostgresListenerHandler \<in> set hs \<and> (SqldbDeps \<notin> set deps' \<or> cfSQLDriver (svConfig srv') \<noteq> ''postgres'')
              then Inl (deps', srv') else Inr (deps', srv'))"
proof -
  obtain cmdInput ls1 ok deps' where r: "readInput ls = (cmdInput, ls1)" "pickDependencies (choiceItems cmdInput) deps = (ok, deps')"
    by (metis surj_pair)
  show thesis
  proof (cases "\<not> ok \<or> RedissubsHandler \<in> set hs \<and> RedisDeps \<notin> set deps'")
    case True
    then have "r = Inl (deps', srv)" using assms r by (auto simp: dependenciesStep_def)
    then show ?thesis by (rule again)
  next
    case False
    then obtain srv' ls2 where s: "(if SqldbDeps \<in> set deps' then selectSQL srv ls1 else Some (srv, ls1)) = Some (srv', ls2)"
        "r = (if PostgresListenerHandler \<in> set hs \<and> (SqldbDeps \<notin> set deps' \<or> cfSQLDriver (svConfig srv') \<noteq> ''postgres'')
              then Inl (deps', srv') else Inr (deps', srv'))"
      using assms r unfolding dependenciesStep_def by (cases "if SqldbDeps \<in> set deps' then selectSQL srv ls1 else Some (srv, ls1)") auto
    have "sqlOnly srv srv' \<and> (SqldbDeps \<in> set deps' \<longrightarrow> cfSQLDriver (svConfig srv') \<in> {''postgres'', ''mysql'', ''sqlite3''})"
    proof (cases "SqldbDeps \<in> set deps'")
      case True
      then obtain driver useGORM where "driver \<in> {''postgres'', ''mysql'', ''sqlite3''}"
          "srv' = srv\<lparr>svConfig := (svConfig srv)\<lparr>cfSQLDriver := driver, cfSQLUseGORM := useGORM\<rparr>\<rparr>"
        using s(1) selectSQL_result [of srv ls1 srv' ls2] by auto
      then show ?thesis unfolding sqlOnly_def by auto
    next
      case False
      then show ?thesis using s(1) sqlOnly_refl by simp
    qed
    then show ?thesis using asked [of deps' srv'] s(2) False by blast
  qed
qed

lemma sqlOnly_trans: "sqlOnly a b \<Longrightarrow> sqlOnly b c \<Longrightarrow> sqlOnly a c"
  unfolding sqlOnly_def by (elim exE) (intro exI, simp)

lemma dependenciesStep_sql:
  assumes "dependenciesStep hs (deps, srv) ls = Some (r, ls')" "sqlOnly srv0 srv"
  shows "sqlOnly srv0 (snd (case r of Inl st \<Rightarrow> st | Inr st \<Rightarrow> st))"
  using assms(1)
proof (cases rule: dependenciesStep_round)
  case (again deps')
  then show ?thesis using assms(2) by simp
next
  case (asked deps' srv')
  then show ?thesis using sqlOnly_trans [OF assms(2)] by simp
qed

definition depsFit :: "string list \<Rightarrow> string list \<times> serviceConfig \<Rightarrow> bool" where
  "depsFit hs p \<longleftrightarrow> (case p of (deps, srv) \<Rightarrow>
     (RedissubsHandler \<in> set hs \<longrightarrow> RedisDeps \<in> set deps) \<and>
     (PostgresListenerHandler \<in> set hs \<longrightarrow> SqldbDeps \<in> set deps \<and> cfSQLDriver (svConfig srv) = ''postgres'') \<and>
     (SqldbDeps \<in> set deps \<longrightarrow> cfSQLDriver (svConfig srv) \<in> {''postgres'', ''mysql'', ''sqlite3''}))"

lemma dependencies_result:
  assumes "repeatUntil (dependenciesStep hs) ([], srv0) ls = Some ((deps, srv), ls')"
  shows "depsFit hs (deps, srv) \<and> sqlOnly srv0 srv"
proof -
  have "depsFit hs (deps, srv) \<and> sqlOnly srv0 (snd (deps, srv))"
  proof (rule repeatUntil_inv [where I = "\<lambda>st. sqlOnly srv0 (snd st)", OF assms])
    show "sqlOnly srv0 (snd ([], srv0))" by (simp add: sqlOnly_refl)
  next
    fix st ls st' ls' assume "sqlOnly srv0 (snd st)" "dependenciesStep hs st ls = Some (Inl st', ls')"
    then show "sqlOnly srv0 (snd st')" using dependenciesStep_sql [of hs "fst st" "snd st" ls "Inl st'" ls' srv0] by simp
  next
    fix st ls and a :: "string list \<times> serviceConfig" and ls' assume st: "sqlOnly srv0 (snd st)" "dependenciesStep hs st ls = Some (Inr a, ls')"
    then have "dependenciesStep hs (fst st, snd st) ls = Some (Inr a, ls')" by simp
    then have "depsFit hs a"
    proof (cases rule: dependenciesStep_round)
      case (asked deps' srv')
      then have "a = (deps', srv')" "\<not> (PostgresListenerHandler \<in> set hs \<and> (SqldbDeps \<notin> set deps' \<or> cfSQLDriver (svConfig srv') \<noteq> ''postgres''))"
        by (simp_all split: if_splits)
      then show ?thesis using asked(1,3) by (simp add: depsFit_def)
    qed simp
    then show "depsFit hs a \<and> sqlOnly srv0 (snd a)" using dependenciesStep_sql [of hs "fst st" "snd st" ls "Inr a" ls' srv0] st by simp
  qed
  then show ?thesis by simp
qed

lemma license_result:
  assumes "stageUseLicense srv ls = Some (srv', ls')"
  shows "\<exists>owner license. srv' = srv\<lparr>svHeader := (svHeader srv)\<lparr>Owner := owner, License := license\<rparr>\<rparr>
     \<and> license \<in> {License (svHeader srv), MitLicense, ApacheLicense, PrivateLicense}"
proof -
  have same: "srv = srv\<lparr>svHeader := (svHeader srv)\<lparr>Owner := Owner (svHeader srv), License := License (svHeader srv)\<rparr>\<rparr>" by simp
  consider "srv' = srv" | owner license ls2 ls3 where "srv' = srv\<lparr>svHeader := (svHeader srv)\<lparr>Owner := owner, License := license\<rparr>\<rparr>"
      "askUntil licenseMap ls2 = Some (license, ls3)"
    using assms by (auto simp: stageUseLicense_def split: Option.bind_splits if_splits)
  then show ?thesis
  proof cases
    case 1
    show ?thesis unfolding 1 by (intro exI conjI) (rule same, simp)
  next
    case 2
    obtain l where "licenseMap l = Some license" using askUntil_accepts [OF 2(2)] by blast
    then have "license \<in> {License (svHeader srv), MitLicense, ApacheLicense, PrivateLicense}" by (simp add: licenseMap_def split: if_splits)
    then show ?thesis by (intro exI conjI) (rule 2(1))
  qed
qed

section \<open>From the first question to the last file\<close>

text \<open>The configuration hangs together: a handler has the dependency it needs, the driver is one of the list, and
  there is a handler.\<close>

definition configFits :: "genConfig \<Rightarrow> bool" where
  "configFits c \<longleftrightarrow> (cfRedisSubsHandler c \<longrightarrow> cfRedisDeps c) \<and>
     (cfPostgresListenerHandler c \<longrightarrow> cfSQLDeps c \<and> cfSQLDriver c = ''postgres'') \<and>
     (cfSQLDeps c \<longrightarrow> cfSQLDriver c \<in> {''postgres'', ''mysql'', ''sqlite3''}) \<and>
     (True \<in> set (serverOn c) \<or> cfIsWorkerActive c)"

lemma finishConfig_result:
  assumes "finishConfig flag srv deps = (flag', srv')"
  shows "serviceName flag' = serviceName flag" "initService flag' = initService flag" "addHandler flag' = addHandler flag"
    "isMonorepo flag' = isMonorepo flag" "outputFlag flag' = outputFlag flag" "ServiceName (svHeader srv') = ServiceName (svHeader srv)"
    "License (svHeader srv') = License (svHeader srv)" "svWorkerPlugins srv' = svWorkerPlugins srv" "svModules srv' = svModules srv"
    "svConfig srv' = checkWorkerActive ((svConfig srv)\<lparr>cfIsMonorepo := isMonorepo flag, cfRedisDeps := RedisDeps \<in> set deps,
       cfSQLDeps := SqldbDeps \<in> set deps, cfMongoDeps := MongodbDeps \<in> set deps, cfArangoDeps := ArangodbDeps \<in> set deps\<rparr>)"
proof -
  have "flag' = fst (finishConfig flag srv deps)" "srv' = snd (finishConfig flag srv deps)" using assms by simp_all
  then show "serviceName flag' = serviceName flag" "initService flag' = initService flag" "addHandler flag' = addHandler flag"
    "isMonorepo flag' = isMonorepo flag" "outputFlag flag' = outputFlag flag" "ServiceName (svHeader srv') = ServiceName (svHeader srv)"
    "License (svHeader srv') = License (svHeader srv)" "svWorkerPlugins srv' = svWorkerPlugins srv" "svModules srv' = svModules srv"
    "svConfig srv' = checkWorkerActive ((svConfig srv)\<lparr>cfIsMonorepo := isMonorepo flag, cfRedisDeps := RedisDeps \<in> set deps,
       cfSQLDeps := SqldbDeps \<in> set deps, cfMongoDeps := MongodbDeps \<in> set deps, cfArangoDeps := ArangodbDeps \<in> set deps\<rparr>)"
    by (simp_all add: finishConfig_def Let_def)
qed

lemma workers_agree:
  "svWorkerPlugins s \<noteq> [] \<longrightarrow> cfWorkerPlugins (svConfig s) \<noteq> [] \<Longrightarrow> svConfig s = checkWorkerActive c \<Longrightarrow> workersAgree s (svConfig s)"
  by (auto simp: workersAgree_def checkWorkerActive_def)

text \<open>What \<open>parseHandlers\<close> establishes for a new service without a saved configuration.\<close>

definition readyFor :: "flagParameter \<Rightarrow> serviceConfig \<Rightarrow> serviceConfig \<Rightarrow> flagParameter \<Rightarrow> bool" where
  "readyFor flag srv0 srv flag' \<longleftrightarrow>
     serviceName flag' = serviceName flag \<and> initService flag' = initService flag \<and> addHandler flag' = addHandler flag \<and>
     isMonorepo flag' = isMonorepo flag \<and> outputFlag flag' = outputFlag flag \<and> ServiceName (svHeader srv) = ServiceName (svHeader srv0) \<and>
     map ModuleName (svModules srv) = map ModuleName (svModules srv0) \<and>
     License (svHeader srv) \<in> {License (svHeader srv0), MitLicense, ApacheLicense, PrivateLicense} \<and>
     pluginsKnown srv \<and> workersAgree srv (svConfig srv) \<and> configFits (svConfig srv)"

lemma parseHandlers_ready:
  assumes "parseHandlers E InitService flag srv0 d ls = Some (Parsed srv flag' d', ls')" "svConfig srv0 = noConfig"
  shows "d' = d \<and> readyFor flag srv0 srv flag'"
proof -
  have no: "InitService \<noteq> AddModule" "InitService \<noteq> AddHandler" by (simp_all add: scope_names)
  obtain hs srv1 ls1 where hs: "repeatUntil (handlersStep d InitService flag) (True, [], srv0) ls = Some ((hs, srv1), ls1)"
    using assms(1) by (auto simp: parseHandlers_def split: Option.bind_splits)
  let ?s1 = "applyHandlers hs srv1"
  obtain deps srv2 ls2 where deps: "repeatUntil (dependenciesStep hs) ([], ?s1) ls1 = Some ((deps, srv2), ls2)"
    using assms(1) hs no by (cases "repeatUntil (dependenciesStep hs) ([], ?s1) ls1") (auto simp: parseHandlers_def Let_def)
  obtain srv3 ls3 where lic: "stageUseLicense srv2 ls2 = Some (srv3, ls3)"
    using assms(1) hs no deps by (cases "stageUseLicense srv2 ls2") (auto simp: parseHandlers_def Let_def)
  obtain srv4 where fin: "finishConfig flag srv3 deps = (flag', srv4)" and srv: "srv = parseDefaultHeader E srv4" "d' = d"
    using assms(1) hs no deps lic by (cases "finishConfig flag srv3 deps") (auto simp: parseHandlers_def Let_def)
  note chosen = handlers_chosen [OF hs]
  note applied = applyHandlers_result [OF chosen [THEN conjunct2] chosen [THEN conjunct1] assms(2)]
  note dep = dependencies_result [OF deps]
  note fc = finishConfig_result [OF fin]
  obtain driver gorm where s2: "srv2 = ?s1\<lparr>svConfig := (svConfig ?s1)\<lparr>cfSQLDriver := driver, cfSQLUseGORM := gorm\<rparr>\<rparr>"
    using dep by (auto simp: sqlOnly_def)
  obtain owner license where s3: "srv3 = srv2\<lparr>svHeader := (svHeader srv2)\<lparr>Owner := owner, License := license\<rparr>\<rparr>"
      "license \<in> {License (svHeader srv2), MitLicense, ApacheLicense, PrivateLicense}"
    using license_result [OF lic] by blast
  have dflt: "svConfig srv = svConfig srv4" "svWorkerPlugins srv = svWorkerPlugins srv4" "svModules srv = svModules srv4"
      "ServiceName (svHeader srv) = ServiceName (svHeader srv4)" "License (svHeader srv) = License (svHeader srv4)"
    by (simp_all add: srv parseDefaultHeader_def)
  have c: "svConfig srv = checkWorkerActive ((svConfig ?s1)\<lparr>cfSQLDriver := driver, cfSQLUseGORM := gorm, cfIsMonorepo := isMonorepo flag, cfRedisDeps := RedisDeps \<in> set deps,
       cfSQLDeps := SqldbDeps \<in> set deps, cfMongoDeps := MongodbDeps \<in> set deps, cfArangoDeps := ArangodbDeps \<in> set deps\<rparr>)"
    using fc(10) by (simp add: dflt s3(1) s2)
  have wp: "svWorkerPlugins srv = svWorkerPlugins ?s1" using fc(8) by (simp add: dflt s3(1) s2)
  have "cfSQLDriver (svConfig srv2) = driver" by (simp add: s2)
  then have "configFits (svConfig srv)"
    using dep applied(5,6,7) unfolding c
    by (auto simp: configFits_def depsFit_def checkWorkerActive_def serverOn_def workerOn_def)
  moreover have "workersAgree srv (svConfig srv)"
  proof (rule workers_agree [OF _ c])
    show "svWorkerPlugins srv \<noteq> [] \<longrightarrow> cfWorkerPlugins (svConfig srv) \<noteq> []" using applied(4) by (simp add: wp c checkWorkerActive_def)
  qed
  moreover have "pluginsKnown srv" using applied(3) by (simp add: pluginsKnown_def wp)
  moreover have "map ModuleName (svModules srv) = map ModuleName (svModules srv0)" using fc(9) applied(2) by (simp add: dflt s3(1) s2)
  moreover have "ServiceName (svHeader srv) = ServiceName (svHeader srv0)" using fc(6) applied(1) by (simp add: dflt s3(1) s2)
  moreover have "License (svHeader srv) \<in> {License (svHeader srv0), MitLicense, ApacheLicense, PrivateLicense}"
    using fc(7) applied(1) s3(2) by (simp add: dflt s3(1)) (simp add: s2)
  ultimately show ?thesis using srv(2) fc(1-5) unfolding readyFor_def by blast
qed

lemma parseInput_ready:
  assumes "parseInput E flag d ls = Some (Parsed srv flag' d', ls')" "scopeFlag flag = ''2''" "loadSavedConfig E flag d = Inr zeroService"
  shows "d' = d \<and> notExist d (serviceName flag') \<and> serviceName flag' = ServiceName (svHeader srv) \<and> initService flag' = initService flag \<and>
    addHandler flag' = addHandler flag \<and> isMonorepo flag' = isMonorepo flag \<and> outputFlag flag' = outputFlag flag \<and>
    License (svHeader srv) \<in> {[], MitLicense, ApacheLicense, PrivateLicense} \<and>
    pluginsKnown srv \<and> workersAgree srv (svConfig srv) \<and> configFits (svConfig srv)"
proof -
  have "scopeMap ''2'' = Some InitService" by (simp add: scopeMap_def)
  then obtain name ls1 where name: "cliStageInputServiceName d ls = Some (name, ls1)"
      and rest: "parseModules E InitService (flag\<lparr>serviceName := name\<rparr>) (zeroService\<lparr>svHeader := zeroHeader\<lparr>ServiceName := name\<rparr>\<rparr>) d ls1 = Some (Parsed srv flag' d', ls')"
    using assms by (auto simp: parseInput_def withSaved_def zeroService_def split: Option.bind_splits)
  obtain l where "(let serviceName = ToDelimited l (CHR ''-'') in if TrimSpace serviceName = [] \<or> \<not> notExist d serviceName then None else Some serviceName) = Some name"
    using name unfolding cliStageInputServiceName_def by (blast dest: askUntil_accepts)
  then have fresh: "notExist d name" by (auto simp: Let_def split: if_splits)
  obtain new mods ls2 where
    "parseHandlers E InitService (flag\<lparr>serviceName := name, flagModules := sortStrings mods\<rparr>)
       (zeroService\<lparr>svHeader := zeroHeader\<lparr>ServiceName := name\<rparr>, svModules := new\<rparr>) d ls2 = Some (Parsed srv flag' d', ls')"
    using rest by (auto simp: parseModules_def stageInputModules_def zeroService_def split: Option.bind_splits)
  from parseHandlers_ready [OF this] show ?thesis using fresh by (auto simp: readyFor_def zeroService_def zeroHeader_def)
qed

text \<open>At the end of the input the question for the name is asked again and again.\<close>

lemma init_dialogue_stuck_at_end:
  assumes "scopeFlag flag = ''2''" "loadSavedConfig E flag d = Inr srv"
  shows "parseInput E flag d [] = None"
proof -
  have "scopeMap ''2'' = Some InitService" by (simp add: scopeMap_def)
  moreover have "cliStageInputServiceName d [] = None"
    by (simp add: cliStageInputServiceName_def askUntil_Nil ToDelimited_def TrimSpace_def)
  ultimately show ?thesis using assms by (simp add: parseInput_def withSaved_def)
qed

text \<open>Every entry of a disk lies in a directory.\<close>

definition wfDisk :: "disk \<Rightarrow> bool" where
  "wfDisk d \<longleftrightarrow> (\<forall>p x. d (p @ [x]) \<noteq> None \<longrightarrow> isDirAt d p)"

lemma absent_fresh: "wfDisk d \<Longrightarrow> p \<noteq> [] \<Longrightarrow> d p = None \<Longrightarrow> freshAt d p"
proof (unfold freshAt_def, intro allI)
  fix q assume a: "wfDisk d" "p \<noteq> []" "d p = None"
  show "d (p @ q) = None"
  proof (induction q rule: rev_induct)
    case (snoc x q)
    have "\<not> isDirAt d (p @ q)" using a(2) snoc by (simp add: isDirAt_def statPath_def)
    then show ?case using a(1) unfolding wfDisk_def by (metis append.assoc)
  qed (use a in simp)
qed

text \<open>C31: A new service from the first question to the last file.  In a working directory that is no monorepo and
  has no \<open>candi.json\<close>, whenever the dialogue ends, its answers hang together (every handler has the
  dependency it needs, the driver and the licence are from their lists, there is a handler), the name is
  free, and, with names that can live side by side, \<open>candi -init\<close> ends with every directory and file of the
  service on the disk and nothing beside the directory of the service changed.\<close>

theorem candi_init_completes:
  assumes "initService flag" "\<not> versionFlag flag" "\<not> runFlag flag" "\<not> initMonorepo flag" "\<not> addHandler flag" "outputFlag flag = []"
    and "wfDisk d" "\<not> isWorkdirMonorepo d" "ReadFile d ''candi.json'' = None"
    and parsed: "parseInput E (flag\<lparr>isMonorepo := False, scopeFlag := ''2''\<rparr>) d ls = Some (Parsed srv flag' d', ls')"
    and names: "component (ServiceName (svHeader srv))" "ServiceName (svHeader srv) \<noteq> ''migration''"
      "modulesApart (svModules srv)" "namesPlain (ceGen E) (svModules srv)"
  shows "configFits (svConfig srv) \<and> License (svHeader srv) \<in> {[], MitLicense, ApacheLicense, PrivateLicense} \<and>
    d [ServiceName (svHeader srv)] = None \<and>
    (\<exists>e. mainRun E flag d ls = Some (Written e) \<and>
      (\<forall>op \<in> set (plan (gvTemplates (ceGen E)) [] (initServiceTree (ceGen E) False flag' (withServiceConfig (sortedService srv)) (newModulesOf flag' (sortedService srv)))).
         madeBy op e) \<and>
      (\<forall>q. q \<notin> below [ServiceName (svHeader srv)] \<longrightarrow> e q = d q))"
proof -
  let ?name = "ServiceName (svHeader srv)"
  have "loadSavedConfig E (flag\<lparr>isMonorepo := False, scopeFlag := ''2''\<rparr>) d = Inr zeroService" using assms(9) by (simp add: loadSavedConfig_def)
  note ready = parseInput_ready [OF parsed _ this]
  have f: "d' = d" "serviceName flag' = ?name" "initService flag'" "\<not> addHandler flag'" "\<not> isMonorepo flag'" "outputFlag flag' = []"
      "pluginsKnown srv" "workersAgree srv (svConfig srv)" "notExist d ?name"
    using ready assms(1,5,6) by auto
  have free: "d [?name] = None" using f(9) names(1) by (auto simp: notExist_def statPath_def component_def pathOf_single [OF names(1)])
  have run: "mainRun E flag d ls = Some (projectGenerator (ceGen E) flag' InitService srv d)"
    using parsed assms(1-4,8) by (simp add: mainRun_def generateParsed_def f(1))
  have root: "isDirAt d (pathOf (outputFlag flag'))" "rootLike (outputFlag flag')" "freshAt d (pathOf (outputFlag flag') @ [serviceName flag'])"
    using absent_fresh [OF assms(7) _ free] by (simp_all add: f isDirAt_def statPath_def rootLike_def)
  obtain e where "projectGenerator (ceGen E) flag' InitService srv d = Written e"
    "\<forall>op \<in> set (plan (gvTemplates (ceGen E)) [] (initServiceTree (ceGen E) (isWorkdirMonorepo d) flag' (withServiceConfig (sortedService srv)) (newModulesOf flag' (sortedService srv)))).
         madeBy op e"
    "\<forall>q. q \<notin> below (pathOf (outputFlag flag') @ [serviceName flag']) \<longrightarrow> e q = d q"
    using init_service_written [OF f(3-5,2) _ _ root(2,1,3) names(3,4) f(7,8)] names(1,2) f(2) by auto
  then show ?thesis using ready run free assms(8) f(2,6) by simp
qed

definition exCliEnv :: cliEnv where
  "exCliEnv = \<lparr>ceGen = exGenEnv, ceYear = 2024, ceRuntime = ''go1.21.3'', ceUnmarshal = (\<lambda>_. zeroService)\<rparr>"

definition exDialogue :: "string list" where
  "exDialogue = [''shop'', ''user'', ''1'', [], [], [], ''n'']"

lemma exDialogue_parsed:
  "case parseInput exCliEnv (exFlag\<lparr>initService := True, isMonorepo := False, scopeFlag := ''2''\<rparr>) Map.empty exDialogue of
     Some (Parsed srv flag' d', ls') \<Rightarrow> ServiceName (svHeader srv) = ''shop'' \<and> modulesApart (svModules srv) \<and> namesPlain exGenEnv (svModules srv)
   | _ \<Rightarrow> False"
  by code_simp

theorem candi_init_completes_witness:
  "\<exists>e. mainRun exCliEnv (exFlag\<lparr>initService := True\<rparr>) Map.empty exDialogue = Some (Written e) \<and> e [''sdk''] = None"
proof -
  let ?flag = "exFlag\<lparr>initService := True\<rparr>"
  obtain srv flag' d' ls' where p: "parseInput exCliEnv (?flag\<lparr>isMonorepo := False, scopeFlag := ''2''\<rparr>) Map.empty exDialogue = Some (Parsed srv flag' d', ls')"
      "ServiceName (svHeader srv) = ''shop''" "modulesApart (svModules srv)" "namesPlain exGenEnv (svModules srv)"
    using exDialogue_parsed by (auto split: option.splits parseResult.splits)
  have env: "ceGen exCliEnv = exGenEnv" by (simp add: exCliEnv_def)
  have shop: "component ''shop''" "''shop'' \<noteq> ''migration''" by (simp_all add: component_def)
  have flags: "\<not> versionFlag ?flag" "\<not> runFlag ?flag" "\<not> initMonorepo ?flag" "\<not> addHandler ?flag" "outputFlag ?flag = []"
    by (simp_all add: exFlag_def)
  have disk: "wfDisk Map.empty" "\<not> isWorkdirMonorepo Map.empty" "ReadFile Map.empty ''candi.json'' = None"
    by (simp_all add: wfDisk_def isWorkdirMonorepo_def isDirAt_def statPath_def ReadFile_def pathOf_def)
  obtain e where "mainRun exCliEnv ?flag Map.empty exDialogue = Some (Written e)" "\<forall>q. q \<notin> below [''shop''] \<longrightarrow> e q = None"
    using candi_init_completes [OF _ flags disk p(1)] p(2-4) shop env by auto
  then show ?thesis by (auto simp: below_def)
qed

end
