(* ===== verification/Spec2Isabelle.thy ===== *)
theory Spec2Isabelle
  imports Task_Live Task_Store Task_Mongo Task_Dashboard Cron_Worker Redis_Cluster Candi_Middleware Graphql_WS Rest_Server Logger_Masker Candi_Shared Grpc_Server Candi_Validator Candi_Cache Candi_Update Gen_Cli
begin

text \<open>
  A verification library for candi, a Go framework for micro services.  Its own logic is a cron
  scheduler, a task queue worker with its stores, queues, locks and dashboard, workers for cron jobs
  and for messages of brokers, middlewares for the servers, helpers that they share, and a generator of
  projects; around it candi binds servers, brokers and databases of third parties.

  \<^bold>\<open>Parts and theories.\<close>  The names of definitions are those of the source where HOL allows it.

  \<^item> Go itself: \<open>Go_Base\<close> (conversions of \<open>strconv\<close> and \<open>strings\<close>, \<open>sort.SearchInts\<close>, the 64 bit
    range), \<open>Go_Time\<close> (\<open>time.Time\<close> as broken-down time with a fixed offset, \<open>Date\<close>, \<open>Add\<close>, \<open>Sub\<close>),
    \<open>Go_Duration\<close> (\<open>ParseDuration\<close> and \<open>Duration.String\<close>), \<open>Go_RFC3339\<close> (the time format),
    \<open>Go_Utf8\<close> (the runes of a string).  They hold
    what the source uses of the language and its library, with the round trips the components need.
  \<^item> The cron parser, \<open>src/candiutils/cronparser\<close>: \<open>Cron_Parser\<close> has the descriptors, the regular
    expressions of the layouts, the field handlers and \<open>Parse\<close>; \<open>Cron_Next\<close> has \<open>Next\<close> and every method of
    \<open>next.go\<close>.  An index panic is a value \<open>Inl\<close>, unbounded recursion is \<open>None\<close>.
  \<^item> \<open>Shared_Queue\<close>: the ring buffer \<open>candishared.Queue\<close>; the locale \<open>refinement\<close> for state machines that
    answer operations.  \<open>Candi_Helper\<close>: \<open>src/candihelper\<close> (conversions, name styles, the daily time
    expression, streaming, the multi error).  \<open>Candi_Locker\<close>: \<open>src/candiutils/locker.go\<close> over the counters
    of a Redis server.
  \<^item> The task queue worker, \<open>src/codebase/app/task_queue_worker\<close>: \<open>Task_Model\<close> (\<open>persistent_model.go\<close>,
    \<open>types.go\<close>: jobs, filters, summaries), \<open>Task_Queue\<close> (\<open>queue_inmem.go\<close>, \<open>queue_redis.go\<close> behind the
    locale \<open>queue_storage\<close>), \<open>Task_SQL\<close> (\<open>persistent_sql.go\<close>, \<open>persistent_sql_tools.go\<close>: the texts of the
    queries and their effect on the tables), \<open>Task_Summary\<close> (\<open>summary.go\<close>; the locale \<open>job_counters\<close>,
    interpreted for both implementations), \<open>Task_Engine\<close> (\<open>job_operation.go\<close>, \<open>trigger_task.go\<close>),
    \<open>Task_Worker\<close> (\<open>task_queue_worker.go\<close>, \<open>internal_task.go\<close>, \<open>configuration.go\<close>, the mutations of
    \<open>graphql_resolver.go\<close>), \<open>Task_Mongo\<close> (\<open>persistent_mongo.go\<close>; the locale \<open>job_store\<close>, which both stores
    interpret), \<open>Task_Dashboard\<close> (\<open>subscribers.go\<close>, \<open>graphql_types.go\<close>, the queries and subscriptions of
    \<open>graphql_resolver.go\<close>).
  \<^item> The other workers, \<open>src/codebase/app\<close>: \<open>Worker_Base\<close> has what they share (event context, handler groups
    and the locale \<open>goroutine_pool\<close> of workers with a semaphore), \<open>Cron_Worker\<close> is \<open>cron_worker.go\<close>,
    \<open>Candi_Broker\<close> the publishers of \<open>src/broker\<close>, \<open>Message_Workers\<close> the consumers of Redis, Kafka,
    RabbitMQ and PostgreSQL, each with its interpretation of \<open>goroutine_pool\<close>, and \<open>Redis_Cluster\<close> several
    instances of the Redis worker over one server.
  \<^item> The edges: \<open>Candi_Middleware\<close> (\<open>src/middleware\<close>: authentication, permissions and the response cache for
    HTTP, gRPC and GraphQL), \<open>Rest_Server\<close> (chains, routes, CORS and the pooled buffers of the tracer),
    \<open>Grpc_Server\<close> (the interceptors of \<open>codebase/app/grpc_server\<close> with the middleware groups and the entry
    points of \<open>tracer\<close>; the locale \<open>interceptor_chain\<close>, interpreted for unary and stream calls),
    \<open>Graphql_WS\<close> (the websocket protocol of GraphQL subscriptions), \<open>Logger_Masker\<close> (\<open>logger/masker.go\<close>),
    \<open>Candi_Shared\<close> (errors, filters, responses, HTTP client, worker pool, start and end of an
    application), \<open>Candi_Validator\<close> (\<open>src/validator\<close>: schema storages, behind the locale \<open>schema_storage\<close>, and
    the validation of documents), \<open>Candi_Cache\<close> (\<open>cache/cache.go\<close>) and \<open>Candi_Update\<close>
    (\<open>candishared/database_update_tools.go\<close>: the columns that an update writes).
  \<^item> The project generator, \<open>src/cmd/candi\<close>: \<open>Gen_Base\<close> has its constants and configurations, the disk as a
    map from paths to nodes, the trees of files with \<open>execGenerator\<close>, and the plan of a tree as reference;
    \<open>Gen_Update\<close> the menus, versions and edits of existing files (\<open>project_generator_utils.go\<close>);
    \<open>Gen_Project\<close> the trees of services, modules, monorepos, handlers and use cases
    (\<open>project_generator.go\<close>, \<open>project_generator_add_handler.go\<close>, \<open>project_generator_add_usecase.go\<close>);
    \<open>Gen_Correct\<close> what a run leaves on the disk; \<open>Gen_Cli\<close> the dialogue on the terminal and the program
    (\<open>cli_parser.go\<close>, \<open>cli_stage.go\<close>, \<open>plugin.go\<close>, \<open>main.go\<close>), with one combinator for labels and their
    \<open>goto\<close>.  \<open>Go_Strings\<close> has the functions of \<open>strings\<close> they use.

  \<^bold>\<open>What is shown.\<close>
  \<^item> Cron: \<open>Cron_Next\<close> shows that \<open>Parse\<close> yields well-formed expressions, that the days of a month are
    those the fields select, and that \<open>Next\<close> is the least matching time after its argument; it has the
    inputs on which the code misreads a month, panics or recurses without end.
  \<^item> Queues, streams and locks: the ring buffer and both queue storages answer every sequence of
    operations like lists; streams visit every element once; the locker excludes mutually as long as
    nobody's \<open>Lock\<close> times out.
  \<^item> \<open>Task_Invariant\<close>, \<open>Task_Startup\<close> and \<open>Task_Correct\<close>: \<open>perform\<close> is one operation of the worker, of any
    kind and in any state, and \<open>performs\<close> a sequence of them; after the start the summary of a task counts its
    jobs exactly until an operation is \<open>irregular\<close> (a stop of a stopped job, a retry of a waiting one, a
    result that comes after its row has changed, a restore, and bulk operations on the empty task name), and
    these let the counters drift; what \<open>AddJob\<close> and \<open>RetryJob\<close> store; the calls that lose a job.
    \<open>Task_Live\<close>: the next waiting job is found and its ticker started, an empty queue is refilled from the
    table, and the end of a run stores the status its result asks for.  \<open>Task_Store\<close>: headers and
    configurations are read back, and the two summaries are equivalent.  \<open>Task_Mongo\<close>: on the operations that
    \<open>opsOk\<close> admits both stores simulate one abstract store, so they answer alike there; they differ for a
    filter without a condition and for the deletion of a job that does not exist.  \<open>Task_Dashboard\<close>: the totals and pages of a job list are those of the
    table, and the clients stay within their limit.  \<open>Task_Example\<close> holds small states for witnesses.
  \<^item> Workers: none has more goroutines than its semaphore allows; a cron job runs in one instance at a
    time and follows its schedule; \<open>Redis_Cluster\<close> cuts the processing of a Redis event at
    its commands, lets the goroutines of all instances interleave there, and shows that the lock lets one of
    them take the message, under hypotheses that it shows to be needed; what a Kafka publisher sends is what
    the handler reads.
  \<^item> Edges: a handler behind authentication runs only with accepted credentials; a websocket client gets
    data only for operations it started, and a closed connection ends them; a gRPC handler runs only behind
    the middlewares of its method, and its panics are caught unless the client switches tracing off; the
    masker hides the value of a keyword; the pool of workers executes every job once; the schema storages
    answer alike; the cache reads back what it stored; an update map is that of the flattened model, with every
    panic of reflection and of the methods of the model.
    Further theorems state the failures that modelling showed, among them the request body that the
    tracer shares with later requests.
  \<^item> Generator: a walk over a tree of files is the execution of its plan; when the dialogue
    for a new service ends, its answers hang together, the service is written whole and nothing beside it
    changes; at the end of the input the dialogue never ends; the version check is the lexicographic order;
    the menus select what they show; the edits miss a module with a dash in its name.

  \<^bold>\<open>Choices.\<close>  Operations are steps on one state; goroutines that an operation starts run where they are
  started, and the running of a handler is split into its start and its end so that other steps fall
  between.  An operation of the task queue worker runs to its end before the next begins; interleavings
  inside an operation are not modelled.  In \<open>Cron_Worker\<close>, \<open>Message_Workers\<close>, \<open>Redis_Cluster\<close>, \<open>Graphql_WS\<close> and \<open>Candi_Shared\<close> the goroutines are steps of
  their own, in any order.  The clock, fresh ids, handlers, the HTTP client, the Redis server, time
  zones and JSON codecs are arguments, and so are the texts of the generator's templates with their
  engine, the plural of a name, the schema library and the tracing platform.  A path of the disk has no
  \<open>..\<close>.  The database follows the SQL standard on the statements used;
  a database that is down answers with an error; \<open>LIKE\<close> is an argument; a time in a row is the time
  that was written, without the precision of the column.  The answers of the Mongo server
  to the queries of the code are the hypothesis \<open>mongoQueries\<close>, those of the Redis server to the commands
  of the cache the hypothesis \<open>redisLaws\<close>, each with an instance.  A value taken from a \<open>sync.Pool\<close> is any
  value put there or a new one.  \<open>registerNextQueued\<close> has as fuel the length of the queue, which is
  enough because every round drops one id; the other recursions are total or return \<open>None\<close> where the
  code would not return.  Go's \<open>int\<close> is \<open>int\<close>; where 64 bits matter (\<open>Atoi\<close>, durations) the range is
  written out.

  \<^bold>\<open>Not modelled.\<close>  The HTTP, gRPC and GraphQL servers themselves, the connections to brokers, the spans
  of tracing platforms, logging, configuration from the environment, and the generator's texts of
  templates are glue around third parties, reflection, texts or output; mocks are generated.  Of the
  modelled parts, option setters, traces, log lines and JSON texts are left out, as the notes of the
  theories say.
\<close>

end
